(* ===== verification/Prelude.thy ===== *)
theory Prelude
  imports Complex_Main
begin

text \<open>
  Shared vocabulary of the development: the collections of rewrite rules the
  component proofs draw on, exceptions as values of a sum type, the small
  part of Python's list and dictionary behaviour that several components
  use, and the two locales that every stateful component interprets
  (an invariant that each operation keeps, and a counter that no operation
  lets go backwards).
\<close>

section \<open>Collections of facts\<close>

named_theorems ops_defs "definitions of the operations of a component"
named_theorems inv_defs "definitions of the invariants"
named_theorems frame_simps "fields an operation leaves alone"

section \<open>Exceptions as values\<close>

text \<open>
  A Python function that may raise returns \<open>py_error + 'a\<close>: \<open>Inl\<close> carries the
  exception class with its message, \<open>Inr\<close> the returned value.
\<close>

datatype py_error =
    ValueError string
  | TypeError string
  | KeyError string
  | RuntimeError string
  | IndexError
  | ZeroDivisionError
  | OverflowError
  | OSError string
  | AttributeError string
  | StructError
  | PngError string
  | SemanticsError string
  | MapError string

type_synonym 'a result = "py_error + 'a"

definition bind_result :: "'a result \<Rightarrow> ('a \<Rightarrow> 'b result) \<Rightarrow> 'b result" where
  "bind_result r f = (case r of Inl e \<Rightarrow> Inl e | Inr a \<Rightarrow> f a)"

lemma bind_result_simps [simp]:
  "bind_result (Inl e) f = Inl e"
  "bind_result (Inr a) f = f a"
  by (simp_all add: bind_result_def)

lemma bind_result_Inr_iff:
  "bind_result r f = Inr b \<longleftrightarrow> (\<exists>a. r = Inr a \<and> f a = Inr b)"
  by (cases r) simp_all

definition is_ok :: "'a result \<Rightarrow> bool" where
  "is_ok r = (case r of Inl e \<Rightarrow> False | Inr a \<Rightarrow> True)"

lemma is_ok_simps [simp]: "\<not> is_ok (Inl e)" "is_ok (Inr a)"
  by (simp_all add: is_ok_def)

lemma is_ok_iff: "is_ok r \<longleftrightarrow> (\<exists>a. r = Inr a)"
  by (cases r) simp_all

section \<open>Options and truth of strings\<close>

text \<open>\<open>bool(text)\<close> of a Python string: every string but the empty one is true.\<close>

definition truthy :: "string \<Rightarrow> bool" where
  "truthy t = (t \<noteq> [])"

lemma truthy_simps [simp]: "\<not> truthy []" "truthy (c # t)"
  by (simp_all add: truthy_def)

lemma truthy_iff: "truthy t \<longleftrightarrow> t \<noteq> []"
  by (simp add: truthy_def)

text \<open>\<open>str(n)\<close> of an integer, \<open>str.strip()\<close> and \<open>needle in text\<close>.\<close>

fun digits :: "nat \<Rightarrow> string" where
  "digits n = (if n < 10 then [char_of (48 + n)] else digits (n div 10) @ [char_of (48 + n mod 10)])"

declare digits.simps [simp del]

definition str_of_int :: "int \<Rightarrow> string" where
  "str_of_int n = (if n < 0 then CHR ''-'' # digits (nat (- n)) else digits (nat n))"

definition is_space :: "char \<Rightarrow> bool" where
  "is_space c = (let n = (of_char c :: nat) in
     (9 \<le> n \<and> n \<le> 13) \<or> (28 \<le> n \<and> n \<le> 32) \<or> n = 133 \<or> n = 160)"

definition py_strip :: "string \<Rightarrow> string" where
  "py_strip t = rev (dropWhile is_space (rev (dropWhile is_space t)))"

fun contains_text :: "string \<Rightarrow> string \<Rightarrow> bool" where
  "contains_text needle [] = (needle = [])"
| "contains_text needle (c # t) = (take (length needle) (c # t) = needle \<or> contains_text needle t)"

text \<open>\<open>sep.join(texts)\<close>.\<close>

fun join :: "string \<Rightarrow> string list \<Rightarrow> string" where
  "join sep [] = []"
| "join sep [t] = t"
| "join sep (t # ts) = t @ sep @ join sep ts"

section \<open>Dictionaries with insertion order\<close>

text \<open>
  A Python dictionary keeps the order in which its keys were first inserted:
  assigning to a present key replaces the value in place, assigning to a new
  key appends it. It is an association list with distinct keys.
\<close>

type_synonym ('k, 'v) pydict = "('k \<times> 'v) list"

fun dict_set :: "('k, 'v) pydict \<Rightarrow> 'k \<Rightarrow> 'v \<Rightarrow> ('k, 'v) pydict" where
  "dict_set [] k v = [(k, v)]"
| "dict_set ((k', v') # d) k v = (if k' = k then (k, v) # d else (k', v') # dict_set d k v)"

definition dict_get :: "('k, 'v) pydict \<Rightarrow> 'k \<Rightarrow> 'v option" where
  "dict_get d k = map_of d k"

definition dict_del :: "('k, 'v) pydict \<Rightarrow> 'k \<Rightarrow> ('k, 'v) pydict" where
  "dict_del d k = filter (\<lambda>p. fst p \<noteq> k) d"

definition dict_keys :: "('k, 'v) pydict \<Rightarrow> 'k list" where
  "dict_keys d = map fst d"

definition dict_wf :: "('k, 'v) pydict \<Rightarrow> bool" where
  "dict_wf d = distinct (map fst d)"

lemma dict_get_set: "dict_get (dict_set d k v) = (dict_get d)(k \<mapsto> v)"
  by (induction d k v rule: dict_set.induct) (auto simp: dict_get_def fun_eq_iff)

lemma dict_get_del: "dict_get (dict_del d k) = (dict_get d)(k := None)"
  by (induction d) (auto simp: dict_get_def dict_del_def fun_eq_iff)

lemma dict_set_keys:
  "set (dict_keys (dict_set d k v)) = insert k (set (dict_keys d))"
  by (induction d k v rule: dict_set.induct) (auto simp: dict_keys_def)

lemma dict_wf_set: "dict_wf d \<Longrightarrow> dict_wf (dict_set d k v)"
proof (induction d k v rule: dict_set.induct)
  case (1 k v)
  then show ?case by (simp add: dict_wf_def)
next
  case (2 k' v' d k v)
  then show ?case
    using dict_set_keys [of d k v] by (auto simp: dict_wf_def dict_keys_def)
qed

lemma dict_wf_del: "dict_wf d \<Longrightarrow> dict_wf (dict_del d k)"
  by (auto simp: dict_wf_def dict_del_def distinct_map_filter)

lemma dict_set_same: "dict_get d k = Some v \<Longrightarrow> dict_set d k v = d"
  by (induction d k v rule: dict_set.induct) (auto simp: dict_get_def split: if_splits)

lemma map_of_rev_distinct: "distinct (map fst fs) \<Longrightarrow> map_of (rev fs) = map_of fs"
  by (intro map_of_inject_set [THEN iffD2]) (simp_all add: rev_map [symmetric])

lemma dict_get_None_iff: "dict_get d k = None \<longleftrightarrow> k \<notin> set (dict_keys d)"
  by (auto simp: dict_get_def dict_keys_def map_of_eq_None_iff image_iff)

text \<open>The contract of a finite store, and the dictionary as its instance.\<close>

locale keyed_store =
  fixes lookup :: "'s \<Rightarrow> 'k \<Rightarrow> 'v option"
    and update :: "'s \<Rightarrow> 'k \<Rightarrow> 'v \<Rightarrow> 's"
    and delete :: "'s \<Rightarrow> 'k \<Rightarrow> 's"
    and wf :: "'s \<Rightarrow> bool"
  assumes lookup_update: "wf s \<Longrightarrow> lookup (update s k v) = (lookup s)(k \<mapsto> v)"
    and lookup_delete: "wf s \<Longrightarrow> lookup (delete s k) = (lookup s)(k := None)"
    and wf_update: "wf s \<Longrightarrow> wf (update s k v)"
    and wf_delete: "wf s \<Longrightarrow> wf (delete s k)"
begin

lemma lookup_update_same: "wf s \<Longrightarrow> lookup (update s k v) k = Some v"
  by (simp add: lookup_update)

lemma lookup_update_other: "wf s \<Longrightarrow> k' \<noteq> k \<Longrightarrow> lookup (update s k v) k' = lookup s k'"
  by (simp add: lookup_update)

lemma lookup_delete_same: "wf s \<Longrightarrow> lookup (delete s k) k = None"
  by (simp add: lookup_delete)

lemma lookup_delete_other: "wf s \<Longrightarrow> k' \<noteq> k \<Longrightarrow> lookup (delete s k) k' = lookup s k'"
  by (simp add: lookup_delete)

lemma update_then_delete:
  "wf s \<Longrightarrow> lookup (delete (update s k v) k) = lookup (delete s k)"
  by (simp add: lookup_delete lookup_update wf_update)

end

interpretation pydict: keyed_store dict_get dict_set dict_del dict_wf
  by unfold_locales (simp_all add: dict_get_set dict_get_del dict_wf_set dict_wf_del)

section \<open>Components as machines\<close>

text \<open>
  A stateful component is a step function over its inputs. An invariant that
  the constructor establishes and every step keeps holds after any sequence
  of inputs.
\<close>

fun run_steps :: "('s \<Rightarrow> 'e \<Rightarrow> 's) \<Rightarrow> 's \<Rightarrow> 'e list \<Rightarrow> 's" where
  "run_steps f s [] = s"
| "run_steps f s (e # es) = run_steps f (f s e) es"

lemma run_steps_append: "run_steps f s (es @ fs) = run_steps f (run_steps f s es) fs"
  by (induction es arbitrary: s) simp_all

locale machine =
  fixes initial :: "'s \<Rightarrow> bool"
    and step :: "'s \<Rightarrow> 'e \<Rightarrow> 's"
    and invar :: "'s \<Rightarrow> bool"
  assumes invar_initial: "initial s \<Longrightarrow> invar s"
    and invar_step: "invar s \<Longrightarrow> invar (step s e)"
begin

lemma invar_run: "invar s \<Longrightarrow> invar (run_steps step s es)"
  by (induction es arbitrary: s) (simp_all add: invar_step)

lemma invar_reachable: "initial s \<Longrightarrow> invar (run_steps step s es)"
  by (simp add: invar_initial invar_run)

end

text \<open>
  A machine with a counter that no step lets go backwards (request ids,
  generations, revisions): whatever was issued before a point of a run is
  never issued again with a smaller number after it.
\<close>

locale counting_machine = machine +
  fixes counter :: "'a \<Rightarrow> 'c::order"
  assumes counter_step: "invar s \<Longrightarrow> counter s \<le> counter (step s e)"
begin

lemma counter_run: "invar s \<Longrightarrow> counter s \<le> counter (run_steps step s es)"
proof (induction es arbitrary: s)
  case Nil
  then show ?case by simp
next
  case (Cons e es)
  have "counter s \<le> counter (step s e)" using Cons.prems by (rule counter_step)
  also have "\<dots> \<le> counter (run_steps step (step s e) es)"
    using Cons.prems by (intro Cons.IH invar_step)
  finally show ?case by simp
qed

lemma counter_prefix:
  "invar s \<Longrightarrow> counter (run_steps step s es) \<le> counter (run_steps step s (es @ fs))"
  by (simp add: run_steps_append counter_run invar_run)

end

end
