(* ===== verification/PyFloat.thy ===== *)
theory PyFloat
  imports Prelude
begin

text \<open>
  Python floats. A value is a finite number, an infinity or a NaN; every
  arithmetic operation computes the exact rational result and rounds it to
  IEEE 754 binary64 (53 significant bits, halves to even, subnormals down to
  \<open>2 powi (-1074)\<close>, overflow to an infinity), as CPython does on the robot's
  hardware. The two zeros are identified: the sources never separate them.
  The second half proves what the components rely on: rounding is monotone
  and odd, keeps integers up to \<open>2 ^ 53\<close>, and is the identity on doubles.
\<close>

section \<open>Rounding to binary64\<close>

text \<open>Nearest integer, halves to even: also Python's \<open>round\<close> of a float.\<close>

definition round_half_even :: "rat \<Rightarrow> int" where
  "round_half_even x =
     (let n = \<lfloor>x\<rfloor>; d = x - of_int n
      in if d < 1 / 2 then n
         else if 1 / 2 < d then n + 1
         else if even n then n else n + 1)"

text \<open>The largest \<open>k\<close> with \<open>2 ^ k \<le> n\<close>, and its extension to positive rationals.\<close>

fun nat_log2 :: "nat \<Rightarrow> nat" where
  "nat_log2 n = (if n < 2 then 0 else Suc (nat_log2 (n div 2)))"

declare nat_log2.simps [simp del]

definition rat_log2 :: "rat \<Rightarrow> int" where
  "rat_log2 q =
     (if 1 \<le> q then int (nat_log2 (nat \<lfloor>q\<rfloor>))
      else - 1 - int (nat_log2 (nat (\<lceil>1 / q\<rceil> - 1))))"

text \<open>The weight of the last place of the double next to \<open>q\<close>.\<close>

definition ulp_exp :: "rat \<Rightarrow> int" where
  "ulp_exp q = max (rat_log2 q - 52) (- 1074)"

definition ulp :: "rat \<Rightarrow> rat" where
  "ulp q = 2 powi ulp_exp q"

definition rnd_pos :: "rat \<Rightarrow> rat" where
  "rnd_pos q = of_int (round_half_even (q / ulp q)) * ulp q"

definition rnd :: "rat \<Rightarrow> rat" where
  "rnd q = (if q = 0 then 0 else if 0 < q then rnd_pos q else - rnd_pos (- q))"

section \<open>Values and operations\<close>

datatype pyfloat = Fin rat | PInf | NInf | NaN

definition f64_limit :: rat where
  "f64_limit = 2 ^ 1024"

definition dbl :: "rat \<Rightarrow> pyfloat" where
  "dbl q = (let r = rnd q
            in if f64_limit \<le> r then PInf else if r \<le> - f64_limit then NInf else Fin r)"

fun isfinite :: "pyfloat \<Rightarrow> bool" where
  "isfinite (Fin q) = True"
| "isfinite _ = False"

fun fneg :: "pyfloat \<Rightarrow> pyfloat" where
  "fneg (Fin q) = Fin (- q)"
| "fneg PInf = NInf"
| "fneg NInf = PInf"
| "fneg NaN = NaN"

fun fadd :: "pyfloat \<Rightarrow> pyfloat \<Rightarrow> pyfloat" where
  "fadd (Fin a) (Fin b) = dbl (a + b)"
| "fadd NaN _ = NaN"
| "fadd _ NaN = NaN"
| "fadd PInf NInf = NaN"
| "fadd NInf PInf = NaN"
| "fadd PInf _ = PInf"
| "fadd NInf _ = NInf"
| "fadd (Fin _) PInf = PInf"
| "fadd (Fin _) NInf = NInf"

definition fsub :: "pyfloat \<Rightarrow> pyfloat \<Rightarrow> pyfloat" where
  "fsub x y = fadd x (fneg y)"

text \<open>The sign of a float, \<open>None\<close> for NaN; the sign of an infinite product.\<close>

fun fsgn :: "pyfloat \<Rightarrow> int option" where
  "fsgn (Fin q) = Some (if q < 0 then - 1 else if q = 0 then 0 else 1)"
| "fsgn PInf = Some 1"
| "fsgn NInf = Some (- 1)"
| "fsgn NaN = None"

definition inf_of_sign :: "int \<Rightarrow> pyfloat" where
  "inf_of_sign s = (if s < 0 then NInf else if s = 0 then NaN else PInf)"

definition fmul :: "pyfloat \<Rightarrow> pyfloat \<Rightarrow> pyfloat" where
  "fmul x y =
     (case (x, y) of
        (Fin a, Fin b) \<Rightarrow> dbl (a * b)
      | _ \<Rightarrow> (case (fsgn x, fsgn y) of
                (Some s, Some t) \<Rightarrow> inf_of_sign (s * t)
              | _ \<Rightarrow> NaN))"

text \<open>Division raises \<open>ZeroDivisionError\<close> on a zero divisor, whatever the dividend.\<close>

definition fdiv :: "pyfloat \<Rightarrow> pyfloat \<Rightarrow> pyfloat result" where
  "fdiv x y =
     (if y = Fin 0 then Inl ZeroDivisionError
      else Inr (case (x, y) of
          (Fin a, Fin b) \<Rightarrow> dbl (a / b)
        | (Fin _, NaN) \<Rightarrow> NaN
        | (Fin _, _) \<Rightarrow> Fin 0
        | (_, Fin b) \<Rightarrow>
            (case fsgn x of
               Some s \<Rightarrow> inf_of_sign (if b < 0 then - s else s)
             | None \<Rightarrow> NaN)
        | _ \<Rightarrow> NaN))"

fun fabs :: "pyfloat \<Rightarrow> pyfloat" where
  "fabs (Fin q) = Fin \<bar>q\<bar>"
| "fabs PInf = PInf"
| "fabs NInf = PInf"
| "fabs NaN = NaN"

text \<open>Comparisons are false whenever a NaN is involved.\<close>

fun flt :: "pyfloat \<Rightarrow> pyfloat \<Rightarrow> bool" where
  "flt (Fin a) (Fin b) = (a < b)"
| "flt NaN _ = False"
| "flt _ NaN = False"
| "flt (Fin _) PInf = True"
| "flt (Fin _) NInf = False"
| "flt PInf _ = False"
| "flt NInf (Fin _) = True"
| "flt NInf PInf = True"
| "flt NInf NInf = False"

fun feq :: "pyfloat \<Rightarrow> pyfloat \<Rightarrow> bool" where
  "feq (Fin a) (Fin b) = (a = b)"
| "feq PInf PInf = True"
| "feq NInf NInf = True"
| "feq _ _ = False"

definition fle :: "pyfloat \<Rightarrow> pyfloat \<Rightarrow> bool" where
  "fle x y = (flt x y \<or> feq x y)"

text \<open>
  Python's two-argument \<open>max\<close> and \<open>min\<close>: the second argument is taken only
  when the comparison with the first is true, so a NaN in second place is
  dropped and a NaN in first place stays.
\<close>

definition fmax :: "pyfloat \<Rightarrow> pyfloat \<Rightarrow> pyfloat" where
  "fmax x y = (if flt x y then y else x)"

definition fmin :: "pyfloat \<Rightarrow> pyfloat \<Rightarrow> pyfloat" where
  "fmin x y = (if flt y x then y else x)"

definition fclamp :: "pyfloat \<Rightarrow> pyfloat \<Rightarrow> pyfloat \<Rightarrow> pyfloat" where
  "fclamp lo hi x = fmax lo (fmin hi x)"

text \<open>\<open>math.copysign\<close> for an argument whose sign is not that of a zero or a NaN.\<close>

definition fcopysign :: "pyfloat \<Rightarrow> pyfloat \<Rightarrow> pyfloat" where
  "fcopysign x y = (if flt y (Fin 0) then fneg (fabs x) else fabs x)"

text \<open>
  \<open>int(x)\<close> truncates towards zero and raises on infinities and NaN;
  \<open>float(n)\<close> of an integer rounds and raises on overflow.
\<close>

definition trunc_rat :: "rat \<Rightarrow> int" where
  "trunc_rat q = (if q < 0 then - \<lfloor>- q\<rfloor> else \<lfloor>q\<rfloor>)"

fun int_of_float :: "pyfloat \<Rightarrow> int result" where
  "int_of_float (Fin q) = Inr (trunc_rat q)"
| "int_of_float NaN = Inl (ValueError ''cannot convert float NaN to integer'')"
| "int_of_float _ = Inl OverflowError"

definition float_of_int :: "int \<Rightarrow> pyfloat result" where
  "float_of_int n = (case dbl (of_int n) of Fin r \<Rightarrow> Inr (Fin r) | _ \<Rightarrow> Inl OverflowError)"

text \<open>A rational that is itself a double.\<close>

definition is_double :: "rat \<Rightarrow> bool" where
  "is_double q = (dbl q = Fin q)"

section \<open>Laws of rounding\<close>


lemma round_half_even_of_int [simp]: "round_half_even (of_int n) = n"
  by (simp add: round_half_even_def)

lemma round_half_even_bounds:
  "of_int (round_half_even x) \<le> x + 1 / 2" "x - 1 / 2 \<le> of_int (round_half_even x)"
  using of_int_floor_le [of x] floor_correct [of x]
  unfolding round_half_even_def Let_def by (simp_all split: if_split) linarith+

lemma round_half_even_unique:
  assumes "\<bar>x - of_int n\<bar> < 1 / 2"
  shows "round_half_even x = n"
proof -
  have "\<bar>of_int (round_half_even x) - of_int n\<bar> < (1::rat)"
    using assms round_half_even_bounds [of x] by linarith
  then have "\<bar>of_int (round_half_even x - n)\<bar> < (1::rat)" by simp
  then have "\<bar>round_half_even x - n\<bar> < 1" by (metis of_int_abs of_int_less_1_iff)
  then show ?thesis by simp
qed

lemma round_half_even_mono:
  assumes "x \<le> y"
  shows "round_half_even x \<le> round_half_even y"
proof (cases "\<lfloor>x\<rfloor> = \<lfloor>y\<rfloor>")
  case True
  then show ?thesis using assms by (auto simp: round_half_even_def Let_def)
next
  case False
  then have "\<lfloor>x\<rfloor> + 1 \<le> \<lfloor>y\<rfloor>" using floor_mono [OF assms] by linarith
  moreover have "round_half_even x \<le> \<lfloor>x\<rfloor> + 1" and "\<lfloor>y\<rfloor> \<le> round_half_even y"
    by (auto simp: round_half_even_def Let_def)
  ultimately show ?thesis by linarith
qed

lemma nat_log2_bounds:
  "1 \<le> n \<Longrightarrow> 2 ^ nat_log2 n \<le> n \<and> n < 2 ^ Suc (nat_log2 n)"
proof (induction n rule: nat_log2.induct)
  case (1 n)
  show ?case
  proof (cases "n < 2")
    case True
    then show ?thesis using "1.prems" by (simp add: nat_log2.simps [of n])
  next
    case False
    then have "2 ^ nat_log2 (n div 2) \<le> n div 2 \<and> n div 2 < 2 ^ Suc (nat_log2 (n div 2))"
      by (intro "1.IH") auto
    then show ?thesis using False by (auto simp: nat_log2.simps [of n])
  qed
qed

lemma nat_log2_bounds_rat:
  assumes "1 \<le> n"
  shows "(2::rat) ^ nat_log2 n \<le> of_nat n" "of_nat n + 1 \<le> (2::rat) ^ Suc (nat_log2 n)"
proof -
  have "2 ^ nat_log2 n \<le> n" "n + 1 \<le> 2 ^ Suc (nat_log2 n)" using nat_log2_bounds [OF assms] by auto
  then have "rat_of_nat (2 ^ nat_log2 n) \<le> of_nat n" "rat_of_nat (n + 1) \<le> of_nat (2 ^ Suc (nat_log2 n))"
    by (simp_all only: of_nat_le_iff)
  then show "(2::rat) ^ nat_log2 n \<le> of_nat n" "of_nat n + 1 \<le> (2::rat) ^ Suc (nat_log2 n)"
    by (simp_all add: add.commute)
qed

lemma rat_log2_ge_one:
  assumes "1 \<le> q"
  shows "2 powi rat_log2 q \<le> q" "q < 2 powi (rat_log2 q + 1)"
proof -
  define n where "n = nat \<lfloor>q\<rfloor>"
  have n1: "1 \<le> n" using assms by (simp add: n_def le_nat_iff le_floor_iff)
  have fl: "of_nat n \<le> q" "q < of_nat n + 1"
    using assms floor_correct [of q] by (simp_all add: n_def)
  have e: "rat_log2 q = int (nat_log2 n)" using assms by (simp add: rat_log2_def n_def)
  have p: "(2::rat) powi rat_log2 q = 2 ^ nat_log2 n"
    "(2::rat) powi (rat_log2 q + 1) = 2 ^ Suc (nat_log2 n)"
    by (simp_all add: e power_int_add)
  show "2 powi rat_log2 q \<le> q" unfolding p
    by (rule order.trans [OF nat_log2_bounds_rat(1) [OF n1] fl(1)])
  show "q < 2 powi (rat_log2 q + 1)" unfolding p
    by (rule less_le_trans [OF fl(2) nat_log2_bounds_rat(2) [OF n1]])
qed

lemma rat_log2_lt_one:
  assumes "0 < q" "q < 1"
  shows "2 powi rat_log2 q \<le> q" "q < 2 powi (rat_log2 q + 1)"
proof -
  define m where "m = nat (\<lceil>1 / q\<rceil> - 1)"
  have q1: "1 < 1 / q" using assms by simp
  then have c: "2 \<le> \<lceil>1 / q\<rceil>" by linarith
  then have m1: "1 \<le> m" unfolding m_def by linarith
  have "int m = \<lceil>1 / q\<rceil> - 1" using c unfolding m_def by linarith
  then have "rat_of_int (int m) = rat_of_int (\<lceil>1 / q\<rceil> - 1)" by (simp only:)
  then have "(of_nat m :: rat) = of_int \<lceil>1 / q\<rceil> - 1" by simp
  then have cl: "of_nat m < 1 / q" "1 / q \<le> of_nat m + 1"
    using ceiling_correct [of "1 / q"] by linarith+
  note p = nat_log2_bounds_rat [OF m1]
  have e: "rat_log2 q = - int (Suc (nat_log2 m))" using assms by (simp add: rat_log2_def m_def)
  have lo: "1 / q \<le> 2 ^ Suc (nat_log2 m)" and hi: "2 ^ nat_log2 m < 1 / q"
    using cl p by linarith+
  have "1 / 2 ^ Suc (nat_log2 m) \<le> q"
    using lo assms by (simp add: field_simps)
  moreover have "q < 1 / 2 ^ nat_log2 m"
    using hi assms by (simp add: field_simps)
  moreover have "(2::rat) powi rat_log2 q = 1 / 2 ^ Suc (nat_log2 m)"
    unfolding e by (subst power_int_minus) (simp add: divide_simps power_int_add)
  moreover have "(2::rat) powi (rat_log2 q + 1) = 1 / 2 ^ nat_log2 m"
    unfolding e by (simp add: power_int_minus divide_simps)
  ultimately show "2 powi rat_log2 q \<le> q" "q < 2 powi (rat_log2 q + 1)" by simp_all
qed

lemma rat_log2_bounds:
  "0 < q \<Longrightarrow> 2 powi rat_log2 q \<le> q \<and> q < 2 powi (rat_log2 q + 1)"
  using rat_log2_ge_one [of q] rat_log2_lt_one [of q] by (cases "1 \<le> q") auto

lemma powi2_le_iff [simp]: "(2::rat) powi a \<le> 2 powi b \<longleftrightarrow> a \<le> b"
  using power_int_strict_increasing [of b a "2::rat"] power_int_increasing [of a b "2::rat"]
  by (cases "a \<le> b") auto

lemma powi2_less_iff [simp]: "(2::rat) powi a < 2 powi b \<longleftrightarrow> a < b"
  by (simp add: less_le_not_le)

lemma rat_log2_mono:
  assumes "0 < x" "x \<le> y"
  shows "rat_log2 x \<le> rat_log2 y"
proof -
  have "2 powi rat_log2 x < (2::rat) powi (rat_log2 y + 1)"
    using rat_log2_bounds [of x] rat_log2_bounds [of y] assms by linarith
  then show ?thesis by simp
qed

lemma rat_log2_unique:
  assumes "2 powi k \<le> q" "q < 2 powi (k + 1)"
  shows "rat_log2 q = k"
proof -
  have "(0::rat) < 2 powi k" by simp
  with assms have q: "0 < q" by linarith
  have "2 powi rat_log2 q < (2::rat) powi (k + 1)" "(2::rat) powi k < 2 powi (rat_log2 q + 1)"
    using rat_log2_bounds [OF q] assms by linarith+
  then show ?thesis by simp
qed

lemma ulp_pos [simp]: "0 < ulp q"
  by (simp add: ulp_def)

lemma ulp_nz [simp]: "ulp q \<noteq> 0"
  by (simp add: ulp_def)

text \<open>Powers of two that are no finer than the last place lie on the grid.\<close>

lemma powi_on_grid:
  assumes "ulp_exp q \<le> k"
  shows "(2::rat) powi k = of_int (2 ^ nat (k - ulp_exp q)) * ulp q"
proof -
  have "(2::rat) powi k = 2 powi (k - ulp_exp q) * 2 powi ulp_exp q"
    by (simp add: power_int_add [symmetric])
  also have "(2::rat) powi (k - ulp_exp q) = of_int (2 ^ nat (k - ulp_exp q))"
    using assms by (simp add: power_int_def)
  finally show ?thesis by (simp add: ulp_def)
qed

lemma rnd_pos_ge_grid: "of_int n * ulp q \<le> q \<Longrightarrow> of_int n * ulp q \<le> rnd_pos q"
proof -
  assume "of_int n * ulp q \<le> q"
  then have "of_int n \<le> q / ulp q" by (simp add: pos_le_divide_eq)
  then have "round_half_even (of_int n) \<le> round_half_even (q / ulp q)" by (rule round_half_even_mono)
  then show ?thesis by (simp add: rnd_pos_def)
qed

lemma rnd_pos_le_grid: "q \<le> of_int n * ulp q \<Longrightarrow> rnd_pos q \<le> of_int n * ulp q"
proof -
  assume "q \<le> of_int n * ulp q"
  then have "q / ulp q \<le> of_int n" by (simp add: pos_divide_le_eq)
  then have "round_half_even (q / ulp q) \<le> round_half_even (of_int n)" by (rule round_half_even_mono)
  then show ?thesis by (simp add: rnd_pos_def)
qed

lemma rnd_pos_le_powi: "ulp_exp q \<le> k \<Longrightarrow> q \<le> 2 powi k \<Longrightarrow> rnd_pos q \<le> 2 powi k"
  using powi_on_grid [of q k] rnd_pos_le_grid [of q "2 ^ nat (k - ulp_exp q)"] by metis

lemma rnd_pos_ge_powi: "ulp_exp q \<le> k \<Longrightarrow> 2 powi k \<le> q \<Longrightarrow> 2 powi k \<le> rnd_pos q"
  using powi_on_grid [of q k] rnd_pos_ge_grid [of "2 ^ nat (k - ulp_exp q)" q] by metis

lemma rnd_pos_nonneg: "0 \<le> q \<Longrightarrow> 0 \<le> rnd_pos q"
  using rnd_pos_ge_grid [of 0 q] by simp

lemma rnd_pos_mono:
  assumes "0 < x" "x \<le> y"
  shows "rnd_pos x \<le> rnd_pos y"
proof (cases "ulp_exp x = ulp_exp y")
  case True
  then have u: "ulp x = ulp y" by (simp add: ulp_def)
  have "x / ulp y \<le> y / ulp y" using assms(2) by (intro divide_right_mono) (simp_all add: less_imp_le)
  then show ?thesis unfolding rnd_pos_def u
    by (intro mult_right_mono) (simp_all add: round_half_even_mono less_imp_le)
next
  case False
  have l: "rat_log2 x \<le> rat_log2 y" using assms by (rule rat_log2_mono)
  with False have e: "ulp_exp y = rat_log2 y - 52" "rat_log2 x < rat_log2 y"
      "ulp_exp x \<le> rat_log2 y"
    by (auto simp: ulp_exp_def)
  have "x < 2 powi (rat_log2 x + 1)" using assms rat_log2_bounds by blast
  also have "\<dots> \<le> (2::rat) powi rat_log2 y" using e by simp
  finally have "rnd_pos x \<le> 2 powi rat_log2 y"
    using e(3) by (intro rnd_pos_le_powi) simp_all
  also have "\<dots> \<le> rnd_pos y"
    using e(1) assms rat_log2_bounds [of y] by (intro rnd_pos_ge_powi) simp_all
  finally show ?thesis .
qed

lemma rnd_zero [simp]: "rnd 0 = 0"
  by (simp add: rnd_def)

lemma rnd_minus [simp]: "rnd (- q) = - rnd q"
  by (simp add: rnd_def)

lemma rnd_mono: "x \<le> y \<Longrightarrow> rnd x \<le> rnd y"
proof -
  assume le: "x \<le> y"
  consider "0 < x" | "x \<le> 0" "0 \<le> y" | "y < 0" by linarith
  then show ?thesis
  proof cases
    case 1
    then show ?thesis using le rnd_pos_mono [of x y] by (simp add: rnd_def)
  next
    case 2
    then show ?thesis using rnd_pos_nonneg [of y] rnd_pos_nonneg [of "- x"]
      by (auto simp: rnd_def)
  next
    case 3
    then show ?thesis using le rnd_pos_mono [of "- y" "- x"] by (simp add: rnd_def)
  qed
qed

lemma rnd_nonneg: "0 \<le> q \<Longrightarrow> 0 \<le> rnd q"
  using rnd_mono [of 0 q] by simp

lemma rnd_pos_exact:
  assumes "0 < m" "m < 2 ^ 53" "- 1074 \<le> e" and q: "q = of_int m * 2 powi e"
  shows "rnd_pos q = q"
proof -
  have qpos: "0 < q" using assms by simp
  have "of_int m < (2::rat) ^ 53" using assms(2) by (metis of_int_less_iff of_int_numeral of_int_power)
  then have "q < 2 ^ 53 * 2 powi e" unfolding q by simp
  also have "\<dots> = 2 powi (53 + e)" by (simp add: power_int_add)
  finally have "2 powi rat_log2 q < (2::rat) powi (53 + e)"
    using rat_log2_bounds [OF qpos] by linarith
  then have "rat_log2 q < 53 + e" by simp
  then have e: "ulp_exp q \<le> e" using assms(3) by (simp add: ulp_exp_def)
  have "q = of_int (m * 2 ^ nat (e - ulp_exp q)) * ulp q"
    using powi_on_grid [OF e] q by simp
  then have "q / ulp q = of_int (m * 2 ^ nat (e - ulp_exp q))" by (metis nonzero_eq_divide_eq ulp_nz)
  then show ?thesis unfolding rnd_pos_def
    by (metis nonzero_eq_divide_eq round_half_even_of_int ulp_nz)
qed

lemma rnd_exact:
  assumes "\<bar>m\<bar> < 2 ^ 53" "- 1074 \<le> e"
  shows "rnd (of_int m * 2 powi e) = of_int m * 2 powi e"
proof -
  have p: "(0::rat) < 2 powi e" by simp
  consider "m = 0" | "0 < m" | "m < 0" by linarith
  then show ?thesis
  proof cases
    case 2
    then show ?thesis using rnd_pos_exact [of m e] assms by (simp add: rnd_def)
  next
    case 3
    then have "of_int m * (2::rat) powi e < 0" by (simp add: mult_neg_pos)
    then show ?thesis using 3 rnd_pos_exact [of "- m" e] assms by (simp add: rnd_def)
  qed simp
qed

text \<open>A certificate for the rounding of a concrete number.\<close>

lemma rnd_eqI:
  assumes "2 powi (e + 52) \<le> q" "q < 2 powi (e + 53)" "- 1074 \<le> e"
    and "\<bar>q / 2 powi e - of_int m\<bar> < 1 / 2"
  shows "rnd q = of_int m * 2 powi e"
proof -
  have "rat_log2 q = e + 52" using assms by (intro rat_log2_unique) (simp_all add: add.assoc)
  then have "ulp_exp q = e" using assms by (simp add: ulp_exp_def)
  moreover have "(0::rat) < 2 powi (e + 52)" by simp
  then have "0 < q" using assms(1) by linarith
  ultimately show ?thesis
    using assms round_half_even_unique [of "q / 2 powi e" m]
    by (simp add: rnd_def rnd_pos_def ulp_def)
qed

section \<open>Laws of the float operations\<close>

lemma f64_limit_pos: "0 < f64_limit"
  by (simp add: f64_limit_def)

lemma dbl_cases:
  obtains (fin) "dbl q = Fin (rnd q)" "- f64_limit < rnd q" "rnd q < f64_limit"
  | (pinf) "dbl q = PInf" "f64_limit \<le> rnd q"
  | (ninf) "dbl q = NInf" "rnd q \<le> - f64_limit"
proof -
  consider "f64_limit \<le> rnd q" | "rnd q \<le> - f64_limit" | "- f64_limit < rnd q" "rnd q < f64_limit"
    by linarith
  then show thesis
    using that f64_limit_pos by cases (auto simp: dbl_def Let_def)
qed

lemma dbl_not_NaN [simp]: "dbl q \<noteq> NaN"
  by (cases q rule: dbl_cases) simp_all

lemma dbl_FinD: "dbl q = Fin r \<Longrightarrow> r = rnd q"
  by (cases q rule: dbl_cases) simp_all

lemma dbl_uminus: "dbl (- q) = fneg (dbl q)"
  using f64_limit_pos by (auto simp: dbl_def Let_def)

lemma dbl_zero [simp]: "dbl 0 = Fin 0"
  using f64_limit_pos by (simp add: dbl_def)

lemma is_double_zero [simp]: "is_double 0"
  by (simp add: is_double_def)

lemma is_double_uminus [simp]: "is_double (- q) \<longleftrightarrow> is_double q"
proof -
  have "is_double q \<Longrightarrow> is_double (- q)" for q by (simp add: is_double_def dbl_uminus)
  from this [of q] this [of "- q"] show ?thesis by auto
qed

lemma is_double_dyadic:
  assumes "\<bar>m\<bar> < 2 ^ 53" "- 1074 \<le> e" "e \<le> 971"
  shows "is_double (of_int m * 2 powi e)"
proof -
  have "\<bar>rat_of_int m\<bar> < 2 ^ 53" using assms(1) by (metis of_int_abs of_int_less_iff of_int_numeral of_int_power)
  then have "\<bar>of_int m * (2::rat) powi e\<bar> < 2 ^ 53 * 2 powi e" by (simp add: abs_mult)
  also have "\<dots> = 2 powi (53 + e)" by (simp add: power_int_add)
  also have "\<dots> \<le> 2 powi 1024" using assms(3) by (simp only: powi2_le_iff)
  also have "\<dots> = f64_limit" unfolding f64_limit_def by (rule power_int_numeral)
  finally show ?thesis using assms by (simp add: is_double_def dbl_def Let_def rnd_exact abs_less_iff)
qed

lemma is_double_int: "\<bar>n\<bar> < 2 ^ 53 \<Longrightarrow> is_double (of_int n)"
  using is_double_dyadic [of n 0] by simp

lemma is_double_one [simp]: "is_double 1"
  using is_double_int [of 1] by simp

lemma is_double_numeral [simp]:
  "(numeral k :: int) < 2 ^ 53 \<Longrightarrow> is_double (numeral k)"
  using is_double_int [of "numeral k"] by simp

lemma is_double_half_powers [simp]:
  "is_double (1 / 2)" "is_double (1 / 4)" "is_double (1 / 8)" "is_double (1 / 16)"
  using is_double_dyadic [of 1 "- 1"] is_double_dyadic [of 1 "- 2"] is_double_dyadic [of 1 "- 3"]
    is_double_dyadic [of 1 "- 4"]
  by (simp_all add: power_int_def power_divide)

lemma dbl_is_double: "is_double q \<Longrightarrow> dbl q = Fin q"
  by (simp add: is_double_def)

lemma dbl_small [simp]:
  "dbl 1 = Fin 1" "dbl (- 1) = Fin (- 1)" "dbl (1 / 2) = Fin (1 / 2)" "dbl (1 / 4) = Fin (1 / 4)"
  by (simp_all add: dbl_is_double)

lemma dbl_numeral [simp]:
  "(numeral k :: int) < 2 ^ 53 \<Longrightarrow> dbl (numeral k) = Fin (numeral k)"
  "(numeral k :: int) < 2 ^ 53 \<Longrightarrow> dbl (- numeral k) = Fin (- numeral k)"
  by (simp_all add: dbl_is_double)

subsection \<open>Order\<close>

lemma fle_simps [simp]:
  "fle (Fin a) (Fin b) \<longleftrightarrow> a \<le> b" "\<not> fle NaN x" "\<not> fle x NaN"
  "fle (Fin a) PInf" "fle NInf (Fin a)" "fle NInf PInf" "fle NInf NInf" "fle PInf PInf"
  "\<not> fle PInf (Fin a)" "\<not> fle (Fin a) NInf" "\<not> fle PInf NInf"
  by (auto simp: fle_def) (cases x; simp)+

lemma fle_infinities [simp]: "fle x PInf \<longleftrightarrow> x \<noteq> NaN" "fle NInf x \<longleftrightarrow> x \<noteq> NaN"
  by (cases x; simp)+

lemma flt_NaN [simp]: "\<not> flt NaN x" "\<not> flt x NaN"
  by (cases x; simp)+

lemma feq_iff: "feq x y \<longleftrightarrow> x = y \<and> x \<noteq> NaN"
  by (cases x; cases y) auto

lemma fle_refl_iff: "fle x x \<longleftrightarrow> x \<noteq> NaN"
  by (cases x) simp_all

lemma fle_trans: "fle x y \<Longrightarrow> fle y z \<Longrightarrow> fle x z"
  by (cases x; cases y; cases z) auto

lemma flt_fle_trans: "flt x y \<Longrightarrow> fle y z \<Longrightarrow> flt x z"
  by (cases x; cases y; cases z) auto

lemma fle_flt_trans: "fle x y \<Longrightarrow> flt y z \<Longrightarrow> flt x z"
  by (cases x; cases y; cases z) auto

lemma flt_imp_fle: "flt x y \<Longrightarrow> fle x y"
  by (simp add: fle_def)

lemma not_fle_iff: "x \<noteq> NaN \<Longrightarrow> y \<noteq> NaN \<Longrightarrow> \<not> fle x y \<longleftrightarrow> flt y x"
  by (cases x; cases y) auto

lemma not_flt_iff: "x \<noteq> NaN \<Longrightarrow> y \<noteq> NaN \<Longrightarrow> \<not> flt x y \<longleftrightarrow> fle y x"
  by (cases x; cases y) auto

lemma flt_not_fle: "flt x y \<Longrightarrow> \<not> fle y x"
  by (cases x; cases y) auto

lemma isfinite_iff: "isfinite x \<longleftrightarrow> (\<exists>q. x = Fin q)"
  by (cases x) simp_all

lemma isfinite_not_NaN: "isfinite x \<Longrightarrow> x \<noteq> NaN"
  by (cases x) simp_all

lemma dbl_mono: "x \<le> y \<Longrightarrow> fle (dbl x) (dbl y)"
  using rnd_mono [of x y] f64_limit_pos by (cases x rule: dbl_cases; cases y rule: dbl_cases) auto

lemma dbl_le_double: "x \<le> q \<Longrightarrow> is_double q \<Longrightarrow> fle (dbl x) (Fin q)"
  using dbl_mono [of x q] by (simp add: is_double_def)

lemma dbl_ge_double: "q \<le> x \<Longrightarrow> is_double q \<Longrightarrow> fle (Fin q) (dbl x)"
  using dbl_mono [of q x] by (simp add: is_double_def)

subsection \<open>Differences, clamps and signs\<close>

lemma fsub_Fin [simp]: "fsub (Fin a) (Fin b) = dbl (a - b)"
  by (simp add: fsub_def)

lemma fmul_Fin [simp]: "fmul (Fin a) (Fin b) = dbl (a * b)"
  by (simp add: fmul_def)

lemma fdiv_Fin [simp]: "fdiv (Fin a) (Fin b) = (if b = 0 then Inl ZeroDivisionError else Inr (dbl (a / b)))"
  by (simp add: fdiv_def)

lemma fsub_self: "isfinite x \<Longrightarrow> fsub x x = Fin 0"
  by (cases x) simp_all

text \<open>Ages measured against a fixed stamp grow with the clock.\<close>

lemma fsub_mono_left: "fle x y \<Longrightarrow> isfinite t \<Longrightarrow> fle (fsub x t) (fsub y t)"
  by (cases x; cases y; cases t) (auto simp: fsub_def intro: dbl_mono)

lemma fmax_ge: "x \<noteq> NaN \<Longrightarrow> fle x (fmax x y)"
  by (auto simp: fmax_def fle_refl_iff flt_imp_fle)

lemma fmin_le: "x \<noteq> NaN \<Longrightarrow> fle (fmin x y) x"
  by (auto simp: fmin_def fle_refl_iff flt_imp_fle)

lemma fmax_Fin [simp]: "fmax (Fin a) (Fin b) = Fin (max a b)"
  by (auto simp: fmax_def)

lemma fmin_Fin [simp]: "fmin (Fin a) (Fin b) = Fin (min a b)"
  by (auto simp: fmin_def)

lemma fclamp_bounds:
  assumes "fle lo hi"
  shows "fle lo (fclamp lo hi x)" "fle (fclamp lo hi x) hi"
  using assms by (cases lo; cases hi; cases x; auto simp: fclamp_def fmax_def fmin_def)+

lemma fclamp_finite:
  "isfinite lo \<Longrightarrow> isfinite hi \<Longrightarrow> isfinite (fclamp lo hi x)"
  by (cases lo; cases hi; cases x) (auto simp: fclamp_def fmax_def fmin_def)

lemma fclamp_id: "fle lo x \<Longrightarrow> fle x hi \<Longrightarrow> fclamp lo hi x = x"
  by (cases lo; cases hi; cases x) (auto simp: fclamp_def fmax_def fmin_def)

lemma fabs_nonneg: "x \<noteq> NaN \<Longrightarrow> fle (Fin 0) (fabs x)"
  by (cases x) simp_all

lemma fabs_fneg [simp]: "fabs (fneg x) = fabs x"
  by (cases x) simp_all

lemma fneg_fneg [simp]: "fneg (fneg x) = x"
  by (cases x) simp_all

lemma isfinite_fneg [simp]: "isfinite (fneg x) = isfinite x"
  by (cases x) simp_all

lemma isfinite_fabs [simp]: "isfinite (fabs x) = isfinite x"
  by (cases x) simp_all

lemma fle_fneg_iff [simp]: "fle (fneg x) (fneg y) \<longleftrightarrow> fle y x"
  by (cases x; cases y) simp_all

lemma fabs_le_iff: "fle (fabs x) b \<longleftrightarrow> fle (fneg b) x \<and> fle x b"
  by (cases x; cases b) (auto simp: abs_le_iff)

section \<open>Rounding twice is rounding once\<close>

lemma rnd_pos_representable:
  assumes "0 < q"
  obtains m e where "\<bar>m\<bar> < 2 ^ 53" "- 1074 \<le> e" "rnd_pos q = of_int m * 2 powi e"
proof -
  define m where "m = round_half_even (q / ulp q)"
  have val: "rnd_pos q = of_int m * 2 powi ulp_exp q" by (simp add: rnd_pos_def m_def ulp_def)
  have lo: "- 1074 \<le> ulp_exp q" by (simp add: ulp_exp_def)
  have "q \<le> 2 powi (rat_log2 q + 1)" using rat_log2_bounds [OF assms] by simp
  also have "\<dots> \<le> 2 powi (ulp_exp q + 53)" by (simp add: ulp_exp_def)
  finally have "rnd_pos q \<le> 2 powi (ulp_exp q + 53)" by (intro rnd_pos_le_powi) simp_all
  also have "\<dots> = 2 ^ 53 * 2 powi ulp_exp q" by (simp add: power_int_add)
  finally have "rat_of_int m \<le> 2 ^ 53" unfolding val by simp
  then have hi: "m \<le> 2 ^ 53" by (metis of_int_le_iff of_int_numeral of_int_power)
  have "\<not> m < 0"
  proof
    assume "m < 0"
    then have "of_int m * (2::rat) powi ulp_exp q < 0" by (intro mult_neg_pos) simp_all
    then show False using rnd_pos_nonneg [of q] assms val by simp
  qed
  then have pos: "0 \<le> m" by simp
  show thesis
  proof (cases "m = 2 ^ 53")
    case True
    have "rnd_pos q = of_int (2 ^ 52) * 2 powi (ulp_exp q + 1)"
      unfolding val True by (simp add: power_int_add)
    then show ?thesis using lo by (intro that [of "2 ^ 52" "ulp_exp q + 1"]) simp_all
  next
    case False
    then show ?thesis using that [OF _ lo val] hi pos by simp
  qed
qed

lemma rnd_rnd [simp]: "rnd (rnd q) = rnd q"
proof -
  have pos: "rnd (rnd_pos p) = rnd_pos p" if "0 < p" for p
    using rnd_pos_representable [OF that] by (metis rnd_exact)
  show ?thesis
    using pos [of q] pos [of "- q"] by (simp add: rnd_def [of q])
qed

lemma dbl_Fin_is_double: "dbl q = Fin r \<Longrightarrow> is_double r"
  by (cases q rule: dbl_cases) (auto simp: is_double_def dbl_def Let_def)

text \<open>The values a Python float can hold: every finite one is a binary64 number.\<close>

definition float_ok :: "pyfloat \<Rightarrow> bool" where
  "float_ok x = (case x of Fin q \<Rightarrow> is_double q | _ \<Rightarrow> True)"

lemma float_ok_simps [simp]:
  "float_ok (Fin q) = is_double q" "float_ok PInf" "float_ok NInf" "float_ok NaN"
  by (simp_all add: float_ok_def)

lemma float_ok_dbl [simp]: "float_ok (dbl q)"
  by (cases "dbl q") (auto simp: dbl_Fin_is_double)

lemma float_ok_fneg [simp]: "float_ok (fneg x) = float_ok x"
  by (cases x) simp_all

lemma float_ok_fadd [simp]: "float_ok (fadd x y)"
  by (cases x; cases y) simp_all

lemma float_ok_fmul [simp]: "float_ok (fmul x y)"
  by (cases x; cases y) (simp_all add: fmul_def inf_of_sign_def)

lemma float_ok_fmax [intro]: "float_ok x \<Longrightarrow> float_ok y \<Longrightarrow> float_ok (fmax x y)"
  by (simp add: fmax_def)

lemma float_ok_fmin [intro]: "float_ok x \<Longrightarrow> float_ok y \<Longrightarrow> float_ok (fmin x y)"
  by (simp add: fmin_def)

lemma fmul_one [simp]: "float_ok x \<Longrightarrow> fmul (Fin 1) x = x"
  by (cases x) (simp_all add: fmul_def dbl_is_double inf_of_sign_def)

lemma fmul_minus_one [simp]: "float_ok x \<Longrightarrow> fmul (Fin (- 1)) x = fneg x"
  by (cases x) (simp_all add: fmul_def dbl_is_double dbl_uminus inf_of_sign_def)

lemma fle_dbl_double: "fle x (dbl q) \<Longrightarrow> x = Fin r \<Longrightarrow> fle (dbl r) (dbl q)"
  by (cases q rule: dbl_cases)
     (auto intro: dbl_le_double dbl_Fin_is_double)

text \<open>Taking the sign of the command keeps a magnitude inside its limit.\<close>

lemma signed_magnitude_bound:
  assumes "s = Fin 1 \<or> s = Fin (- 1)" "fle (Fin 0) x" "fle x (Fin m)" "is_double m"
  shows "fle (fabs (fmul s x)) (Fin m)"
proof -
  obtain q where x: "x = Fin q" "0 \<le> q" "q \<le> m" using assms(2,3) by (cases x) auto
  have "fle (dbl q) (Fin m)" "fle (Fin 0) (dbl q)"
    using x assms(4) dbl_le_double [of q m] dbl_ge_double [of 0 q] by simp_all
  then show ?thesis using assms(1) x by (cases "dbl q") (auto simp: dbl_uminus)
qed

lemma fclamp_Fin: "lo \<le> hi \<Longrightarrow> \<exists>q. fclamp (Fin lo) (Fin hi) x = Fin q \<and> lo \<le> q \<and> q \<le> hi"
  by (cases x) (auto simp: fclamp_def fmax_def fmin_def)

end
