(* ===== verification/StateMachine.thy ===== *)
theory StateMachine
  imports PyFloat
begin

text \<open>
  \<open>runner_paddock/state_machine.py\<close>: the mode and command-authority reducer.
  \<open>paddock_state\<close> is the dataclass \<open>PaddockState\<close> (fields prefixed \<open>ps_\<close>), the
  keyword arguments of \<open>transition\<close> are the record \<open>event_args\<close>, and each event's
  branch is one definition that \<open>transition\<close> composes in the source's order.
  The lemmas establish the invariant \<open>ps_inv\<close> (navigation runs exactly when
  the autonomy interlock is closed, and no grant outlives the lease, the
  mode or the map it was given for) and what each event may emit.
\<close>

section \<open>Data\<close>

datatype mode = MODE_IDLE | MODE_MAPPING | MODE_AUTONOMY

datatype authority = AUTH_NONE | AUTH_DUALSENSE | AUTH_PADDOCK_MANUAL | AUTH_PADDOCK_AUTONOMY

datatype event =
    EV_ACQUIRE_LEASE | EV_RELEASE_LEASE | EV_LOSE_LEASE | EV_REQUEST_MODE | EV_SELECT_GOAL
  | EV_RUN_PRESS | EV_RUN_RELEASE | EV_STOP | EV_MANUAL_ACTIVE | EV_MANUAL_INACTIVE
  | EV_DUALSENSE_ACTIVE | EV_DUALSENSE_INACTIVE | EV_SET_ACTIVE_MAP | EV_RESTART

datatype effect =
    EFF_BRAKE | EFF_CANCEL_NAVIGATION | EFF_DISPATCH_GOAL | EFF_LEASE_GRANTED | EFF_LEASE_REJECTED

record goal_intent =
  gi_map_name :: string
  gi_x :: pyfloat
  gi_y :: pyfloat
  gi_yaw :: pyfloat

record paddock_state =
  ps_mode :: mode
  ps_accepted_mode_request_id :: int
  ps_active_autonomy_map :: string
  ps_lease_client_id :: string
  ps_lease_id :: string
  ps_lease_generation :: int
  ps_dualsense_active :: bool
  ps_run_held :: bool
  ps_run_blocked_until_release :: bool
  ps_manual_active :: bool
  ps_goal :: "goal_intent option"
  ps_navigation_active :: bool

text \<open>\<open>PaddockState(active_autonomy_map=m)\<close>: every other field at its default.\<close>

definition initial_state :: "string \<Rightarrow> paddock_state" where
  "initial_state m =
     \<lparr>ps_mode = MODE_IDLE, ps_accepted_mode_request_id = 0, ps_active_autonomy_map = m,
      ps_lease_client_id = '''', ps_lease_id = '''', ps_lease_generation = 0,
      ps_dualsense_active = False, ps_run_held = False, ps_run_blocked_until_release = False,
      ps_manual_active = False, ps_goal = None, ps_navigation_active = False\<rparr>"

record event_args =
  ea_client_id :: string
  ea_lease_id :: string
  ea_mode :: "mode option"
  ea_request_id :: int
  ea_goal :: "goal_intent option"
  ea_active_autonomy_map :: "string option"

definition no_args :: event_args where
  "no_args = \<lparr>ea_client_id = '''', ea_lease_id = '''', ea_mode = None, ea_request_id = 0,
              ea_goal = None, ea_active_autonomy_map = None\<rparr>"

section \<open>Derived properties\<close>

definition lease_active :: "paddock_state \<Rightarrow> bool" where
  "lease_active s = truthy (ps_lease_id s)"

definition autonomy_permitted :: "paddock_state \<Rightarrow> bool" where
  "autonomy_permitted s =
     (ps_mode s = MODE_AUTONOMY \<and> lease_active s \<and> ps_run_held s
      \<and> \<not> ps_run_blocked_until_release s \<and> \<not> ps_dualsense_active s \<and> ps_goal s \<noteq> None)"

definition authority_of :: "paddock_state \<Rightarrow> authority" where
  "authority_of s =
     (if ps_mode s = MODE_IDLE then AUTH_NONE
      else if ps_dualsense_active s then AUTH_DUALSENSE
      else if ps_mode s \<in> {MODE_MAPPING, MODE_AUTONOMY} \<and> lease_active s \<and> ps_manual_active s
           then AUTH_PADDOCK_MANUAL
      else if autonomy_permitted s then AUTH_PADDOCK_AUTONOMY
      else AUTH_NONE)"

definition owns_lease :: "paddock_state \<Rightarrow> string \<Rightarrow> bool" where
  "owns_lease s l = (lease_active s \<and> l = ps_lease_id s)"

definition stop_effects :: "paddock_state \<Rightarrow> effect list" where
  "stop_effects s =
     (if ps_navigation_active s then [EFF_BRAKE, EFF_CANCEL_NAVIGATION] else [EFF_BRAKE])"

section \<open>The reducer, one branch per definition\<close>

type_synonym paddock_transition = "paddock_state \<times> effect list"

definition on_restart :: "paddock_state \<Rightarrow> event_args \<Rightarrow> paddock_transition" where
  "on_restart s a =
     (initial_state (case ea_active_autonomy_map a of
                       None \<Rightarrow> ps_active_autonomy_map s | Some m \<Rightarrow> m), [])"

definition on_set_active_map :: "paddock_state \<Rightarrow> event_args \<Rightarrow> paddock_transition" where
  "on_set_active_map s a =
     (case ea_active_autonomy_map a of
        None \<Rightarrow> (s, [])
      | Some m \<Rightarrow>
          (let changed = (m \<noteq> ps_active_autonomy_map s)
           in (s\<lparr>ps_active_autonomy_map := m,
                 ps_run_held := (if changed then False else ps_run_held s),
                 ps_run_blocked_until_release :=
                   (if changed then False else ps_run_blocked_until_release s),
                 ps_manual_active := (if changed then False else ps_manual_active s),
                 ps_goal := (if changed then None else ps_goal s),
                 ps_navigation_active := (if changed then False else ps_navigation_active s)\<rparr>,
               if changed then stop_effects s else [])))"

definition on_acquire_lease :: "paddock_state \<Rightarrow> event_args \<Rightarrow> paddock_transition" where
  "on_acquire_lease s a =
     (if lease_active s \<or> \<not> truthy (ea_client_id a) \<or> \<not> truthy (ea_lease_id a)
      then (s, [EFF_LEASE_REJECTED])
      else (s\<lparr>ps_lease_client_id := ea_client_id a, ps_lease_id := ea_lease_id a,
              ps_lease_generation := ps_lease_generation s + 1,
              ps_accepted_mode_request_id := 0\<rparr>, [EFF_LEASE_GRANTED]))"

definition on_lease_end :: "paddock_state \<Rightarrow> event_args \<Rightarrow> paddock_transition" where
  "on_lease_end s a =
     (if \<not> owns_lease s (ea_lease_id a) then (s, [])
      else (s\<lparr>ps_lease_client_id := '''', ps_lease_id := '''',
              ps_lease_generation := ps_lease_generation s + 1,
              ps_run_held := False, ps_run_blocked_until_release := False,
              ps_manual_active := False, ps_goal := None,
              ps_navigation_active := False\<rparr>, stop_effects s))"

definition on_dualsense_active :: "paddock_state \<Rightarrow> paddock_transition" where
  "on_dualsense_active s =
     (if ps_dualsense_active s then (s, [])
      else (s\<lparr>ps_dualsense_active := True,
              ps_run_blocked_until_release := ps_run_held s,
              ps_manual_active := False, ps_navigation_active := False\<rparr>,
            if authority_of s \<in> {AUTH_PADDOCK_MANUAL, AUTH_PADDOCK_AUTONOMY}
            then stop_effects s else []))"

definition on_dualsense_inactive :: "paddock_state \<Rightarrow> paddock_transition" where
  "on_dualsense_inactive s = (s\<lparr>ps_dualsense_active := False\<rparr>, [])"

definition on_request_mode :: "paddock_state \<Rightarrow> event_args \<Rightarrow> paddock_transition" where
  "on_request_mode s a =
     (case ea_mode a of
        None \<Rightarrow> (s, [])
      | Some m \<Rightarrow>
          if ea_request_id a \<le> ps_accepted_mode_request_id s then (s, [])
          else if m = ps_mode s
          then (s\<lparr>ps_accepted_mode_request_id := ea_request_id a\<rparr>, [])
          else (s\<lparr>ps_mode := m, ps_accepted_mode_request_id := ea_request_id a,
                  ps_run_held := False, ps_run_blocked_until_release := False,
                  ps_manual_active := False, ps_goal := None,
                  ps_navigation_active := False\<rparr>, stop_effects s))"

definition on_select_goal :: "paddock_state \<Rightarrow> event_args \<Rightarrow> paddock_transition" where
  "on_select_goal s a =
     (case ea_goal a of
        None \<Rightarrow> (s, [])
      | Some g \<Rightarrow>
          if ps_mode s \<noteq> MODE_AUTONOMY \<or> \<not> truthy (ps_active_autonomy_map s)
             \<or> gi_map_name g \<noteq> ps_active_autonomy_map s
          then (s, [])
          else
            (let effects = (if ps_navigation_active s
                            then [EFF_BRAKE, EFF_CANCEL_NAVIGATION] else []);
                 new_state = s\<lparr>ps_goal := Some g, ps_navigation_active := False\<rparr>
             in if autonomy_permitted new_state
                then (new_state\<lparr>ps_navigation_active := True\<rparr>, effects @ [EFF_DISPATCH_GOAL])
                else (new_state, effects)))"

definition on_run_press :: "paddock_state \<Rightarrow> paddock_transition" where
  "on_run_press s =
     (if ps_run_held s then (s, [])
      else (let new_state = s\<lparr>ps_run_held := True,
                              ps_run_blocked_until_release := ps_dualsense_active s\<rparr>
            in if autonomy_permitted new_state
               then (new_state\<lparr>ps_navigation_active := True\<rparr>, [EFF_DISPATCH_GOAL])
               else (new_state, [])))"

definition on_run_release :: "paddock_state \<Rightarrow> paddock_transition" where
  "on_run_release s =
     (if \<not> ps_run_held s \<and> \<not> ps_run_blocked_until_release s then (s, [])
      else (s\<lparr>ps_run_held := False, ps_run_blocked_until_release := False,
              ps_navigation_active := False\<rparr>, stop_effects s))"

definition on_stop :: "paddock_state \<Rightarrow> paddock_transition" where
  "on_stop s =
     (s\<lparr>ps_run_held := False, ps_run_blocked_until_release := False,
        ps_manual_active := False, ps_navigation_active := False\<rparr>, stop_effects s)"

definition on_manual_active :: "paddock_state \<Rightarrow> paddock_transition" where
  "on_manual_active s =
     (if ps_mode s \<notin> {MODE_MAPPING, MODE_AUTONOMY} \<or> ps_dualsense_active s then (s, [])
      else (s\<lparr>ps_manual_active := True, ps_run_held := False,
              ps_run_blocked_until_release := False, ps_navigation_active := False\<rparr>,
            if ps_navigation_active s then [EFF_BRAKE, EFF_CANCEL_NAVIGATION] else []))"

definition on_manual_inactive :: "paddock_state \<Rightarrow> paddock_transition" where
  "on_manual_inactive s =
     (if \<not> ps_manual_active s then (s, [])
      else (s\<lparr>ps_manual_active := False\<rparr>, [EFF_BRAKE]))"

definition transition :: "paddock_state \<Rightarrow> event \<Rightarrow> event_args \<Rightarrow> paddock_transition" where
  "transition s e a =
     (if e = EV_RESTART then on_restart s a
      else if e = EV_SET_ACTIVE_MAP then on_set_active_map s a
      else if e = EV_ACQUIRE_LEASE then on_acquire_lease s a
      else if e \<in> {EV_RELEASE_LEASE, EV_LOSE_LEASE} then on_lease_end s a
      else if e = EV_DUALSENSE_ACTIVE then on_dualsense_active s
      else if e = EV_DUALSENSE_INACTIVE then on_dualsense_inactive s
      else if \<not> owns_lease s (ea_lease_id a) then (s, [])
      else if e = EV_REQUEST_MODE then on_request_mode s a
      else if e = EV_SELECT_GOAL then on_select_goal s a
      else if e = EV_RUN_PRESS then on_run_press s
      else if e = EV_RUN_RELEASE then on_run_release s
      else if e = EV_STOP then on_stop s
      else if e = EV_MANUAL_ACTIVE then on_manual_active s
      else if e = EV_MANUAL_INACTIVE then on_manual_inactive s
      else (s, []))"

section \<open>The invariant\<close>

definition ps_inv :: "paddock_state \<Rightarrow> bool" where
  [inv_defs]: "ps_inv s \<longleftrightarrow>
     (ps_navigation_active s \<longleftrightarrow> autonomy_permitted s)
     \<and> (lease_active s \<longleftrightarrow> truthy (ps_lease_client_id s))
     \<and> (ps_run_held s \<longrightarrow> lease_active s)
     \<and> (ps_run_blocked_until_release s \<longrightarrow> ps_run_held s)
     \<and> (ps_dualsense_active s \<and> ps_run_held s \<longrightarrow> ps_run_blocked_until_release s)
     \<and> (ps_manual_active s \<longrightarrow>
          lease_active s \<and> ps_mode s \<noteq> MODE_IDLE \<and> \<not> ps_dualsense_active s)
     \<and> (\<forall>g. ps_goal s = Some g \<longrightarrow>
          lease_active s \<and> ps_mode s = MODE_AUTONOMY \<and> truthy (ps_active_autonomy_map s)
          \<and> gi_map_name g = ps_active_autonomy_map s)"

lemmas sm_defs = autonomy_permitted_def lease_active_def owns_lease_def stop_effects_def

lemma ps_inv_initial: "ps_inv (initial_state m)"
  by (simp add: ps_inv_def sm_defs initial_state_def)

lemma on_restart_inv: "ps_inv (fst (on_restart s a))"
  by (simp add: on_restart_def ps_inv_initial)

lemma on_set_active_map_inv: "ps_inv s \<Longrightarrow> ps_inv (fst (on_set_active_map s a))"
  by (auto simp: on_set_active_map_def ps_inv_def sm_defs Let_def split: option.splits)

lemma on_acquire_lease_inv: "ps_inv s \<Longrightarrow> ps_inv (fst (on_acquire_lease s a))"
  by (auto simp: on_acquire_lease_def ps_inv_def sm_defs)

lemma on_lease_end_inv: "ps_inv s \<Longrightarrow> ps_inv (fst (on_lease_end s a))"
  by (auto simp: on_lease_end_def ps_inv_def sm_defs)

lemma on_dualsense_active_inv: "ps_inv s \<Longrightarrow> ps_inv (fst (on_dualsense_active s))"
  by (auto simp: on_dualsense_active_def ps_inv_def sm_defs)

lemma on_dualsense_inactive_inv: "ps_inv s \<Longrightarrow> ps_inv (fst (on_dualsense_inactive s))"
  by (auto simp: on_dualsense_inactive_def ps_inv_def sm_defs)

lemma on_request_mode_inv: "ps_inv s \<Longrightarrow> ps_inv (fst (on_request_mode s a))"
  by (auto simp: on_request_mode_def ps_inv_def sm_defs split: option.splits)

lemma on_select_goal_inv:
  "ps_inv s \<Longrightarrow> lease_active s \<Longrightarrow> ps_inv (fst (on_select_goal s a))"
  by (auto simp: on_select_goal_def ps_inv_def sm_defs Let_def split: option.splits)

lemma on_run_press_inv: "ps_inv s \<Longrightarrow> lease_active s \<Longrightarrow> ps_inv (fst (on_run_press s))"
  by (auto simp: on_run_press_def ps_inv_def sm_defs Let_def)

lemma on_run_release_inv: "ps_inv s \<Longrightarrow> ps_inv (fst (on_run_release s))"
  by (auto simp: on_run_release_def ps_inv_def sm_defs)

lemma on_stop_inv: "ps_inv s \<Longrightarrow> ps_inv (fst (on_stop s))"
  by (auto simp: on_stop_def ps_inv_def sm_defs)

lemma on_manual_active_inv: "ps_inv s \<Longrightarrow> lease_active s \<Longrightarrow> ps_inv (fst (on_manual_active s))"
  by (auto simp: on_manual_active_def ps_inv_def sm_defs)

lemma on_manual_inactive_inv: "ps_inv s \<Longrightarrow> ps_inv (fst (on_manual_inactive s))"
  by (auto simp: on_manual_inactive_def ps_inv_def sm_defs)

lemmas branch_invs = on_restart_inv on_set_active_map_inv on_acquire_lease_inv on_lease_end_inv
  on_dualsense_active_inv on_dualsense_inactive_inv on_request_mode_inv on_select_goal_inv
  on_run_press_inv on_run_release_inv on_stop_inv on_manual_active_inv on_manual_inactive_inv

lemma transition_inv: "ps_inv s \<Longrightarrow> ps_inv (fst (transition s e a))"
  by (simp add: transition_def branch_invs owns_lease_def)

definition ps_step :: "paddock_state \<Rightarrow> event \<times> event_args \<Rightarrow> paddock_state" where
  "ps_step s ea = fst (transition s (fst ea) (snd ea))"

definition ps_initial :: "paddock_state \<Rightarrow> bool" where
  "ps_initial s \<longleftrightarrow> (\<exists>m. s = initial_state m)"

interpretation paddock: machine ps_initial ps_step ps_inv
  by unfold_locales (auto simp: ps_initial_def ps_inv_initial ps_step_def transition_inv)

section \<open>Branch lemmas\<close>

text \<open>Every definition of a branch, for case analyses over the whole reducer.\<close>

lemmas branch_defs = on_restart_def on_set_active_map_def on_acquire_lease_def on_lease_end_def
  on_dualsense_active_def on_dualsense_inactive_def on_request_mode_def on_select_goal_def
  on_run_press_def on_run_release_def on_stop_def on_manual_active_def on_manual_inactive_def

lemma transition_simps:
  "transition s EV_RESTART a = on_restart s a"
  "transition s EV_SET_ACTIVE_MAP a = on_set_active_map s a"
  "transition s EV_ACQUIRE_LEASE a = on_acquire_lease s a"
  "transition s EV_RELEASE_LEASE a = on_lease_end s a"
  "transition s EV_LOSE_LEASE a = on_lease_end s a"
  "transition s EV_DUALSENSE_ACTIVE a = on_dualsense_active s"
  "transition s EV_DUALSENSE_INACTIVE a = on_dualsense_inactive s"
  "transition s EV_REQUEST_MODE a =
     (if owns_lease s (ea_lease_id a) then on_request_mode s a else (s, []))"
  "transition s EV_SELECT_GOAL a =
     (if owns_lease s (ea_lease_id a) then on_select_goal s a else (s, []))"
  "transition s EV_RUN_PRESS a =
     (if owns_lease s (ea_lease_id a) then on_run_press s else (s, []))"
  "transition s EV_RUN_RELEASE a =
     (if owns_lease s (ea_lease_id a) then on_run_release s else (s, []))"
  "transition s EV_STOP a = (if owns_lease s (ea_lease_id a) then on_stop s else (s, []))"
  "transition s EV_MANUAL_ACTIVE a =
     (if owns_lease s (ea_lease_id a) then on_manual_active s else (s, []))"
  "transition s EV_MANUAL_INACTIVE a =
     (if owns_lease s (ea_lease_id a) then on_manual_inactive s else (s, []))"
  by (simp_all add: transition_def)

text \<open>No event but a RUN press lets a held RUN become unblocked.\<close>

definition run_disarmed :: "paddock_state \<Rightarrow> bool" where
  "run_disarmed s = (ps_run_held s \<longrightarrow> ps_run_blocked_until_release s)"

lemma run_disarmed_step:
  "run_disarmed s \<Longrightarrow> e \<noteq> EV_RUN_PRESS \<Longrightarrow> run_disarmed (fst (transition s e a))"
  by (cases e)
    (auto simp: transition_simps branch_defs run_disarmed_def initial_state_def Let_def
      split: option.splits)

lemma run_disarmed_run:
  "run_disarmed s \<Longrightarrow> \<forall>ea \<in> set es. fst ea \<noteq> EV_RUN_PRESS \<Longrightarrow> run_disarmed (run_steps ps_step s es)"
  by (induction es arbitrary: s) (simp_all add: ps_step_def run_disarmed_step)

lemma run_disarmed_not_permitted: "run_disarmed s \<Longrightarrow> \<not> autonomy_permitted s"
  by (auto simp: run_disarmed_def autonomy_permitted_def)

lemma dualsense_disarms: "ps_inv s \<Longrightarrow> ps_dualsense_active s \<Longrightarrow> run_disarmed s"
  by (simp add: ps_inv_def run_disarmed_def)

text \<open>Revocation of a running navigation, event by event.\<close>

lemma authority_of_navigating:
  "ps_inv s \<Longrightarrow> ps_navigation_active s \<Longrightarrow>
   authority_of s \<in> {AUTH_PADDOCK_MANUAL, AUTH_PADDOCK_AUTONOMY}"
  by (auto simp: ps_inv_def authority_of_def autonomy_permitted_def)

lemma revocation_effects:
  assumes "ps_inv s" "ps_navigation_active s" "e \<noteq> EV_RESTART"
    and "\<not> ps_navigation_active (fst (transition s e a))"
  shows "snd (transition s e a) = [EFF_BRAKE, EFF_CANCEL_NAVIGATION]"
  using assms authority_of_navigating [OF assms(1,2)]
  by (cases e)
    (auto simp: transition_simps branch_defs stop_effects_def Let_def ps_inv_def
      autonomy_permitted_def lease_active_def split: option.splits if_splits)

lemma dispatch_needs_permission:
  "EFF_DISPATCH_GOAL \<in> set (snd (transition s e a)) \<Longrightarrow>
   autonomy_permitted (fst (transition s e a)) \<and> ps_navigation_active (fst (transition s e a))"
  by (cases e)
    (auto simp: transition_simps branch_defs stop_effects_def Let_def autonomy_permitted_def
      lease_active_def split: option.splits if_splits)

lemma foreign_event_ignored:
  assumes "\<not> owns_lease s (ea_lease_id a)"
    and "e \<notin> {EV_RESTART, EV_SET_ACTIVE_MAP, EV_ACQUIRE_LEASE,
               EV_DUALSENSE_ACTIVE, EV_DUALSENSE_INACTIVE}"
  shows "transition s e a = (s, [])"
  using assms by (cases e) (auto simp: transition_simps on_lease_end_def)

section \<open>Properties\<close>

text \<open>
  C1. In every state the reducer can reach from start-up, navigation is
  running exactly when the complete autonomy interlock is closed: AUTONOMY
  mode, a held lease, RUN held and not blocked, no DualSense and a goal.
\<close>

theorem navigation_iff_interlock:
  "ps_navigation_active (run_steps ps_step (initial_state m) es) =
   autonomy_permitted (run_steps ps_step (initial_state m) es)"
  using paddock.invar_reachable [of "initial_state m" es]
  by (auto simp: ps_initial_def ps_inv_def)

text \<open>
  C2. After a DualSense takeover autonomous motion needs a new RUN press:
  whatever happens after a state in which the DualSense is active, as long
  as RUN is not pressed again the autonomy authority is not granted.
\<close>

theorem takeover_needs_new_press:
  assumes "ps_dualsense_active (run_steps ps_step (initial_state m) es)"
    and "\<forall>ea \<in> set fs. fst ea \<noteq> EV_RUN_PRESS"
  shows "authority_of (run_steps ps_step (initial_state m) (es @ fs)) \<noteq> AUTH_PADDOCK_AUTONOMY
    \<and> \<not> ps_navigation_active (run_steps ps_step (initial_state m) (es @ fs))"
proof -
  let ?s = "run_steps ps_step (initial_state m) es"
  let ?t = "run_steps ps_step (initial_state m) (es @ fs)"
  have "ps_inv ?s" and t: "ps_inv ?t"
    by (rule paddock.invar_reachable, auto simp: ps_initial_def)+
  then have "run_disarmed ?t"
    using assms by (simp add: run_steps_append run_disarmed_run dualsense_disarms)
  then have "\<not> autonomy_permitted ?t" by (rule run_disarmed_not_permitted)
  then show ?thesis using t by (auto simp: authority_of_def ps_inv_def)
qed

definition takeover_run :: "(event \<times> event_args) list" where
  "takeover_run =
     [(EV_ACQUIRE_LEASE, no_args\<lparr>ea_client_id := ''c'', ea_lease_id := ''l''\<rparr>),
      (EV_SET_ACTIVE_MAP, no_args\<lparr>ea_active_autonomy_map := Some ''studio''\<rparr>),
      (EV_REQUEST_MODE, no_args\<lparr>ea_lease_id := ''l'', ea_mode := Some MODE_AUTONOMY,
                                ea_request_id := 1\<rparr>),
      (EV_SELECT_GOAL, no_args\<lparr>ea_lease_id := ''l'', ea_goal := Some
         \<lparr>gi_map_name = ''studio'', gi_x = Fin 0, gi_y = Fin 0, gi_yaw = Fin 0\<rparr>\<rparr>),
      (EV_RUN_PRESS, no_args\<lparr>ea_lease_id := ''l''\<rparr>)]"

theorem takeover_needs_new_press_witness:
  "authority_of (run_steps ps_step (initial_state '''') takeover_run) = AUTH_PADDOCK_AUTONOMY
   \<and> authority_of (run_steps ps_step (initial_state '''')
        ((takeover_run @ [(EV_DUALSENSE_ACTIVE, no_args)]) @ [(EV_DUALSENSE_INACTIVE, no_args)]))
      \<noteq> AUTH_PADDOCK_AUTONOMY"
proof -
  note evals = takeover_run_def ps_step_def transition_simps branch_defs sm_defs no_args_def
    initial_state_def authority_of_def Let_def
  have "ps_dualsense_active (run_steps ps_step (initial_state '''')
      (takeover_run @ [(EV_DUALSENSE_ACTIVE, no_args)]))"
    by (simp add: evals)
  then have "authority_of (run_steps ps_step (initial_state '''')
        ((takeover_run @ [(EV_DUALSENSE_ACTIVE, no_args)]) @ [(EV_DUALSENSE_INACTIVE, no_args)]))
      \<noteq> AUTH_PADDOCK_AUTONOMY"
    using takeover_needs_new_press
      [of "''''" "takeover_run @ [(EV_DUALSENSE_ACTIVE, no_args)]" "[(EV_DUALSENSE_INACTIVE, no_args)]"]
    by simp
  moreover have "authority_of (run_steps ps_step (initial_state '''') takeover_run)
      = AUTH_PADDOCK_AUTONOMY"
    by (simp add: evals)
  ultimately show ?thesis by blast
qed

text \<open>
  Whichever event but a restart ends a running navigation, its effects
  are a brake followed by the cancellation, in this order and nothing else.
\<close>

theorem revocation_brakes_then_cancels:
  assumes "s = run_steps ps_step (initial_state m) es" and "ps_navigation_active s"
    and "e \<noteq> EV_RESTART" and "\<not> ps_navigation_active (fst (transition s e a))"
  shows "snd (transition s e a) = [EFF_BRAKE, EFF_CANCEL_NAVIGATION]"
proof (rule revocation_effects)
  show "ps_inv s" using assms(1) paddock.invar_reachable by (auto simp: ps_initial_def)
qed (use assms in simp_all)

theorem revocation_brakes_then_cancels_witness:
  "snd (transition (run_steps ps_step (initial_state '''') takeover_run)
     EV_LOSE_LEASE (no_args\<lparr>ea_lease_id := ''l''\<rparr>)) = [EFF_BRAKE, EFF_CANCEL_NAVIGATION]"
  by (rule revocation_brakes_then_cancels [OF refl])
    (simp_all add: takeover_run_def ps_step_def transition_simps branch_defs sm_defs no_args_def
      initial_state_def Let_def)

end
