(* ===== verification/CommandSupervisor.thy ===== *)
theory CommandSupervisor
  imports StateMachine
begin

text \<open>
  \<open>runner_paddock/command_supervisor.py\<close>: the clock-injected supervisor that owns
  the Paddock lease, the RUN deadman and the freshness of raw commands. The
  object is the record \<open>supervisor\<close> (fields prefixed \<open>cs_\<close>), each method a
  function that returns the new record with its \<open>sup_result\<close>. Times are floats
  given by the caller, so every age is a rounded binary64 difference.
  The lemmas show that no method loses the reducer's invariant and which
  gates a forwarded command has passed.
\<close>

section \<open>Constants and data\<close>

definition DEFAULT_LEASE_TIMEOUT_SEC :: pyfloat where
  "DEFAULT_LEASE_TIMEOUT_SEC = dbl (150 / 1000)"

definition DEFAULT_CONTROL_LIVENESS_SEC :: pyfloat where
  "DEFAULT_CONTROL_LIVENESS_SEC = dbl 3"

definition DEFAULT_RAW_AUTONOMY_TIMEOUT_SEC :: pyfloat where
  "DEFAULT_RAW_AUTONOMY_TIMEOUT_SEC = dbl (150 / 1000)"

definition DEFAULT_MANUAL_TIMEOUT_SEC :: pyfloat where
  "DEFAULT_MANUAL_TIMEOUT_SEC = dbl (250 / 1000)"

definition DEFAULT_MANUAL_MAX_SPEED_MPS :: pyfloat where
  "DEFAULT_MANUAL_MAX_SPEED_MPS = dbl (40 / 100)"

definition MAX_MANUAL_MAX_SPEED_MPS :: pyfloat where
  "MAX_MANUAL_MAX_SPEED_MPS = dbl (40 / 100)"

definition DEFAULT_MINIMUM_MOVING_SPEED_MPS :: pyfloat where
  "DEFAULT_MINIMUM_MOVING_SPEED_MPS = dbl (25 / 100)"

definition UINT64_MODULUS :: int where
  "UINT64_MODULUS = 2 ^ 64"

definition UINT64_HALF_RANGE :: int where
  "UINT64_HALF_RANGE = 2 ^ 63"

datatype control_event =
    CE_RUN_PRESSED | CE_RUN_RELEASED | CE_STOP | CE_MANUAL_ACTIVE | CE_MANUAL_INACTIVE
  | CE_GOAL_SELECTED | CE_LEASE_ACQUIRED | CE_LEASE_RELEASED | CE_LEASE_LOST | CE_HEARTBEAT
  | CE_CLEAR_STOP

record velocity_command =
  vc_linear_x :: pyfloat
  vc_linear_y :: pyfloat
  vc_linear_z :: pyfloat
  vc_angular_x :: pyfloat
  vc_angular_y :: pyfloat
  vc_angular_z :: pyfloat

definition vc_values :: "velocity_command \<Rightarrow> pyfloat list" where
  "vc_values c = [vc_linear_x c, vc_linear_y c, vc_linear_z c,
                  vc_angular_x c, vc_angular_y c, vc_angular_z c]"

definition vc_valid :: "velocity_command \<Rightarrow> bool" where
  "vc_valid c = list_all isfinite (vc_values c)"

record manual_demand =
  md_sequence :: int
  md_signed_speed_mps :: pyfloat
  md_steering_normalized :: pyfloat

record snapshot =
  sn_state :: paddock_state
  sn_brake_intent :: bool
  sn_lease_fresh :: bool
  sn_lease_age_sec :: "pyfloat option"
  sn_raw_autonomy_fresh :: bool
  sn_raw_autonomy_age_sec :: "pyfloat option"
  sn_manual_input_fresh :: bool
  sn_manual_input_age_sec :: "pyfloat option"
  sn_manual_applied_speed_mps :: pyfloat
  sn_manual_applied_steering :: pyfloat
  sn_last_control_sequence :: "int option"
  sn_reason :: string

record sup_result =
  sr_snapshot :: snapshot
  sr_autonomy_command :: "velocity_command option"
  sr_manual_demand :: "manual_demand option"
  sr_manual_command :: "velocity_command option"
  sr_accepted :: bool

definition plain_result :: "snapshot \<Rightarrow> sup_result" where
  "plain_result sn = \<lparr>sr_snapshot = sn, sr_autonomy_command = None, sr_manual_demand = None,
                      sr_manual_command = None, sr_accepted = True\<rparr>"

definition is_newer_sequence :: "int \<Rightarrow> int \<Rightarrow> bool" where
  "is_newer_sequence candidate previous =
     (let delta = (candidate - previous) mod UINT64_MODULUS
      in 0 < delta \<and> delta < UINT64_HALF_RANGE)"

record supervisor =
  cs_lease_timeout_sec :: pyfloat
  cs_control_liveness_sec :: pyfloat
  cs_raw_autonomy_timeout_sec :: pyfloat
  cs_manual_timeout_sec :: pyfloat
  cs_manual_max_speed_mps :: pyfloat
  cs_minimum_moving_speed_mps :: pyfloat
  cs_state :: paddock_state
  cs_last_lease_receive_at :: "pyfloat option"
  cs_last_raw_autonomy_at :: "pyfloat option"
  cs_last_manual_input_at :: "pyfloat option"
  cs_last_raw_manual_at :: "pyfloat option"
  cs_manual_demand :: "manual_demand option"
  cs_last_control_sequence :: "int option"
  cs_lapsed_lease :: "(string \<times> string) option"

section \<open>Construction\<close>

definition manual_speed_ceiling_valid :: "pyfloat \<Rightarrow> pyfloat \<Rightarrow> bool" where
  "manual_speed_ceiling_valid v minimum =
     (isfinite v \<and> (feq v (Fin 0) \<or> (fle minimum v \<and> fle v MAX_MANUAL_MAX_SPEED_MPS)))"

definition new_supervisor ::
  "pyfloat \<Rightarrow> pyfloat \<Rightarrow> pyfloat option \<Rightarrow> pyfloat \<Rightarrow> pyfloat \<Rightarrow> pyfloat \<Rightarrow> string
   \<Rightarrow> supervisor result" where
  "new_supervisor lease_timeout raw_timeout liveness manual_timeout manual_max minimum map_name =
     (if \<not> isfinite lease_timeout \<or> fle lease_timeout (Fin 0)
      then Inl (ValueError ''lease_timeout_sec must be finite and positive'')
      else if \<not> isfinite raw_timeout \<or> fle raw_timeout (Fin 0)
      then Inl (ValueError ''raw_autonomy_timeout_sec must be finite and positive'')
      else
        (let control_liveness = (case liveness of None \<Rightarrow> lease_timeout | Some l \<Rightarrow> l)
         in if \<not> isfinite control_liveness \<or> flt control_liveness lease_timeout
            then Inl (ValueError ''control_liveness_sec must be finite and >= lease_timeout_sec'')
            else if \<not> isfinite manual_timeout \<or> fle manual_timeout (Fin 0)
            then Inl (ValueError ''manual_timeout_sec must be finite and positive'')
            else if \<not> manual_speed_ceiling_valid manual_max minimum
            then Inl (ValueError ''manual speed ceiling must be zero or within the moving floor and '')
            else Inr
              \<lparr>cs_lease_timeout_sec = lease_timeout, cs_control_liveness_sec = control_liveness,
               cs_raw_autonomy_timeout_sec = raw_timeout, cs_manual_timeout_sec = manual_timeout,
               cs_manual_max_speed_mps = manual_max, cs_minimum_moving_speed_mps = minimum,
               cs_state = initial_state map_name, cs_last_lease_receive_at = None,
               cs_last_raw_autonomy_at = None, cs_last_manual_input_at = None,
               cs_last_raw_manual_at = None, cs_manual_demand = None,
               cs_last_control_sequence = None, cs_lapsed_lease = None\<rparr>))"

definition set_manual_max_speed_mps :: "supervisor \<Rightarrow> pyfloat \<Rightarrow> supervisor result" where
  "set_manual_max_speed_mps c v =
     (if \<not> manual_speed_ceiling_valid v (cs_minimum_moving_speed_mps c)
      then Inl (ValueError ''manual_max_speed_mps must be 0 or within '')
      else Inr (c\<lparr>cs_manual_max_speed_mps := v\<rparr>))"

section \<open>Ages and freshness\<close>

definition age_of :: "pyfloat option \<Rightarrow> pyfloat \<Rightarrow> pyfloat option" where
  "age_of stamp now = map_option (\<lambda>t. fmax (Fin 0) (fsub now t)) stamp"

definition fresh_within :: "pyfloat option \<Rightarrow> pyfloat \<Rightarrow> bool" where
  "fresh_within age limit = (case age of None \<Rightarrow> False | Some x \<Rightarrow> fle x limit)"

definition lease_age :: "supervisor \<Rightarrow> pyfloat \<Rightarrow> pyfloat option" where
  "lease_age c now = age_of (cs_last_lease_receive_at c) now"

definition raw_age :: "supervisor \<Rightarrow> pyfloat \<Rightarrow> pyfloat option" where
  "raw_age c now = age_of (cs_last_raw_autonomy_at c) now"

definition manual_age :: "supervisor \<Rightarrow> pyfloat \<Rightarrow> pyfloat option" where
  "manual_age c now = age_of (cs_last_manual_input_at c) now"

definition lease_is_fresh :: "supervisor \<Rightarrow> pyfloat \<Rightarrow> bool" where
  "lease_is_fresh c now =
     (lease_active (cs_state c) \<and> fresh_within (lease_age c now) (cs_lease_timeout_sec c))"

definition lease_is_live :: "supervisor \<Rightarrow> pyfloat \<Rightarrow> bool" where
  "lease_is_live c now =
     (lease_active (cs_state c) \<and> fresh_within (lease_age c now) (cs_control_liveness_sec c))"

definition raw_is_fresh :: "supervisor \<Rightarrow> pyfloat \<Rightarrow> bool" where
  "raw_is_fresh c now = fresh_within (raw_age c now) (cs_raw_autonomy_timeout_sec c)"

definition manual_is_fresh :: "supervisor \<Rightarrow> pyfloat \<Rightarrow> bool" where
  "manual_is_fresh c now = fresh_within (manual_age c now) (cs_manual_timeout_sec c)"

definition raw_manual_is_fresh :: "supervisor \<Rightarrow> pyfloat \<Rightarrow> bool" where
  "raw_manual_is_fresh c now =
     (case cs_last_raw_manual_at c of
        None \<Rightarrow> False
      | Some t \<Rightarrow> fle (fsub now t) (cs_raw_autonomy_timeout_sec c))"

section \<open>Expiry and snapshots\<close>

definition lease_args :: "string \<Rightarrow> event_args" where
  "lease_args l = no_args\<lparr>ea_lease_id := l\<rparr>"

definition clear_manual_if_inactive :: "supervisor \<Rightarrow> supervisor" where
  "clear_manual_if_inactive c =
     (if \<not> ps_manual_active (cs_state c)
      then c\<lparr>cs_manual_demand := None, cs_last_manual_input_at := None\<rparr> else c)"

definition expire_manual :: "supervisor \<Rightarrow> pyfloat \<Rightarrow> supervisor \<times> bool" where
  "expire_manual c now =
     (if ps_manual_active (cs_state c) \<and> \<not> manual_is_fresh c now
      then (c\<lparr>cs_state := fst (transition (cs_state c) EV_MANUAL_INACTIVE
                                 (lease_args (ps_lease_id (cs_state c)))),
              cs_manual_demand := None, cs_last_manual_input_at := None\<rparr>, True)
      else (c, False))"

definition expire_lease :: "supervisor \<Rightarrow> pyfloat \<Rightarrow> supervisor \<times> bool" where
  "expire_lease c now =
     (if lease_active (cs_state c) \<and> \<not> lease_is_live c now
      then
        (let lease = ps_lease_id (cs_state c);
             client = ps_lease_client_id (cs_state c)
         in (clear_manual_if_inactive
               (c\<lparr>cs_state := fst (transition (cs_state c) EV_LOSE_LEASE (lease_args lease)),
                  cs_last_control_sequence := None, cs_lapsed_lease := Some (client, lease)\<rparr>),
             True))
      else (c, False))"

definition autonomy_open :: "supervisor \<Rightarrow> pyfloat \<Rightarrow> bool" where
  "autonomy_open c now = (autonomy_permitted (cs_state c) \<and> lease_is_fresh c now)"

definition manual_open :: "supervisor \<Rightarrow> pyfloat \<Rightarrow> bool" where
  "manual_open c now =
     (authority_of (cs_state c) = AUTH_PADDOCK_MANUAL \<and> manual_is_fresh c now
      \<and> raw_manual_is_fresh c now)"

definition take_snapshot :: "supervisor \<Rightarrow> pyfloat \<Rightarrow> string \<Rightarrow> snapshot" where
  "take_snapshot c now reason =
     \<lparr>sn_state = cs_state c,
      sn_brake_intent = (\<not> ((autonomy_open c now \<and> raw_is_fresh c now) \<or> manual_open c now)),
      sn_lease_fresh = lease_is_live c now,
      sn_lease_age_sec = lease_age c now,
      sn_raw_autonomy_fresh = raw_is_fresh c now,
      sn_raw_autonomy_age_sec = raw_age c now,
      sn_manual_input_fresh = manual_is_fresh c now,
      sn_manual_input_age_sec = manual_age c now,
      sn_manual_applied_speed_mps =
        (case cs_manual_demand c of None \<Rightarrow> Fin 0 | Some d \<Rightarrow> md_signed_speed_mps d),
      sn_manual_applied_steering =
        (case cs_manual_demand c of None \<Rightarrow> Fin 0 | Some d \<Rightarrow> md_steering_normalized d),
      sn_last_control_sequence = cs_last_control_sequence c,
      sn_reason = reason\<rparr>"

definition reason_of :: "supervisor \<Rightarrow> pyfloat \<Rightarrow> string" where
  "reason_of c now =
     (let s = cs_state c
      in if ps_mode s = MODE_IDLE then ''IDLE_BRAKE''
         else if ps_dualsense_active s then ''DUALSENSE_TAKEOVER''
         else if \<not> lease_is_live c now then ''NO_FRESH_LEASE''
         else if ps_manual_active s then
           (if \<not> manual_is_fresh c now then ''MANUAL_INPUT_STALE''
            else if \<not> raw_manual_is_fresh c now then ''RAW_MANUAL_STALE''
            else ''MANUAL_ACTIVE'')
         else if ps_run_blocked_until_release s then ''RUN_REARM_REQUIRED''
         else if ps_mode s \<noteq> MODE_AUTONOMY then ''MODE_BRAKE''
         else if \<not> ps_run_held s then ''RUN_RELEASED''
         else if ps_goal s = None then ''NO_GOAL_INTENT''
         else if \<not> lease_is_fresh c now then ''CONTROL_STALE''
         else if \<not> raw_is_fresh c now then ''RAW_AUTONOMY_STALE''
         else ''AUTONOMY_RUN'')"

definition answer :: "supervisor \<Rightarrow> pyfloat \<Rightarrow> string \<Rightarrow> supervisor \<times> sup_result" where
  "answer c now reason = (c, plain_result (take_snapshot c now reason))"

definition reject :: "supervisor \<Rightarrow> pyfloat \<Rightarrow> string \<Rightarrow> supervisor \<times> sup_result" where
  "reject c now reason =
     (c, (plain_result (take_snapshot c now reason))\<lparr>sr_accepted := False\<rparr>)"

definition tick :: "supervisor \<Rightarrow> pyfloat \<Rightarrow> supervisor \<times> sup_result" where
  "tick c now =
     (let (c1, expired) = expire_lease c now;
          (c2, manual_expired) = expire_manual c1 now
      in answer c2 now
           (if expired then ''LEASE_EXPIRED''
            else if manual_expired then ''MANUAL_INPUT_STALE'' else reason_of c2 now))"

text \<open>The \<open>replace\<close> of \<open>set_runtime_mode\<close>: every grant is dropped across a change.\<close>

definition follow_runtime :: "paddock_state \<Rightarrow> mode \<Rightarrow> string \<Rightarrow> bool \<Rightarrow> paddock_state" where
  "follow_runtime s m map_name runtime_stable =
     (let effective = (if runtime_stable then m else MODE_IDLE);
          changed = (effective \<noteq> ps_mode s \<or> map_name \<noteq> ps_active_autonomy_map s
                     \<or> \<not> runtime_stable)
      in s\<lparr>ps_mode := effective, ps_active_autonomy_map := map_name,
           ps_run_held := (if changed then False else ps_run_held s),
           ps_run_blocked_until_release :=
             (if changed then False else ps_run_blocked_until_release s),
           ps_manual_active := (if changed then False else ps_manual_active s),
           ps_goal := (if changed then None else ps_goal s),
           ps_navigation_active := (if changed then False else ps_navigation_active s)\<rparr>)"

definition set_runtime_mode ::
  "supervisor \<Rightarrow> mode \<Rightarrow> string \<Rightarrow> pyfloat \<Rightarrow> bool \<Rightarrow> supervisor \<times> sup_result" where
  "set_runtime_mode c m map_name now runtime_stable =
     (let c1 = fst (expire_lease c now);
          c2 = c1\<lparr>cs_state := follow_runtime (cs_state c1) m map_name runtime_stable\<rparr>
      in answer (clear_manual_if_inactive c2) now
           (if runtime_stable then ''RUNTIME_MODE'' else ''RUNTIME_NOT_STABLE''))"

section \<open>Control events\<close>

record control_input =
  ci_event :: control_event
  ci_client_id :: string
  ci_lease_id :: string
  ci_sequence :: int
  ci_now :: pyfloat
  ci_goal_x :: pyfloat
  ci_goal_y :: pyfloat
  ci_goal_yaw :: pyfloat
  ci_manual_speed_mps :: pyfloat
  ci_manual_steering :: pyfloat

fun event_map :: "control_event \<Rightarrow> event option" where
  "event_map CE_RUN_PRESSED = Some EV_RUN_PRESS"
| "event_map CE_RUN_RELEASED = Some EV_RUN_RELEASE"
| "event_map CE_STOP = Some EV_STOP"
| "event_map CE_MANUAL_ACTIVE = Some EV_MANUAL_ACTIVE"
| "event_map CE_MANUAL_INACTIVE = Some EV_MANUAL_INACTIVE"
| "event_map CE_LEASE_RELEASED = Some EV_RELEASE_LEASE"
| "event_map CE_LEASE_LOST = Some EV_LOSE_LEASE"
| "event_map _ = None"

definition acquire_args :: "control_input \<Rightarrow> event_args" where
  "acquire_args i = no_args\<lparr>ea_client_id := ci_client_id i, ea_lease_id := ci_lease_id i\<rparr>"

text \<open>The bookkeeping after a granted or reinstated lease.\<close>

definition lease_taken :: "supervisor \<Rightarrow> control_input \<Rightarrow> supervisor" where
  "lease_taken c i =
     c\<lparr>cs_state := fst (transition (cs_state c) EV_ACQUIRE_LEASE (acquire_args i)),
       cs_last_lease_receive_at := Some (ci_now i),
       cs_last_control_sequence := Some (ci_sequence i), cs_lapsed_lease := None\<rparr>"

text \<open>A heartbeat of the browser whose lease lapsed reinstates it in place.\<close>

definition reinstates :: "supervisor \<Rightarrow> control_input \<Rightarrow> bool" where
  "reinstates c i =
     (ci_event i = CE_HEARTBEAT \<and> \<not> lease_active (cs_state c)
      \<and> cs_lapsed_lease c = Some (ci_client_id i, ci_lease_id i)
      \<and> fst (transition (cs_state c) EV_ACQUIRE_LEASE (acquire_args i)) \<noteq> cs_state c)"

definition acquire_lease_event :: "supervisor \<Rightarrow> control_input \<Rightarrow> supervisor \<times> sup_result" where
  "acquire_lease_event c i =
     (if lease_active (cs_state c) then reject c (ci_now i) ''LEASE_REJECTED''
      else if fst (transition (cs_state c) EV_ACQUIRE_LEASE (acquire_args i)) = cs_state c
      then reject c (ci_now i) ''LEASE_REJECTED''
      else answer (lease_taken c i) (ci_now i) ''LEASE_ACQUIRED'')"

definition bounded_speed :: "supervisor \<Rightarrow> pyfloat \<Rightarrow> pyfloat" where
  "bounded_speed c v =
     (let speed = fmax (fneg (cs_manual_max_speed_mps c)) (fmin (cs_manual_max_speed_mps c) v)
      in if flt (Fin 0) (fabs speed) \<and> flt (fabs speed) (cs_minimum_moving_speed_mps c)
         then fcopysign (cs_minimum_moving_speed_mps c) speed else speed)"

definition manual_active_event :: "supervisor \<Rightarrow> control_input \<Rightarrow> supervisor \<times> sup_result" where
  "manual_active_event c i =
     (if \<not> (isfinite (ci_manual_speed_mps i) \<and> isfinite (ci_manual_steering i))
      then reject (c\<lparr>cs_state := fst (transition (cs_state c) EV_MANUAL_INACTIVE
                                        (lease_args (ci_lease_id i)))\<rparr>)
             (ci_now i) ''INVALID_MANUAL_DEMAND''
      else if authority_of (cs_state c) \<noteq> AUTH_PADDOCK_MANUAL
      then reject c (ci_now i) ''MANUAL_NOT_ELIGIBLE''
      else
        (let demand = \<lparr>md_sequence = ci_sequence i,
                       md_signed_speed_mps = bounded_speed c (ci_manual_speed_mps i),
                       md_steering_normalized =
                         fmax (Fin (- 1)) (fmin (Fin 1) (ci_manual_steering i))\<rparr>;
             c' = c\<lparr>cs_manual_demand := Some demand, cs_last_manual_input_at := Some (ci_now i)\<rparr>
         in (c', (plain_result (take_snapshot c' (ci_now i) ''MANUAL_ACTIVE''))
                   \<lparr>sr_manual_demand := Some demand\<rparr>)))"

text \<open>The tail shared by the events that end with a plain snapshot.\<close>

definition finish_event :: "supervisor \<Rightarrow> control_input \<Rightarrow> supervisor \<times> sup_result" where
  "finish_event c i =
     (let c1 = (if ci_event i = CE_LEASE_RELEASED
                then c\<lparr>cs_last_lease_receive_at := None, cs_last_control_sequence := None\<rparr>
                else c);
          c2 = clear_manual_if_inactive c1
      in answer c2 (ci_now i) (reason_of c2 (ci_now i)))"

definition goal_selected_event :: "supervisor \<Rightarrow> control_input \<Rightarrow> supervisor \<times> sup_result" where
  "goal_selected_event c i =
     (if \<not> (isfinite (ci_goal_x i) \<and> isfinite (ci_goal_y i) \<and> isfinite (ci_goal_yaw i))
      then reject c (ci_now i) ''GOAL_POSE_NOT_FINITE''
      else
        (let g = \<lparr>gi_map_name = ps_active_autonomy_map (cs_state c), gi_x = ci_goal_x i,
                  gi_y = ci_goal_y i, gi_yaw = ci_goal_yaw i\<rparr>
         in finish_event
              (c\<lparr>cs_state := fst (transition (cs_state c) EV_SELECT_GOAL
                   ((lease_args (ci_lease_id i))\<lparr>ea_goal := Some g\<rparr>))\<rparr>) i))"

definition mapped_event :: "supervisor \<Rightarrow> control_input \<Rightarrow> event \<Rightarrow> supervisor \<times> sup_result" where
  "mapped_event c i e =
     (let c1 = c\<lparr>cs_state := fst (transition (cs_state c) e (lease_args (ci_lease_id i)))\<rparr>
      in if ci_event i = CE_MANUAL_ACTIVE then manual_active_event c1 i
         else if ci_event i = CE_MANUAL_INACTIVE
         then finish_event (c1\<lparr>cs_manual_demand := None, cs_last_manual_input_at := None\<rparr>) i
         else finish_event c1 i)"

text \<open>An event of the lease owner with a newer sequence refreshes the lease and is reduced.\<close>

definition owner_event :: "supervisor \<Rightarrow> control_input \<Rightarrow> supervisor \<times> sup_result" where
  "owner_event c i =
     (let supported = (ci_event i \<in> {CE_HEARTBEAT, CE_CLEAR_STOP}
                       \<or> ci_event i = CE_GOAL_SELECTED \<or> event_map (ci_event i) \<noteq> None)
      in if \<not> supported then reject c (ci_now i) ''EVENT_REJECTED''
         else
           (let c1 = c\<lparr>cs_last_lease_receive_at := Some (ci_now i),
                       cs_last_control_sequence := Some (ci_sequence i)\<rparr>
            in if ci_event i = CE_HEARTBEAT then answer c1 (ci_now i) (reason_of c1 (ci_now i))
               else if ci_event i = CE_CLEAR_STOP
               then answer (c1\<lparr>cs_state := fst (transition (cs_state c1) EV_STOP
                                                 (lease_args (ci_lease_id i)))\<rparr>)
                      (ci_now i) ''CLEAR_STOP_REQUESTED''
               else if ci_event i = CE_GOAL_SELECTED then goal_selected_event c1 i
               else (case event_map (ci_event i) of
                       None \<Rightarrow> finish_event c1 i
                     | Some e \<Rightarrow> mapped_event c1 i e)))"

definition handle_control_event :: "supervisor \<Rightarrow> control_input \<Rightarrow> supervisor \<times> sup_result" where
  "handle_control_event c0 i =
     (let c = fst (expire_lease c0 (ci_now i))
      in if reinstates c i then answer (lease_taken c i) (ci_now i) ''LEASE_REINSTATED''
         else if ci_event i = CE_LEASE_ACQUIRED then acquire_lease_event c i
         else if \<not> lease_active (cs_state c)
                 \<or> ci_client_id i \<noteq> ps_lease_client_id (cs_state c)
                 \<or> ci_lease_id i \<noteq> ps_lease_id (cs_state c)
         then reject c (ci_now i) ''NON_OWNER_EVENT_REJECTED''
         else if (case cs_last_control_sequence c of
                    None \<Rightarrow> False | Some p \<Rightarrow> \<not> is_newer_sequence (ci_sequence i) p)
         then reject c (ci_now i) ''STALE_EVENT_REJECTED''
         else owner_event c i)"

section \<open>Mode, takeover and raw commands\<close>

definition request_mode ::
  "supervisor \<Rightarrow> mode option \<Rightarrow> int \<Rightarrow> string \<Rightarrow> pyfloat \<Rightarrow> supervisor \<times> sup_result" where
  "request_mode c0 m request_id lease now =
     (let c = fst (expire_lease c0 now);
          s' = fst (transition (cs_state c) EV_REQUEST_MODE
                 ((lease_args lease)\<lparr>ea_mode := m, ea_request_id := request_id\<rparr>));
          accepted = (s' \<noteq> cs_state c);
          c' = c\<lparr>cs_state := s'\<rparr>
      in (c', (plain_result (take_snapshot c' now
                 (if accepted then ''MODE_ACCEPTED'' else ''MODE_REJECTED'')))
                \<lparr>sr_accepted := accepted\<rparr>))"

definition set_dualsense_active ::
  "supervisor \<Rightarrow> bool \<Rightarrow> pyfloat \<Rightarrow> supervisor \<times> sup_result" where
  "set_dualsense_active c0 active now =
     (let c = fst (expire_lease c0 now);
          e = (if active then EV_DUALSENSE_ACTIVE else EV_DUALSENSE_INACTIVE);
          c' = clear_manual_if_inactive
                 (c\<lparr>cs_state := fst (transition (cs_state c) e no_args)\<rparr>)
      in answer c' now (reason_of c' now))"

definition receive_raw_autonomy ::
  "supervisor \<Rightarrow> velocity_command \<Rightarrow> pyfloat \<Rightarrow> supervisor \<times> sup_result" where
  "receive_raw_autonomy c0 command now =
     (let c = fst (expire_lease c0 now)
      in if \<not> vc_valid command
         then reject (c\<lparr>cs_last_raw_autonomy_at := None\<rparr>) now ''INVALID_RAW_AUTONOMY''
         else
           (let c1 = c\<lparr>cs_last_raw_autonomy_at := Some now\<rparr>;
                sn = take_snapshot c1 now (reason_of c1 now)
            in if authority_of (sn_state sn) = AUTH_PADDOCK_AUTONOMY \<and> lease_is_fresh c1 now
                  \<and> sn_raw_autonomy_fresh sn \<and> \<not> sn_brake_intent sn
               then (c1, (plain_result sn)\<lparr>sr_autonomy_command := Some command\<rparr>)
               else (c1, plain_result sn)))"

definition receive_raw_manual ::
  "supervisor \<Rightarrow> velocity_command \<Rightarrow> int \<Rightarrow> pyfloat \<Rightarrow> supervisor \<times> sup_result" where
  "receive_raw_manual c0 command sequence now =
     (let c = fst (expire_manual (fst (expire_lease c0 now)) now)
      in if \<not> vc_valid command
            \<or> (case cs_manual_demand c of None \<Rightarrow> True | Some d \<Rightarrow> sequence \<noteq> md_sequence d)
         then reject c now ''INVALID_RAW_MANUAL''
         else
           (let c1 = c\<lparr>cs_last_raw_manual_at := Some now\<rparr>;
                sn = take_snapshot c1 now (reason_of c1 now)
            in if authority_of (sn_state sn) = AUTH_PADDOCK_MANUAL
                  \<and> sn_manual_input_fresh sn \<and> \<not> sn_brake_intent sn
               then (c1, (plain_result sn)\<lparr>sr_manual_command := Some command\<rparr>)
               else (c1, plain_result sn)))"

definition restart :: "supervisor \<Rightarrow> pyfloat \<Rightarrow> supervisor \<times> sup_result" where
  "restart c now =
     answer (c\<lparr>cs_state := fst (transition (cs_state c) EV_RESTART no_args),
               cs_last_lease_receive_at := None, cs_last_raw_autonomy_at := None,
               cs_last_manual_input_at := None, cs_last_raw_manual_at := None,
               cs_manual_demand := None, cs_last_control_sequence := None,
               cs_lapsed_lease := None\<rparr>) now ''RESTART_BRAKE''"

section \<open>The supervisor as a machine\<close>

datatype sup_input =
    InTick pyfloat
  | InRuntimeMode mode string pyfloat bool
  | InControl control_input
  | InRequestMode "mode option" int string pyfloat
  | InDualsense bool pyfloat
  | InRawAutonomy velocity_command pyfloat
  | InRawManual velocity_command int pyfloat
  | InRestart pyfloat
  | InSetMaxSpeed pyfloat

text \<open>A rejected ceiling raises and leaves the object as it was.\<close>

fun sup_step :: "supervisor \<Rightarrow> sup_input \<Rightarrow> supervisor" where
  "sup_step c (InTick now) = fst (tick c now)"
| "sup_step c (InRuntimeMode m map_name now ok) = fst (set_runtime_mode c m map_name now ok)"
| "sup_step c (InControl i) = fst (handle_control_event c i)"
| "sup_step c (InRequestMode m r l now) = fst (request_mode c m r l now)"
| "sup_step c (InDualsense b now) = fst (set_dualsense_active c b now)"
| "sup_step c (InRawAutonomy v now) = fst (receive_raw_autonomy c v now)"
| "sup_step c (InRawManual v q now) = fst (receive_raw_manual c v q now)"
| "sup_step c (InRestart now) = fst (restart c now)"
| "sup_step c (InSetMaxSpeed v) =
     (case set_manual_max_speed_mps c v of Inl e \<Rightarrow> c | Inr c' \<Rightarrow> c')"

section \<open>The invariant of the supervisor\<close>

definition demand_ok :: "manual_demand \<Rightarrow> bool" where
  "demand_ok d \<longleftrightarrow> fle (fabs (md_signed_speed_mps d)) MAX_MANUAL_MAX_SPEED_MPS
     \<and> fle (fabs (md_steering_normalized d)) (Fin 1)"

definition config_ok :: "supervisor \<Rightarrow> bool" where
  "config_ok c \<longleftrightarrow>
     isfinite (cs_lease_timeout_sec c) \<and> flt (Fin 0) (cs_lease_timeout_sec c)
     \<and> fle (cs_lease_timeout_sec c) (cs_control_liveness_sec c)
     \<and> isfinite (cs_control_liveness_sec c)
     \<and> isfinite (cs_raw_autonomy_timeout_sec c) \<and> flt (Fin 0) (cs_raw_autonomy_timeout_sec c)
     \<and> isfinite (cs_manual_timeout_sec c) \<and> flt (Fin 0) (cs_manual_timeout_sec c)
     \<and> fle (Fin 0) (cs_minimum_moving_speed_mps c)
     \<and> manual_speed_ceiling_valid (cs_manual_max_speed_mps c) (cs_minimum_moving_speed_mps c)"

definition cs_inv :: "supervisor \<Rightarrow> bool" where
  [inv_defs]: "cs_inv c \<longleftrightarrow> config_ok c \<and> ps_inv (cs_state c)
     \<and> (cs_last_manual_input_at c = None \<longleftrightarrow> cs_manual_demand c = None)
     \<and> (\<forall>d. cs_manual_demand c = Some d \<longrightarrow> demand_ok d)"

lemma not_fle_zero_finite: "isfinite x \<Longrightarrow> \<not> fle x (Fin 0) \<Longrightarrow> flt (Fin 0) x"
  by (cases x) auto

lemma new_supervisor_inv:
  "new_supervisor lt rt lv mt mm mn m = Inr c \<Longrightarrow> fle (Fin 0) mn \<Longrightarrow> cs_inv c"
  by (cases lt; cases "case lv of None \<Rightarrow> lt | Some l \<Rightarrow> l")
    (auto simp: new_supervisor_def cs_inv_def config_ok_def ps_inv_initial Let_def
      not_fle_zero_finite split: if_splits)

lemma config_ok_frame [simp]:
  "config_ok (c\<lparr>cs_state := s\<rparr>) = config_ok c"
  "config_ok (c\<lparr>cs_last_lease_receive_at := a\<rparr>) = config_ok c"
  "config_ok (c\<lparr>cs_last_raw_autonomy_at := a\<rparr>) = config_ok c"
  "config_ok (c\<lparr>cs_last_manual_input_at := a\<rparr>) = config_ok c"
  "config_ok (c\<lparr>cs_last_raw_manual_at := a\<rparr>) = config_ok c"
  "config_ok (c\<lparr>cs_manual_demand := d\<rparr>) = config_ok c"
  "config_ok (c\<lparr>cs_last_control_sequence := q\<rparr>) = config_ok c"
  "config_ok (c\<lparr>cs_lapsed_lease := l\<rparr>) = config_ok c"
  by (simp_all add: config_ok_def)

lemma cs_inv_state: "cs_inv c \<Longrightarrow> cs_inv (c\<lparr>cs_state := fst (transition (cs_state c) e a)\<rparr>)"
  by (simp add: cs_inv_def transition_inv)

lemma cs_inv_clear: "cs_inv c \<Longrightarrow> cs_inv (clear_manual_if_inactive c)"
  by (auto simp: cs_inv_def clear_manual_if_inactive_def)

lemma cs_inv_no_demand:
  "cs_inv c \<Longrightarrow> cs_inv (c\<lparr>cs_manual_demand := None, cs_last_manual_input_at := None\<rparr>)"
  by (auto simp: cs_inv_def)

lemma cs_inv_stamps:
  "cs_inv (c\<lparr>cs_last_lease_receive_at := a\<rparr>) = cs_inv c"
  "cs_inv (c\<lparr>cs_last_raw_autonomy_at := a\<rparr>) = cs_inv c"
  "cs_inv (c\<lparr>cs_last_raw_manual_at := a\<rparr>) = cs_inv c"
  "cs_inv (c\<lparr>cs_last_control_sequence := q\<rparr>) = cs_inv c"
  "cs_inv (c\<lparr>cs_lapsed_lease := l\<rparr>) = cs_inv c"
  by (simp_all add: cs_inv_def)

lemma expire_lease_inv: "cs_inv c \<Longrightarrow> cs_inv (fst (expire_lease c now))"
  by (simp add: expire_lease_def Let_def cs_inv_clear cs_inv_stamps cs_inv_state)

lemma expire_manual_inv: "cs_inv c \<Longrightarrow> cs_inv (fst (expire_manual c now))"
  unfolding expire_manual_def
  by (auto simp: cs_inv_def transition_inv)

lemma fst_answer [simp]: "fst (answer c now r) = c" "fst (reject c now r) = c"
  by (simp_all add: answer_def reject_def)

lemma tick_inv: "cs_inv c \<Longrightarrow> cs_inv (fst (tick c now))"
  by (simp add: tick_def Let_def split_beta expire_lease_inv expire_manual_inv)

lemma follow_runtime_inv: "ps_inv s \<Longrightarrow> ps_inv (follow_runtime s m n ok)"
  by (auto simp: ps_inv_def sm_defs follow_runtime_def Let_def)

lemma set_runtime_mode_inv: "cs_inv c \<Longrightarrow> cs_inv (fst (set_runtime_mode c m n now ok))"
  by (simp add: set_runtime_mode_def Let_def)
    (intro cs_inv_clear, use expire_lease_inv [of c now] in \<open>simp add: cs_inv_def follow_runtime_inv\<close>)

lemma lease_taken_inv: "cs_inv c \<Longrightarrow> cs_inv (lease_taken c i)"
  by (simp add: lease_taken_def cs_inv_stamps cs_inv_state)

lemma bounded_speed_cases:
  assumes "manual_speed_ceiling_valid (cs_manual_max_speed_mps c) (cs_minimum_moving_speed_mps c)"
    and "fle (Fin 0) (cs_minimum_moving_speed_mps c)" and "isfinite v"
  shows "fle (fabs (bounded_speed c v)) (cs_manual_max_speed_mps c)
    \<and> (bounded_speed c v = Fin 0
         \<or> fle (cs_minimum_moving_speed_mps c) (fabs (bounded_speed c v)))"
proof -
  obtain q where m: "cs_manual_max_speed_mps c = Fin q"
    using assms(1) by (auto simp: manual_speed_ceiling_valid_def isfinite_iff)
  obtain x where v: "v = Fin x" using assms(3) by (auto simp: isfinite_iff)
  have ge: "q = 0 \<or> fle (cs_minimum_moving_speed_mps c) (Fin q)"
    using assms(1) m by (auto simp: manual_speed_ceiling_valid_def)
  show ?thesis
  proof (cases "cs_minimum_moving_speed_mps c")
    case (Fin n)
    then show ?thesis
      using assms(2) ge by (auto simp: bounded_speed_def Let_def m v fcopysign_def abs_if max_def min_def)
  qed (use assms(2) ge in \<open>auto simp: bounded_speed_def Let_def m v\<close>)
qed

lemma ceiling_le_max: "manual_speed_ceiling_valid v m \<Longrightarrow> fle v MAX_MANUAL_MAX_SPEED_MPS"
  using dbl_ge_double [of 0 "40 / 100"]
  by (auto simp: manual_speed_ceiling_valid_def MAX_MANUAL_MAX_SPEED_MPS_def feq_iff)

lemma steering_bound: "fle (fabs (fmax (Fin (- 1)) (fmin (Fin 1) v))) (Fin 1)"
  by (cases v) (auto simp: fmax_def fmin_def)

lemma manual_active_event_inv: "cs_inv c \<Longrightarrow> cs_inv (fst (manual_active_event c i))"
proof -
  assume inv: "cs_inv c"
  then have ok: "config_ok c" by (simp add: cs_inv_def)
  have "fle (fabs (bounded_speed c v)) MAX_MANUAL_MAX_SPEED_MPS" if "isfinite v" for v
    using bounded_speed_cases [of c v] ok that fle_trans ceiling_le_max
    unfolding config_ok_def by blast
  then show ?thesis
    using inv cs_inv_state [OF inv]
    by (simp add: manual_active_event_def Let_def) (auto simp: cs_inv_def demand_ok_def steering_bound)
qed

lemma finish_event_inv: "cs_inv c \<Longrightarrow> cs_inv (fst (finish_event c i))"
  by (simp add: finish_event_def Let_def cs_inv_clear cs_inv_stamps)

lemma mapped_event_inv: "cs_inv c \<Longrightarrow> cs_inv (fst (mapped_event c i e))"
  using cs_inv_state [of c e "lease_args (ci_lease_id i)"]
  by (simp add: mapped_event_def Let_def manual_active_event_inv finish_event_inv cs_inv_no_demand)

lemma goal_selected_event_inv: "cs_inv c \<Longrightarrow> cs_inv (fst (goal_selected_event c i))"
  by (simp add: goal_selected_event_def Let_def finish_event_inv cs_inv_state)

lemma owner_event_inv: "cs_inv c \<Longrightarrow> cs_inv (fst (owner_event c i))"
  using cs_inv_state [of "c\<lparr>cs_last_lease_receive_at := Some (ci_now i),
                       cs_last_control_sequence := Some (ci_sequence i)\<rparr>"]
  by (simp add: owner_event_def Let_def goal_selected_event_inv mapped_event_inv finish_event_inv
      cs_inv_stamps split: option.split)

lemma handle_control_event_inv: "cs_inv c \<Longrightarrow> cs_inv (fst (handle_control_event c i))"
  using expire_lease_inv [of c "ci_now i"]
  by (simp add: handle_control_event_def Let_def owner_event_inv lease_taken_inv acquire_lease_event_def)

lemma request_mode_inv: "cs_inv c \<Longrightarrow> cs_inv (fst (request_mode c m r l now))"
  using expire_lease_inv [of c now] by (simp add: request_mode_def Let_def cs_inv_state)

lemma set_dualsense_active_inv: "cs_inv c \<Longrightarrow> cs_inv (fst (set_dualsense_active c b now))"
  using expire_lease_inv [of c now]
  by (simp add: set_dualsense_active_def Let_def cs_inv_clear cs_inv_state)

lemma receive_raw_autonomy_inv: "cs_inv c \<Longrightarrow> cs_inv (fst (receive_raw_autonomy c v now))"
  using expire_lease_inv [of c now] by (simp add: receive_raw_autonomy_def Let_def cs_inv_stamps)

lemma receive_raw_manual_inv: "cs_inv c \<Longrightarrow> cs_inv (fst (receive_raw_manual c v q now))"
  using expire_manual_inv [OF expire_lease_inv [of c now], of now]
  by (simp add: receive_raw_manual_def Let_def cs_inv_stamps)

lemma restart_inv: "cs_inv c \<Longrightarrow> cs_inv (fst (restart c now))"
  using transition_inv [of "cs_state c" EV_RESTART no_args]
  by (simp add: restart_def cs_inv_def)

lemma set_manual_max_inv: "cs_inv c \<Longrightarrow> set_manual_max_speed_mps c v = Inr c' \<Longrightarrow> cs_inv c'"
  by (auto simp: set_manual_max_speed_mps_def cs_inv_def config_ok_def split: if_splits)

lemma sup_step_inv: "cs_inv c \<Longrightarrow> cs_inv (sup_step c i)"
  by (cases i)
    (simp_all add: tick_inv set_runtime_mode_inv handle_control_event_inv request_mode_inv
      set_dualsense_active_inv receive_raw_autonomy_inv receive_raw_manual_inv restart_inv
      set_manual_max_inv split: sum.split)

definition sup_initial :: "supervisor \<Rightarrow> bool" where
  "sup_initial c \<longleftrightarrow>
     (\<exists>lt rt lv mt mm mn m. new_supervisor lt rt lv mt mm mn m = Inr c \<and> fle (Fin 0) mn)"

interpretation sup: machine sup_initial sup_step cs_inv
  by unfold_locales (auto simp: sup_initial_def new_supervisor_inv sup_step_inv)

section \<open>What the gates let through\<close>

lemma fmax_zero_le_iff: "fle (Fin 0) l \<Longrightarrow> fle (fmax (Fin 0) x) l \<longleftrightarrow> x = NaN \<or> fle x l"
  by (cases x; cases l) (auto simp: fmax_def)

lemma age_now: "isfinite now \<Longrightarrow> age_of (Some now) now = Some (Fin 0)"
  by (simp add: age_of_def fsub_self)

lemma fresh_within_mono: "fresh_within a l \<Longrightarrow> fle l l' \<Longrightarrow> fresh_within a l'"
  by (auto simp: fresh_within_def intro: fle_trans split: option.splits)

lemma fresh_imp_live: "cs_inv c \<Longrightarrow> lease_is_fresh c now \<Longrightarrow> lease_is_live c now"
  by (auto simp: cs_inv_def config_ok_def lease_is_fresh_def lease_is_live_def intro: fresh_within_mono)

lemma expire_lease_live: "lease_is_live c now \<Longrightarrow> expire_lease c now = (c, False)"
  by (simp add: expire_lease_def)

lemma expire_lease_inactive: "\<not> lease_active (cs_state c) \<Longrightarrow> expire_lease c now = (c, False)"
  by (simp add: expire_lease_def)

text \<open>A lease that is not live is gone after the expiry check, with every grant.\<close>

lemma expire_lease_dead:
  assumes "\<not> lease_is_live c now"
  shows "\<not> lease_active (cs_state (fst (expire_lease c now)))"
  using assms
  by (simp add: expire_lease_def Let_def clear_manual_if_inactive_def transition_simps
      on_lease_end_def owns_lease_def lease_active_def lease_args_def no_args_def)

lemma authority_needs_lease:
  "\<not> lease_active s \<Longrightarrow> authority_of s \<in> {AUTH_NONE, AUTH_DUALSENSE}"
  by (simp add: authority_of_def autonomy_permitted_def)

lemma authority_autonomyD:
  "authority_of s = AUTH_PADDOCK_AUTONOMY \<Longrightarrow> autonomy_permitted s \<and> \<not> ps_manual_active s"
  by (auto simp: authority_of_def autonomy_permitted_def split: if_splits)

lemma authority_manualD:
  "authority_of s = AUTH_PADDOCK_MANUAL \<Longrightarrow>
   ps_mode s \<noteq> MODE_IDLE \<and> lease_active s \<and> ps_manual_active s \<and> \<not> ps_dualsense_active s"
  by (auto simp: authority_of_def split: if_splits)

lemma snapshot_fields [simp]:
  "sn_state (take_snapshot c now r) = cs_state c"
  "sn_raw_autonomy_fresh (take_snapshot c now r) = raw_is_fresh c now"
  "sn_manual_input_fresh (take_snapshot c now r) = manual_is_fresh c now"
  "sn_brake_intent (take_snapshot c now r) =
     (\<not> ((autonomy_open c now \<and> raw_is_fresh c now) \<or> manual_open c now))"
  by (simp_all add: take_snapshot_def)

lemma plain_result_fields [simp]:
  "sr_autonomy_command (plain_result sn) = None" "sr_manual_command (plain_result sn) = None"
  "sr_manual_demand (plain_result sn) = None" "sr_accepted (plain_result sn)"
  "sr_snapshot (plain_result sn) = sn"
  by (simp_all add: plain_result_def)

lemma lease_is_fresh_frame [simp]:
  "lease_is_fresh (c\<lparr>cs_last_raw_autonomy_at := a\<rparr>) now = lease_is_fresh c now"
  "manual_is_fresh (c\<lparr>cs_last_raw_manual_at := a\<rparr>) now = manual_is_fresh c now"
  by (simp_all add: lease_is_fresh_def lease_age_def manual_is_fresh_def manual_age_def)

lemma raw_fresh_after_receipt:
  "cs_inv c \<Longrightarrow> isfinite now \<Longrightarrow> raw_is_fresh (c\<lparr>cs_last_raw_autonomy_at := Some now\<rparr>) now"
  by (auto simp: raw_is_fresh_def raw_age_def age_now fresh_within_def cs_inv_def config_ok_def
      flt_imp_fle)

lemma raw_manual_fresh_after_receipt:
  "cs_inv c \<Longrightarrow> isfinite now \<Longrightarrow> raw_manual_is_fresh (c\<lparr>cs_last_raw_manual_at := Some now\<rparr>) now"
  by (auto simp: raw_manual_is_fresh_def fsub_self cs_inv_def config_ok_def flt_imp_fle)

lemma raw_autonomy_gate:
  assumes "cs_inv c" "isfinite now" "vc_valid v"
  shows "sr_autonomy_command (snd (receive_raw_autonomy c v now)) =
    (if authority_of (cs_state c) = AUTH_PADDOCK_AUTONOMY \<and> lease_is_fresh c now
     then Some v else None)"
proof (cases "lease_is_live c now")
  case True
  let ?c1 = "c\<lparr>cs_last_raw_autonomy_at := Some now\<rparr>"
  have "raw_is_fresh ?c1 now" by (rule raw_fresh_after_receipt [OF assms(1,2)])
  then show ?thesis
    using assms(3) True authority_autonomyD [of "cs_state c"]
    by (auto simp: receive_raw_autonomy_def expire_lease_live autonomy_open_def Let_def)
next
  case False
  then have "\<not> lease_active (cs_state (fst (expire_lease c now)))" by (rule expire_lease_dead)
  then have "authority_of (cs_state (fst (expire_lease c now))) \<noteq> AUTH_PADDOCK_AUTONOMY"
    using authority_needs_lease by force
  moreover have "\<not> lease_is_fresh c now" using fresh_imp_live [OF assms(1)] False by blast
  ultimately show ?thesis using assms(3) by (auto simp: receive_raw_autonomy_def Let_def)
qed

lemma expire_manual_fresh:
  "manual_is_fresh c now \<Longrightarrow> expire_manual c now = (c, False)"
  by (simp add: expire_manual_def)

lemma expire_manual_stale:
  "cs_inv c \<Longrightarrow> \<not> manual_is_fresh c now \<Longrightarrow> \<not> ps_manual_active (cs_state (fst (expire_manual c now)))"
  by (auto simp: expire_manual_def transition_simps on_manual_inactive_def owns_lease_def
      lease_args_def no_args_def cs_inv_def ps_inv_def)

lemma raw_manual_gate:
  assumes "cs_inv c" "isfinite now" "vc_valid v"
  shows "sr_manual_command (snd (receive_raw_manual c v q now)) =
    (if authority_of (cs_state c) = AUTH_PADDOCK_MANUAL \<and> lease_is_live c now
        \<and> manual_is_fresh c now \<and> map_option md_sequence (cs_manual_demand c) = Some q
     then Some v else None)"
proof (cases "lease_is_live c now")
  case live: True
  show ?thesis
  proof (cases "manual_is_fresh c now")
    case True
    then show ?thesis
      using assms(3) raw_manual_fresh_after_receipt [OF assms(1,2)] live
      by (auto simp: receive_raw_manual_def expire_lease_live expire_manual_fresh manual_open_def
          reject_def Let_def split: option.splits)
  next
    case False
    then have "\<not> ps_manual_active (cs_state (fst (expire_manual c now)))"
      using assms(1) by (rule expire_manual_stale [rotated])
    then have "authority_of (cs_state (fst (expire_manual c now))) \<noteq> AUTH_PADDOCK_MANUAL"
      using authority_manualD by blast
    with False live show ?thesis
      by (auto simp: receive_raw_manual_def expire_lease_live reject_def Let_def split: option.splits)
  qed
next
  case False
  let ?c = "fst (expire_lease c now)"
  have dead: "\<not> lease_active (cs_state ?c)" using False by (rule expire_lease_dead)
  then have "\<not> ps_manual_active (cs_state ?c)"
    using expire_lease_inv [OF assms(1), of now] by (auto simp: cs_inv_def ps_inv_def)
  then have "expire_manual ?c now = (?c, False)" by (simp add: expire_manual_def)
  then show ?thesis
    using dead authority_needs_lease [OF dead] False
    by (auto simp: receive_raw_manual_def reject_def Let_def split: option.splits)
qed

section \<open>Loss of the operator link\<close>

lemma lease_stamp_frames [frame_simps]:
  "cs_last_lease_receive_at (clear_manual_if_inactive c) = cs_last_lease_receive_at c"
  "cs_last_lease_receive_at (fst (expire_lease c now)) = cs_last_lease_receive_at c"
  "cs_last_lease_receive_at (fst (expire_manual c now)) = cs_last_lease_receive_at c"
  by (simp_all add: clear_manual_if_inactive_def expire_lease_def expire_manual_def Let_def)

lemma lease_timeout_frames [frame_simps]:
  "cs_lease_timeout_sec (clear_manual_if_inactive c) = cs_lease_timeout_sec c"
  "cs_lease_timeout_sec (fst (expire_lease c now)) = cs_lease_timeout_sec c"
  "cs_lease_timeout_sec (fst (expire_manual c now)) = cs_lease_timeout_sec c"
  by (simp_all add: clear_manual_if_inactive_def expire_lease_def expire_manual_def Let_def)

lemmas silent_ops = tick_def set_runtime_mode_def request_mode_def set_dualsense_active_def
  receive_raw_autonomy_def receive_raw_manual_def restart_def set_manual_max_speed_mps_def

text \<open>Only control events of the browser move the lease stamp; a restart forgets it.\<close>

lemma silent_step_stamp:
  assumes "\<And>j. i \<noteq> InControl j"
  shows "cs_last_lease_receive_at (sup_step c i) \<in> {cs_last_lease_receive_at c, None}"
    and "cs_lease_timeout_sec (sup_step c i) = cs_lease_timeout_sec c"
  using assms by (cases i; simp add: silent_ops frame_simps Let_def split_beta)+

lemma silent_run_stamp:
  assumes "\<forall>i \<in> set is. \<forall>j. i \<noteq> InControl j"
  shows "cs_last_lease_receive_at (run_steps sup_step c is) \<in> {cs_last_lease_receive_at c, None}"
    and "cs_lease_timeout_sec (run_steps sup_step c is) = cs_lease_timeout_sec c"
  using assms
proof (induction "is" arbitrary: c)
  case (Cons i rest)
  {
    case 1
    then show ?case using Cons.IH(1) [of "sup_step c i"] silent_step_stamp(1) [of i c] by auto
  next
    case 2
    then show ?case using Cons.IH(2) [of "sup_step c i"] silent_step_stamp(2) [of i c] by auto
  }
qed simp_all

lemma raw_autonomy_needs_fresh:
  "sr_autonomy_command (snd (receive_raw_autonomy c v now)) \<noteq> None \<Longrightarrow>
   lease_is_fresh (fst (expire_lease c now)) now"
  by (auto simp: receive_raw_autonomy_def reject_def Let_def split: if_splits)

lemma stale_stamp_not_fresh:
  assumes "cs_last_lease_receive_at c \<in> {Some t, None}"
    and "flt (cs_lease_timeout_sec c) (fsub now t)" and "flt (Fin 0) (cs_lease_timeout_sec c)"
  shows "\<not> lease_is_fresh c now"
proof -
  have "\<not> fle (fmax (Fin 0) (fsub now t)) (cs_lease_timeout_sec c)"
    using assms(2,3) flt_not_fle [OF assms(2)]
    by (cases "fsub now t"; cases "cs_lease_timeout_sec c") (auto simp: fmax_def)
  then show ?thesis
    using assms(1) by (auto simp: lease_is_fresh_def lease_age_def age_of_def fresh_within_def)
qed

section \<open>Ordering of control events\<close>

lemma is_newer_irrefl: "\<not> is_newer_sequence p p"
  by (simp add: is_newer_sequence_def)

lemma is_newer_asym:
  assumes "is_newer_sequence a b"
  shows "\<not> is_newer_sequence b a"
proof -
  have d: "0 < (a - b) mod 2 ^ 64" "(a - b) mod 2 ^ 64 < 2 ^ 63"
    using assms by (simp_all add: is_newer_sequence_def Let_def UINT64_MODULUS_def UINT64_HALF_RANGE_def)
  have "(b - a) mod (2 ^ 64) = (- ((a - b) mod 2 ^ 64)) mod (2 ^ 64)"
    by (metis minus_diff_eq mod_minus_eq)
  also have "\<dots> = (2 ^ 64 - (a - b) mod 2 ^ 64) mod 2 ^ 64"
    by (metis add.commute diff_conv_add_uminus mod_add_self1 add_uminus_conv_diff)
  also have "\<dots> = 2 ^ 64 - (a - b) mod 2 ^ 64"
    using d by (intro mod_pos_pos_trivial) auto
  finally show ?thesis
    using d by (simp add: is_newer_sequence_def Let_def UINT64_MODULUS_def UINT64_HALF_RANGE_def)
qed

text \<open>Within half the range, newer is the order of the unwrapped counters.\<close>

lemma is_newer_wrapped:
  assumes "0 \<le> p" "0 < k" "k < 2 ^ 63"
  shows "is_newer_sequence ((p + k) mod 2 ^ 64) (p mod 2 ^ 64)"
proof -
  have "((p + k) mod 2 ^ 64 - p mod 2 ^ 64) mod 2 ^ 64 = (p + k - p) mod 2 ^ 64"
    by (rule mod_diff_eq)
  also have "\<dots> = k" using assms by (simp add: mod_pos_pos_trivial)
  finally show ?thesis
    using assms by (simp add: is_newer_sequence_def Let_def UINT64_MODULUS_def UINT64_HALF_RANGE_def)
qed

lemma stale_event_rejected:
  assumes "lease_is_live c (ci_now i)" "cs_last_control_sequence c = Some p"
    and "\<not> is_newer_sequence (ci_sequence i) p"
  shows "fst (handle_control_event c i) = c \<and> \<not> sr_accepted (snd (handle_control_event c i))"
proof -
  have "lease_active (cs_state c)" using assms(1) by (simp add: lease_is_live_def)
  then show ?thesis
    using assms
    by (auto simp: handle_control_event_def expire_lease_live reinstates_def acquire_lease_event_def
        reject_def Let_def)
qed

text \<open>A reinstated lease carries no grant.\<close>

lemma reinstated_disarmed:
  assumes "cs_inv c" "reinstates (fst (expire_lease c (ci_now i))) i"
  shows "let s = cs_state (fst (handle_control_event c i))
    in lease_active s \<and> ps_lease_id s = ci_lease_id i \<and> \<not> ps_run_held s \<and> \<not> ps_manual_active s
       \<and> ps_goal s = None \<and> \<not> ps_navigation_active s"
proof -
  let ?c = "fst (expire_lease c (ci_now i))"
  have inv: "ps_inv (cs_state ?c)" using expire_lease_inv [OF assms(1)] by (simp add: cs_inv_def)
  have "\<not> lease_active (cs_state ?c)" using assms(2) by (simp add: reinstates_def)
  with inv have "\<not> ps_run_held (cs_state ?c) \<and> \<not> ps_manual_active (cs_state ?c)
      \<and> ps_goal (cs_state ?c) = None \<and> \<not> ps_navigation_active (cs_state ?c)"
    by (auto simp: ps_inv_def autonomy_permitted_def)
  then show ?thesis
    using assms(2)
    by (auto simp: handle_control_event_def Let_def lease_taken_def transition_simps reinstates_def
        on_acquire_lease_def acquire_args_def lease_active_def no_args_def split: if_splits)
qed

section \<open>A concrete run\<close>

definition demo_supervisor :: supervisor where
  "demo_supervisor =
     \<lparr>cs_lease_timeout_sec = Fin 1, cs_control_liveness_sec = Fin 3,
      cs_raw_autonomy_timeout_sec = Fin 1, cs_manual_timeout_sec = Fin 1,
      cs_manual_max_speed_mps = Fin (1 / 4), cs_minimum_moving_speed_mps = Fin (1 / 8),
      cs_state = initial_state '''', cs_last_lease_receive_at = None,
      cs_last_raw_autonomy_at = None, cs_last_manual_input_at = None,
      cs_last_raw_manual_at = None, cs_manual_demand = None,
      cs_last_control_sequence = None, cs_lapsed_lease = None\<rparr>"

definition demo_event :: "control_event \<Rightarrow> int \<Rightarrow> pyfloat \<Rightarrow> control_input" where
  "demo_event e q now = \<lparr>ci_event = e, ci_client_id = ''c'', ci_lease_id = ''l'', ci_sequence = q,
     ci_now = now, ci_goal_x = Fin 1, ci_goal_y = Fin 2, ci_goal_yaw = Fin 0,
     ci_manual_speed_mps = Fin 1, ci_manual_steering = Fin 2\<rparr>"

definition demo_velocity :: velocity_command where
  "demo_velocity = \<lparr>vc_linear_x = Fin 1, vc_linear_y = Fin 0, vc_linear_z = Fin 0,
     vc_angular_x = Fin 0, vc_angular_y = Fin 0, vc_angular_z = Fin 0\<rparr>"

definition demo_autonomy_run :: "sup_input list" where
  "demo_autonomy_run =
     [InControl (demo_event CE_LEASE_ACQUIRED 1 (Fin 1)),
      InRuntimeMode MODE_AUTONOMY ''studio'' (Fin 1) True,
      InControl (demo_event CE_GOAL_SELECTED 2 (Fin 1)),
      InControl (demo_event CE_RUN_PRESSED 3 (Fin 1))]"

definition demo_manual_run :: "sup_input list" where
  "demo_manual_run =
     [InControl (demo_event CE_LEASE_ACQUIRED 1 (Fin 1)),
      InRuntimeMode MODE_MAPPING '''' (Fin 1) True,
      InControl (demo_event CE_MANUAL_ACTIVE 2 (Fin 1))]"

lemma demo_initial: "sup_initial demo_supervisor"
proof -
  have "new_supervisor (Fin 1) (Fin 1) (Some (Fin 3)) (Fin 1) (Fin (1 / 4)) (Fin (1 / 8)) ''''
      = Inr demo_supervisor"
    using dbl_ge_double [of "1 / 4" "40 / 100"]
    by (simp add: new_supervisor_def demo_supervisor_def manual_speed_ceiling_valid_def
        MAX_MANUAL_MAX_SPEED_MPS_def)
  then show ?thesis unfolding sup_initial_def by (intro exI conjI) (assumption, simp)
qed

lemmas sup_eval = handle_control_event_def owner_event_def acquire_lease_event_def lease_taken_def
  goal_selected_event_def mapped_event_def manual_active_event_def finish_event_def reinstates_def
  set_runtime_mode_def follow_runtime_def expire_lease_def expire_manual_def
  clear_manual_if_inactive_def bounded_speed_def lease_is_live_def lease_is_fresh_def lease_age_def
  manual_is_fresh_def manual_age_def age_of_def fresh_within_def is_newer_sequence_def
  UINT64_MODULUS_def UINT64_HALF_RANGE_def acquire_args_def lease_args_def answer_def reject_def
  transition_simps branch_defs sm_defs no_args_def initial_state_def authority_of_def Let_def
  demo_supervisor_def demo_event_def demo_velocity_def vc_valid_def vc_values_def

definition demo_autonomy_state :: supervisor where
  "demo_autonomy_state = run_steps sup_step demo_supervisor demo_autonomy_run"

lemma demo_autonomy_facts:
  "authority_of (cs_state demo_autonomy_state) = AUTH_PADDOCK_AUTONOMY"
  "cs_last_lease_receive_at demo_autonomy_state = Some (Fin 1)"
  "cs_lease_timeout_sec demo_autonomy_state = Fin 1"
  "lease_is_fresh demo_autonomy_state (Fin 2)"
  by (simp_all add: demo_autonomy_state_def demo_autonomy_run_def sup_eval)

definition demo_manual_state :: supervisor where
  "demo_manual_state = run_steps sup_step demo_supervisor demo_manual_run"

lemma demo_manual_facts:
  "authority_of (cs_state demo_manual_state) = AUTH_PADDOCK_MANUAL"
  "cs_manual_demand demo_manual_state =
     Some \<lparr>md_sequence = 2, md_signed_speed_mps = Fin (1 / 4), md_steering_normalized = Fin 1\<rparr>"
  "lease_is_live demo_manual_state (Fin 2)" "manual_is_fresh demo_manual_state (Fin 2)"
  by (simp_all add: demo_manual_state_def demo_manual_run_def sup_eval)

section \<open>Properties\<close>

text \<open>
  C3. The autonomy gate is exact: in every reachable state a finite raw
  command is forwarded when, and only when, the reducer grants the autonomy
  authority and the last ordered control event of the lease owner is no
  older than the RUN deadman.
\<close>

theorem raw_autonomy_forwarded_iff:
  assumes "sup_initial c0" and "c = run_steps sup_step c0 is"
    and "isfinite now" and "vc_valid v"
  shows "sr_autonomy_command (snd (receive_raw_autonomy c v now)) =
    (if authority_of (cs_state c) = AUTH_PADDOCK_AUTONOMY \<and> lease_is_fresh c now
     then Some v else None)"
  using assms sup.invar_reachable by (simp add: raw_autonomy_gate)

theorem raw_autonomy_forwarded_iff_witness:
  "sr_autonomy_command (snd (receive_raw_autonomy demo_autonomy_state demo_velocity (Fin 2)))
   = Some demo_velocity"
  using raw_autonomy_forwarded_iff
    [OF demo_initial demo_autonomy_state_def, of "Fin 2" demo_velocity] demo_autonomy_facts
  by (simp add: demo_velocity_def vc_valid_def vc_values_def)

text \<open>
  The manual gate is exact: a converted manual sample is forwarded when,
  and only when, manual authority is granted, the lease is live, the demand
  is fresh and the sample answers the sequence number of that demand.
\<close>

theorem raw_manual_forwarded_iff:
  assumes "sup_initial c0" and "c = run_steps sup_step c0 is"
    and "isfinite now" and "vc_valid v"
  shows "sr_manual_command (snd (receive_raw_manual c v q now)) =
    (if authority_of (cs_state c) = AUTH_PADDOCK_MANUAL \<and> lease_is_live c now
        \<and> manual_is_fresh c now \<and> map_option md_sequence (cs_manual_demand c) = Some q
     then Some v else None)"
  using assms sup.invar_reachable by (simp add: raw_manual_gate)

theorem raw_manual_forwarded_iff_witness:
  "sr_manual_command (snd (receive_raw_manual demo_manual_state demo_velocity 2 (Fin 2)))
     = Some demo_velocity
   \<and> sr_manual_command (snd (receive_raw_manual demo_manual_state demo_velocity 7 (Fin 2))) = None"
  using raw_manual_forwarded_iff
      [OF demo_initial demo_manual_state_def, of "Fin 2" demo_velocity 2]
    raw_manual_forwarded_iff
      [OF demo_initial demo_manual_state_def, of "Fin 2" demo_velocity 7] demo_manual_facts
  by (simp add: demo_velocity_def vc_valid_def vc_values_def)

text \<open>
  C4. Deadman on the operator link: once the browser's control events stop,
  no later raw autonomy command is forwarded after the lease timeout has
  passed since the last one, whatever ticks, mode changes, takeovers and raw
  samples arrive in between.
\<close>

theorem link_loss_stops_autonomy:
  assumes "sup_initial c0" and "c = run_steps sup_step c0 is"
    and "cs_last_lease_receive_at c = Some t"
    and "\<forall>i \<in> set js. \<forall>k. i \<noteq> InControl k"
    and "flt (cs_lease_timeout_sec c) (fsub now t)"
  shows "sr_autonomy_command (snd (receive_raw_autonomy (run_steps sup_step c js) v now)) = None"
proof -
  let ?d = "run_steps sup_step c js"
  have "cs_inv c" using assms(1,2) sup.invar_reachable by simp
  then have pos: "flt (Fin 0) (cs_lease_timeout_sec c)" by (simp add: cs_inv_def config_ok_def)
  have "\<not> lease_is_fresh (fst (expire_lease ?d now)) now"
    using silent_run_stamp [OF assms(4), of c] assms(3,5) pos
    by (intro stale_stamp_not_fresh [where t = t]) (auto simp: frame_simps)
  then show ?thesis using raw_autonomy_needs_fresh by blast
qed

theorem link_loss_stops_autonomy_witness:
  "sr_autonomy_command (snd (receive_raw_autonomy
     (run_steps sup_step demo_autonomy_state [InTick (Fin 2), InRawAutonomy demo_velocity (Fin 3)])
     demo_velocity (Fin 4))) = None"
  using link_loss_stops_autonomy [OF demo_initial demo_autonomy_state_def demo_autonomy_facts(2),
      of "[InTick (Fin 2), InRawAutonomy demo_velocity (Fin 3)]" "Fin 4" demo_velocity]
  by (simp add: demo_autonomy_facts(3))

text \<open>
  Every manual demand the supervisor ever holds respects the absolute
  manual ceiling of 0.40 m/s and the normalised steering range, for finite
  inputs of any size.
\<close>

theorem manual_demand_bounded:
  assumes "sup_initial c0" and "cs_manual_demand (run_steps sup_step c0 is) = Some d"
  shows "fle (fabs (md_signed_speed_mps d)) MAX_MANUAL_MAX_SPEED_MPS
    \<and> fle (fabs (md_steering_normalized d)) (Fin 1)"
  using assms sup.invar_reachable [of c0 "is"] by (simp add: cs_inv_def demand_ok_def)

theorem manual_demand_bounded_witness:
  "fle (fabs (Fin (1 / 4))) MAX_MANUAL_MAX_SPEED_MPS \<and> fle (fabs (Fin 1)) (Fin 1)"
  using manual_demand_bounded [OF demo_initial, of demo_manual_run] demo_manual_facts(2)
  by (simp add: demo_manual_state_def)

text \<open>
  Replayed and reordered events change nothing: while the lease is
  live, an event whose sequence number is not newer (modulo 64 bits) than
  the last accepted one leaves the whole supervisor as it was and is
  answered as not accepted, whoever sends it.
\<close>

theorem replayed_event_has_no_effect:
  assumes "lease_is_live c (ci_now i)" and "cs_last_control_sequence c = Some p"
    and "\<not> is_newer_sequence (ci_sequence i) p"
  shows "fst (handle_control_event c i) = c \<and> \<not> sr_accepted (snd (handle_control_event c i))"
  using assms by (rule stale_event_rejected)

theorem replayed_event_has_no_effect_witness:
  "fst (handle_control_event demo_manual_state (demo_event CE_RUN_PRESSED 2 (Fin 2)))
   = demo_manual_state"
  using replayed_event_has_no_effect [of demo_manual_state "demo_event CE_RUN_PRESSED 2 (Fin 2)" 2]
    demo_manual_facts(3) is_newer_irrefl
  by (simp add: demo_event_def demo_manual_state_def demo_manual_run_def sup_eval)

text \<open>
  A lease reinstated by a heartbeat after it lapsed comes back without
  any grant: RUN, the goal, manual control and navigation all stay off.
\<close>

theorem reinstated_lease_is_disarmed:
  assumes "sup_initial c0" and "c = run_steps sup_step c0 is"
    and "reinstates (fst (expire_lease c (ci_now i))) i"
  shows "let s = cs_state (fst (handle_control_event c i))
    in lease_active s \<and> ps_lease_id s = ci_lease_id i \<and> \<not> ps_run_held s \<and> \<not> ps_manual_active s
       \<and> ps_goal s = None \<and> \<not> ps_navigation_active s"
  using reinstated_disarmed assms sup.invar_reachable by blast

theorem reinstated_lease_is_disarmed_witness:
  "let s = cs_state (fst (handle_control_event demo_autonomy_state
                            (demo_event CE_HEARTBEAT 4 (Fin 9))))
   in lease_active s \<and> \<not> ps_run_held s"
proof -
  have "reinstates (fst (expire_lease demo_autonomy_state (Fin 9))) (demo_event CE_HEARTBEAT 4 (Fin 9))"
    by (simp add: demo_autonomy_state_def demo_autonomy_run_def sup_eval)
  then show ?thesis
    using reinstated_lease_is_disarmed [OF demo_initial demo_autonomy_state_def,
        of "demo_event CE_HEARTBEAT 4 (Fin 9)"]
    by (simp add: demo_event_def Let_def)
qed

end
