(* ===== verification/StopEnforcer.thy ===== *)
theory StopEnforcer
  imports PyFloat
begin

text \<open>
  The persistent global STOP (\<open>runner_paddock/stop_enforcer.py\<close>). Attributes of
  \<open>StopEnforcer\<close> carry the prefix \<open>se_\<close>, fields of the request message \<open>rq_\<close> and
  of the published \<open>StopState\<close> \<open>ss_\<close>. A clock reading is an argument of the
  operation that takes it; what an operation publishes is the list of effects
  it returns. The last theory section adds the worker thread and the state
  file and shows what survives a crash.
\<close>

section \<open>Constants, requests and published state\<close>

definition DRAIN_TIME :: pyfloat where
  "DRAIN_TIME = dbl (40 / 100)"

definition STATE_HEARTBEAT_PERIOD :: pyfloat where
  "STATE_HEARTBEAT_PERIOD = dbl (5 / 100)"

definition SIGNAL_TIMEOUT :: pyfloat where
  "SIGNAL_TIMEOUT = dbl (20 / 100)"

definition FINAL_TIMEOUT :: pyfloat where
  "FINAL_TIMEOUT = dbl (10 / 100)"

record stop_request =
  rq_requester_id :: string
  rq_request_id :: int
  rq_expected_boot_id :: string
  rq_expected_generation :: int
  rq_stopped :: bool

record stop_state =
  ss_boot_id :: string
  ss_generation :: int
  ss_stopped :: bool
  ss_locked :: bool
  ss_healthy :: bool
  ss_applied :: bool
  ss_clear_pending :: bool
  ss_reason :: string
  ss_last_requester_id :: string
  ss_last_request_id :: int
  ss_last_request_accepted :: bool
  ss_last_request_reason :: string

datatype effect = Lock bool | Zero | State stop_state | Submit int bool

section \<open>The persisted record\<close>

text \<open>What \<open>json.loads\<close> returns.\<close>

datatype json =
    JNull | JBool bool | JInt int | JFloat pyfloat | JStr string
  | JList "json list" | JObj "(string \<times> json) list"

text \<open>\<open>value.get('version') != 1\<close> with Python's numeric equality.\<close>

definition equals_one :: "json option \<Rightarrow> bool" where
  "equals_one v = (case v of
       Some (JInt n) \<Rightarrow> n = 1
     | Some (JBool b) \<Rightarrow> b
     | Some (JFloat x) \<Rightarrow> feq x (Fin 1)
     | _ \<Rightarrow> False)"

text \<open>\<open>type(x) is bool\<close> and \<open>type(x) is int\<close> (a Boolean is not of type \<open>int\<close>).\<close>

definition as_bool :: "json option \<Rightarrow> bool option" where
  "as_bool v = (case v of Some (JBool b) \<Rightarrow> Some b | _ \<Rightarrow> None)"

definition as_int :: "json option \<Rightarrow> int option" where
  "as_int v = (case v of Some (JInt n) \<Rightarrow> Some n | _ \<Rightarrow> None)"

fun restore_value :: "json \<Rightarrow> (int \<times> bool) result" where
  "restore_value (JObj d) =
     (if \<not> equals_one (dict_get d ''version'') then Inl (ValueError ''invalid STOP record'')
      else case (as_bool (dict_get d ''stopped''), as_int (dict_get d ''generation'')) of
        (Some stopped, Some generation) \<Rightarrow>
          if 0 \<le> generation \<and> generation < 2 ^ 63 then Inr (generation, stopped)
          else Inl (ValueError ''invalid STOP record'')
      | _ \<Rightarrow> Inl (ValueError ''invalid STOP record''))"
| "restore_value _ = Inl (AttributeError ''get'')"

definition restore :: "json result \<Rightarrow> (int \<times> bool) result" where
  "restore text = bind_result text restore_value"

text \<open>The record \<open>persist\<close> writes, as \<open>json.loads\<close> reads it back.\<close>

definition persisted :: "int \<Rightarrow> bool \<Rightarrow> json" where
  "persisted generation stopped =
     JObj [(''version'', JInt 1), (''generation'', JInt generation), (''stopped'', JBool stopped)]"

section \<open>State\<close>

record enforcer =
  se_boot :: string
  se_fault :: string
  se_generation :: int
  se_stopped :: bool
  se_durable :: bool
  se_locked :: bool
  se_clear_at :: "pyfloat option"
  se_zero_seen :: bool
  se_final_at :: "pyfloat option"
  se_encoder_at :: "pyfloat option"
  se_stationary :: bool
  se_local_at :: "pyfloat option"
  se_local_released :: bool
  se_local_neutral :: bool
  se_write :: "(int \<times> bool) option"
  se_last_requester_id :: string
  se_last_request_id :: int
  se_last_request_accepted :: bool
  se_last_request_reason :: string
  se_request_results :: "(string, int \<times> bool \<times> string) pydict"
  se_last_state_publish_at :: "pyfloat option"
  se_last_state_key :: "stop_state option"

text \<open>
  \<open>__init__\<close>: an unreadable or invalid record starts stopped with a fault; an
  exception other than \<open>OSError\<close>, \<open>ValueError\<close> and \<open>TypeError\<close> is not caught.
\<close>

fun caught_on_restore :: "py_error \<Rightarrow> bool" where
  "caught_on_restore (OSError _) = True"
| "caught_on_restore (ValueError _) = True"
| "caught_on_restore (TypeError _) = True"
| "caught_on_restore _ = False"

definition boot_enforcer :: "string \<Rightarrow> pyfloat \<Rightarrow> int \<Rightarrow> bool \<Rightarrow> string \<Rightarrow> enforcer" where
  "boot_enforcer boot started generation stopped fault =
     \<lparr> se_boot = boot, se_fault = fault, se_generation = generation, se_stopped = stopped,
       se_durable = (fault = []), se_locked = True,
       se_clear_at = (if \<not> stopped \<and> fault = [] then Some (fadd started DRAIN_TIME) else None),
       se_zero_seen = False, se_final_at = None, se_encoder_at = None, se_stationary = False,
       se_local_at = None, se_local_released = False, se_local_neutral = False, se_write = None,
       se_last_requester_id = [], se_last_request_id = 0, se_last_request_accepted = False,
       se_last_request_reason = [], se_request_results = [], se_last_state_publish_at = None,
       se_last_state_key = None \<rparr>"

definition new_enforcer :: "string \<Rightarrow> pyfloat \<Rightarrow> json result \<Rightarrow> enforcer result" where
  "new_enforcer boot started text =
     (case restore text of
        Inr (generation, stopped) \<Rightarrow> Inr (boot_enforcer boot started generation stopped [])
      | Inl e \<Rightarrow> if caught_on_restore e
                 then Inr (boot_enforcer boot started 0 True ''STOP_STATE_UNKNOWN'')
                 else Inl e)"

section \<open>Observations\<close>

definition on_encoder :: "enforcer \<Rightarrow> bool \<Rightarrow> pyfloat \<Rightarrow> enforcer" where
  "on_encoder e stationary now = e\<lparr>se_encoder_at := Some now, se_stationary := stationary\<rparr>"

definition on_local_control :: "enforcer \<Rightarrow> bool \<Rightarrow> bool \<Rightarrow> pyfloat \<Rightarrow> enforcer" where
  "on_local_control e released neutral now =
     e\<lparr>se_local_at := Some now, se_local_released := released, se_local_neutral := neutral\<rparr>"

definition on_final :: "enforcer \<Rightarrow> pyfloat \<Rightarrow> pyfloat \<Rightarrow> pyfloat \<Rightarrow> enforcer" where
  "on_final e linear_x angular_z now =
     (if se_locked e \<and> feq linear_x (Fin 0) \<and> feq angular_z (Fin 0)
      then e\<lparr>se_zero_seen := True, se_final_at := Some now\<rparr> else e)"

definition stale :: "pyfloat option \<Rightarrow> pyfloat \<Rightarrow> bool" where
  "stale since now = (case since of None \<Rightarrow> True | Some t \<Rightarrow> flt SIGNAL_TIMEOUT (fsub now t))"

definition clear_reason :: "enforcer \<Rightarrow> pyfloat \<Rightarrow> string" where
  "clear_reason e now =
     (if stale (se_encoder_at e) now then ''ENCODER_STALE''
      else if \<not> se_stationary e then ''NOT_STATIONARY''
      else if stale (se_local_at e) now then ''LOCAL_STATUS_STALE''
      else if \<not> se_local_released e \<or> \<not> se_local_neutral e then ''LOCAL_NOT_NEUTRAL''
      else if truthy (se_fault e) \<or> \<not> se_durable e \<or> se_write e \<noteq> None
      then (if truthy (se_fault e) then se_fault e else ''PERSISTENCE_PENDING'')
      else [])"

section \<open>Requests\<close>

definition ack :: "enforcer \<Rightarrow> stop_request \<Rightarrow> bool \<Rightarrow> string \<Rightarrow> bool \<Rightarrow> enforcer" where
  "ack e r accepted reason store =
     (let e' = (if store
                then e\<lparr>se_request_results := dict_set (se_request_results e) (rq_requester_id r)
                         (rq_request_id r, accepted, reason)\<rparr>
                else e)
      in e'\<lparr>se_last_requester_id := rq_requester_id r, se_last_request_id := rq_request_id r,
            se_last_request_accepted := accepted, se_last_request_reason := reason\<rparr>)"

definition fresh_request :: "enforcer \<Rightarrow> stop_request \<Rightarrow> pyfloat \<Rightarrow> enforcer \<times> effect list" where
  "fresh_request e r now =
     (if truthy (rq_expected_boot_id r) \<and> rq_expected_boot_id r \<noteq> se_boot e
      then (ack e r False ''STALE_EXECUTOR_BOOT'' True, [])
      else if rq_stopped r
      then (let g = se_generation e + 1;
                e' = e\<lparr>se_generation := g, se_stopped := True, se_locked := True,
                       se_clear_at := None, se_zero_seen := False, se_durable := False,
                       se_write := Some (g, True)\<rparr>
            in (ack e' r True ''STOP_REQUESTED'' True, [Lock True, Zero, Submit g True]))
      else if rq_expected_generation r \<noteq> se_generation e
      then (ack e r False ''STALE_STOP_GENERATION'' True, [])
      else if se_clear_at e \<noteq> None then (ack e r False ''CLEAR_PENDING'' True, [])
      else (let reason = clear_reason e now in
            if reason = []
            then (let g = se_generation e + 1;
                      e' = e\<lparr>se_generation := g, se_durable := False, se_write := Some (g, False)\<rparr>
                  in (ack e' r True ''CLEAR_REQUESTED'' True, [Submit g False]))
            else (ack e r False reason True, [])))"

definition request :: "enforcer \<Rightarrow> stop_request \<Rightarrow> pyfloat \<Rightarrow> enforcer \<times> effect list" where
  "request e r now =
     (case dict_get (se_request_results e) (rq_requester_id r) of
        Some (previous_id, accepted, reason) \<Rightarrow>
          if rq_request_id r = previous_id then (ack e r accepted reason True, [])
          else if rq_request_id r < previous_id
          then (ack e r False ''STALE_REQUEST_ID'' False, [])
          else fresh_request e r now
      | None \<Rightarrow> fresh_request e r now)"

section \<open>The enforcement timer\<close>

text \<open>State of the outstanding write: still running, finished, or failed with an exception.\<close>

datatype write_outcome = WO_running | WO_done | WO_failed string

definition collect_write :: "enforcer \<Rightarrow> write_outcome \<Rightarrow> pyfloat \<Rightarrow> enforcer" where
  "collect_write e w now =
     (case (se_write e, w) of
        (Some (generation, stopped), WO_done) \<Rightarrow>
          (let e' = e\<lparr>se_write := None\<rparr> in
           if generation = se_generation e
           then (let e'' = e'\<lparr>se_durable := True, se_fault := []\<rparr> in
                 if \<not> stopped then e''\<lparr>se_clear_at := Some (fadd now DRAIN_TIME)\<rparr> else e'')
           else e')
      | (Some _, WO_failed ex) \<Rightarrow>
          e\<lparr>se_write := None, se_fault := ''PERSISTENCE_FAILED:'' @ ex,
            se_stopped := True, se_locked := True\<rparr>
      | _ \<Rightarrow> e)"

definition drain :: "enforcer \<Rightarrow> pyfloat \<Rightarrow> pyfloat \<Rightarrow> enforcer \<times> effect list" where
  "drain e now now_check =
     (case se_clear_at e of
        None \<Rightarrow> (e, [])
      | Some clear_at \<Rightarrow>
          (let reason = (if \<not> se_stopped e then [] else clear_reason e now_check) in
           if truthy reason
           then (let g = se_generation e + 1 in
                 (e\<lparr>se_generation := g, se_stopped := True, se_locked := True,
                    se_durable := False, se_clear_at := None, se_write := Some (g, True)\<rparr>,
                  [Submit g True]))
           else if fle clear_at now
           then (e\<lparr>se_stopped := False, se_locked := False, se_clear_at := None\<rparr>, [])
           else (e, [])))"

definition applied :: "enforcer \<Rightarrow> pyfloat \<Rightarrow> bool" where
  "applied e now =
     (se_stopped e \<and> se_locked e \<and> se_durable e \<and> se_zero_seen e
      \<and> (case se_final_at e of None \<Rightarrow> False | Some t \<Rightarrow> fle (fsub now t) FINAL_TIMEOUT))"

definition state_message :: "enforcer \<Rightarrow> pyfloat \<Rightarrow> stop_state" where
  "state_message e now =
     \<lparr> ss_boot_id = se_boot e, ss_generation = se_generation e, ss_stopped = se_stopped e,
       ss_locked = se_locked e, ss_healthy = (\<not> truthy (se_fault e)), ss_applied = applied e now,
       ss_clear_pending = (se_clear_at e \<noteq> None),
       ss_reason = (if truthy (se_fault e) then se_fault e
                    else if applied e now then ''STOP_APPLIED''
                    else if \<not> se_locked e then ''CLEAR'' else ''STOP_PENDING''),
       ss_last_requester_id = se_last_requester_id e, ss_last_request_id = se_last_request_id e,
       ss_last_request_accepted = se_last_request_accepted e,
       ss_last_request_reason = se_last_request_reason e \<rparr>"

definition publish_state :: "enforcer \<Rightarrow> pyfloat \<Rightarrow> enforcer \<times> effect list" where
  "publish_state e now =
     (let key = state_message e now;
          due = (case se_last_state_publish_at e of None \<Rightarrow> True
                 | Some t \<Rightarrow> fle STATE_HEARTBEAT_PERIOD (fsub now t))
      in if se_last_state_key e = Some key \<and> \<not> due then (e, [])
         else (e\<lparr>se_last_state_key := Some key, se_last_state_publish_at := Some now\<rparr>,
               [State key]))"

definition tick :: "enforcer \<Rightarrow> pyfloat \<Rightarrow> pyfloat \<Rightarrow> write_outcome \<Rightarrow> enforcer \<times> effect list" where
  "tick e now now_check w =
     (let (e1, submitted) = drain (collect_write e w now) now now_check;
          zero = (if se_locked e1 \<and> se_clear_at e1 = None then [Zero] else []);
          (e2, published) = publish_state e1 now
      in (e2, submitted @ [Lock (se_locked e1)] @ zero @ published))"

section \<open>The enforcer as a machine\<close>

datatype enforcer_input =
    EI_encoder bool pyfloat
  | EI_local bool bool pyfloat
  | EI_final pyfloat pyfloat pyfloat
  | EI_request stop_request pyfloat
  | EI_tick pyfloat pyfloat write_outcome

fun enforcer_full_step :: "enforcer \<Rightarrow> enforcer_input \<Rightarrow> enforcer \<times> effect list" where
  "enforcer_full_step e (EI_encoder s now) = (on_encoder e s now, [])"
| "enforcer_full_step e (EI_local r n now) = (on_local_control e r n now, [])"
| "enforcer_full_step e (EI_final x z now) = (on_final e x z now, [])"
| "enforcer_full_step e (EI_request r now) = request e r now"
| "enforcer_full_step e (EI_tick now now_check w) = tick e now now_check w"

definition enforcer_step :: "enforcer \<Rightarrow> enforcer_input \<Rightarrow> enforcer" where
  "enforcer_step e i = fst (enforcer_full_step e i)"

lemmas request_defs = request_def fresh_request_def ack_def
lemmas tick_defs = tick_def collect_write_def drain_def publish_state_def

text \<open>
  A write in flight carries the current generation and excludes a pending
  clear; a STOP in flight keeps the lock. Every stored answer has a
  request id, and the results form a dictionary.
\<close>

definition se_inv :: "enforcer \<Rightarrow> bool" where
  "se_inv e = (0 \<le> se_generation e \<and> dict_wf (se_request_results e)
     \<and> (\<forall>g s. se_write e = Some (g, s) \<longrightarrow> g = se_generation e \<and> \<not> se_durable e
          \<and> se_clear_at e = None \<and> (s \<longrightarrow> se_stopped e \<and> se_locked e))
     \<and> (se_clear_at e \<noteq> None \<longrightarrow> se_durable e)
     \<and> (se_stopped e \<longrightarrow> se_locked e))"

definition se_initial :: "enforcer \<Rightarrow> bool" where
  "se_initial e = (\<exists>boot started text. new_enforcer boot started text = Inr e)"

lemma restore_range: "restore text = Inr (g, s) \<Longrightarrow> 0 \<le> g \<and> g < 2 ^ 63"
  by (auto simp: restore_def bind_result_Inr_iff split: option.splits if_splits
      elim!: restore_value.elims)

lemma new_enforcer_cases:
  assumes "new_enforcer boot started text = Inr e"
  obtains (known) g s where "restore text = Inr (g, s)" "e = boot_enforcer boot started g s []"
  | (unknown) err where "restore text = Inl err" "caught_on_restore err"
      "e = boot_enforcer boot started 0 True ''STOP_STATE_UNKNOWN''"
  using assms by (auto simp: new_enforcer_def split: sum.splits if_splits)

lemma se_inv_boot: "0 \<le> g \<Longrightarrow> se_inv (boot_enforcer boot started g s fault)"
  by (simp add: se_inv_def boot_enforcer_def dict_wf_def)

lemma se_initial_inv: "se_initial e \<Longrightarrow> se_inv e"
  unfolding se_initial_def
  by (auto elim!: new_enforcer_cases intro!: se_inv_boot dest: restore_range)

lemma ack_fields [simp]:
  "se_generation (ack e r b t st) = se_generation e" "se_write (ack e r b t st) = se_write e"
  "se_durable (ack e r b t st) = se_durable e" "se_clear_at (ack e r b t st) = se_clear_at e"
  "se_stopped (ack e r b t st) = se_stopped e" "se_locked (ack e r b t st) = se_locked e"
  "se_fault (ack e r b t st) = se_fault e" "se_zero_seen (ack e r b t st) = se_zero_seen e"
  "se_boot (ack e r b t st) = se_boot e"
  by (simp_all add: ack_def Let_def)

lemma ack_wf: "dict_wf (se_request_results e) \<Longrightarrow> dict_wf (se_request_results (ack e r b t st))"
  by (simp add: ack_def Let_def pydict.wf_update)

lemma clear_reason_none_iff:
  "clear_reason e now = [] \<longleftrightarrow> \<not> stale (se_encoder_at e) now \<and> se_stationary e
     \<and> \<not> stale (se_local_at e) now \<and> se_local_released e \<and> se_local_neutral e
     \<and> se_fault e = [] \<and> se_durable e \<and> se_write e = None"
  by (cases "se_write e") (auto simp: clear_reason_def truthy_iff)

lemma fresh_request_inv: "se_inv e \<Longrightarrow> se_inv (fst (fresh_request e r now))"
  by (simp add: fresh_request_def Let_def se_inv_def ack_wf)

lemma request_inv: "se_inv e \<Longrightarrow> se_inv (fst (request e r now))"
  using fresh_request_inv [of e r now]
  by (auto simp: request_def se_inv_def intro!: ack_wf split: option.split)

lemma collect_write_inv: "se_inv e \<Longrightarrow> se_inv (collect_write e w now)"
  by (auto simp: collect_write_def se_inv_def Let_def split: option.split write_outcome.split)

lemma drain_inv: "se_inv e \<Longrightarrow> se_inv (fst (drain e now now'))"
  by (auto simp: drain_def se_inv_def Let_def split: option.split)

lemma publish_state_fields [simp]:
  "se_generation (fst (publish_state e now)) = se_generation e"
  "se_write (fst (publish_state e now)) = se_write e"
  "se_durable (fst (publish_state e now)) = se_durable e"
  "se_clear_at (fst (publish_state e now)) = se_clear_at e"
  "se_stopped (fst (publish_state e now)) = se_stopped e"
  "se_locked (fst (publish_state e now)) = se_locked e"
  "se_fault (fst (publish_state e now)) = se_fault e"
  "se_request_results (fst (publish_state e now)) = se_request_results e"
  by (simp_all add: publish_state_def Let_def)

lemma tick_fst:
  "fst (tick e now now' w) = fst (publish_state (fst (drain (collect_write e w now) now now')) now)"
  by (simp add: tick_def Let_def split_beta)

lemma enforcer_tick_inv: "se_inv e \<Longrightarrow> se_inv (fst (tick e now now' w))"
  using drain_inv [OF collect_write_inv, of e w now now now'] by (simp add: tick_fst se_inv_def)

lemma enforcer_step_inv: "se_inv e \<Longrightarrow> se_inv (enforcer_step e i)"
proof (cases i)
  case (EI_request r now)
  then show "se_inv e \<Longrightarrow> ?thesis" by (simp add: enforcer_step_def request_inv)
next
  case (EI_tick now now' w)
  then show "se_inv e \<Longrightarrow> ?thesis" by (simp add: enforcer_step_def enforcer_tick_inv)
qed (auto simp: enforcer_step_def se_inv_def on_encoder_def on_local_control_def on_final_def)

lemma collect_write_generation [simp]: "se_generation (collect_write e w now) = se_generation e"
  by (simp add: collect_write_def Let_def split: option.split write_outcome.split)

lemma enforcer_generation_step: "se_generation e \<le> se_generation (enforcer_step e i)"
proof (cases i)
  case (EI_request r now)
  then show ?thesis
    by (auto simp: enforcer_step_def request_def fresh_request_def Let_def split: option.split)
next
  case (EI_tick now now' w)
  then show ?thesis
    by (auto simp: enforcer_step_def tick_fst drain_def Let_def split: option.split)
qed (simp_all add: enforcer_step_def on_encoder_def on_local_control_def on_final_def)

interpretation enforcer: counting_machine se_initial enforcer_step se_inv se_generation
  by unfold_locales (simp_all add: se_initial_inv enforcer_step_inv enforcer_generation_step)

section \<open>Properties of the lock\<close>

text \<open>STOP is held: stopped, locked, no clear pending and no clear being written.\<close>

definition stop_held :: "enforcer \<Rightarrow> bool" where
  "stop_held e = (se_stopped e \<and> se_locked e \<and> se_clear_at e = None
     \<and> (\<forall>g s. se_write e = Some (g, s) \<longrightarrow> s))"

definition is_clear_request :: "enforcer_input \<Rightarrow> bool" where
  "is_clear_request i = (case i of EI_request r now \<Rightarrow> \<not> rq_stopped r | _ \<Rightarrow> False)"

lemma stop_held_step:
  assumes "stop_held e" "\<not> is_clear_request i"
  shows "stop_held (enforcer_step e i)"
proof (cases i)
  case (EI_request r now)
  then show ?thesis using assms
    by (auto simp: enforcer_step_def stop_held_def is_clear_request_def request_def
        fresh_request_def Let_def split: option.split)
next
  case (EI_tick now now' w)
  then show ?thesis using assms
    by (auto simp: enforcer_step_def tick_fst stop_held_def drain_def collect_write_def Let_def
        split: option.split write_outcome.split)
qed (use assms in \<open>auto simp: enforcer_step_def stop_held_def on_encoder_def on_local_control_def on_final_def\<close>)

lemma stop_held_run:
  "stop_held e \<Longrightarrow> \<forall>i \<in> set is. \<not> is_clear_request i \<Longrightarrow> stop_held (run_steps enforcer_step e is)"
  by (induction "is" arbitrary: e) (simp_all add: stop_held_step)

lemma accepted_stop_holds:
  assumes "rq_stopped r" "se_generation (fst (request e r now)) \<noteq> se_generation e"
  shows "stop_held (fst (request e r now))"
  using assms
  by (auto simp: stop_held_def request_def fresh_request_def Let_def split: option.splits if_splits)

lemma ack_again:
  "dict_get (se_request_results (ack e r b t True)) (rq_requester_id r) = Some (rq_request_id r, b, t)"
  "ack (ack e r b t st) r b t st = ack e r b t st"
  by (auto simp: ack_def Let_def dict_get_set dict_set_same)

lemma fresh_request_ack:
  "\<exists>e' b t. fst (fresh_request e r now) = ack e' r b t True"
  by (simp only: fresh_request_def Let_def fst_conv if_distrib [of fst] split: if_split)
     (blast intro: refl)

lemma stop_request_effect:
  assumes "rq_stopped r" "rq_expected_boot_id r = [] \<or> rq_expected_boot_id r = se_boot e"
    and "\<forall>p a t. dict_get (se_request_results e) (rq_requester_id r) = Some (p, a, t)
      \<longrightarrow> p < rq_request_id r"
  shows "se_generation (fst (request e r now)) = se_generation e + 1"
    "stop_held (fst (request e r now))"
    "snd (request e r now) = [Lock True, Zero, Submit (se_generation e + 1) True]"
proof -
  have "request e r now = fresh_request e r now"
    using assms(3) by (force simp: request_def split: option.split)
  then show "se_generation (fst (request e r now)) = se_generation e + 1"
    "stop_held (fst (request e r now))"
    "snd (request e r now) = [Lock True, Zero, Submit (se_generation e + 1) True]"
    using assms(1,2) by (auto simp: fresh_request_def Let_def stop_held_def truthy_iff)
qed

text \<open>A concrete boot and requests for the witnesses.\<close>

definition demo_enforcer :: enforcer where
  "demo_enforcer = boot_enforcer ''boot'' (Fin 0) 4 False []"

definition demo_stop :: stop_request where
  "demo_stop = \<lparr> rq_requester_id = ''paddock'', rq_request_id = 1, rq_expected_boot_id = ''boot'',
     rq_expected_generation = 4, rq_stopped = True \<rparr>"

definition demo_clear :: stop_request where
  "demo_clear = \<lparr> rq_requester_id = ''paddock'', rq_request_id = 2, rq_expected_boot_id = ''boot'',
     rq_expected_generation = 4, rq_stopped = False \<rparr>"

lemma demo_enforcer_initial: "se_initial demo_enforcer"
proof -
  have "new_enforcer ''boot'' (Fin 0) (Inr (persisted 4 False)) = Inr demo_enforcer"
    by (simp add: new_enforcer_def restore_def persisted_def equals_one_def as_bool_def as_int_def
        dict_get_def demo_enforcer_def)
  then show ?thesis unfolding se_initial_def by blast
qed

text \<open>
  C5. STOP takes effect at once and holds: a STOP request that is new for its
  requester and addressed to this boot asserts the lock and a zero command
  immediately, and whatever is received afterwards (other STOP requests,
  timer ticks, successful or failed writes, measurements) the car stays
  locked until somebody asks for a clear.
\<close>

theorem stop_holds_until_clear_request:
  assumes "rq_stopped r" "rq_expected_boot_id r = [] \<or> rq_expected_boot_id r = se_boot e"
    and "\<forall>p a t. dict_get (se_request_results e) (rq_requester_id r) = Some (p, a, t)
      \<longrightarrow> p < rq_request_id r"
    and "\<forall>i \<in> set is. \<not> is_clear_request i"
  shows "take 2 (snd (request e r now)) = [Lock True, Zero]
    \<and> se_locked (run_steps enforcer_step (fst (request e r now)) is)
    \<and> se_stopped (run_steps enforcer_step (fst (request e r now)) is)"
  using stop_request_effect(3) [OF assms(1-3), of now]
    stop_held_run [OF stop_request_effect(2) [OF assms(1-3)] assms(4), of now]
  by (simp add: stop_held_def)

theorem stop_holds_until_clear_request_witness:
  "se_locked (run_steps enforcer_step (fst (request demo_enforcer demo_stop (Fin 1)))
     [EI_tick (Fin 2) (Fin 2) (WO_failed ''OSError''), EI_tick (Fin 3) (Fin 3) WO_done])"
  using stop_holds_until_clear_request [of demo_stop demo_enforcer
      "[EI_tick (Fin 2) (Fin 2) (WO_failed ''OSError''), EI_tick (Fin 3) (Fin 3) WO_done]" "Fin 1"]
  by (simp add: demo_stop_def demo_enforcer_def boot_enforcer_def is_clear_request_def dict_get_def)

text \<open>
  Requests are idempotent: repeating a request immediately, whatever its
  first answer was and at any later clock value, changes nothing at all, has
  no effect on the outside and is acknowledged with the same answer.
\<close>

theorem request_retry_is_idempotent:
  "request (fst (request e r now)) r now' = (fst (request e r now), [])"
proof (cases "dict_get (se_request_results e) (rq_requester_id r)")
  case None
  obtain e' b t where "fst (fresh_request e r now) = ack e' r b t True" using fresh_request_ack by blast
  then have "fst (request e r now) = ack e' r b t True" using None by (simp add: request_def)
  then show ?thesis by (simp add: request_def ack_again)
next
  case (Some p)
  obtain q b t where p: "p = (q, b, t)" by (cases p) auto
  consider "rq_request_id r = q" | "rq_request_id r < q" | "q < rq_request_id r" by linarith
  then show ?thesis
  proof cases
    case 1
    then have "fst (request e r now) = ack e r b t True" using Some p by (simp add: request_def)
    then show ?thesis by (simp add: request_def ack_again)
  next
    case 2
    then have f: "fst (request e r now) = ack e r False ''STALE_REQUEST_ID'' False"
      using Some p by (simp add: request_def)
    have "dict_get (se_request_results (ack e r False ''STALE_REQUEST_ID'' False)) (rq_requester_id r) = Some p"
      using Some by (simp add: ack_def)
    then show ?thesis unfolding f using 2 p by (simp add: request_def ack_again)
  next
    case 3
    obtain e' b' t' where "fst (fresh_request e r now) = ack e' r b' t' True"
      using fresh_request_ack by blast
    then have "fst (request e r now) = ack e' r b' t' True" using 3 Some p by (simp add: request_def)
    then show ?thesis by (simp add: request_def ack_again)
  qed
qed

text \<open>
  A clear decided on old information is refused: in a run of the enforcer,
  a clear that names a generation seen before a later effective STOP neither
  releases the lock nor starts a write nor changes the generation, no matter
  how much happens between the STOP and its arrival.
\<close>

theorem stale_clear_cannot_release:
  assumes "se_initial e0" "e = run_steps enforcer_step e0 is"
    and "e1 = fst (request e s now)" "se_generation e1 = se_generation e + 1"
    and "e2 = run_steps enforcer_step e1 js"
    and "\<not> rq_stopped r" "rq_expected_generation r \<le> se_generation e"
  shows "let e3 = fst (request e2 r now') in
    se_locked e3 = se_locked e2 \<and> se_stopped e3 = se_stopped e2
    \<and> se_generation e3 = se_generation e2 \<and> se_clear_at e3 = se_clear_at e2
    \<and> se_write e3 = se_write e2 \<and> snd (request e2 r now') = []"
proof -
  have "se_inv e1" using assms(1-3) enforcer.invar_reachable request_inv by blast
  then have "se_generation e1 \<le> se_generation e2" using assms(5) enforcer.counter_run by blast
  then have "rq_expected_generation r \<noteq> se_generation e2" using assms(4,7) by linarith
  then show ?thesis using assms(6)
    by (simp add: request_def fresh_request_def split: option.split)
qed

theorem stale_clear_cannot_release_witness:
  "se_locked (fst (request (fst (request demo_enforcer demo_stop (Fin 1))) demo_clear (Fin 2)))"
proof -
  have g: "se_generation (fst (request demo_enforcer demo_stop (Fin 1))) = se_generation demo_enforcer + 1"
    and l: "se_locked (fst (request demo_enforcer demo_stop (Fin 1)))"
    using stop_request_effect [of demo_stop demo_enforcer "Fin 1"]
    by (simp_all add: demo_stop_def demo_enforcer_def boot_enforcer_def dict_get_def stop_held_def)
  show ?thesis
    using stale_clear_cannot_release [OF demo_enforcer_initial, of demo_enforcer "[]" _ demo_stop "Fin 1" _ "[]" demo_clear "Fin 2"]
      g l by (simp add: Let_def demo_clear_def demo_enforcer_def boot_enforcer_def)
qed

text \<open>
  The lock of a stopped car is released only by a timer tick at which every
  clear condition holds: the encoder is fresh and reports standstill, the
  local controls are fresh, released and neutral, the clear is on disk and no
  persistence fault is present; and the drain time has passed.
\<close>

theorem release_needs_every_condition:
  assumes "se_stopped e" "se_locked e" "\<not> se_locked (fst (tick e now now' w))"
  shows "\<not> stale (se_encoder_at e) now' \<and> se_stationary e \<and> \<not> stale (se_local_at e) now'
    \<and> se_local_released e \<and> se_local_neutral e
    \<and> se_durable (fst (tick e now now' w)) \<and> se_fault (fst (tick e now now' w)) = []
    \<and> se_write (fst (tick e now now' w)) = None
    \<and> (\<exists>t. se_clear_at (collect_write e w now) = Some t \<and> fle t now)"
proof -
  let ?c = "collect_write e w now"
  have keep: "se_stopped ?c" "se_locked ?c" "se_encoder_at ?c = se_encoder_at e"
    "se_stationary ?c = se_stationary e" "se_local_at ?c = se_local_at e"
    "se_local_released ?c = se_local_released e" "se_local_neutral ?c = se_local_neutral e"
    using assms(1,2) by (simp_all add: collect_write_def Let_def split: option.split write_outcome.split)
  have u: "\<not> se_locked (fst (drain ?c now now'))" using assms(3) by (simp add: tick_fst)
  then obtain t where t: "se_clear_at ?c = Some t" "clear_reason ?c now' = []" "fle t now"
    "fst (drain ?c now now') = ?c\<lparr>se_stopped := False, se_locked := False, se_clear_at := None\<rparr>"
    using keep(1,2) by (auto simp: drain_def Let_def truthy_iff split: option.splits if_splits)
  then show ?thesis using keep by (simp add: tick_fst clear_reason_none_iff)
qed

definition demo_draining :: enforcer where
  "demo_draining = demo_enforcer\<lparr>se_stopped := True, se_clear_at := Some (Fin 1),
     se_encoder_at := Some (Fin 1), se_stationary := True, se_local_at := Some (Fin 1),
     se_local_released := True, se_local_neutral := True\<rparr>"

theorem release_needs_every_condition_witness:
  "\<not> se_locked (fst (tick demo_draining (Fin 1) (Fin 1) WO_running))
    \<and> se_stationary demo_draining \<and> se_local_neutral demo_draining"
proof -
  have "fle (Fin 0) (dbl (20 / 100))" by (intro dbl_ge_double) simp_all
  then have "\<not> flt (dbl (20 / 100)) (Fin 0)" using flt_not_fle by blast
  then have "clear_reason demo_draining (Fin 1) = []"
    by (simp add: clear_reason_none_iff demo_draining_def demo_enforcer_def boot_enforcer_def
        stale_def SIGNAL_TIMEOUT_def)
  then have u: "\<not> se_locked (fst (tick demo_draining (Fin 1) (Fin 1) WO_running))"
    by (simp add: tick_fst drain_def collect_write_def truthy_iff)
      (simp add: demo_draining_def demo_enforcer_def boot_enforcer_def)
  show ?thesis
    using release_needs_every_condition [OF _ _ u] u
    by (simp add: demo_draining_def demo_enforcer_def boot_enforcer_def)
qed

section \<open>The worker thread, the state file and a restart\<close>

text \<open>
  \<open>persist\<close> runs on a single worker thread in submission order. A successful
  write replaces the file atomically; a failing one leaves either the old or
  the new content, since the error may come before or after \<open>os.replace\<close>. A
  future is identified by the generation of its job, which never repeats.
\<close>

record stop_system =
  sy_enforcer :: enforcer
  sy_queue :: "(int \<times> bool) list"
  sy_outcome :: "int \<Rightarrow> write_outcome"
  sy_disk :: "(int \<times> bool) option"

datatype system_input =
    SY_input enforcer_input
  | SY_write_ok
  | SY_write_fails string bool

definition submitted :: "effect list \<Rightarrow> (int \<times> bool) list" where
  "submitted es = concat (map (\<lambda>x. case x of Submit g s \<Rightarrow> [(g, s)] | _ \<Rightarrow> []) es)"

definition write_status :: "stop_system \<Rightarrow> write_outcome" where
  "write_status y = (case se_write (sy_enforcer y) of None \<Rightarrow> WO_running
     | Some (g, s) \<Rightarrow> sy_outcome y g)"

definition with_status :: "stop_system \<Rightarrow> enforcer_input \<Rightarrow> enforcer_input" where
  "with_status y i = (case i of EI_tick now now' w \<Rightarrow> EI_tick now now' (write_status y) | _ \<Rightarrow> i)"

fun system_step :: "stop_system \<Rightarrow> system_input \<Rightarrow> stop_system" where
  "system_step y (SY_input i) =
     (let (e', es) = enforcer_full_step (sy_enforcer y) (with_status y i)
      in y\<lparr>sy_enforcer := e', sy_queue := sy_queue y @ submitted es\<rparr>)"
| "system_step y SY_write_ok =
     (case sy_queue y of [] \<Rightarrow> y
      | j # q \<Rightarrow> y\<lparr>sy_queue := q, sy_disk := Some j, sy_outcome := (sy_outcome y)(fst j := WO_done)\<rparr>)"
| "system_step y (SY_write_fails ex replaced) =
     (case sy_queue y of [] \<Rightarrow> y
      | j # q \<Rightarrow> y\<lparr>sy_queue := q, sy_disk := (if replaced then Some j else sy_disk y),
                   sy_outcome := (sy_outcome y)(fst j := WO_failed ex)\<rparr>)"

text \<open>Reading the file back at the next start; a missing file is an \<open>OSError\<close>.\<close>

definition read_disk :: "(int \<times> bool) option \<Rightarrow> json result" where
  "read_disk d = (case d of None \<Rightarrow> Inl (OSError ''ENOENT'') | Some (g, s) \<Rightarrow> Inr (persisted g s))"

definition system_initial :: "stop_system \<Rightarrow> bool" where
  "system_initial y = (sy_queue y = [] \<and> (\<forall>g. sy_outcome y g = WO_running)
     \<and> (\<exists>boot started. new_enforcer boot started (read_disk (sy_disk y)) = Inr (sy_enforcer y)))"

text \<open>
  Queue discipline: only the youngest job may be outstanding for the
  enforcer; what it believes to be durable is what the file holds.
\<close>

definition queue_inv :: "stop_system \<Rightarrow> bool" where
  "queue_inv y = (sorted_wrt (<) (map fst (sy_queue y))
     \<and> (\<forall>(g, s) \<in> set (sy_queue y). sy_outcome y g = WO_running)
     \<and> (\<forall>g > se_generation (sy_enforcer y). sy_outcome y g = WO_running)
     \<and> (case se_write (sy_enforcer y) of
          None \<Rightarrow> sy_queue y = []
        | Some j \<Rightarrow> (sy_queue y \<noteq> [] \<and> last (sy_queue y) = j)
            \<or> (sy_queue y = [] \<and> sy_outcome y (fst j) \<noteq> WO_running
                \<and> (sy_outcome y (fst j) = WO_done \<longrightarrow> sy_disk y = Some j))))"

definition durable_record :: "enforcer \<Rightarrow> int \<times> bool" where
  "durable_record e = (se_generation e, se_stopped e \<and> se_clear_at e = None)"

definition disk_inv :: "stop_system \<Rightarrow> bool" where
  "disk_inv y = (let e = sy_enforcer y in
     se_durable e \<longrightarrow> se_write e = None
       \<and> sy_disk y = Some (durable_record e))"

definition system_inv :: "stop_system \<Rightarrow> bool" where
  "system_inv y = (se_inv (sy_enforcer y) \<and> queue_inv y \<and> disk_inv y)"

lemma submitted_simps [simp]:
  "submitted [] = []" "submitted (Submit g s # es) = (g, s) # submitted es"
  "submitted (Lock b # es) = submitted es" "submitted (Zero # es) = submitted es"
  "submitted (State m # es) = submitted es" "submitted (es @ fs) = submitted es @ submitted fs"
  by (simp_all add: submitted_def)

lemma submitted_publish [simp]: "submitted (snd (publish_state e now)) = []"
  by (simp add: publish_state_def Let_def)

text \<open>A step either submits the new generation's job or leaves the outstanding write to age.\<close>

definition submits :: "enforcer \<Rightarrow> enforcer \<Rightarrow> (int \<times> bool) list \<Rightarrow> bool" where
  "submits e e' js =
     ((\<exists>s. js = [(se_generation e', s)] \<and> se_write e' = Some (se_generation e', s)
        \<and> se_generation e' = se_generation e + 1 \<and> \<not> se_durable e')
      \<or> (js = [] \<and> se_write e' = se_write e \<and> se_generation e' = se_generation e
        \<and> se_durable e' = se_durable e \<and> durable_record e' = durable_record e))"

lemma fresh_request_submits:
  "submits e (fst (fresh_request e r now)) (submitted (snd (fresh_request e r now)))"
  by (simp add: submits_def durable_record_def fresh_request_def Let_def ex_bool_eq)

lemma request_submits: "submits e (fst (request e r now)) (submitted (snd (request e r now)))"
  using fresh_request_submits [of e r now]
  by (auto simp: request_def submits_def durable_record_def split: option.split)

lemma drain_submits: "submits e (fst (drain e now now')) (submitted (snd (drain e now now')))"
  by (auto simp: submits_def durable_record_def drain_def Let_def split: option.split)

lemma queue_inv_submit:
  assumes "se_inv (sy_enforcer y)" "queue_inv y"
    and "se_write e' = Some (g, s)" "g = se_generation (sy_enforcer y) + 1" "se_generation e' = g"
  shows "queue_inv (y\<lparr>sy_enforcer := e', sy_queue := sy_queue y @ [(g, s)]\<rparr>)"
proof -
  have "\<forall>j \<in> set (sy_queue y). fst j < g"
  proof (cases "se_write (sy_enforcer y)")
    case None
    then show ?thesis using assms(2) by (simp add: queue_inv_def)
  next
    case (Some j)
    then have "fst j = se_generation (sy_enforcer y)"
      using assms(1) by (cases j) (simp add: se_inv_def)
    moreover have "\<forall>i \<in> set (sy_queue y). fst i \<le> fst j"
    proof (cases "sy_queue y" rule: rev_cases)
      case (snoc q k)
      then have "k = j" using assms(2) Some by (simp add: queue_inv_def)
      then show ?thesis using assms(2) snoc
        by (force simp: queue_inv_def sorted_wrt_append)
    qed simp
    ultimately show ?thesis using assms(4) by force
  qed
  then show ?thesis
    using assms(2-5) by (force simp: queue_inv_def sorted_wrt_append)
qed

lemma submits_keeps:
  assumes "system_inv y" "se_inv e'" "submits (sy_enforcer y) e' js"
  shows "system_inv (y\<lparr>sy_enforcer := e', sy_queue := sy_queue y @ js\<rparr>)"
proof -
  have inv: "se_inv (sy_enforcer y)" "queue_inv y" "disk_inv y"
    using assms(1) by (simp_all add: system_inv_def)
  from assms(3) consider
    (new) s where "js = [(se_generation e', s)]" "se_write e' = Some (se_generation e', s)"
      "se_generation e' = se_generation (sy_enforcer y) + 1" "\<not> se_durable e'"
  | (same) "js = []" "se_write e' = se_write (sy_enforcer y)"
      "se_generation e' = se_generation (sy_enforcer y)" "se_durable e' = se_durable (sy_enforcer y)"
      "durable_record e' = durable_record (sy_enforcer y)"
    unfolding submits_def by blast
  then show ?thesis
  proof cases
    case new
    then show ?thesis
      using queue_inv_submit [OF inv(1,2) new(2) new(3)] assms(2)
      by (simp add: system_inv_def disk_inv_def)
  next
    case same
    then show ?thesis using inv assms(2)
      by (auto simp: system_inv_def queue_inv_def disk_inv_def Let_def split: option.splits)
  qed
qed

lemma collect_status_inv:
  assumes "system_inv y"
  shows "system_inv (y\<lparr>sy_enforcer := collect_write (sy_enforcer y) (write_status y) now\<rparr>)"
proof (cases "se_write (sy_enforcer y) = None \<or> write_status y = WO_running")
  case True
  then have "collect_write (sy_enforcer y) (write_status y) now = sy_enforcer y"
    by (auto simp: collect_write_def split: option.split)
  then show ?thesis using assms by simp
next
  case False
  then obtain g s where w: "se_write (sy_enforcer y) = Some (g, s)" "sy_outcome y g \<noteq> WO_running"
    "write_status y = sy_outcome y g"
    by (auto simp: write_status_def split: option.splits)
  have inv: "se_inv (sy_enforcer y)" "queue_inv y" using assms by (simp_all add: system_inv_def)
  have "(g, s) \<notin> set (sy_queue y)" using inv(2) w(2) by (auto simp: queue_inv_def)
  then have q: "sy_queue y = []" "sy_outcome y g = WO_done \<longrightarrow> sy_disk y = Some (g, s)"
    using inv(2) w(1) last_in_set by (force simp: queue_inv_def)+
  have g: "g = se_generation (sy_enforcer y)" "\<not> se_durable (sy_enforcer y)"
    "se_clear_at (sy_enforcer y) = None" "s \<longrightarrow> se_stopped (sy_enforcer y)"
    using inv(1) w(1) by (auto simp: se_inv_def)
  show ?thesis
    using inv collect_write_inv [OF inv(1), of "write_status y" now] w q g
    by (cases "sy_outcome y g")
       (auto simp: system_inv_def queue_inv_def disk_inv_def collect_write_def Let_def
         durable_record_def)
qed

lemma quiet_step_keeps:
  assumes "system_inv y" "se_inv e'" "submits (sy_enforcer y) e' []"
  shows "system_inv (y\<lparr>sy_enforcer := e'\<rparr>)"
  using submits_keeps [OF assms] by simp

lemma system_input_inv:
  assumes "system_inv y"
  shows "system_inv (system_step y (SY_input i))"
proof (cases i)
  case (EI_request r now)
  have "se_inv (sy_enforcer y)" using assms by (simp add: system_inv_def)
  then show ?thesis
    using submits_keeps [OF assms request_inv request_submits, of r now]
    by (simp add: EI_request with_status_def split_beta)
next
  case (EI_tick now now' w)
  let ?y = "y\<lparr>sy_enforcer := collect_write (sy_enforcer y) (write_status y) now\<rparr>"
  let ?d = "drain (sy_enforcer ?y) now now'"
  let ?y' = "?y\<lparr>sy_enforcer := fst ?d, sy_queue := sy_queue ?y @ submitted (snd ?d)\<rparr>"
  have c: "system_inv ?y" using assms by (rule collect_status_inv)
  then have d: "system_inv ?y'"
    by (intro submits_keeps drain_inv drain_submits) (simp_all add: system_inv_def)
  then have "se_inv (sy_enforcer ?y')" by (simp only: system_inv_def)
  then have "se_inv (fst (publish_state (sy_enforcer ?y') now))" by (simp add: se_inv_def)
  moreover have "submits (sy_enforcer ?y') (fst (publish_state (sy_enforcer ?y') now)) []"
    by (simp add: submits_def durable_record_def)
  ultimately have "system_inv (?y'\<lparr>sy_enforcer := fst (publish_state (sy_enforcer ?y') now)\<rparr>)"
    using d quiet_step_keeps by blast
  moreover have "system_step y (SY_input i) = ?y'\<lparr>sy_enforcer := fst (publish_state (sy_enforcer ?y') now)\<rparr>"
    by (simp add: EI_tick with_status_def tick_def Let_def split_beta)
  ultimately show ?thesis by simp
next
  case (EI_encoder b now)
  have "system_inv (y\<lparr>sy_enforcer := on_encoder (sy_enforcer y) b now\<rparr>)"
    using assms by (intro quiet_step_keeps)
      (auto simp: system_inv_def se_inv_def submits_def durable_record_def on_encoder_def)
  then show ?thesis by (simp add: EI_encoder with_status_def)
next
  case (EI_local b b' now)
  have "system_inv (y\<lparr>sy_enforcer := on_local_control (sy_enforcer y) b b' now\<rparr>)"
    using assms by (intro quiet_step_keeps)
      (auto simp: system_inv_def se_inv_def submits_def durable_record_def on_local_control_def)
  then show ?thesis by (simp add: EI_local with_status_def)
next
  case (EI_final v w now)
  have "system_inv (y\<lparr>sy_enforcer := on_final (sy_enforcer y) v w now\<rparr>)"
    using assms by (intro quiet_step_keeps)
      (auto simp: system_inv_def se_inv_def submits_def durable_record_def on_final_def)
  then show ?thesis by (simp add: EI_final with_status_def)
qed

text \<open>The worker takes the oldest job; the enforcer is not touched.\<close>

lemma worker_inv:
  assumes "system_inv y" "sy_queue y = j # q" "w \<noteq> WO_running"
    "w = WO_done \<longrightarrow> d = Some j"
  shows "system_inv (y\<lparr>sy_queue := q, sy_disk := d, sy_outcome := (sy_outcome y)(fst j := w)\<rparr>)"
proof -
  have inv: "se_inv (sy_enforcer y)" "queue_inv y" "disk_inv y"
    using assms(1) by (simp_all add: system_inv_def)
  obtain k where "se_write (sy_enforcer y) = Some k" "last (j # q) = k"
    using inv(2) assms(2) by (auto simp: queue_inv_def split: option.splits)
  then obtain g s where j: "se_write (sy_enforcer y) = Some (g, s)" "last (j # q) = (g, s)"
    by (cases k) simp
  then have g: "g = se_generation (sy_enforcer y)" "\<not> se_durable (sy_enforcer y)"
    using inv(1) by (auto simp: se_inv_def)
  have lt: "\<forall>k \<in> set q. fst j < fst k"
    using inv(2) assms(2) by (auto simp: queue_inv_def)
  have le: "fst j \<le> g"
    using j(2) lt by (cases "q = []") (use last_in_set in \<open>fastforce+\<close>)
  have "queue_inv (y\<lparr>sy_queue := q, sy_disk := d, sy_outcome := (sy_outcome y)(fst j := w)\<rparr>)"
    using inv(2) assms(2-4) j lt le g(1)
    by (cases "q = []") (force simp: queue_inv_def)+
  then show ?thesis using inv g(2) by (simp add: system_inv_def disk_inv_def)
qed

lemma system_step_inv: "system_inv y \<Longrightarrow> system_inv (system_step y i)"
proof (cases i)
  case SY_write_ok
  then show "system_inv y \<Longrightarrow> ?thesis"
    using worker_inv [where w = WO_done] by (auto split: list.split)
next
  case (SY_write_fails ex b)
  then show "system_inv y \<Longrightarrow> ?thesis"
    using worker_inv [where w = "WO_failed ex"] by (auto split: list.split)
qed (simp only: system_input_inv)

lemma restore_persisted:
  "0 \<le> g \<Longrightarrow> g < 2 ^ 63 \<Longrightarrow> restore (Inr (persisted g s)) = Inr (g, s)"
  by (simp add: restore_def persisted_def dict_get_def equals_one_def as_bool_def as_int_def)

lemma restore_disk:
  assumes "restore (read_disk d) = Inr (g, s)"
  shows "d = Some (g, s)"
proof (cases d)
  case None
  then show ?thesis using assms by (simp add: read_disk_def restore_def)
next
  case (Some r)
  obtain g' s' where "r = (g', s')" by fastforce
  with Some assms show ?thesis
    by (auto simp: read_disk_def restore_def persisted_def dict_get_def equals_one_def
        as_bool_def as_int_def split: if_splits)
qed

lemma system_initial_inv:
  assumes "system_initial y"
  shows "system_inv y"
proof -
  obtain boot started where n: "new_enforcer boot started (read_disk (sy_disk y)) = Inr (sy_enforcer y)"
    using assms by (auto simp: system_initial_def)
  then have "se_initial (sy_enforcer y)" unfolding se_initial_def by blast
  then have "se_inv (sy_enforcer y)" by (rule se_initial_inv)
  moreover have "queue_inv y" using assms n
    by (auto simp: system_initial_def queue_inv_def boot_enforcer_def elim!: new_enforcer_cases)
  moreover have "disk_inv y" using n
    by (auto simp: disk_inv_def durable_record_def boot_enforcer_def dest!: restore_disk
        elim!: new_enforcer_cases)
  ultimately show ?thesis by (simp add: system_inv_def)
qed

interpretation stop_sys: machine system_initial system_step system_inv
  by unfold_locales (simp_all add: system_initial_inv system_step_inv)

text \<open>
  C6. A STOP reported as applied survives a crash: in every reachable state of
  enforcer, worker thread and state file (whatever writes succeeded or
  failed), when STOP is applied, no clear is pending (while a clear drains, the
  file already says that it is cleared) and the generation fits 63 bits, a
  process started afresh from the file comes up stopped, locked, without a
  fault and with the same generation.
\<close>

theorem applied_stop_survives_restart:
  assumes "system_initial y0" "y = run_steps system_step y0 is"
    and "applied (sy_enforcer y) now" "se_clear_at (sy_enforcer y) = None"
    and "se_generation (sy_enforcer y) < 2 ^ 63"
  shows "\<exists>e. new_enforcer boot started (read_disk (sy_disk y)) = Inr e
    \<and> se_stopped e \<and> se_locked e \<and> se_clear_at e = None \<and> se_fault e = []
    \<and> se_generation e = se_generation (sy_enforcer y)"
proof -
  have inv: "system_inv y" using assms(1,2) stop_sys.invar_reachable by blast
  have "se_durable (sy_enforcer y)" "se_stopped (sy_enforcer y)" using assms(3) by (auto simp: applied_def)
  then have "sy_disk y = Some (se_generation (sy_enforcer y), True)"
    using inv assms(4) by (simp add: system_inv_def disk_inv_def durable_record_def Let_def)
  moreover have "0 \<le> se_generation (sy_enforcer y)" using inv by (simp add: system_inv_def se_inv_def)
  ultimately show ?thesis
    using restore_persisted assms(5) by (simp add: new_enforcer_def read_disk_def boot_enforcer_def)
qed

definition demo_system :: stop_system where
  "demo_system = \<lparr> sy_enforcer = demo_enforcer, sy_queue = [], sy_outcome = (\<lambda>g. WO_running),
     sy_disk = Some (4, False) \<rparr>"

definition demo_stop_run :: "system_input list" where
  "demo_stop_run = [SY_input (EI_request demo_stop (Fin 0)), SY_write_ok,
     SY_input (EI_final (Fin 0) (Fin 0) (Fin 0)), SY_input (EI_tick (Fin 0) (Fin 0) WO_running)]"

lemma demo_system_initial: "system_initial demo_system"
proof -
  have "new_enforcer ''boot'' (Fin 0) (read_disk (Some (4, False))) = Inr demo_enforcer"
    using restore_persisted [of 4 False] by (simp add: new_enforcer_def read_disk_def demo_enforcer_def)
  then show ?thesis by (auto simp: system_initial_def demo_system_def)
qed

lemma demo_stop_state:
  defines "e \<equiv> sy_enforcer (run_steps system_step demo_system demo_stop_run)"
  shows "applied e (Fin 0) \<and> se_clear_at e = None \<and> se_generation e = 5"
proof -
  have "fle (Fin 0) (dbl (10 / 100))" by (intro dbl_ge_double) simp_all
  then show ?thesis
    by (simp add: e_def demo_stop_run_def demo_system_def with_status_def write_status_def
        demo_enforcer_def demo_stop_def boot_enforcer_def request_def fresh_request_def ack_def
        Let_def dict_get_def on_final_def tick_def collect_write_def drain_def publish_state_def
        applied_def FINAL_TIMEOUT_def truthy_iff split_beta)
qed

theorem applied_stop_survives_restart_witness:
  "\<exists>e. new_enforcer ''next'' (Fin 9)
      (read_disk (sy_disk (run_steps system_step demo_system demo_stop_run))) = Inr e
    \<and> se_stopped e \<and> se_locked e \<and> se_generation e = 5"
  using applied_stop_survives_restart [OF demo_system_initial refl, of demo_stop_run "Fin 0" "''next''" "Fin 9"]
    demo_stop_state by auto

end
