(* ===== verification/DriveAdapter.thy ===== *)
theory DriveAdapter
  imports PyFloat
begin

text \<open>
  The drive adapter (\<open>runner_drive_adapter/drive_adapter.py\<close>): conversion of a
  speed and yaw-rate (or direct steering) demand to a normalized throttle and
  steering command by feedforward plus a bounded parallel PI term. Fields of
  \<open>AdapterConfig\<close> carry the prefix \<open>ac_\<close>, attributes of \<open>DriveAdapter\<close> the prefix
  \<open>da_\<close> and fields of \<open>AdapterDecision\<close> the prefix \<open>ad_\<close>. \<open>math.tan\<close> and
  \<open>math.atan\<close> are arguments of \<open>step\<close>: nothing here depends on their values.
\<close>

section \<open>Constants and enumerations\<close>

definition MINIMUM_EXPECTED_FEEDFORWARD :: pyfloat where
  "MINIMUM_EXPECTED_FEEDFORWARD = dbl (4 / 100)"

definition MAX_INTEGRATION_DT_SEC :: pyfloat where
  "MAX_INTEGRATION_DT_SEC = Fin (1 / 2)"

definition SELECTION_ABS_TOLERANCE :: pyfloat where
  "SELECTION_ABS_TOLERANCE = dbl (1 / 10 ^ 9)"

definition LIVE_TUNABLE_PARAMETERS :: "string list" where
  "LIVE_TUNABLE_PARAMETERS =
     [''maximum_commanded_speed'', ''feedforward_effort_per_speed'',
      ''feedforward_effort_intercept'', ''output_max'', ''proportional_gain'',
      ''integral_gain'']"

text \<open>The constants of \<open>runner_interfaces/msg/AutonomyTuningPolicy.msg\<close>.\<close>

definition MAXIMUM_COMMANDED_SPEED :: pyfloat where
  "MAXIMUM_COMMANDED_SPEED = Fin 2"

definition MAXIMUM_OUTPUT_AUTHORITY :: pyfloat where
  "MAXIMUM_OUTPUT_AUTHORITY = dbl (30 / 100)"

text \<open>\<open>math.pi\<close> as a binary64 number.\<close>

definition math_pi :: pyfloat where
  "math_pi = Fin (884279719003555 / 2 ^ 48)"

datatype freeze_reason =
    FR_NONE | FR_GAIN_DISABLED | FR_ZERO_COMMAND | FR_FEEDBACK_STALE | FR_WHEELSPIN
  | FR_DIRECTION_UNAVAILABLE | FR_DIRECTION_MISMATCH | FR_ARBITRATION_UNAVAILABLE
  | FR_OUTPUT_NOT_SELECTED | FR_INVALID_DT | FR_ANTI_WINDUP | FR_NO_COMMAND
  | FR_INVALID_COMMAND

definition linear_feedforward :: "pyfloat \<Rightarrow> pyfloat \<Rightarrow> pyfloat \<Rightarrow> pyfloat" where
  "linear_feedforward speed effort_per_speed effort_intercept =
     fadd (fmul effort_per_speed (fabs speed)) effort_intercept"

section \<open>Configuration\<close>

record adapter_config =
  ac_wheelbase :: pyfloat
  ac_max_steering_angle :: pyfloat
  ac_feedforward_effort_per_speed :: pyfloat
  ac_feedforward_effort_intercept :: pyfloat
  ac_minimum_moving_speed :: pyfloat
  ac_maximum_commanded_speed :: pyfloat
  ac_proportional_gain :: pyfloat
  ac_integral_gain :: pyfloat
  ac_integrator_bound :: pyfloat
  ac_output_min :: pyfloat
  ac_output_max :: pyfloat
  ac_encoder_metres_per_edge :: pyfloat
  ac_wheelspin_speed_ratio :: pyfloat
  ac_wheelspin_min_speed_excess :: pyfloat
  ac_wheelspin_qualification_sec :: pyfloat
  ac_motion_signal_timeout_sec :: pyfloat
  ac_encoder_state_timeout_sec :: pyfloat
  ac_cmd_vel_nav_timeout :: pyfloat
  ac_active_mode_timeout_sec :: pyfloat
  ac_publication_rate :: pyfloat

definition config_values :: "adapter_config \<Rightarrow> pyfloat list" where
  "config_values c =
     [ac_wheelbase c, ac_max_steering_angle c, ac_feedforward_effort_per_speed c,
      ac_feedforward_effort_intercept c, ac_minimum_moving_speed c,
      ac_maximum_commanded_speed c, ac_proportional_gain c, ac_integral_gain c,
      ac_integrator_bound c, ac_output_min c, ac_output_max c,
      ac_encoder_metres_per_edge c, ac_wheelspin_speed_ratio c,
      ac_wheelspin_min_speed_excess c, ac_wheelspin_qualification_sec c,
      ac_motion_signal_timeout_sec c, ac_encoder_state_timeout_sec c,
      ac_cmd_vel_nav_timeout c, ac_active_mode_timeout_sec c, ac_publication_rate c]"

definition positive_fields :: "adapter_config \<Rightarrow> (string \<times> pyfloat) list" where
  "positive_fields c =
     [(''wheelbase'', ac_wheelbase c),
      (''max_steering_angle'', ac_max_steering_angle c),
      (''feedforward_effort_per_speed'', ac_feedforward_effort_per_speed c),
      (''minimum_moving_speed'', ac_minimum_moving_speed c),
      (''maximum_commanded_speed'', ac_maximum_commanded_speed c),
      (''proportional_gain'', ac_proportional_gain c),
      (''integrator_bound'', ac_integrator_bound c),
      (''encoder_metres_per_edge'', ac_encoder_metres_per_edge c),
      (''wheelspin_speed_ratio'', ac_wheelspin_speed_ratio c),
      (''wheelspin_qualification_sec'', ac_wheelspin_qualification_sec c),
      (''motion_signal_timeout_sec'', ac_motion_signal_timeout_sec c),
      (''encoder_state_timeout_sec'', ac_encoder_state_timeout_sec c),
      (''cmd_vel_nav_timeout'', ac_cmd_vel_nav_timeout c),
      (''active_mode_timeout_sec'', ac_active_mode_timeout_sec c),
      (''publication_rate'', ac_publication_rate c)]"

fun check_positive :: "(string \<times> pyfloat) list \<Rightarrow> unit result" where
  "check_positive [] = Inr ()"
| "check_positive ((name, value) # rest) =
     (if fle value (Fin 0) then Inl (ValueError (name @ '' must be greater than zero''))
      else check_positive rest)"

definition maximum_feedforward :: "adapter_config \<Rightarrow> pyfloat" where
  "maximum_feedforward c =
     linear_feedforward (ac_maximum_commanded_speed c) (ac_feedforward_effort_per_speed c)
       (ac_feedforward_effort_intercept c)"

definition minimum_feedforward :: "adapter_config \<Rightarrow> pyfloat" where
  "minimum_feedforward c =
     linear_feedforward (ac_minimum_moving_speed c) (ac_feedforward_effort_per_speed c)
       (ac_feedforward_effort_intercept c)"

definition half_pi :: pyfloat where
  "half_pi = Fin (884279719003555 / 2 ^ 49)"

definition check_limits :: "adapter_config \<Rightarrow> unit result" where
  "check_limits c =
     (if \<not> (flt (Fin 0) (ac_max_steering_angle c) \<and> flt (ac_max_steering_angle c) half_pi)
      then Inl (ValueError ''max_steering_angle must be between zero and pi/2'')
      else if flt (ac_integral_gain c) (Fin 0)
      then Inl (ValueError ''integral_gain must be nonnegative'')
      else if flt (ac_maximum_commanded_speed c) (ac_minimum_moving_speed c)
      then Inl (ValueError ''maximum_commanded_speed must reach minimum_moving_speed'')
      else if flt MAXIMUM_COMMANDED_SPEED (ac_maximum_commanded_speed c)
      then Inl (ValueError ''maximum_commanded_speed must not exceed 2.0'')
      else if \<not> feq (ac_output_min c) (Fin 0)
      then Inl (ValueError ''output_min magnitude must be zero'')
      else if flt MAXIMUM_OUTPUT_AUTHORITY (ac_output_max c) \<or> fle (ac_output_max c) (Fin 0)
      then Inl (ValueError ''output_max must be within the safety authority range (0, 0.3]'')
      else if flt (maximum_feedforward c) (Fin 0)
      then Inl (ValueError ''feedforward must be nonnegative at maximum commanded speed'')
      else if flt (ac_output_max c) (maximum_feedforward c)
      then Inl (ValueError ''output_max must reach the maximum linear feedforward'')
      else if fle (ac_wheelspin_speed_ratio c) (Fin 1)
      then Inl (ValueError ''wheelspin_speed_ratio must exceed one'')
      else if flt (ac_wheelspin_min_speed_excess c) (Fin 0)
      then Inl (ValueError ''wheelspin_min_speed_excess must be nonnegative'')
      else if flt (minimum_feedforward c) (Fin 0)
      then Inl (ValueError ''feedforward must be nonnegative at minimum moving speed'')
      else Inr ())"

definition validate_config :: "adapter_config \<Rightarrow> unit result" where
  "validate_config c =
     (if \<not> list_all isfinite (config_values c)
      then Inl (ValueError ''all scalar parameters must be finite'')
      else bind_result (check_positive (positive_fields c)) (\<lambda>_. check_limits c))"

definition maximum_curvature :: "(pyfloat \<Rightarrow> pyfloat) \<Rightarrow> adapter_config \<Rightarrow> pyfloat result" where
  "maximum_curvature math_tan c = fdiv (math_tan (ac_max_steering_angle c)) (ac_wheelbase c)"

section \<open>State and decisions\<close>

record decision =
  ad_publish_command :: bool
  ad_mode :: string
  ad_reason :: string
  ad_commanded_speed :: pyfloat
  ad_effective_speed :: pyfloat
  ad_measured_speed :: pyfloat
  ad_speed_error :: pyfloat
  ad_feedforward_throttle :: pyfloat
  ad_feedforward_floor_violation :: bool
  ad_proportional_term :: pyfloat
  ad_integrator_state :: pyfloat
  ad_pi_term :: pyfloat
  ad_integrator_enabled :: bool
  ad_saturation_state :: string
  ad_wheelspin_guard :: bool
  ad_final_throttle :: pyfloat
  ad_normalized_steering :: pyfloat
  ad_steering_saturated :: bool
  ad_integral_gain :: pyfloat
  ad_stall_integral_gain_active :: bool
  ad_active_mode_received :: bool
  ad_active_mode_fresh :: bool
  ad_active_mode :: string
  ad_preempted :: bool
  ad_integral_decay_active :: bool
  ad_integrator_freeze_reason :: freeze_reason

text \<open>The defaults of the dataclass, with its three positional fields given.\<close>

definition default_decision :: "bool \<Rightarrow> string \<Rightarrow> string \<Rightarrow> decision" where
  "default_decision publish m reason =
     \<lparr> ad_publish_command = publish, ad_mode = m, ad_reason = reason,
       ad_commanded_speed = Fin 0, ad_effective_speed = Fin 0, ad_measured_speed = Fin 0,
       ad_speed_error = Fin 0, ad_feedforward_throttle = Fin 0,
       ad_feedforward_floor_violation = False, ad_proportional_term = Fin 0,
       ad_integrator_state = Fin 0, ad_pi_term = Fin 0, ad_integrator_enabled = False,
       ad_saturation_state = ''none'', ad_wheelspin_guard = False, ad_final_throttle = Fin 0,
       ad_normalized_steering = Fin 0, ad_steering_saturated = False,
       ad_integral_gain = Fin 0, ad_stall_integral_gain_active = False,
       ad_active_mode_received = False, ad_active_mode_fresh = False, ad_active_mode = [],
       ad_preempted = False, ad_integral_decay_active = False,
       ad_integrator_freeze_reason = FR_GAIN_DISABLED \<rparr>"

record adapter =
  da_config :: adapter_config
  da_command :: "(pyfloat \<times> pyfloat) option"
  da_command_time :: "pyfloat option"
  da_command_uses_direct_steering :: bool
  da_motion_speed :: pyfloat
  da_motion_time :: "pyfloat option"
  da_encoder_edge_rate :: pyfloat
  da_encoder_time :: "pyfloat option"
  da_encoder_sample_time :: "pyfloat option"
  da_previous_encoder_sample_time :: "pyfloat option"
  da_pending_direction :: int
  da_wheelspin_since :: "pyfloat option"
  da_active_mode :: "string option"
  da_active_mode_time :: "pyfloat option"
  da_adapter_output :: "(pyfloat \<times> pyfloat) option"
  da_adapter_output_time :: "pyfloat option"
  da_mux_output :: "(pyfloat \<times> pyfloat) option"
  da_mux_output_time :: "pyfloat option"
  da_integrator :: pyfloat

definition new_adapter :: "adapter_config \<Rightarrow> adapter" where
  "new_adapter c =
     \<lparr> da_config = c, da_command = None, da_command_time = None,
       da_command_uses_direct_steering = False, da_motion_speed = Fin 0,
       da_motion_time = None, da_encoder_edge_rate = Fin 0, da_encoder_time = None,
       da_encoder_sample_time = None, da_previous_encoder_sample_time = None,
       da_pending_direction = 0, da_wheelspin_since = None, da_active_mode = None,
       da_active_mode_time = None, da_adapter_output = None, da_adapter_output_time = None,
       da_mux_output = None, da_mux_output_time = None, da_integrator = Fin 0 \<rparr>"

section \<open>Live parameters\<close>

text \<open>The Python values a caller may pass for a parameter.\<close>

datatype live_value = LV_float pyfloat | LV_bool bool | LV_int int | LV_str string

fun check_doubles :: "(string \<times> live_value) list \<Rightarrow> (string \<times> pyfloat) list result" where
  "check_doubles [] = Inr []"
| "check_doubles ((name, LV_float x) # rest) =
     bind_result (check_doubles rest) (\<lambda>xs. Inr ((name, x) # xs))"
| "check_doubles ((name, v) # rest) = Inl (TypeError (name @ '' must be a double''))"

definition config_put :: "adapter_config \<Rightarrow> string \<times> pyfloat \<Rightarrow> adapter_config" where
  "config_put c p =
     (let (name, x) = p in
      if name = ''maximum_commanded_speed'' then c\<lparr>ac_maximum_commanded_speed := x\<rparr>
      else if name = ''feedforward_effort_per_speed''
      then c\<lparr>ac_feedforward_effort_per_speed := x\<rparr>
      else if name = ''feedforward_effort_intercept''
      then c\<lparr>ac_feedforward_effort_intercept := x\<rparr>
      else if name = ''output_max'' then c\<lparr>ac_output_max := x\<rparr>
      else if name = ''proportional_gain'' then c\<lparr>ac_proportional_gain := x\<rparr>
      else if name = ''integral_gain'' then c\<lparr>ac_integral_gain := x\<rparr>
      else c)"

definition merge_config :: "adapter_config \<Rightarrow> (string \<times> pyfloat) list \<Rightarrow> adapter_config" where
  "merge_config c updates = fold (\<lambda>p c. config_put c p) updates c"

definition unsupported_names :: "(string \<times> live_value) list \<Rightarrow> string list" where
  "unsupported_names updates =
     filter (\<lambda>n. n \<notin> set LIVE_TUNABLE_PARAMETERS) (map fst updates)"

definition set_live_parameters :: "adapter \<Rightarrow> (string \<times> live_value) list \<Rightarrow> adapter result" where
  "set_live_parameters a updates =
     (if unsupported_names updates \<noteq> [] then Inl (ValueError ''parameters are not live-tunable'')
      else bind_result (check_doubles updates) (\<lambda>xs.
        let candidate = merge_config (da_config a) xs in
        bind_result (validate_config candidate) (\<lambda>_.
          let a' = a\<lparr>da_config := candidate\<rparr> in
          Inr (if ''integral_gain'' \<in> set (map fst updates)
               then a'\<lparr>da_integrator := Fin 0, da_previous_encoder_sample_time := None\<rparr>
               else a'))))"

definition set_controller_gains ::
  "adapter \<Rightarrow> live_value option \<Rightarrow> live_value option \<Rightarrow> adapter result" where
  "set_controller_gains a proportional_gain integral_gain =
     set_live_parameters a
       ((case proportional_gain of None \<Rightarrow> [] | Some v \<Rightarrow> [(''proportional_gain'', v)]) @
        (case integral_gain of None \<Rightarrow> [] | Some v \<Rightarrow> [(''integral_gain'', v)]))"

definition set_integral_gain :: "adapter \<Rightarrow> live_value \<Rightarrow> adapter result" where
  "set_integral_gain a v = set_controller_gains a None (Some v)"

definition set_proportional_gain :: "adapter \<Rightarrow> live_value \<Rightarrow> adapter result" where
  "set_proportional_gain a v = set_controller_gains a (Some v) None"

section \<open>Observations\<close>

definition update_command :: "adapter \<Rightarrow> pyfloat \<Rightarrow> pyfloat \<Rightarrow> pyfloat \<Rightarrow> adapter" where
  "update_command a linear_speed yaw_rate now =
     a\<lparr>da_command := Some (linear_speed, yaw_rate), da_command_time := Some now,
       da_command_uses_direct_steering := False\<rparr>"

definition update_manual_command :: "adapter \<Rightarrow> pyfloat \<Rightarrow> pyfloat \<Rightarrow> pyfloat \<Rightarrow> adapter" where
  "update_manual_command a signed_speed_mps steering_normalized now =
     a\<lparr>da_command := Some (signed_speed_mps, steering_normalized), da_command_time := Some now,
       da_command_uses_direct_steering := True\<rparr>"

definition invalidate_command :: "adapter \<Rightarrow> adapter" where
  "invalidate_command a = a\<lparr>da_command := None, da_command_time := None\<rparr>"

definition update_motion :: "adapter \<Rightarrow> pyfloat \<Rightarrow> pyfloat \<Rightarrow> adapter" where
  "update_motion a forward_speed now =
     a\<lparr>da_motion_speed := forward_speed, da_motion_time := Some now\<rparr>"

definition update_active_mode :: "adapter \<Rightarrow> string \<Rightarrow> pyfloat \<Rightarrow> adapter" where
  "update_active_mode a m now = a\<lparr>da_active_mode := Some m, da_active_mode_time := Some now\<rparr>"

definition active_mode_is_fresh :: "adapter \<Rightarrow> pyfloat \<Rightarrow> bool" where
  "active_mode_is_fresh a now =
     (case da_active_mode_time a of None \<Rightarrow> False
      | Some t \<Rightarrow> fle (fsub now t) (ac_active_mode_timeout_sec (da_config a)))"

definition is_confirmed_preempted :: "adapter \<Rightarrow> pyfloat \<Rightarrow> bool" where
  "is_confirmed_preempted a now =
     (active_mode_is_fresh a now \<and> da_active_mode a \<noteq> Some ''teleop_suppress'')"

definition update_encoder ::
  "adapter \<Rightarrow> bool \<Rightarrow> pyfloat \<Rightarrow> int \<Rightarrow> pyfloat \<Rightarrow> pyfloat option \<Rightarrow> adapter" where
  "update_encoder a stationary edge_rate pending_direction now sample_time =
     a\<lparr>da_encoder_edge_rate := edge_rate, da_encoder_time := Some now,
       da_encoder_sample_time := sample_time, da_pending_direction := pending_direction\<rparr>"

definition update_adapter_output :: "adapter \<Rightarrow> pyfloat \<Rightarrow> pyfloat \<Rightarrow> pyfloat \<Rightarrow> adapter" where
  "update_adapter_output a lin ang now =
     a\<lparr>da_adapter_output := Some (lin, ang), da_adapter_output_time := Some now\<rparr>"

definition update_mux_output :: "adapter \<Rightarrow> pyfloat \<Rightarrow> pyfloat \<Rightarrow> pyfloat \<Rightarrow> adapter" where
  "update_mux_output a lin ang now =
     a\<lparr>da_mux_output := Some (lin, ang), da_mux_output_time := Some now\<rparr>"

definition motion_is_stale :: "adapter \<Rightarrow> pyfloat \<Rightarrow> bool" where
  "motion_is_stale a now =
     (case da_motion_time a of None \<Rightarrow> True
      | Some t \<Rightarrow> \<not> isfinite (da_motion_speed a)
          \<or> flt (ac_motion_signal_timeout_sec (da_config a)) (fsub now t))"

definition encoder_is_stale :: "adapter \<Rightarrow> pyfloat \<Rightarrow> bool" where
  "encoder_is_stale a now =
     (case da_encoder_time a of None \<Rightarrow> True
      | Some t \<Rightarrow> \<not> isfinite (da_encoder_edge_rate a)
          \<or> flt (ac_encoder_state_timeout_sec (da_config a)) (fsub now t))"

definition reset_transient_state :: "adapter \<Rightarrow> adapter" where
  "reset_transient_state a = a\<lparr>da_wheelspin_since := None\<rparr>"

definition shutdown :: "adapter \<Rightarrow> pyfloat \<Rightarrow> adapter" where
  "shutdown a now = (reset_transient_state a)\<lparr>da_command := None, da_command_time := None\<rparr>"

section \<open>One timer cycle\<close>

definition controller_fields :: "adapter \<Rightarrow> freeze_reason \<Rightarrow> decision \<Rightarrow> decision" where
  "controller_fields a fr d =
     d\<lparr>ad_integrator_state := da_integrator a, ad_pi_term := da_integrator a,
       ad_integrator_enabled := False, ad_integral_gain := ac_integral_gain (da_config a),
       ad_integrator_freeze_reason := fr\<rparr>"

definition preemption_fields :: "adapter \<Rightarrow> pyfloat \<Rightarrow> decision \<Rightarrow> decision" where
  "preemption_fields a now d =
     d\<lparr>ad_active_mode_received := da_active_mode_time a \<noteq> None,
       ad_active_mode_fresh := active_mode_is_fresh a now,
       ad_active_mode := (case da_active_mode a of None \<Rightarrow> [] | Some m \<Rightarrow> m),
       ad_preempted := is_confirmed_preempted a now\<rparr>"

definition brake :: "adapter \<Rightarrow> string \<Rightarrow> freeze_reason \<Rightarrow> adapter \<times> decision" where
  "brake a reason fr =
     (let a' = reset_transient_state a
      in (a', controller_fields a' fr (default_decision True ''brake'' reason)))"

definition silence :: "adapter \<Rightarrow> string \<Rightarrow> freeze_reason \<Rightarrow> decision" where
  "silence a reason fr = controller_fields a fr (default_decision False ''silence'' reason)"

definition saturation :: "adapter_config \<Rightarrow> pyfloat \<Rightarrow> string" where
  "saturation c out =
     (if flt (ac_output_max c) out then ''upper''
      else if flt out (ac_output_min c) then ''lower'' else ''none'')"

text \<open>
  \<open>_wheelspin_guard\<close> and \<open>_integration_dt\<close> update the adapter and return a value.
\<close>

definition wheelspin_condition :: "adapter \<Rightarrow> pyfloat \<Rightarrow> pyfloat \<Rightarrow> bool" where
  "wheelspin_condition a now encoder_speed =
     (let ekf_speed = fabs (da_motion_speed a) in
      \<not> encoder_is_stale a now \<and> \<not> motion_is_stale a now
      \<and> flt (fmul (ac_wheelspin_speed_ratio (da_config a)) ekf_speed) encoder_speed
      \<and> flt (ac_wheelspin_min_speed_excess (da_config a)) (fsub encoder_speed ekf_speed))"

definition wheelspin_guard :: "adapter \<Rightarrow> pyfloat \<Rightarrow> pyfloat \<Rightarrow> adapter \<times> bool" where
  "wheelspin_guard a now encoder_speed =
     (if \<not> wheelspin_condition a now encoder_speed
      then (a\<lparr>da_wheelspin_since := None\<rparr>, False)
      else (case da_wheelspin_since a of
              None \<Rightarrow> (a\<lparr>da_wheelspin_since := Some now\<rparr>, False)
            | Some since \<Rightarrow>
                (a, fle (ac_wheelspin_qualification_sec (da_config a))
                      (fadd (fsub now since) (dbl (1 / 10 ^ 12))))))"

definition integration_dt :: "adapter \<Rightarrow> adapter \<times> pyfloat option" where
  "integration_dt a =
     (a\<lparr>da_previous_encoder_sample_time := da_encoder_sample_time a\<rparr>,
      case (da_encoder_sample_time a, da_previous_encoder_sample_time a) of
        (Some sample_time, Some previous) \<Rightarrow>
          (let dt = fsub sample_time previous in
           if \<not> isfinite dt \<or> fle dt (Fin 0) \<or> flt MAX_INTEGRATION_DT_SEC dt then None
           else Some dt)
      | _ \<Rightarrow> None)"

text \<open>\<open>math.isclose\<close> with its relative and absolute tolerances.\<close>

definition isclose :: "pyfloat \<Rightarrow> pyfloat \<Rightarrow> pyfloat \<Rightarrow> pyfloat \<Rightarrow> bool" where
  "isclose x y rel_tol abs_tol =
     (if feq x y then True
      else if x \<in> {PInf, NInf} \<or> y \<in> {PInf, NInf} then False
      else (let diff = fabs (fsub y x) in
            fle diff (fabs (fmul rel_tol y)) \<or> fle diff (fabs (fmul rel_tol x))
            \<or> fle diff abs_tol))"

definition adapter_output_is_selected :: "adapter \<Rightarrow> bool" where
  "adapter_output_is_selected a =
     (case (da_adapter_output a, da_mux_output a) of
        (Some (l, g), Some (l', g')) \<Rightarrow>
          isclose l l' (Fin 0) SELECTION_ABS_TOLERANCE
          \<and> isclose g g' (Fin 0) SELECTION_ABS_TOLERANCE
      | _ \<Rightarrow> False)"

definition arbitration_is_available :: "adapter \<Rightarrow> pyfloat \<Rightarrow> pyfloat \<Rightarrow> bool" where
  "arbitration_is_available a timeout now =
     (case (da_adapter_output a, da_adapter_output_time a, da_mux_output a, da_mux_output_time a) of
        (Some _, Some t, Some _, Some t') \<Rightarrow>
          fle (fsub now t) timeout \<and> fle (fsub now t') timeout
      | _ \<Rightarrow> False)"

definition integrator_freeze_reason ::
  "adapter \<Rightarrow> pyfloat \<Rightarrow> pyfloat \<Rightarrow> bool \<Rightarrow> freeze_reason result" where
  "integrator_freeze_reason a now commanded_speed guard =
     (if feq commanded_speed (Fin 0) then Inr FR_ZERO_COMMAND
      else bind_result (fdiv (Fin 3) (ac_publication_rate (da_config a))) (\<lambda>timeout. Inr (
        if (case da_encoder_time a of None \<Rightarrow> True
            | Some t \<Rightarrow> \<not> isfinite (da_encoder_edge_rate a) \<or> flt timeout (fsub now t))
        then FR_FEEDBACK_STALE
        else if guard then FR_WHEELSPIN
        else if da_pending_direction a \<notin> {- 1, 1} then FR_DIRECTION_UNAVAILABLE
        else if da_pending_direction a \<noteq> (if flt (Fin 0) commanded_speed then 1 else - 1)
        then FR_DIRECTION_MISMATCH
        else if \<not> arbitration_is_available a timeout now then FR_ARBITRATION_UNAVAILABLE
        else if \<not> adapter_output_is_selected a then FR_OUTPUT_NOT_SELECTED
        else FR_NONE)))"

text \<open>
  Steering of a moving command: a manual demand is already normalized, a Nav2
  yaw rate is converted through the curvature and the bicycle model.
\<close>

definition lateral_steering ::
  "(pyfloat \<Rightarrow> pyfloat) \<Rightarrow> (pyfloat \<Rightarrow> pyfloat) \<Rightarrow> adapter \<Rightarrow> pyfloat \<Rightarrow> pyfloat
     \<Rightarrow> (bool \<times> pyfloat) result" where
  "lateral_steering math_tan math_atan a speed lateral_demand =
     (if da_command_uses_direct_steering a
      then Inr (flt (Fin 1) (fabs lateral_demand), fmax (Fin (- 1)) (fmin (Fin 1) lateral_demand))
      else
        bind_result (fdiv lateral_demand speed) (\<lambda>requested_curvature.
        bind_result (maximum_curvature math_tan (da_config a)) (\<lambda>limit.
        let delta = math_atan (fmul (ac_wheelbase (da_config a)) requested_curvature) in
        bind_result (fdiv delta (ac_max_steering_angle (da_config a))) (\<lambda>x.
        Inr (flt limit (fabs requested_curvature), fmax (Fin (- 1)) (fmin (Fin 1) x))))))"

definition effective_magnitude :: "adapter_config \<Rightarrow> pyfloat \<Rightarrow> pyfloat" where
  "effective_magnitude c speed_magnitude =
     fmin (ac_maximum_commanded_speed c) (fmax speed_magnitude (ac_minimum_moving_speed c))"

definition measured_speed_of :: "adapter \<Rightarrow> pyfloat" where
  "measured_speed_of a =
     (if isfinite (da_encoder_edge_rate a)
      then fmul (fabs (da_encoder_edge_rate a)) (ac_encoder_metres_per_edge (da_config a))
      else Fin 0)"

text \<open>
  The integrator update: a frozen cycle keeps the old state; a candidate that
  would push a saturated output further is dropped (anti-windup).
\<close>

definition integrate ::
  "adapter_config \<Rightarrow> pyfloat \<Rightarrow> pyfloat \<Rightarrow> pyfloat \<Rightarrow> pyfloat option \<Rightarrow> freeze_reason \<Rightarrow> pyfloat
     \<Rightarrow> pyfloat \<times> freeze_reason" where
  "integrate c feedforward proportional speed_error dt fr integrator =
     (if fr \<noteq> FR_NONE then (integrator, fr)
      else case dt of
        None \<Rightarrow> (integrator, FR_INVALID_DT)
      | Some d \<Rightarrow>
          (let candidate = fmax (fneg (ac_integrator_bound c)) (fmin (ac_integrator_bound c)
                 (fadd integrator (fmul (fmul (ac_integral_gain c) speed_error) d)));
               candidate_saturation =
                 saturation c (fadd (fadd feedforward proportional) candidate);
               drives_farther =
                 (candidate_saturation = ''upper'' \<and> flt (Fin 0) speed_error)
                 \<or> (candidate_saturation = ''lower'' \<and> flt speed_error (Fin 0))
           in if drives_farther then (integrator, FR_ANTI_WINDUP) else (candidate, FR_NONE)))"

definition motion_reason :: "adapter_config \<Rightarrow> pyfloat \<Rightarrow> bool \<Rightarrow> string" where
  "motion_reason c speed_magnitude feedback_fresh =
     (if flt (ac_maximum_commanded_speed c) speed_magnitude then ''maximum_speed_clamped''
      else if flt speed_magnitude (ac_minimum_moving_speed c) then ''floor_promoted''
      else if \<not> feedback_fresh then ''encoder_stale_feedforward''
      else ''closed_loop'')"

text \<open>The moving branch of \<open>step\<close>, from the computed steering on.\<close>

definition drive ::
  "adapter \<Rightarrow> pyfloat \<Rightarrow> pyfloat \<Rightarrow> bool \<Rightarrow> pyfloat \<Rightarrow> (adapter \<times> decision) result" where
  "drive a now speed steering_saturated steering =
     (let c = da_config a;
          command_sign = (if flt (Fin 0) speed then Fin 1 else Fin (- 1));
          speed_magnitude = fabs speed;
          effective_speed = fmul command_sign (effective_magnitude c speed_magnitude);
          feedforward = linear_feedforward effective_speed
            (ac_feedforward_effort_per_speed c) (ac_feedforward_effort_intercept c);
          measured_speed = measured_speed_of a;
          speed_error = fsub (fabs effective_speed) (fabs measured_speed);
          feedback_fresh = (\<not> encoder_is_stale a now);
          (a1, guard) = wheelspin_guard a now measured_speed;
          proportional =
            (if feedback_fresh then fmul (ac_proportional_gain c) speed_error else Fin 0);
          (a2, dt) = integration_dt a1
      in bind_result (integrator_freeze_reason a2 now speed guard) (\<lambda>fr0.
         let (integrator, fr1) =
               integrate c feedforward proportional speed_error dt fr0 (da_integrator a2);
             a3 = a2\<lparr>da_integrator := integrator\<rparr>;
             fr = (if fr1 = FR_NONE \<and> feq (ac_integral_gain c) (Fin 0)
                   then FR_GAIN_DISABLED else fr1);
             raw_output = fadd (fadd feedforward proportional) integrator;
             output_magnitude =
               fmax (ac_output_min c) (fmin (ac_output_max c) raw_output)
         in Inr (a3, preemption_fields a now
              \<lparr> ad_publish_command = True,
                ad_mode = (if flt (Fin 0) command_sign then ''forward'' else ''reverse''),
                ad_reason = motion_reason c speed_magnitude feedback_fresh,
                ad_commanded_speed = speed, ad_effective_speed = effective_speed,
                ad_measured_speed = measured_speed, ad_speed_error = speed_error,
                ad_feedforward_throttle = feedforward,
                ad_feedforward_floor_violation = flt feedforward MINIMUM_EXPECTED_FEEDFORWARD,
                ad_proportional_term = proportional, ad_integrator_state = integrator,
                ad_pi_term = fadd proportional integrator,
                ad_integrator_enabled =
                  (\<not> feq (ac_integral_gain c) (Fin 0) \<and> fr = FR_NONE),
                ad_saturation_state = saturation c raw_output, ad_wheelspin_guard = guard,
                ad_final_throttle = fmul command_sign output_magnitude,
                ad_normalized_steering = steering, ad_steering_saturated = steering_saturated,
                ad_integral_gain = ac_integral_gain c, ad_stall_integral_gain_active = False,
                ad_active_mode_received = False, ad_active_mode_fresh = False,
                ad_active_mode = [], ad_preempted = False, ad_integral_decay_active = False,
                ad_integrator_freeze_reason = fr \<rparr>)))"

text \<open>The braking branches of \<open>step\<close>: an unusable or a zero command.\<close>

definition stop_decision :: "adapter \<Rightarrow> pyfloat \<Rightarrow> pyfloat \<Rightarrow> pyfloat \<Rightarrow> adapter \<times> decision" where
  "stop_decision a now speed lateral_demand =
     (if \<not> isfinite speed \<or> \<not> isfinite lateral_demand
      then (let (a', d) = brake a ''nonfinite_input'' FR_INVALID_COMMAND
            in (a', preemption_fields a now (d\<lparr>ad_commanded_speed := speed\<rparr>)))
      else (let (a', d) = brake a ''explicit_stop'' FR_ZERO_COMMAND;
                d' = preemption_fields a now (d\<lparr>ad_commanded_speed := speed\<rparr>)
            in (a', if da_command_uses_direct_steering a
                    then d'\<lparr>ad_normalized_steering :=
                              fmax (Fin (- 1)) (fmin (Fin 1) lateral_demand),
                            ad_steering_saturated := flt (Fin 1) (fabs lateral_demand)\<rparr>
                    else d')))"

definition step ::
  "(pyfloat \<Rightarrow> pyfloat) \<Rightarrow> (pyfloat \<Rightarrow> pyfloat) \<Rightarrow> adapter \<Rightarrow> pyfloat
     \<Rightarrow> (adapter \<times> decision) result" where
  "step math_tan math_atan a now =
     (case (da_command a, da_command_time a) of
        (Some (speed, lateral_demand), Some t) \<Rightarrow>
          if flt (ac_cmd_vel_nav_timeout (da_config a)) (fsub now t)
          then (let a' = reset_transient_state a in
                Inr (a', preemption_fields a now
                  ((silence a' ''stale_command'' FR_NO_COMMAND)\<lparr>ad_commanded_speed := speed\<rparr>)))
          else if \<not> isfinite speed \<or> \<not> isfinite lateral_demand \<or> feq speed (Fin 0)
          then Inr (stop_decision a now speed lateral_demand)
          else bind_result (lateral_steering math_tan math_atan a speed lateral_demand)
                 (\<lambda>(steering_saturated, steering). drive a now speed steering_saturated steering)
      | _ \<Rightarrow>
          (let a' = reset_transient_state a in
           Inr (a', preemption_fields a now (silence a' ''no_command'' FR_NO_COMMAND))))"

section \<open>What a validated configuration guarantees\<close>

lemma half_pi_exact: "fdiv math_pi (Fin 2) = Inr half_pi"
  using is_double_dyadic [of 884279719003555 "- 49"]
  by (simp add: math_pi_def half_pi_def dbl_is_double power_int_def field_simps)

lemma check_positive_ok:
  "check_positive ps = Inr u \<longleftrightarrow> (\<forall>(n, v) \<in> set ps. \<not> fle v (Fin 0))"
  by (induction ps rule: check_positive.induct) auto

lemma pos_finite: "isfinite x \<Longrightarrow> \<not> fle x (Fin 0) \<Longrightarrow> \<exists>q > 0. x = Fin q"
  by (cases x) auto

definition adapter_config_ok :: "adapter_config \<Rightarrow> bool" where
  "adapter_config_ok c = (validate_config c = Inr ())"

lemma adapter_config_ok_iff:
  "adapter_config_ok c \<longleftrightarrow> list_all isfinite (config_values c)
     \<and> (\<forall>(n, v) \<in> set (positive_fields c). \<not> fle v (Fin 0)) \<and> check_limits c = Inr ()"
  by (auto simp: adapter_config_ok_def validate_config_def bind_result_Inr_iff check_positive_ok)

lemma adapter_config_ok_positive:
  assumes "adapter_config_ok c"
  shows "\<exists>q > 0. ac_wheelbase c = Fin q" "\<exists>q > 0. ac_max_steering_angle c = Fin q"
    "\<exists>q > 0. ac_minimum_moving_speed c = Fin q" "\<exists>q > 0. ac_maximum_commanded_speed c = Fin q"
    "\<exists>q > 0. ac_integrator_bound c = Fin q" "\<exists>q > 0. ac_publication_rate c = Fin q"
    "\<exists>q > 0. ac_cmd_vel_nav_timeout c = Fin q"
  using assms
  by (auto simp: adapter_config_ok_iff config_values_def positive_fields_def intro!: pos_finite)

lemma adapter_config_ok_limits:
  assumes "adapter_config_ok c"
  shows "fle (ac_minimum_moving_speed c) (ac_maximum_commanded_speed c)"
    "fle (ac_maximum_commanded_speed c) (Fin 2)"
    "ac_output_min c = Fin 0"
    "\<exists>q > 0. ac_output_max c = Fin q"
    "fle (ac_output_max c) MAXIMUM_OUTPUT_AUTHORITY"
proof -
  have fin: "isfinite (ac_output_max c)" "isfinite (ac_maximum_commanded_speed c)"
    "isfinite (ac_minimum_moving_speed c)"
    using assms by (simp_all add: adapter_config_ok_iff config_values_def)
  have lim: "check_limits c = Inr ()" using assms by (simp add: adapter_config_ok_iff)
  from lim fin show "fle (ac_minimum_moving_speed c) (ac_maximum_commanded_speed c)"
    and "fle (ac_maximum_commanded_speed c) (Fin 2)"
    by (auto simp: check_limits_def MAXIMUM_COMMANDED_SPEED_def isfinite_iff split: if_splits)
  from lim show "ac_output_min c = Fin 0"
    by (auto simp: check_limits_def feq_iff split: if_splits)
  from lim fin show "\<exists>q > 0. ac_output_max c = Fin q"
    by (intro pos_finite) (auto simp: check_limits_def split: if_splits)
  from lim fin show "fle (ac_output_max c) MAXIMUM_OUTPUT_AUTHORITY"
    by (auto simp: check_limits_def MAXIMUM_OUTPUT_AUTHORITY_def not_flt_iff isfinite_not_NaN
        split: if_splits)
qed

section \<open>Shape of a cycle\<close>

lemma lateral_steering_total:
  assumes "adapter_config_ok (da_config a)" "isfinite speed" "\<not> feq speed (Fin 0)"
  shows "\<exists>r. lateral_steering math_tan math_atan a speed lat = Inr r"
proof -
  obtain w m s where w: "ac_wheelbase (da_config a) = Fin w" "0 < w"
    and m: "ac_max_steering_angle (da_config a) = Fin m" "0 < m"
    and s: "speed = Fin s" "s \<noteq> 0"
    using adapter_config_ok_positive(1,2) [OF assms(1)] assms(2,3) by (auto simp: isfinite_iff)
  have tot: "\<exists>r. fdiv x (Fin q) = Inr r" if "q \<noteq> 0" for x q
    using that by (cases x) (auto simp: fdiv_def)
  obtain k where k: "fdiv lat (Fin s) = Inr k" using tot [OF s(2)] by blast
  obtain l where l: "fdiv (math_tan (Fin m)) (Fin w) = Inr l" using tot w(2) by force
  obtain x where x: "fdiv (math_atan (fmul (Fin w) k)) (Fin m) = Inr x" using tot m(2) by force
  show ?thesis
    by (simp add: lateral_steering_def maximum_curvature_def w m s(1) k l x)
qed

lemma lateral_steering_range:
  "lateral_steering math_tan math_atan a speed lat = Inr (sat, st)
     \<Longrightarrow> fle (Fin (- 1)) st \<and> fle st (Fin 1)"
  using fclamp_bounds [of "Fin (- 1)" "Fin 1"]
  by (auto simp: lateral_steering_def bind_result_Inr_iff Let_def fclamp_def split: if_splits)

lemma freeze_reason_total:
  assumes "adapter_config_ok (da_config a)"
  shows "\<exists>fr. integrator_freeze_reason a now speed g = Inr fr"
  using adapter_config_ok_positive(6) [OF assms] by (auto simp: integrator_freeze_reason_def)

lemma wheelspin_guard_frame [frame_simps]:
  "da_config (fst (wheelspin_guard a now v)) = da_config a"
  "da_integrator (fst (wheelspin_guard a now v)) = da_integrator a"
  by (simp_all add: wheelspin_guard_def split: option.splits)

lemma integration_dt_frame [frame_simps]:
  "da_config (fst (integration_dt a)) = da_config a"
  "da_integrator (fst (integration_dt a)) = da_integrator a"
  by (simp_all add: integration_dt_def)

lemma drive_total:
  assumes "adapter_config_ok (da_config a)"
  shows "\<exists>r. drive a now speed sat st = Inr r"
proof -
  obtain a1 g where w: "wheelspin_guard a now (measured_speed_of a) = (a1, g)" by fastforce
  obtain a2 dt where i: "integration_dt a1 = (a2, dt)" by fastforce
  have "adapter_config_ok (da_config a2)"
    using assms wheelspin_guard_frame [of a now "measured_speed_of a"] integration_dt_frame [of a1]
    by (simp add: w i)
  then obtain fr0 where "integrator_freeze_reason a2 now speed g = Inr fr0"
    using freeze_reason_total by blast
  then show ?thesis by (simp add: drive_def Let_def w i split_beta)
qed

text \<open>The fields of a moving decision.\<close>

lemma drive_fields:
  assumes "drive a now speed sat st = Inr (a', d)"
  defines "c \<equiv> da_config a"
  defines "s \<equiv> (if flt (Fin 0) speed then Fin 1 else Fin (- 1))"
  shows "ad_publish_command d" "da_config a' = c" "ad_normalized_steering d = st"
    "ad_effective_speed d = fmul s (effective_magnitude c (fabs speed))"
    "\<exists>raw. float_ok raw \<and>
       ad_final_throttle d = fmul s (fclamp (ac_output_min c) (ac_output_max c) raw)"
    "ad_integrator_state d = da_integrator a'"
    "\<exists>ff p e dt fr fr1. integrate c ff p e dt fr (da_integrator a) = (da_integrator a', fr1)
       \<and> ad_integrator_freeze_reason d =
            (if fr1 = FR_NONE \<and> feq (ac_integral_gain c) (Fin 0) then FR_GAIN_DISABLED else fr1)"
    "ad_mode d = (if flt (Fin 0) speed then ''forward'' else ''reverse'')"
proof -
  obtain a1 g a2 dt where w: "wheelspin_guard a now (measured_speed_of a) = (a1, g)"
    and i: "integration_dt a1 = (a2, dt)" by fastforce
  have fr: "da_config a1 = da_config a" "da_config a2 = da_config a"
    "da_integrator a2 = da_integrator a"
    using wheelspin_guard_frame [of a now "measured_speed_of a"] integration_dt_frame [of a1]
    by (simp_all add: w i)
  define e where "e = fsub (fabs (fmul s (effective_magnitude c (fabs speed))))
    (fabs (measured_speed_of a))"
  define ff where "ff = linear_feedforward (fmul s (effective_magnitude c (fabs speed)))
    (ac_feedforward_effort_per_speed c) (ac_feedforward_effort_intercept c)"
  define p where "p = (if \<not> encoder_is_stale a now then fmul (ac_proportional_gain c) e else Fin 0)"
  obtain fr0 where f0: "integrator_freeze_reason a2 now speed g = Inr fr0"
    using assms(1) by (auto simp: drive_def Let_def w i bind_result_Inr_iff)
  obtain n fr1 where n: "integrate c ff p e dt fr0 (da_integrator a) = (n, fr1)" by fastforce
  note d = assms(1) [unfolded drive_def Let_def w i prod.case f0 bind_result_simps fr,
      folded c_def s_def, folded e_def ff_def, folded p_def, unfolded n prod.case]
  show "ad_publish_command d" "da_config a' = c" "ad_normalized_steering d = st"
    "ad_effective_speed d = fmul s (effective_magnitude c (fabs speed))"
    "ad_integrator_state d = da_integrator a'"
    using d by (auto simp: fr c_def preemption_fields_def)
  show "ad_mode d = (if flt (Fin 0) speed then ''forward'' else ''reverse'')"
    using d by (auto simp: s_def preemption_fields_def)
  show "\<exists>raw. float_ok raw \<and>
       ad_final_throttle d = fmul s (fclamp (ac_output_min c) (ac_output_max c) raw)"
    using d by (auto simp: preemption_fields_def fclamp_def intro!: exI [of _ "fadd (fadd ff p) n"])
  have "da_integrator a' = n" "ad_integrator_freeze_reason d =
            (if fr1 = FR_NONE \<and> feq (ac_integral_gain c) (Fin 0) then FR_GAIN_DISABLED else fr1)"
    using d by (auto simp: preemption_fields_def)
  with n show "\<exists>ff p e dt fr fr1. integrate c ff p e dt fr (da_integrator a) = (da_integrator a', fr1)
       \<and> ad_integrator_freeze_reason d =
            (if fr1 = FR_NONE \<and> feq (ac_integral_gain c) (Fin 0) then FR_GAIN_DISABLED else fr1)"
    by blast
qed

lemma step_elim:
  assumes "step math_tan math_atan a now = Inr (a', d)"
  obtains (quiet) "\<not> ad_publish_command d" "ad_final_throttle d = Fin 0"
      "ad_normalized_steering d = Fin 0" "a' = reset_transient_state a"
      "ad_integrator_freeze_reason d = FR_NO_COMMAND" "ad_mode d = ''silence''"
      "\<forall>cmd t. da_command a = Some cmd \<and> da_command_time a = Some t
         \<longrightarrow> flt (ac_cmd_vel_nav_timeout (da_config a)) (fsub now t)"
  | (stop) speed lat t where "da_command a = Some (speed, lat)" "da_command_time a = Some t"
      "\<not> flt (ac_cmd_vel_nav_timeout (da_config a)) (fsub now t)"
      "\<not> isfinite speed \<or> \<not> isfinite lat \<or> feq speed (Fin 0)"
      "stop_decision a now speed lat = (a', d)"
  | (move) speed lat t sat st where "da_command a = Some (speed, lat)"
      "da_command_time a = Some t"
      "\<not> flt (ac_cmd_vel_nav_timeout (da_config a)) (fsub now t)"
      "isfinite speed" "isfinite lat" "\<not> feq speed (Fin 0)"
      "lateral_steering math_tan math_atan a speed lat = Inr (sat, st)"
      "drive a now speed sat st = Inr (a', d)"
proof (cases "da_command a")
  case None
  then show thesis using assms quiet
    by (auto simp: step_def Let_def silence_def controller_fields_def preemption_fields_def
        default_decision_def)
next
  case cmd: (Some cmd)
  obtain speed lat where sl: "cmd = (speed, lat)" by fastforce
  show thesis
  proof (cases "da_command_time a")
    case None
    then show thesis using assms quiet cmd sl
      by (auto simp: step_def Let_def silence_def controller_fields_def preemption_fields_def
          default_decision_def)
  next
    case t: (Some t)
    consider "flt (ac_cmd_vel_nav_timeout (da_config a)) (fsub now t)"
      | "\<not> flt (ac_cmd_vel_nav_timeout (da_config a)) (fsub now t)"
        "\<not> isfinite speed \<or> \<not> isfinite lat \<or> feq speed (Fin 0)"
      | "\<not> flt (ac_cmd_vel_nav_timeout (da_config a)) (fsub now t)"
        "isfinite speed" "isfinite lat" "\<not> feq speed (Fin 0)" by blast
    then show thesis
    proof cases
      case 1
      then show thesis using assms quiet cmd sl t
        by (auto simp: step_def Let_def silence_def controller_fields_def preemption_fields_def
            default_decision_def)
    next
      case 2
      then show thesis using assms cmd sl t by (intro stop) (auto simp: step_def)
    next
      case 3
      then obtain sat st where "lateral_steering math_tan math_atan a speed lat = Inr (sat, st)"
        "drive a now speed sat st = Inr (a', d)"
        using assms cmd sl t by (auto simp: step_def bind_result_Inr_iff)
      then show thesis using move 3 cmd sl t by blast
    qed
  qed
qed

lemma step_total:
  assumes "adapter_config_ok (da_config a)"
  shows "\<exists>a' d. step math_tan math_atan a now = Inr (a', d)"
proof -
  have "is_ok (step math_tan math_atan a now)"
  proof (cases "\<exists>speed lat t. da_command a = Some (speed, lat) \<and> da_command_time a = Some t
      \<and> isfinite speed \<and> \<not> feq speed (Fin 0)")
    case True
    then obtain speed lat t where c: "da_command a = Some (speed, lat)" "da_command_time a = Some t"
      "isfinite speed" "\<not> feq speed (Fin 0)" by blast
    obtain sat st where l: "lateral_steering math_tan math_atan a speed lat = Inr (sat, st)"
      using lateral_steering_total [OF assms c(3,4)] by (metis surj_pair)
    obtain r where "drive a now speed sat st = Inr r" using drive_total [OF assms] by blast
    then show ?thesis by (simp add: step_def c(1,2) l Let_def)
  next
    case False
    then show ?thesis by (auto simp: step_def Let_def split: option.split)
  qed
  then show ?thesis by (metis is_ok_iff surj_pair)
qed

lemma stop_decision_fields:
  assumes "stop_decision a now speed lat = (a', d)"
  shows "ad_publish_command d" "ad_final_throttle d = Fin 0" "ad_mode d = ''brake''"
    "a' = reset_transient_state a" "fle (Fin (- 1)) (ad_normalized_steering d)"
    "fle (ad_normalized_steering d) (Fin 1)"
  using assms fclamp_bounds [of "Fin (- 1)" "Fin 1" lat]
  by (auto simp: stop_decision_def brake_def Let_def controller_fields_def preemption_fields_def
      default_decision_def fclamp_def split: if_splits)

lemma effective_magnitude_range:
  assumes "adapter_config_ok c" "fle (Fin 0) m"
  shows "fle (ac_minimum_moving_speed c) (effective_magnitude c m)"
    "fle (effective_magnitude c m) (ac_maximum_commanded_speed c)"
proof -
  obtain lo hi where "ac_minimum_moving_speed c = Fin lo" "ac_maximum_commanded_speed c = Fin hi"
    "lo \<le> hi"
    using adapter_config_ok_positive(3,4) [OF assms(1)] adapter_config_ok_limits(1) [OF assms(1)] by auto
  then show "fle (ac_minimum_moving_speed c) (effective_magnitude c m)"
    "fle (effective_magnitude c m) (ac_maximum_commanded_speed c)"
    using assms(2) by (cases m; auto simp: effective_magnitude_def fmax_def fmin_def)+
qed

lemma integrate_frozen:
  "integrate c ff p e dt fr i = (i', fr1) \<Longrightarrow> fr1 \<noteq> FR_NONE \<Longrightarrow> i' = i"
  by (auto simp: integrate_def Let_def split: if_splits option.splits)

lemma integrate_bounded:
  assumes "integrate c ff p e dt fr i = (i', fr1)" "adapter_config_ok c"
    "fle (fneg (ac_integrator_bound c)) i" "fle i (ac_integrator_bound c)"
  shows "fle (fneg (ac_integrator_bound c)) i' \<and> fle i' (ac_integrator_bound c)"
proof -
  obtain b where b: "ac_integrator_bound c = Fin b" "0 < b"
    using adapter_config_ok_positive(5) [OF assms(2)] by blast
  then have "fle (fneg (ac_integrator_bound c)) (fclamp (fneg (ac_integrator_bound c)) (ac_integrator_bound c) x)"
    "fle (fclamp (fneg (ac_integrator_bound c)) (ac_integrator_bound c) x) (ac_integrator_bound c)" for x
    using fclamp_bounds [of "Fin (- b)" "Fin b"] by simp_all
  with assms(1,3,4) show ?thesis
    by (auto simp: integrate_def Let_def fclamp_def split: if_splits option.splits)
qed

section \<open>The adapter as a machine\<close>

datatype adapter_input =
    AI_command pyfloat pyfloat pyfloat
  | AI_manual_command pyfloat pyfloat pyfloat
  | AI_invalidate
  | AI_motion pyfloat pyfloat
  | AI_active_mode string pyfloat
  | AI_encoder bool pyfloat int pyfloat "pyfloat option"
  | AI_adapter_output pyfloat pyfloat pyfloat
  | AI_mux_output pyfloat pyfloat pyfloat
  | AI_live_parameters "(string \<times> live_value) list"
  | AI_step pyfloat
  | AI_shutdown pyfloat

text \<open>An input that raises leaves the adapter as it was.\<close>

fun adapter_step ::
  "(pyfloat \<Rightarrow> pyfloat) \<Rightarrow> (pyfloat \<Rightarrow> pyfloat) \<Rightarrow> adapter \<Rightarrow> adapter_input \<Rightarrow> adapter" where
  "adapter_step tn an a (AI_command v w now) = update_command a v w now"
| "adapter_step tn an a (AI_manual_command v w now) = update_manual_command a v w now"
| "adapter_step tn an a AI_invalidate = invalidate_command a"
| "adapter_step tn an a (AI_motion v now) = update_motion a v now"
| "adapter_step tn an a (AI_active_mode m now) = update_active_mode a m now"
| "adapter_step tn an a (AI_encoder s r p now st) = update_encoder a s r p now st"
| "adapter_step tn an a (AI_adapter_output l g now) = update_adapter_output a l g now"
| "adapter_step tn an a (AI_mux_output l g now) = update_mux_output a l g now"
| "adapter_step tn an a (AI_live_parameters us) =
     (case set_live_parameters a us of Inl e \<Rightarrow> a | Inr a' \<Rightarrow> a')"
| "adapter_step tn an a (AI_step now) =
     (case step tn an a now of Inl e \<Rightarrow> a | Inr (a', d) \<Rightarrow> a')"
| "adapter_step tn an a (AI_shutdown now) = shutdown a now"

definition da_inv :: "adapter \<Rightarrow> bool" where
  "da_inv a = (adapter_config_ok (da_config a)
     \<and> fle (fneg (ac_integrator_bound (da_config a))) (da_integrator a)
     \<and> fle (da_integrator a) (ac_integrator_bound (da_config a)))"

definition da_initial :: "adapter \<Rightarrow> bool" where
  "da_initial a = (adapter_config_ok (da_config a) \<and> a = new_adapter (da_config a))"

lemma config_put_bound [simp]: "ac_integrator_bound (config_put c p) = ac_integrator_bound c"
  by (simp add: config_put_def split: prod.splits)

lemma merge_config_bound [simp]: "ac_integrator_bound (merge_config c ps) = ac_integrator_bound c"
  by (induction ps arbitrary: c) (simp_all add: merge_config_def)

lemma set_live_parameters_elim:
  assumes "set_live_parameters a us = Inr a'"
  obtains xs where "unsupported_names us = []" "check_doubles us = Inr xs"
    "da_config a' = merge_config (da_config a) xs" "adapter_config_ok (da_config a')"
    "da_integrator a' =
       (if ''integral_gain'' \<in> set (map fst us) then Fin 0 else da_integrator a)"
proof -
  have "unsupported_names us = []"
    using assms unfolding set_live_parameters_def by (metis Inl_Inr_False)
  moreover from this assms obtain xs where xs: "check_doubles us = Inr xs"
    "validate_config (merge_config (da_config a) xs) = Inr ()"
    unfolding set_live_parameters_def Let_def by (auto simp: bind_result_Inr_iff)
  moreover have "da_config a' = merge_config (da_config a) xs"
    "da_integrator a' =
       (if ''integral_gain'' \<in> set (map fst us) then Fin 0 else da_integrator a)"
    using assms calculation unfolding set_live_parameters_def Let_def
    by (auto simp del: set_map split: if_splits)
  ultimately show thesis using that by (simp add: adapter_config_ok_def)
qed

lemma set_live_parameters_inv:
  assumes "da_inv a" "set_live_parameters a us = Inr a'"
  shows "da_inv a'"
proof -
  have b: "\<exists>q > 0. ac_integrator_bound (da_config a) = Fin q"
    using assms(1) adapter_config_ok_positive(5) by (simp add: da_inv_def)
  from assms(2) show ?thesis
  proof (rule set_live_parameters_elim)
    fix xs
    assume "da_config a' = merge_config (da_config a) xs" "adapter_config_ok (da_config a')"
      "da_integrator a' = (if ''integral_gain'' \<in> set (map fst us) then Fin 0 else da_integrator a)"
    then show ?thesis using b assms(1) by (auto simp: da_inv_def)
  qed
qed

lemma step_inv:
  assumes "da_inv a" "step math_tan math_atan a now = Inr (a', d)"
  shows "da_inv a'"
  using assms(2)
proof (cases rule: step_elim)
  case (stop speed lat t)
  then show ?thesis
    using assms(1) stop_decision_fields(4) [OF stop(5)] by (simp add: da_inv_def reset_transient_state_def)
next
  case (move speed lat t sat st)
  from drive_fields(2,7) [OF move(8)] show ?thesis
    using assms(1) integrate_bounded unfolding da_inv_def by metis
qed (use assms(1) in \<open>simp add: da_inv_def reset_transient_state_def\<close>)

lemma adapter_step_inv: "da_inv a \<Longrightarrow> da_inv (adapter_step tn an a i)"
  by (cases i)
     (auto simp: update_command_def update_manual_command_def invalidate_command_def
       update_motion_def update_active_mode_def update_encoder_def update_adapter_output_def
       update_mux_output_def shutdown_def reset_transient_state_def
       intro: set_live_parameters_inv step_inv split: sum.splits,
      simp_all add: da_inv_def)

interpretation adapter: machine da_initial "adapter_step tn an" da_inv for tn an
proof unfold_locales
  show "da_initial a \<Longrightarrow> da_inv a" for a
    using adapter_config_ok_positive(5) [of "da_config a"]
    by (auto simp: da_initial_def da_inv_def new_adapter_def dest: arg_cong [where f = da_integrator])
qed (rule adapter_step_inv)

section \<open>Properties\<close>

text \<open>A configuration of the shape the node loads, used by the witnesses below.\<close>

definition sample_config :: adapter_config where
  "sample_config =
     \<lparr> ac_wheelbase = Fin (1 / 4), ac_max_steering_angle = Fin (1 / 4),
       ac_feedforward_effort_per_speed = Fin (1 / 4), ac_feedforward_effort_intercept = Fin 0,
       ac_minimum_moving_speed = Fin (1 / 4), ac_maximum_commanded_speed = Fin 1,
       ac_proportional_gain = Fin (1 / 8), ac_integral_gain = Fin 1,
       ac_integrator_bound = Fin (1 / 8), ac_output_min = Fin 0, ac_output_max = Fin (1 / 4),
       ac_encoder_metres_per_edge = Fin 1, ac_wheelspin_speed_ratio = Fin 2,
       ac_wheelspin_min_speed_excess = Fin 1, ac_wheelspin_qualification_sec = Fin 1,
       ac_motion_signal_timeout_sec = Fin 1, ac_encoder_state_timeout_sec = Fin 1,
       ac_cmd_vel_nav_timeout = Fin 1, ac_active_mode_timeout_sec = Fin 1,
       ac_publication_rate = Fin 1 \<rparr>"

lemma sample_config_ok: "adapter_config_ok sample_config"
proof -
  have "fle (Fin (1 / 4)) (dbl (30 / 100))" by (intro dbl_ge_double) simp_all
  then have "\<not> flt (dbl (30 / 100)) (Fin (1 / 4))" using flt_not_fle by blast
  moreover have "dbl ((1 / 4) * (1 / 4)) = Fin (1 / 16)"
    by (simp add: dbl_is_double)
  ultimately show ?thesis
    by (simp add: adapter_config_ok_iff sample_config_def config_values_def positive_fields_def
        check_limits_def half_pi_def MAXIMUM_COMMANDED_SPEED_def MAXIMUM_OUTPUT_AUTHORITY_def
        maximum_feedforward_def minimum_feedforward_def linear_feedforward_def)
qed

text \<open>
  C20. Actuation limits: with a validated configuration a timer cycle never
  raises, and the throttle it decides stays within \<open>output_max\<close> in both
  directions, which itself is at most the ratified 0.30 authority; the
  normalized steering stays in [-1, 1]. This holds for every command and
  measurement (infinities and NaN included) and whatever \<open>tan\<close> and \<open>atan\<close> return.
\<close>

theorem cycle_within_authority:
  assumes "adapter_config_ok (da_config a)" "float_ok (ac_output_max (da_config a))"
  shows "\<exists>a' d. step math_tan math_atan a now = Inr (a', d)
    \<and> fle (fabs (ad_final_throttle d)) (ac_output_max (da_config a))
    \<and> fle (ac_output_max (da_config a)) MAXIMUM_OUTPUT_AUTHORITY
    \<and> fle (Fin (- 1)) (ad_normalized_steering d) \<and> fle (ad_normalized_steering d) (Fin 1)"
proof -
  obtain a' d where s: "step math_tan math_atan a now = Inr (a', d)"
    using step_total [OF assms(1)] by blast
  obtain m where m: "ac_output_max (da_config a) = Fin m" "0 < m" "is_double m"
    using adapter_config_ok_limits(4) [OF assms(1)] assms(2) by auto
  have "fle (fabs (ad_final_throttle d)) (Fin m) \<and> fle (Fin (- 1)) (ad_normalized_steering d)
    \<and> fle (ad_normalized_steering d) (Fin 1)"
    using s
  proof (cases rule: step_elim)
    case (stop speed lat t)
    then show ?thesis using m(2) stop_decision_fields [OF stop(5)] by simp
  next
    case (move speed lat t sat st)
    obtain raw where "ad_final_throttle d =
        fmul (if flt (Fin 0) speed then Fin 1 else Fin (- 1)) (fclamp (Fin 0) (Fin m) raw)"
      using drive_fields(5) [OF move(8)] adapter_config_ok_limits(3) [OF assms(1)] m(1) by auto
    then have "fle (fabs (ad_final_throttle d)) (Fin m)"
      using fclamp_bounds [of "Fin 0" "Fin m" raw] m(2,3)
      by (simp only:) (intro signed_magnitude_bound, auto)
    then show ?thesis
      using drive_fields(3) [OF move(8)] lateral_steering_range [OF move(7)] by simp
  qed (use m(2) in simp)
  then show ?thesis using s m(1) adapter_config_ok_limits(5) [OF assms(1)] by auto
qed

theorem cycle_within_authority_witness:
  "\<exists>a' d. step (\<lambda>x. x) (\<lambda>x. x) (update_command (new_adapter sample_config) PInf (Fin 1) (Fin 0)) (Fin 0)
      = Inr (a', d)
    \<and> fle (fabs (ad_final_throttle d)) (Fin (1 / 4))
    \<and> fle (Fin (1 / 4)) MAXIMUM_OUTPUT_AUTHORITY
    \<and> fle (Fin (- 1)) (ad_normalized_steering d) \<and> fle (ad_normalized_steering d) (Fin 1)"
  using cycle_within_authority [of "update_command (new_adapter sample_config) PInf (Fin 1) (Fin 0)"
      "\<lambda>x. x" "\<lambda>x. x" "Fin 0"] sample_config_ok
  by (simp add: update_command_def new_adapter_def sample_config_def)

text \<open>
  A command is published exactly while one is stored and not older than
  the timeout, and throttle is applied only for a stored finite nonzero speed:
  a missing, stale, non-finite or zero command decides zero throttle.
\<close>

theorem publication_follows_command:
  assumes "step math_tan math_atan a now = Inr (a', d)"
  shows "(ad_publish_command d \<longleftrightarrow> (\<exists>cmd t. da_command a = Some cmd \<and> da_command_time a = Some t
           \<and> \<not> flt (ac_cmd_vel_nav_timeout (da_config a)) (fsub now t)))
    \<and> (ad_final_throttle d \<noteq> Fin 0 \<longrightarrow>
        (\<exists>speed lat. da_command a = Some (speed, lat) \<and> isfinite speed \<and> isfinite lat
           \<and> speed \<noteq> Fin 0 \<and> ad_publish_command d))"
  using assms
proof (cases rule: step_elim)
  case (stop speed lat t)
  then show ?thesis using stop_decision_fields(1,2) [OF stop(5)] by auto
next
  case (move speed lat t sat st)
  then show ?thesis using drive_fields(1) [OF move(8)] by (auto simp: feq_iff)
qed auto

theorem publication_follows_command_witness:
  "\<exists>a' d. step (\<lambda>x. x) (\<lambda>x. x) (update_command (new_adapter sample_config) (Fin 0) (Fin 1) (Fin 0)) (Fin 1)
      = Inr (a', d) \<and> ad_publish_command d \<and> ad_final_throttle d = Fin 0"
proof -
  let ?a = "update_command (new_adapter sample_config) (Fin 0) (Fin 1) (Fin 0)"
  have "adapter_config_ok (da_config ?a)"
    using sample_config_ok by (simp add: update_command_def new_adapter_def)
  then obtain a' d where s: "step (\<lambda>x. x) (\<lambda>x. x) ?a (Fin 1) = Inr (a', d)"
    using step_total by blast
  have "ad_publish_command d \<and> ad_final_throttle d = Fin 0"
    using publication_follows_command [OF s]
    by (auto simp: update_command_def new_adapter_def sample_config_def)
  with s show ?thesis by blast
qed

text \<open>
  Range of the tracked speed: while a command moves the car, the speed the
  controller tracks has the direction of the command and a magnitude between
  the minimum moving speed and the maximum commanded speed (at most 2 m/s).
\<close>

theorem tracked_speed_in_range:
  assumes "adapter_config_ok (da_config a)" "float_ok (ac_minimum_moving_speed (da_config a))"
    "float_ok (ac_maximum_commanded_speed (da_config a))" "float_ok v"
    and "da_command a = Some (v, lat)"
    and "step math_tan math_atan a now = Inr (a', d)" "ad_mode d \<in> {''forward'', ''reverse''}"
  shows "fle (ac_minimum_moving_speed (da_config a)) (fabs (ad_effective_speed d))
    \<and> fle (fabs (ad_effective_speed d)) (ac_maximum_commanded_speed (da_config a))
    \<and> fle (ac_maximum_commanded_speed (da_config a)) (Fin 2)
    \<and> (flt (Fin 0) v \<longleftrightarrow> flt (Fin 0) (ad_effective_speed d))"
  using assms(6)
proof (cases rule: step_elim)
  case quiet
  then show ?thesis using assms(7) by simp
next
  case (stop speed l t)
  then show ?thesis using stop_decision_fields(3) [OF stop(5)] assms(7) by simp
next
  case (move speed l t sat st)
  let ?c = "da_config a"
  let ?e = "effective_magnitude ?c (fabs v)"
  have v: "speed = v" "isfinite v" using move assms(5) by auto
  then have r: "fle (ac_minimum_moving_speed ?c) ?e" "fle ?e (ac_maximum_commanded_speed ?c)"
    using effective_magnitude_range [OF assms(1)] fabs_nonneg isfinite_not_NaN by blast+
  obtain lo where lo: "ac_minimum_moving_speed ?c = Fin lo" "0 < lo"
    using adapter_config_ok_positive(3) [OF assms(1)] by blast
  obtain hi where hi: "ac_maximum_commanded_speed ?c = Fin hi"
    using adapter_config_ok_positive(4) [OF assms(1)] by blast
  have "float_ok (fabs v)" using assms(4) by (cases v) (simp_all add: abs_if)
  then have ok: "float_ok ?e" using assms(2,3) by (auto simp: effective_magnitude_def)
  obtain e where e: "?e = Fin e" "lo \<le> e" using r lo hi by (cases ?e) auto
  have "ad_effective_speed d = (if flt (Fin 0) v then Fin e else Fin (- e))"
    using drive_fields(4) [OF move(8)] v ok by (simp add: e dbl_is_double)
  then show ?thesis using e r lo adapter_config_ok_limits(2) [OF assms(1)] by auto
qed

definition moving_sample :: adapter where
  "moving_sample = update_manual_command (new_adapter sample_config) (Fin (1 / 8)) (Fin 0) (Fin 0)"

lemma moving_sample_step:
  obtains a' d where "step (\<lambda>x. x) (\<lambda>x. x) moving_sample (Fin 0) = Inr (a', d)" "ad_mode d = ''forward''"
proof -
  have "adapter_config_ok (da_config moving_sample)"
    using sample_config_ok by (simp add: moving_sample_def update_manual_command_def new_adapter_def)
  then obtain a' d where s: "step (\<lambda>x. x) (\<lambda>x. x) moving_sample (Fin 0) = Inr (a', d)"
    using step_total by blast
  then have "ad_mode d = ''forward''"
  proof (cases rule: step_elim)
    case (move speed lat t sat st)
    then have "speed = Fin (1 / 8)"
      by (simp add: moving_sample_def update_manual_command_def new_adapter_def)
    then show ?thesis using drive_fields(8) [OF move(8)] by simp
  qed (auto simp: moving_sample_def update_manual_command_def new_adapter_def sample_config_def)
  with s show thesis by (rule that)
qed

theorem tracked_speed_in_range_witness:
  "\<exists>a' d. step (\<lambda>x. x) (\<lambda>x. x) moving_sample (Fin 0) = Inr (a', d)
    \<and> fle (Fin (1 / 4)) (fabs (ad_effective_speed d)) \<and> fle (fabs (ad_effective_speed d)) (Fin 1)
    \<and> flt (Fin 0) (ad_effective_speed d)"
proof (rule moving_sample_step)
  fix a' d
  assume s: "step (\<lambda>x. x) (\<lambda>x. x) moving_sample (Fin 0) = Inr (a', d)" "ad_mode d = ''forward''"
  have c: "da_config moving_sample = sample_config" "da_command moving_sample = Some (Fin (1 / 8), Fin 0)"
    by (simp_all add: moving_sample_def update_manual_command_def new_adapter_def)
  show ?thesis
    using tracked_speed_in_range [of moving_sample "Fin (1 / 8)" "Fin 0", OF _ _ _ _ _ s(1)] s
      sample_config_ok
    by (auto simp: c sample_config_def)
qed

text \<open>
  The integral contribution stays inside \<open>[-integrator_bound, integrator_bound]\<close>
  and the configuration stays valid after any sequence of commands,
  measurements (non-finite ones included), live parameter changes and cycles.
\<close>

theorem integrator_always_bounded:
  assumes "adapter_config_ok c"
  shows "let a = run_steps (adapter_step math_tan math_atan) (new_adapter c) inputs in
    adapter_config_ok (da_config a)
    \<and> fle (fabs (da_integrator a)) (ac_integrator_bound (da_config a))"
proof -
  have "da_initial (new_adapter c)" using assms by (simp add: da_initial_def new_adapter_def)
  from adapter.invar_reachable [OF this, of math_tan math_atan inputs]
  show ?thesis by (simp add: Let_def da_inv_def fabs_le_iff)
qed

theorem integrator_always_bounded_witness:
  "fle (fabs (da_integrator (run_steps (adapter_step (\<lambda>x. x) (\<lambda>x. x)) (new_adapter sample_config)
      [AI_command (Fin 1) (Fin 0) (Fin 0), AI_encoder False PInf 1 (Fin 0) (Some (Fin 0)),
       AI_step (Fin 0), AI_step NaN])))
    (ac_integrator_bound (da_config (run_steps (adapter_step (\<lambda>x. x) (\<lambda>x. x)) (new_adapter sample_config)
      [AI_command (Fin 1) (Fin 0) (Fin 0), AI_encoder False PInf 1 (Fin 0) (Some (Fin 0)),
       AI_step (Fin 0), AI_step NaN])))"
  using integrator_always_bounded [OF sample_config_ok, of "\<lambda>x. x" "\<lambda>x. x"] unfolding Let_def by blast

text \<open>
  A frozen integrator does not move: a cycle that reports any freeze reason
  other than \<open>NONE\<close> and \<open>GAIN_DISABLED\<close> (no, stale, invalid or zero command, stale
  feedback, wheelspin, direction or arbitration problems, invalid time step,
  anti-windup) leaves the integral state exactly as it was, and every cycle
  reports the integral state it keeps.
\<close>

theorem frozen_integrator_keeps_state:
  assumes "step math_tan math_atan a now = Inr (a', d)"
    and "ad_integrator_freeze_reason d \<notin> {FR_NONE, FR_GAIN_DISABLED}"
  shows "da_integrator a' = da_integrator a"
  using assms(1)
proof (cases rule: step_elim)
  case (stop speed lat t)
  then show ?thesis using stop_decision_fields(4) [OF stop(5)] by (simp add: reset_transient_state_def)
next
  case (move speed lat t sat st)
  then show ?thesis using drive_fields(7) [OF move(8)] assms(2) integrate_frozen
    by (metis insertCI)
qed (simp add: reset_transient_state_def)

theorem frozen_integrator_keeps_state_witness:
  "\<exists>a' d. step (\<lambda>x. x) (\<lambda>x. x) ((new_adapter sample_config)\<lparr>da_integrator := Fin (1 / 16)\<rparr>) (Fin 0) = Inr (a', d)
    \<and> ad_integrator_freeze_reason d = FR_NO_COMMAND \<and> da_integrator a' = Fin (1 / 16)"
proof -
  let ?a = "(new_adapter sample_config)\<lparr>da_integrator := Fin (1 / 16)\<rparr>"
  obtain a' d where s: "step (\<lambda>x. x) (\<lambda>x. x) ?a (Fin 0) = Inr (a', d)"
    and r: "ad_integrator_freeze_reason d = FR_NO_COMMAND"
    by (simp add: step_def new_adapter_def Let_def silence_def controller_fields_def
        preemption_fields_def)
  have "da_integrator a' = Fin (1 / 16)" using frozen_integrator_keeps_state [OF s] r by simp
  with s r show ?thesis by blast
qed

lemma check_doubles_names: "check_doubles us = Inr xs \<Longrightarrow> map fst us = map fst xs"
  by (induction us arbitrary: xs rule: check_doubles.induct) (auto simp: bind_result_Inr_iff)

lemma merge_config_keeps:
  "''output_max'' \<notin> set (map fst xs) \<Longrightarrow> ac_output_max (merge_config c xs) = ac_output_max c"
  "''maximum_commanded_speed'' \<notin> set (map fst xs)
     \<Longrightarrow> ac_maximum_commanded_speed (merge_config c xs) = ac_maximum_commanded_speed c"
  by (induction xs arbitrary: c) (auto simp: merge_config_def config_put_def split: prod.splits)

lemma merge_config_sets:
  "distinct (map fst xs) \<Longrightarrow> (''output_max'', x) \<in> set xs \<Longrightarrow> ac_output_max (merge_config c xs) = x"
proof (induction xs arbitrary: c)
  case (Cons p xs)
  have m: "merge_config c (p # xs) = merge_config (config_put c p) xs" by (simp add: merge_config_def)
  show ?case
  proof (cases "p = (''output_max'', x)")
    case True
    then have "''output_max'' \<notin> set (map fst xs)" using Cons.prems by simp
    from merge_config_keeps(1) [OF this, of "config_put c p"] show ?thesis
      unfolding m by (simp add: True config_put_def)
  next
    case False
    then show ?thesis using Cons by (simp only: m) auto
  qed
qed simp

lemma check_doubles_value:
  "check_doubles us = Inr xs \<Longrightarrow> (n, LV_float x) \<in> set us \<Longrightarrow> (n, x) \<in> set xs"
  by (induction us arbitrary: xs rule: check_doubles.induct) (auto simp: bind_result_Inr_iff)

text \<open>
  A live parameter change is accepted only for live-tunable double values
  and as a whole: the resulting configuration passes the full validation, a
  named parameter takes its value, one that is not named keeps its own, and the integral state is
  cleared exactly when \<open>integral_gain\<close> is among the updates.
\<close>

theorem live_update_is_validated:
  assumes "set_live_parameters a updates = Inr a'" "dict_wf updates"
  shows "adapter_config_ok (da_config a')
    \<and> set (map fst updates) \<subseteq> set LIVE_TUNABLE_PARAMETERS
    \<and> (\<forall>(name, v) \<in> set updates. \<exists>x. v = LV_float x)
    \<and> (\<forall>x. (''output_max'', LV_float x) \<in> set updates \<longrightarrow> ac_output_max (da_config a') = x)
    \<and> (''output_max'' \<notin> set (map fst updates)
         \<longrightarrow> ac_output_max (da_config a') = ac_output_max (da_config a))
    \<and> (''maximum_commanded_speed'' \<notin> set (map fst updates)
         \<longrightarrow> ac_maximum_commanded_speed (da_config a') = ac_maximum_commanded_speed (da_config a))
    \<and> ac_integrator_bound (da_config a') = ac_integrator_bound (da_config a)
    \<and> da_integrator a' =
        (if ''integral_gain'' \<in> set (map fst updates) then Fin 0 else da_integrator a)"
  using assms(1)
proof (rule set_live_parameters_elim)
  fix xs
  assume u: "unsupported_names updates = []" and x: "check_doubles updates = Inr xs"
    and c: "da_config a' = merge_config (da_config a) xs" "adapter_config_ok (da_config a')"
    and i: "da_integrator a' =
        (if ''integral_gain'' \<in> set (map fst updates) then Fin 0 else da_integrator a)"
  have "set (map fst updates) \<subseteq> set LIVE_TUNABLE_PARAMETERS"
    using u unfolding unsupported_names_def filter_empty_conv by blast
  moreover have "\<forall>(name, v) \<in> set updates. \<exists>x. v = LV_float x"
    using x by (induction updates arbitrary: xs rule: check_doubles.induct)
      (auto simp: bind_result_Inr_iff)
  moreover have "\<forall>x. (''output_max'', LV_float x) \<in> set updates \<longrightarrow> ac_output_max (da_config a') = x"
    using check_doubles_value [OF x] merge_config_sets [of xs] assms(2) check_doubles_names [OF x]
    by (auto simp: c(1) dict_wf_def)
  ultimately show ?thesis
    using c i check_doubles_names [OF x] merge_config_keeps [of xs "da_config a"] by simp
qed

theorem live_update_is_validated_witness:
  "\<exists>a'. set_live_parameters ((new_adapter sample_config)\<lparr>da_integrator := Fin (1 / 16)\<rparr>)
      [(''integral_gain'', LV_float (Fin 1))] = Inr a'
    \<and> adapter_config_ok (da_config a') \<and> da_integrator a' = Fin 0"
proof -
  let ?a = "(new_adapter sample_config)\<lparr>da_integrator := Fin (1 / 16)\<rparr>"
  have "merge_config sample_config [(''integral_gain'', Fin 1)] = sample_config"
    by (simp add: merge_config_def config_put_def sample_config_def)
  then obtain a' where s: "set_live_parameters ?a [(''integral_gain'', LV_float (Fin 1))] = Inr a'"
    using sample_config_ok
    by (simp add: set_live_parameters_def unsupported_names_def LIVE_TUNABLE_PARAMETERS_def
        new_adapter_def adapter_config_ok_def)
  show ?thesis using live_update_is_validated [OF s] s by (simp add: dict_wf_def)
qed

end
