(* ===== verification/WheelEncoder.thy ===== *)
theory WheelEncoder
  imports PyFloat
begin

text \<open>
  State of the single-channel wheel encoder (\<open>runner_encoder/encoder_state.py\<close>).
  Attributes of \<open>EncoderState\<close> carry the prefix \<open>es_\<close>, fields of a measurement
  the prefix \<open>em_\<close>. Every method runs under the object's lock, so each is one
  atomic step; the bounded deque is a list with its \<open>maxlen\<close>.
\<close>

section \<open>Constants and construction\<close>

definition DEFAULT_HISTORY_DEPTH :: int where
  "DEFAULT_HISTORY_DEPTH = 4"

definition MAX_LOOKBACK_NS :: int where
  "MAX_LOOKBACK_NS = 500000000"

definition MIN_EDGE_INTERVAL_NS :: int where
  "MIN_EDGE_INTERVAL_NS = 100000"




record measurement =
  em_edge_rate :: pyfloat
  em_stationary :: bool
  em_active_direction :: int
  em_pending_direction :: int

record encoder =
  es_stationary_timeout_ns :: int
  es_maxlen :: nat
  es_edge_timestamps_ns :: "int list"
  es_last_edge_ns :: "int option"
  es_stationary :: bool
  es_active_direction :: int
  es_latest_nonzero_direction :: int


section \<open>Operations\<close>

definition update_direction :: "encoder \<Rightarrow> int \<Rightarrow> encoder \<times> bool" where
  "update_direction e direction =
     (if direction \<notin> {- 1, 0, 1} then (e, False)
      else if direction = 0 then (e, True)
      else (e\<lparr>es_latest_nonzero_direction := direction\<rparr>, True))"

text \<open>\<open>deque.append\<close> with a maximal length drops the oldest entry when full.\<close>

definition bounded_append :: "nat \<Rightarrow> 'a list \<Rightarrow> 'a \<Rightarrow> 'a list" where
  "bounded_append maxlen xs x =
     (if length xs < maxlen then xs @ [x] else tl xs @ [x])"

fun prune :: "int \<Rightarrow> int list \<Rightarrow> int list" where
  "prune cutoff (x # y # xs) = (if x < cutoff then prune cutoff (y # xs) else x # y # xs)"
| "prune cutoff xs = xs"

definition prune_history :: "encoder \<Rightarrow> int \<Rightarrow> encoder" where
  "prune_history e reference_ns =
     e\<lparr>es_edge_timestamps_ns := prune (reference_ns - MAX_LOOKBACK_NS) (es_edge_timestamps_ns e)\<rparr>"

definition too_close :: "encoder \<Rightarrow> int \<Rightarrow> bool" where
  "too_close e now = (case es_last_edge_ns e of None \<Rightarrow> False
     | Some t \<Rightarrow> now - t < MIN_EDGE_INTERVAL_NS)"

definition pulse_gap :: "encoder \<Rightarrow> int \<Rightarrow> bool" where
  "pulse_gap e now = (case es_last_edge_ns e of None \<Rightarrow> True
     | Some t \<Rightarrow> es_stationary_timeout_ns e \<le> now - t)"

definition record_edge :: "encoder \<Rightarrow> int \<Rightarrow> encoder" where
  "record_edge e now =
     (if too_close e now then e
      else (let e1 = (if es_stationary e \<or> pulse_gap e now
                      then e\<lparr>es_active_direction := es_latest_nonzero_direction e,
                             es_edge_timestamps_ns := []\<rparr>
                      else e);
                e2 = e1\<lparr>es_stationary := False, es_last_edge_ns := Some now,
                        es_edge_timestamps_ns :=
                          bounded_append (es_maxlen e) (es_edge_timestamps_ns e1) now\<rparr>
            in prune_history e2 now))"

text \<open>A float divided by an integer: the integer is converted first, which may overflow.\<close>

definition int_quotient :: "pyfloat \<Rightarrow> int \<Rightarrow> pyfloat result" where
  "int_quotient x n = bind_result (float_of_int n) (fdiv x)"

definition estimate_edge_rate :: "encoder \<Rightarrow> int \<Rightarrow> pyfloat result" where
  "estimate_edge_rate e now =
     (let ts = es_edge_timestamps_ns e in
      if length ts < 2 then Inr (Fin 0)
      else (let first_edge = hd ts; previous_edge = ts ! (length ts - 2); last_edge = last ts;
                span = last_edge - first_edge; recent = last_edge - previous_edge
            in if span \<le> 0 \<or> recent \<le> 0 then Inr (Fin 0)
               else bind_result (int_quotient (fmul (Fin (of_nat (length ts - 1))) (Fin 1000000000)) span)
                   (\<lambda>edge_rate.
                     let since_last = now - last_edge in
                     if recent < since_last
                     then bind_result (int_quotient (Fin 1000000000) since_last) (\<lambda>decay.
                            Inr (fmin edge_rate decay))
                     else Inr edge_rate)))"

definition take_measurement :: "encoder \<Rightarrow> int \<Rightarrow> (encoder \<times> measurement) result" where
  "take_measurement e now =
     (let e1 = (case es_last_edge_ns e of
                  None \<Rightarrow> e
                | Some t \<Rightarrow> if now < t
                    then e\<lparr>es_last_edge_ns := None, es_edge_timestamps_ns := [], es_stationary := True\<rparr>
                    else e);
          e2 = e1\<lparr>es_stationary := pulse_gap e1 now\<rparr>
      in if es_stationary e2
         then Inr (e2\<lparr>es_edge_timestamps_ns := []\<rparr>,
                   \<lparr> em_edge_rate = Fin 0, em_stationary = True,
                     em_active_direction = es_active_direction e2,
                     em_pending_direction = es_latest_nonzero_direction e2 \<rparr>)
         else (let e3 = prune_history e2 now in
               bind_result (estimate_edge_rate e3 now) (\<lambda>edge_rate.
                 Inr (e3, \<lparr> em_edge_rate = edge_rate, em_stationary = False,
                            em_active_direction = es_active_direction e3,
                            em_pending_direction = es_latest_nonzero_direction e3 \<rparr>))))"

section \<open>The history\<close>



lemma prune_nonempty [simp]: "prune c ts = [] \<longleftrightarrow> ts = []"
  by (induction c ts rule: prune.induct) simp_all

lemma prune_last [simp]: "last (prune c ts) = last ts"
  by (induction c ts rule: prune.induct) simp_all








section \<open>The encoder as a machine\<close>

datatype encoder_input = EN_direction int | EN_edge int | EN_measure int

fun encoder_step :: "encoder \<Rightarrow> encoder_input \<Rightarrow> encoder" where
  "encoder_step e (EN_direction d) = fst (update_direction e d)"
| "encoder_step e (EN_edge t) = record_edge e t"
| "encoder_step e (EN_measure t) =
     (case take_measurement e t of Inl x \<Rightarrow> e | Inr (e', m) \<Rightarrow> e')"






lemma measurement_elim:
  assumes "take_measurement e t = Inr (e', m)"
  obtains (rest) l where "em_stationary m" "em_edge_rate m = Fin 0"
      "e' = e\<lparr>es_last_edge_ns := l, es_edge_timestamps_ns := [], es_stationary := True\<rparr>"
      "em_active_direction m = es_active_direction e"
      "em_pending_direction m = es_latest_nonzero_direction e"
      "\<forall>t'. es_last_edge_ns e = Some t' \<longrightarrow> t < t' \<or> es_stationary_timeout_ns e \<le> t - t'"
  | (turning) t' where "es_last_edge_ns e = Some t'" "t' \<le> t" "t - t' < es_stationary_timeout_ns e"
      "\<not> em_stationary m" "e' = prune_history (e\<lparr>es_stationary := False\<rparr>) t"
      "estimate_edge_rate e' t = Inr (em_edge_rate m)"
      "em_active_direction m = es_active_direction e"
      "em_pending_direction m = es_latest_nonzero_direction e"
proof (cases "es_last_edge_ns e")
  case None
  then have "e' = e\<lparr>es_last_edge_ns := None, es_edge_timestamps_ns := [], es_stationary := True\<rparr>"
    using assms by (cases e) (auto simp: take_measurement_def pulse_gap_def)
  with None show thesis using assms
    by (intro rest) (auto simp: take_measurement_def pulse_gap_def)
next
  case (Some t')
  consider "t < t'" | "t' \<le> t" "es_stationary_timeout_ns e \<le> t - t'"
    | "t' \<le> t" "t - t' < es_stationary_timeout_ns e" by linarith
  then show thesis
  proof cases
    case 1
    then have "e' = e\<lparr>es_last_edge_ns := None, es_edge_timestamps_ns := [], es_stationary := True\<rparr>"
      using assms Some by (cases e) (auto simp: take_measurement_def pulse_gap_def)
    with 1 show thesis using assms Some
      by (intro rest) (auto simp: take_measurement_def pulse_gap_def)
  next
    case 2
    have "e' = e\<lparr>es_last_edge_ns := Some t', es_edge_timestamps_ns := [], es_stationary := True\<rparr>"
      using assms Some 2 by (cases e) (auto simp: take_measurement_def pulse_gap_def)
    with 2 show thesis using assms Some
      by (intro rest) (auto simp: take_measurement_def pulse_gap_def)
  next
    case 3
    then show thesis using assms Some
      by (intro turning)
         (auto simp: take_measurement_def pulse_gap_def Let_def prune_history_def bind_result_Inr_iff)
  qed
qed






lemma encoder_maxlen_step [simp]: "es_maxlen (encoder_step e i) = es_maxlen e"
proof (cases i)
  case (EN_measure t)
  then show ?thesis
    by (auto simp: take_measurement_def Let_def prune_history_def bind_result_Inr_iff
        split: sum.split option.splits if_splits)
qed (simp_all add: update_direction_def record_edge_def prune_history_def Let_def)



section \<open>Properties\<close>




definition demo_encoder :: encoder where
  "demo_encoder = \<lparr> es_stationary_timeout_ns = 500000000, es_maxlen = 5,
     es_edge_timestamps_ns = [], es_last_edge_ns = None, es_stationary = True,
     es_active_direction = 0, es_latest_nonzero_direction = 0 \<rparr>"



text \<open>Times of the inputs that carry one.\<close>

fun input_times :: "encoder_input list \<Rightarrow> int list" where
  "input_times [] = []"
| "input_times (EN_direction d # is) = input_times is"
| "input_times (EN_edge t # is) = t # input_times is"
| "input_times (EN_measure t # is) = t # input_times is"

text \<open>The wheel is turning since an edge at \<open>t0\<close>, seen up to time \<open>t\<close>.\<close>

definition turning_since :: "encoder \<Rightarrow> int \<Rightarrow> int \<Rightarrow> bool" where
  "turning_since e t0 t = (\<not> es_stationary e \<and> 0 < es_stationary_timeout_ns e
     \<and> (\<exists>l. es_last_edge_ns e = Some l \<and> t0 \<le> l \<and> l \<le> t))"

lemma turning_step:
  assumes "turning_since e t0 t" "t \<le> u" "u < t0 + es_stationary_timeout_ns e"
    and "i = EN_edge u \<or> i = EN_measure u"
  shows "turning_since (encoder_step e i) t0 u"
    "es_active_direction (encoder_step e i) = es_active_direction e"
    "es_stationary_timeout_ns (encoder_step e i) = es_stationary_timeout_ns e"
proof -
  obtain l where l: "es_last_edge_ns e = Some l" "t0 \<le> l" "l \<le> u" "u - l < es_stationary_timeout_ns e"
    "\<not> es_stationary e" "0 < es_stationary_timeout_ns e"
    using assms(1-3) by (auto simp: turning_since_def)
  have "turning_since (encoder_step e i) t0 u
    \<and> es_active_direction (encoder_step e i) = es_active_direction e
    \<and> es_stationary_timeout_ns (encoder_step e i) = es_stationary_timeout_ns e"
  proof (cases "i = EN_edge u")
    case True
    then show ?thesis using l
      by (auto simp: record_edge_def too_close_def pulse_gap_def prune_history_def turning_since_def
          Let_def)
  next
    case False
    then have i: "i = EN_measure u" using assms(4) by simp
    show ?thesis
    proof (cases "take_measurement e u")
      case (Inl x)
      then show ?thesis using i l by (auto simp: turning_since_def)
    next
      case (Inr r)
      obtain e' m where r: "r = (e', m)" by fastforce
      from Inr r have "take_measurement e u = Inr (e', m)" by simp
      then show ?thesis
      proof (cases rule: measurement_elim)
        case (rest k)
        then show ?thesis using l by simp
      next
        case (turning t')
        then show ?thesis using i Inr r l by (simp add: turning_since_def prune_history_def)
      qed
    qed
  qed
  then show "turning_since (encoder_step e i) t0 u"
    "es_active_direction (encoder_step e i) = es_active_direction e"
    "es_stationary_timeout_ns (encoder_step e i) = es_stationary_timeout_ns e" by simp_all
qed

lemma turning_run:
  "turning_since e t0 t \<Longrightarrow> sorted (t # input_times is) \<Longrightarrow>
     \<forall>u \<in> set (input_times is). u < t0 + es_stationary_timeout_ns e \<Longrightarrow>
     es_active_direction (run_steps encoder_step e is) = es_active_direction e"
proof (induction "is" arbitrary: e t rule: input_times.induct)
  case (2 d "is")
  then have "turning_since (encoder_step e (EN_direction d)) t0 t"
    "es_stationary_timeout_ns (encoder_step e (EN_direction d)) = es_stationary_timeout_ns e"
    "es_active_direction (encoder_step e (EN_direction d)) = es_active_direction e"
    by (auto simp: turning_since_def update_direction_def)
  then show ?case using 2 by simp
next
  case (3 u "is")
  note s = turning_step [OF 3(2), of u "EN_edge u"]
  show ?case using 3(1) [of "encoder_step e (EN_edge u)" u] 3(3,4) s by (simp add: sorted_wrt.simps)
next
  case (4 u "is")
  note s = turning_step [OF 4(2), of u "EN_measure u"]
  show ?case using 4(1) [of "encoder_step e (EN_measure u)" u] 4(3,4) s by (simp add: sorted_wrt.simps)
qed simp

text \<open>
  The active direction is latched while the wheel turns: from an accepted
  edge at \<open>t0\<close> on, no sequence of direction messages, edges and measurements
  in time order that stays within the stationary timeout after \<open>t0\<close> changes
  the direction attributed to the pulses.
\<close>

theorem direction_latched_while_turning:
  assumes "\<not> too_close e t0" "0 < es_stationary_timeout_ns e"
    and "sorted (t0 # input_times is)"
    and "\<forall>u \<in> set (input_times is). u < t0 + es_stationary_timeout_ns e"
  shows "es_active_direction (run_steps encoder_step (record_edge e t0) is)
    = (if es_stationary e \<or> pulse_gap e t0 then es_latest_nonzero_direction e
       else es_active_direction e)"
proof -
  have "turning_since (record_edge e t0) t0 t0"
    "es_stationary_timeout_ns (record_edge e t0) = es_stationary_timeout_ns e"
    "es_active_direction (record_edge e t0) = (if es_stationary e \<or> pulse_gap e t0
       then es_latest_nonzero_direction e else es_active_direction e)"
    using assms(1,2) by (simp_all add: turning_since_def record_edge_def prune_history_def Let_def)
  then show ?thesis using turning_run assms(3,4) by metis
qed

theorem direction_latched_while_turning_witness:
  "es_active_direction (run_steps encoder_step
     (record_edge (demo_encoder\<lparr>es_latest_nonzero_direction := 1\<rparr>) 0)
     [EN_direction (- 1), EN_edge 100000000, EN_measure 200000000]) = 1"
  using direction_latched_while_turning [of "demo_encoder\<lparr>es_latest_nonzero_direction := 1\<rparr>" 0
      "[EN_direction (- 1), EN_edge 100000000, EN_measure 200000000]"]
  by (simp add: demo_encoder_def too_close_def)

end
