(* ===== verification/MotorDriver.thy ===== *)
theory MotorDriver
  imports PyFloat
begin

text \<open>
  The motor and steering driver (\<open>runner_motor/motor_node.py\<close>). Attributes of
  \<open>MotorNode\<close> carry the prefix \<open>mn_\<close>. What the node writes to the PWM channels,
  to the direction line and to its topic is the list of effects a callback
  returns, in program order; \<open>hw_\<close> fields follow the last value written to each
  output. Reads of the PWM attributes are inputs.
\<close>

section \<open>Constants\<close>

definition MOTOR_PERIOD_NS :: int where "MOTOR_PERIOD_NS = 50000"
definition SERVO_PERIOD_NS :: int where "SERVO_PERIOD_NS = 20000000"
definition CMD_TIMEOUT_S :: pyfloat where "CMD_TIMEOUT_S = dbl (20 / 100)"
definition PWM_IO_ATTEMPTS :: nat where "PWM_IO_ATTEMPTS = 20"
definition DIR_FORWARD :: int where "DIR_FORWARD = 0"
definition DIR_REVERSE :: int where "DIR_REVERSE = 1"
definition STEER_CTR :: int where "STEER_CTR = 1500"
definition STEER_US :: int where "STEER_US = 450"
definition STEER_SIGN :: int where "STEER_SIGN = - 1"

lemmas motor_consts = MOTOR_PERIOD_NS_def SERVO_PERIOD_NS_def DIR_FORWARD_def DIR_REVERSE_def
  STEER_CTR_def STEER_US_def STEER_SIGN_def

section \<open>Command mapping\<close>

text \<open>\<open>us_to_ns\<close> of an integer number of microseconds.\<close>

definition us_to_ns :: "int \<Rightarrow> int" where
  "us_to_ns us = us * 1000"

definition map_motor_command :: "pyfloat \<Rightarrow> (int \<times> int) result" where
  "map_motor_command linear_x =
     (let x = (if \<not> isfinite linear_x then Fin 0 else linear_x);
          command = fmax (Fin (- 1)) (fmin (Fin 1) x);
          direction = (if flt (Fin 0) command then 1 else 0) - (if flt command (Fin 0) then 1 else 0)
      in bind_result (int_of_float (fmul (fabs command) (Fin (of_int MOTOR_PERIOD_NS)))) (\<lambda>duty.
           Inr (direction, duty)))"

definition steer_us :: "pyfloat \<Rightarrow> int result" where
  "steer_us angular_z =
     int_of_float (fadd (Fin (of_int STEER_CTR))
       (fmul (fmul (Fin (of_int STEER_SIGN)) (fmax (Fin (- 1)) (fmin (Fin 1) angular_z)))
             (Fin (of_int STEER_US))))"

section \<open>PWM attributes\<close>

text \<open>
  One attempt of a sysfs access succeeds or raises \<open>OSError\<close>; \<open>ENOENT\<close>, \<open>EACCES\<close> and
  \<open>EPERM\<close> are retried after a sleep, up to \<open>PWM_IO_ATTEMPTS\<close> attempts.
\<close>

datatype 'a io = IO_ok 'a | IO_transient | IO_error string

function retry_io_from :: "(nat \<Rightarrow> 'a io) \<Rightarrow> nat \<Rightarrow> 'a result" where
  "retry_io_from operation attempt =
     (if PWM_IO_ATTEMPTS \<le> attempt then Inl (RuntimeError ''no attempts'')
      else case operation attempt of
        IO_ok a \<Rightarrow> Inr a
      | IO_error e \<Rightarrow> Inl (OSError e)
      | IO_transient \<Rightarrow>
          if attempt = PWM_IO_ATTEMPTS - 1
          then Inl (RuntimeError ''PWM attribute did not become available'')
          else retry_io_from operation (attempt + 1))"
  by pat_completeness auto
termination
  by (relation "measure (\<lambda>(f, n). PWM_IO_ATTEMPTS - n)") auto

declare retry_io_from.simps [simp del]

definition retry_io :: "(nat \<Rightarrow> 'a io) \<Rightarrow> 'a result" where
  "retry_io operation = retry_io_from operation 0"

datatype pwm_write = W_period int | W_duty int | W_polarity string | W_enable | W_disable

record pwm_reading =
  pr_enabled :: bool
  pr_polarity :: string
  pr_period_ns :: int
  pr_duty_ns :: int

text \<open>\<open>initialize_pwm\<close>: the writes in order and the returned value or the exception.\<close>

definition initialize_pwm ::
  "pwm_reading \<Rightarrow> int \<Rightarrow> int \<Rightarrow> bool \<Rightarrow> pwm_write list \<times> bool result" where
  "initialize_pwm p target_period target_duty defer_enable =
     (if \<not> (0 \<le> target_duty \<and> target_duty \<le> target_period)
      then ([], Inl (ValueError ''PWM duty must be between zero and its period''))
      else if pr_enabled p
      then (if pr_polarity p \<noteq> ''normal''
            then ([W_duty 0], Inl (RuntimeError ''enabled PWM has unexpected polarity''))
            else ([W_duty 0, W_period target_period, W_duty target_duty], Inr False))
      else ((if pr_period_ns p = 0 then [W_period target_period] else [])
              @ (if pr_polarity p \<noteq> ''normal'' then [W_polarity ''normal''] else [])
              @ (if pr_period_ns p \<noteq> 0
                 then (if target_period < pr_duty_ns p then [W_duty 0] else [])
                        @ [W_period target_period]
                 else [])
              @ [W_duty target_duty]
              @ (if defer_enable then [] else [W_enable]),
            Inr True))"

section \<open>The node\<close>

record motor_node =
  mn_hardware_direction :: int
  mn_direction_latch :: int
  mn_pending_reversal :: "(int \<times> int) option"
  mn_last_cmd :: pyfloat
  mn_cmd_timed_out :: bool
  mn_stopped :: bool

datatype motor_effect =
    ME_motor pwm_write
  | ME_servo pwm_write
  | ME_dir int
  | ME_release
  | ME_publish int

text \<open>
  \<open>__init__\<close>: both channels are initialised, the direction line is requested
  with the forward value while the motor duty is zero, then the motor output
  is enabled and both periods are read back.
\<close>

definition new_motor_node ::
  "pwm_reading \<Rightarrow> pwm_reading \<Rightarrow> unit result \<Rightarrow> int \<Rightarrow> int \<Rightarrow> pyfloat
     \<Rightarrow> motor_effect list \<times> motor_node result" where
  "new_motor_node motor servo gpio motor_period servo_period now =
     (case initialize_pwm motor MOTOR_PERIOD_NS 0 True of
        (ws, Inl e) \<Rightarrow> (map ME_motor ws, Inl e)
      | (ws, Inr motor_needs_enable) \<Rightarrow>
         (case initialize_pwm servo SERVO_PERIOD_NS (us_to_ns STEER_CTR) False of
            (vs, Inl e) \<Rightarrow> (map ME_motor ws @ map ME_servo vs, Inl e)
          | (vs, Inr _) \<Rightarrow>
             (case gpio of
                Inl e \<Rightarrow> (map ME_motor ws @ map ME_servo vs, Inl e)
              | Inr _ \<Rightarrow>
                 (let es = map ME_motor ws @ map ME_servo vs @ [ME_dir DIR_FORWARD]
                             @ (if motor_needs_enable then [ME_motor W_enable] else [])
                  in if motor_period \<noteq> MOTOR_PERIOD_NS \<or> servo_period \<noteq> SERVO_PERIOD_NS
                     then (es, Inl (RuntimeError ''PWM period read-back failed''))
                     else (es @ [ME_publish 1],
                           Inr \<lparr> mn_hardware_direction = DIR_FORWARD, mn_direction_latch = 1,
                                 mn_pending_reversal = None, mn_last_cmd = now,
                                 mn_cmd_timed_out = False, mn_stopped = False \<rparr>)))))"

definition set_motor :: "motor_node \<Rightarrow> int \<Rightarrow> int \<Rightarrow> motor_node \<times> motor_effect list" where
  "set_motor m direction duty =
     (if direction = 0 then (m\<lparr>mn_pending_reversal := None\<rparr>, [ME_motor (W_duty 0)])
      else (let dir = (if 0 < direction then DIR_FORWARD else DIR_REVERSE) in
            if dir = mn_hardware_direction m
            then (m\<lparr>mn_pending_reversal := None\<rparr>, [ME_motor (W_duty duty)])
            else (m\<lparr>mn_pending_reversal := Some (dir, duty)\<rparr>, [ME_motor (W_duty 0)])))"

definition on_encoder_state :: "motor_node \<Rightarrow> bool \<Rightarrow> motor_node \<times> motor_effect list" where
  "on_encoder_state m stationary =
     (case mn_pending_reversal m of
        Some (dir, duty) \<Rightarrow>
          if \<not> stationary then (m, [])
          else (let latch = (if dir = DIR_FORWARD then 1 else - 1) in
                (m\<lparr>mn_hardware_direction := dir, mn_direction_latch := latch,
                   mn_pending_reversal := None\<rparr>,
                 [ME_motor (W_duty 0), ME_dir dir, ME_motor (W_duty duty), ME_publish latch]))
      | None \<Rightarrow> (m, []))"

definition on_cmd ::
  "motor_node \<Rightarrow> pyfloat \<Rightarrow> pyfloat \<Rightarrow> pyfloat \<Rightarrow> (motor_node \<times> motor_effect list) result" where
  "on_cmd m linear_x angular_z now =
     (let m1 = m\<lparr>mn_cmd_timed_out := False, mn_last_cmd := now\<rparr> in
      bind_result (map_motor_command linear_x) (\<lambda>(direction, duty).
        let (m2, es) = set_motor m1 direction duty in
        bind_result (steer_us angular_z) (\<lambda>us.
          Inr (m2, es @ [ME_publish (mn_direction_latch m2), ME_servo (W_duty (us_to_ns us))]))))"

definition watchdog :: "motor_node \<Rightarrow> pyfloat \<Rightarrow> motor_node \<times> motor_effect list" where
  "watchdog m now =
     (if fle (fsub now (mn_last_cmd m)) CMD_TIMEOUT_S then (m, [])
      else (m\<lparr>mn_pending_reversal := None, mn_cmd_timed_out := True\<rparr>,
            ME_motor (W_duty 0)
              # (if \<not> mn_cmd_timed_out m then [ME_publish (mn_direction_latch m)] else [])))"

definition stop :: "motor_node \<Rightarrow> motor_node \<times> motor_effect list" where
  "stop m =
     (if mn_stopped m then (m, [])
      else (m\<lparr>mn_pending_reversal := None, mn_stopped := True\<rparr>,
            [ME_motor (W_duty 0), ME_publish (mn_direction_latch m),
             ME_servo (W_duty (us_to_ns STEER_CTR)), ME_servo W_disable, ME_release]))"

section \<open>Ranges\<close>

lemma clamp_unit: "\<exists>q. fmax (Fin (- 1)) (fmin (Fin 1) x) = Fin q \<and> - 1 \<le> q \<and> q \<le> 1"
  using fclamp_Fin [of "- 1" 1 x] by (simp add: fclamp_def)

lemma trunc_rat_bounds: "of_int lo \<le> q \<Longrightarrow> q \<le> of_int hi \<Longrightarrow> lo \<le> trunc_rat q \<and> trunc_rat q \<le> hi"
  unfolding trunc_rat_def by (auto simp: floor_le_iff le_floor_iff) linarith+

lemma Fin_between:
  "fle (Fin a) x \<Longrightarrow> fle x (Fin b) \<Longrightarrow> \<exists>q. x = Fin q \<and> a \<le> q \<and> q \<le> b"
  by (cases x) auto

lemma dbl_between:
  "a \<le> q \<Longrightarrow> q \<le> b \<Longrightarrow> is_double a \<Longrightarrow> is_double b \<Longrightarrow> \<exists>r. dbl q = Fin r \<and> a \<le> r \<and> r \<le> b"
  by (intro Fin_between dbl_ge_double dbl_le_double)

lemma map_motor_command_total:
  "\<exists>d n. map_motor_command x = Inr (d, n) \<and> 0 \<le> n \<and> n \<le> MOTOR_PERIOD_NS \<and> d \<in> {- 1, 0, 1}
     \<and> (d = 1 \<longrightarrow> flt (Fin 0) x) \<and> (d = - 1 \<longrightarrow> flt x (Fin 0)) \<and> (\<not> isfinite x \<longrightarrow> d = 0)"
proof -
  define y where "y = (if \<not> isfinite x then Fin 0 else x)"
  obtain q where q: "fmax (Fin (- 1)) (fmin (Fin 1) y) = Fin q" "- 1 \<le> q" "q \<le> 1"
    using clamp_unit by blast
  have "\<bar>q\<bar> * 50000 \<le> 50000" using q by (simp add: abs_le_iff)
  then obtain r where r: "dbl (\<bar>q\<bar> * 50000) = Fin r" "0 \<le> r" "r \<le> 50000"
    using dbl_between [of 0 "\<bar>q\<bar> * 50000" 50000] by auto
  have t: "0 \<le> trunc_rat r \<and> trunc_rat r \<le> 50000" using trunc_rat_bounds [of 0 r 50000] r by simp
  have s: "0 < q \<longrightarrow> flt (Fin 0) x" "q < 0 \<longrightarrow> flt x (Fin 0)" "\<not> isfinite x \<longrightarrow> q = 0"
    using q by (cases x; auto simp: y_def fmax_def fmin_def split: if_splits)+
  have "map_motor_command x = Inr ((if 0 < q then 1 else 0) - (if q < 0 then 1 else 0), trunc_rat r)"
    unfolding map_motor_command_def Let_def y_def [symmetric] q(1)
    using r(1) by (simp add: motor_consts)
  then show ?thesis using t s by (auto simp: motor_consts)
qed

lemma steer_us_total: "\<exists>us. steer_us z = Inr us \<and> 1050 \<le> us \<and> us \<le> 1950"
proof -
  obtain q where q: "fmax (Fin (- 1)) (fmin (Fin 1) z) = Fin q" "- 1 \<le> q" "q \<le> 1"
    using clamp_unit by blast
  obtain a where a: "dbl (- q) = Fin a" "- 1 \<le> a" "a \<le> 1"
    using dbl_between [of "- 1" "- q" 1] q by auto
  obtain b where b: "dbl (a * 450) = Fin b" "- 450 \<le> b" "b \<le> 450"
    using dbl_between [of "- 450" "a * 450" 450] a by auto
  obtain c where c: "dbl (1500 + b) = Fin c" "1050 \<le> c" "c \<le> 1950"
    using dbl_between [of 1050 "1500 + b" 1950] b by auto
  have "steer_us z = Inr (trunc_rat c)"
    unfolding steer_us_def q(1) by (simp add: motor_consts a(1) b(1) c(1))
  then show ?thesis using trunc_rat_bounds [of 1050 c 1950] c by auto
qed

section \<open>Outputs as written\<close>

record hardware =
  hw_motor_duty :: int
  hw_servo_duty :: int
  hw_direction :: int

fun apply_effect :: "hardware \<Rightarrow> motor_effect \<Rightarrow> hardware" where
  "apply_effect h (ME_motor (W_duty n)) = h\<lparr>hw_motor_duty := n\<rparr>"
| "apply_effect h (ME_servo (W_duty n)) = h\<lparr>hw_servo_duty := n\<rparr>"
| "apply_effect h (ME_dir d) = h\<lparr>hw_direction := d\<rparr>"
| "apply_effect h _ = h"

text \<open>Along a list of effects the direction line is written only at zero motor duty.\<close>

fun brake_before_dir :: "hardware \<Rightarrow> motor_effect list \<Rightarrow> bool" where
  "brake_before_dir h [] = True"
| "brake_before_dir h (x # xs) =
     ((case x of ME_dir d \<Rightarrow> hw_motor_duty h = 0 | _ \<Rightarrow> True) \<and> brake_before_dir (apply_effect h x) xs)"

datatype motor_input =
    MI_cmd pyfloat pyfloat pyfloat
  | MI_encoder bool
  | MI_watchdog pyfloat
  | MI_stop

fun motor_effects :: "motor_node \<Rightarrow> motor_input \<Rightarrow> motor_node \<times> motor_effect list" where
  "motor_effects m (MI_cmd x z now) =
     (case on_cmd m x z now of Inl e \<Rightarrow> (m, []) | Inr r \<Rightarrow> r)"
| "motor_effects m (MI_encoder s) = on_encoder_state m s"
| "motor_effects m (MI_watchdog now) = watchdog m now"
| "motor_effects m MI_stop = stop m"

definition motor_step :: "motor_node \<times> hardware \<Rightarrow> motor_input \<Rightarrow> motor_node \<times> hardware" where
  "motor_step s i = (let (m', es) = motor_effects (fst s) i in (m', foldl apply_effect (snd s) es))"

definition mn_inv :: "motor_node \<times> hardware \<Rightarrow> bool" where
  "mn_inv s = (let m = fst s; h = snd s in
     hw_direction h = mn_hardware_direction m
     \<and> mn_hardware_direction m \<in> {DIR_FORWARD, DIR_REVERSE}
     \<and> mn_direction_latch m = (if mn_hardware_direction m = DIR_FORWARD then 1 else - 1)
     \<and> 0 \<le> hw_motor_duty h \<and> hw_motor_duty h \<le> MOTOR_PERIOD_NS
     \<and> 1050000 \<le> hw_servo_duty h \<and> hw_servo_duty h \<le> 1950000
     \<and> (\<forall>d n. mn_pending_reversal m = Some (d, n) \<longrightarrow> d \<in> {DIR_FORWARD, DIR_REVERSE}
          \<and> d \<noteq> mn_hardware_direction m \<and> hw_motor_duty h = 0 \<and> 0 \<le> n \<and> n \<le> MOTOR_PERIOD_NS))"

definition mn_initial :: "motor_node \<times> hardware \<Rightarrow> bool" where
  "mn_initial s = (\<exists>motor servo gpio mp sp now h es.
     new_motor_node motor servo gpio mp sp now = (es, Inr (fst s)) \<and> snd s = foldl apply_effect h es)"

lemma on_cmd_elim:
  obtains d n us where "map_motor_command x = Inr (d, n)" "steer_us z = Inr us"
    "on_cmd m x z now = Inr (let (m2, es) = set_motor (m\<lparr>mn_cmd_timed_out := False, mn_last_cmd := now\<rparr>) d n
       in (m2, es @ [ME_publish (mn_direction_latch m2), ME_servo (W_duty (us_to_ns us))]))"
    "0 \<le> n" "n \<le> MOTOR_PERIOD_NS" "1050 \<le> us" "us \<le> 1950" "d \<in> {- 1, 0, 1}"
    "d = 1 \<longrightarrow> flt (Fin 0) x" "d = - 1 \<longrightarrow> flt x (Fin 0)"
proof -
  obtain d n where d: "map_motor_command x = Inr (d, n)" "0 \<le> n" "n \<le> MOTOR_PERIOD_NS"
    "d \<in> {- 1, 0, 1}" "d = 1 \<longrightarrow> flt (Fin 0) x" "d = - 1 \<longrightarrow> flt x (Fin 0)"
    using map_motor_command_total [of x] by blast
  obtain us where us: "steer_us z = Inr us" "1050 \<le> us" "us \<le> 1950" using steer_us_total by blast
  show thesis
    using that [OF d(1) us(1) _ d(2,3) us(2,3) d(4,5,6)]
    by (simp add: on_cmd_def d(1) us(1) Let_def split_beta)
qed

lemma motor_step_inv:
  assumes "mn_inv s"
  shows "mn_inv (motor_step s i)"
proof (cases i)
  case (MI_cmd x z now)
  obtain d n us where c: "map_motor_command x = Inr (d, n)" "steer_us z = Inr us"
    "on_cmd (fst s) x z now = Inr (let (m2, es) = set_motor ((fst s)\<lparr>mn_cmd_timed_out := False, mn_last_cmd := now\<rparr>) d n
       in (m2, es @ [ME_publish (mn_direction_latch m2), ME_servo (W_duty (us_to_ns us))]))"
    "0 \<le> n" "n \<le> MOTOR_PERIOD_NS" "1050 \<le> us" "us \<le> 1950"
    by (rule on_cmd_elim)
  then show ?thesis using assms MI_cmd
    by (auto simp: motor_step_def mn_inv_def set_motor_def us_to_ns_def motor_consts Let_def)
next
  case (MI_encoder st)
  then show ?thesis using assms
    by (auto simp: motor_step_def mn_inv_def on_encoder_state_def Let_def motor_consts split: option.split)
next
  case (MI_watchdog now)
  then show ?thesis using assms
    by (auto simp: motor_step_def mn_inv_def watchdog_def Let_def motor_consts)
next
  case MI_stop
  then show ?thesis using assms
    by (auto simp: motor_step_def mn_inv_def stop_def Let_def motor_consts us_to_ns_def)
qed

lemma initialize_motor_duty:
  "initialize_pwm p t 0 b = (ws, Inr r) \<Longrightarrow> foldl apply_effect h (map ME_motor ws) = h\<lparr>hw_motor_duty := 0\<rparr>"
  by (auto simp: initialize_pwm_def split: if_splits)

lemma initialize_servo_duty:
  "initialize_pwm p t n b = (ws, Inr r) \<Longrightarrow> foldl apply_effect h (map ME_servo ws) = h\<lparr>hw_servo_duty := n\<rparr>"
  by (auto simp: initialize_pwm_def split: if_splits)

lemma new_motor_node_inv:
  assumes "mn_initial s"
  shows "mn_inv s"
proof -
  obtain motor servo gpio mp sp now h es where
    n: "new_motor_node motor servo gpio mp sp now = (es, Inr (fst s))" "snd s = foldl apply_effect h es"
    using assms by (auto simp: mn_initial_def)
  obtain ws r vs q where w: "initialize_pwm motor MOTOR_PERIOD_NS 0 True = (ws, Inr r)"
    "initialize_pwm servo SERVO_PERIOD_NS (us_to_ns STEER_CTR) False = (vs, Inr q)"
    using n(1) by (auto simp: new_motor_node_def split: prod.splits sum.splits)
  have es: "es = map ME_motor ws @ map ME_servo vs @ [ME_dir DIR_FORWARD]
      @ (if r then [ME_motor W_enable] else []) @ [ME_publish 1]"
    and m: "fst s = \<lparr> mn_hardware_direction = DIR_FORWARD, mn_direction_latch = 1,
       mn_pending_reversal = None, mn_last_cmd = now, mn_cmd_timed_out = False, mn_stopped = False \<rparr>"
    using n(1) by (auto simp: new_motor_node_def w Let_def split: sum.splits if_splits)
  have "snd s = h\<lparr>hw_motor_duty := 0, hw_servo_duty := us_to_ns STEER_CTR, hw_direction := DIR_FORWARD\<rparr>"
    unfolding n(2) es
    by (simp add: initialize_motor_duty [OF w(1)] initialize_servo_duty [OF w(2)])
  then show ?thesis by (simp add: mn_inv_def m motor_consts us_to_ns_def)
qed

interpretation motor: machine mn_initial motor_step mn_inv
  by unfold_locales (simp_all add: new_motor_node_inv motor_step_inv)

section \<open>Properties\<close>

definition demo_reading :: pwm_reading where
  "demo_reading = \<lparr> pr_enabled = False, pr_polarity = ''normal'', pr_period_ns = 0, pr_duty_ns = 0 \<rparr>"

definition demo_motor :: "motor_node \<times> hardware" where
  "demo_motor =
     (\<lparr> mn_hardware_direction = 0, mn_direction_latch = 1, mn_pending_reversal = None,
        mn_last_cmd = Fin 0, mn_cmd_timed_out = False, mn_stopped = False \<rparr>,
      \<lparr> hw_motor_duty = 0, hw_servo_duty = 1500000, hw_direction = 0 \<rparr>)"

lemma demo_motor_initial: "mn_initial demo_motor"
proof -
  have "new_motor_node demo_reading demo_reading (Inr ()) 50000 20000000 (Fin 0)
      = ([ME_motor (W_period 50000), ME_motor (W_duty 0), ME_servo (W_period 20000000),
          ME_servo (W_duty 1500000), ME_servo W_enable, ME_dir 0, ME_motor W_enable, ME_publish 1],
         Inr (fst demo_motor))"
    by (simp add: new_motor_node_def initialize_pwm_def demo_reading_def demo_motor_def motor_consts
        us_to_ns_def)
  moreover have "snd demo_motor = foldl apply_effect \<lparr> hw_motor_duty = 7, hw_servo_duty = 0, hw_direction = 1 \<rparr>
      [ME_motor (W_period 50000), ME_motor (W_duty 0), ME_servo (W_period 20000000),
          ME_servo (W_duty 1500000), ME_servo W_enable, ME_dir 0, ME_motor W_enable, ME_publish 1]"
    by (simp add: demo_motor_def)
  ultimately show ?thesis unfolding mn_initial_def by blast
qed

text \<open>
  C21. Reversal interlock: after any history of commands, encoder samples and
  watchdog ticks, a callback changes the direction line only while the last
  motor duty written is zero, and only when a stationary encoder sample
  answers a pending reversal.
\<close>

theorem direction_changes_only_when_braked:
  assumes "mn_initial s0" "s = run_steps motor_step s0 is"
  shows "brake_before_dir (snd s) (snd (motor_effects (fst s) i))
    \<and> (hw_direction (snd (motor_step s i)) \<noteq> hw_direction (snd s)
        \<longrightarrow> i = MI_encoder True \<and> mn_pending_reversal (fst s) \<noteq> None)"
proof (cases i)
  case (MI_cmd x z now)
  obtain d n us where c: "map_motor_command x = Inr (d, n)" "steer_us z = Inr us"
    "on_cmd (fst s) x z now = Inr (let (m2, es) = set_motor ((fst s)\<lparr>mn_cmd_timed_out := False, mn_last_cmd := now\<rparr>) d n
       in (m2, es @ [ME_publish (mn_direction_latch m2), ME_servo (W_duty (us_to_ns us))]))"
    by (rule on_cmd_elim)
  then show ?thesis using MI_cmd by (auto simp: motor_step_def set_motor_def Let_def)
next
  case (MI_encoder st)
  then show ?thesis
    by (auto simp: motor_step_def on_encoder_state_def Let_def split: option.split)
qed (auto simp: motor_step_def watchdog_def stop_def Let_def)

text \<open>Full reverse from forward: the command brakes and waits, the stationary sample then turns the line.\<close>

definition demo_reversing :: "motor_node \<times> hardware" where
  "demo_reversing = run_steps motor_step demo_motor [MI_cmd (Fin (- 1)) (Fin 0) (Fin 1)]"

lemma demo_reversing_value:
  "fst demo_reversing = (fst demo_motor)\<lparr>mn_pending_reversal := Some (1, 50000), mn_last_cmd := Fin 1\<rparr>"
  "snd demo_reversing = snd demo_motor"
proof -
  have "map_motor_command (Fin (- 1)) = Inr (- 1, 50000)" "steer_us (Fin 0) = Inr 1500"
    by (simp_all add: map_motor_command_def steer_us_def motor_consts dbl_is_double trunc_rat_def Let_def)
  then show "fst demo_reversing = (fst demo_motor)\<lparr>mn_pending_reversal := Some (1, 50000), mn_last_cmd := Fin 1\<rparr>"
    "snd demo_reversing = snd demo_motor"
    by (simp_all add: demo_reversing_def demo_motor_def motor_step_def on_cmd_def set_motor_def motor_consts us_to_ns_def Let_def)
qed

theorem direction_changes_only_when_braked_witness:
  "snd (motor_effects (fst demo_reversing) (MI_encoder True))
     = [ME_motor (W_duty 0), ME_dir DIR_REVERSE, ME_motor (W_duty 50000), ME_publish (- 1)]
   \<and> brake_before_dir (snd demo_reversing) [ME_motor (W_duty 0), ME_dir DIR_REVERSE, ME_motor (W_duty 50000), ME_publish (- 1)]
   \<and> hw_direction (snd demo_reversing) = DIR_FORWARD
   \<and> hw_direction (snd (motor_step demo_reversing (MI_encoder True))) = DIR_REVERSE
   \<and> mn_pending_reversal (fst demo_reversing) \<noteq> None"
proof -
  have es: "snd (motor_effects (fst demo_reversing) (MI_encoder True))
      = [ME_motor (W_duty 0), ME_dir DIR_REVERSE, ME_motor (W_duty 50000), ME_publish (- 1)]"
    by (simp add: demo_reversing_value on_encoder_state_def motor_consts Let_def)
  moreover have "hw_direction (snd demo_reversing) = DIR_FORWARD"
    "hw_direction (snd (motor_step demo_reversing (MI_encoder True))) = DIR_REVERSE"
    by (simp_all add: demo_reversing_value motor_step_def on_encoder_state_def demo_motor_def motor_consts Let_def)
  ultimately show ?thesis
    using direction_changes_only_when_braked [OF demo_motor_initial demo_reversing_def, of "MI_encoder True"]
    by (simp add: motor_consts)
qed

text \<open>
  Output ranges: whatever is commanded (infinities and NaN included), the
  motor duty written stays between zero and the PWM period, the servo pulse
  between 1050 and 1950 microseconds, the published direction matches the
  direction line, and while a reversal is pending the motor is braked.
\<close>

theorem motor_outputs_in_range:
  assumes "mn_initial s0" "s = run_steps motor_step s0 is"
  shows "0 \<le> hw_motor_duty (snd s) \<and> hw_motor_duty (snd s) \<le> MOTOR_PERIOD_NS
    \<and> us_to_ns 1050 \<le> hw_servo_duty (snd s) \<and> hw_servo_duty (snd s) \<le> us_to_ns 1950
    \<and> mn_direction_latch (fst s) = (if hw_direction (snd s) = DIR_FORWARD then 1 else - 1)
    \<and> (mn_pending_reversal (fst s) \<noteq> None \<longrightarrow> hw_motor_duty (snd s) = 0)"
  using motor.invar_reachable [OF assms(1), of "is"] assms(2)
  by (auto simp: mn_inv_def Let_def us_to_ns_def)

theorem motor_outputs_in_range_witness:
  "hw_motor_duty (snd (run_steps motor_step demo_motor [MI_cmd PInf NaN (Fin 1)])) \<le> MOTOR_PERIOD_NS"
  using motor_outputs_in_range [OF demo_motor_initial refl, of "[MI_cmd PInf NaN (Fin 1)]"] by simp

definition is_command :: "motor_input \<Rightarrow> bool" where
  "is_command i = (case i of MI_cmd x z now \<Rightarrow> True | _ \<Rightarrow> False)"

definition braked :: "motor_node \<times> hardware \<Rightarrow> bool" where
  "braked s = (hw_motor_duty (snd s) = 0 \<and> mn_pending_reversal (fst s) = None)"

lemma braked_step: "braked s \<Longrightarrow> \<not> is_command i \<Longrightarrow> braked (motor_step s i)"
  by (cases i) (auto simp: braked_def is_command_def motor_step_def on_encoder_state_def watchdog_def
      stop_def Let_def)

lemma braked_run: "braked s \<Longrightarrow> \<forall>i \<in> set is. \<not> is_command i \<Longrightarrow> braked (run_steps motor_step s is)"
  by (induction "is" arbitrary: s) (simp_all add: braked_step)

text \<open>
  C22. Watchdog: once no command arrived for more than the timeout, a watchdog
  tick brakes the motor and forgets a pending reversal, and no encoder sample,
  further tick or shutdown re-energises it: the duty stays zero until the
  next command.
\<close>

theorem watchdog_brakes_until_next_command:
  assumes "flt CMD_TIMEOUT_S (fsub now (mn_last_cmd (fst s)))"
    and "\<forall>i \<in> set is. \<not> is_command i"
  shows "hw_motor_duty (snd (run_steps motor_step (motor_step s (MI_watchdog now)) is)) = 0"
proof -
  have "\<not> fle (fsub now (mn_last_cmd (fst s))) CMD_TIMEOUT_S" using assms(1) flt_not_fle by blast
  then have "braked (motor_step s (MI_watchdog now))"
    by (simp add: braked_def motor_step_def watchdog_def Let_def)
  then show ?thesis using braked_run assms(2) by (simp add: braked_def)
qed

lemma timeout_lt_one: "flt CMD_TIMEOUT_S (Fin 1)"
proof -
  have "fle (dbl (20 / 100)) (Fin (1 / 2))" by (intro dbl_le_double) simp_all
  then show ?thesis unfolding CMD_TIMEOUT_S_def by (rule fle_flt_trans) simp
qed

theorem watchdog_brakes_until_next_command_witness:
  "hw_motor_duty (snd (run_steps motor_step (motor_step
     ((fst demo_motor)\<lparr>mn_pending_reversal := Some (1, 9000)\<rparr>, snd demo_motor) (MI_watchdog (Fin 1)))
     [MI_encoder True])) = 0"
  using watchdog_brakes_until_next_command [of "Fin 1"
      "((fst demo_motor)\<lparr>mn_pending_reversal := Some (1, 9000)\<rparr>, snd demo_motor)" "[MI_encoder True]"]
    timeout_lt_one
  by (simp add: demo_motor_def is_command_def)

text \<open>
  The order the comments of \<open>initialize_pwm\<close> ask for: the duty never exceeds the
  period in force, a fresh channel (period zero) takes nothing but a period
  first, and the polarity is not touched while the output is enabled.
\<close>

record channel =
  ch_enabled :: bool
  ch_period :: int
  ch_duty :: int

fun write_ok :: "channel \<Rightarrow> pwm_write \<Rightarrow> bool" where
  "write_ok c (W_period n) = (0 < n \<and> ch_duty c \<le> n)"
| "write_ok c (W_duty n) = (0 \<le> n \<and> n \<le> ch_period c)"
| "write_ok c (W_polarity s) = (\<not> ch_enabled c \<and> ch_period c \<noteq> 0)"
| "write_ok c W_enable = (ch_period c \<noteq> 0)"
| "write_ok c W_disable = True"

fun write_channel :: "channel \<Rightarrow> pwm_write \<Rightarrow> channel" where
  "write_channel c (W_period n) = c\<lparr>ch_period := n\<rparr>"
| "write_channel c (W_duty n) = c\<lparr>ch_duty := n\<rparr>"
| "write_channel c (W_polarity s) = c"
| "write_channel c W_enable = c\<lparr>ch_enabled := True\<rparr>"
| "write_channel c W_disable = c\<lparr>ch_enabled := False\<rparr>"

fun writes_ok :: "channel \<Rightarrow> pwm_write list \<Rightarrow> bool" where
  "writes_ok c [] = True"
| "writes_ok c (w # ws) = (write_ok c w \<and> writes_ok (write_channel c w) ws)"

definition channel_of :: "pwm_reading \<Rightarrow> channel" where
  "channel_of p = \<lparr> ch_enabled = pr_enabled p, ch_period = pr_period_ns p, ch_duty = pr_duty_ns p \<rparr>"

text \<open>
  Initialisation of a PWM channel never passes through an invalid state:
  from any consistent reading each write respects the rules above, a hot
  channel is braked by the very first write, and when the function returns
  the channel has the requested period and duty.
\<close>

theorem initialize_pwm_is_safe:
  assumes "0 \<le> target_duty" "target_duty \<le> target_period" "0 < target_period"
    and "0 \<le> pr_duty_ns p" "pr_duty_ns p \<le> pr_period_ns p" "pr_enabled p \<longrightarrow> 0 < pr_period_ns p"
    and "initialize_pwm p target_period target_duty deferred = (ws, r)"
  shows "writes_ok (channel_of p) ws
    \<and> (pr_enabled p \<longrightarrow> hd ws = W_duty 0)
    \<and> (\<forall>b. r = Inr b \<longrightarrow> b = (\<not> pr_enabled p)
         \<and> ch_period (foldl write_channel (channel_of p) ws) = target_period
         \<and> ch_duty (foldl write_channel (channel_of p) ws) = target_duty)"
  using assms by (auto simp: initialize_pwm_def channel_of_def split: if_splits)

theorem initialize_pwm_is_safe_witness:
  "writes_ok (channel_of demo_reading) [W_period 50000, W_duty 0]"
  using initialize_pwm_is_safe [of 0 50000 demo_reading True "[W_period 50000, W_duty 0]" "Inr True"]
  by (simp add: demo_reading_def initialize_pwm_def)

definition first_success :: "(nat \<Rightarrow> 'a io) \<Rightarrow> nat \<Rightarrow> 'a \<Rightarrow> nat \<Rightarrow> bool" where
  "first_success operation i a k = (k < PWM_IO_ATTEMPTS \<and> i \<le> k \<and> operation k = IO_ok a
     \<and> (\<forall>j. i \<le> j \<and> j < k \<longrightarrow> operation j = IO_transient))"

lemma first_success_now:
  "operation i \<noteq> IO_transient \<Longrightarrow> first_success operation i a k \<Longrightarrow> k = i"
  unfolding first_success_def by (metis le_neq_implies_less order_refl)

lemma first_success_later:
  "operation i = IO_transient \<Longrightarrow> first_success operation i a k = first_success operation (i + 1) a k"
  unfolding first_success_def by (cases "k = i") (auto simp: Suc_le_eq nat_less_le)

lemma retry_io_from_iff:
  "retry_io_from operation i = Inr a \<longleftrightarrow> (\<exists>k. first_success operation i a k)"
proof (induction operation i rule: retry_io_from.induct)
  case (1 operation i)
  show ?case
  proof (cases "i < PWM_IO_ATTEMPTS \<and> operation i = IO_transient")
    case True
    then have "retry_io_from operation i = Inr a \<longleftrightarrow>
        i \<noteq> PWM_IO_ATTEMPTS - 1 \<and> retry_io_from operation (i + 1) = Inr a"
      by (simp add: retry_io_from.simps [of operation i])
    also have "\<dots> \<longleftrightarrow> (\<exists>k. first_success operation (i + 1) a k)"
      using 1 True by (auto simp: first_success_def)
    finally show ?thesis using first_success_later True by metis
  next
    case False
    then have "(\<exists>k. first_success operation i a k) \<longleftrightarrow> i < PWM_IO_ATTEMPTS \<and> operation i = IO_ok a"
      using first_success_now [of operation i a] by (fastforce simp: first_success_def)
    then show ?thesis using False
      by (cases "operation i") (simp_all add: retry_io_from.simps [of operation i] not_less)
  qed
qed

text \<open>
  C23. A retried sysfs access ends after at most twenty attempts, returns the
  value of the first attempt that succeeds when only transient errors came
  before it, and raises when a permanent error comes first or every attempt
  fails.
\<close>

theorem retry_returns_first_success:
  "retry_io operation = Inr a \<longleftrightarrow>
     (\<exists>k < PWM_IO_ATTEMPTS. operation k = IO_ok a \<and> (\<forall>j < k. operation j = IO_transient))"
  by (simp add: retry_io_def retry_io_from_iff first_success_def)

definition demo_io_attempts :: "nat \<Rightarrow> int io" where
  "demo_io_attempts k = (if k < 2 then IO_transient else IO_ok 7)"

theorem retry_returns_first_success_witness: "retry_io demo_io_attempts = Inr 7"
  using retry_returns_first_success [of demo_io_attempts 7]
  by (auto simp: demo_io_attempts_def PWM_IO_ATTEMPTS_def intro!: exI [of _ 2])

text \<open>
  A NaN yaw command is clamped to full lock instead of being neutralised: the
  Python expression \<open>max(-1.0, min(1.0, x))\<close> yields 1.0 for NaN, while the throttle
  path maps non-finite values to zero.
\<close>

lemma nan_steering_is_full_lock: "steer_us NaN = Inr 1050 \<and> map_motor_command NaN = Inr (0, 0)"
  by (simp add: steer_us_def map_motor_command_def fmax_def fmin_def motor_consts Let_def trunc_rat_def)

end
