(* ===== verification/NavigationRuntime.thy ===== *)
theory NavigationRuntime
  imports PyFloat
begin

text \<open>
  The mission lifecycle of the navigation runtime
  (\<open>runner_bringup/navigation_runtime.py\<close>, class \<open>MissionRuntime\<close> and its data).
  Attributes of \<open>MissionRuntime\<close> carry the prefix \<open>mr_\<close>, fields of a mission
  \<open>ms_\<close>, of a pose \<open>mp_\<close>, of the failure signature \<open>fd_\<close>. The \<open>now\<close> arguments of
  the methods are not read by them and are left out. What comes from outside
  the repository (the math library, the constants and error tables of
  \<open>action_msgs\<close> and \<open>nav2_msgs\<close>) is the record \<open>nav_env\<close>, an argument of the
  operations that use it.
\<close>

section \<open>Environment\<close>

record nav_env =
  ne_sum :: "pyfloat list \<Rightarrow> pyfloat"
  ne_sqrt :: "pyfloat \<Rightarrow> pyfloat"
  ne_hypot :: "pyfloat \<Rightarrow> pyfloat \<Rightarrow> pyfloat"
  ne_atan2 :: "pyfloat \<Rightarrow> pyfloat \<Rightarrow> pyfloat"
  ne_sin :: "pyfloat \<Rightarrow> pyfloat"
  ne_cos :: "pyfloat \<Rightarrow> pyfloat"
  ne_error_names :: "int \<Rightarrow> string option"
  ne_status_names :: "int \<Rightarrow> string option"
  ne_STATUS_ACCEPTED :: int
  ne_STATUS_EXECUTING :: int
  ne_STATUS_SUCCEEDED :: int
  ne_STATUS_CANCELED :: int
  ne_STATUS_ABORTED :: int

definition MISSION_SINGLE_GOAL :: int where "MISSION_SINGLE_GOAL = 0"
definition MISSION_ORDERED_POSES :: int where "MISSION_ORDERED_POSES = 1"
definition MAP_FRAME :: string where "MAP_FRAME = ''map''"

definition REDISPATCH_POSITION_TOLERANCE_M :: pyfloat where
  "REDISPATCH_POSITION_TOLERANCE_M = dbl (10 / 100)"

text \<open>\<open>math.radians(10.0)\<close>: ten times the rounded quotient of \<open>math.pi\<close> and 180.\<close>

definition REDISPATCH_YAW_TOLERANCE_RAD :: pyfloat where
  "REDISPATCH_YAW_TOLERANCE_RAD = fmul (Fin 10) (dbl (884279719003555 / 2 ^ 48 / 180))"

definition nav2_error_detail :: "nav_env \<Rightarrow> int \<Rightarrow> string \<Rightarrow> string" where
  "nav2_error_detail env code error_msg =
     (let name = (case ne_error_names env code of None \<Rightarrow> ''UNKNOWN'' | Some n \<Rightarrow> n);
          summary = name @ '' ('' @ str_of_int code @ '')'';
          detail = py_strip error_msg
      in if detail \<noteq> [] \<and> detail \<notin> {name, summary} then summary @ '': '' @ detail else summary)"

section \<open>Data\<close>

datatype mission_state =
  MS_IDLE | MS_DISPATCHING | MS_ACTIVE | MS_CANCELING | MS_SUCCEEDED | MS_FAILED | MS_CANCELED

text \<open>
  A pose: the tuples always have three and four components, as
  \<open>_pose_from_message\<close> and \<open>_pose_from_odometry\<close> build them.
\<close>

record mission_pose =
  mp_frame_id :: string
  mp_position :: "pyfloat \<times> pyfloat \<times> pyfloat"
  mp_orientation :: "pyfloat \<times> pyfloat \<times> pyfloat \<times> pyfloat"

definition pose_is_valid :: "nav_env \<Rightarrow> string \<Rightarrow> mission_pose \<Rightarrow> bool" where
  "pose_is_valid env expected_frame p =
     (let (px, py, pz) = mp_position p; (x, y, z, w) = mp_orientation p in
      if \<not> list_all isfinite [px, py, pz, x, y, z, w] then False
      else if flt (ne_sqrt env (ne_sum env [fmul x x, fmul y y, fmul z z, fmul w w])) (dbl (1 / 10 ^ 6))
      then False
      else mp_frame_id p = expected_frame)"

record mission =
  ms_mission_id :: string
  ms_revision :: int
  ms_runtime_epoch :: int
  ms_map_id :: string
  ms_mission_type :: int
  ms_poses :: "mission_pose list"

record failed_dispatch =
  fd_mission_id :: string
  fd_robot_pose :: mission_pose
  fd_error_code :: int
  fd_reason :: string

datatype nav_command = SendGoal int mission | CancelActiveGoal int | CancelResidualGoals

record mission_runtime =
  mr_boot_id :: string
  mr_runtime_epoch :: int
  mr_map_id :: string
  mr_state :: mission_state
  mr_mission :: "mission option"
  mr_mission_valid :: bool
  mr_action_generation :: int
  mr_goal_uuid :: string
  mr_nav2_status :: int
  mr_error_code :: int
  mr_error_meaning :: string
  mr_detail :: string
  mr_inflight :: bool
  mr_cancel_requested :: bool
  mr_autonomy_ok :: "bool option"
  mr_autonomy_key :: "(int \<times> string) option"
  mr_max_revision :: int
  mr_residual_cleared :: bool
  mr_robot_pose :: "mission_pose option"
  mr_failed_dispatch :: "failed_dispatch option"
  mr_inflight_mission_id :: string

definition new_runtime :: "string \<Rightarrow> mission_runtime" where
  "new_runtime boot =
     \<lparr> mr_boot_id = boot, mr_runtime_epoch = 0, mr_map_id = [], mr_state = MS_IDLE,
       mr_mission = None, mr_mission_valid = False, mr_action_generation = 0, mr_goal_uuid = [],
       mr_nav2_status = - 1, mr_error_code = 0, mr_error_meaning = [],
       mr_detail = ''runtime started'', mr_inflight = False, mr_cancel_requested = False,
       mr_autonomy_ok = None, mr_autonomy_key = None, mr_max_revision = 0,
       mr_residual_cleared = False, mr_robot_pose = None, mr_failed_dispatch = None,
       mr_inflight_mission_id = [] \<rparr>"

section \<open>Helpers\<close>

definition reject_op :: "mission_runtime \<Rightarrow> string \<Rightarrow> mission_runtime \<times> nav_command list" where
  "reject_op r reason = (r\<lparr>mr_detail := reason\<rparr>, [])"

definition begin_cancel :: "mission_runtime \<Rightarrow> string \<Rightarrow> mission_runtime \<times> nav_command list" where
  "begin_cancel r reason =
     (r\<lparr>mr_cancel_requested := True, mr_state := MS_CANCELING, mr_detail := ''canceling: '' @ reason\<rparr>,
      if truthy (mr_goal_uuid r) then [CancelActiveGoal (mr_action_generation r)] else [])"

definition invalidate :: "mission_runtime \<Rightarrow> string \<Rightarrow> mission_runtime \<times> nav_command list" where
  "invalidate r reason =
     (let r1 = r\<lparr>mr_mission_valid := False, mr_mission := None, mr_failed_dispatch := None\<rparr>;
          (r2, commands) =
            (if mr_inflight r1 then begin_cancel r1 reason
             else if mr_state r1 \<in> {MS_DISPATCHING, MS_ACTIVE, MS_CANCELING}
             then (r1\<lparr>mr_state := MS_IDLE\<rparr>, [])
             else (r1, []))
      in (r2\<lparr>mr_detail := ''mission invalidated: '' @ reason\<rparr>, commands))"

definition yaw :: "nav_env \<Rightarrow> pyfloat \<times> pyfloat \<times> pyfloat \<times> pyfloat \<Rightarrow> pyfloat" where
  "yaw env q =
     (let (x, y, z, w) = q in
      ne_atan2 env (fmul (Fin 2) (fadd (fmul w z) (fmul x y)))
        (fsub (Fin 1) (fmul (Fin 2) (fadd (fmul y y) (fmul z z)))))"

definition poses_materially_same :: "nav_env \<Rightarrow> mission_pose \<Rightarrow> mission_pose \<Rightarrow> bool" where
  "poses_materially_same env p q =
     (if mp_frame_id p \<noteq> mp_frame_id q then False
      else (let (px, py, pz) = mp_position p; (qx, qy, qz) = mp_position q;
                distance = ne_hypot env (fsub px qx) (fsub py qy);
                d = fsub (yaw env (mp_orientation p)) (yaw env (mp_orientation q));
                yaw_delta = ne_atan2 env (ne_sin env d) (ne_cos env d)
            in fle distance REDISPATCH_POSITION_TOLERANCE_M
               \<and> fle (fabs yaw_delta) REDISPATCH_YAW_TOLERANCE_RAD))"

definition identical_redispatch_failure :: "nav_env \<Rightarrow> mission_runtime \<Rightarrow> failed_dispatch option" where
  "identical_redispatch_failure env r =
     (case (mr_failed_dispatch r, mr_mission r, mr_robot_pose r) of
        (Some failed, Some m, Some pose) \<Rightarrow>
          if fd_mission_id failed \<noteq> ms_mission_id m then None
          else if poses_materially_same env (fd_robot_pose failed) pose then Some failed else None
      | _ \<Rightarrow> None)"

section \<open>Operations\<close>

definition observe_runtime ::
  "mission_runtime \<Rightarrow> int \<Rightarrow> string \<Rightarrow> bool \<Rightarrow> mission_runtime \<times> nav_command list" where
  "observe_runtime r runtime_epoch map_id autonomy_ok =
     (let was_ok = mr_autonomy_ok r;
          r1 = r\<lparr>mr_autonomy_ok := Some autonomy_ok\<rparr>
      in if autonomy_ok
         then (let key = (runtime_epoch, map_id);
                   (r2, commands) =
                     (if mr_autonomy_key r1 \<noteq> None \<and> mr_autonomy_key r1 \<noteq> Some key
                      then invalidate r1 ''runtime epoch or map changed'' else (r1, []))
               in (r2\<lparr>mr_autonomy_key := Some key, mr_runtime_epoch := runtime_epoch,
                      mr_map_id := map_id\<rparr>, commands))
         else if was_ok = Some True then invalidate r1 ''runtime left AUTONOMY''
         else (r1, []))"

record select_args =
  sa_mission_id :: string
  sa_mission_revision :: int
  sa_runtime_epoch :: int
  sa_map_id :: string
  sa_mission_type :: int
  sa_poses :: "mission_pose list"

definition select_refusal :: "nav_env \<Rightarrow> mission_runtime \<Rightarrow> select_args \<Rightarrow> string option" where
  "select_refusal env r a =
     (if \<not> truthy (sa_mission_id a) then Some ''select rejected: empty mission_id''
      else if sa_mission_type a \<notin> {MISSION_SINGLE_GOAL, MISSION_ORDERED_POSES}
      then Some ''select rejected: unknown mission_type''
      else if sa_poses a = [] \<or> \<not> list_all (pose_is_valid env MAP_FRAME) (sa_poses a)
      then Some ''select rejected: invalid map-frame pose(s)''
      else if sa_mission_type a = MISSION_SINGLE_GOAL \<and> length (sa_poses a) \<noteq> 1
      then Some ''select rejected: a single goal needs exactly one pose''
      else if mr_autonomy_ok r \<noteq> Some True
      then Some ''select rejected: runtime is not in AUTONOMY''
      else if sa_runtime_epoch a \<noteq> mr_runtime_epoch r
      then Some (''select rejected: mission epoch '' @ str_of_int (sa_runtime_epoch a)
                   @ '' != runtime epoch '' @ str_of_int (mr_runtime_epoch r))
      else if truthy (mr_map_id r) \<and> sa_map_id a \<noteq> mr_map_id r
      then Some ''select rejected: mission map does not match''
      else if sa_mission_revision a \<le> mr_max_revision r
      then Some ''select rejected: stale mission_revision''
      else None)"

definition mission_of :: "select_args \<Rightarrow> mission" where
  "mission_of a =
     \<lparr> ms_mission_id = sa_mission_id a, ms_revision = sa_mission_revision a,
       ms_runtime_epoch = sa_runtime_epoch a, ms_map_id = sa_map_id a,
       ms_mission_type = sa_mission_type a, ms_poses = sa_poses a \<rparr>"

definition select :: "nav_env \<Rightarrow> mission_runtime \<Rightarrow> select_args \<Rightarrow> mission_runtime \<times> nav_command list" where
  "select env r a =
     (case select_refusal env r a of
        Some reason \<Rightarrow> reject_op r reason
      | None \<Rightarrow>
          (let r1 = r\<lparr>mr_max_revision := sa_mission_revision a\<rparr>;
               (r2, commands) =
                 (if mr_inflight r1 then begin_cancel r1 ''superseded by a new mission'' else (r1, []));
               r3 = r2\<lparr>mr_mission := Some (mission_of a), mr_mission_valid := True,
                       mr_failed_dispatch := None\<rparr>;
               r4 = (if \<not> mr_inflight r3 then r3\<lparr>mr_state := MS_IDLE\<rparr> else r3)
           in (r4\<lparr>mr_detail := ''mission selected and validated''\<rparr>, commands)))"

definition start_action :: "mission_runtime \<Rightarrow> mission \<Rightarrow> mission_runtime \<times> nav_command list" where
  "start_action r m =
     (let g = mr_action_generation r + 1;
          r1 = r\<lparr>mr_action_generation := g, mr_inflight := True,
                 mr_inflight_mission_id := ms_mission_id m, mr_cancel_requested := False,
                 mr_goal_uuid := [], mr_nav2_status := - 1, mr_error_code := 0,
                 mr_error_meaning := [], mr_state := MS_DISPATCHING,
                 mr_detail := ''dispatch requested; awaiting Nav2 acceptance''\<rparr>
      in (r1\<lparr>mr_residual_cleared := True\<rparr>,
          (if \<not> mr_residual_cleared r then [CancelResidualGoals] else []) @ [SendGoal g m]))"

definition dispatch :: "nav_env \<Rightarrow> mission_runtime \<Rightarrow> mission_runtime \<times> nav_command list" where
  "dispatch env r =
     (case (mr_mission_valid r, mr_mission r) of
        (True, Some m) \<Rightarrow>
          if mr_inflight r \<or> mr_state r = MS_CANCELING
          then reject_op r ''dispatch rejected: an action is still in flight''
          else if mr_autonomy_ok r \<noteq> Some True
          then reject_op r ''dispatch rejected: runtime is not in AUTONOMY''
          else if ms_runtime_epoch m \<noteq> mr_runtime_epoch r
          then reject_op (r\<lparr>mr_mission := None, mr_mission_valid := False\<rparr>)
                 ''dispatch rejected: mission epoch superseded''
          else (case identical_redispatch_failure env r of
                  Some blocked \<Rightarrow>
                    (let reason = ''ANTI_REDISPATCH_STORM: identical mission and robot pose after ''
                           @ fd_reason blocked @ ''; select a new goal before retrying''
                     in reject_op (r\<lparr>mr_error_code := fd_error_code blocked, mr_error_meaning := reason\<rparr>)
                          (''dispatch rejected: '' @ reason))
                | None \<Rightarrow> start_action r m)
      | _ \<Rightarrow> reject_op r ''dispatch rejected: no validated mission'')"

definition cancel :: "mission_runtime \<Rightarrow> string \<Rightarrow> mission_runtime \<times> nav_command list" where
  "cancel r reason =
     (if mr_inflight r then begin_cancel r (if truthy reason then reason else ''operator cancel'')
      else (let r1 = (if mr_state r \<in> {MS_DISPATCHING, MS_ACTIVE, MS_CANCELING}
                      then r\<lparr>mr_state := MS_IDLE\<rparr> else r)
            in (r1\<lparr>mr_detail := ''cancel requested; nothing in flight''\<rparr>, [])))"

section \<open>Nav2 callbacks\<close>

definition is_current :: "mission_runtime \<Rightarrow> int \<Rightarrow> bool" where
  "is_current r generation = (generation = mr_action_generation r \<and> mr_inflight r)"

definition on_goal_response ::
  "nav_env \<Rightarrow> mission_runtime \<Rightarrow> int \<Rightarrow> bool \<Rightarrow> string \<Rightarrow> mission_runtime \<times> nav_command list" where
  "on_goal_response env r generation accepted goal_uuid =
     (if generation \<noteq> mr_action_generation r \<or> \<not> mr_inflight r then (r, [])
      else if \<not> accepted
      then (r\<lparr>mr_inflight := False, mr_inflight_mission_id := [], mr_state := MS_FAILED,
              mr_nav2_status := ne_STATUS_ABORTED env, mr_error_meaning := ''Nav2 rejected the goal'',
              mr_detail := ''Nav2 rejected the goal''\<rparr>, [])
      else (let r1 = r\<lparr>mr_goal_uuid := goal_uuid\<rparr> in
            if mr_cancel_requested r1
            then (r1\<lparr>mr_state := MS_CANCELING\<rparr>, [CancelActiveGoal generation])
            else (r1\<lparr>mr_state := MS_ACTIVE, mr_nav2_status := ne_STATUS_ACCEPTED env,
                     mr_detail := ''Nav2 accepted the goal; executing''\<rparr>, [])))"

definition on_feedback :: "nav_env \<Rightarrow> mission_runtime \<Rightarrow> int \<Rightarrow> mission_runtime" where
  "on_feedback env r generation =
     (if generation \<noteq> mr_action_generation r \<or> \<not> mr_inflight r then r
      else (let r1 = (if mr_state r = MS_DISPATCHING then r\<lparr>mr_state := MS_ACTIVE\<rparr> else r)
            in if mr_state r1 = MS_ACTIVE then r1\<lparr>mr_nav2_status := ne_STATUS_EXECUTING env\<rparr> else r1))"

definition observe_robot_pose :: "nav_env \<Rightarrow> mission_runtime \<Rightarrow> mission_pose \<Rightarrow> mission_runtime" where
  "observe_robot_pose env r pose =
     (if pose_is_valid env ''odom'' pose then r\<lparr>mr_robot_pose := Some pose\<rparr> else r)"

fun state_name :: "mission_state \<Rightarrow> string" where
  "state_name MS_IDLE = ''IDLE''"
| "state_name MS_DISPATCHING = ''DISPATCHING''"
| "state_name MS_ACTIVE = ''ACTIVE''"
| "state_name MS_CANCELING = ''CANCELING''"
| "state_name MS_SUCCEEDED = ''SUCCEEDED''"
| "state_name MS_FAILED = ''FAILED''"
| "state_name MS_CANCELED = ''CANCELED''"

definition on_result ::
  "nav_env \<Rightarrow> mission_runtime \<Rightarrow> int \<Rightarrow> int \<Rightarrow> int \<Rightarrow> string \<Rightarrow> mission_runtime" where
  "on_result env r generation status error_code error_meaning =
     (if generation \<noteq> mr_action_generation r \<or> \<not> mr_inflight r then r
      else (let mission_id = mr_inflight_mission_id r;
                reason = nav2_error_detail env error_code error_meaning;
                r1 = r\<lparr>mr_inflight := False, mr_inflight_mission_id := [], mr_cancel_requested := False,
                       mr_goal_uuid := [], mr_nav2_status := status, mr_error_code := error_code,
                       mr_error_meaning := reason\<rparr>;
                r2 = (if status = ne_STATUS_SUCCEEDED env
                      then r1\<lparr>mr_state := MS_SUCCEEDED, mr_failed_dispatch := None\<rparr>
                      else if status = ne_STATUS_CANCELED env
                      then r1\<lparr>mr_state := MS_CANCELED, mr_failed_dispatch := None\<rparr>
                      else (let meaning = ''RECOVERY_EXHAUSTED: '' @ reason;
                                rf = r1\<lparr>mr_state := MS_FAILED, mr_error_meaning := meaning\<rparr>
                            in case mr_robot_pose r of
                                 Some pose \<Rightarrow>
                                   if truthy mission_id
                                   then rf\<lparr>mr_failed_dispatch := Some \<lparr> fd_mission_id = mission_id,
                                          fd_robot_pose = pose, fd_error_code = error_code,
                                          fd_reason = meaning \<rparr>\<rparr>
                                   else rf
                               | None \<Rightarrow> rf))
            in r2\<lparr>mr_detail := ''action terminal: '' @ state_name (mr_state r2) @ '' (''
                    @ (case ne_status_names env status of Some n \<Rightarrow> n | None \<Rightarrow> str_of_int status)
                    @ '')''\<rparr>))"

definition on_cancel_response :: "mission_runtime \<Rightarrow> int \<Rightarrow> bool \<Rightarrow> mission_runtime \<times> bool" where
  "on_cancel_response r generation goals_canceling =
     (if generation \<noteq> mr_action_generation r \<or> \<not> mr_inflight r then (r, False)
      else if goals_canceling then (r\<lparr>mr_detail := ''cancellation accepted by Nav2''\<rparr>, False)
      else (r\<lparr>mr_detail := ''cancellation not yet accepted; retrying''\<rparr>, True))"

definition last_action_rejected :: "mission_runtime \<Rightarrow> bool" where
  "last_action_rejected r = contains_text ''rejected'' (mr_detail r)"

section \<open>The runtime as a machine\<close>

datatype nav_input =
    NI_observe int string bool
  | NI_select select_args
  | NI_dispatch
  | NI_cancel string
  | NI_goal_response int bool string
  | NI_feedback int
  | NI_robot_pose mission_pose
  | NI_result int int int string
  | NI_cancel_response int bool

fun nav_full_step :: "nav_env \<Rightarrow> mission_runtime \<Rightarrow> nav_input \<Rightarrow> mission_runtime \<times> nav_command list" where
  "nav_full_step env r (NI_observe e m ok) = observe_runtime r e m ok"
| "nav_full_step env r (NI_select a) = select env r a"
| "nav_full_step env r NI_dispatch = dispatch env r"
| "nav_full_step env r (NI_cancel reason) = cancel r reason"
| "nav_full_step env r (NI_goal_response g ok u) = on_goal_response env r g ok u"
| "nav_full_step env r (NI_feedback g) = (on_feedback env r g, [])"
| "nav_full_step env r (NI_robot_pose p) = (observe_robot_pose env r p, [])"
| "nav_full_step env r (NI_result g s c t) = (on_result env r g s c t, [])"
| "nav_full_step env r (NI_cancel_response g b) = (fst (on_cancel_response r g b), [])"

definition nav_step :: "nav_env \<Rightarrow> mission_runtime \<Rightarrow> nav_input \<Rightarrow> mission_runtime" where
  "nav_step env r i = fst (nav_full_step env r i)"

text \<open>
  A mission exists only while the runtime is in AUTONOMY for the epoch and map
  it was selected for; an action is in flight exactly in the three transient
  states, and \<open>CANCELING\<close> says that its cancellation was requested.
\<close>

definition mr_inv :: "mission_runtime \<Rightarrow> bool" where
  "mr_inv r = ((mr_mission_valid r \<longleftrightarrow> mr_mission r \<noteq> None)
     \<and> (mr_inflight r \<longleftrightarrow> mr_state r \<in> {MS_DISPATCHING, MS_ACTIVE, MS_CANCELING})
     \<and> (mr_inflight r \<longrightarrow> (mr_cancel_requested r \<longleftrightarrow> mr_state r = MS_CANCELING))
     \<and> (mr_autonomy_ok r = Some True \<longrightarrow> mr_autonomy_key r = Some (mr_runtime_epoch r, mr_map_id r))
     \<and> (\<forall>m. mr_mission r = Some m \<longrightarrow> mr_autonomy_ok r = Some True
          \<and> ms_runtime_epoch m = mr_runtime_epoch r
          \<and> (truthy (mr_map_id r) \<longrightarrow> ms_map_id m = mr_map_id r)
          \<and> ms_revision m = mr_max_revision r))"

definition mr_initial :: "mission_runtime \<Rightarrow> bool" where
  "mr_initial r = (\<exists>boot. r = new_runtime boot)"

lemma new_runtime_initial [simp]: "mr_initial (new_runtime boot)"
  by (auto simp: mr_initial_def)

lemma begin_cancel_fields [simp]:
  "mr_mission (fst (begin_cancel r t)) = mr_mission r"
  "mr_mission_valid (fst (begin_cancel r t)) = mr_mission_valid r"
  "mr_inflight (fst (begin_cancel r t)) = mr_inflight r"
  "mr_state (fst (begin_cancel r t)) = MS_CANCELING"
  "mr_cancel_requested (fst (begin_cancel r t)) = True"
  "mr_autonomy_ok (fst (begin_cancel r t)) = mr_autonomy_ok r"
  "mr_autonomy_key (fst (begin_cancel r t)) = mr_autonomy_key r"
  "mr_runtime_epoch (fst (begin_cancel r t)) = mr_runtime_epoch r"
  "mr_map_id (fst (begin_cancel r t)) = mr_map_id r"
  "mr_max_revision (fst (begin_cancel r t)) = mr_max_revision r"
  "mr_action_generation (fst (begin_cancel r t)) = mr_action_generation r"
  by (simp_all add: begin_cancel_def)

lemma invalidate_fields [simp]:
  "mr_mission (fst (invalidate r t)) = None"
  "mr_mission_valid (fst (invalidate r t)) = False"
  "mr_inflight (fst (invalidate r t)) = mr_inflight r"
  "mr_autonomy_ok (fst (invalidate r t)) = mr_autonomy_ok r"
  "mr_autonomy_key (fst (invalidate r t)) = mr_autonomy_key r"
  "mr_runtime_epoch (fst (invalidate r t)) = mr_runtime_epoch r"
  "mr_map_id (fst (invalidate r t)) = mr_map_id r"
  "mr_max_revision (fst (invalidate r t)) = mr_max_revision r"
  "mr_action_generation (fst (invalidate r t)) = mr_action_generation r"
  "mr_state (fst (invalidate r t)) = (if mr_inflight r then MS_CANCELING
     else if mr_state r \<in> {MS_DISPATCHING, MS_ACTIVE, MS_CANCELING} then MS_IDLE else mr_state r)"
  "mr_inflight r \<Longrightarrow> mr_cancel_requested (fst (invalidate r t))"
  by (auto simp: invalidate_def Let_def split_beta)

lemma observe_runtime_inv:
  assumes "mr_inv r"
  shows "mr_inv (fst (observe_runtime r e m ok))"
proof (cases ok)
  case True
  then show ?thesis
    using assms
    by (cases "mr_autonomy_key r = Some (e, m)"; cases "mr_autonomy_key r")
       (simp_all add: observe_runtime_def mr_inv_def Let_def split_beta, auto)
next
  case False
  then show ?thesis using assms
    by (cases "mr_autonomy_ok r = Some True") (simp_all add: observe_runtime_def mr_inv_def Let_def)
qed

lemma guard_passed: "(if c then Some x else y) = None \<longleftrightarrow> \<not> c \<and> y = None"
  by simp

lemma select_accepted:
  "select_refusal env r a = None \<Longrightarrow> mr_autonomy_ok r = Some True
     \<and> sa_runtime_epoch a = mr_runtime_epoch r
     \<and> (truthy (mr_map_id r) \<longrightarrow> sa_map_id a = mr_map_id r)
     \<and> mr_max_revision r < sa_mission_revision a
     \<and> list_all (pose_is_valid env MAP_FRAME) (sa_poses a) \<and> sa_poses a \<noteq> []"
  unfolding select_refusal_def guard_passed by force

lemma select_inv:
  assumes "mr_inv r"
  shows "mr_inv (fst (select env r a))"
proof (cases "select_refusal env r a")
  case None
  note acc = select_accepted [OF None]
  show ?thesis
  proof (cases "mr_inflight r")
    case True
    then show ?thesis using assms acc
      by (simp add: select_def None mr_inv_def mission_of_def begin_cancel_def Let_def)
  next
    case False
    then show ?thesis using assms acc
      by (simp add: select_def None mr_inv_def mission_of_def Let_def)
  qed
next
  case (Some t)
  then show ?thesis using assms by (simp add: select_def reject_op_def mr_inv_def)
qed

lemma dispatch_inv: "mr_inv r \<Longrightarrow> mr_inv (fst (dispatch env r))"
  by (auto simp: dispatch_def mr_inv_def reject_op_def start_action_def Let_def
      split: option.split bool.split)

lemma cancel_inv: "mr_inv r \<Longrightarrow> mr_inv (fst (cancel r t))"
  by (auto simp: cancel_def mr_inv_def)

lemma on_goal_response_inv: "mr_inv r \<Longrightarrow> mr_inv (fst (on_goal_response env r g ok u))"
  by (auto simp: on_goal_response_def mr_inv_def Let_def)

lemma on_feedback_inv: "mr_inv r \<Longrightarrow> mr_inv (on_feedback env r g)"
  by (auto simp: on_feedback_def mr_inv_def)

lemma on_result_inv: "mr_inv r \<Longrightarrow> mr_inv (on_result env r g s c t)"
  by (auto simp: on_result_def mr_inv_def Let_def split: option.split)

lemma nav_step_inv: "mr_inv r \<Longrightarrow> mr_inv (nav_step env r i)"
proof (cases i)
  case (NI_robot_pose p)
  then show "mr_inv r \<Longrightarrow> ?thesis"
    by (simp add: nav_step_def observe_robot_pose_def mr_inv_def)
next
  case (NI_cancel_response g b)
  then show "mr_inv r \<Longrightarrow> ?thesis"
    by (simp add: nav_step_def on_cancel_response_def mr_inv_def)
qed (simp_all add: nav_step_def observe_runtime_inv select_inv dispatch_inv cancel_inv
      on_goal_response_inv on_feedback_inv on_result_inv)

lemma nav_generation_step:
  "mr_action_generation (nav_step env r i) =
     (if \<exists>g m. SendGoal g m \<in> set (snd (nav_full_step env r i))
      then mr_action_generation r + 1 else mr_action_generation r)"
proof (cases i)
  case (NI_observe e m ok)
  then show ?thesis
    by (auto simp: nav_step_def observe_runtime_def invalidate_def begin_cancel_def Let_def split_beta)
next
  case (NI_select a)
  then show ?thesis
    by (auto simp: nav_step_def select_def reject_op_def begin_cancel_def Let_def split_beta split: option.split)
next
  case NI_dispatch
  then show ?thesis
    by (auto simp: nav_step_def dispatch_def reject_op_def start_action_def Let_def split: option.split bool.split)
next
  case (NI_cancel t)
  then show ?thesis by (auto simp: nav_step_def cancel_def begin_cancel_def)
next
  case (NI_goal_response g ok u)
  then show ?thesis by (auto simp: nav_step_def on_goal_response_def Let_def)
next
  case (NI_feedback g)
  then show ?thesis by (simp add: nav_step_def on_feedback_def)
next
  case (NI_robot_pose p)
  then show ?thesis by (simp add: nav_step_def observe_robot_pose_def)
next
  case (NI_result g s c t)
  then show ?thesis by (simp add: nav_step_def on_result_def Let_def split: option.split)
next
  case (NI_cancel_response g b)
  then show ?thesis by (simp add: nav_step_def on_cancel_response_def)
qed

lemma new_runtime_inv: "mr_initial r \<Longrightarrow> mr_inv r"
  by (auto simp: mr_initial_def mr_inv_def new_runtime_def)

interpretation nav: counting_machine mr_initial "nav_step env" mr_inv mr_action_generation for env
  by unfold_locales (simp_all add: new_runtime_inv nav_step_inv nav_generation_step)

section \<open>Properties\<close>

lemma send_goal_origin:
  assumes "SendGoal g m \<in> set (snd (nav_full_step env r i))"
  shows "i = NI_dispatch \<and> mr_mission r = Some m \<and> mr_mission_valid r \<and> \<not> mr_inflight r
    \<and> mr_autonomy_ok r = Some True \<and> ms_runtime_epoch m = mr_runtime_epoch r
    \<and> g = mr_action_generation r + 1 \<and> mr_state (nav_step env r i) = MS_DISPATCHING
    \<and> identical_redispatch_failure env r = None"
proof (cases i)
  case (NI_observe e m ok)
  then show ?thesis using assms
    by (auto simp: observe_runtime_def invalidate_def begin_cancel_def Let_def split_beta split: if_splits)
next
  case (NI_select a)
  then show ?thesis using assms
    by (auto simp: select_def reject_op_def begin_cancel_def Let_def split_beta split: option.splits if_splits)
next
  case NI_dispatch
  then show ?thesis using assms
    by (auto simp: nav_step_def dispatch_def reject_op_def start_action_def Let_def
        split: option.splits bool.splits if_splits)
next
  case (NI_cancel t)
  then show ?thesis using assms by (auto simp: cancel_def begin_cancel_def split: if_splits)
next
  case (NI_goal_response g ok u)
  then show ?thesis using assms by (auto simp: on_goal_response_def Let_def split: if_splits)
qed (use assms in auto)

text \<open>A small environment and mission for the witnesses.\<close>

definition demo_env :: nav_env where
  "demo_env = \<lparr> ne_sum = (\<lambda>xs. Fin 1), ne_sqrt = (\<lambda>x. x), ne_hypot = (\<lambda>x y. fabs x),
     ne_atan2 = (\<lambda>y x. y), ne_sin = (\<lambda>x. x), ne_cos = (\<lambda>x. Fin 1),
     ne_error_names = (\<lambda>c. None), ne_status_names = (\<lambda>c. None), ne_STATUS_ACCEPTED = 1,
     ne_STATUS_EXECUTING = 2, ne_STATUS_SUCCEEDED = 4, ne_STATUS_CANCELED = 5,
     ne_STATUS_ABORTED = 6 \<rparr>"

definition demo_pose :: "string \<Rightarrow> mission_pose" where
  "demo_pose frame = \<lparr> mp_frame_id = frame, mp_position = (Fin 0, Fin 0, Fin 0),
     mp_orientation = (Fin 0, Fin 0, Fin 0, Fin 1) \<rparr>"

definition demo_select :: select_args where
  "demo_select = \<lparr> sa_mission_id = ''m'', sa_mission_revision = 1, sa_runtime_epoch = 7,
     sa_map_id = ''kitchen'', sa_mission_type = 0, sa_poses = [demo_pose ''map''] \<rparr>"

definition demo_nav_run :: "nav_input list" where
  "demo_nav_run = [NI_observe 7 ''kitchen'' True, NI_robot_pose (demo_pose ''odom''), NI_select demo_select]"

lemma demo_pose_valid: "pose_is_valid demo_env f (demo_pose f)"
proof -
  have "fle (dbl (1 / 10 ^ 6)) (Fin 1)" by (intro dbl_le_double) simp_all
  then have "\<not> flt (Fin 1) (dbl (1 / 10 ^ 6))" using flt_not_fle by blast
  then show ?thesis by (simp add: pose_is_valid_def demo_pose_def demo_env_def)
qed

lemma demo_nav_state:
  "run_steps (nav_step demo_env) (new_runtime ''b'') demo_nav_run =
     (new_runtime ''b'')\<lparr>mr_autonomy_ok := Some True, mr_autonomy_key := Some (7, ''kitchen''),
       mr_runtime_epoch := 7, mr_map_id := ''kitchen'', mr_robot_pose := Some (demo_pose ''odom''),
       mr_max_revision := 1, mr_mission := Some (mission_of demo_select), mr_mission_valid := True,
       mr_detail := ''mission selected and validated''\<rparr>"
  using demo_pose_valid [of "''map''"] demo_pose_valid [of "''odom''"]
  by (simp add: demo_nav_run_def nav_step_def observe_runtime_def observe_robot_pose_def select_def
      select_refusal_def demo_select_def new_runtime_def MISSION_SINGLE_GOAL_def MAP_FRAME_def Let_def)

lemma demo_dispatch_sends:
  "SendGoal 1 (mission_of demo_select) \<in> set (snd (nav_full_step demo_env
     (run_steps (nav_step demo_env) (new_runtime ''b'') demo_nav_run) NI_dispatch))"
  unfolding demo_nav_state
  by (simp add: dispatch_def new_runtime_def identical_redispatch_failure_def
      start_action_def mission_of_def demo_select_def)

text \<open>
  C25. A goal is sent only for the mission the authority last selected: in every
  reachable state a command \<open>SendGoal\<close> comes from a dispatch while the runtime
  is in AUTONOMY and nothing is in flight, for a validated mission of the
  current epoch and map with the newest revision, under a fresh generation.
\<close>

theorem goals_only_for_current_mission:
  assumes "mr_initial r0" "r = run_steps (nav_step env) r0 is"
    and "SendGoal g m \<in> set (snd (nav_full_step env r i))"
  shows "i = NI_dispatch \<and> mr_mission r = Some m \<and> mr_autonomy_ok r = Some True \<and> \<not> mr_inflight r
    \<and> ms_runtime_epoch m = mr_runtime_epoch r
    \<and> (mr_map_id r \<noteq> [] \<longrightarrow> ms_map_id m = mr_map_id r)
    \<and> ms_revision m = mr_max_revision r \<and> g = mr_action_generation r + 1"
  using send_goal_origin [OF assms(3)] nav.invar_reachable [OF assms(1), of env "is"] assms(2)
  by (simp add: mr_inv_def truthy_iff)

theorem goals_only_for_current_mission_witness:
  "mr_mission (run_steps (nav_step demo_env) (new_runtime ''b'') demo_nav_run) = Some (mission_of demo_select)"
proof -
  let ?r = "run_steps (nav_step demo_env) (new_runtime ''b'') demo_nav_run"
  from goals_only_for_current_mission [OF _ refl demo_dispatch_sends] show ?thesis by simp
qed

text \<open>
  C26. A callback of an older goal can never become current: once another goal
  has been sent after generation \<open>g\<close>, whatever happens later, an acceptance,
  feedback, result or cancel response carrying \<open>g\<close> changes nothing and issues
  no command.
\<close>

theorem stale_generation_is_inert:
  assumes "mr_initial r0" "r = run_steps (nav_step env) r0 is" "g \<le> mr_action_generation r"
    and "SendGoal g' m \<in> set (snd (nav_full_step env r i))"
    and "r' = run_steps (nav_step env) (nav_step env r i) js"
    and "k \<in> {NI_goal_response g ok u, NI_feedback g, NI_result g s c t, NI_cancel_response g b}"
  shows "nav_full_step env r' k = (r', [])"
proof -
  have inv: "mr_inv r" using assms(1,2) nav.invar_reachable by blast
  have "mr_action_generation r + 1 = mr_action_generation (nav_step env r i)"
    using assms(4) by (auto simp: nav_generation_step)
  also have "\<dots> \<le> mr_action_generation r'"
    using nav.counter_run [OF nav_step_inv [OF inv]] assms(5) by simp
  finally have "g \<noteq> mr_action_generation r'" using assms(3) by linarith
  then show ?thesis using assms(6)
    by (auto simp: on_goal_response_def on_feedback_def on_result_def on_cancel_response_def)
qed

theorem stale_generation_is_inert_witness:
  "let r = nav_step demo_env (run_steps (nav_step demo_env) (new_runtime ''b'') demo_nav_run) NI_dispatch in
     nav_full_step demo_env r (NI_feedback 0) = (r, [])"
proof -
  let ?r = "run_steps (nav_step demo_env) (new_runtime ''b'') demo_nav_run"
  have g: "0 \<le> mr_action_generation ?r" unfolding demo_nav_state by (simp add: new_runtime_def)
  from stale_generation_is_inert [OF _ refl g demo_dispatch_sends, of "nav_step demo_env ?r NI_dispatch" "[]" "NI_feedback 0"]
  show ?thesis by (simp add: Let_def)
qed

definition not_autonomous :: "mission_runtime \<Rightarrow> bool" where
  "not_autonomous r = (mr_mission r = None \<and> mr_autonomy_ok r = Some False)"

definition reports_autonomy :: "nav_input \<Rightarrow> bool" where
  "reports_autonomy i = (case i of NI_observe e m ok \<Rightarrow> ok | _ \<Rightarrow> False)"

lemma not_autonomous_step:
  assumes "not_autonomous r" "\<not> reports_autonomy i"
  shows "not_autonomous (nav_step env r i)"
proof (cases i)
  case (NI_observe e m ok)
  then show ?thesis using assms
    by (simp add: nav_step_def not_autonomous_def reports_autonomy_def observe_runtime_def Let_def)
next
  case (NI_select a)
  have "select_refusal env r a \<noteq> None"
    using select_accepted [of env r a] assms(1) by (auto simp: not_autonomous_def)
  then show ?thesis using assms NI_select
    by (auto simp: nav_step_def not_autonomous_def select_def reject_op_def)
next
  case NI_dispatch
  then show ?thesis using assms
    by (simp add: nav_step_def not_autonomous_def dispatch_def reject_op_def split: bool.split)
next
  case (NI_result g s c t)
  then show ?thesis using assms
    by (simp add: nav_step_def not_autonomous_def on_result_def Let_def split: option.split)
qed (use assms in \<open>auto simp: nav_step_def not_autonomous_def cancel_def on_goal_response_def
      on_feedback_def observe_robot_pose_def on_cancel_response_def Let_def\<close>)

lemma not_autonomous_run:
  "not_autonomous r \<Longrightarrow> \<forall>i \<in> set is. \<not> reports_autonomy i \<Longrightarrow> not_autonomous (run_steps (nav_step env) r is)"
  by (induction "is" arbitrary: r) (simp_all add: not_autonomous_step)

lemma leaving_revokes:
  assumes "mr_inv r"
  shows "not_autonomous (nav_step env r (NI_observe e m False))"
    "mr_inflight r \<and> mr_autonomy_ok r = Some True \<Longrightarrow>
       mr_state (nav_step env r (NI_observe e m False)) = MS_CANCELING"
  using assms
  by (auto simp: nav_step_def observe_runtime_def not_autonomous_def mr_inv_def Let_def)

text \<open>
  Leaving AUTONOMY revokes the mission: after the mode owner reports anything
  but stable AUTONOMY, no goal is sent by any sequence of requests and
  callbacks until AUTONOMY is reported again, and an action that was in
  flight is being cancelled.
\<close>

theorem leaving_autonomy_revokes:
  assumes "mr_initial r0" "r = run_steps (nav_step env) r0 is"
    and "r' = run_steps (nav_step env) (nav_step env r (NI_observe e m False)) js"
    and "\<forall>i \<in> set (js @ [k]). \<not> reports_autonomy i"
  shows "SendGoal g mission \<notin> set (snd (nav_full_step env r' k))
    \<and> mr_mission r' = None
    \<and> (mr_inflight r \<and> mr_autonomy_ok r = Some True
         \<longrightarrow> mr_state (nav_step env r (NI_observe e m False)) = MS_CANCELING)"
proof -
  have inv: "mr_inv r" using assms(1,2) nav.invar_reachable by blast
  have "not_autonomous r'"
    using not_autonomous_run leaving_revokes(1) [OF inv] assms(3,4) by simp
  then show ?thesis
    using send_goal_origin [of g mission env r' k] leaving_revokes(2) [OF inv]
    by (auto simp: not_autonomous_def)
qed

theorem leaving_autonomy_revokes_witness:
  "mr_mission (run_steps (nav_step demo_env) (nav_step demo_env
      (run_steps (nav_step demo_env) (new_runtime ''b'') demo_nav_run) (NI_observe 7 ''kitchen'' False))
      [NI_select demo_select, NI_dispatch]) = None"
  using leaving_autonomy_revokes [of "new_runtime ''b''" _ demo_env demo_nav_run _ 7 "''kitchen''"
      "[NI_select demo_select, NI_dispatch]" NI_dispatch, OF _ refl refl]
  by (simp add: reports_autonomy_def)

text \<open>
  No redispatch storm: after an action of the selected mission ended in a
  failure, another dispatch from materially the same robot pose sends nothing
  and keeps the generation, whatever the failure code was, as long as no
  other mission was selected in between.
\<close>

theorem failed_mission_is_not_resent:
  assumes "mr_initial r0" "r = run_steps (nav_step env) r0 is"
    and "mr_inflight r" "mr_mission r = Some m" "mr_inflight_mission_id r = ms_mission_id m"
    and "ms_mission_id m \<noteq> []" "mr_robot_pose r = Some pose"
    and "s \<noteq> ne_STATUS_SUCCEEDED env" "s \<noteq> ne_STATUS_CANCELED env"
    and "pose_is_valid env ''odom'' pose'" "poses_materially_same env pose pose'"
  shows "let r1 = nav_step env (on_result env r (mr_action_generation r) s c t) (NI_robot_pose pose')
    in snd (dispatch env r1) = []
       \<and> mr_action_generation (fst (dispatch env r1)) = mr_action_generation r
       \<and> \<not> mr_inflight (fst (dispatch env r1))"
proof -
  have inv: "mr_inv r" using assms(1,2) nav.invar_reachable by blast
  then have auto_ok: "mr_autonomy_ok r = Some True" "ms_runtime_epoch m = mr_runtime_epoch r"
    "mr_mission_valid r"
    using assms(4) by (simp_all add: mr_inv_def)
  show ?thesis
    using assms(3-11) auto_ok
    by (simp add: nav_step_def on_result_def observe_robot_pose_def Let_def truthy_iff dispatch_def
        identical_redispatch_failure_def reject_op_def)
qed

theorem failed_mission_is_not_resent_witness:
  "let r = nav_step demo_env (run_steps (nav_step demo_env) (new_runtime ''b'') demo_nav_run) NI_dispatch;
       r1 = nav_step demo_env (on_result demo_env r 1 6 105 ''stuck'') (NI_robot_pose (demo_pose ''odom''))
   in snd (dispatch demo_env r1) = []"
proof -
  have d: "nav_step demo_env (run_steps (nav_step demo_env) (new_runtime ''b'') demo_nav_run) NI_dispatch
      = run_steps (nav_step demo_env) (new_runtime ''b'') (demo_nav_run @ [NI_dispatch])"
    by (simp add: run_steps_append)
  let ?r = "run_steps (nav_step demo_env) (new_runtime ''b'') (demo_nav_run @ [NI_dispatch])"
  have f: "mr_inflight ?r" "mr_mission ?r = Some (mission_of demo_select)"
    "mr_inflight_mission_id ?r = ''m''" "mr_robot_pose ?r = Some (demo_pose ''odom'')"
    "mr_action_generation ?r = 1"
    unfolding run_steps_append demo_nav_state
    by (simp_all add: nav_step_def dispatch_def new_runtime_def identical_redispatch_failure_def
        start_action_def mission_of_def demo_select_def Let_def)
  have tol: "fle (Fin 0) REDISPATCH_POSITION_TOLERANCE_M" "fle (Fin 0) REDISPATCH_YAW_TOLERANCE_RAD"
  proof -
    show "fle (Fin 0) REDISPATCH_POSITION_TOLERANCE_M"
      unfolding REDISPATCH_POSITION_TOLERANCE_M_def by (intro dbl_ge_double) simp_all
    have "fle (Fin 0) (dbl (884279719003555 / 2 ^ 48 / 180))" by (intro dbl_ge_double) simp_all
    moreover have "fle (dbl (884279719003555 / 2 ^ 48 / 180)) (Fin 1)" by (intro dbl_le_double) simp_all
    ultimately obtain q where "dbl (884279719003555 / 2 ^ 48 / 180) = Fin q" "0 \<le> q"
      by (cases "dbl (884279719003555 / 2 ^ 48 / 180)") simp_all
    then show "fle (Fin 0) REDISPATCH_YAW_TOLERANCE_RAD"
      unfolding REDISPATCH_YAW_TOLERANCE_RAD_def using dbl_ge_double [of 0 "10 * q"] by simp
  qed
  then have same: "poses_materially_same demo_env (demo_pose ''odom'') (demo_pose ''odom'')"
    by (simp add: poses_materially_same_def demo_pose_def demo_env_def yaw_def)
  show ?thesis
    unfolding d
    using failed_mission_is_not_resent [OF new_runtime_initial refl f(1,2), of "demo_pose ''odom''" 6 "demo_pose ''odom''" 105 "''stuck''"]
      f demo_pose_valid same
    by (simp add: Let_def mission_of_def demo_select_def demo_env_def)
qed

end
