(* ===== verification/NavigationNode.thy ===== *)
theory NavigationNode
  imports NavigationRuntime
begin

text \<open>
  The executor around the mission runtime (\<open>NavigationRuntimeNode\<close> of
  \<open>runner_bringup/navigation_runtime.py\<close>): it turns the commands of the runtime
  into action calls and their futures back into callbacks. Attributes carry
  the prefix \<open>nn_\<close>. A future is a fresh number together with the generation its
  callback was created with (the callbacks compare futures by identity); a
  goal handle is represented by the generation it was accepted for. Whether
  the action server is ready and whether an asynchronous call raises is given
  by \<open>node_io\<close>, together with the clock value of the callback.
\<close>

section \<open>State and effects\<close>

definition CANCEL_RETRY_INTERVAL_SEC :: pyfloat where "CANCEL_RETRY_INTERVAL_SEC = Fin (1 / 2)"
definition RESULT_RETRY_INTERVAL_SEC :: pyfloat where "RESULT_RETRY_INTERVAL_SEC = Fin (1 / 2)"
definition MAX_CANCEL_ATTEMPTS :: nat where "MAX_CANCEL_ATTEMPTS = 5"
definition NAVIGATE_TO_POSE_ACTION :: string where "NAVIGATE_TO_POSE_ACTION = ''/navigate_to_pose''"
definition NAVIGATE_THROUGH_POSES_ACTION :: string where
  "NAVIGATE_THROUGH_POSES_ACTION = ''/navigate_through_poses''"

record node_io =
  io_ready :: bool
  io_send_raises :: bool
  io_result_raises :: bool
  io_cancel_raises :: bool
  io_now :: pyfloat

record navigation_state =
  nv_boot_id :: string
  nv_state :: mission_state
  nv_mission_id :: string
  nv_mission_revision :: int
  nv_runtime_epoch :: int
  nv_map_id :: string
  nv_mission_type :: int
  nv_mission_valid :: bool
  nv_action_generation :: int
  nv_goal_uuid :: string
  nv_nav2_status :: int
  nv_error_code :: int
  nv_error_meaning :: string
  nv_detail :: string

datatype nav_effect =
    NE_send string "mission_pose list" int nat
  | NE_get_result int nat
  | NE_cancel int nat
  | NE_cancel_residual
  | NE_publish navigation_state

record nav_node =
  nn_runtime :: mission_runtime
  nn_goal_handle :: "int option"
  nn_send_future :: "(nat \<times> int) option"
  nn_result_future :: "(nat \<times> int) option"
  nn_cancel_future :: "(nat \<times> int) option"
  nn_pending_send :: "(int \<times> mission) option"
  nn_cancel_attempts :: nat
  nn_next_cancel_at :: pyfloat
  nn_next_result_at :: pyfloat
  nn_last_state_key :: "navigation_state option"
  nn_next_future :: nat
  nn_effects :: "nav_effect list"

text \<open>\<open>nn_effects\<close> collects what the node did, in order.\<close>

definition emit :: "nav_node \<Rightarrow> nav_effect \<Rightarrow> nav_node" where
  "emit n x = n\<lparr>nn_effects := nn_effects n @ [x]\<rparr>"

section \<open>Publication\<close>

definition state_of :: "mission_runtime \<Rightarrow> navigation_state" where
  "state_of r =
     \<lparr> nv_boot_id = mr_boot_id r, nv_state = mr_state r,
       nv_mission_id = (case mr_mission r of None \<Rightarrow> [] | Some m \<Rightarrow> ms_mission_id m),
       nv_mission_revision = (case mr_mission r of None \<Rightarrow> 0 | Some m \<Rightarrow> ms_revision m),
       nv_runtime_epoch = (case mr_mission r of None \<Rightarrow> mr_runtime_epoch r
                           | Some m \<Rightarrow> ms_runtime_epoch m),
       nv_map_id = (case mr_mission r of None \<Rightarrow> [] | Some m \<Rightarrow> ms_map_id m),
       nv_mission_type = (case mr_mission r of None \<Rightarrow> 0 | Some m \<Rightarrow> ms_mission_type m),
       nv_mission_valid = mr_mission_valid r, nv_action_generation = mr_action_generation r,
       nv_goal_uuid = mr_goal_uuid r, nv_nav2_status = mr_nav2_status r,
       nv_error_code = max 0 (mr_error_code r), nv_error_meaning = mr_error_meaning r,
       nv_detail = mr_detail r \<rparr>"

definition publish_state :: "nav_node \<Rightarrow> bool \<Rightarrow> nav_node" where
  "publish_state n force =
     (let key = state_of (nn_runtime n) in
      if nn_last_state_key n = Some key \<and> \<not> force then n
      else (emit n (NE_publish key))\<lparr>nn_last_state_key := Some key\<rparr>)"

section \<open>Sending, cancelling and results\<close>

definition client_for :: "int \<Rightarrow> string" where
  "client_for mission_type =
     (if mission_type = MISSION_ORDERED_POSES then NAVIGATE_THROUGH_POSES_ACTION
      else NAVIGATE_TO_POSE_ACTION)"

text \<open>
  The poses of the goal: all of an ordered mission, the first of a single goal
  (\<open>select\<close> refuses a mission without poses).
\<close>

definition goal_poses :: "mission \<Rightarrow> mission_pose list" where
  "goal_poses m =
     (if ms_mission_type m = MISSION_ORDERED_POSES then ms_poses m else take 1 (ms_poses m))"

definition pump_send :: "nav_env \<Rightarrow> node_io \<Rightarrow> nav_node \<Rightarrow> nav_node" where
  "pump_send env io n =
     (case nn_pending_send n of
        None \<Rightarrow> n
      | Some (generation, m) \<Rightarrow>
          if \<not> is_current (nn_runtime n) generation then n\<lparr>nn_pending_send := None\<rparr>
          else if mr_state (nn_runtime n) = MS_CANCELING then n\<lparr>nn_pending_send := None\<rparr>
          else if nn_goal_handle n \<noteq> None \<or> nn_send_future n \<noteq> None then n
          else if \<not> io_ready io then n
          else (let n1 = n\<lparr>nn_pending_send := None\<rparr> in
                if io_send_raises io
                then publish_state
                       (n1\<lparr>nn_runtime := fst (on_goal_response env (nn_runtime n) generation False [])\<rparr>)
                       False
                else (emit n1 (NE_send (client_for (ms_mission_type m)) (goal_poses m) generation
                                 (nn_next_future n)))
                       \<lparr>nn_send_future := Some (nn_next_future n, generation),
                        nn_next_future := nn_next_future n + 1\<rparr>))"

definition pump_cancel :: "node_io \<Rightarrow> nav_node \<Rightarrow> nav_node" where
  "pump_cancel io n =
     (case nn_goal_handle n of
        None \<Rightarrow> n
      | Some handle \<Rightarrow>
          if nn_cancel_future n \<noteq> None then n
          else if MAX_CANCEL_ATTEMPTS \<le> nn_cancel_attempts n then n
          else if flt (io_now io) (nn_next_cancel_at n) then n
          else (let generation = mr_action_generation (nn_runtime n);
                    n1 = n\<lparr>nn_cancel_attempts := nn_cancel_attempts n + 1\<rparr> in
                if io_cancel_raises io
                then n1\<lparr>nn_next_cancel_at := fadd (io_now io) CANCEL_RETRY_INTERVAL_SEC\<rparr>
                else (emit n1 (NE_cancel handle (nn_next_future n)))
                       \<lparr>nn_cancel_future := Some (nn_next_future n, generation),
                        nn_next_future := nn_next_future n + 1\<rparr>))"

definition resolve_undelivered_cancel :: "nav_env \<Rightarrow> nav_node \<Rightarrow> nav_node" where
  "resolve_undelivered_cancel env n =
     (if mr_state (nn_runtime n) = MS_CANCELING \<and> mr_inflight (nn_runtime n)
         \<and> nn_pending_send n = None \<and> nn_send_future n = None \<and> nn_goal_handle n = None
         \<and> nn_cancel_future n = None
      then n\<lparr>nn_runtime := on_result env (nn_runtime n) (mr_action_generation (nn_runtime n))
               (ne_STATUS_CANCELED env) 0 ''canceled before Nav2 received the goal''\<rparr>
      else n)"

fun run_command :: "nav_env \<Rightarrow> node_io \<Rightarrow> nav_node \<Rightarrow> nav_command \<Rightarrow> nav_node" where
  "run_command env io n (SendGoal g m) = pump_send env io (n\<lparr>nn_pending_send := Some (g, m)\<rparr>)"
| "run_command env io n (CancelActiveGoal g) =
     pump_cancel io (n\<lparr>nn_cancel_attempts := 0, nn_next_cancel_at := Fin 0\<rparr>)"
| "run_command env io n CancelResidualGoals = emit n NE_cancel_residual"

definition run_commands :: "nav_env \<Rightarrow> node_io \<Rightarrow> nav_node \<Rightarrow> nav_command list \<Rightarrow> nav_node" where
  "run_commands env io n commands =
     (let n1 = foldl (run_command env io) n commands in
      if mr_state (nn_runtime n1) = MS_CANCELING
      then resolve_undelivered_cancel env (n1\<lparr>nn_pending_send := None\<rparr>)
      else n1)"

definition request_result :: "node_io \<Rightarrow> nav_node \<Rightarrow> int \<Rightarrow> nav_node" where
  "request_result io n generation =
     (case nn_goal_handle n of
        None \<Rightarrow> n
      | Some handle \<Rightarrow>
          if io_result_raises io
          then n\<lparr>nn_next_result_at := fadd (io_now io) RESULT_RETRY_INTERVAL_SEC\<rparr>
          else (emit n (NE_get_result handle (nn_next_future n)))
                 \<lparr>nn_result_future := Some (nn_next_future n, generation),
                  nn_next_future := nn_next_future n + 1\<rparr>)"

definition clear_action_futures :: "nav_node \<Rightarrow> nav_node" where
  "clear_action_futures n =
     n\<lparr>nn_goal_handle := None, nn_send_future := None, nn_result_future := None,
       nn_cancel_future := None, nn_cancel_attempts := 0, nn_next_cancel_at := Fin 0,
       nn_next_result_at := Fin 0\<rparr>"

section \<open>Callbacks\<close>

text \<open>A goal response: the future failed, or a handle that may be rejected.\<close>

datatype goal_response = GR_error | GR_handle bool string

definition goal_response_callback ::
  "nav_env \<Rightarrow> node_io \<Rightarrow> nav_node \<Rightarrow> nat \<Rightarrow> goal_response \<Rightarrow> nav_node" where
  "goal_response_callback env io n future response =
     (case nn_send_future n of
        None \<Rightarrow> n
      | Some (expected, generation) \<Rightarrow>
          if expected \<noteq> future then n
          else (let n1 = n\<lparr>nn_send_future := None\<rparr> in
                case response of
                  GR_error \<Rightarrow>
                    publish_state
                      (n1\<lparr>nn_runtime := fst (on_goal_response env (nn_runtime n) generation False [])\<rparr>)
                      False
                | GR_handle accepted goal_uuid \<Rightarrow>
                    (let (r, commands) = on_goal_response env (nn_runtime n) generation accepted
                           (if accepted then goal_uuid else []);
                         n2 = n1\<lparr>nn_runtime := r\<rparr>;
                         n3 = (if accepted \<and> is_current r generation
                               then n2\<lparr>nn_goal_handle := Some generation\<rparr> else n2);
                         n4 = run_commands env io n3 commands;
                         n5 = (if nn_goal_handle n4 \<noteq> None \<and> nn_result_future n4 = None
                                  \<and> is_current (nn_runtime n4) generation
                               then request_result io n4 generation else n4)
                     in publish_state n5 False)))"

datatype result_response = RR_error | RR_result int int string

definition result_callback ::
  "nav_env \<Rightarrow> node_io \<Rightarrow> nav_node \<Rightarrow> nat \<Rightarrow> result_response \<Rightarrow> nav_node" where
  "result_callback env io n future response =
     (case nn_result_future n of
        None \<Rightarrow> n
      | Some (expected, generation) \<Rightarrow>
          if expected \<noteq> future then n
          else (let n1 = n\<lparr>nn_result_future := None\<rparr> in
                case response of
                  RR_error \<Rightarrow>
                    if is_current (nn_runtime n1) generation
                    then n1\<lparr>nn_next_result_at := fadd (io_now io) RESULT_RETRY_INTERVAL_SEC\<rparr>
                    else n1
                | RR_result status error_code error_msg \<Rightarrow>
                    (let r = on_result env (nn_runtime n1) generation status error_code error_msg;
                         n2 = n1\<lparr>nn_runtime := r\<rparr>;
                         n3 = (if \<not> is_current r generation then n2\<lparr>nn_goal_handle := None\<rparr> else n2)
                     in publish_state (clear_action_futures n3) False)))"

datatype cancel_response = CR_error | CR_response bool

definition cancel_callback ::
  "node_io \<Rightarrow> nav_node \<Rightarrow> nat \<Rightarrow> cancel_response \<Rightarrow> nav_node" where
  "cancel_callback io n future response =
     (case nn_cancel_future n of
        None \<Rightarrow> n
      | Some (expected, generation) \<Rightarrow>
          if expected \<noteq> future then n
          else (let n1 = n\<lparr>nn_cancel_future := None\<rparr> in
                case response of
                  CR_error \<Rightarrow> n1\<lparr>nn_next_cancel_at := fadd (io_now io) CANCEL_RETRY_INTERVAL_SEC\<rparr>
                | CR_response goals_canceling \<Rightarrow>
                    (let (r, retry) = on_cancel_response (nn_runtime n1) generation goals_canceling;
                         n2 = n1\<lparr>nn_runtime := r\<rparr>;
                         n3 = (if retry
                               then n2\<lparr>nn_next_cancel_at := fadd (io_now io) CANCEL_RETRY_INTERVAL_SEC\<rparr>
                               else n2)
                     in publish_state n3 False)))"

datatype nav_request = OP_SELECT select_args | OP_DISPATCH | OP_CANCEL | OP_UNKNOWN

definition on_request :: "nav_env \<Rightarrow> node_io \<Rightarrow> nav_node \<Rightarrow> nav_request \<Rightarrow> nav_node" where
  "on_request env io n q =
     (let execute = (\<lambda>(r, commands). publish_state (run_commands env io (n\<lparr>nn_runtime := r\<rparr>) commands) False)
      in case q of
           OP_SELECT a \<Rightarrow> execute (select env (nn_runtime n) a)
         | OP_DISPATCH \<Rightarrow> execute (dispatch env (nn_runtime n))
         | OP_CANCEL \<Rightarrow> execute (cancel (nn_runtime n) ''authority cancel request'')
         | OP_UNKNOWN \<Rightarrow> n)"

text \<open>The fields of a \<open>ModeState\<close> message the node reads, and the constants of its definition.\<close>

record mode_message =
  mm_mode :: int
  mm_status :: int
  mm_runtime_epoch :: int
  mm_active_autonomy_map :: string

definition MODE_AUTONOMY :: int where "MODE_AUTONOMY = 2"
definition STATUS_STABLE :: int where "STATUS_STABLE = 0"

definition on_mode_state :: "nav_env \<Rightarrow> node_io \<Rightarrow> nav_node \<Rightarrow> mode_message \<Rightarrow> nav_node" where
  "on_mode_state env io n message =
     (let autonomy_ok = (mm_mode message = MODE_AUTONOMY \<and> mm_status message = STATUS_STABLE);
          (r, commands) = observe_runtime (nn_runtime n) (mm_runtime_epoch message)
            (mm_active_autonomy_map message) autonomy_ok
      in publish_state (run_commands env io (n\<lparr>nn_runtime := r\<rparr>) commands) False)"

definition on_odometry :: "nav_env \<Rightarrow> nav_node \<Rightarrow> mission_pose \<Rightarrow> nav_node" where
  "on_odometry env n pose = n\<lparr>nn_runtime := observe_robot_pose env (nn_runtime n) pose\<rparr>"

text \<open>The feedback callback of a goal carries the generation it was sent with.\<close>

definition feedback_callback :: "nav_env \<Rightarrow> nav_node \<Rightarrow> int \<Rightarrow> nav_node" where
  "feedback_callback env n generation =
     n\<lparr>nn_runtime := on_feedback env (nn_runtime n) generation\<rparr>"

definition tick :: "nav_env \<Rightarrow> node_io \<Rightarrow> nav_node \<Rightarrow> nav_node" where
  "tick env io n =
     (let n1 = (if nn_pending_send n \<noteq> None then pump_send env io n else n);
          n2 = (if mr_state (nn_runtime n1) = MS_CANCELING
                then resolve_undelivered_cancel env (pump_cancel io n1) else n1);
          n3 = (if nn_goal_handle n2 \<noteq> None \<and> nn_result_future n2 = None
                   \<and> mr_inflight (nn_runtime n2) \<and> fle (nn_next_result_at n2) (io_now io)
                then request_result io n2 (mr_action_generation (nn_runtime n2)) else n2)
      in publish_state n3 False)"

definition publish_heartbeat :: "nav_node \<Rightarrow> nav_node" where
  "publish_heartbeat n = publish_state n True"

definition new_node :: "string \<Rightarrow> nav_node" where
  "new_node boot =
     publish_state
       \<lparr> nn_runtime = new_runtime boot, nn_goal_handle = None, nn_send_future = None,
         nn_result_future = None, nn_cancel_future = None, nn_pending_send = None,
         nn_cancel_attempts = 0, nn_next_cancel_at = Fin 0, nn_next_result_at = Fin 0,
         nn_last_state_key = None, nn_next_future = 0, nn_effects = [] \<rparr> False"

section \<open>Bookkeeping invariant\<close>

text \<open>
  Every future, handle and held dispatch belongs to the live action, at most
  one of the three stages (held, sent, accepted) is occupied, and a live
  action occupies one.
\<close>

definition nn_links :: "nav_node \<Rightarrow> bool" where
  "nn_links n = (
     (\<forall>f g. nn_send_future n = Some (f, g) \<longrightarrow> is_current (nn_runtime n) g
        \<and> nn_goal_handle n = None \<and> nn_pending_send n = None)
     \<and> (\<forall>g. nn_goal_handle n = Some g \<longrightarrow> is_current (nn_runtime n) g \<and> nn_pending_send n = None)
     \<and> (\<forall>g m. nn_pending_send n = Some (g, m) \<longrightarrow> is_current (nn_runtime n) g)
     \<and> (\<forall>f g. nn_result_future n = Some (f, g) \<longrightarrow> nn_goal_handle n = Some g)
     \<and> (\<forall>f g. nn_cancel_future n = Some (f, g) \<longrightarrow> nn_goal_handle n = Some g)
     \<and> nn_cancel_attempts n \<le> MAX_CANCEL_ATTEMPTS)"

definition nn_busy :: "nav_node \<Rightarrow> bool" where
  "nn_busy n = (mr_inflight (nn_runtime n) \<longrightarrow>
     nn_send_future n \<noteq> None \<or> nn_goal_handle n \<noteq> None \<or> nn_pending_send n \<noteq> None)"

definition nn_inv :: "nav_node \<Rightarrow> bool" where
  "nn_inv n = (mr_inv (nn_runtime n) \<and> nn_links n \<and> nn_busy n)"

lemma publish_state_frame [simp]:
  "nn_runtime (publish_state n b) = nn_runtime n"
  "nn_goal_handle (publish_state n b) = nn_goal_handle n"
  "nn_send_future (publish_state n b) = nn_send_future n"
  "nn_result_future (publish_state n b) = nn_result_future n"
  "nn_cancel_future (publish_state n b) = nn_cancel_future n"
  "nn_pending_send (publish_state n b) = nn_pending_send n"
  "nn_cancel_attempts (publish_state n b) = nn_cancel_attempts n"
  "nn_next_future (publish_state n b) = nn_next_future n"
  by (simp_all add: publish_state_def emit_def Let_def)

lemma publish_state_inv [simp]: "nn_inv (publish_state n b) = nn_inv n"
  by (simp add: nn_inv_def nn_links_def nn_busy_def)

lemma links_runtime:
  assumes "nn_links n" "mr_action_generation r = mr_action_generation (nn_runtime n)"
    "mr_inflight r = mr_inflight (nn_runtime n)"
  shows "nn_links (n\<lparr>nn_runtime := r\<rparr>)" "nn_busy (n\<lparr>nn_runtime := r\<rparr>) = nn_busy n"
  using assms by (simp_all add: nn_links_def nn_busy_def is_current_def)

lemma idle_links:
  assumes "nn_links n" "\<not> mr_inflight (nn_runtime n)"
  shows "nn_send_future n = None" "nn_goal_handle n = None" "nn_pending_send n = None"
    "nn_result_future n = None" "nn_cancel_future n = None"
proof -
  show "nn_send_future n = None" "nn_goal_handle n = None" "nn_pending_send n = None"
    using assms by (auto simp: nn_links_def is_current_def Let_def) (metis not_None_eq surj_pair)+
  then show "nn_result_future n = None" "nn_cancel_future n = None"
    using assms(1) by (auto simp: nn_links_def Let_def) (metis not_None_eq surj_pair)+
qed

lemma empty_links:
  "nn_send_future n = None \<Longrightarrow> nn_goal_handle n = None \<Longrightarrow> nn_pending_send n = None \<Longrightarrow>
     nn_result_future n = None \<Longrightarrow> nn_cancel_future n = None \<Longrightarrow>
     nn_cancel_attempts n \<le> MAX_CANCEL_ATTEMPTS \<Longrightarrow> nn_links n"
  by (simp add: nn_links_def)

lemma on_result_current:
  "is_current r g \<Longrightarrow> \<not> mr_inflight (on_result env r g s c t)"
  by (auto simp: is_current_def on_result_def Let_def split: option.split)

lemma rejected_not_inflight:
  "is_current r g \<Longrightarrow> \<not> mr_inflight (fst (on_goal_response env r g False u))"
  by (simp add: is_current_def on_goal_response_def)

lemma resolve_inv:
  assumes "mr_inv (nn_runtime n)" "nn_links n"
    and "mr_state (nn_runtime n) = MS_CANCELING \<Longrightarrow> nn_pending_send n = None"
    and "mr_state (nn_runtime n) \<noteq> MS_CANCELING \<Longrightarrow> nn_busy n"
  shows "nn_inv (resolve_undelivered_cancel env n)"
proof (cases "mr_state (nn_runtime n) = MS_CANCELING \<and> mr_inflight (nn_runtime n)
    \<and> nn_pending_send n = None \<and> nn_send_future n = None \<and> nn_goal_handle n = None
    \<and> nn_cancel_future n = None")
  case True
  let ?r = "on_result env (nn_runtime n) (mr_action_generation (nn_runtime n))
    (ne_STATUS_CANCELED env) 0 ''canceled before Nav2 received the goal''"
  have "\<not> mr_inflight ?r" using True by (intro on_result_current) (simp add: is_current_def)
  moreover have "nn_result_future n = None"
    using assms(2) True by (cases "nn_result_future n") (auto simp: nn_links_def Let_def)
  moreover have "nn_cancel_attempts n \<le> MAX_CANCEL_ATTEMPTS" using assms(2) by (simp add: nn_links_def Let_def)
  ultimately have "nn_links (n\<lparr>nn_runtime := ?r\<rparr>)" "nn_busy (n\<lparr>nn_runtime := ?r\<rparr>)"
    using True by (auto intro: empty_links simp: nn_busy_def)
  moreover have "resolve_undelivered_cancel env n = n\<lparr>nn_runtime := ?r\<rparr>"
    using True by (simp add: resolve_undelivered_cancel_def)
  ultimately show ?thesis using assms(1) on_result_inv by (simp add: nn_inv_def)
next
  case False
  have "nn_busy n"
  proof (cases "mr_state (nn_runtime n) = MS_CANCELING")
    case True
    then have "nn_cancel_future n = None" if "nn_goal_handle n = None"
      using assms(2) that by (cases "nn_cancel_future n") (auto simp: nn_links_def Let_def)
    then show ?thesis using False True assms(3) by (auto simp: nn_busy_def)
  qed (rule assms(4))
  then show ?thesis using False assms(1,2) by (auto simp: resolve_undelivered_cancel_def nn_inv_def)
qed

lemma pump_cancel_inv:
  "nn_links n \<Longrightarrow> nn_links (pump_cancel io n)" "nn_runtime (pump_cancel io n) = nn_runtime n"
  "nn_pending_send (pump_cancel io n) = nn_pending_send n"
  "nn_busy (pump_cancel io n) = nn_busy n"
  by (auto simp: pump_cancel_def emit_def nn_links_def nn_busy_def is_current_def Let_def MAX_CANCEL_ATTEMPTS_def
      split: option.split)

lemma request_result_inv:
  assumes "nn_inv n" "is_current (nn_runtime n) g"
  shows "nn_inv (request_result io n g)"
proof (cases "nn_goal_handle n")
  case (Some h)
  then have "h = g" using assms by (simp add: nn_inv_def nn_links_def is_current_def Let_def)
  then show ?thesis using assms(1) Some
    by (auto simp: request_result_def emit_def nn_inv_def nn_links_def nn_busy_def Let_def)
qed (use assms in \<open>simp add: request_result_def\<close>)

lemma pump_send_inv:
  assumes "mr_inv (nn_runtime n)" "nn_links n"
  shows "mr_inv (nn_runtime (pump_send env io n))" "nn_links (pump_send env io n)"
    "mr_state (nn_runtime n) = MS_CANCELING \<Longrightarrow>
       mr_state (nn_runtime (pump_send env io n)) = MS_CANCELING \<and> nn_pending_send (pump_send env io n) = None"
    "mr_state (nn_runtime n) \<noteq> MS_CANCELING \<Longrightarrow> nn_busy n \<Longrightarrow>
       mr_state (nn_runtime (pump_send env io n)) \<noteq> MS_CANCELING \<and> nn_busy (pump_send env io n)"
proof -
  have "mr_inv (nn_runtime (pump_send env io n)) \<and> nn_links (pump_send env io n)
    \<and> (mr_state (nn_runtime n) = MS_CANCELING \<longrightarrow>
       mr_state (nn_runtime (pump_send env io n)) = MS_CANCELING \<and> nn_pending_send (pump_send env io n) = None)
    \<and> (mr_state (nn_runtime n) \<noteq> MS_CANCELING \<and> nn_busy n \<longrightarrow>
       mr_state (nn_runtime (pump_send env io n)) \<noteq> MS_CANCELING \<and> nn_busy (pump_send env io n))"
  proof (cases "nn_pending_send n")
    case None
    then show ?thesis using assms by (simp add: pump_send_def)
  next
    case (Some p)
    obtain g m where p: "p = (g, m)" by fastforce
    have cur: "is_current (nn_runtime n) g" and free: "nn_send_future n = None" "nn_goal_handle n = None"
      using assms(2) Some p by (auto simp: nn_links_def Let_def) (metis not_None_eq option.distinct(1) surj_pair)+
    have nores: "nn_result_future n = None" "nn_cancel_future n = None"
      using assms(2) free(2) by (cases "nn_result_future n"; cases "nn_cancel_future n"; auto simp: nn_links_def Let_def)+
    have att: "nn_cancel_attempts n \<le> MAX_CANCEL_ATTEMPTS" using assms(2) by (simp add: nn_links_def Let_def)
    show ?thesis
    proof (cases "mr_state (nn_runtime n) = MS_CANCELING")
      case True
      then show ?thesis using assms Some p cur free nores att
        by (simp add: pump_send_def nn_links_def)
    next
      case False
      let ?r = "fst (on_goal_response env (nn_runtime n) g False [])"
      have r: "mr_inv ?r" "\<not> mr_inflight ?r"
        using on_goal_response_inv [OF assms(1)] rejected_not_inflight [OF cur] by blast+
      moreover from cur have "mr_state ?r \<noteq> MS_CANCELING"
        by (simp add: is_current_def on_goal_response_def)
      ultimately show ?thesis
        using False assms Some p cur free nores att
        by (cases "io_ready io"; cases "io_send_raises io") (auto simp: pump_send_def emit_def nn_links_def nn_busy_def Let_def)
    qed
  qed
  then show "mr_inv (nn_runtime (pump_send env io n))" "nn_links (pump_send env io n)"
    "mr_state (nn_runtime n) = MS_CANCELING \<Longrightarrow>
       mr_state (nn_runtime (pump_send env io n)) = MS_CANCELING \<and> nn_pending_send (pump_send env io n) = None"
    "mr_state (nn_runtime n) \<noteq> MS_CANCELING \<Longrightarrow> nn_busy n \<Longrightarrow>
       mr_state (nn_runtime (pump_send env io n)) \<noteq> MS_CANCELING \<and> nn_busy (pump_send env io n)" by blast+
qed

text \<open>Commands of the runtime: a cancellation or nothing, or the dispatch of a fresh action.\<close>

lemma run_cancel_commands:
  assumes "mr_inv (nn_runtime n)" "nn_links n" "nn_busy n" "set commands \<subseteq> range CancelActiveGoal"
    "length commands \<le> 1"
  shows "nn_inv (run_commands env io n commands)"
proof -
  define n1 where "n1 = foldl (run_command env io) n commands"
  have "commands = [] \<or> (\<exists>g. commands = [CancelActiveGoal g])"
    using assms(4,5) by (cases commands) auto
  moreover have "nn_links (n\<lparr>nn_cancel_attempts := 0, nn_next_cancel_at := Fin 0\<rparr>)"
    using assms(2) by (simp add: nn_links_def)
  ultimately have k: "nn_links n1" "nn_busy n1" "nn_runtime n1 = nn_runtime n"
    using assms(2,3) pump_cancel_inv [where n = "n\<lparr>nn_cancel_attempts := 0, nn_next_cancel_at := Fin 0\<rparr>" and io = io]
    by (auto simp: n1_def nn_busy_def)
  have "nn_links (n1\<lparr>nn_pending_send := None\<rparr>)" using k(1) by (simp add: nn_links_def)
  then show ?thesis
    using k assms(1) resolve_inv [of "n1\<lparr>nn_pending_send := None\<rparr>" env]
    by (auto simp: run_commands_def n1_def [symmetric] nn_inv_def Let_def)
qed

lemma cancel_commands:
  "set (snd (begin_cancel r t)) \<subseteq> range CancelActiveGoal" "length (snd (begin_cancel r t)) \<le> 1"
  "set (snd (invalidate r t)) \<subseteq> range CancelActiveGoal" "length (snd (invalidate r t)) \<le> 1"
  by (auto simp: begin_cancel_def invalidate_def Let_def)

lemma dispatch_commands_inv:
  assumes "nn_inv n"
  shows "nn_inv (run_commands env io (n\<lparr>nn_runtime := fst (dispatch env (nn_runtime n))\<rparr>)
    (snd (dispatch env (nn_runtime n))))"
proof (cases "\<exists>g m. SendGoal g m \<in> set (snd (dispatch env (nn_runtime n)))")
  case False
  have inv: "mr_inv (nn_runtime n)" "nn_links n" "nn_busy n" using assms by (simp_all add: nn_inv_def)
  let ?r = "fst (dispatch env (nn_runtime n))"
  have "snd (dispatch env (nn_runtime n)) = []" "mr_action_generation ?r = mr_action_generation (nn_runtime n)"
    "mr_inflight ?r = mr_inflight (nn_runtime n)"
    using False by (auto simp: dispatch_def reject_op_def start_action_def Let_def
        split: option.splits bool.splits if_splits)
  then show ?thesis
    using links_runtime [OF inv(2), of ?r] inv dispatch_inv [OF inv(1)]
    by (auto intro!: run_cancel_commands)
next
  case True
  then obtain g m where sg: "SendGoal g m \<in> set (snd (dispatch env (nn_runtime n)))" by blast
  let ?r = "fst (dispatch env (nn_runtime n))"
  have inv: "mr_inv (nn_runtime n)" "nn_links n" using assms by (simp_all add: nn_inv_def)
  have idle: "\<not> mr_inflight (nn_runtime n)"
    using send_goal_origin [of g m env "nn_runtime n" NI_dispatch] sg by simp
  note free = idle_links [OF inv(2) idle]
  have att: "nn_cancel_attempts n \<le> MAX_CANCEL_ATTEMPTS" using inv(2) by (simp add: nn_links_def)
  obtain m' where c: "snd (dispatch env (nn_runtime n)) =
      (if \<not> mr_residual_cleared (nn_runtime n) then [CancelResidualGoals] else [])
        @ [SendGoal (mr_action_generation ?r) m']" "mr_inflight ?r" "mr_state ?r = MS_DISPATCHING"
    using sg by (auto simp: dispatch_def reject_op_def start_action_def Let_def
        split: option.splits bool.splits if_splits)
  define n1 where "n1 = (if mr_residual_cleared (nn_runtime n) then n\<lparr>nn_runtime := ?r\<rparr>
    else emit (n\<lparr>nn_runtime := ?r\<rparr>) NE_cancel_residual)\<lparr>nn_pending_send := Some (mr_action_generation ?r, m')\<rparr>"
  have f: "nn_runtime n1 = ?r" "nn_pending_send n1 = Some (mr_action_generation ?r, m')"
    "nn_send_future n1 = None" "nn_goal_handle n1 = None" "nn_result_future n1 = None"
    "nn_cancel_future n1 = None" "nn_cancel_attempts n1 = nn_cancel_attempts n"
    using free by (simp_all add: n1_def emit_def)
  have l: "nn_links n1" "nn_busy n1"
    using f c(2) att by (simp_all add: nn_links_def nn_busy_def is_current_def)
  have "foldl (run_command env io) (n\<lparr>nn_runtime := ?r\<rparr>) (snd (dispatch env (nn_runtime n)))
      = pump_send env io n1"
    unfolding c(1) by (simp add: n1_def emit_def)
  then show ?thesis
    using pump_send_inv [of n1 env io] l f(1) c(3) dispatch_inv [OF inv(1)]
    by (simp add: run_commands_def nn_inv_def Let_def)
qed

lemma observe_commands:
  "set (snd (observe_runtime r e m ok)) \<subseteq> range CancelActiveGoal"
  "length (snd (observe_runtime r e m ok)) \<le> 1"
  "mr_action_generation (fst (observe_runtime r e m ok)) = mr_action_generation r"
  "mr_inflight (fst (observe_runtime r e m ok)) = mr_inflight r"
  using cancel_commands(3,4) by (auto simp: observe_runtime_def Let_def split_beta)

lemma select_commands:
  "set (snd (select env r a)) \<subseteq> range CancelActiveGoal" "length (snd (select env r a)) \<le> 1"
  "mr_action_generation (fst (select env r a)) = mr_action_generation r"
  "mr_inflight (fst (select env r a)) = mr_inflight r"
proof -
  show "set (snd (select env r a)) \<subseteq> range CancelActiveGoal" "length (snd (select env r a)) \<le> 1"
    using cancel_commands(1,2)
    by (auto simp: select_def reject_op_def Let_def split_beta split: option.split)
  show "mr_action_generation (fst (select env r a)) = mr_action_generation r"
    "mr_inflight (fst (select env r a)) = mr_inflight r"
    by (auto simp: select_def reject_op_def Let_def split_beta split: option.split)
qed

lemma cancel_op_commands:
  "set (snd (cancel r t)) \<subseteq> range CancelActiveGoal" "length (snd (cancel r t)) \<le> 1"
  "mr_action_generation (fst (cancel r t)) = mr_action_generation r"
  "mr_inflight (fst (cancel r t)) = mr_inflight r"
  using cancel_commands(1,2) by (auto simp: cancel_def)

lemma run_quiet:
  assumes "nn_inv n" "mr_inv r" "mr_action_generation r = mr_action_generation (nn_runtime n)"
    "mr_inflight r = mr_inflight (nn_runtime n)" "set commands \<subseteq> range CancelActiveGoal" "length commands \<le> 1"
  shows "nn_inv (run_commands env io (n\<lparr>nn_runtime := r\<rparr>) commands)"
  using assms links_runtime [of n r] by (intro run_cancel_commands) (simp_all add: nn_inv_def)

lemma goal_response_inv:
  assumes "nn_inv n"
  shows "nn_inv (goal_response_callback env io n future response)"
proof (cases "\<exists>g. nn_send_future n = Some (future, g)")
  case False
  then show ?thesis using assms by (auto simp: goal_response_callback_def split: option.split)
next
  case True
  then obtain g where sf: "nn_send_future n = Some (future, g)" by blast
  have inv: "mr_inv (nn_runtime n)" "nn_links n" using assms by (simp_all add: nn_inv_def)
  have f: "is_current (nn_runtime n) g" "nn_goal_handle n = None" "nn_pending_send n = None"
    "nn_cancel_attempts n \<le> MAX_CANCEL_ATTEMPTS"
    using inv(2) sf by (auto simp: nn_links_def)
  have nores: "nn_result_future n = None" "nn_cancel_future n = None"
    using inv(2) f(2) by (cases "nn_result_future n"; cases "nn_cancel_future n"; auto simp: nn_links_def)+
  let ?dropped = "n\<lparr>nn_send_future := None, nn_runtime := fst (on_goal_response env (nn_runtime n) g False [])\<rparr>"
  have rejected: "nn_inv ?dropped"
    using on_goal_response_inv [OF inv(1)] rejected_not_inflight [OF f(1)] f nores
    by (simp add: nn_inv_def nn_busy_def empty_links)
  show ?thesis
  proof (cases response)
    case GR_error
    then show ?thesis using rejected sf by (simp add: goal_response_callback_def)
  next
    case (GR_handle accepted u)
    show ?thesis
    proof (cases accepted)
      case False
      have c: "snd (on_goal_response env (nn_runtime n) g False []) = []" by (simp add: on_goal_response_def)
      have h: "nn_goal_handle (run_commands env io ?dropped []) = None"
        using f(2) by (simp add: run_commands_def resolve_undelivered_cancel_def Let_def)
      have "nn_inv (run_commands env io ?dropped [])"
        using rejected by (intro run_cancel_commands) (simp_all add: nn_inv_def)
      then show ?thesis
        using sf GR_handle False c h
        by (simp add: goal_response_callback_def split_beta Let_def)
    next
      case True
      let ?r = "fst (on_goal_response env (nn_runtime n) g True u)"
      let ?c = "snd (on_goal_response env (nn_runtime n) g True u)"
      let ?n = "n\<lparr>nn_send_future := None, nn_runtime := ?r, nn_goal_handle := Some g\<rparr>"
      have r: "is_current ?r g" "set ?c \<subseteq> range CancelActiveGoal" "length ?c \<le> 1"
        using f(1) by (auto simp: is_current_def on_goal_response_def Let_def)
      define k where "k = run_commands env io ?n ?c"
      have "nn_inv k"
        using r f nores on_goal_response_inv [OF inv(1)] unfolding k_def
        by (intro run_cancel_commands) (simp_all add: nn_links_def nn_busy_def)
      moreover have "goal_response_callback env io n future response = publish_state
          (if nn_goal_handle k \<noteq> None \<and> nn_result_future k = None \<and> is_current (nn_runtime k) g
           then request_result io k g else k) False"
        using sf GR_handle True r(1) by (simp add: goal_response_callback_def split_beta Let_def k_def)
      ultimately show ?thesis by (simp add: request_result_inv)
    qed
  qed
qed

lemma result_callback_inv:
  assumes "nn_inv n"
  shows "nn_inv (result_callback env io n future response)"
proof (cases "\<exists>g. nn_result_future n = Some (future, g)")
  case False
  then show ?thesis using assms by (auto simp: result_callback_def split: option.split)
next
  case True
  then obtain g where rf: "nn_result_future n = Some (future, g)" by blast
  have inv: "mr_inv (nn_runtime n)" "nn_links n" "nn_busy n" using assms by (simp_all add: nn_inv_def)
  have h: "nn_goal_handle n = Some g" using inv(2) rf by (auto simp: nn_links_def)
  then have f: "is_current (nn_runtime n) g" "nn_pending_send n = None" using inv(2) by (auto simp: nn_links_def)
  show ?thesis
  proof (cases response)
    case RR_error
    then show ?thesis using inv rf h
      by (auto simp: result_callback_def nn_inv_def nn_links_def nn_busy_def Let_def)
  next
    case (RR_result s c t)
    have "nn_inv (clear_action_futures (n\<lparr>nn_result_future := None,
        nn_runtime := on_result env (nn_runtime n) g s c t, nn_goal_handle := None\<rparr>))"
      using on_result_inv [OF inv(1)] on_result_current [OF f(1)] f(2)
      by (simp add: nn_inv_def nn_busy_def clear_action_futures_def nn_links_def)
    then show ?thesis using rf RR_result on_result_current [OF f(1)]
      by (simp add: result_callback_def Let_def is_current_def)
  qed
qed

lemma cancel_callback_inv:
  assumes "nn_inv n"
  shows "nn_inv (cancel_callback io n future response)"
proof -
  have inv: "mr_inv (nn_runtime n)" "nn_links n" "nn_busy n" using assms by (simp_all add: nn_inv_def)
  have r: "mr_inv (fst (on_cancel_response (nn_runtime n) g b))"
    "mr_action_generation (fst (on_cancel_response (nn_runtime n) g b)) = mr_action_generation (nn_runtime n)"
    "mr_inflight (fst (on_cancel_response (nn_runtime n) g b)) = mr_inflight (nn_runtime n)" for g b
    using inv(1) by (simp_all add: on_cancel_response_def mr_inv_def)
  have l: "nn_links (n\<lparr>nn_cancel_future := None\<rparr>)" "nn_busy (n\<lparr>nn_cancel_future := None\<rparr>)"
    using inv by (simp_all add: nn_links_def nn_busy_def)
  have "nn_inv (n\<lparr>nn_cancel_future := None, nn_runtime := fst (on_cancel_response (nn_runtime n) g b)\<rparr>)"
    "nn_inv (n\<lparr>nn_cancel_future := None, nn_runtime := fst (on_cancel_response (nn_runtime n) g b),
       nn_next_cancel_at := t\<rparr>)" "nn_inv (n\<lparr>nn_cancel_future := None, nn_next_cancel_at := t\<rparr>)" for g b t
    using links_runtime [OF l(1), of "fst (on_cancel_response (nn_runtime n) g b)"] r [of g b] l inv(1)
    by (simp_all add: nn_inv_def nn_links_def nn_busy_def)
  then show ?thesis using assms
    by (auto simp: cancel_callback_def Let_def split_beta split: option.split cancel_response.split)
qed

lemma tick_node_inv:
  assumes "nn_inv n"
  shows "nn_inv (tick env io n)"
proof -
  have inv: "mr_inv (nn_runtime n)" "nn_links n" "nn_busy n" using assms by (simp_all add: nn_inv_def)
  define n1 where "n1 = (if nn_pending_send n \<noteq> None then pump_send env io n else n)"
  have p: "mr_inv (nn_runtime n1)" "nn_links n1"
    "mr_state (nn_runtime n1) = MS_CANCELING \<Longrightarrow> nn_pending_send n1 = None"
    "mr_state (nn_runtime n1) \<noteq> MS_CANCELING \<Longrightarrow> nn_busy n1"
    using pump_send_inv [OF inv(1,2), of env io] inv unfolding n1_def by (metis (full_types))+
  define n2 where "n2 = (if mr_state (nn_runtime n1) = MS_CANCELING
    then resolve_undelivered_cancel env (pump_cancel io n1) else n1)"
  have n2: "nn_inv n2"
  proof (cases "mr_state (nn_runtime n1) = MS_CANCELING")
    case True
    then show ?thesis using p pump_cancel_inv [where n = n1 and io = io] unfolding n2_def
      by (auto intro!: resolve_inv)
  qed (use p in \<open>simp add: n2_def nn_inv_def\<close>)
  then have "nn_inv (if nn_goal_handle n2 \<noteq> None \<and> nn_result_future n2 = None
      \<and> mr_inflight (nn_runtime n2) \<and> fle (nn_next_result_at n2) (io_now io)
      then request_result io n2 (mr_action_generation (nn_runtime n2)) else n2)"
    using request_result_inv [OF n2] by (auto simp: is_current_def)
  then show ?thesis
    unfolding tick_def Let_def n1_def [symmetric] n2_def [symmetric] publish_state_inv .
qed

section \<open>The node as a machine\<close>

datatype node_input =
    ND_mode node_io mode_message
  | ND_request node_io nav_request
  | ND_odometry mission_pose
  | ND_feedback int
  | ND_goal_response node_io nat goal_response
  | ND_result node_io nat result_response
  | ND_cancel node_io nat cancel_response
  | ND_tick node_io
  | ND_heartbeat

fun node_step :: "nav_env \<Rightarrow> nav_node \<Rightarrow> node_input \<Rightarrow> nav_node" where
  "node_step env n (ND_mode io m) = on_mode_state env io n m"
| "node_step env n (ND_request io q) = on_request env io n q"
| "node_step env n (ND_odometry p) = on_odometry env n p"
| "node_step env n (ND_feedback g) = feedback_callback env n g"
| "node_step env n (ND_goal_response io f x) = goal_response_callback env io n f x"
| "node_step env n (ND_result io f x) = result_callback env io n f x"
| "node_step env n (ND_cancel io f x) = cancel_callback io n f x"
| "node_step env n (ND_tick io) = tick env io n"
| "node_step env n ND_heartbeat = publish_heartbeat n"

definition node_initial :: "nav_node \<Rightarrow> bool" where
  "node_initial n = (\<exists>boot. n = new_node boot)"

lemma new_node_inv: "node_initial n \<Longrightarrow> nn_inv n"
  using new_runtime_inv [OF new_runtime_initial]
  by (auto simp: node_initial_def new_node_def nn_inv_def nn_links_def nn_busy_def) (simp add: new_runtime_def)

lemma node_step_inv:
  assumes "nn_inv n"
  shows "nn_inv (node_step env n i)"
proof (cases i)
  case (ND_mode io m)
  have "mr_inv (nn_runtime n)" using assms by (simp add: nn_inv_def)
  then show ?thesis using ND_mode run_quiet [OF assms observe_runtime_inv _ _ observe_commands(1,2)] observe_commands(3,4)
    by (simp add: on_mode_state_def split_beta Let_def)
next
  case (ND_request io q)
  have m: "mr_inv (nn_runtime n)" using assms by (simp add: nn_inv_def)
  show ?thesis
  proof (cases q)
    case (OP_SELECT a)
    then show ?thesis using ND_request run_quiet [OF assms select_inv _ _ select_commands(1,2)] select_commands(3,4) m
      by (simp add: on_request_def split_beta)
  next
    case OP_DISPATCH
    then show ?thesis using ND_request dispatch_commands_inv [OF assms] by (simp add: on_request_def split_beta)
  next
    case OP_CANCEL
    then show ?thesis using ND_request run_quiet [OF assms cancel_inv _ _ cancel_op_commands(1,2)] cancel_op_commands(3,4) m
      by (simp add: on_request_def split_beta)
  qed (use assms ND_request in \<open>simp add: on_request_def\<close>)
next
  case (ND_odometry p)
  let ?r = "observe_robot_pose env (nn_runtime n) p"
  have "mr_inv ?r" "mr_action_generation ?r = mr_action_generation (nn_runtime n)"
    "mr_inflight ?r = mr_inflight (nn_runtime n)"
    using assms by (simp_all add: observe_robot_pose_def nn_inv_def mr_inv_def)
  then show ?thesis using assms ND_odometry links_runtime [of n ?r]
    by (simp add: on_odometry_def nn_inv_def)
next
  case (ND_feedback g)
  have "mr_action_generation (on_feedback env (nn_runtime n) g) = mr_action_generation (nn_runtime n)"
    "mr_inflight (on_feedback env (nn_runtime n) g) = mr_inflight (nn_runtime n)"
    by (simp_all add: on_feedback_def Let_def)
  then show ?thesis using assms ND_feedback links_runtime [of n] on_feedback_inv
    by (simp add: feedback_callback_def nn_inv_def)
qed (simp_all add: assms goal_response_inv result_callback_inv cancel_callback_inv tick_node_inv
      publish_heartbeat_def)

interpretation nav_node: machine node_initial "node_step env" nn_inv for env
  by unfold_locales (simp_all add: new_node_inv node_step_inv)

section \<open>Properties\<close>

text \<open>
  C27. One goal at a time: after any sequence of requests, mode changes, timer
  ticks and callbacks, an action of the runtime is in flight exactly when it
  occupies one of the three stages (held back, sent, accepted), never two;
  the occupied stage carries the current generation. No action can be lost
  while it counts as in flight.
\<close>

theorem inflight_iff_one_stage:
  assumes "node_initial n0" "n = run_steps (node_step env) n0 is"
  shows "(mr_inflight (nn_runtime n) \<longleftrightarrow>
      length (filter (\<lambda>b. b) [nn_pending_send n \<noteq> None, nn_send_future n \<noteq> None, nn_goal_handle n \<noteq> None]) = 1)
    \<and> (\<not> mr_inflight (nn_runtime n) \<longrightarrow> nn_pending_send n = None \<and> nn_send_future n = None
      \<and> nn_goal_handle n = None \<and> nn_result_future n = None \<and> nn_cancel_future n = None)"
proof -
  have "nn_inv n" using assms nav_node.invar_reachable by blast
  then have inv: "nn_links n" "nn_busy n" by (simp_all add: nn_inv_def)
  show ?thesis
  proof (cases "mr_inflight (nn_runtime n)")
    case True
    then show ?thesis using inv by (auto simp: nn_busy_def nn_links_def)
  next
    case False
    then show ?thesis using idle_links [OF inv(1)] by simp
  qed
qed

definition demo_io :: node_io where
  "demo_io = \<lparr> io_ready = True, io_send_raises = False, io_result_raises = False,
     io_cancel_raises = False, io_now = Fin 0 \<rparr>"

definition demo_mode :: mode_message where
  "demo_mode = \<lparr> mm_mode = 2, mm_status = 0, mm_runtime_epoch = 7, mm_active_autonomy_map = ''kitchen'' \<rparr>"

definition demo_node_run :: "node_input list" where
  "demo_node_run = [ND_mode demo_io demo_mode, ND_request demo_io (OP_SELECT demo_select),
     ND_request demo_io OP_DISPATCH]"

lemma demo_node_state:
  "mr_inflight (nn_runtime (run_steps (node_step demo_env) (new_node ''b'') demo_node_run))
    \<and> nn_send_future (run_steps (node_step demo_env) (new_node ''b'') demo_node_run) = Some (0, 1)"
  using demo_pose_valid [of "''map''"]
  by (simp add: demo_node_run_def demo_mode_def MODE_AUTONOMY_def STATUS_STABLE_def new_node_def on_mode_state_def on_request_def observe_runtime_def
      select_def select_refusal_def demo_select_def new_runtime_def MISSION_SINGLE_GOAL_def MAP_FRAME_def
      Let_def run_commands_def emit_def mission_of_def dispatch_def
      identical_redispatch_failure_def start_action_def pump_send_def is_current_def demo_io_def)

theorem inflight_iff_one_stage_witness:
  "nn_goal_handle (run_steps (node_step demo_env) (new_node ''b'') demo_node_run) = None"
proof -
  have "node_initial (new_node ''b'')" by (auto simp: node_initial_def)
  from inflight_iff_one_stage [OF this refl, of demo_env demo_node_run] demo_node_state
  show ?thesis by (auto split: if_splits)
qed

end
