(* ===== verification/PngCodec.thy ===== *)
theory PngCodec
  imports Prelude "HOL-Library.Word"
begin

unbundle bit_operations_syntax

text \<open>
  The grayscale PNG codec of \<open>runner_paddock/png_codec.py\<close>, on lists of bytes.
  \<open>struct\<close> and \<open>zlib.crc32\<close> are modelled at their width; \<open>zlib.compress\<close> and
  \<open>zlib.decompress\<close> are the parameters \<open>compress\<close> and \<open>decompress\<close> (\<open>None\<close> is
  \<open>zlib.error\<close>). The lemmas show that decoding inverts encoding, that a decoder
  given any bytes returns a picture of the declared size or raises \<open>PngError\<close>,
  and that the checksum detects a changed byte. Python's exception messages are
  kept without their formatted values.
\<close>

section \<open>Bytes, \<open>struct\<close> and the checksum\<close>

type_synonym bytes = "8 word list"

definition slice :: "'a list \<Rightarrow> nat \<Rightarrow> nat \<Rightarrow> 'a list" where
  "slice xs i j = take (j - i) (drop i xs)"

definition byte_at :: "bytes \<Rightarrow> nat \<Rightarrow> 8 word result" where
  "byte_at xs i = (if i < length xs then Inr (xs ! i) else Inl IndexError)"

text \<open>\<open>struct.pack('>I', v)\<close> and \<open>struct.unpack('>I', bs)[0]\<close>.\<close>

definition pack_u32 :: "int \<Rightarrow> bytes result" where
  "pack_u32 v =
     (if 0 \<le> v \<and> v < 2 ^ 32
      then Inr [word_of_int (v div 2 ^ 24), word_of_int (v div 2 ^ 16), word_of_int (v div 2 ^ 8), word_of_int v]
      else Inl StructError)"

definition be32 :: "bytes \<Rightarrow> int" where
  "be32 bs = foldl (\<lambda>v b. 256 * v + uint b) 0 bs"

definition unpack_u32 :: "bytes \<Rightarrow> int result" where
  "unpack_u32 bs = (if length bs = 4 then Inr (be32 bs) else Inl StructError)"

text \<open>\<open>zlib.crc32\<close>: the reflected CRC-32 with polynomial \<open>0xEDB88320\<close>.\<close>

definition crc_shift :: "32 word \<Rightarrow> 32 word" where
  "crc_shift c = (if odd c then drop_bit 1 c XOR 0xEDB88320 else drop_bit 1 c)"

definition crc_byte :: "32 word \<Rightarrow> 8 word \<Rightarrow> 32 word" where
  "crc_byte c b = (crc_shift ^^ 8) (c XOR ucast b)"

definition crc32 :: "bytes \<Rightarrow> 32 word" where
  "crc32 bs = NOT (foldl crc_byte (NOT 0) bs)"

lemma pack_u32_unpack:
  assumes "0 \<le> v" "v < 2 ^ 32"
  obtains bs where "pack_u32 v = Inr bs" "length bs = 4" "be32 bs = v"
proof -
  let ?bs = "[word_of_int (v div 2 ^ 24), word_of_int (v div 2 ^ 16), word_of_int (v div 2 ^ 8), word_of_int v] :: bytes"
  define p q r where d: "p = v div 256" "q = p div 256" "r = q div 256"
  have e: "v div 65536 = q" "v div 16777216 = r" by (simp_all add: d div_mult2_eq [symmetric])
  have "r < 256" "0 \<le> r" using assms by (simp_all add: e(2) [symmetric])
  then have m: "r mod 256 = r" by simp
  have "be32 ?bs = 256 * (256 * (256 * r + q mod 256) + p mod 256) + v mod 256"
    by (simp add: be32_def uint_word_of_int e m d(1))
  also have "\<dots> = v"
    using mult_div_mod_eq [of 256 q] mult_div_mod_eq [of 256 p] mult_div_mod_eq [of 256 v] by (simp add: d)
  finally show ?thesis using that [of ?bs] assms by (simp add: pack_u32_def)
qed

lemma be_step_inj:
  assumes "256 * v + uint (b :: 8 word) = 256 * v' + uint b'"
  shows "v = v' \<and> b = b'"
proof -
  have r: "0 \<le> uint b" "uint b < 256" "0 \<le> uint b'" "uint b' < 256"
    using uint_lt2p [of b] uint_lt2p [of b'] by simp_all
  then have v: "v = v'" using assms by linarith
  then have "uint b = uint b'" using assms by simp
  then show ?thesis using v by (simp add: word_uint_eq_iff)
qed

lemma be_fold_inj:
  assumes "length bs = length (cs :: bytes)"
    "foldl (\<lambda>v b. 256 * v + uint b) v bs = foldl (\<lambda>v b. 256 * v + uint b) v' cs"
  shows "v = v' \<and> bs = cs"
  using assms
proof (induction bs cs arbitrary: v v' rule: list_induct2)
  case (Cons b bs c cs)
  have "256 * v + uint b = 256 * v' + uint c \<and> bs = cs" using Cons by simp
  then show ?case using be_step_inj by blast
qed simp

lemma be32_inj: "length bs = length cs \<Longrightarrow> be32 bs = be32 cs \<Longrightarrow> bs = cs"
  unfolding be32_def by (drule (1) be_fold_inj) (rule conjunct2)

lemma xor_right_cancel: "(x :: 'a::len word) XOR z = y XOR z \<longleftrightarrow> x = y"
  by (metis xor_self_eq xor.assoc xor.right_neutral)

lemma xor_left_cancel: "(z :: 'a::len word) XOR x = z XOR y \<longleftrightarrow> x = y"
  by (metis xor.commute xor_right_cancel)

lemma byte_to_word_inj: "(ucast (b :: 8 word) :: 32 word) = ucast b' \<longleftrightarrow> b = b'"
proof
  assume e: "(ucast b :: 32 word) = ucast b'"
  have "uint (ucast b :: 32 word) = uint b" "uint (ucast b' :: 32 word) = uint b'"
    by (simp_all add: uint_up_ucast is_up)
  then show "b = b'" using e by (simp add: word_uint_eq_iff)
qed simp

lemma crc_shift_inj: "inj crc_shift"
proof (rule injI)
  fix c d assume e: "crc_shift c = crc_shift d"
  have top: "bit (crc_shift x) 31 = odd x" for x :: "32 word"
  proof -
    have "bit (3988292384 :: 32 word) 31" by code_simp
    moreover have "\<not> bit (drop_bit 1 x) 31" by (auto simp: bit_drop_bit_eq dest: bit_imp_le_length)
    ultimately show ?thesis by (simp add: crc_shift_def bit_xor_iff)
  qed
  have o: "odd c = odd d" using e top [of c] top [of d] by simp
  then have "drop_bit 1 c = drop_bit 1 d" using e by (auto simp: crc_shift_def xor_right_cancel split: if_splits)
  then have s: "bit c (Suc n) = bit d (Suc n)" for n
    by (metis bit_drop_bit_eq comp_apply plus_1_eq_Suc)
  show "c = d"
  proof (rule bit_word_eqI)
    fix n assume "n < LENGTH(32)"
    show "bit c n = bit d n" using o s by (cases n) (simp_all add: bit_0)
  qed
qed

lemma crc_byte_inj:
  "crc_byte c b = crc_byte c' b \<Longrightarrow> c = c'" "crc_byte c b = crc_byte c b' \<Longrightarrow> b = b'"
proof -
  have i: "inj (crc_shift ^^ 8)" using crc_shift_inj by (rule inj_fn)
  show "crc_byte c b = crc_byte c' b \<Longrightarrow> c = c'"
    using i by (simp add: crc_byte_def inj_eq xor_right_cancel)
  show "crc_byte c b = crc_byte c b' \<Longrightarrow> b = b'"
    using i by (simp add: crc_byte_def inj_eq xor_left_cancel byte_to_word_inj)
qed

lemma crc_fold_inj: "foldl crc_byte c bs = foldl crc_byte d bs \<Longrightarrow> c = d"
  by (induction bs arbitrary: c d) (auto dest: crc_byte_inj(1))

lemma crc32_detects_byte:
  assumes "i < length bs" "b \<noteq> bs ! i"
  shows "crc32 (bs[i := b]) \<noteq> crc32 bs"
proof
  assume e: "crc32 (bs[i := b]) = crc32 bs"
  let ?c = "foldl crc_byte (NOT 0) (take i bs)"
  have "bs = take i bs @ bs ! i # drop (Suc i) bs" using assms(1) by (simp add: id_take_nth_drop)
  then have "foldl crc_byte (NOT 0) bs = foldl crc_byte (crc_byte ?c (bs ! i)) (drop (Suc i) bs)"
    by (metis foldl_Cons foldl_append)
  moreover have "foldl crc_byte (NOT 0) (bs[i := b]) = foldl crc_byte (crc_byte ?c b) (drop (Suc i) bs)"
    using assms(1) by (simp add: upd_conv_take_nth_drop)
  ultimately have "crc_byte ?c b = crc_byte ?c (bs ! i)"
    using e by (auto simp: crc32_def dest: crc_fold_inj)
  then show False using crc_byte_inj(2) assms(2) by blast
qed

section \<open>Encoding\<close>

definition SIGNATURE :: bytes where
  "SIGNATURE = [0x89, 0x50, 0x4E, 0x47, 0x0D, 0x0A, 0x1A, 0x0A]"
definition IHDR :: bytes where "IHDR = [0x49, 0x48, 0x44, 0x52]"
definition IDAT :: bytes where "IDAT = [0x49, 0x44, 0x41, 0x54]"
definition IEND :: bytes where "IEND = [0x49, 0x45, 0x4E, 0x44]"
definition GRAYSCALE_COLOR_TYPE :: "8 word" where "GRAYSCALE_COLOR_TYPE = 0"
definition BIT_DEPTH :: "8 word" where "BIT_DEPTH = 8"

definition chunk :: "bytes \<Rightarrow> bytes \<Rightarrow> bytes result" where
  "chunk chunk_type data =
     bind_result (pack_u32 (int (length data))) (\<lambda>len.
     bind_result (pack_u32 (uint (crc32 (chunk_type @ data)))) (\<lambda>crc.
     Inr (len @ chunk_type @ data @ crc)))"

text \<open>The header \<open>'>IIBBBBB'\<close> and the scanlines, each after a filter byte 0.\<close>

definition pack_ihdr :: "int \<Rightarrow> int \<Rightarrow> bytes result" where
  "pack_ihdr width height =
     bind_result (pack_u32 width) (\<lambda>w.
     bind_result (pack_u32 height) (\<lambda>h.
     Inr (w @ h @ [BIT_DEPTH, GRAYSCALE_COLOR_TYPE, 0, 0, 0])))"

definition scanlines :: "nat \<Rightarrow> nat \<Rightarrow> bytes \<Rightarrow> bytes" where
  "scanlines width height pixels =
     concat (map (\<lambda>row. 0 # slice pixels (row * width) ((row + 1) * width)) [0..<height])"

definition encode_grayscale_png ::
  "(bytes \<Rightarrow> bytes) \<Rightarrow> int \<Rightarrow> int \<Rightarrow> bytes \<Rightarrow> bytes result" where
  "encode_grayscale_png compress width height pixels =
     (if width \<le> 0 \<or> height \<le> 0 then Inl (PngError ''width and height must be positive'')
      else if int (length pixels) \<noteq> width * height
      then Inl (PngError ''pixel data length does not match width * height'')
      else bind_result (pack_ihdr width height) (\<lambda>ihdr.
           bind_result (chunk IHDR ihdr) (\<lambda>c1.
           bind_result (chunk IDAT (compress (scanlines (nat width) (nat height) pixels))) (\<lambda>c2.
           bind_result (chunk IEND []) (\<lambda>c3.
           Inr (SIGNATURE @ c1 @ c2 @ c3))))))"

section \<open>Scanline filters\<close>

definition paeth :: "int \<Rightarrow> int \<Rightarrow> int \<Rightarrow> int" where
  "paeth a b c =
     (let p = a + b - c; pa = \<bar>p - a\<bar>; pb = \<bar>p - b\<bar>; pc = \<bar>p - c\<bar> in
      if pa \<le> pb \<and> pa \<le> pc then a else if pb \<le> pc then b else c)"

text \<open>
  The value added to a byte by filter type \<open>f\<close>, from its left (\<open>a\<close>), upper
  (\<open>b\<close>) and upper left (\<open>c\<close>) neighbours.
\<close>

definition prediction :: "8 word \<Rightarrow> int \<Rightarrow> int \<Rightarrow> int \<Rightarrow> int" where
  "prediction f a b c =
     (if f = 1 then a else if f = 2 then b else if f = 3 then (a + b) div 2 else paeth a b c)"

text \<open>
  One iteration \<open>i\<close> of a filter loop: \<open>line[i] = (line[i] + ...) & 0xFF\<close>; an
  index outside the line or the previous row raises.
\<close>

definition neighbour :: "bytes \<Rightarrow> nat \<Rightarrow> int" where
  "neighbour row i = (if 1 \<le> i then uint (row ! (i - 1)) else 0)"

definition unfilter_byte :: "8 word \<Rightarrow> bytes \<Rightarrow> bytes \<Rightarrow> nat \<Rightarrow> bytes result" where
  "unfilter_byte f previous line i =
     bind_result (byte_at line i) (\<lambda>x.
     bind_result (if f = 1 then Inr 0 else byte_at previous i) (\<lambda>b.
     Inr (line[i := word_of_int (uint x
            + prediction f (neighbour line i) (uint b) (neighbour previous i))])))"

fun unfilter_bytes :: "8 word \<Rightarrow> bytes \<Rightarrow> bytes \<Rightarrow> nat list \<Rightarrow> bytes result" where
  "unfilter_bytes f previous line [] = Inr line"
| "unfilter_bytes f previous line (i # is) =
     bind_result (unfilter_byte f previous line i) (\<lambda>line'. unfilter_bytes f previous line' is)"

definition unfilter_row :: "8 word \<Rightarrow> bytes \<Rightarrow> bytes \<Rightarrow> nat \<Rightarrow> bytes result" where
  "unfilter_row f previous line width =
     (if f = 0 then Inr line
      else if f \<in> {1, 2, 3, 4} then unfilter_bytes f previous line [0..<width]
      else Inl (PngError ''unsupported PNG scanline filter type''))"

text \<open>The loop over the rows; \<open>out\<close>, \<open>previous_row\<close> and \<open>pos\<close> are its variables.\<close>

fun unfilter_rows :: "bytes \<Rightarrow> nat \<Rightarrow> nat list \<Rightarrow> nat \<Rightarrow> bytes \<Rightarrow> bytes \<Rightarrow> bytes result" where
  "unfilter_rows raw width [] pos previous out = Inr out"
| "unfilter_rows raw width (row # rows) pos previous out =
     bind_result (byte_at raw pos) (\<lambda>filter_type.
     bind_result (unfilter_row filter_type previous (slice raw (pos + 1) (pos + 1 + width)) width) (\<lambda>line.
     unfilter_rows raw width rows (pos + 1 + width) line
       (take (row * width) out @ line @ drop ((row + 1) * width) out)))"

definition unfilter :: "bytes \<Rightarrow> nat \<Rightarrow> nat \<Rightarrow> bytes result" where
  "unfilter raw width height =
     unfilter_rows raw width [0..<height] 0 (replicate width 0) (replicate (width * height) 0)"

section \<open>Decoding\<close>

record png_state =
  ps_pos :: nat
  ps_dims :: "(int \<times> int) option"
  ps_idat :: bytes
  ps_seen_ihdr :: bool
  ps_seen_iend :: bool

text \<open>The first half of an iteration: header, bounds and checksum of the chunk at \<open>pos\<close>.\<close>

definition read_chunk :: "bytes \<Rightarrow> nat \<Rightarrow> (bytes \<times> bytes \<times> nat) result" where
  "read_chunk data pos =
     (if length data < pos + 8 then Inl (PngError ''truncated PNG chunk header'')
      else bind_result (unpack_u32 (slice data pos (pos + 4))) (\<lambda>len.
        let chunk_type = slice data (pos + 4) (pos + 8);
            chunk_start = pos + 8;
            chunk_end = chunk_start + nat len
        in if len < 0 \<or> length data < chunk_end + 4 then Inl (PngError ''truncated PNG chunk'')
           else (let chunk_data = slice data chunk_start chunk_end in
             bind_result (unpack_u32 (slice data chunk_end (chunk_end + 4))) (\<lambda>crc_expected.
             if uint (crc32 (chunk_type @ chunk_data)) \<noteq> crc_expected
             then Inl (PngError ''PNG chunk fails CRC check (corrupt file)'')
             else Inr (chunk_type, chunk_data, chunk_end + 4)))))"

definition read_ihdr :: "bytes \<Rightarrow> (int \<times> int) result" where
  "read_ihdr d =
     (if length d \<noteq> 13 then Inl (PngError ''malformed IHDR chunk'')
      else bind_result (unpack_u32 (slice d 0 4)) (\<lambda>width.
        bind_result (unpack_u32 (slice d 4 8)) (\<lambda>height.
        if d ! 8 \<noteq> BIT_DEPTH \<or> d ! 9 \<noteq> GRAYSCALE_COLOR_TYPE
        then Inl (PngError ''unsupported PNG format; only 8-bit grayscale is supported'')
        else if d ! 10 \<noteq> 0 \<or> d ! 11 \<noteq> 0
        then Inl (PngError ''unsupported PNG compression/filter method'')
        else if d ! 12 \<noteq> 0 then Inl (PngError ''interlaced PNG is not supported'')
        else Inr (width, height))))"

definition apply_chunk :: "png_state \<Rightarrow> bytes \<Rightarrow> bytes \<Rightarrow> png_state result" where
  "apply_chunk st chunk_type chunk_data =
     (if chunk_type = IHDR
      then bind_result (read_ihdr chunk_data) (\<lambda>dims. Inr (st\<lparr>ps_dims := Some dims, ps_seen_ihdr := True\<rparr>))
      else if chunk_type = IDAT
      then (if \<not> ps_seen_ihdr st then Inl (PngError ''PNG IDAT chunk appears before IHDR'')
            else Inr (st\<lparr>ps_idat := ps_idat st @ chunk_data\<rparr>))
      else if chunk_type = IEND then Inr (st\<lparr>ps_seen_iend := True\<rparr>)
      else Inr st)"

lemma bind_result_cong [fundef_cong]:
  "r = r' \<Longrightarrow> (\<And>a. r' = Inr a \<Longrightarrow> f a = f' a) \<Longrightarrow> bind_result r f = bind_result r' f'"
  by (cases r') auto

lemma read_chunk_progress: "read_chunk data pos = Inr (t, d, next) \<Longrightarrow> pos < next \<and> next \<le> length data"
  by (auto simp: read_chunk_def bind_result_Inr_iff Let_def split: if_splits)

function decode_chunks :: "bytes \<Rightarrow> png_state \<Rightarrow> png_state result" where
  "decode_chunks data st =
     (if ps_pos st < length data \<and> \<not> ps_seen_iend st
      then bind_result (read_chunk data (ps_pos st)) (\<lambda>(chunk_type, chunk_data, next).
           bind_result (apply_chunk st chunk_type chunk_data) (\<lambda>st'.
           decode_chunks data (st'\<lparr>ps_pos := next\<rparr>)))
      else Inr st)"
  by pat_completeness auto

termination
  by (relation "measure (\<lambda>(data, st). length data - ps_pos st)")
     (auto dest!: read_chunk_progress)

declare decode_chunks.simps [simp del]

lemma decode_chunks_stop: "\<not> (ps_pos st < length data \<and> \<not> ps_seen_iend st) \<Longrightarrow> decode_chunks data st = Inr st"
  by (subst decode_chunks.simps) auto

lemma decode_chunks_go:
  "ps_pos st < length data \<and> \<not> ps_seen_iend st \<Longrightarrow> decode_chunks data st =
     bind_result (read_chunk data (ps_pos st)) (\<lambda>(t, d, n).
     bind_result (apply_chunk st t d) (\<lambda>st'. decode_chunks data (st'\<lparr>ps_pos := n\<rparr>)))"
  by (subst decode_chunks.simps) simp

definition png_start :: png_state where
  "png_start = \<lparr> ps_pos = length SIGNATURE, ps_dims = None, ps_idat = [], ps_seen_ihdr = False,
     ps_seen_iend = False \<rparr>"

text \<open>After the loop: the checks, inflation and the scanline filters.\<close>

definition finish_png :: "(bytes \<Rightarrow> bytes option) \<Rightarrow> png_state \<Rightarrow> (int \<times> int \<times> bytes) result" where
  "finish_png decompress st =
     (if \<not> ps_seen_ihdr st then Inl (PngError ''PNG has no IHDR chunk'')
      else if \<not> ps_seen_iend st then Inl (PngError ''PNG has no IEND chunk'')
      else if ps_idat st = [] then Inl (PngError ''PNG has no IDAT data'')
      else case decompress (ps_idat st) of
          None \<Rightarrow> Inl (PngError ''PNG pixel data does not inflate'')
        | Some raw \<Rightarrow>
            (case ps_dims st of
               None \<Rightarrow> Inl (TypeError ''unsupported operand NoneType'')
             | Some (width, height) \<Rightarrow>
                 if int (length raw) \<noteq> height * (1 + width)
                 then Inl (PngError ''PNG pixel data length does not match declared dimensions'')
                 else bind_result (unfilter raw (nat width) (nat height)) (\<lambda>pixels.
                      Inr (width, height, pixels))))"

definition decode_grayscale_png ::
  "(bytes \<Rightarrow> bytes option) \<Rightarrow> bytes \<Rightarrow> (int \<times> int \<times> bytes) result" where
  "decode_grayscale_png decompress data =
     (if take (length SIGNATURE) data \<noteq> SIGNATURE
      then Inl (PngError ''not a PNG file (bad signature)'')
      else bind_result (decode_chunks data png_start) (finish_png decompress))"

section \<open>Chunks\<close>

lemma pack_u32_length: "pack_u32 v = Inr bs \<Longrightarrow> length bs = 4 \<and> be32 bs = v \<and> 0 \<le> v"
  by (metis pack_u32_unpack pack_u32_def sum.inject(2) Inl_Inr_False)

lemma pack_u32_word: "\<exists>bs. pack_u32 (uint (w :: 32 word)) = Inr bs"
  using uint_lt2p [of w] by (simp add: pack_u32_def)

lemma slice_append:
  "slice (xs @ ys) (length xs) (length xs + n) = take n ys"
  "n \<le> length xs \<Longrightarrow> slice (xs @ ys) (length xs - n) (length xs) = drop (length xs - n) xs"
  by (simp_all add: slice_def)

lemma slice_middle: "p = length xs \<Longrightarrow> q = p + length ys \<Longrightarrow> slice (xs @ ys @ zs) p q = ys"
  by (simp add: slice_def)

lemma length_slice: "j \<le> length xs \<Longrightarrow> length (slice xs i j) = j - i"
  by (simp add: slice_def)

text \<open>What \<open>read_chunk\<close> does with a framed chunk, whatever its checksum field holds.\<close>

lemma read_framed:
  assumes "length t = 4" "pack_u32 (int (length d)) = Inr len" "length crc = 4" "p = length pre"
  shows "read_chunk (pre @ len @ t @ d @ crc @ rest) p =
    (if uint (crc32 (t @ d)) \<noteq> be32 crc then Inl (PngError ''PNG chunk fails CRC check (corrupt file)'')
     else Inr (t, d, p + 12 + length d))"
proof -
  have l: "length len = 4" "be32 len = int (length d)" using pack_u32_length [OF assms(2)] by simp_all
  let ?data = "pre @ len @ t @ d @ crc @ rest"
  have s1: "slice ?data p (p + 4) = len" using l assms by (intro slice_middle) simp_all
  have s2: "slice ?data (p + 4) (p + 8) = t"
    using slice_middle [of "p + 4" "pre @ len" "p + 8" t "d @ crc @ rest"] l assms by simp
  have s3: "slice ?data (p + 8) (p + 8 + length d) = d"
    using slice_middle [of "p + 8" "pre @ len @ t" "p + 8 + length d" d "crc @ rest"] l assms by simp
  have s4: "slice ?data (p + 8 + length d) (p + 8 + length d + 4) = crc"
    using slice_middle [of "p + 8 + length d" "pre @ len @ t @ d" "p + 8 + length d + 4" crc rest] l assms
    by simp
  show ?thesis
    unfolding read_chunk_def s1 unpack_u32_def l bind_result_simps Let_def if_True simp_thms nat_int s2 s3 s4 assms(3)
    using assms l by simp
qed

definition framed :: "bytes \<Rightarrow> bytes \<Rightarrow> bytes \<Rightarrow> bool" where
  "framed t d bs \<longleftrightarrow> (\<exists>len crc. pack_u32 (int (length d)) = Inr len \<and> length crc = 4 \<and> length t = 4
     \<and> be32 crc = uint (crc32 (t @ d)) \<and> bs = len @ t @ d @ crc)"

lemma chunk_framed:
  assumes "chunk t d = Inr bs" "length t = 4"
  shows "framed t d bs"
proof -
  obtain len crc where "pack_u32 (int (length d)) = Inr len"
    "pack_u32 (uint (crc32 (t @ d))) = Inr crc" "bs = len @ t @ d @ crc"
    using assms(1) by (auto simp: chunk_def bind_result_Inr_iff)
  then show ?thesis using pack_u32_length assms(2) unfolding framed_def by blast
qed

lemma chunk_total:
  assumes "length d < 2 ^ 32"
  shows "\<exists>bs. chunk t d = Inr bs"
proof -
  obtain crc where "pack_u32 (uint (crc32 (t @ d))) = Inr crc" using pack_u32_word by blast
  moreover obtain len where "pack_u32 (int (length d)) = Inr len"
    using assms by (auto intro: pack_u32_unpack [of "int (length d)"])
  ultimately show ?thesis by (simp add: chunk_def)
qed

lemma framed_length: "framed t d bs \<Longrightarrow> length bs = 12 + length d"
  by (auto simp: framed_def dest!: pack_u32_length)

lemma read_intact:
  "framed t d bs \<Longrightarrow> p = length pre \<Longrightarrow> read_chunk (pre @ bs @ rest) p = Inr (t, d, p + length bs)"
  using read_framed [of t d _ _ p pre rest] framed_length [of t d bs] by (fastforce simp: framed_def)

lemma read_corrupt:
  assumes "framed t d bs" "p = length pre" "4 \<le> i" "i < length bs" "b \<noteq> bs ! i"
  shows "read_chunk (pre @ bs[i := b] @ rest) p = Inl (PngError ''PNG chunk fails CRC check (corrupt file)'')"
proof -
  obtain len crc where f: "pack_u32 (int (length d)) = Inr len" "length crc = 4" "length t = 4"
    "be32 crc = uint (crc32 (t @ d))" "bs = len @ t @ d @ crc"
    using assms(1) by (auto simp: framed_def)
  have l: "length len = 4" using pack_u32_length [OF f(1)] by simp
  show ?thesis
  proof (cases "i < 8 + length d")
    case True
    define u where "u = (t @ d)[i - 4 := b]"
    have u: "u = take 4 u @ drop 4 u" "length (take 4 u) = 4" "length (drop 4 u) = length d"
      using f(3) by (simp_all add: u_def)
    have td: "bs = len @ (t @ d) @ crc" using f by simp
    have n: "bs ! i = (t @ d) ! (i - 4)"
      unfolding td nth_append [of len] nth_append [of "t @ d"] using l True assms(3) f(3) less_diff_conv2 by auto
    have "bs[i := b] = len @ u @ crc"
      unfolding td u_def list_update_append [of len] list_update_append [of "t @ d"]
      using True assms(3) l f(3) less_diff_conv2 by auto
    then have e: "bs[i := b] = len @ take 4 u @ drop 4 u @ crc"
      using u(1) by (metis append.assoc)
    have "crc32 u \<noteq> crc32 (t @ d)"
      unfolding u_def using True assms f(3) n by (intro crc32_detects_byte) simp_all
    then have "uint (crc32 (take 4 u @ drop 4 u)) \<noteq> be32 crc"
      using f(4) u(1) by (simp add: word_uint_eq_iff)
    moreover have "pack_u32 (int (length (drop 4 u))) = Inr len" using f(1) u(3) by presburger
    ultimately show ?thesis
      using read_framed [OF u(2) _ f(2) assms(2), of "drop 4 u" len rest] unfolding e by simp
  next
    case False
    define c where "c = crc[i - (8 + length d) := b]"
    have td: "bs = (len @ t @ d) @ crc" and h: "length (len @ t @ d) = 8 + length d"
      using f l by simp_all
    have e: "bs[i := b] = len @ t @ d @ c"
      unfolding td list_update_append [of "len @ t @ d"] h using False by (simp add: c_def)
    have n: "bs ! i = crc ! (i - (8 + length d))"
      unfolding td nth_append [of "len @ t @ d"] h using False by simp
    have len: "length c = 4" "i - (8 + length d) < length crc"
      using f l False assms(4) by (simp_all add: c_def)
    then have "c \<noteq> crc" using assms(5) n by (metis c_def nth_list_update_eq)
    then have "be32 c \<noteq> be32 crc" using be32_inj [of c crc] len f(2) by auto
    then show ?thesis
      using read_framed [of t d len c p pre rest] e len f assms(2) by simp
  qed
qed

section \<open>Decoding inverts encoding\<close>

lemma unpack_prefix: "length len = 4 \<Longrightarrow> unpack_u32 (slice (pre @ len @ rest) (length pre) (length pre + 4)) = Inr (be32 len)"
  by (simp add: slice_def unpack_u32_def)

lemma read_packed_ihdr:
  assumes "pack_ihdr w h = Inr d"
  shows "length d = 13 \<and> read_ihdr d = Inr (w, h)"
proof -
  obtain a b where p: "pack_u32 w = Inr a" "pack_u32 h = Inr b"
    and d: "d = a @ b @ [BIT_DEPTH, GRAYSCALE_COLOR_TYPE, 0, 0, 0]"
    using assms by (auto simp: pack_ihdr_def bind_result_Inr_iff)
  have l: "length a = 4" "be32 a = w" "length b = 4" "be32 b = h" using p pack_u32_length by blast+
  have "slice d 0 4 = a" "slice d 4 8 = b" using l by (simp_all add: d slice_def)
  moreover have "d ! 8 = BIT_DEPTH" "d ! 9 = GRAYSCALE_COLOR_TYPE" "d ! 10 = 0" "d ! 11 = 0" "d ! 12 = 0"
    using l by (simp_all add: d nth_append)
  ultimately show ?thesis using l by (simp add: read_ihdr_def unpack_u32_def d)
qed

lemma decode_step:
  assumes "read_chunk data (ps_pos st) = Inr (t, d, next)" "apply_chunk st t d = Inr st'" "\<not> ps_seen_iend st"
  shows "decode_chunks data st = decode_chunks data (st'\<lparr>ps_pos := next\<rparr>)"
  using assms read_chunk_progress [OF assms(1)] by (subst decode_chunks.simps) simp

lemma type_lengths: "length IHDR = 4" "length IDAT = 4" "length IEND = 4"
  by (simp_all add: IHDR_def IDAT_def IEND_def)

text \<open>The chunks of an encoded picture.\<close>

lemma encode_chunks:
  assumes "encode_grayscale_png compress w h px = Inr data"
  obtains ihdr c1 c2 c3 where "0 < w" "0 < h" "int (length px) = w * h" "pack_ihdr w h = Inr ihdr"
    "framed IHDR ihdr c1" "framed IDAT (compress (scanlines (nat w) (nat h) px)) c2" "framed IEND [] c3"
    "data = SIGNATURE @ c1 @ c2 @ c3"
proof -
  have "0 < w \<and> 0 < h \<and> int (length px) = w * h \<and> (\<exists>ihdr c1 c2 c3. pack_ihdr w h = Inr ihdr
    \<and> chunk IHDR ihdr = Inr c1 \<and> chunk IDAT (compress (scanlines (nat w) (nat h) px)) = Inr c2
    \<and> chunk IEND [] = Inr c3 \<and> data = SIGNATURE @ c1 @ c2 @ c3)"
    using assms by (auto simp: encode_grayscale_png_def bind_result_Inr_iff split: if_splits)
  then show ?thesis using that chunk_framed type_lengths by metis
qed

lemma encoded_length: "encode_grayscale_png compress w h px = Inr data \<Longrightarrow> 36 \<le> length data"
  by (erule encode_chunks) (auto dest!: framed_length)

lemma type_names: "IDAT \<noteq> IHDR" "IEND \<noteq> IHDR" "IEND \<noteq> IDAT" "IHDR \<noteq> IDAT" "IHDR \<noteq> IEND" "IDAT \<noteq> IEND"
  by (simp_all add: IHDR_def IDAT_def IEND_def)

abbreviation after_ihdr :: "nat \<Rightarrow> int \<Rightarrow> int \<Rightarrow> bytes \<Rightarrow> bool \<Rightarrow> png_state" where
  "after_ihdr p w h idat e \<equiv> \<lparr> ps_pos = p, ps_dims = Some (w, h), ps_idat = idat, ps_seen_ihdr = True,
     ps_seen_iend = e \<rparr>"

lemma SIGNATURE_length: "length SIGNATURE = 8"
  by (simp add: SIGNATURE_def)

lemma decode_header:
  assumes "pack_ihdr w h = Inr ihdr" "framed IHDR ihdr c1"
  shows "decode_chunks (SIGNATURE @ c1 @ rest) png_start
    = decode_chunks (SIGNATURE @ c1 @ rest) (after_ihdr (8 + length c1) w h [] False)"
proof -
  have "read_chunk (SIGNATURE @ c1 @ rest) (ps_pos png_start) = Inr (IHDR, ihdr, 8 + length c1)"
    using read_intact [OF assms(2) refl, of SIGNATURE rest] by (simp add: png_start_def SIGNATURE_length)
  moreover have "apply_chunk png_start IHDR ihdr = Inr (after_ihdr 8 w h [] False)"
    using read_packed_ihdr [OF assms(1)] by (simp add: apply_chunk_def png_start_def SIGNATURE_length)
  ultimately show ?thesis
    by (subst decode_step) (auto simp: png_start_def)
qed

lemma decode_data:
  assumes "framed IDAT z c2" "p = length pre"
  shows "decode_chunks (pre @ c2 @ rest) (after_ihdr p w h [] False)
    = decode_chunks (pre @ c2 @ rest) (after_ihdr (p + length c2) w h z False)"
  using read_intact [OF assms, of rest]
  by (subst decode_step [where st' = "after_ihdr p w h z False"]) (auto simp: apply_chunk_def type_names)

lemma decode_end:
  assumes "framed IEND [] c3" "p = length pre"
  shows "decode_chunks (pre @ c3) (after_ihdr p w h z False) = Inr (after_ihdr (p + length c3) w h z True)"
proof -
  have "decode_chunks (pre @ c3) (after_ihdr p w h z False)
      = decode_chunks (pre @ c3) (after_ihdr (p + length c3) w h z True)"
    using read_intact [OF assms, of "[]"]
    by (subst decode_step [where st' = "after_ihdr p w h z True"]) (auto simp: apply_chunk_def type_names)
  then show ?thesis by (simp add: decode_chunks_stop)
qed

text \<open>Row \<open>k\<close> of the scanlines sits at offset \<open>k * (1 + width)\<close>.\<close>

lemma concat_rows_drop:
  assumes "\<And>r. r < height \<Longrightarrow> length (f r) = n" "k \<le> height"
  shows "drop (k * n) (concat (map f [0..<height])) = concat (map f [k..<height])"
  using assms(2)
proof (induction k)
  case (Suc k)
  have e: "[k..<height] = k # [Suc k..<height]" using Suc.prems by (simp add: upt_conv_Cons)
  have "drop (Suc k * n) (concat (map f [0..<height])) = drop n (concat (map f [k..<height]))"
    using Suc by (simp add: drop_drop [symmetric] add.commute)
  then show ?case using assms(1) [of k] Suc.prems by (simp add: e)
qed simp

lemma row_length: "length px = width * height \<Longrightarrow> r < height \<Longrightarrow> length (slice px (r * width) ((r + 1) * width)) = width"
proof -
  assume "length px = width * height" "r < height"
  then have "(r + 1) * width \<le> length px" by (metis Suc_eq_plus1 Suc_leI mult.commute mult_le_mono2)
  then show ?thesis by (simp add: length_slice)
qed

lemma scanlines_row:
  assumes "length px = width * height" "k < height"
  shows "byte_at (scanlines width height px) (k * (1 + width)) = Inr 0"
    "slice (scanlines width height px) (k * (1 + width) + 1) (k * (1 + width) + 1 + width)
       = slice px (k * width) ((k + 1) * width)"
proof -
  let ?row = "\<lambda>r. slice px (r * width) ((r + 1) * width)"
  have d: "drop (k * (1 + width)) (scanlines width height px) = 0 # ?row k @ concat (map (\<lambda>r. 0 # ?row r) [Suc k..<height])"
    unfolding scanlines_def using assms row_length
    by (subst concat_rows_drop [where n = "1 + width"]) (simp_all add: upt_conv_Cons)
  then have l: "k * (1 + width) < length (scanlines width height px)"
    using drop_eq_Nil [of "k * (1 + width)" "scanlines width height px"] by simp
  show "byte_at (scanlines width height px) (k * (1 + width)) = Inr 0"
    using l hd_drop_conv_nth [OF l] unfolding byte_at_def d by simp
  have "drop (k * (1 + width) + 1) (scanlines width height px) = ?row k @ concat (map (\<lambda>r. 0 # ?row r) [Suc k..<height])"
    using arg_cong [OF d, of "drop 1"] by (simp add: add.commute)
  then show "slice (scanlines width height px) (k * (1 + width) + 1) (k * (1 + width) + 1 + width) = ?row k"
    using row_length [OF assms] by (simp add: slice_def [of "scanlines width height px"])
qed

lemma scanlines_length:
  assumes "length px = width * height"
  shows "length (scanlines width height px) = height * (1 + width)"
proof -
  have "map (\<lambda>r. length (0 # slice px (r * width) ((r + 1) * width))) [0..<height] = map (\<lambda>r. 1 + width) [0..<height]"
    using row_length [OF assms] by (intro map_cong) simp_all
  then show ?thesis by (simp add: scanlines_def length_concat o_def map_replicate_const sum_list_replicate)
qed

lemma take_row:
  assumes "length px = width * height" "k < height" "take (k * width) out = take (k * width) px"
    "length out = width * height"
  shows "take ((k + 1) * width) (take (k * width) out @ slice px (k * width) ((k + 1) * width)
           @ drop ((k + 1) * width) out) = take ((k + 1) * width) px"
    "length (take (k * width) out @ slice px (k * width) ((k + 1) * width) @ drop ((k + 1) * width) out)
       = width * height"
proof -
  have k: "(k + 1) * width \<le> width * height" using assms(2) by (metis Suc_eq_plus1 Suc_leI mult.commute mult_le_mono2)
  have "take (k * width) px @ slice px (k * width) ((k + 1) * width) = take ((k + 1) * width) px"
    using take_add [of "k * width" width px] by (simp add: slice_def add.commute)
  then show "take ((k + 1) * width) (take (k * width) out @ slice px (k * width) ((k + 1) * width)
      @ drop ((k + 1) * width) out) = take ((k + 1) * width) px"
    using k assms row_length [OF assms(1,2)] by simp
  show "length (take (k * width) out @ slice px (k * width) ((k + 1) * width) @ drop ((k + 1) * width) out)
       = width * height"
    using k assms row_length [OF assms(1,2)] by simp
qed

lemma unfilter_scanlines:
  assumes "length px = width * height"
  shows "unfilter (scanlines width height px) width height = Inr px"
proof -
  have "unfilter_rows (scanlines width height px) width [k..<height] (k * (1 + width)) previous out = Inr px"
    if "k \<le> height" "take (k * width) out = take (k * width) px" "length out = width * height" for k previous out
    using that
  proof (induction "height - k" arbitrary: k previous out)
    case 0
    then show ?case using assms by (simp add: mult.commute)
  next
    case (Suc n)
    have k: "k < height" using Suc by simp
    let ?row = "slice px (k * width) ((k + 1) * width)"
    have "unfilter_rows (scanlines width height px) width [Suc k..<height] (Suc k * (1 + width)) ?row
        (take (k * width) out @ ?row @ drop ((k + 1) * width) out) = Inr px"
      using Suc take_row [OF assms k Suc.prems(2,3)] k by (intro Suc.hyps(1)) auto
    then show ?case
      using scanlines_row [OF assms k] k
      by (simp add: upt_conv_Cons unfilter_row_def algebra_simps)
  qed
  then show ?thesis unfolding unfilter_def by (metis le0 length_replicate mult_0 take0)
qed

section \<open>Totality of the decoder\<close>

definition png_fails :: "'a result \<Rightarrow> bool" where
  "png_fails r = (case r of Inl (PngError m) \<Rightarrow> True | _ \<Rightarrow> False)"

lemma png_fails_simps [simp]: "png_fails (Inl (PngError m))" "\<not> png_fails (Inr x)"
  by (simp_all add: png_fails_def)

lemma png_fails_bind: "png_fails r \<Longrightarrow> png_fails (bind_result r f)"
  by (cases r) (auto simp: png_fails_def split: py_error.splits)

lemma be32_nonneg: "0 \<le> be32 bs"
proof -
  have "0 \<le> v \<Longrightarrow> 0 \<le> foldl (\<lambda>v b. 256 * v + uint b) v bs" for v by (induction bs arbitrary: v) simp_all
  then show ?thesis by (simp add: be32_def)
qed

lemma read_chunk_outcome: "png_fails (read_chunk data pos) \<or> is_ok (read_chunk data pos)"
  by (auto simp: read_chunk_def unpack_u32_def length_slice Let_def)

lemma read_ihdr_outcome: "png_fails (read_ihdr d) \<or> (\<exists>w h. read_ihdr d = Inr (w, h) \<and> 0 \<le> w \<and> 0 \<le> h)"
  by (auto simp: read_ihdr_def unpack_u32_def length_slice be32_nonneg)

definition ps_ok :: "png_state \<Rightarrow> bool" where
  "ps_ok st \<longleftrightarrow> (ps_seen_ihdr st \<longrightarrow> (\<exists>w h. ps_dims st = Some (w, h) \<and> 0 \<le> w \<and> 0 \<le> h))"

lemma apply_chunk_outcome:
  "ps_ok st \<Longrightarrow> png_fails (apply_chunk st t d) \<or> (\<exists>st'. apply_chunk st t d = Inr st' \<and> ps_ok st')"
  using read_ihdr_outcome [of d] by (auto simp: apply_chunk_def ps_ok_def png_fails_bind)

lemma decode_chunks_outcome:
  "ps_ok st \<Longrightarrow> png_fails (decode_chunks data st) \<or> (\<exists>st'. decode_chunks data st = Inr st' \<and> ps_ok st')"
proof (induction data st rule: decode_chunks.induct)
  case (1 data st)
  show ?case
  proof (cases "ps_pos st < length data \<and> \<not> ps_seen_iend st")
    case False
    then show ?thesis using 1(2) by (simp add: decode_chunks_stop)
  next
    case True
    consider "png_fails (read_chunk data (ps_pos st))" | t d n where "read_chunk data (ps_pos st) = Inr (t, d, n)"
      using read_chunk_outcome [of data "ps_pos st"] by (auto simp: is_ok_iff)
    then show ?thesis
    proof cases
      case 1
      then show ?thesis using True by (simp add: decode_chunks_go png_fails_bind)
    next
      case (2 t d n)
      note read = 2
      consider "png_fails (apply_chunk st t d)" | st' where "apply_chunk st t d = Inr st'" "ps_ok st'"
        using apply_chunk_outcome [OF 1(2), of t d] by blast
      then show ?thesis
      proof cases
        case 1
        then show ?thesis using True 2 by (simp add: decode_chunks_go [OF True] png_fails_bind)
      next
        case (2 st')
        have "ps_ok (st'\<lparr>ps_pos := n\<rparr>)" using 2(2) by (simp add: ps_ok_def)
        then show ?thesis
          using "1.IH" [OF True read refl refl 2(1)] unfolding decode_chunks_go [OF True] read
          by (simp add: 2(1))
      qed
    qed
  qed
qed

lemma unfilter_bytes_ok:
  assumes "length line = length previous" "\<forall>i \<in> set is. i < length line"
  shows "\<exists>line'. unfilter_bytes f previous line is = Inr line' \<and> length line' = length line"
  using assms by (induction "is" arbitrary: line) (auto simp: unfilter_byte_def byte_at_def)

lemma unfilter_row_outcome:
  assumes "length line = width" "length previous = width"
  shows "png_fails (unfilter_row f previous line width)
    \<or> (\<exists>line'. unfilter_row f previous line width = Inr line' \<and> length line' = width)"
  using unfilter_bytes_ok [of line previous "[0..<width]" f] assms by (auto simp: unfilter_row_def)

lemma unfilter_rows_outcome:
  assumes "length raw = height * (1 + width)" "k \<le> height" "length previous = width"
    "length out = width * height"
  shows "png_fails (unfilter_rows raw width [k..<height] (k * (1 + width)) previous out)
    \<or> (\<exists>px. unfilter_rows raw width [k..<height] (k * (1 + width)) previous out = Inr px
          \<and> length px = width * height)"
  using assms
proof (induction "height - k" arbitrary: k previous out)
  case 0
  then show ?case by simp
next
  case (Suc n)
  have k: "k < height" using Suc by simp
  have e: "[k..<height] = k # [Suc k..<height]" using k by (simp add: upt_conv_Cons)
  have b: "k * (1 + width) + 1 + width \<le> height * (1 + width)"
    using k by (metis Suc_leI add.assoc add.commute mult_Suc mult_le_mono1)
  have w: "(k + 1) * width \<le> width * height" using k by (metis Suc_eq_plus1 Suc_leI mult.commute mult_le_mono2)
  let ?line = "slice raw (k * (1 + width) + 1) (k * (1 + width) + 1 + width)"
  have at: "byte_at raw (k * (1 + width)) = Inr (raw ! (k * (1 + width)))"
    using b Suc.prems(1) by (simp add: byte_at_def)
  let ?r = "unfilter_row (raw ! (k * (1 + width))) previous ?line width"
  have "length ?line = width" using b Suc.prems(1) by (simp add: length_slice)
  then consider "png_fails ?r" | line where "?r = Inr line" "length line = width"
    using unfilter_row_outcome Suc.prems(3) by blast
  then show ?case
  proof cases
    case 1
    then show ?thesis unfolding e using at by (simp add: png_fails_bind)
  next
    case (2 line)
    let ?out = "take (k * width) out @ line @ drop ((k + 1) * width) out"
    have "length ?out = width * height" using 2 w Suc.prems(4) by simp
    then have "png_fails (unfilter_rows raw width [Suc k..<height] (Suc k * (1 + width)) line ?out)
      \<or> (\<exists>px. unfilter_rows raw width [Suc k..<height] (Suc k * (1 + width)) line ?out = Inr px
          \<and> length px = width * height)"
      using Suc k 2 by (intro Suc.hyps(1)) auto
    moreover have "k * (1 + width) + 1 + width = Suc k * (1 + width)" by simp
    ultimately show ?thesis unfolding e unfilter_rows.simps at bind_result_simps 2(1) by metis
  qed
qed

lemma nat_product: "0 \<le> w \<Longrightarrow> 0 \<le> h \<Longrightarrow> int n = w * h \<longleftrightarrow> n = nat w * nat h"
  by (simp add: int_eq_iff nat_mult_distrib)

lemma decode_chunks_error:
  "read_chunk data (ps_pos st) = Inl e \<Longrightarrow> ps_pos st < length data \<Longrightarrow> \<not> ps_seen_iend st
    \<Longrightarrow> decode_chunks data st = Inl e"
  by (simp add: decode_chunks_go)

lemma corrupt_chunk_stops:
  assumes "framed t d bs" "p = length pre" "4 \<le> i" "i < length bs" "b \<noteq> bs ! i" "ps_pos st = p" "\<not> ps_seen_iend st"
  shows "decode_chunks (pre @ bs[i := b] @ rest) st = Inl (PngError ''PNG chunk fails CRC check (corrupt file)'')"
  using assms read_corrupt [OF assms(1-5)] by (intro decode_chunks_error) auto

text \<open>What the encoder wrote, the decoder reads.\<close>

lemma encoded_decodes:
  assumes enc: "encode_grayscale_png compress w h px = Inr data"
    and inflate: "\<And>raw. decompress (compress raw) = Some raw"
    and size: "\<And>raw. length raw = length px + nat h \<Longrightarrow> compress raw \<noteq> []"
  shows "decode_grayscale_png decompress data = Inr (w, h, px)"
proof -
  let ?raw = "scanlines (nat w) (nat h) px"
  obtain ihdr c1 c2 c3 where e: "0 < w" "0 < h" "int (length px) = w * h" "pack_ihdr w h = Inr ihdr" and f: "framed IHDR ihdr c1"
    "framed IDAT (compress ?raw) c2" "framed IEND [] c3" and d: "data = SIGNATURE @ c1 @ c2 @ c3"
    using encode_chunks [OF enc] by metis
  have n: "length px = nat w * nat h" using e(1-3) by (simp add: nat_product)
  have z: "compress ?raw \<noteq> []" using size [of ?raw] scanlines_length [OF n] n by (simp add: algebra_simps)
  have "decode_chunks data png_start
      = decode_chunks ((SIGNATURE @ c1) @ c2 @ c3) (after_ihdr (8 + length c1) w h [] False)"
    using decode_header [OF e(4) f(1)] d by simp
  also have "\<dots> = decode_chunks ((SIGNATURE @ c1 @ c2) @ c3) (after_ihdr (8 + length c1 + length c2) w h (compress ?raw) False)"
    using decode_data [OF f(2), of "8 + length c1" "SIGNATURE @ c1" c3] by (simp add: SIGNATURE_length)
  also have "\<dots> = Inr (after_ihdr (8 + length c1 + length c2 + length c3) w h (compress ?raw) True)"
    by (rule decode_end [OF f(3)]) (simp add: SIGNATURE_length)
  finally show ?thesis
    using e z unfilter_scanlines [OF n] scanlines_length [OF n] d
    by (simp add: decode_grayscale_png_def finish_png_def inflate distrib_left)
qed

lemma decode_outcome:
  "(\<exists>m. decode_grayscale_png decompress data = Inl (PngError m))
    \<or> (\<exists>w h px. decode_grayscale_png decompress data = Inr (w, h, px) \<and> 0 \<le> w \<and> 0 \<le> h
          \<and> int (length px) = w * h)"
proof (cases "take (length SIGNATURE) data = SIGNATURE")
  case True
  have finish: "(\<exists>m. finish_png decompress st = Inl (PngError m))
      \<or> (\<exists>w h px. finish_png decompress st = Inr (w, h, px) \<and> 0 \<le> w \<and> 0 \<le> h \<and> int (length px) = w * h)"
    if ok: "ps_ok st" for st
  proof (cases "ps_seen_ihdr st \<and> ps_seen_iend st \<and> ps_idat st \<noteq> [] \<and> decompress (ps_idat st) \<noteq> None")
    case True
    then obtain w h raw where wh: "ps_dims st = Some (w, h)" "0 \<le> w" "0 \<le> h" "decompress (ps_idat st) = Some raw"
      using ok by (auto simp: ps_ok_def)
    show ?thesis
    proof (cases "int (length raw) = h * (1 + w)")
      case False
      then show ?thesis using True wh by (simp add: finish_png_def)
    next
      case len: True
      then have "length raw = nat h * (1 + nat w)" using wh by (simp add: nat_product nat_add_distrib)
      then have "png_fails (unfilter raw (nat w) (nat h)) \<or>
          (\<exists>px. unfilter raw (nat w) (nat h) = Inr px \<and> length px = nat w * nat h)"
        unfolding unfilter_def using unfilter_rows_outcome [of raw "nat h" "nat w" 0 "replicate (nat w) 0" "replicate (nat w * nat h) 0"]
        by simp
      then show ?thesis using True wh len
        by (auto simp: finish_png_def png_fails_def split: sum.splits py_error.splits)
    qed
  qed (auto simp: finish_png_def)
  have "ps_ok png_start" by (simp add: ps_ok_def png_start_def)
  then consider m where "decode_chunks data png_start = Inl (PngError m)"
    | st where "decode_chunks data png_start = Inr st" "ps_ok st"
    using decode_chunks_outcome [of png_start data] by (auto simp: png_fails_def split: sum.splits py_error.splits)
  then show ?thesis using True finish by cases (simp_all add: decode_grayscale_png_def)
qed (simp add: decode_grayscale_png_def)

lemma decode_size:
  "decode_grayscale_png decompress data = Inr (w, h, px) \<Longrightarrow> 0 \<le> w \<and> 0 \<le> h \<and> int (length px) = w * h"
  using decode_outcome [of decompress data] by auto

lemma encode_total:
  assumes "0 < w" "0 < h" "w < 2 ^ 32" "h < 2 ^ 32" "int (length px) = w * h"
    and size: "\<And>raw. length raw = length px + nat h \<Longrightarrow> length (compress raw) < 2 ^ 32"
  shows "\<exists>data. encode_grayscale_png compress w h px = Inr data"
proof -
  let ?raw = "scanlines (nat w) (nat h) px"
  have n: "length px = nat w * nat h" using assms(1,2,5) by (simp add: nat_product)
  have z: "length (compress ?raw) < 2 ^ 32"
    using size [of ?raw] scanlines_length [OF n] n by (simp add: algebra_simps)
  obtain ihdr where ih: "pack_ihdr w h = Inr ihdr" using assms(1-4) by (auto simp: pack_ihdr_def pack_u32_def)
  obtain c1 c2 c3 where c: "chunk IHDR ihdr = Inr c1" "chunk IDAT (compress ?raw) = Inr c2" "chunk IEND [] = Inr c3"
    using chunk_total [of ihdr IHDR] chunk_total [OF z, of IDAT] chunk_total [of "[]" IEND] read_packed_ihdr [OF ih]
    by auto
  have "encode_grayscale_png compress w h px = Inr (SIGNATURE @ c1 @ c2 @ c3)"
    using assms ih c by (simp add: encode_grayscale_png_def)
  then show ?thesis by blast
qed

section \<open>Properties\<close>

text \<open>
  C29. Given any bytes, and whatever \<open>zlib.decompress\<close> returns, the decoder
  either raises \<open>PngError\<close> (never \<open>IndexError\<close>, \<open>struct.error\<close> or
  \<open>TypeError\<close>) or returns exactly \<open>width * height\<close> pixels.
\<close>

theorem decode_raises_only_png_error:
  "(\<exists>m. decode_grayscale_png decompress data = Inl (PngError m))
    \<or> (\<exists>w h px. decode_grayscale_png decompress data = Inr (w, h, px) \<and> 0 \<le> w \<and> 0 \<le> h
          \<and> int (length px) = w * h)"
  by (rule decode_outcome)

text \<open>
  C28. Round trip. For every picture with sides below \<open>2 ^ 32\<close> whose pixel
  buffer has the declared size, encoding succeeds and decoding returns the
  same dimensions and pixels, provided \<open>zlib\<close> inflates what it deflated and
  the compressed data is a chunk of positive size below \<open>2 ^ 32\<close>.
\<close>

theorem png_roundtrip:
  assumes "0 < w" "0 < h" "w < 2 ^ 32" "h < 2 ^ 32" "int (length px) = w * h"
    and inflate: "\<And>raw. decompress (compress raw) = Some raw"
    and size: "\<And>raw. length raw = length px + nat h \<Longrightarrow> compress raw \<noteq> [] \<and> length (compress raw) < 2 ^ 32"
  shows "\<exists>data. encode_grayscale_png compress w h px = Inr data
    \<and> decode_grayscale_png decompress data = Inr (w, h, px)"
proof -
  obtain data where data: "encode_grayscale_png compress w h px = Inr data"
    using encode_total [of w h px compress] assms by blast
  then show ?thesis using encoded_decodes [OF data inflate] size by blast
qed

definition stored :: "bytes \<Rightarrow> bytes" where "stored raw = 0x78 # raw"
definition unstored :: "bytes \<Rightarrow> bytes option" where
  "unstored z = (case z of [] \<Rightarrow> None | b # raw \<Rightarrow> if b = 0x78 then Some raw else None)"

theorem png_roundtrip_witness:
  "\<exists>data. encode_grayscale_png stored 2 1 [7, 9] = Inr data \<and> decode_grayscale_png unstored data = Inr (2, 1, [7, 9])"
  by (rule png_roundtrip) (simp_all add: stored_def unstored_def)

text \<open>
  C30. Corruption of a stored picture is noticed: after any single byte of an
  encoded file outside the three chunk length fields is changed, decoding
  raises \<open>PngError\<close>. For the chunk types, the header, the pixel data and the
  checksums this rests on the CRC, whose byte step is injective.
\<close>

theorem corrupted_byte_is_rejected:
  assumes enc: "encode_grayscale_png compress w h px = Inr data" and i: "i < length data" "b \<noteq> data ! i"
    and field: "i \<notin> {8..<12} \<union> {33..<37} \<union> {length data - 12..<length data - 8}"
  shows "\<exists>m. decode_grayscale_png decompress (data[i := b]) = Inl (PngError m)"
proof -
  obtain ihdr c1 c2 c3 where ih: "pack_ihdr w h = Inr ihdr" and f: "framed IHDR ihdr c1"
    "framed IDAT (compress (scanlines (nat w) (nat h) px)) c2" "framed IEND [] c3" and d: "data = SIGNATURE @ c1 @ c2 @ c3"
    using encode_chunks [OF enc] by metis
  have l: "length c1 = 25" "length c3 = 12" "length data = 45 + length c2"
    using framed_length [OF f(1)] framed_length [OF f(3)] read_packed_ihdr [OF ih] by (simp_all add: d SIGNATURE_length)
  have decode: "\<exists>m. decode_grayscale_png decompress bs = Inl (PngError m)"
    if "take 8 bs = SIGNATURE" "decode_chunks bs png_start = Inl (PngError m)" for bs m
    using that by (simp add: decode_grayscale_png_def SIGNATURE_length)
  consider "i < 8" | "12 \<le> i" "i < 33" | "37 \<le> i" "i < 33 + length c2" | "37 + length c2 \<le> i" "i < 45 + length c2"
    using field i(1) l by fastforce
  then show ?thesis
  proof cases
    case 1
    then have "take 8 (data[i := b]) = SIGNATURE[i := b]" by (simp add: d SIGNATURE_length list_update_append)
    moreover have "SIGNATURE[i := b] \<noteq> SIGNATURE"
      using 1 i by (metis SIGNATURE_length d nth_append nth_list_update_eq)
    ultimately show ?thesis by (simp add: decode_grayscale_png_def SIGNATURE_length)
  next
    case 2
    have e: "data[i := b] = SIGNATURE @ c1[i - 8 := b] @ c2 @ c3" "b \<noteq> c1 ! (i - 8)"
      using 2 l i(2) by (simp_all add: d list_update_append nth_append SIGNATURE_length less_diff_conv2)
    show ?thesis unfolding e(1)
      using corrupt_chunk_stops [OF f(1), of 8 SIGNATURE "i - 8" b png_start "c2 @ c3"] e(2) 2 l
      by (intro decode [where m = "''PNG chunk fails CRC check (corrupt file)''"])
         (simp_all add: SIGNATURE_length png_start_def)
  next
    case 3
    have e: "data[i := b] = SIGNATURE @ c1 @ c2[i - 33 := b] @ c3" "b \<noteq> c2 ! (i - 33)"
      using 3 l i(2) by (simp_all add: d list_update_append nth_append SIGNATURE_length less_diff_conv2)
    show ?thesis unfolding e(1)
      using corrupt_chunk_stops [OF f(2), of 33 "SIGNATURE @ c1" "i - 33" b "after_ihdr 33 w h [] False" c3] e(2) 3 l
        decode_header [OF ih f(1), of "c2[i - 33 := b] @ c3"]
      by (intro decode [where m = "''PNG chunk fails CRC check (corrupt file)''"]) (simp_all add: SIGNATURE_length)
  next
    case 4
    let ?j = "i - (33 + length c2)" and ?z = "compress (scanlines (nat w) (nat h) px)"
    have e: "data[i := b] = SIGNATURE @ c1 @ c2 @ c3[?j := b]" "b \<noteq> c3 ! ?j"
      using 4 l i(2) by (simp_all add: d list_update_append nth_append SIGNATURE_length less_diff_conv2)
    show ?thesis unfolding e(1)
      using corrupt_chunk_stops [OF f(3), of "33 + length c2" "SIGNATURE @ c1 @ c2" ?j b "after_ihdr (33 + length c2) w h ?z False" "[]"]
        e(2) 4 l decode_header [OF ih f(1), of "c2 @ c3[?j := b]"]
        decode_data [OF f(2), of 33 "SIGNATURE @ c1" "c3[?j := b]" w h]
      by (intro decode [where m = "''PNG chunk fails CRC check (corrupt file)''"]) (simp_all add: SIGNATURE_length)
  qed
qed

theorem corrupted_byte_is_rejected_witness:
  "\<exists>data m. encode_grayscale_png stored 1 1 [7] = Inr data
    \<and> decode_grayscale_png unstored (data[3 := 0]) = Inl (PngError m)"
proof -
  obtain data where d: "encode_grayscale_png stored 1 1 [7] = Inr data"
    using chunk_total [of "[0, 0, 0, 1, 0, 0, 0, 1, 8, 0, 0, 0, 0]" IHDR] chunk_total [of "[0x78, 0, 7]" IDAT] chunk_total [of "[]" IEND]
    by (auto simp: encode_grayscale_png_def pack_ihdr_def pack_u32_def BIT_DEPTH_def GRAYSCALE_COLOR_TYPE_def
        scanlines_def slice_def stored_def)
  obtain rest where "data = SIGNATURE @ rest" using encode_chunks [OF d] by metis
  then have "3 < length data" "0 \<noteq> data ! 3" by (simp_all add: SIGNATURE_def)
  moreover have "36 \<le> length data" by (rule encoded_length [OF d])
  ultimately have "\<exists>m. decode_grayscale_png unstored (data[3 := 0]) = Inl (PngError m)"
    by (intro corrupted_byte_is_rejected [OF d]) auto
  then show ?thesis using d by blast
qed

end
