(* ===== verification/Teleop.thy ===== *)
theory Teleop
  imports PyFloat
begin

unbundle bit_operations_syntax

text \<open>
  The human drive input (\<open>runner_teleop/teleop_node.py\<close>): trigger shaping, the
  fixed-throttle setpoint stepped by the D-pad in decimal arithmetic, the mode
  chain over controller and keyboard, input expiry and the bounded release
  brake. Fields carry the prefix \<open>tn_\<close>; clock readings are inputs, publications
  are effects, log messages are left out. \<open>magnitude ** 3\<close> goes through the
  platform's \<open>pow\<close>, so the cube of a float is the parameter \<open>cube\<close>. Dividing by
  two is multiplying by one half, which binary floating point does alike.
\<close>

section \<open>Constants\<close>

definition INVERT_STEER :: bool where "INVERT_STEER = False"
definition THROTTLE_DEADZONE :: pyfloat where "THROTTLE_DEADZONE = dbl (5 / 100)"
definition X_BUTTON_INDEX :: int where "X_BUTTON_INDEX = 0"
definition L1_BUTTON_INDEX :: int where "L1_BUTTON_INDEX = 4"
definition R1_BUTTON_INDEX :: int where "R1_BUTTON_INDEX = 5"
definition DPAD_VERTICAL_AXIS_INDEX :: nat where "DPAD_VERTICAL_AXIS_INDEX = 7"

datatype drive_mode =
    BRAKE_MODE | MANUAL_MODE | FIXED_THROTTLE_MODE | TELEOP_SUPPRESS_MODE
  | FIXED_THROTTLE_INHIBITED_MODE | KEYBOARD_BRAKE_MODE | KEYBOARD_MOTION_MODE
  | KEYBOARD_DISARMED_MODE | RELEASE_BRAKE_MODE

definition DEFAULT_INPUT_TIMEOUT :: pyfloat where "DEFAULT_INPUT_TIMEOUT = dbl (15 / 100)"
definition DEFAULT_MANUAL_TRIGGER_EXPO :: pyfloat where "DEFAULT_MANUAL_TRIGGER_EXPO = dbl (50 / 100)"
definition DEFAULT_RELEASE_BRAKE_DURATION :: pyfloat where "DEFAULT_RELEASE_BRAKE_DURATION = dbl (35 / 100)"
definition DEFAULT_FIXED_THROTTLE_SETPOINT :: pyfloat where "DEFAULT_FIXED_THROTTLE_SETPOINT = Fin 0"

definition MODE_DRIVE :: int where "MODE_DRIVE = 0"
definition MODE_BRAKE :: int where "MODE_BRAKE = 1"
definition MODE_SUPPRESS :: int where "MODE_SUPPRESS = 2"
definition MODE_BRAKE_SUPPRESS :: int where "MODE_BRAKE_SUPPRESS = 3"

section \<open>Decimal numbers\<close>

text \<open>
  \<open>Decimal(str(x))\<close> is the decimal that \<open>str\<close> prints: the shortest one that
  rounds back to \<open>x\<close>, the nearest of these to \<open>x\<close>. Seventeen significant digits
  always suffice, so the search over their number ends there. Decimal addition
  rounds to the 28 digits of the default context, halves to even.
\<close>

fun nat_log10 :: "nat \<Rightarrow> nat" where
  "nat_log10 n = (if n < 10 then 0 else Suc (nat_log10 (n div 10)))"

declare nat_log10.simps [simp del]

definition rat_log10 :: "rat \<Rightarrow> int" where
  "rat_log10 q =
     (if 1 \<le> q then int (nat_log10 (nat \<lfloor>q\<rfloor>))
      else - 1 - int (nat_log10 (nat (\<lceil>1 / q\<rceil> - 1))))"

definition decimal_unit :: "rat \<Rightarrow> nat \<Rightarrow> rat" where
  "decimal_unit q n = 10 powi (rat_log10 q - int n + 1)"

definition repr_candidates :: "rat \<Rightarrow> nat \<Rightarrow> rat list" where
  "repr_candidates q n =
     (let u = decimal_unit q n; k = \<lfloor>q / u\<rfloor>
      in filter (\<lambda>c. dbl c = Fin q) [of_int k * u, of_int (k + 1) * u])"

fun nearest :: "rat \<Rightarrow> rat list \<Rightarrow> rat" where
  "nearest q [] = q"
| "nearest q [c] = c"
| "nearest q (c # d # cs) = nearest q ((if \<bar>d - q\<bar> < \<bar>c - q\<bar> then d else c) # cs)"

definition repr_pos :: "rat \<Rightarrow> rat" where
  "repr_pos q =
     (case find (\<lambda>n. repr_candidates q n \<noteq> []) [1..<18] of
        None \<Rightarrow> q
      | Some n \<Rightarrow> nearest q (repr_candidates q n))"

definition decimal_of :: "rat \<Rightarrow> rat" where
  "decimal_of q = (if q = 0 then 0 else if 0 < q then repr_pos q else - repr_pos (- q))"

definition decimal_context :: "rat \<Rightarrow> rat" where
  "decimal_context q =
     (if q = 0 then 0
      else (let u = decimal_unit \<bar>q\<bar> 28 in of_int (round_half_even (q / u)) * u))"

section \<open>Shaping and validation\<close>

definition trigger :: "pyfloat \<Rightarrow> pyfloat" where
  "trigger raw = fmax (Fin 0) (fmin (Fin 1) (fmul (fsub (Fin 1) raw) (Fin (1 / 2))))"

definition shape_manual_command :: "(pyfloat \<Rightarrow> pyfloat) \<Rightarrow> pyfloat \<Rightarrow> pyfloat \<Rightarrow> pyfloat" where
  "shape_manual_command cube command expo =
     (let magnitude = fmax (Fin 0) (fmin (Fin 1) (fabs command));
          shaped = fadd (fmul (fsub (Fin 1) expo) magnitude) (fmul expo (cube magnitude))
      in if magnitude \<noteq> Fin 0 then fcopysign shaped command else Fin 0)"

definition validate_manual_trigger_expo :: "pyfloat \<Rightarrow> unit result" where
  "validate_manual_trigger_expo expo =
     (if \<not> isfinite expo then Inl (ValueError ''manual_trigger_expo must be a finite float'')
      else if \<not> (fle (Fin 0) expo \<and> fle expo (Fin 1))
      then Inl (ValueError ''manual_trigger_expo must be between zero and one'')
      else Inr ())"

record joy =
  jy_axes :: "pyfloat list"
  jy_buttons :: "int list"

definition button_held :: "joy \<Rightarrow> int \<Rightarrow> bool" where
  "button_held msg index =
     (0 \<le> index \<and> nat index < length (jy_buttons msg) \<and> jy_buttons msg ! nat index = 1)"

definition active_mode :: "bool \<Rightarrow> bool \<Rightarrow> bool \<Rightarrow> bool \<Rightarrow> drive_mode" where
  "active_mode manual_held fixed_throttle_held teleop_suppress_held fixed_throttle_inhibited =
     (if manual_held then MANUAL_MODE
      else if fixed_throttle_held
      then (if fixed_throttle_inhibited then FIXED_THROTTLE_INHIBITED_MODE else FIXED_THROTTLE_MODE)
      else if teleop_suppress_held then TELEOP_SUPPRESS_MODE
      else BRAKE_MODE)"

text \<open>The constructor has checked that the four numbers are finite; \<open>None\<close> is the excluded case.\<close>

fun adjust_setpoint :: "pyfloat \<Rightarrow> pyfloat \<Rightarrow> pyfloat \<Rightarrow> pyfloat \<Rightarrow> int \<Rightarrow> pyfloat option" where
  "adjust_setpoint (Fin current) (Fin step) (Fin minimum) (Fin maximum) direction =
     (let v = decimal_context (decimal_of current + of_int direction * decimal_of step)
      in Some (dbl (max (decimal_of minimum) (min (decimal_of maximum) v))))"
| "adjust_setpoint _ _ _ _ _ = None"

definition validate_fixed_throttle_config :: "pyfloat \<Rightarrow> pyfloat \<Rightarrow> pyfloat \<Rightarrow> pyfloat \<Rightarrow> unit result" where
  "validate_fixed_throttle_config initial step minimum maximum =
     (if \<not> list_all isfinite [initial, step, minimum, maximum]
      then Inl (ValueError ''fixed-throttle parameters must all be finite'')
      else if fle step (Fin 0) then Inl (ValueError ''fixed_throttle_step must be greater than zero'')
      else if flt minimum (Fin 0)
      then Inl (ValueError ''fixed_throttle_min_setpoint must be greater than or equal to zero'')
      else if flt (Fin 1) maximum
      then Inl (ValueError ''fixed_throttle_max_setpoint must be less than or equal to one'')
      else if flt maximum minimum
      then Inl (ValueError ''fixed_throttle_min_setpoint must not exceed the maximum'')
      else if \<not> (fle minimum initial \<and> fle initial maximum)
      then Inl (ValueError ''fixed_throttle_initial_setpoint must be within configured bounds'')
      else Inr ())"

definition NEUTRAL_US :: int where "NEUTRAL_US = 1500"
definition FWD_ONSET_US :: int where "FWD_ONSET_US = 1550"
definition FORWARD_CROSSOVER :: pyfloat where "FORWARD_CROSSOVER = dbl (5 / 100)"
definition FWD_MAX_US :: int where "FWD_MAX_US = 1750"

text \<open>
  The pulse named in the log lines; \<open>normalised ** FORWARD_EXPONENT\<close> with the
  exponent 2.0 is the parameter \<open>square\<close>.
\<close>

definition expected_race_esc_pulse_us :: "(pyfloat \<Rightarrow> pyfloat) \<Rightarrow> pyfloat \<Rightarrow> int result" where
  "expected_race_esc_pulse_us square command =
     (let magnitude = fmax (Fin 0) (fmin (Fin 1) command) in
      if feq magnitude (Fin 0) then Inr NEUTRAL_US
      else if fle magnitude FORWARD_CROSSOVER
      then bind_result (fdiv magnitude FORWARD_CROSSOVER) (\<lambda>r.
             int_of_float (fadd (Fin (of_int NEUTRAL_US)) (fmul r (Fin (of_int (FWD_ONSET_US - NEUTRAL_US))))))
      else bind_result (fdiv (fsub magnitude FORWARD_CROSSOVER) (fsub (Fin 1) FORWARD_CROSSOVER)) (\<lambda>normalised.
             int_of_float (fadd (Fin (of_int FWD_ONSET_US)) (fmul (square normalised) (Fin (of_int (FWD_MAX_US - FWD_ONSET_US)))))))"

section \<open>The node\<close>

record teleop_params =
  tp_axis_steer :: int
  tp_axis_brake :: int
  tp_axis_throttle :: int
  tp_deadman_button :: int
  tp_manual_trigger_expo :: pyfloat
  tp_initial_setpoint :: pyfloat
  tp_step :: pyfloat
  tp_max_setpoint :: pyfloat
  tp_min_setpoint :: pyfloat
  tp_controller_timeout :: pyfloat
  tp_keyboard_state_timeout :: pyfloat
  tp_release_brake_duration :: pyfloat

definition default_teleop_params :: teleop_params where
  "default_teleop_params = \<lparr> tp_axis_steer = 0, tp_axis_brake = 2, tp_axis_throttle = 5,
     tp_deadman_button = X_BUTTON_INDEX, tp_manual_trigger_expo = DEFAULT_MANUAL_TRIGGER_EXPO,
     tp_initial_setpoint = DEFAULT_FIXED_THROTTLE_SETPOINT, tp_step = dbl (1 / 100),
     tp_max_setpoint = dbl (50 / 100), tp_min_setpoint = Fin 0,
     tp_controller_timeout = DEFAULT_INPUT_TIMEOUT, tp_keyboard_state_timeout = DEFAULT_INPUT_TIMEOUT,
     tp_release_brake_duration = DEFAULT_RELEASE_BRAKE_DURATION \<rparr>"

record control_state_msg =
  lc_process_epoch :: string
  lc_takeover_epoch :: int
  lc_connected :: bool
  lc_active :: bool
  lc_neutral :: bool
  lc_released :: bool
  lc_sample_age_sec :: pyfloat
  lc_mode :: drive_mode

datatype teleop_effect =
    TE_setpoint pyfloat
  | TE_mode drive_mode
  | TE_state control_state_msg
  | TE_command pyfloat pyfloat
  | TE_raise py_error

record teleop =
  tn_params :: teleop_params
  tn_setpoint :: pyfloat
  tn_steer :: pyfloat
  tn_manual_cmd :: pyfloat
  tn_throttle :: pyfloat
  tn_reverse :: pyfloat
  tn_manual_held :: bool
  tn_fixed_throttle_held :: bool
  tn_teleop_suppress_held :: bool
  tn_fixed_throttle_inhibited :: bool
  tn_dpad_press_active :: bool
  tn_last_joy_at :: "pyfloat option"
  tn_controller_live :: bool
  tn_last_keyboard_state_at :: "pyfloat option"
  tn_keyboard_valid :: bool
  tn_keyboard_mode :: int
  tn_keyboard_throttle :: pyfloat
  tn_keyboard_steer :: pyfloat
  tn_keyboard_motion_requested :: bool
  tn_keyboard_motion_previous :: bool
  tn_keyboard_motion_ready :: bool
  tn_keyboard_motion_armed :: bool
  tn_keyboard_suppress_requested :: bool
  tn_keyboard_suppress_previous :: bool
  tn_keyboard_suppress_ready :: bool
  tn_keyboard_suppress_armed :: bool
  tn_keyboard_suppress_rearm_ready :: bool
  tn_process_epoch :: string
  tn_takeover_epoch :: int
  tn_takeover_active :: bool
  tn_command_selected :: bool
  tn_release_brake_until :: "pyfloat option"
  tn_effects :: "teleop_effect list"

text \<open>The check of a timeout parameter: finite and above \<open>bound\<close>.\<close>

definition check_duration :: "pyfloat \<Rightarrow> pyfloat \<Rightarrow> string \<Rightarrow> unit result" where
  "check_duration x bound message =
     (if \<not> isfinite x \<or> fle x bound then Inl (ValueError message) else Inr ())"

definition wrap_fixed_error :: "unit result \<Rightarrow> unit result" where
  "wrap_fixed_error r =
     (case r of Inl (ValueError m) \<Rightarrow> Inl (ValueError (''Invalid fixed-throttle configuration: '' @ m)) | _ \<Rightarrow> r)"

definition new_teleop :: "teleop_params \<Rightarrow> string \<Rightarrow> teleop result" where
  "new_teleop p epoch =
     bind_result (check_duration (tp_controller_timeout p) (Fin 0) ''controller_timeout must be a positive float'') (\<lambda>_.
     bind_result (check_duration (tp_keyboard_state_timeout p) (Fin 0) ''keyboard_state_timeout must be a positive float'') (\<lambda>_.
     bind_result (check_duration (tp_release_brake_duration p) (dbl (15 / 100))
       ''release_brake_duration must be finite and exceed mux timeout'') (\<lambda>_.
     bind_result (validate_manual_trigger_expo (tp_manual_trigger_expo p)) (\<lambda>_.
     bind_result (wrap_fixed_error (validate_fixed_throttle_config (tp_initial_setpoint p) (tp_step p)
       (tp_min_setpoint p) (tp_max_setpoint p))) (\<lambda>_.
     Inr \<lparr> tn_params = p, tn_setpoint = tp_initial_setpoint p, tn_steer = Fin 0, tn_manual_cmd = Fin 0,
       tn_throttle = Fin 0, tn_reverse = Fin 0, tn_manual_held = False, tn_fixed_throttle_held = False,
       tn_teleop_suppress_held = False, tn_fixed_throttle_inhibited = False, tn_dpad_press_active = False,
       tn_last_joy_at = None, tn_controller_live = False, tn_last_keyboard_state_at = None,
       tn_keyboard_valid = False, tn_keyboard_mode = MODE_DRIVE, tn_keyboard_throttle = Fin 0,
       tn_keyboard_steer = Fin 0, tn_keyboard_motion_requested = False, tn_keyboard_motion_previous = False,
       tn_keyboard_motion_ready = False, tn_keyboard_motion_armed = False,
       tn_keyboard_suppress_requested = False, tn_keyboard_suppress_previous = False,
       tn_keyboard_suppress_ready = False, tn_keyboard_suppress_armed = False,
       tn_keyboard_suppress_rearm_ready = True, tn_process_epoch = epoch, tn_takeover_epoch = 0,
       tn_takeover_active = False, tn_command_selected = False, tn_release_brake_until = None,
       tn_effects = [] \<rparr>)))))"

definition publishes :: "teleop \<Rightarrow> teleop_effect list \<Rightarrow> teleop" where
  "publishes n es = n\<lparr>tn_effects := tn_effects n @ es\<rparr>"

section \<open>Controller messages\<close>

definition dpad_direction :: "joy \<Rightarrow> int" where
  "dpad_direction msg =
     (if DPAD_VERTICAL_AXIS_INDEX < length (jy_axes msg)
      then (let v = jy_axes msg ! DPAD_VERTICAL_AXIS_INDEX in
            (if flt (Fin (1 / 2)) v then 1 else 0) - (if flt v (Fin (- 1 / 2)) then 1 else 0))
      else 0)"

definition update_dpad :: "teleop \<Rightarrow> joy \<Rightarrow> teleop" where
  "update_dpad n msg =
     (let direction = dpad_direction msg; p = tn_params n in
      if direction = 0 then n\<lparr>tn_dpad_press_active := False\<rparr>
      else if tn_dpad_press_active n then n
      else (let n1 = n\<lparr>tn_dpad_press_active := True\<rparr> in
        case adjust_setpoint (tn_setpoint n) (tp_step p) (tp_min_setpoint p) (tp_max_setpoint p) direction of
          None \<Rightarrow> n1
        | Some updated \<Rightarrow> if feq updated (tn_setpoint n) then n1 else n1\<lparr>tn_setpoint := updated\<rparr>))"

definition disarm_held_keyboard_motion :: "teleop \<Rightarrow> teleop" where
  "disarm_held_keyboard_motion n =
     (if tn_keyboard_motion_requested n
      then n\<lparr>tn_keyboard_motion_armed := False, tn_keyboard_motion_ready := False\<rparr> else n)"

text \<open>\<open>xs[i]\<close> of a Python list: a negative index counts from the end; \<open>None\<close> is \<open>IndexError\<close>.\<close>

definition py_index :: "'a list \<Rightarrow> int \<Rightarrow> 'a option" where
  "py_index xs i =
     (let k = (if i < 0 then i + int (length xs) else i) in
      if 0 \<le> k \<and> k < int (length xs) then Some (xs ! nat k) else None)"

definition joy_buttons :: "teleop \<Rightarrow> joy \<Rightarrow> pyfloat \<Rightarrow> teleop" where
  "joy_buttons n msg now =
     (let manual_held = button_held msg (tp_deadman_button (tn_params n));
          fixed_throttle_held = button_held msg R1_BUTTON_INDEX;
          teleop_suppress_held = button_held msg L1_BUTTON_INDEX;
          inhibited = (if \<not> fixed_throttle_held then False else if manual_held then True
                       else tn_fixed_throttle_inhibited n);
          takeover_active = (manual_held \<or> fixed_throttle_held);
          n1 = n\<lparr>tn_last_joy_at := Some now, tn_controller_live := True, tn_fixed_throttle_inhibited := inhibited,
                 tn_manual_held := manual_held, tn_fixed_throttle_held := fixed_throttle_held,
                 tn_teleop_suppress_held := teleop_suppress_held,
                 tn_takeover_epoch := tn_takeover_epoch n + (if takeover_active \<and> \<not> tn_takeover_active n then 1 else 0),
                 tn_takeover_active := takeover_active\<rparr>
      in if manual_held \<or> fixed_throttle_held \<or> teleop_suppress_held
         then (disarm_held_keyboard_motion n1)\<lparr>tn_keyboard_suppress_armed := False, tn_keyboard_suppress_rearm_ready := False\<rparr>
         else n1)"

definition joy_axes :: "(pyfloat \<Rightarrow> pyfloat) \<Rightarrow> teleop \<Rightarrow> joy \<Rightarrow> teleop" where
  "joy_axes cube n msg =
     (let p = tn_params n; axes = jy_axes msg in
      if int (length axes) \<le> max (tp_axis_steer p) (max (tp_axis_brake p) (tp_axis_throttle p))
      then n\<lparr>tn_manual_cmd := Fin 0, tn_reverse := Fin 0\<rparr>
      else (case (py_index axes (tp_axis_brake p), py_index axes (tp_axis_throttle p), py_index axes (tp_axis_steer p)) of
          (Some reverse_raw, Some throttle_raw, Some steer_raw) \<Rightarrow>
            (let throttle = trigger throttle_raw; reverse = trigger reverse_raw;
                 raw_manual_cmd = (if flt THROTTLE_DEADZONE reverse then fneg reverse else throttle)
             in n\<lparr>tn_steer := fmul steer_raw (if INVERT_STEER then Fin (- 1) else Fin 1),
                  tn_reverse := reverse, tn_throttle := throttle,
                  tn_manual_cmd := shape_manual_command cube raw_manual_cmd (tp_manual_trigger_expo p)\<rparr>)
        | _ \<Rightarrow> publishes n [TE_raise IndexError]))"

definition on_joy :: "(pyfloat \<Rightarrow> pyfloat) \<Rightarrow> teleop \<Rightarrow> joy \<Rightarrow> pyfloat \<Rightarrow> teleop" where
  "on_joy cube n msg now = joy_axes cube (update_dpad (joy_buttons n msg now) msg) msg"

section \<open>The periodic publication\<close>

definition invalidate_keyboard :: "teleop \<Rightarrow> teleop" where
  "invalidate_keyboard n =
     n\<lparr>tn_keyboard_valid := False, tn_keyboard_motion_armed := False,
       tn_keyboard_motion_ready := False, tn_keyboard_suppress_armed := False\<rparr>"

definition aged :: "pyfloat option \<Rightarrow> pyfloat \<Rightarrow> pyfloat \<Rightarrow> bool" where
  "aged received now timeout = (case received of None \<Rightarrow> False | Some t \<Rightarrow> flt timeout (fsub now t))"

definition expire_controller :: "teleop \<Rightarrow> pyfloat \<Rightarrow> teleop" where
  "expire_controller n now =
     (if tn_controller_live n \<and> aged (tn_last_joy_at n) now (tp_controller_timeout (tn_params n))
      then (disarm_held_keyboard_motion n)\<lparr>tn_controller_live := False, tn_manual_held := False,
             tn_fixed_throttle_held := False, tn_teleop_suppress_held := False, tn_takeover_active := False,
             tn_fixed_throttle_inhibited := False, tn_steer := Fin 0, tn_manual_cmd := Fin 0,
             tn_throttle := Fin 0, tn_reverse := Fin 0\<rparr>
      else n)"

definition expire_keyboard :: "teleop \<Rightarrow> pyfloat \<Rightarrow> teleop" where
  "expire_keyboard n now =
     (if tn_keyboard_valid n \<and> aged (tn_last_keyboard_state_at n) now (tp_keyboard_state_timeout (tn_params n))
      then invalidate_keyboard n else n)"

definition expire_inputs :: "teleop \<Rightarrow> pyfloat \<Rightarrow> teleop" where
  "expire_inputs n now = expire_keyboard (expire_controller n now) now"

definition control_state :: "teleop \<Rightarrow> pyfloat \<Rightarrow> drive_mode \<Rightarrow> control_state_msg" where
  "control_state n now mode =
     \<lparr> lc_process_epoch = tn_process_epoch n, lc_takeover_epoch = tn_takeover_epoch n,
       lc_connected = tn_controller_live n, lc_active = tn_takeover_active n,
       lc_neutral = (\<not> tn_controller_live n
          \<or> (\<not> tn_manual_held n \<and> \<not> tn_fixed_throttle_held n
             \<and> fle (tn_throttle n) THROTTLE_DEADZONE \<and> fle (tn_reverse n) THROTTLE_DEADZONE)),
       lc_released = (\<not> tn_takeover_active n),
       lc_sample_age_sec = (case tn_last_joy_at n of None \<Rightarrow> Fin (- 1) | Some t \<Rightarrow> fmax (Fin 0) (fsub now t)),
       lc_mode = mode \<rparr>"

definition fixed_throttle_command :: "teleop \<Rightarrow> drive_mode \<Rightarrow> pyfloat" where
  "fixed_throttle_command n mode =
     (if flt THROTTLE_DEADZONE (tn_reverse n) then fneg (tn_setpoint n)
      else if mode = FIXED_THROTTLE_MODE \<and> flt THROTTLE_DEADZONE (tn_throttle n) then tn_setpoint n
      else Fin 0)"

text \<open>The chain of sources: the mode, whether a command is selected, the throttle and the steering.\<close>

definition select_command :: "teleop \<Rightarrow> drive_mode \<times> bool \<times> pyfloat \<times> pyfloat" where
  "select_command n =
     (let mode = active_mode (tn_manual_held n) (tn_fixed_throttle_held n) (tn_teleop_suppress_held n)
                   (tn_fixed_throttle_inhibited n)
      in if mode = MANUAL_MODE then (mode, True, tn_manual_cmd n, tn_steer n)
         else if mode = FIXED_THROTTLE_MODE \<or> mode = FIXED_THROTTLE_INHIBITED_MODE
         then (mode, True, fixed_throttle_command n mode, tn_steer n)
         else if mode = TELEOP_SUPPRESS_MODE then (mode, False, Fin 0, tn_steer n)
         else if tn_keyboard_valid n \<and> tn_keyboard_mode n AND MODE_BRAKE \<noteq> 0
         then (KEYBOARD_BRAKE_MODE, True, Fin 0, tn_keyboard_steer n)
         else if tn_keyboard_suppress_requested n \<and> tn_keyboard_suppress_armed n
         then (TELEOP_SUPPRESS_MODE, False, Fin 0, tn_steer n)
         else if tn_keyboard_valid n \<and> tn_keyboard_motion_requested n \<and> tn_keyboard_motion_armed n
         then (KEYBOARD_MOTION_MODE, True, tn_keyboard_throttle n, tn_keyboard_steer n)
         else if tn_keyboard_valid n
         then (if tn_keyboard_motion_requested n \<or> tn_keyboard_suppress_requested n
               then KEYBOARD_DISARMED_MODE else BRAKE_MODE, False, Fin 0, tn_keyboard_steer n)
         else (mode, False, Fin 0, tn_steer n))"

definition publish_selected :: "teleop \<Rightarrow> pyfloat \<Rightarrow> drive_mode \<times> bool \<times> pyfloat \<times> pyfloat \<Rightarrow> teleop" where
  "publish_selected n now choice =
     (case choice of (mode, selected, command, steer) \<Rightarrow>
      let until = (if tn_command_selected n \<and> \<not> selected
                   then Some (fadd now (tp_release_brake_duration (tn_params n))) else tn_release_brake_until n);
          n1 = n\<lparr>tn_steer := steer, tn_command_selected := selected\<rparr>
      in if selected
         then publishes (n1\<lparr>tn_release_brake_until := None\<rparr>)
                [TE_mode mode, TE_state (control_state n1 now mode), TE_command command steer]
         else if (case until of None \<Rightarrow> False | Some t \<Rightarrow> flt now t)
         then publishes (n1\<lparr>tn_release_brake_until := until, tn_steer := Fin 0\<rparr>)
                [TE_mode RELEASE_BRAKE_MODE, TE_state (control_state n1 now RELEASE_BRAKE_MODE), TE_command (Fin 0) (Fin 0)]
         else publishes (n1\<lparr>tn_release_brake_until := None\<rparr>)
                [TE_mode mode, TE_state (control_state n1 now mode)])"

definition publish_cmd :: "teleop \<Rightarrow> pyfloat \<Rightarrow> teleop" where
  "publish_cmd n now =
     (let n1 = expire_inputs n now
      in publish_selected (publishes n1 [TE_setpoint (tn_setpoint n1)]) now (select_command n1))"

section \<open>Keyboard messages\<close>

record keyboard_msg =
  kb_valid :: bool
  kb_mode :: int
  kb_throttle :: pyfloat
  kb_steering :: pyfloat

definition keyboard_wellformed :: "keyboard_msg \<Rightarrow> bool" where
  "keyboard_wellformed msg =
     (kb_mode msg \<in> {MODE_DRIVE, MODE_BRAKE, MODE_SUPPRESS, MODE_BRAKE_SUPPRESS}
      \<and> isfinite (kb_throttle msg) \<and> isfinite (kb_steering msg)
      \<and> fle (Fin (- 1)) (kb_throttle msg) \<and> fle (kb_throttle msg) (Fin 1)
      \<and> fle (Fin (- 1)) (kb_steering msg) \<and> fle (kb_steering msg) (Fin 1))"

definition keyboard_suppress :: "teleop \<Rightarrow> bool \<Rightarrow> bool \<Rightarrow> teleop" where
  "keyboard_suppress n brake suppress =
     (if brake then n\<lparr>tn_keyboard_suppress_armed := False, tn_keyboard_suppress_rearm_ready := True\<rparr>
      else if \<not> suppress then n\<lparr>tn_keyboard_suppress_rearm_ready := True\<rparr>
      else if tn_keyboard_suppress_rearm_ready n
      then n\<lparr>tn_keyboard_suppress_armed := True, tn_keyboard_suppress_rearm_ready := False\<rparr>
      else n)"

definition keyboard_motion :: "teleop \<Rightarrow> bool \<Rightarrow> teleop" where
  "keyboard_motion n motion =
     (if \<not> motion then n\<lparr>tn_keyboard_motion_ready := True, tn_keyboard_motion_armed := False\<rparr>
      else if \<not> tn_keyboard_motion_previous n \<and> tn_keyboard_motion_ready n
      then n\<lparr>tn_keyboard_motion_armed := True, tn_keyboard_motion_ready := False\<rparr>
      else n)"

definition on_keyboard :: "teleop \<Rightarrow> keyboard_msg \<Rightarrow> pyfloat \<Rightarrow> pyfloat \<Rightarrow> teleop" where
  "on_keyboard n msg now publish_now =
     (let n0 = n\<lparr>tn_last_keyboard_state_at := Some now\<rparr> in
      if \<not> keyboard_wellformed msg then invalidate_keyboard n0
      else (let brake = (kb_mode msg AND MODE_BRAKE \<noteq> 0); suppress = (kb_mode msg AND MODE_SUPPRESS \<noteq> 0);
                n1 = keyboard_suppress n0 brake suppress
            in if \<not> kb_valid msg \<and> \<not> suppress then publish_cmd (invalidate_keyboard n1) publish_now
               else if \<not> kb_valid msg \<and> suppress
               then n1\<lparr>tn_keyboard_valid := False, tn_keyboard_suppress_requested := True, tn_keyboard_suppress_previous := True\<rparr>
               else (let motion = (\<not> feq (kb_throttle msg) (Fin 0) \<and> \<not> brake);
                         n2 = (keyboard_motion n1 motion)\<lparr>tn_keyboard_valid := True, tn_keyboard_mode := kb_mode msg,
                                tn_keyboard_throttle := kb_throttle msg, tn_keyboard_steer := kb_steering msg,
                                tn_keyboard_motion_requested := motion, tn_keyboard_motion_previous := motion,
                                tn_keyboard_suppress_requested := suppress, tn_keyboard_suppress_previous := suppress\<rparr>
                     in if brake then publish_cmd n2 publish_now else n2)))"

section \<open>The node as a machine\<close>

datatype teleop_input =
    TI_joy joy pyfloat
  | TI_keyboard keyboard_msg pyfloat pyfloat
  | TI_timer pyfloat

fun teleop_step :: "(pyfloat \<Rightarrow> pyfloat) \<Rightarrow> teleop \<Rightarrow> teleop_input \<Rightarrow> teleop" where
  "teleop_step cube n (TI_joy msg now) = on_joy cube n msg now"
| "teleop_step cube n (TI_keyboard msg now publish_now) = on_keyboard n msg now publish_now"
| "teleop_step cube n (TI_timer now) = publish_cmd n now"

section \<open>Laws of the decimal setpoint\<close>

lemma nearest_mem: "cs \<noteq> [] \<Longrightarrow> nearest q cs \<in> set cs"
  by (induction q cs rule: nearest.induct) (fastforce split: if_splits)+

lemma repr_pos_rounds_back: "is_double q \<Longrightarrow> dbl (repr_pos q) = Fin q"
proof (cases "find (\<lambda>n. repr_candidates q n \<noteq> []) [1..<18]")
  case (Some n)
  then have "nearest q (repr_candidates q n) \<in> set (repr_candidates q n)"
    by (intro nearest_mem) (auto simp: find_Some_iff)
  with Some show ?thesis by (simp add: repr_pos_def) (simp add: repr_candidates_def Let_def split: if_splits)
qed (simp add: repr_pos_def is_double_def)

lemma decimal_of_rounds_back: "is_double q \<Longrightarrow> dbl (decimal_of q) = Fin q"
  using repr_pos_rounds_back [of q] repr_pos_rounds_back [of "- q"] by (simp add: decimal_of_def dbl_uminus)

lemma decimal_of_mono: "is_double x \<Longrightarrow> is_double y \<Longrightarrow> x \<le> y \<Longrightarrow> decimal_of x \<le> decimal_of y"
  using dbl_mono [of "decimal_of y" "decimal_of x"] by (cases "x = y") (force simp: decimal_of_rounds_back)+

lemma adjust_setpoint_bounds:
  assumes "float_ok minimum" "float_ok maximum" "isfinite current" "isfinite step" "isfinite minimum" "isfinite maximum"
    "fle minimum maximum"
  shows "\<exists>v. adjust_setpoint current step minimum maximum d = Some v \<and> fle minimum v \<and> fle v maximum \<and> float_ok v"
proof -
  obtain c s a b where f: "current = Fin c" "step = Fin s" "minimum = Fin a" "maximum = Fin b"
    using assms(3-6) by (auto simp: isfinite_iff)
  have d: "is_double a" "is_double b" "a \<le> b" using assms f by (auto simp: float_ok_def)
  let ?v = "decimal_context (decimal_of c + of_int d * decimal_of s)"
  let ?w = "max (decimal_of a) (min (decimal_of b) ?v)"
  have "decimal_of a \<le> ?w" "?w \<le> decimal_of b" using decimal_of_mono [OF d] by auto
  then have "fle (dbl (decimal_of a)) (dbl ?w)" "fle (dbl ?w) (dbl (decimal_of b))" by (simp_all only: dbl_mono)
  then show ?thesis using d by (simp add: f decimal_of_rounds_back Let_def)
qed

section \<open>Laws of the shaped command\<close>

text \<open>The platform's power function keeps the unit interval: the only fact used of it.\<close>

definition cube_ok :: "(pyfloat \<Rightarrow> pyfloat) \<Rightarrow> bool" where
  "cube_ok cube \<longleftrightarrow> (\<forall>q. 0 \<le> q \<longrightarrow> q \<le> 1 \<longrightarrow> (\<exists>r. cube (Fin q) = Fin r \<and> 0 \<le> r \<and> r \<le> 1))"

lemma trigger_range: "\<exists>q. trigger raw = Fin q \<and> 0 \<le> q \<and> q \<le> 1"
  using fclamp_Fin [of 0 1] by (simp add: trigger_def fclamp_def)

text \<open>
  The blend of the linear and the cubic part never exceeds full throttle,
  rounding included: the error of \<open>1 - expo\<close> is below half a unit in the last
  place of 1.
\<close>

lemma rnd_error_below_one:
  assumes "0 < q" "q \<le> 1" shows "rnd q \<le> q + 1 / 2 ^ 53"
proof -
  have "rat_log2 q \<le> 0" using assms rat_log2_mono [of q 1] by (simp add: rat_log2_def nat_log2.simps)
  then have "ulp q \<le> 2 powi (- 52)" unfolding ulp_def ulp_exp_def by (subst powi2_le_iff) simp
  then have u: "ulp q \<le> 1 / 2 ^ 52" by (simp add: power_int_def divide_simps)
  have "of_int (round_half_even (q / ulp q)) * ulp q \<le> (q / ulp q + 1 / 2) * ulp q"
    by (intro mult_right_mono round_half_even_bounds) (simp add: less_imp_le)
  also have "\<dots> = q + ulp q / 2" by (simp add: distrib_right)
  also have "\<dots> \<le> q + 1 / 2 ^ 53" using u by simp
  finally show ?thesis using assms by (simp add: rnd_def rnd_pos_def)
qed

lemma rnd_le_one:
  assumes "q \<le> 1 + 1 / 2 ^ 53" shows "rnd q \<le> 1"
proof -
  have "rnd (1 + 1 / 2 ^ 53) = 1" by code_simp
  then show ?thesis using rnd_mono [OF assms] by simp
qed

lemma dbl_unit: "0 \<le> q \<Longrightarrow> rnd q \<le> 1 \<Longrightarrow> dbl q = Fin (rnd q)"
  using rnd_nonneg [of q] by (simp add: dbl_def f64_limit_def Let_def)

lemma shaped_range:
  assumes "0 \<le> e" "e \<le> 1" "is_double e" "0 \<le> m" "m \<le> 1" "0 \<le> c" "c \<le> 1"
  shows "\<exists>r. fadd (fmul (fsub (Fin 1) (Fin e)) (Fin m)) (fmul (Fin e) (Fin c)) = Fin r \<and> 0 \<le> r \<and> r \<le> 1"
proof -
  define a where "a = rnd (1 - e)"
  have e: "rnd e = e" using assms(3) dbl_FinD [of e e] by (simp add: is_double_def)
  have a0: "0 \<le> a" "a \<le> (1 - e) + 1 / 2 ^ 53"
    using assms rnd_error_below_one [of "1 - e"] by (cases "e = 1"; simp add: a_def rnd_nonneg)+
  have a1: "a \<le> 1" using assms by (simp add: a_def rnd_le_one)
  have am: "rnd (a * m) \<le> a" "0 \<le> rnd (a * m)"
    using rnd_mono [of "a * m" a] a0 assms by (simp_all add: a_def mult_left_le rnd_nonneg)
  have ec: "rnd (e * c) \<le> e" "0 \<le> rnd (e * c)"
    using rnd_mono [of "e * c" e] e assms by (simp_all add: mult_left_le rnd_nonneg)
  have s: "rnd (rnd (a * m) + rnd (e * c)) \<le> 1" using am ec a0 by (intro rnd_le_one) linarith
  have "dbl (1 - e) = Fin a" using assms a1 by (simp add: dbl_unit a_def)
  moreover have "dbl (a * m) = Fin (rnd (a * m))" using am a1 a0 assms by (intro dbl_unit) auto
  moreover have "dbl (e * c) = Fin (rnd (e * c))" using ec assms by (intro dbl_unit) auto
  moreover have "dbl (rnd (a * m) + rnd (e * c)) = Fin (rnd (rnd (a * m) + rnd (e * c)))"
    using am ec s by (intro dbl_unit) auto
  ultimately show ?thesis using s am ec by (auto simp: rnd_nonneg)
qed

lemma shape_manual_command_range:
  assumes "cube_ok cube" "expo = Fin e" "0 \<le> e" "e \<le> 1" "is_double e" "command = Fin c" "\<bar>c\<bar> \<le> 1"
  shows "\<exists>r. shape_manual_command cube command expo = Fin r \<and> \<bar>r\<bar> \<le> 1 \<and> (c = 0 \<longrightarrow> r = 0)"
proof -
  have m: "fmax (Fin 0) (fmin (Fin 1) (fabs command)) = Fin \<bar>c\<bar>" using assms by simp
  obtain k where k: "cube (Fin \<bar>c\<bar>) = Fin k" "0 \<le> k" "k \<le> 1" using assms(1,7) unfolding cube_ok_def by (metis abs_ge_zero)
  obtain s where "fadd (fmul (fsub (Fin 1) expo) (Fin \<bar>c\<bar>)) (fmul expo (cube (Fin \<bar>c\<bar>))) = Fin s" "0 \<le> s" "s \<le> 1"
    using shaped_range [of e "\<bar>c\<bar>" k] assms k by auto
  then show ?thesis by (auto simp: shape_manual_command_def m Let_def fcopysign_def)
qed

section \<open>The invariant\<close>

definition params_ok :: "teleop_params \<Rightarrow> bool" where
  "params_ok p \<longleftrightarrow>
     float_ok (tp_manual_trigger_expo p) \<and> isfinite (tp_manual_trigger_expo p)
     \<and> fle (Fin 0) (tp_manual_trigger_expo p) \<and> fle (tp_manual_trigger_expo p) (Fin 1)
     \<and> float_ok (tp_min_setpoint p) \<and> float_ok (tp_max_setpoint p) \<and> isfinite (tp_step p)
     \<and> isfinite (tp_min_setpoint p) \<and> isfinite (tp_max_setpoint p)
     \<and> fle (Fin 0) (tp_min_setpoint p) \<and> fle (tp_min_setpoint p) (tp_max_setpoint p) \<and> fle (tp_max_setpoint p) (Fin 1)"

definition setpoint_ok :: "teleop_params \<Rightarrow> pyfloat \<Rightarrow> bool" where
  "setpoint_ok p v \<longleftrightarrow> fle (tp_min_setpoint p) v \<and> fle v (tp_max_setpoint p)"

definition unit_range :: "pyfloat \<Rightarrow> bool" where
  "unit_range v \<longleftrightarrow> fle (Fin (- 1)) v \<and> fle v (Fin 1)"

fun effect_ok :: "teleop_params \<Rightarrow> teleop_effect \<Rightarrow> bool" where
  "effect_ok p (TE_setpoint v) = setpoint_ok p v"
| "effect_ok p (TE_command v s) = unit_range v"
| "effect_ok p _ = True"

definition tn_values_ok :: "teleop \<Rightarrow> bool" where
  "tn_values_ok n \<longleftrightarrow>
     params_ok (tn_params n) \<and> setpoint_ok (tn_params n) (tn_setpoint n)
     \<and> unit_range (tn_manual_cmd n) \<and> unit_range (tn_keyboard_throttle n)
     \<and> list_all (effect_ok (tn_params n)) (tn_effects n)"

definition tn_flags_ok :: "teleop \<Rightarrow> bool" where
  "tn_flags_ok n \<longleftrightarrow>
     (tn_takeover_active n \<longleftrightarrow> tn_manual_held n \<or> tn_fixed_throttle_held n)
     \<and> (tn_manual_held n \<or> tn_fixed_throttle_held n \<or> tn_teleop_suppress_held n \<longrightarrow> tn_controller_live n)
     \<and> (tn_fixed_throttle_inhibited n \<longrightarrow> tn_fixed_throttle_held n)
     \<and> (tn_controller_live n \<longrightarrow> tn_last_joy_at n \<noteq> None)
     \<and> (tn_keyboard_valid n \<longrightarrow> tn_last_keyboard_state_at n \<noteq> None)
     \<and> (tn_keyboard_motion_armed n \<longrightarrow> tn_keyboard_motion_requested n)"

lemma unit_range_simps [simp]:
  "unit_range (Fin q) \<longleftrightarrow> \<bar>q\<bar> \<le> 1" "unit_range (fneg v) \<longleftrightarrow> unit_range v"
  by (auto simp: unit_range_def) (cases v; simp)+

lemma setpoint_unit_range:
  assumes "params_ok p" "setpoint_ok p v" shows "unit_range v"
proof -
  have "fle (Fin 0) v" "fle v (Fin 1)"
    using assms by (auto simp: params_ok_def setpoint_ok_def intro: fle_trans)
  then show ?thesis by (cases v) (auto simp: unit_range_def)
qed

lemma publishes_simps [simp]:
  "tn_effects (publishes n es) = tn_effects n @ es" "tn_params (publishes n es) = tn_params n"
  "tn_setpoint (publishes n es) = tn_setpoint n" "tn_manual_cmd (publishes n es) = tn_manual_cmd n"
  "tn_keyboard_throttle (publishes n es) = tn_keyboard_throttle n"
  by (simp_all add: publishes_def)

lemma fixed_throttle_command_range:
  "tn_values_ok n \<Longrightarrow> unit_range (fixed_throttle_command n m)"
  using setpoint_unit_range [of "tn_params n" "tn_setpoint n"] by (auto simp: fixed_throttle_command_def tn_values_ok_def)

lemma select_command_range:
  "tn_values_ok n \<Longrightarrow> select_command n = (m, sel, v, s) \<Longrightarrow> unit_range v"
  using fixed_throttle_command_range [of n]
  by (auto simp: select_command_def tn_values_ok_def Let_def split: if_splits)

lemma publish_selected_values:
  assumes "tn_values_ok n" "case c of (m, sel, v, s) \<Rightarrow> unit_range v"
  shows "tn_values_ok (publish_selected n now c)"
  using assms by (auto simp: publish_selected_def tn_values_ok_def Let_def split: prod.splits)

lemma expire_values: "tn_values_ok n \<Longrightarrow> tn_values_ok (expire_inputs n now)"
  by (auto simp: expire_inputs_def expire_keyboard_def expire_controller_def invalidate_keyboard_def
    disarm_held_keyboard_motion_def tn_values_ok_def)

lemma publish_cmd_values: "tn_values_ok n \<Longrightarrow> tn_values_ok (publish_cmd n now)"
proof -
  assume "tn_values_ok n"
  then have e: "tn_values_ok (expire_inputs n now)" by (rule expire_values)
  then have "tn_values_ok (publishes (expire_inputs n now) [TE_setpoint (tn_setpoint (expire_inputs n now))])"
    by (simp add: tn_values_ok_def)
  then show ?thesis using select_command_range [OF e]
    by (auto simp: publish_cmd_def Let_def intro!: publish_selected_values)
qed

lemma joy_buttons_values: "tn_values_ok n \<Longrightarrow> tn_values_ok (joy_buttons n msg now)"
  by (auto simp: joy_buttons_def disarm_held_keyboard_motion_def tn_values_ok_def Let_def)

lemma setpoint_finite: "params_ok p \<Longrightarrow> setpoint_ok p v \<Longrightarrow> isfinite v"
  using setpoint_unit_range [of p v] by (cases v) (auto simp: unit_range_def)

lemma update_dpad_values: "tn_values_ok n \<Longrightarrow> tn_values_ok (update_dpad n msg)"
proof -
  assume n: "tn_values_ok n"
  let ?p = "tn_params n"
  have p: "params_ok ?p" "setpoint_ok ?p (tn_setpoint n)" using n by (simp_all add: tn_values_ok_def)
  obtain v where "adjust_setpoint (tn_setpoint n) (tp_step ?p) (tp_min_setpoint ?p) (tp_max_setpoint ?p) (dpad_direction msg) = Some v"
      "setpoint_ok ?p v"
    using adjust_setpoint_bounds [of "tp_min_setpoint ?p" "tp_max_setpoint ?p" "tn_setpoint n" "tp_step ?p"]
      setpoint_finite [OF p] p(1) by (force simp: params_ok_def setpoint_ok_def)
  then show ?thesis using n by (simp add: update_dpad_def tn_values_ok_def Let_def)
qed

lemma joy_axes_values:
  assumes "cube_ok cube" "tn_values_ok n" shows "tn_values_ok (joy_axes cube n msg)"
proof -
  obtain e where e: "tp_manual_trigger_expo (tn_params n) = Fin e" "0 \<le> e" "e \<le> 1" "is_double e"
    using assms(2) by (auto simp: tn_values_ok_def params_ok_def isfinite_iff float_ok_def)
  have "unit_range (shape_manual_command cube (if flt THROTTLE_DEADZONE (trigger a) then fneg (trigger a) else trigger b) (Fin e))" for a b
  proof -
    obtain q r where "trigger a = Fin q" "0 \<le> q" "q \<le> 1" "trigger b = Fin r" "0 \<le> r" "r \<le> 1"
      using trigger_range by meson
    then obtain c where "(if flt THROTTLE_DEADZONE (trigger a) then fneg (trigger a) else trigger b) = Fin c" "\<bar>c\<bar> \<le> 1"
      by (cases "flt THROTTLE_DEADZONE (trigger a)") auto
    then show ?thesis
      using shape_manual_command_range [OF assms(1) refl e(2-4) refl, of c] by auto
  qed
  then show ?thesis using assms(2) e
    by (auto simp: joy_axes_def tn_values_ok_def Let_def split: option.split)
qed

text \<open>A keyboard message changes the state, then publishes in two of its branches.\<close>

definition keyboard_state :: "teleop \<Rightarrow> keyboard_msg \<Rightarrow> pyfloat \<Rightarrow> teleop" where
  "keyboard_state n msg now =
     (let n0 = n\<lparr>tn_last_keyboard_state_at := Some now\<rparr>;
          brake = (kb_mode msg AND MODE_BRAKE \<noteq> 0); suppress = (kb_mode msg AND MODE_SUPPRESS \<noteq> 0);
          n1 = keyboard_suppress n0 brake suppress;
          motion = (\<not> feq (kb_throttle msg) (Fin 0) \<and> \<not> brake)
      in if \<not> keyboard_wellformed msg then invalidate_keyboard n0
         else if \<not> kb_valid msg \<and> \<not> suppress then invalidate_keyboard n1
         else if \<not> kb_valid msg
         then n1\<lparr>tn_keyboard_valid := False, tn_keyboard_suppress_requested := True, tn_keyboard_suppress_previous := True\<rparr>
         else (keyboard_motion n1 motion)\<lparr>tn_keyboard_valid := True, tn_keyboard_mode := kb_mode msg,
                tn_keyboard_throttle := kb_throttle msg, tn_keyboard_steer := kb_steering msg,
                tn_keyboard_motion_requested := motion, tn_keyboard_motion_previous := motion,
                tn_keyboard_suppress_requested := suppress, tn_keyboard_suppress_previous := suppress\<rparr>)"

definition keyboard_publishes :: "keyboard_msg \<Rightarrow> bool" where
  "keyboard_publishes msg \<longleftrightarrow> keyboard_wellformed msg \<and>
     (if kb_valid msg then kb_mode msg AND MODE_BRAKE \<noteq> 0 else kb_mode msg AND MODE_SUPPRESS = 0)"

lemma on_keyboard_eq: "on_keyboard n msg now later =
    (if keyboard_publishes msg then publish_cmd (keyboard_state n msg now) later else keyboard_state n msg now)"
  by (simp only: on_keyboard_def keyboard_state_def keyboard_publishes_def Let_def) (simp split del: if_split cong: if_cong, auto)

lemma keyboard_values:
  assumes "tn_values_ok n" shows "tn_values_ok (keyboard_state n msg now)"
proof -
  have n1: "tn_values_ok (keyboard_suppress (n\<lparr>tn_last_keyboard_state_at := Some now\<rparr>) b s)" for b s using assms by (simp add: keyboard_suppress_def tn_values_ok_def)
  have ifs: "(b \<Longrightarrow> tn_values_ok x) \<Longrightarrow> (\<not> b \<Longrightarrow> tn_values_ok y) \<Longrightarrow> tn_values_ok (if b then x else y)" for b x y by simp
  have inv: "tn_values_ok m \<Longrightarrow> tn_values_ok (invalidate_keyboard m)" for m
    by (simp add: invalidate_keyboard_def tn_values_ok_def)
  have mo: "tn_values_ok m \<Longrightarrow> keyboard_wellformed msg \<Longrightarrow> tn_values_ok ((keyboard_motion m mt)
      \<lparr>tn_keyboard_valid := True, tn_keyboard_mode := kb_mode msg,
       tn_keyboard_throttle := kb_throttle msg, tn_keyboard_steer := kb_steering msg,
       tn_keyboard_motion_requested := mt, tn_keyboard_motion_previous := mt,
       tn_keyboard_suppress_requested := s, tn_keyboard_suppress_previous := s\<rparr>)" for m mt s
    by (simp add: keyboard_motion_def tn_values_ok_def keyboard_wellformed_def unit_range_def)
  have v: "tn_values_ok m \<Longrightarrow> tn_values_ok (m\<lparr>tn_keyboard_valid := False, tn_keyboard_suppress_requested := True,
      tn_keyboard_suppress_previous := True\<rparr>)" "tn_values_ok (n\<lparr>tn_last_keyboard_state_at := Some now\<rparr>)" for m
    using assms by (simp_all add: tn_values_ok_def)
  show ?thesis unfolding keyboard_state_def Let_def
    by (intro ifs inv mo v n1) auto
qed

lemma disarm_flags: "tn_flags_ok n \<Longrightarrow> tn_flags_ok (disarm_held_keyboard_motion n)"
  by (auto simp: disarm_held_keyboard_motion_def tn_flags_ok_def)

lemma expire_flags: "tn_flags_ok n \<Longrightarrow> tn_flags_ok (expire_inputs n now)"
  by (auto simp: expire_inputs_def expire_keyboard_def expire_controller_def invalidate_keyboard_def
    disarm_held_keyboard_motion_def tn_flags_ok_def)

lemma publish_selected_flags: "tn_flags_ok n \<Longrightarrow> tn_flags_ok (publish_selected n now c)"
  by (auto simp: publish_selected_def tn_flags_ok_def publishes_def Let_def split: prod.split)

lemma publish_cmd_flags: "tn_flags_ok n \<Longrightarrow> tn_flags_ok (publish_cmd n now)"
proof -
  assume "tn_flags_ok n"
  then have "tn_flags_ok (publishes (expire_inputs n now) es)" for es
    using expire_flags [of n now] by (simp add: tn_flags_ok_def publishes_def)
  then show ?thesis by (simp add: publish_cmd_def Let_def publish_selected_flags)
qed

lemma joy_flags: "tn_flags_ok n \<Longrightarrow> tn_flags_ok (on_joy cube n msg now)"
proof -
  assume n: "tn_flags_ok n"
  have "tn_flags_ok (joy_buttons n msg now)"
    using n by (auto simp: joy_buttons_def disarm_held_keyboard_motion_def tn_flags_ok_def Let_def)
  then have "tn_flags_ok (update_dpad (joy_buttons n msg now) msg)"
    by (auto simp: update_dpad_def tn_flags_ok_def Let_def split: option.split)
  then show ?thesis
    by (auto simp: on_joy_def joy_axes_def tn_flags_ok_def publishes_def Let_def split: option.split)
qed

lemma keyboard_flags:
  assumes "tn_flags_ok n" shows "tn_flags_ok (keyboard_state n msg now)"
proof -
  let ?n0 = "n\<lparr>tn_last_keyboard_state_at := Some now\<rparr>"
  have n0: "tn_flags_ok ?n0" "tn_flags_ok (keyboard_suppress ?n0 b s)"
      "tn_last_keyboard_state_at (keyboard_suppress ?n0 b s) = Some now" for b s
    using assms by (auto simp: keyboard_suppress_def tn_flags_ok_def)
  have ifs: "(b \<Longrightarrow> tn_flags_ok x) \<Longrightarrow> (\<not> b \<Longrightarrow> tn_flags_ok y) \<Longrightarrow> tn_flags_ok (if b then x else y)" for b x y by simp
  have inv: "tn_flags_ok m \<Longrightarrow> tn_flags_ok (invalidate_keyboard m)" for m
    by (auto simp: invalidate_keyboard_def tn_flags_ok_def)
  have v: "tn_flags_ok m \<Longrightarrow> tn_flags_ok (m\<lparr>tn_keyboard_valid := False, tn_keyboard_suppress_requested := True,
      tn_keyboard_suppress_previous := True\<rparr>)" for m by (auto simp: tn_flags_ok_def)
  have mo: "tn_flags_ok m \<Longrightarrow> tn_last_keyboard_state_at m = Some now \<Longrightarrow> tn_flags_ok ((keyboard_motion m mt)
      \<lparr>tn_keyboard_valid := True, tn_keyboard_mode := kb_mode msg,
       tn_keyboard_throttle := kb_throttle msg, tn_keyboard_steer := kb_steering msg,
       tn_keyboard_motion_requested := mt, tn_keyboard_motion_previous := mt,
       tn_keyboard_suppress_requested := s, tn_keyboard_suppress_previous := s\<rparr>)" for m mt s
    by (auto simp: keyboard_motion_def tn_flags_ok_def)
  show ?thesis unfolding keyboard_state_def Let_def
    by (intro ifs inv mo v n0)
qed

definition tn_inv :: "teleop \<Rightarrow> bool" where
  "tn_inv n \<longleftrightarrow> tn_values_ok n \<and> tn_flags_ok n"

lemma tn_inv_step: "cube_ok cube \<Longrightarrow> tn_inv n \<Longrightarrow> tn_inv (teleop_step cube n i)"
  by (cases i) (auto simp: tn_inv_def on_joy_def joy_buttons_values update_dpad_values joy_axes_values
    on_keyboard_eq keyboard_values keyboard_flags publish_cmd_values publish_cmd_flags joy_flags [unfolded on_joy_def])

text \<open>A constructed node, with the three parameters that take part in arithmetic representable doubles.\<close>

definition tn_initial :: "teleop \<Rightarrow> bool" where
  "tn_initial n \<longleftrightarrow> (\<exists>p epoch. new_teleop p epoch = Inr n \<and> float_ok (tp_manual_trigger_expo p)
     \<and> float_ok (tp_min_setpoint p) \<and> float_ok (tp_max_setpoint p))"

lemma tn_inv_initial:
  assumes "tn_initial n" shows "tn_inv n"
proof -
  obtain p epoch where p: "new_teleop p epoch = Inr n" "float_ok (tp_manual_trigger_expo p)"
      "float_ok (tp_min_setpoint p)" "float_ok (tp_max_setpoint p)"
    using assms by (auto simp: tn_initial_def)
  have e: "isfinite (tp_manual_trigger_expo p)" "fle (Fin 0) (tp_manual_trigger_expo p)" "fle (tp_manual_trigger_expo p) (Fin 1)"
    using p(1) by (auto simp: new_teleop_def bind_result_Inr_iff validate_manual_trigger_expo_def split: if_splits)
  have v: "validate_fixed_throttle_config (tp_initial_setpoint p) (tp_step p) (tp_min_setpoint p) (tp_max_setpoint p) = Inr ()"
    using p(1) by (auto simp: new_teleop_def bind_result_Inr_iff wrap_fixed_error_def split: sum.splits py_error.splits)
  have "params_ok p \<and> setpoint_ok p (tp_initial_setpoint p)"
    using v e p(2-4)
    by (auto simp: validate_fixed_throttle_config_def params_ok_def setpoint_ok_def isfinite_iff split: if_splits)
  then show ?thesis
    using p(1) by (auto simp: new_teleop_def bind_result_Inr_iff tn_inv_def tn_values_ok_def tn_flags_ok_def)
qed

text \<open>
  The takeover epoch counts engagements. The cube is part of the machine's
  state, so that its contract is part of the invariant.
\<close>

definition teleop_exec_step :: "(pyfloat \<Rightarrow> pyfloat) \<times> teleop \<Rightarrow> teleop_input \<Rightarrow> (pyfloat \<Rightarrow> pyfloat) \<times> teleop" where
  "teleop_exec_step cn i = (fst cn, teleop_step (fst cn) (snd cn) i)"

lemma takeover_epoch_frames [simp]:
  "tn_takeover_epoch (publishes n es) = tn_takeover_epoch n"
  "tn_takeover_epoch (disarm_held_keyboard_motion n) = tn_takeover_epoch n"
  "tn_takeover_epoch (update_dpad n msg) = tn_takeover_epoch n"
  "tn_takeover_epoch (joy_axes cube n msg) = tn_takeover_epoch n"
  "tn_takeover_epoch (invalidate_keyboard n) = tn_takeover_epoch n"
  "tn_takeover_epoch (keyboard_suppress n b s) = tn_takeover_epoch n"
  "tn_takeover_epoch (keyboard_motion n b) = tn_takeover_epoch n"
  "tn_takeover_epoch (expire_inputs n now) = tn_takeover_epoch n"
  "tn_takeover_epoch (publish_selected n now c) = tn_takeover_epoch n"
  by (simp_all add: publishes_def disarm_held_keyboard_motion_def update_dpad_def joy_axes_def invalidate_keyboard_def
    keyboard_suppress_def keyboard_motion_def expire_inputs_def expire_controller_def expire_keyboard_def
    publish_selected_def Let_def split: option.split prod.split)

lemma epoch_publish [simp]: "tn_takeover_epoch (publish_cmd n now) = tn_takeover_epoch n"
  by (simp add: publish_cmd_def Let_def)

lemma epoch_keyboard [simp]: "tn_takeover_epoch (on_keyboard n msg now later) = tn_takeover_epoch n"
  by (simp add: on_keyboard_def Let_def)

definition engages :: "teleop \<Rightarrow> joy \<Rightarrow> bool" where
  "engages n msg = (button_held msg (tp_deadman_button (tn_params n)) \<or> button_held msg R1_BUTTON_INDEX)"

lemma epoch_joy: "tn_takeover_epoch (on_joy cube n msg now) =
    tn_takeover_epoch n + (if engages n msg \<and> \<not> tn_takeover_active n then 1 else 0)"
  by (simp add: on_joy_def joy_buttons_def engages_def Let_def)

interpretation teleop_exec: counting_machine
  "\<lambda>(cube, n). cube_ok cube \<and> tn_initial n" teleop_exec_step "\<lambda>(cube, n). cube_ok cube \<and> tn_inv n"
  "\<lambda>(cube, n). tn_takeover_epoch n"
proof unfold_locales
  fix cn i
  show "(case teleop_exec_step cn i of (cube, n) \<Rightarrow> cube_ok cube \<and> tn_inv n)"
    if "case cn of (cube, n) \<Rightarrow> cube_ok cube \<and> tn_inv n"
    using that by (auto simp: teleop_exec_step_def tn_inv_step)
  show "(case cn of (cube, n) \<Rightarrow> tn_takeover_epoch n) \<le> (case teleop_exec_step cn i of (cube, n) \<Rightarrow> tn_takeover_epoch n)"
    by (cases i) (auto simp: teleop_exec_step_def epoch_joy split: prod.split)
qed (auto simp: tn_inv_initial)

lemma run_teleop_exec: "run_steps teleop_exec_step (cube, n) is = (cube, run_steps (teleop_step cube) n is)"
  by (induction "is" arbitrary: n) (simp_all add: teleop_exec_step_def)

lemma tn_inv_reachable: "cube_ok cube \<Longrightarrow> tn_initial n \<Longrightarrow> tn_inv (run_steps (teleop_step cube) n is)"
  using teleop_exec.invar_reachable [of "(cube, n)" "is"] by (simp add: run_teleop_exec)

lemma epoch_run: "cube_ok cube \<Longrightarrow> tn_inv n \<Longrightarrow> tn_takeover_epoch n \<le> tn_takeover_epoch (run_steps (teleop_step cube) n is)"
  using teleop_exec.counter_run [of "(cube, n)" "is"] by (simp add: run_teleop_exec)

section \<open>Where a command comes from\<close>

definition same_inputs :: "teleop \<Rightarrow> teleop \<Rightarrow> bool" where
  "same_inputs n m \<longleftrightarrow>
     tn_params m = tn_params n \<and> tn_setpoint m = tn_setpoint n \<and> tn_manual_cmd m = tn_manual_cmd n
     \<and> tn_throttle m = tn_throttle n \<and> tn_reverse m = tn_reverse n \<and> tn_manual_held m = tn_manual_held n
     \<and> tn_fixed_throttle_held m = tn_fixed_throttle_held n \<and> tn_teleop_suppress_held m = tn_teleop_suppress_held n
     \<and> tn_fixed_throttle_inhibited m = tn_fixed_throttle_inhibited n \<and> tn_last_joy_at m = tn_last_joy_at n
     \<and> tn_controller_live m = tn_controller_live n \<and> tn_last_keyboard_state_at m = tn_last_keyboard_state_at n
     \<and> tn_keyboard_valid m = tn_keyboard_valid n \<and> tn_keyboard_throttle m = tn_keyboard_throttle n
     \<and> tn_keyboard_motion_requested m = tn_keyboard_motion_requested n
     \<and> tn_keyboard_motion_armed m = tn_keyboard_motion_armed n \<and> tn_keyboard_motion_ready m = tn_keyboard_motion_ready n
     \<and> tn_takeover_active m = tn_takeover_active n"

lemma publish_selected_same: "same_inputs n (publish_selected (publishes n es) now c)"
  by (simp add: same_inputs_def publish_selected_def publishes_def Let_def split: prod.split)

lemma publish_cmd_same: "same_inputs (expire_inputs n now) (publish_cmd n now)"
  unfolding publish_cmd_def Let_def by (rule publish_selected_same)

lemma expire_inputs_effects [simp]: "tn_effects (expire_inputs n now) = tn_effects n"
  by (simp add: expire_inputs_def expire_keyboard_def expire_controller_def invalidate_keyboard_def
    disarm_held_keyboard_motion_def)

lemma publish_cmd_commands:
  assumes "tn_effects (publish_cmd n now) = tn_effects n @ es" "TE_command v s \<in> set es" "v \<noteq> Fin 0"
  shows "\<exists>m. select_command (expire_inputs n now) = (m, True, v, s)"
  using assms by (auto simp: publish_cmd_def publish_selected_def Let_def split: prod.splits if_splits)

definition fresh_sample :: "pyfloat option \<Rightarrow> pyfloat \<Rightarrow> pyfloat \<Rightarrow> bool" where
  "fresh_sample received now timeout = (case received of None \<Rightarrow> False | Some t \<Rightarrow> \<not> flt timeout (fsub now t))"

definition controller_drives :: "teleop \<Rightarrow> pyfloat \<Rightarrow> pyfloat \<Rightarrow> bool" where
  "controller_drives n now v =
     (tn_controller_live n \<and> fresh_sample (tn_last_joy_at n) now (tp_controller_timeout (tn_params n))
      \<and> (tn_manual_held n \<and> v = tn_manual_cmd n
         \<or> \<not> tn_manual_held n \<and> tn_fixed_throttle_held n
           \<and> (flt THROTTLE_DEADZONE (tn_reverse n) \<and> v = fneg (tn_setpoint n)
              \<or> \<not> tn_fixed_throttle_inhibited n \<and> flt THROTTLE_DEADZONE (tn_throttle n) \<and> v = tn_setpoint n)))"

definition keyboard_drives :: "teleop \<Rightarrow> pyfloat \<Rightarrow> pyfloat \<Rightarrow> bool" where
  "keyboard_drives n now v =
     (\<not> tn_manual_held n \<and> \<not> tn_fixed_throttle_held n \<and> \<not> tn_teleop_suppress_held n
      \<and> tn_keyboard_valid n \<and> fresh_sample (tn_last_keyboard_state_at n) now (tp_keyboard_state_timeout (tn_params n))
      \<and> tn_keyboard_motion_requested n \<and> tn_keyboard_motion_armed n \<and> v = tn_keyboard_throttle n)"

lemma expired_fresh:
  assumes "tn_flags_ok n"
  shows "tn_controller_live (expire_inputs n now) \<Longrightarrow>
      fresh_sample (tn_last_joy_at (expire_inputs n now)) now (tp_controller_timeout (tn_params (expire_inputs n now)))"
    and "tn_keyboard_valid (expire_inputs n now) \<Longrightarrow>
      fresh_sample (tn_last_keyboard_state_at (expire_inputs n now)) now (tp_keyboard_state_timeout (tn_params (expire_inputs n now)))"
  using assms by (auto simp: expire_inputs_def expire_keyboard_def expire_controller_def invalidate_keyboard_def
    disarm_held_keyboard_motion_def tn_flags_ok_def fresh_sample_def aged_def split: if_splits)

lemma drives_same:
  "same_inputs n m \<Longrightarrow> controller_drives m now v = controller_drives n now v"
  "same_inputs n m \<Longrightarrow> keyboard_drives m now v = keyboard_drives n now v"
  unfolding same_inputs_def controller_drives_def keyboard_drives_def by auto

lemma selected_drives:
  assumes "tn_flags_ok n" "select_command (expire_inputs n now) = (m, True, v, s)" "v \<noteq> Fin 0"
  shows "controller_drives (expire_inputs n now) now v \<or> keyboard_drives (expire_inputs n now) now v"
proof -
  let ?n = "expire_inputs n now"
  have live: "tn_manual_held ?n \<or> tn_fixed_throttle_held ?n \<Longrightarrow> tn_controller_live ?n"
    using expire_flags [OF assms(1), of now] by (auto simp: tn_flags_ok_def)
  show ?thesis
    using assms(2,3) live expired_fresh [OF assms(1), of now]
    by (auto simp: select_command_def active_mode_def fixed_throttle_command_def controller_drives_def keyboard_drives_def
      Let_def split: if_splits)
qed

lemma publish_cmd_drives:
  assumes "tn_flags_ok n" "tn_effects (publish_cmd n now) = tn_effects n @ es" "TE_command v s \<in> set es" "v \<noteq> Fin 0"
  shows "controller_drives (publish_cmd n now) now v \<or> keyboard_drives (publish_cmd n now) now v"
  using publish_cmd_commands [OF assms(2-4)] selected_drives [OF assms(1) _ assms(4), of now]
    drives_same [OF publish_cmd_same [of n now]] by blast

lemma effects_frames [simp]:
  "tn_effects (disarm_held_keyboard_motion n) = tn_effects n" "tn_effects (joy_buttons n msg now) = tn_effects n"
  "tn_effects (update_dpad n msg) = tn_effects n" "tn_effects (keyboard_suppress n b s) = tn_effects n"
  "tn_effects (keyboard_motion n b) = tn_effects n" "tn_effects (invalidate_keyboard n) = tn_effects n"
  by (simp_all add: disarm_held_keyboard_motion_def joy_buttons_def update_dpad_def keyboard_suppress_def
    keyboard_motion_def invalidate_keyboard_def Let_def split: option.split)

lemma on_joy_effects: "tn_effects (on_joy cube n msg now) = tn_effects n @ es \<Longrightarrow> set es \<subseteq> {TE_raise IndexError}"
  by (auto simp: on_joy_def joy_axes_def Let_def split: option.splits if_splits)

lemma keyboard_state_effects [simp]: "tn_effects (keyboard_state n msg now) = tn_effects n"
  by (simp add: keyboard_state_def Let_def)

section \<open>What the inputs said\<close>

text \<open>The last controller message of a run with its arrival, and the last one whose axes cover the configured ones.\<close>

fun last_joy :: "teleop_input list \<Rightarrow> (joy \<times> pyfloat) option" where
  "last_joy [] = None"
| "last_joy (i # is) = (case last_joy is of Some r \<Rightarrow> Some r
     | None \<Rightarrow> (case i of TI_joy msg now \<Rightarrow> Some (msg, now) | _ \<Rightarrow> None))"

definition axes_cover :: "teleop_params \<Rightarrow> joy \<Rightarrow> bool" where
  "axes_cover p msg \<longleftrightarrow> \<not> int (length (jy_axes msg)) \<le> max (tp_axis_steer p) (max (tp_axis_brake p) (tp_axis_throttle p))"

fun last_covering :: "teleop_params \<Rightarrow> teleop_input list \<Rightarrow> joy option" where
  "last_covering p [] = None"
| "last_covering p (i # is) = (case last_covering p is of Some msg \<Rightarrow> Some msg
     | None \<Rightarrow> (case i of TI_joy msg now \<Rightarrow> if axes_cover p msg then Some msg else None | _ \<Rightarrow> None))"

fun last_keyboard :: "teleop_input list \<Rightarrow> (keyboard_msg \<times> pyfloat) option" where
  "last_keyboard [] = None"
| "last_keyboard (i # is) = (case last_keyboard is of Some r \<Rightarrow> Some r
     | None \<Rightarrow> (case i of TI_keyboard msg now later \<Rightarrow> Some (msg, now) | _ \<Rightarrow> None))"

text \<open>A keyboard state that asks for no motion.\<close>

fun rest_sample :: "teleop_input \<Rightarrow> bool" where
  "rest_sample (TI_keyboard msg now later) =
     (keyboard_wellformed msg \<and> kb_valid msg \<and> (feq (kb_throttle msg) (Fin 0) \<or> kb_mode msg AND MODE_BRAKE \<noteq> 0))"
| "rest_sample _ = False"

lemma last_joy_snoc [simp]: "last_joy (is @ [i]) = (case i of TI_joy msg now \<Rightarrow> Some (msg, now) | _ \<Rightarrow> last_joy is)"
  by (induction "is") (auto split: teleop_input.split option.split)

lemma last_covering_snoc [simp]:
  "last_covering p (is @ [i]) = (case i of TI_joy msg now \<Rightarrow> if axes_cover p msg then Some msg else last_covering p is
     | _ \<Rightarrow> last_covering p is)"
  by (induction "is") (auto split: teleop_input.split option.split)

lemma last_keyboard_snoc [simp]:
  "last_keyboard (is @ [i]) = (case i of TI_keyboard msg now later \<Rightarrow> Some (msg, now) | _ \<Rightarrow> last_keyboard is)"
  by (induction "is") (auto split: teleop_input.split option.split)

definition joy_axis :: "joy \<Rightarrow> int \<Rightarrow> pyfloat" where
  "joy_axis msg i = jy_axes msg ! nat i"

definition brake_trigger :: "teleop_params \<Rightarrow> joy \<Rightarrow> pyfloat" where
  "brake_trigger p msg = trigger (joy_axis msg (tp_axis_brake p))"

definition throttle_trigger :: "teleop_params \<Rightarrow> joy \<Rightarrow> pyfloat" where
  "throttle_trigger p msg = trigger (joy_axis msg (tp_axis_throttle p))"

text \<open>The manual command of one controller message.\<close>

definition joy_command :: "(pyfloat \<Rightarrow> pyfloat) \<Rightarrow> teleop_params \<Rightarrow> joy \<Rightarrow> pyfloat" where
  "joy_command cube p msg = (if \<not> axes_cover p msg then Fin 0 else
     shape_manual_command cube (if flt THROTTLE_DEADZONE (brake_trigger p msg) then fneg (brake_trigger p msg)
       else throttle_trigger p msg) (tp_manual_trigger_expo p))"

definition joy_reverse :: "teleop_params \<Rightarrow> joy \<Rightarrow> pyfloat" where
  "joy_reverse p msg = (if axes_cover p msg then brake_trigger p msg else Fin 0)"

definition axes_ok :: "teleop_params \<Rightarrow> bool" where
  "axes_ok p \<longleftrightarrow> 0 \<le> tp_axis_steer p \<and> 0 \<le> tp_axis_brake p \<and> 0 \<le> tp_axis_throttle p"

text \<open>The node's fields are what the last messages say, as long as it takes them for live.\<close>

definition joy_told :: "(pyfloat \<Rightarrow> pyfloat) \<Rightarrow> teleop_params \<Rightarrow> teleop \<Rightarrow> joy \<Rightarrow> pyfloat \<Rightarrow> bool" where
  "joy_told cube p n msg t \<longleftrightarrow> tn_last_joy_at n = Some t
     \<and> tn_manual_held n = button_held msg (tp_deadman_button p)
     \<and> tn_fixed_throttle_held n = button_held msg R1_BUTTON_INDEX
     \<and> tn_teleop_suppress_held n = button_held msg L1_BUTTON_INDEX
     \<and> tn_manual_cmd n = joy_command cube p msg
     \<and> tn_reverse n = joy_reverse p msg"

definition keyboard_told :: "teleop \<Rightarrow> keyboard_msg \<Rightarrow> pyfloat \<Rightarrow> bool" where
  "keyboard_told n msg t \<longleftrightarrow> tn_last_keyboard_state_at n = Some t \<and> keyboard_wellformed msg \<and> kb_valid msg
     \<and> tn_keyboard_throttle n = kb_throttle msg
     \<and> tn_keyboard_motion_requested n = (\<not> feq (kb_throttle msg) (Fin 0) \<and> kb_mode msg AND MODE_BRAKE = 0)"

definition inputs_told :: "(pyfloat \<Rightarrow> pyfloat) \<Rightarrow> teleop_params \<Rightarrow> teleop_input list \<Rightarrow> teleop \<Rightarrow> bool" where
  "inputs_told cube p is n \<longleftrightarrow> tn_params n = p
     \<and> (tn_controller_live n \<longrightarrow> (\<exists>msg t. last_joy is = Some (msg, t) \<and> joy_told cube p n msg t))
     \<and> (tn_throttle n = Fin 0 \<or> (\<exists>msg. last_covering p is = Some msg \<and> tn_throttle n = throttle_trigger p msg))
     \<and> (tn_keyboard_valid n \<longrightarrow> (\<exists>msg t. last_keyboard is = Some (msg, t) \<and> keyboard_told n msg t))
     \<and> (tn_keyboard_motion_armed n \<or> tn_keyboard_motion_ready n \<longrightarrow> list_ex rest_sample is)"

lemma inputs_told_same: "same_inputs n m \<Longrightarrow> inputs_told cube p is n \<Longrightarrow> inputs_told cube p is m"
  unfolding same_inputs_def inputs_told_def joy_told_def keyboard_told_def by simp

lemma inputs_told_disarm: "inputs_told cube p is n \<Longrightarrow> inputs_told cube p is (disarm_held_keyboard_motion n)"
  by (cases "tn_keyboard_motion_requested n")
    (simp_all add: inputs_told_def joy_told_def keyboard_told_def disarm_held_keyboard_motion_def)

lemma inputs_told_expire_controller: "inputs_told cube p is n \<Longrightarrow> inputs_told cube p is (expire_controller n now)"
  using inputs_told_disarm [of cube p "is" n] by (auto simp: expire_controller_def) (simp add: inputs_told_def keyboard_told_def)

lemma inputs_told_expire_keyboard: "inputs_told cube p is n \<Longrightarrow> inputs_told cube p is (expire_keyboard n now)"
  by (simp add: inputs_told_def joy_told_def keyboard_told_def expire_keyboard_def invalidate_keyboard_def)

lemma inputs_told_expire: "inputs_told cube p is n \<Longrightarrow> inputs_told cube p is (expire_inputs n now)"
  unfolding expire_inputs_def by (intro inputs_told_expire_keyboard inputs_told_expire_controller)

lemma inputs_told_publish: "inputs_told cube p is n \<Longrightarrow> inputs_told cube p is (publish_cmd n now)"
  by (rule inputs_told_same [OF publish_cmd_same inputs_told_expire])

lemma inputs_told_timer: "inputs_told cube p is n \<Longrightarrow> inputs_told cube p (is @ [TI_timer now]) n"
  by (simp add: inputs_told_def)

lemma py_index_joy_axis: "0 \<le> i \<Longrightarrow> i < int (length (jy_axes msg)) \<Longrightarrow> py_index (jy_axes msg) i = Some (joy_axis msg i)"
  by (simp add: py_index_def joy_axis_def Let_def)

lemma update_dpad_frame [simp]:
  "tn_params (update_dpad n msg) = tn_params n" "tn_last_joy_at (update_dpad n msg) = tn_last_joy_at n"
  "tn_manual_held (update_dpad n msg) = tn_manual_held n" "tn_fixed_throttle_held (update_dpad n msg) = tn_fixed_throttle_held n"
  "tn_teleop_suppress_held (update_dpad n msg) = tn_teleop_suppress_held n" "tn_manual_cmd (update_dpad n msg) = tn_manual_cmd n"
  "tn_reverse (update_dpad n msg) = tn_reverse n" "tn_throttle (update_dpad n msg) = tn_throttle n"
  "tn_controller_live (update_dpad n msg) = tn_controller_live n" "tn_keyboard_valid (update_dpad n msg) = tn_keyboard_valid n"
  "tn_last_keyboard_state_at (update_dpad n msg) = tn_last_keyboard_state_at n"
  "tn_keyboard_throttle (update_dpad n msg) = tn_keyboard_throttle n"
  "tn_keyboard_motion_requested (update_dpad n msg) = tn_keyboard_motion_requested n"
  "tn_keyboard_motion_armed (update_dpad n msg) = tn_keyboard_motion_armed n"
  "tn_keyboard_motion_ready (update_dpad n msg) = tn_keyboard_motion_ready n"
  by (simp_all add: update_dpad_def Let_def split: option.split)

lemma inputs_told_joy:
  assumes "axes_ok p" "inputs_told cube p is n"
  shows "inputs_told cube p (is @ [TI_joy msg now]) (on_joy cube n msg now)"
proof -
  let ?b = "joy_buttons n msg now"
  have b: "tn_params ?b = p" "tn_last_joy_at ?b = Some now" "tn_manual_held ?b = button_held msg (tp_deadman_button p)"
      "tn_fixed_throttle_held ?b = button_held msg R1_BUTTON_INDEX" "tn_teleop_suppress_held ?b = button_held msg L1_BUTTON_INDEX"
      "tn_throttle ?b = tn_throttle n" "tn_keyboard_valid ?b = tn_keyboard_valid n"
      "tn_last_keyboard_state_at ?b = tn_last_keyboard_state_at n" "tn_keyboard_throttle ?b = tn_keyboard_throttle n"
      "tn_keyboard_motion_requested ?b = tn_keyboard_motion_requested n"
      "tn_keyboard_motion_armed ?b \<Longrightarrow> tn_keyboard_motion_armed n" "tn_keyboard_motion_ready ?b \<Longrightarrow> tn_keyboard_motion_ready n"
    using assms(2) by (auto simp: inputs_told_def joy_buttons_def disarm_held_keyboard_motion_def Let_def split: if_splits)
  show ?thesis
  proof (cases "axes_cover p msg")
    case True
    have ix: "py_index (jy_axes msg) (tp_axis_brake p) = Some (joy_axis msg (tp_axis_brake p))"
      "py_index (jy_axes msg) (tp_axis_throttle p) = Some (joy_axis msg (tp_axis_throttle p))"
      "py_index (jy_axes msg) (tp_axis_steer p) = Some (joy_axis msg (tp_axis_steer p))"
      using assms(1) True by (simp_all add: axes_ok_def axes_cover_def py_index_joy_axis)
    have "\<not> int (length (jy_axes msg)) \<le> max (tp_axis_steer p) (max (tp_axis_brake p) (tp_axis_throttle p))"
      using True by (simp add: axes_cover_def)
    then have "on_joy cube n msg now = (update_dpad ?b msg)\<lparr>tn_steer := fmul (joy_axis msg (tp_axis_steer p)) (Fin 1),
        tn_reverse := brake_trigger p msg, tn_throttle := throttle_trigger p msg, tn_manual_cmd := joy_command cube p msg\<rparr>"
      using b True by (simp add: on_joy_def joy_axes_def ix joy_command_def brake_trigger_def throttle_trigger_def
          INVERT_STEER_def Let_def)
    then show ?thesis using assms(2) b True by (simp add: inputs_told_def joy_told_def keyboard_told_def joy_reverse_def)
  next
    case False
    then have "int (length (jy_axes msg)) \<le> max (tp_axis_steer p) (max (tp_axis_brake p) (tp_axis_throttle p))"
      by (simp add: axes_cover_def)
    then have "on_joy cube n msg now = (update_dpad ?b msg)\<lparr>tn_manual_cmd := Fin 0, tn_reverse := Fin 0\<rparr>"
      using b by (simp add: on_joy_def joy_axes_def Let_def)
    then show ?thesis using assms(2) b False by (simp add: inputs_told_def joy_told_def keyboard_told_def joy_command_def joy_reverse_def)
  qed
qed

lemma inputs_told_keyboard:
  assumes "inputs_told cube p is n"
  shows "inputs_told cube p (is @ [TI_keyboard msg now later]) (keyboard_state n msg now)"
proof -
  let ?is = "is @ [TI_keyboard msg now later]"
  define n1 where "n1 = keyboard_suppress (n\<lparr>tn_last_keyboard_state_at := Some now\<rparr>) (kb_mode msg AND MODE_BRAKE \<noteq> 0) (kb_mode msg AND MODE_SUPPRESS \<noteq> 0)"
  have n1: "tn_last_keyboard_state_at n1 = Some now" "inputs_told cube p ?is (invalidate_keyboard n1)"
      "inputs_told cube p ?is (n1\<lparr>tn_keyboard_valid := False, tn_keyboard_suppress_requested := True, tn_keyboard_suppress_previous := True\<rparr>)"
      "inputs_told cube p ?is (invalidate_keyboard (n\<lparr>tn_last_keyboard_state_at := Some now\<rparr>))"
    using assms by (simp_all add: inputs_told_def joy_told_def keyboard_told_def n1_def keyboard_suppress_def invalidate_keyboard_def)
  define motion where "motion \<longleftrightarrow> \<not> feq (kb_throttle msg) (Fin 0) \<and> \<not> kb_mode msg AND MODE_BRAKE \<noteq> 0"
  have mo: "inputs_told cube p ?is ((keyboard_motion n1 motion)\<lparr>tn_keyboard_valid := True, tn_keyboard_mode := kb_mode msg,
       tn_keyboard_throttle := kb_throttle msg, tn_keyboard_steer := kb_steering msg,
       tn_keyboard_motion_requested := motion, tn_keyboard_motion_previous := motion,
       tn_keyboard_suppress_requested := s, tn_keyboard_suppress_previous := s\<rparr>)"
    if "keyboard_wellformed msg" "kb_valid msg" for s
    using assms that n1(1) by (simp add: inputs_told_def joy_told_def keyboard_told_def keyboard_motion_def n1_def keyboard_suppress_def motion_def)
  show ?thesis unfolding keyboard_state_def Let_def n1_def [symmetric] motion_def [symmetric]
    using n1 mo by simp
qed

lemma inputs_told_step:
  assumes "axes_ok p" "inputs_told cube p is n"
  shows "inputs_told cube p (is @ [i]) (teleop_step cube n i)"
proof (cases i)
  case (TI_joy msg now)
  then show ?thesis using inputs_told_joy [OF assms] by simp
next
  case (TI_keyboard msg now later)
  then show ?thesis using inputs_told_keyboard [OF assms(2)] inputs_told_publish by (simp add: on_keyboard_eq)
next
  case (TI_timer now)
  then show ?thesis using inputs_told_publish [OF inputs_told_timer [OF assms(2)]] by simp
qed

lemma inputs_told_run: "axes_ok p \<Longrightarrow> inputs_told cube p js n \<Longrightarrow> inputs_told cube p (js @ is) (run_steps (teleop_step cube) n is)"
proof (induction "is" arbitrary: n js)
  case (Cons i "is")
  then show ?case using Cons.IH [OF Cons.prems(1) inputs_told_step [OF Cons.prems], of i] by simp
qed simp

lemma inputs_told_initial: "tn_initial n \<Longrightarrow> inputs_told cube (tn_params n) [] n"
  by (auto simp: tn_initial_def new_teleop_def bind_result_Inr_iff inputs_told_def)

definition recent_input :: "pyfloat \<Rightarrow> pyfloat \<Rightarrow> pyfloat \<Rightarrow> bool" where
  "recent_input t now timeout \<longleftrightarrow> \<not> flt timeout (fsub now t)"

text \<open>
  The controller asks for \<open>v\<close>: its last message is recent and holds X, then \<open>v\<close> is
  that message's shaped trigger command, or R1 without X, then \<open>v\<close> is minus the
  setpoint for that message's brake trigger, or the setpoint for the throttle
  trigger of the last message that carried the axes.
\<close>

definition controller_asks ::
  "(pyfloat \<Rightarrow> pyfloat) \<Rightarrow> teleop_params \<Rightarrow> pyfloat \<Rightarrow> teleop_input list \<Rightarrow> pyfloat \<Rightarrow> pyfloat \<Rightarrow> bool" where
  "controller_asks cube p setpoint is now v \<longleftrightarrow> (\<exists>msg t. last_joy is = Some (msg, t)
     \<and> recent_input t now (tp_controller_timeout p)
     \<and> (if button_held msg (tp_deadman_button p) then v = joy_command cube p msg
        else button_held msg R1_BUTTON_INDEX
          \<and> (axes_cover p msg \<and> flt THROTTLE_DEADZONE (brake_trigger p msg) \<and> v = fneg setpoint
             \<or> (\<exists>msg'. last_covering p is = Some msg' \<and> flt THROTTLE_DEADZONE (throttle_trigger p msg') \<and> v = setpoint))))"

text \<open>
  The keyboard asks for \<open>v\<close>: its last state is recent, valid, without brake, and
  demands the throttle \<open>v\<close>, and a rest state has been seen before.
\<close>

definition keyboard_asks :: "teleop_params \<Rightarrow> teleop_input list \<Rightarrow> pyfloat \<Rightarrow> pyfloat \<Rightarrow> bool" where
  "keyboard_asks p is now v \<longleftrightarrow> (\<exists>msg t. last_keyboard is = Some (msg, t)
     \<and> recent_input t now (tp_keyboard_state_timeout p)
     \<and> keyboard_wellformed msg \<and> kb_valid msg \<and> kb_mode msg AND MODE_BRAKE = 0 \<and> v = kb_throttle msg)
     \<and> list_ex rest_sample is"

lemma fresh_recent: "fresh_sample (Some t) now timeout = recent_input t now timeout"
  by (simp add: fresh_sample_def recent_input_def)

lemma deadzone: "\<not> flt THROTTLE_DEADZONE (Fin 0)"
  using dbl_ge_double [of 0 "5 / 100"] flt_not_fle by (auto simp: THROTTLE_DEADZONE_def)

lemma setpoint_frames [simp]:
  "tn_setpoint (expire_inputs n now) = tn_setpoint n" "tn_setpoint (keyboard_state n msg now) = tn_setpoint n"
  by (simp_all add: expire_inputs_def expire_keyboard_def expire_controller_def invalidate_keyboard_def
      disarm_held_keyboard_motion_def keyboard_state_def keyboard_suppress_def keyboard_motion_def Let_def)

lemma publish_cmd_setpoint [simp]: "tn_setpoint (publish_cmd n now) = tn_setpoint n"
  using publish_cmd_same [of n now] by (simp add: same_inputs_def)

lemma drives_asks:
  assumes "inputs_told cube p is n" "v \<noteq> Fin 0"
  shows "controller_drives n now v \<Longrightarrow> controller_asks cube p (tn_setpoint n) is now v"
    and "keyboard_drives n now v \<Longrightarrow> keyboard_asks p is now v"
proof -
  assume d: "controller_drives n now v"
  then obtain msg t where m: "last_joy is = Some (msg, t)" "joy_told cube p n msg t" "tn_params n = p"
    using assms(1) by (auto simp: inputs_told_def controller_drives_def)
  have th: "flt THROTTLE_DEADZONE (tn_throttle n) \<Longrightarrow> \<exists>msg'. last_covering p is = Some msg' \<and> tn_throttle n = throttle_trigger p msg'"
    using assms(1) deadzone by (auto simp: inputs_told_def)
  show "controller_asks cube p (tn_setpoint n) is now v"
    using d m th deadzone unfolding controller_asks_def controller_drives_def
    by (auto simp: joy_told_def fresh_recent joy_reverse_def split: if_splits)
next
  assume "keyboard_drives n now v"
  then show "keyboard_asks p is now v"
    using assms by (auto simp: inputs_told_def keyboard_drives_def keyboard_asks_def keyboard_told_def fresh_recent)
qed

text \<open>
  C12. A nonzero throttle is published only for a human input that the last
  messages of the run still show, whatever came before. Either the last
  controller message is no older than the controller timeout and holds the
  dead-man button X, and the throttle is the shaped trigger command of that very
  message; or it holds R1 and not X, and the throttle is minus the setpoint for
  its brake trigger, or the setpoint for the throttle trigger as the last message
  with all configured axes gave it (a message with too few axes leaves that
  trigger as it was). Or the last keyboard state is no older than its timeout,
  valid, without brake and demands that very throttle, and a rest state preceded
  it. The configured axis indices are not negative.
\<close>

theorem motion_needs_held_input:
  assumes "cube_ok cube" "tn_initial n0" "axes_ok (tn_params n0)" "n = run_steps (teleop_step cube) n0 is"
    "tn_effects (teleop_step cube n i) = tn_effects n @ es" "TE_command v s \<in> set es" "v \<noteq> Fin 0"
  shows "\<exists>now. (i = TI_timer now \<or> (\<exists>msg t. i = TI_keyboard msg t now))
    \<and> (controller_asks cube (tn_params n0) (tn_setpoint n) is now v \<or> keyboard_asks (tn_params n0) (is @ [i]) now v)"
proof -
  have flags: "tn_flags_ok n" using tn_inv_reachable [OF assms(1,2)] assms(4) by (simp add: tn_inv_def)
  have "inputs_told cube (tn_params n0) is n" using inputs_told_run [OF assms(3) inputs_told_initial [OF assms(2)], of cube "is"] assms(4) by simp
  from inputs_told_step [OF assms(3) this, of i] have t: "inputs_told cube (tn_params n0) (is @ [i]) (teleop_step cube n i)" .
  have pub: "\<exists>now. (i = TI_timer now \<or> (\<exists>msg t. i = TI_keyboard msg t now))
    \<and> (controller_drives (teleop_step cube n i) now v \<or> keyboard_drives (teleop_step cube n i) now v)
    \<and> tn_setpoint (teleop_step cube n i) = tn_setpoint n"
  proof (cases i)
    case (TI_joy msg now)
    then show ?thesis using on_joy_effects [of cube n msg now es] assms(5,6) by auto
  next
    case (TI_keyboard msg t now)
    then have "keyboard_publishes msg" using assms(5,6) by (cases "keyboard_publishes msg") (auto simp: on_keyboard_eq)
    then show ?thesis
      using TI_keyboard publish_cmd_drives [OF keyboard_flags [OF flags], of msg t now es v s] assms(5-7)
      by (auto simp: on_keyboard_eq)
  next
    case (TI_timer now)
    then show ?thesis using publish_cmd_drives [OF flags, of now es v s] assms(5-7) by auto
  qed
  then obtain now where now: "i = TI_timer now \<or> (\<exists>msg t. i = TI_keyboard msg t now)"
      "controller_drives (teleop_step cube n i) now v \<or> keyboard_drives (teleop_step cube n i) now v"
      "tn_setpoint (teleop_step cube n i) = tn_setpoint n" by blast
  have "controller_asks cube p w (is @ [i]) now v = controller_asks cube p w is now v" for p w
  proof -
    have "last_joy (is @ [i]) = last_joy is" "last_covering p (is @ [i]) = last_covering p is" using now(1) by auto
    then show ?thesis by (simp only: controller_asks_def)
  qed
  then show ?thesis using now drives_asks [OF t assms(7)] by auto
qed

text \<open>
  Ranges of the published values: after any inputs every published throttle
  lies in [-1, 1] and every published setpoint between the configured bounds,
  rounding of the shaping and of the decimal steps included.
\<close>

theorem teleop_outputs_in_range:
  assumes "cube_ok cube" "tn_initial n0" "n = run_steps (teleop_step cube) n0 is"
  shows "(\<forall>v s. TE_command v s \<in> set (tn_effects n) \<longrightarrow> fle (Fin (- 1)) v \<and> fle v (Fin 1))
    \<and> (\<forall>v. TE_setpoint v \<in> set (tn_effects n)
          \<longrightarrow> fle (tp_min_setpoint (tn_params n)) v \<and> fle v (tp_max_setpoint (tn_params n)))"
  using tn_inv_reachable [OF assms(1,2), of "is"] assms(3)
  by (auto simp: tn_inv_def tn_values_ok_def list_all_iff unit_range_def setpoint_ok_def dest: bspec)

section \<open>Rearming the keyboard\<close>

definition keyboard_dead :: "teleop \<Rightarrow> bool" where
  "keyboard_dead n \<longleftrightarrow> \<not> tn_keyboard_motion_armed n \<and> \<not> tn_keyboard_motion_ready n"

definition no_motion :: "teleop \<Rightarrow> teleop \<Rightarrow> bool" where
  "no_motion n m \<longleftrightarrow> (\<exists>es. tn_effects m = tn_effects n @ es \<and> TE_mode KEYBOARD_MOTION_MODE \<notin> set es)"

lemma no_motion_refl [simp]: "no_motion n n" by (simp add: no_motion_def)

lemma no_motion_trans: "no_motion n m \<Longrightarrow> no_motion m k \<Longrightarrow> no_motion n k"
  by (fastforce simp: no_motion_def)

lemma dead_expire: "keyboard_dead n \<Longrightarrow> keyboard_dead (expire_inputs n now)"
  by (simp add: keyboard_dead_def expire_inputs_def expire_keyboard_def expire_controller_def invalidate_keyboard_def
    disarm_held_keyboard_motion_def)

lemma dead_publish:
  assumes "keyboard_dead n" shows "keyboard_dead (publish_cmd n now)" "no_motion n (publish_cmd n now)"
proof -
  show "keyboard_dead (publish_cmd n now)"
    using dead_expire [OF assms, of now] publish_cmd_same [of n now] by (simp add: keyboard_dead_def same_inputs_def)
  have "fst (select_command (expire_inputs n now)) \<noteq> KEYBOARD_MOTION_MODE"
    using dead_expire [OF assms, of now]
    by (simp add: select_command_def active_mode_def keyboard_dead_def Let_def)
  then show "no_motion n (publish_cmd n now)"
    by (auto simp: no_motion_def publish_cmd_def publish_selected_def Let_def split: prod.split)
qed

lemma dead_axes: "keyboard_dead n \<Longrightarrow> keyboard_dead (joy_axes cube (update_dpad n msg) msg)"
proof -
  assume "keyboard_dead n"
  then have "keyboard_dead (update_dpad n msg)"
    by (simp add: update_dpad_def keyboard_dead_def Let_def split: option.split)
  then show ?thesis by (simp add: joy_axes_def keyboard_dead_def publishes_def Let_def split: option.split)
qed

lemma dead_joy: "keyboard_dead n \<Longrightarrow> keyboard_dead (on_joy cube n msg now)"
  unfolding on_joy_def
  by (rule dead_axes) (simp add: joy_buttons_def disarm_held_keyboard_motion_def keyboard_dead_def Let_def)

lemma dead_keyboard:
  "keyboard_dead n \<Longrightarrow> \<not> rest_sample (TI_keyboard msg now later) \<Longrightarrow> keyboard_dead (keyboard_state n msg now)"
  by (auto simp: keyboard_state_def keyboard_dead_def invalidate_keyboard_def keyboard_suppress_def keyboard_motion_def Let_def)

lemma no_motion_joy: "no_motion n (on_joy cube n msg now)"
  by (auto simp: no_motion_def on_joy_def joy_axes_def Let_def split: option.split)

lemma dead_step:
  assumes "keyboard_dead n" "\<not> rest_sample i"
  shows "keyboard_dead (teleop_step cube n i) \<and> no_motion n (teleop_step cube n i)"
proof (cases i)
  case (TI_keyboard msg now later)
  have d: "keyboard_dead (keyboard_state n msg now)" using dead_keyboard assms TI_keyboard by blast
  have "no_motion n (keyboard_state n msg now)" by (simp add: no_motion_def)
  then show ?thesis using TI_keyboard d dead_publish [OF d, of later] by (auto simp: on_keyboard_eq intro: no_motion_trans)
qed (use assms dead_joy no_motion_joy dead_publish in auto)

lemma dead_run:
  "keyboard_dead n \<Longrightarrow> list_all (\<lambda>i. \<not> rest_sample i) is \<Longrightarrow>
    keyboard_dead (run_steps (teleop_step cube) n is) \<and> no_motion n (run_steps (teleop_step cube) n is)"
proof (induction "is" arbitrary: n)
  case (Cons i "is")
  then show ?case using dead_step [of n i cube] Cons.IH [of "teleop_step cube n i"] by (auto intro: no_motion_trans)
qed simp

text \<open>
  A controller press disarms a held key for good: once X, R1 or L1 was
  pressed while the keyboard asked for motion, keyboard motion is not
  published again, whatever arrives, until the keyboard reports a state
  without motion.
\<close>

theorem keyboard_rearm_needs_rest:
  assumes "button_held msg (tp_deadman_button (tn_params n)) \<or> button_held msg R1_BUTTON_INDEX \<or> button_held msg L1_BUTTON_INDEX"
    "tn_keyboard_motion_requested n" "list_all (\<lambda>i. \<not> rest_sample i) is"
  shows "\<exists>es. tn_effects (run_steps (teleop_step cube) (on_joy cube n msg now) is) = tn_effects (on_joy cube n msg now) @ es
    \<and> TE_mode KEYBOARD_MOTION_MODE \<notin> set es"
proof -
  have "keyboard_dead (joy_buttons n msg now)"
    using assms(1,2) by (auto simp: joy_buttons_def disarm_held_keyboard_motion_def keyboard_dead_def Let_def)
  then have "keyboard_dead (on_joy cube n msg now)" unfolding on_joy_def by (rule dead_axes)
  then show ?thesis using dead_run [OF _ assms(3), of _ cube] by (auto simp: no_motion_def)
qed

section \<open>Witnesses\<close>

definition demo_cube :: "pyfloat \<Rightarrow> pyfloat" where
  "demo_cube v = fmul (fmul v v) v"

lemma demo_cube_ok: "cube_ok demo_cube"
  unfolding cube_ok_def
proof (intro allI impI)
  fix q :: rat
  assume q: "0 \<le> q" "q \<le> 1"
  have s: "rnd (q * q) \<le> 1" "0 \<le> rnd (q * q)"
    using q by (auto intro!: rnd_le_one order.trans [OF mult_le_one] rnd_nonneg)
  have c: "rnd (rnd (q * q) * q) \<le> 1"
    using q s by (intro rnd_le_one order.trans [OF mult_le_one]) auto
  show "\<exists>r. demo_cube (Fin q) = Fin r \<and> 0 \<le> r \<and> r \<le> 1"
    using q s c by (simp add: demo_cube_def dbl_unit rnd_nonneg)
qed

definition demo_teleop_params :: teleop_params where
  "demo_teleop_params = \<lparr> tp_axis_steer = 0, tp_axis_brake = 2, tp_axis_throttle = 5,
     tp_deadman_button = X_BUTTON_INDEX, tp_manual_trigger_expo = Fin (1 / 2), tp_initial_setpoint = Fin (1 / 4),
     tp_step = Fin (1 / 8), tp_max_setpoint = Fin (1 / 2), tp_min_setpoint = Fin 0,
     tp_controller_timeout = Fin 1, tp_keyboard_state_timeout = Fin 1, tp_release_brake_duration = Fin 1 \<rparr>"

definition demo_teleop :: teleop where
  "demo_teleop = projr (new_teleop demo_teleop_params ''epoch'')"

lemma one_above_mux_timeout: "\<not> fle (Fin 1) (dbl (3 / 20))"
proof
  assume "fle (Fin 1) (dbl (3 / 20))"
  then have "fle (Fin 1) (Fin (1 / 2))" by (rule fle_trans) (simp add: dbl_le_double)
  then show False by simp
qed

lemmas demo_defs = demo_teleop_params_def check_duration_def validate_manual_trigger_expo_def wrap_fixed_error_def
  validate_fixed_throttle_config_def new_teleop_def one_above_mux_timeout

lemma demo_teleop_built: "new_teleop demo_teleop_params ''epoch'' = Inr demo_teleop"
  by (simp add: demo_teleop_def demo_defs)

lemma demo_teleop_initial: "tn_initial demo_teleop"
  unfolding tn_initial_def
  by (intro exI conjI, rule demo_teleop_built) (simp_all add: demo_teleop_params_def)

definition demo_key :: "rat \<Rightarrow> pyfloat \<Rightarrow> teleop_input" where
  "demo_key v now = TI_keyboard \<lparr> kb_valid = True, kb_mode = MODE_DRIVE, kb_throttle = Fin v, kb_steering = Fin 0 \<rparr> now now"

definition demo_keys :: "teleop_input list" where
  "demo_keys = [demo_key 0 (Fin 0), demo_key (1 / 2) (Fin 0)]"

definition demo_moving :: teleop where
  "demo_moving = run_steps (teleop_step demo_cube) demo_teleop demo_keys"

lemma demo_moving_fields:
  "tn_effects demo_moving = []" "\<not> tn_controller_live demo_moving" "tn_keyboard_valid demo_moving"
  "tn_last_keyboard_state_at demo_moving = Some (Fin 0)" "tp_keyboard_state_timeout (tn_params demo_moving) = Fin 1"
  "tn_keyboard_motion_requested demo_moving" "tn_keyboard_motion_armed demo_moving" "tn_keyboard_throttle demo_moving = Fin (1 / 2)"
  "tn_keyboard_steer demo_moving = Fin 0" "tn_keyboard_mode demo_moving = 0" "\<not> tn_manual_held demo_moving"
  "\<not> tn_fixed_throttle_held demo_moving" "\<not> tn_teleop_suppress_held demo_moving" "\<not> tn_keyboard_suppress_requested demo_moving"
  by (simp_all add: demo_moving_def demo_keys_def demo_key_def demo_teleop_def demo_defs on_keyboard_def Let_def
    keyboard_wellformed_def keyboard_suppress_def keyboard_motion_def MODE_DRIVE_def MODE_BRAKE_def MODE_SUPPRESS_def)

lemma demo_expire: "expire_inputs demo_moving (Fin 0) = demo_moving"
  by (simp add: expire_inputs_def expire_controller_def expire_keyboard_def aged_def demo_moving_fields)

lemma demo_select: "select_command demo_moving = (KEYBOARD_MOTION_MODE, True, Fin (1 / 2), Fin 0)"
  by (simp add: select_command_def active_mode_def demo_moving_fields)

definition demo_es :: "teleop_effect list" where
  "demo_es = tn_effects (publish_cmd demo_moving (Fin 0))"

lemma demo_commands: "TE_command (Fin (1 / 2)) (Fin 0) \<in> set demo_es"
  by (simp add: demo_es_def publish_cmd_def demo_expire demo_select publish_selected_def Let_def)

theorem motion_needs_held_input_witness:
  "keyboard_asks (tn_params demo_teleop) (demo_keys @ [TI_timer (Fin 0)]) (Fin 0) (Fin (1 / 2))
   \<and> last_joy demo_keys = None"
proof -
  have axes: "axes_ok (tn_params demo_teleop)" by (simp add: axes_ok_def demo_teleop_def demo_defs)
  have none: "last_joy demo_keys = None" by (simp add: demo_keys_def demo_key_def)
  show ?thesis
    using motion_needs_held_input [OF demo_cube_ok demo_teleop_initial axes demo_moving_def, of "TI_timer (Fin 0)" demo_es
      "Fin (1 / 2)" "Fin 0"] demo_commands none by (auto simp: demo_moving_fields demo_es_def controller_asks_def)
qed

theorem teleop_outputs_in_range_witness:
  "TE_command (Fin (1 / 2)) (Fin 0) \<in> set (tn_effects (run_steps (teleop_step demo_cube) demo_teleop (demo_keys @ [TI_timer (Fin 0)])))
   \<and> fle (Fin (- 1)) (Fin (1 / 2)) \<and> fle (Fin (1 / 2)) (Fin 1)"
proof -
  have c: "TE_command (Fin (1 / 2)) (Fin 0)
      \<in> set (tn_effects (run_steps (teleop_step demo_cube) demo_teleop (demo_keys @ [TI_timer (Fin 0)])))"
    using demo_commands by (simp add: run_steps_append demo_moving_def [symmetric] demo_es_def)
  then show ?thesis using teleop_outputs_in_range [OF demo_cube_ok demo_teleop_initial refl] by blast
qed

definition demo_press :: joy where
  "demo_press = \<lparr> jy_axes = [], jy_buttons = [1] \<rparr>"

theorem keyboard_rearm_needs_rest_witness:
  "\<exists>es. tn_effects (run_steps (teleop_step demo_cube) (on_joy demo_cube demo_moving demo_press (Fin 0))
      [TI_timer (Fin 0), demo_key (1 / 2) (Fin 0), TI_timer (Fin 2)])
     = tn_effects (on_joy demo_cube demo_moving demo_press (Fin 0)) @ es \<and> TE_mode KEYBOARD_MOTION_MODE \<notin> set es"
proof (rule keyboard_rearm_needs_rest)
  show "button_held demo_press (tp_deadman_button (tn_params demo_moving)) \<or> button_held demo_press R1_BUTTON_INDEX
      \<or> button_held demo_press L1_BUTTON_INDEX"
    by (simp add: button_held_def demo_press_def demo_moving_def demo_keys_def demo_key_def demo_teleop_def demo_defs
      on_keyboard_def Let_def keyboard_wellformed_def keyboard_suppress_def keyboard_motion_def MODE_DRIVE_def MODE_BRAKE_def
      MODE_SUPPRESS_def X_BUTTON_INDEX_def)
  show "list_all (\<lambda>i. \<not> rest_sample i) [TI_timer (Fin 0), demo_key (1 / 2) (Fin 0), TI_timer (Fin 2)]"
    by (simp add: demo_key_def MODE_DRIVE_def)
qed (simp add: demo_moving_fields)

end
