(* ===== verification/MapStore.thy ===== *)
theory MapStore
  imports PngCodec PyFloat "HOL-Library.List_Lexorder" "HOL-Library.Char_ord"
begin

text \<open>
  The map catalogue on disk (\<open>runner_paddock/map_session.py\<close>): safe map ids,
  validation of a bundle, the occupancy raster, manifests, deletion, the
  catalogue scan and the staged save transaction. A map directory is a
  dictionary from file names to contents; the map root holds the published
  directories and the staging area beside them. The YAML and JSON readers, the
  JSON writer, SHA-256, the time stamp and files named by an image entry with a
  path are the fields of \<open>map_env\<close>; exception messages are kept without their
  formatted values, except that the name of a manifest artifact is not needed.
\<close>

section \<open>Parsed documents and the environment\<close>

datatype pyval =
    PNone
  | PBool bool
  | PInt int
  | PFloat pyfloat
  | PStr string
  | PList "pyval list"
  | PDict "(pyval \<times> pyval) list"

definition get_key :: "(pyval \<times> pyval) list \<Rightarrow> string \<Rightarrow> pyval option" where
  "get_key d k = map_of d (PStr k)"

text \<open>Reading a YAML document: undecodable text, a syntax error, or a value.\<close>

datatype yaml_read = BadText | BadYaml | Doc pyval

text \<open>Map directories live below the map root and, while staged, below its staging root.\<close>

datatype map_root = Published | Staging

record map_env =
  me_read_yaml :: "bytes \<Rightarrow> yaml_read"
  me_read_json :: "bytes \<Rightarrow> pyval option"
  me_write_json :: "pyval \<Rightarrow> bytes"
  me_sha256 :: "bytes \<Rightarrow> string"
  me_str :: "pyval \<Rightarrow> string"
  me_iso_time :: "pyfloat \<Rightarrow> string"
  me_outside :: "map_root \<Rightarrow> string \<Rightarrow> string \<Rightarrow> bytes option"

text \<open>\<open>str(v)\<close>: the value itself for a string.\<close>

definition py_str :: "map_env \<Rightarrow> pyval \<Rightarrow> string" where
  "py_str env v = (case v of PStr s \<Rightarrow> s | _ \<Rightarrow> me_str env v)"

definition ascii_bytes :: "string \<Rightarrow> bytes" where
  "ascii_bytes t = map (\<lambda>c. of_nat (of_char c)) t"

section \<open>Names\<close>

definition MAP_YAML_NAME :: string where "MAP_YAML_NAME = ''map.yaml''"
definition OCCUPANCY_NAME :: string where "OCCUPANCY_NAME = ''occupancy.pgm''"
definition POSEGRAPH_POSEGRAPH_NAME :: string where "POSEGRAPH_POSEGRAPH_NAME = ''posegraph.posegraph''"
definition POSEGRAPH_DATA_NAME :: string where "POSEGRAPH_DATA_NAME = ''posegraph.data''"
definition SEMANTICS_NAME :: string where "SEMANTICS_NAME = ''semantics.png''"
definition MANIFEST_NAME :: string where "MANIFEST_NAME = ''manifest.json''"
definition CORE_FILENAMES :: "string list" where
  "CORE_FILENAMES = [MAP_YAML_NAME, OCCUPANCY_NAME, POSEGRAPH_POSEGRAPH_NAME, POSEGRAPH_DATA_NAME]"
definition CANONICAL_FILENAMES :: "string list" where
  "CANONICAL_FILENAMES = CORE_FILENAMES @ [SEMANTICS_NAME]"
definition MAX_BASENAME_LEN :: nat where "MAX_BASENAME_LEN = 64"

lemmas file_names = MAP_YAML_NAME_def OCCUPANCY_NAME_def POSEGRAPH_POSEGRAPH_NAME_def POSEGRAPH_DATA_NAME_def
  SEMANTICS_NAME_def MANIFEST_NAME_def CORE_FILENAMES_def CANONICAL_FILENAMES_def

definition char_in :: "char \<Rightarrow> char \<Rightarrow> char \<Rightarrow> bool" where
  "char_in lo hi c = ((of_char lo :: nat) \<le> of_char c \<and> (of_char c :: nat) \<le> of_char hi)"

definition alnum :: "char \<Rightarrow> bool" where
  "alnum c = (char_in CHR ''A'' CHR ''Z'' c \<or> char_in CHR ''a'' CHR ''z'' c \<or> char_in CHR ''0'' CHR ''9'' c)"

text \<open>\<open>MAP_BASENAME.fullmatch(t)\<close>.\<close>

fun map_basename :: "string \<Rightarrow> bool" where
  "map_basename [] = False"
| "map_basename (c # t) = (alnum c \<and> list_all (\<lambda>x. alnum x \<or> x \<in> {CHR ''.'', CHR ''_'', CHR ''-''}) t)"

text \<open>\<open>Path(t).name\<close>: the last component that is neither empty nor a dot.\<close>

fun split_slash :: "string \<Rightarrow> string list" where
  "split_slash [] = [[]]"
| "split_slash (c # t) =
     (if c = CHR ''/'' then [] # split_slash t
      else case split_slash t of [] \<Rightarrow> [[c]] | p # ps \<Rightarrow> (c # p) # ps)"

definition path_name :: "string \<Rightarrow> string" where
  "path_name t = (let parts = filter (\<lambda>p. p \<noteq> [] \<and> p \<noteq> ''.'') (split_slash t) in
     if parts = [] then [] else last parts)"

definition safe_basename :: "string \<Rightarrow> string result" where
  "safe_basename map_id =
     (if map_id = [] \<or> MAX_BASENAME_LEN < length map_id then Inl (MapError ''map id must be 1-64 characters'')
      else if contains_text ''..'' map_id \<or> CHR ''/'' \<in> set map_id \<or> CHR 0x5C \<in> set map_id
      then Inl (MapError ''map id must not contain path separators'')
      else if path_name map_id \<noteq> map_id then Inl (MapError ''map id must be a bare single path component'')
      else if \<not> map_basename map_id
      then Inl (MapError ''map id must start with a letter or number'')
      else Inr map_id)"

section \<open>Directories\<close>

type_synonym dir = "(string, bytes) pydict"

datatype root_entry = RDir dir | RFile

record map_store =
  st_exists :: bool
  st_entries :: "(string, root_entry) pydict"
  st_staging :: "(string, dir) pydict"

fun dirs_of :: "map_root \<Rightarrow> map_store \<Rightarrow> string \<Rightarrow> dir option" where
  "dirs_of Published st name = (case dict_get (st_entries st) name of Some (RDir d) \<Rightarrow> Some d | _ \<Rightarrow> None)"
| "dirs_of Staging st name = dict_get (st_staging st) name"

text \<open>\<open>path.is_file() and path.stat().st_size != 0\<close>.\<close>

definition nonempty_file :: "dir \<Rightarrow> string \<Rightarrow> bool" where
  "nonempty_file d f = (case dict_get d f of None \<Rightarrow> False | Some content \<Rightarrow> content \<noteq> [])"

text \<open>
  The file an image entry names: inside the map directory when it is a bare
  name, elsewhere when it carries a path.
\<close>

definition image_file :: "map_env \<Rightarrow> map_root \<Rightarrow> string \<Rightarrow> dir \<Rightarrow> string \<Rightarrow> bytes option" where
  "image_file env base map_id d entry =
     (if CHR ''/'' \<in> set entry then me_outside env base map_id entry else dict_get d entry)"

section \<open>The header of a PGM file\<close>

definition is_space_byte :: "8 word \<Rightarrow> bool" where
  "is_space_byte b = (b = 32 \<or> (9 \<le> b \<and> b \<le> 13))"

lemma dropWhile_shorter: "xs \<noteq> [] \<Longrightarrow> P (hd xs) \<Longrightarrow> length (dropWhile P xs) < length xs"
  by (cases xs) (auto simp: le_imp_less_Suc length_dropWhile_le)

text \<open>\<open>tokens\<close> more tokens from the rest of the 64 byte head.\<close>

function pgm_tokens :: "nat \<Rightarrow> bytes \<Rightarrow> bytes list" where
  "pgm_tokens need rest =
     (if need = 0 \<or> rest = [] then []
      else let body = dropWhile is_space_byte rest in
        if body = [] then []
        else if hd body = 35 then pgm_tokens need (dropWhile (\<lambda>b. b \<noteq> 10) body)
        else takeWhile (\<lambda>b. \<not> is_space_byte b) body
               # pgm_tokens (need - 1) (dropWhile (\<lambda>b. \<not> is_space_byte b) body))"
  by pat_completeness auto

termination
proof (relation "measure (\<lambda>(n, rest). n + length rest)", goal_cases)
  case (2 need rest body)
  have "length (dropWhile (\<lambda>b. b \<noteq> 10) body) < length body" using 2 by (intro dropWhile_shorter) simp_all
  moreover have "length body \<le> length rest" using 2 by (simp add: length_dropWhile_le)
  ultimately show ?case by simp
next
  case (3 need rest body)
  have "length (dropWhile (\<lambda>b. \<not> is_space_byte b) body) \<le> length body" by (rule length_dropWhile_le)
  moreover have "length body \<le> length rest" using 3 by (simp add: length_dropWhile_le)
  moreover have "0 < need" using 3(1) by simp
  ultimately show ?case by simp
qed simp

declare pgm_tokens.simps [simp del]

text \<open>
  \<open>int(token)\<close> for a token without white space: an optional sign, digits, and
  single underscores between digits.
\<close>

definition is_digit_byte :: "8 word \<Rightarrow> bool" where
  "is_digit_byte b = (48 \<le> b \<and> b \<le> 57)"

fun int_digits :: "bool \<Rightarrow> int \<Rightarrow> bytes \<Rightarrow> int option" where
  "int_digits after_digit v [] = (if after_digit then Some v else None)"
| "int_digits after_digit v (b # bs) =
     (if is_digit_byte b then int_digits True (10 * v + (uint b - 48)) bs
      else if b = 95 \<and> after_digit then int_digits False v bs
      else None)"

definition int_token :: "bytes \<Rightarrow> int option" where
  "int_token t =
     (case t of
        [] \<Rightarrow> None
      | b # bs \<Rightarrow> if b = 43 then int_digits False 0 bs
                 else if b = 45 then map_option uminus (int_digits False 0 bs)
                 else int_digits False 0 (b # bs))"

definition read_pgm_header :: "bytes \<Rightarrow> (int \<times> int \<times> int) result" where
  "read_pgm_header content =
     (let head = take 64 content in
      if take 2 head \<noteq> [80, 53] then Inl (MapError ''not a binary PGM (missing P5 magic)'')
      else case pgm_tokens 3 (drop 2 head) of
          [a, b, c] \<Rightarrow>
            (case (int_token a, int_token b, int_token c) of
               (Some width, Some height, Some maxval) \<Rightarrow> Inr (width, height, maxval)
             | _ \<Rightarrow> Inl (MapError ''PGM header is not numeric''))
        | _ \<Rightarrow> Inl (MapError ''PGM header is truncated''))"

section \<open>Validation of a bundle\<close>

record map_meta =
  mt_image :: string
  mt_resolution :: pyfloat
  mt_origin :: "pyfloat list"

text \<open>\<open>isinstance(v, (int, float))\<close>, \<open>v > 0.0\<close> and \<open>float(v)\<close>; a bool is an int.\<close>

fun is_number :: "pyval \<Rightarrow> bool" where
  "is_number (PBool b) = True"
| "is_number (PInt n) = True"
| "is_number (PFloat x) = True"
| "is_number _ = False"

fun positive :: "pyval \<Rightarrow> bool" where
  "positive (PBool b) = b"
| "positive (PInt n) = (0 < n)"
| "positive (PFloat x) = flt (Fin 0) x"
| "positive _ = False"

fun to_float :: "pyval \<Rightarrow> pyfloat result" where
  "to_float (PBool b) = Inr (Fin (if b then 1 else 0))"
| "to_float (PInt n) = float_of_int n"
| "to_float (PFloat x) = Inr x"
| "to_float _ = Inl (TypeError ''float'')"

fun map_result :: "('a \<Rightarrow> 'b result) \<Rightarrow> 'a list \<Rightarrow> 'b list result" where
  "map_result f [] = Inr []"
| "map_result f (x # xs) = bind_result (f x) (\<lambda>y. bind_result (map_result f xs) (\<lambda>ys. Inr (y # ys)))"

definition parse_map_document :: "(pyval \<times> pyval) list \<Rightarrow> map_meta result" where
  "parse_map_document document =
     (case get_key document ''image'' of
        Some (PStr entry) \<Rightarrow>
          if entry = [] then Inl (MapError ''map yaml has no image entry'')
          else (case get_key document ''resolution'' of
              None \<Rightarrow> Inl (MapError ''map yaml resolution is missing or not positive'')
            | Some resolution \<Rightarrow>
                if \<not> is_number resolution \<or> \<not> positive resolution
                then Inl (MapError ''map yaml resolution is missing or not positive'')
                else (case get_key document ''origin'' of
                    Some (PList origin) \<Rightarrow>
                      if length origin \<noteq> 3 \<or> \<not> list_all is_number origin
                      then Inl (MapError ''map yaml origin must be a list of three numbers'')
                      else bind_result (to_float resolution) (\<lambda>r.
                           bind_result (map_result to_float origin) (\<lambda>xs.
                           Inr \<lparr> mt_image = entry, mt_resolution = r, mt_origin = xs \<rparr>))
                  | _ \<Rightarrow> Inl (MapError ''map yaml origin must be a list of three numbers'')))
      | _ \<Rightarrow> Inl (MapError ''map yaml has no image entry''))"

definition parse_map_yaml :: "map_env \<Rightarrow> bytes \<Rightarrow> map_meta result" where
  "parse_map_yaml env content =
     (case me_read_yaml env content of
        BadText \<Rightarrow> Inl (ValueError ''utf-8 codec cannot decode'')
      | BadYaml \<Rightarrow> Inl (MapError ''map yaml does not parse as YAML'')
      | Doc (PDict document) \<Rightarrow> parse_map_document document
      | Doc _ \<Rightarrow> Inl (MapError ''map yaml is not a YAML mapping''))"

record bundle_info =
  bi_name :: string
  bi_revision :: string
  bi_session_id :: string
  bi_resolution :: pyfloat
  bi_width :: int
  bi_height :: int

text \<open>\<open>read_manifest\<close> on the directory of a map whose id was already validated.\<close>

definition read_manifest :: "map_env \<Rightarrow> dir \<Rightarrow> (pyval \<times> pyval) list option" where
  "read_manifest env d =
     (case dict_get d MANIFEST_NAME of
        None \<Rightarrow> None
      | Some content \<Rightarrow> (case me_read_json env content of Some (PDict m) \<Rightarrow> Some m | _ \<Rightarrow> None))"

definition artifact_name_ok :: "string \<Rightarrow> bool" where
  "artifact_name_ok f =
     (CHR ''/'' \<notin> set f \<and> CHR 0x5C \<notin> set f \<and> \<not> contains_text ''..'' f \<and> path_name f = f)"

fun check_artifacts :: "map_env \<Rightarrow> dir \<Rightarrow> (pyval \<times> pyval) list \<Rightarrow> unit result" where
  "check_artifacts env d [] = Inr ()"
| "check_artifacts env d ((k, digest) # rest) =
     (case k of
        PStr f \<Rightarrow>
          if \<not> artifact_name_ok f then Inl (MapError ''manifest names an invalid artifact filename'')
          else if f \<notin> set CORE_FILENAMES then check_artifacts env d rest
          else (case dict_get d f of
              None \<Rightarrow> Inl (MapError ''manifest hash mismatch'')
            | Some content \<Rightarrow>
                if PStr (me_sha256 env content) \<noteq> digest then Inl (MapError ''manifest hash mismatch'')
                else check_artifacts env d rest)
      | _ \<Rightarrow> Inl (MapError ''manifest names an invalid artifact filename''))"

definition check_manifest :: "map_env \<Rightarrow> dir \<Rightarrow> (pyval \<times> pyval) list \<Rightarrow> unit result" where
  "check_manifest env d manifest =
     (case get_key manifest ''artifacts'' of
        Some (PDict recorded) \<Rightarrow> check_artifacts env d recorded
      | _ \<Rightarrow> Inr ())"

definition manifest_text :: "map_env \<Rightarrow> (pyval \<times> pyval) list option \<Rightarrow> string \<Rightarrow> string" where
  "manifest_text env manifest k =
     (case manifest of
        None \<Rightarrow> []
      | Some m \<Rightarrow> (case get_key m k of None \<Rightarrow> [] | Some v \<Rightarrow> py_str env v))"

text \<open>The checks that read only the map directory, in the order of the code.\<close>

definition validate_dir :: "map_env \<Rightarrow> map_root \<Rightarrow> string \<Rightarrow> dir \<Rightarrow> bundle_info result" where
  "validate_dir env base map_id d =
     (if \<not> nonempty_file d POSEGRAPH_POSEGRAPH_NAME \<or> \<not> nonempty_file d POSEGRAPH_DATA_NAME
      then Inl (MapError ''missing or empty posegraph'')
      else if \<not> nonempty_file d MAP_YAML_NAME then Inl (MapError ''missing or empty map.yaml'')
      else bind_result (parse_map_yaml env (the (dict_get d MAP_YAML_NAME))) (\<lambda>meta.
        case image_file env base map_id d (mt_image meta) of
          None \<Rightarrow> Inl (MapError ''map.yaml references missing raster'')
        | Some raster \<Rightarrow>
            if raster = [] then Inl (MapError ''map.yaml references missing raster'')
            else bind_result (read_pgm_header raster) (\<lambda>(width, height, maxval).
              if width \<le> 0 \<or> height \<le> 0 then Inl (MapError ''raster dimensions are not positive'')
              else if \<not> (0 < maxval \<and> maxval \<le> 255) then Inl (MapError ''raster maxval is implausible'')
              else (let manifest = read_manifest env d in
                bind_result (case manifest of None \<Rightarrow> Inr () | Some m \<Rightarrow> check_manifest env d m) (\<lambda>_.
                Inr \<lparr> bi_name = map_id, bi_revision = manifest_text env manifest ''revision'',
                      bi_session_id = manifest_text env manifest ''session_id'',
                      bi_resolution = mt_resolution meta, bi_width = width, bi_height = height \<rparr>)))))"

definition validate_bundle :: "map_env \<Rightarrow> map_root \<Rightarrow> map_store \<Rightarrow> string \<Rightarrow> bundle_info result" where
  "validate_bundle env base st map_id =
     bind_result (safe_basename map_id) (\<lambda>name.
       case dirs_of base st name of
         None \<Rightarrow> Inl (MapError ''no such map directory'')
       | Some d \<Rightarrow> validate_dir env base map_id d)"

section \<open>Deletion and the catalogue\<close>

text \<open>\<open>rename_raises\<close>: \<open>os.replace\<close> raised \<open>OSError\<close>; the live directory is then untouched.\<close>

definition delete_bundle ::
  "map_env \<Rightarrow> bool \<Rightarrow> map_store \<Rightarrow> string \<Rightarrow> map_store \<times> bundle_info result" where
  "delete_bundle env rename_raises st map_id =
     (case validate_bundle env Published st map_id of
        Inl e \<Rightarrow> (st, Inl e)
      | Inr info \<Rightarrow>
          if rename_raises then (st, Inl (MapError ''could not stage directory deletion''))
          else (st\<lparr>st_entries := dict_del (st_entries st) map_id\<rparr>, Inr info))"

definition validate_delete_candidate ::
  "map_env \<Rightarrow> map_store \<Rightarrow> string \<Rightarrow> string \<Rightarrow> string \<Rightarrow> bundle_info result" where
  "validate_delete_candidate env st map_id selected active_autonomy_map =
     bind_result (safe_basename map_id) (\<lambda>_.
       if map_id = selected then Inl (MapError ''cannot delete the selected map; select another map first'')
       else if map_id = active_autonomy_map then Inl (MapError ''cannot delete the map used by AUTONOMY'')
       else validate_bundle env Published st map_id)"

record catalog_entry =
  ce_name :: string
  ce_revision :: string
  ce_complete :: bool
  ce_selected :: bool
  ce_session_id :: string
  ce_reason :: string
  ce_resolution :: pyfloat
  ce_width :: int
  ce_height :: int

text \<open>
  One row of the scan: an incomplete row for a \<open>MapError\<close>; any other exception
  is not caught and ends the scan.
\<close>

definition catalog_row :: "map_env \<Rightarrow> map_store \<Rightarrow> string \<Rightarrow> string \<Rightarrow> catalog_entry result" where
  "catalog_row env st selected name =
     (case validate_bundle env Published st name of
        Inl (MapError reason) \<Rightarrow>
          Inr \<lparr> ce_name = name, ce_revision = [], ce_complete = False, ce_selected = (name = selected),
                ce_session_id = [], ce_reason = reason, ce_resolution = Fin 0, ce_width = 0, ce_height = 0 \<rparr>
      | Inl e \<Rightarrow> Inl e
      | Inr info \<Rightarrow>
          Inr \<lparr> ce_name = name, ce_revision = bi_revision info, ce_complete = True,
                ce_selected = (name = selected), ce_session_id = bi_session_id info, ce_reason = [],
                ce_resolution = bi_resolution info, ce_width = bi_width info, ce_height = bi_height info \<rparr>)"

definition catalog_names :: "map_store \<Rightarrow> string list" where
  "catalog_names st =
     filter (\<lambda>n. dirs_of Published st n \<noteq> None \<and> map_basename n) (sort (dict_keys (st_entries st)))"

definition scan_catalog :: "map_env \<Rightarrow> map_store \<Rightarrow> string \<Rightarrow> catalog_entry list result" where
  "scan_catalog env st selected =
     (if \<not> st_exists st then Inr [] else map_result (catalog_row env st selected) (catalog_names st))"

section \<open>The occupancy raster\<close>

record raster =
  ra_width :: int
  ra_height :: int
  ra_resolution :: pyfloat
  ra_origin_x :: pyfloat
  ra_origin_y :: pyfloat
  ra_origin_yaw :: pyfloat
  ra_data :: "int list"

definition OCCUPIED_THRESH :: pyfloat where "OCCUPIED_THRESH = dbl (65 / 100)"
definition FREE_THRESH :: pyfloat where "FREE_THRESH = dbl (196 / 1000)"

definition pgm_value :: "int \<Rightarrow> int \<Rightarrow> int \<Rightarrow> 8 word" where
  "pgm_value occ free value =
     (if value < 0 then 205 else if occ \<le> value then 0 else if 0 \<le> value \<and> value \<le> free then 254 else 205)"

definition data_at :: "int list \<Rightarrow> nat \<Rightarrow> int result" where
  "data_at xs i = (if i < length xs then Inr (xs ! i) else Inl IndexError)"

definition pgm_row :: "raster \<Rightarrow> int \<Rightarrow> int \<Rightarrow> nat \<Rightarrow> bytes result" where
  "pgm_row r occ free row =
     map_result (\<lambda>column. bind_result (data_at (ra_data r) (row * nat (ra_width r) + column)) (\<lambda>value.
       Inr (pgm_value occ free value))) [0..<nat (ra_width r)]"

definition pgm_header :: "int \<Rightarrow> int \<Rightarrow> bytes" where
  "pgm_header width height =
     ascii_bytes (''P5'' @ [CHR 0x0A] @ str_of_int width @ '' '' @ str_of_int height @ [CHR 0x0A] @ ''255'' @ [CHR 0x0A])"

definition to_pgm_bytes :: "raster \<Rightarrow> pyfloat \<Rightarrow> pyfloat \<Rightarrow> bytes result" where
  "to_pgm_bytes r occupied_thresh free_thresh =
     bind_result (int_of_float (fmul occupied_thresh (Fin 100))) (\<lambda>occ.
     bind_result (int_of_float (fmul free_thresh (Fin 100))) (\<lambda>free.
     bind_result (map_result (pgm_row r occ free) (rev [0..<nat (ra_height r)])) (\<lambda>rows.
     Inr (pgm_header (ra_width r) (ra_height r) @ concat rows))))"

text \<open>The format \<open>:.6f\<close>: the exact value rounded half to even at six decimals.\<close>

definition fixed6 :: "pyfloat \<Rightarrow> string" where
  "fixed6 x =
     (case x of
        Fin q \<Rightarrow>
          (let n = nat (round_half_even (\<bar>q\<bar> * 1000000)); frac = digits (n mod 1000000) in
           (if q < 0 then ''-'' else []) @ digits (n div 1000000) @ ''.''
             @ replicate (6 - length frac) CHR ''0'' @ frac)
      | PInf \<Rightarrow> ''inf'' | NInf \<Rightarrow> ''-inf'' | NaN \<Rightarrow> ''nan'')"

definition to_yaml_text :: "raster \<Rightarrow> string \<Rightarrow> string" where
  "to_yaml_text r image_name =
     (let nl = [CHR 0x0A] in
      ''image: '' @ image_name @ nl @ ''mode: trinary'' @ nl
      @ ''resolution: '' @ fixed6 (ra_resolution r) @ nl
      @ ''origin: ['' @ fixed6 (ra_origin_x r) @ '', '' @ fixed6 (ra_origin_y r) @ '', ''
      @ fixed6 (ra_origin_yaw r) @ '']'' @ nl
      @ ''negate: 0'' @ nl @ ''occupied_thresh: 0.65'' @ nl @ ''free_thresh: 0.196'' @ nl)"

section \<open>Manifests and the save transaction\<close>

datatype save_state = SAVE_IDLE | SAVE_RUNNING | SAVE_SUCCEEDED | SAVE_FAILED

record save_outcome =
  so_state :: save_state
  so_detail :: string
  so_name :: string
  so_revision :: string
  so_session_id :: string

definition artifacts_of :: "map_env \<Rightarrow> dir \<Rightarrow> (string \<times> string) list" where
  "artifacts_of env d =
     List.map_filter (\<lambda>f. map_option (\<lambda>content. (f, me_sha256 env content)) (dict_get d f)) CANONICAL_FILENAMES"

definition build_manifest :: "map_env \<Rightarrow> string \<Rightarrow> string \<Rightarrow> dir \<Rightarrow> pyval \<Rightarrow> pyfloat \<Rightarrow> (pyval \<times> pyval) list" where
  "build_manifest env session_id map_id d created created_at =
     (let artifacts = artifacts_of env d;
          joined = concat (map snd artifacts);
          revision = take 12 (me_sha256 env (ascii_bytes joined))
      in [(PStr ''version'', PInt 1), (PStr ''name'', PStr map_id), (PStr ''session_id'', PStr session_id),
          (PStr ''created'', created), (PStr ''created_iso'', PStr (me_iso_time env created_at)),
          (PStr ''revision'', PStr revision),
          (PStr ''artifacts'', PDict (map (\<lambda>(f, h). (PStr f, PStr h)) artifacts))])"

text \<open>\<open>json.dumps(..., sort_keys=True)\<close> writes every dictionary in the order of its keys.\<close>

fun key_text :: "pyval \<Rightarrow> string" where
  "key_text (PStr s) = s"
| "key_text _ = []"

fun sort_keys :: "pyval \<Rightarrow> pyval" where
  "sort_keys (PList xs) = PList (map sort_keys xs)"
| "sort_keys (PDict d) = PDict (sort_key (\<lambda>p. key_text (fst p)) (map (\<lambda>(k, v). (k, sort_keys v)) d))"
| "sort_keys v = v"

definition manifest_bytes :: "map_env \<Rightarrow> (pyval \<times> pyval) list \<Rightarrow> bytes" where
  "manifest_bytes env m = me_write_json env (sort_keys (PDict m))"

definition manifest_revision :: "(pyval \<times> pyval) list \<Rightarrow> string" where
  "manifest_revision m = (case get_key m ''revision'' of Some (PStr s) \<Rightarrow> s | _ \<Rightarrow> [])"

record txn =
  tx_name :: string
  tx_session_id :: string
  tx_created :: pyfloat

definition new_txn :: "string \<Rightarrow> string \<Rightarrow> pyfloat \<Rightarrow> txn result" where
  "new_txn map_id session_id now =
     bind_result (safe_basename map_id) (\<lambda>name.
       Inr \<lparr> tx_name = name, tx_session_id = session_id, tx_created = now \<rparr>)"

definition staged :: "map_store \<Rightarrow> txn \<Rightarrow> dir" where
  "staged st t = (case dirs_of Staging st (tx_name t) of None \<Rightarrow> [] | Some d \<Rightarrow> d)"

definition stage_file :: "map_store \<Rightarrow> txn \<Rightarrow> string \<Rightarrow> bytes \<Rightarrow> map_store" where
  "stage_file st t f content =
     st\<lparr>st_staging := dict_set (st_staging st) (tx_name t) (dict_set (staged st t) f content)\<rparr>"

definition prepare :: "map_store \<Rightarrow> txn \<Rightarrow> map_store result" where
  "prepare st t =
     (if dict_get (st_entries st) (tx_name t) \<noteq> None
      then Inl (MapError ''a bundle with this name already exists'')
      else Inr (st\<lparr>st_exists := True, st_staging := dict_set (st_staging st) (tx_name t) []\<rparr>))"

definition check_serialized :: "map_store \<Rightarrow> txn \<Rightarrow> unit result" where
  "check_serialized st t =
     (if nonempty_file (staged st t) POSEGRAPH_POSEGRAPH_NAME \<and> nonempty_file (staged st t) POSEGRAPH_DATA_NAME
      then Inr () else Inl (MapError ''SerializePoseGraph did not create a non-empty file''))"

definition write_raster :: "map_store \<Rightarrow> txn \<Rightarrow> raster \<Rightarrow> map_store result" where
  "write_raster st t r =
     (if ra_width r \<le> 0 \<or> ra_height r \<le> 0 then Inl (MapError ''captured /map grid is empty'')
      else if int (length (ra_data r)) \<noteq> ra_width r * ra_height r
      then Inl (MapError ''captured /map grid is inconsistent'')
      else bind_result (to_pgm_bytes r OCCUPIED_THRESH FREE_THRESH) (\<lambda>pgm.
        Inr (stage_file (stage_file st t OCCUPANCY_NAME pgm) t MAP_YAML_NAME
               (ascii_bytes (to_yaml_text r OCCUPANCY_NAME)))))"

definition validate_txn :: "map_env \<Rightarrow> map_store \<Rightarrow> txn \<Rightarrow> bundle_info result" where
  "validate_txn env st t =
     bind_result (validate_bundle env Staging st (tx_name t)) (\<lambda>info.
       if bi_width info \<le> 1 \<or> bi_height info \<le> 1 then Inl (MapError ''staged raster is degenerate'')
       else Inr info)"

text \<open>
  \<open>publish\<close>: the manifest is written into the staged directory, which then
  replaces the final path; \<open>os.replace\<close> refuses a file or a non-empty directory.
\<close>

definition publish :: "map_env \<Rightarrow> map_store \<Rightarrow> txn \<Rightarrow> map_store \<times> save_outcome result" where
  "publish env st t =
     (let manifest = build_manifest env (tx_session_id t) (tx_name t) (staged st t) (PFloat (tx_created t)) (tx_created t);
          st1 = stage_file st t MANIFEST_NAME (manifest_bytes env manifest)
      in case dict_get (st_entries st1) (tx_name t) of
           Some RFile \<Rightarrow> (st1, Inl (OSError ''not a directory''))
         | Some (RDir (f # fs)) \<Rightarrow> (st1, Inl (OSError ''directory not empty''))
         | _ \<Rightarrow>
             (st1\<lparr>st_entries := dict_set (st_entries st1) (tx_name t) (RDir (staged st1 t)),
                  st_staging := dict_del (st_staging st1) (tx_name t)\<rparr>,
              Inr \<lparr> so_state = SAVE_SUCCEEDED, so_detail = ''bundle published to catalog'',
                    so_name = tx_name t, so_revision = manifest_revision manifest,
                    so_session_id = tx_session_id t \<rparr>))"

section \<open>Reading back a raster header\<close>

definition digit_byte :: "nat \<Rightarrow> 8 word" where
  "digit_byte k = word_of_int (48 + int k)"

lemma digit_byte:
  assumes "k < 10"
  shows "is_digit_byte (digit_byte k)" "uint (digit_byte k) = 48 + int k"
    "\<not> is_space_byte (digit_byte k)" "digit_byte k \<noteq> 35" "digit_byte k \<noteq> 43" "digit_byte k \<noteq> 45"
proof -
  have u: "uint (digit_byte k) = 48 + int k" 
    unfolding digit_byte_def uint_word_of_int using assms by simp
  then show "uint (digit_byte k) = 48 + int k" .
  show "is_digit_byte (digit_byte k)" using u assms by (simp add: is_digit_byte_def word_le_def)
  show "digit_byte k \<noteq> 35" "digit_byte k \<noteq> 43" "digit_byte k \<noteq> 45" using u by auto
  show "\<not> is_space_byte (digit_byte k)" using u assms by (auto simp: is_space_byte_def word_le_def)
qed

lemma ascii_digit: "k < 10 \<Longrightarrow> ascii_bytes [char_of (48 + k)] = [digit_byte k]"
  by (simp add: ascii_bytes_def digit_byte_def of_char_of)

lemma ascii_append: "ascii_bytes (s @ t) = ascii_bytes s @ ascii_bytes t"
  by (simp add: ascii_bytes_def)

lemma digits_snoc:
  "n < 10 \<Longrightarrow> ascii_bytes (digits n) = [digit_byte n]"
  "10 \<le> n \<Longrightarrow> ascii_bytes (digits n) = ascii_bytes (digits (n div 10)) @ [digit_byte (n mod 10)]"
  by (simp_all add: digits.simps [of n] ascii_append ascii_digit)

lemma digits_bytes: "b \<in> set (ascii_bytes (digits n)) \<Longrightarrow> \<exists>k < 10. b = digit_byte k"
proof (induction n rule: digits.induct)
  case (1 n)
  show ?case
  proof (cases "n < 10")
    case True
    then show ?thesis using 1(2) by (auto simp: digits_snoc)
  next
    case False
    then have "b \<in> set (ascii_bytes (digits (n div 10))) \<or> b = digit_byte (n mod 10)"
      using 1(2) by (auto simp: digits_snoc)
    then show ?thesis using 1(1) [OF False] by (auto intro: exI [of _ "n mod 10"])
  qed
qed

lemma digits_nonempty: "ascii_bytes (digits n) \<noteq> []"
  by (cases "n < 10") (simp_all add: digits_snoc)

lemma digits_length: "0 < k \<Longrightarrow> n < 10 ^ k \<Longrightarrow> length (digits n) \<le> k"
proof (induction n arbitrary: k rule: digits.induct)
  case (1 n)
  show ?case
  proof (cases "n < 10")
    case True
    then show ?thesis using 1 by (simp add: digits.simps [of n])
  next
    case False
    then obtain j where j: "k = Suc j" "0 < j" using 1(2,3)
      by (cases k) (auto simp: not_less, metis One_nat_def gr0I le_less_trans power_0 power_one_right power_Suc less_irrefl mult.right_neutral not_le)
    then have "length (digits (n div 10)) \<le> j" using 1 False by (intro "1.IH") auto
    then show ?thesis using False j by (simp add: digits.simps [of n])
  qed
qed

lemma int_digits_digits:
  "int_digits a v (ascii_bytes (digits n) @ bs) = int_digits True (v * 10 ^ length (digits n) + int n) bs"
proof (induction n arbitrary: a v bs rule: digits.induct)
  case (1 n)
  show ?case
  proof (cases "n < 10")
    case True
    then have "length (digits n) = 1" by (simp add: digits.simps [of n])
    then show ?thesis using True digit_byte(1,2) [OF True] by (simp add: digits_snoc algebra_simps)
  next
    case False
    have "int_digits a v (ascii_bytes (digits n) @ bs)
        = int_digits True (10 * (v * 10 ^ length (digits (n div 10)) + int (n div 10)) + int (n mod 10)) bs"
      using False 1 [OF False, of a v "digit_byte (n mod 10) # bs"] digit_byte [of "n mod 10"]
      by (simp add: digits_snoc)
    also have "10 * (v * 10 ^ length (digits (n div 10)) + int (n div 10)) + int (n mod 10)
        = v * 10 ^ length (digits n) + int n"
      using False by (simp add: digits.simps [of n] algebra_simps zdiv_int zmod_int)
    finally show ?thesis .
  qed
qed

lemma int_token_digits: "int_token (ascii_bytes (digits n)) = Some (int n)"
proof -
  obtain b bs where e: "ascii_bytes (digits n) = b # bs" using digits_nonempty [of n] by (cases "ascii_bytes (digits n)") auto
  then obtain k where "k < 10" "b = digit_byte k" using digits_bytes [of b n] by auto
  then have "b \<noteq> 43" "b \<noteq> 45" using digit_byte(5,6) [of k] by auto
  moreover have "int_digits False 0 (b # bs) = Some (int n)" using int_digits_digits [of False 0 n "[]"] e by simp
  ultimately show ?thesis by (simp add: int_token_def e)
qed

lemma pgm_token_step:
  assumes "list_all is_space_byte ws" "t \<noteq> []" "\<forall>b \<in> set t. \<not> is_space_byte b" "hd t \<noteq> 35" "is_space_byte b"
  shows "pgm_tokens (Suc n) (ws @ t @ b # rest) = t # pgm_tokens n (b # rest)"
proof -
  have d: "dropWhile is_space_byte (ws @ t @ b # rest) = t @ b # rest"
    using assms(1-3) by (cases t) (auto simp: dropWhile_append2 list_all_iff)
  moreover have "takeWhile (\<lambda>b. \<not> is_space_byte b) (t @ b # rest) = t"
    "dropWhile (\<lambda>b. \<not> is_space_byte b) (t @ b # rest) = b # rest"
    using assms(3,5) by (simp_all add: takeWhile_append2 dropWhile_append2)
  ultimately show ?thesis using assms(2,4) by (subst pgm_tokens.simps) (auto simp: Let_def)
qed

lemma digits_token: "\<forall>b \<in> set (ascii_bytes (digits n)). \<not> is_space_byte b" "hd (ascii_bytes (digits n)) \<noteq> 35"
proof -
  show "\<forall>b \<in> set (ascii_bytes (digits n)). \<not> is_space_byte b"
    using digit_byte(3) by (auto dest!: digits_bytes)
  show "hd (ascii_bytes (digits n)) \<noteq> 35"
    using digits_bytes [OF hd_in_set [OF digits_nonempty], of n] digit_byte(4) by auto
qed

lemma read_written_header:
  assumes "0 \<le> w" "w < 10 ^ 10" "0 \<le> h" "h < 10 ^ 10"
  shows "read_pgm_header (pgm_header w h @ rows) = Inr (w, h, 255)"
proof -
  let ?W = "ascii_bytes (digits (nat w))" and ?H = "ascii_bytes (digits (nat h))"
  let ?M = "ascii_bytes (digits 255)"
  have m: "?M = ascii_bytes ''255''" by (simp add: digits.simps ascii_bytes_def of_char_of)
  have hd: "pgm_header w h = [80, 53] @ [10] @ ?W @ 32 # ?H @ 10 # ?M @ [10]"
    using assms by (simp add: pgm_header_def str_of_int_def ascii_append m) (simp add: ascii_bytes_def)
  have "length (digits (nat w)) \<le> 10" "length (digits (nat h)) \<le> 10"
    using assms by (auto intro!: digits_length simp: nat_less_iff)
  then have "length ?W \<le> 10" "length ?H \<le> 10" "length ?M = 3" by (simp_all add: ascii_bytes_def digits.simps)
  then have "length (pgm_header w h) \<le> 64" unfolding hd by simp
  then have t: "take 64 (pgm_header w h @ rows) = pgm_header w h @ take (64 - length (pgm_header w h)) rows" by simp
  have sp: "is_space_byte 32" "is_space_byte 10" by (simp_all add: is_space_byte_def)
  have "pgm_tokens 3 ([10] @ ?W @ 32 # ?H @ 10 # ?M @ 10 # rest) = [?W, ?H, ?M]" for rest
    using pgm_token_step [of "[10]" ?W 32 2 "?H @ 10 # ?M @ 10 # rest"]
      pgm_token_step [of "[32]" ?H 10 1 "?M @ 10 # rest"] pgm_token_step [of "[10]" ?M 10 0 rest]
      digits_nonempty digits_token sp
    by (simp add: numeral_eq_Suc pgm_tokens.simps [of 0])
  then show ?thesis
    unfolding read_pgm_header_def t by (simp add: hd int_token_digits assms Let_def)
qed

section \<open>Published bundles\<close>

lemma get_key_sorted:
  assumes "distinct (map fst d)"
  shows "map_of (sort_key f d) k = map_of d k"
proof -
  have "set (sort_key f d) = set d" "distinct (map fst (sort_key f d))"
    using assms by (simp_all add: distinct_map)
  then show ?thesis using assms by (metis map_of_eq_None_iff map_of_is_SomeI map_of_SomeD not_None_eq set_map)
qed

lemma sort_keys_get:
  assumes "distinct (map fst d)" "sort_keys (PDict d) = PDict d'"
  shows "get_key d' k = map_option sort_keys (get_key d k)"
proof -
  let ?d = "map (\<lambda>(k, v). (k, sort_keys v)) d"
  have "map fst ?d = map fst d" by (simp add: case_prod_unfold o_def)
  then have "distinct (map fst ?d)" using assms(1) by presburger
  moreover have "d' = sort_key (\<lambda>p. key_text (fst p)) ?d" using assms(2) by simp
  ultimately have "map_of d' (PStr k) = map_of ?d (PStr k)" by (metis get_key_sorted)
  also have "\<dots> = map_option sort_keys (map_of d (PStr k))" by (simp add: map_of_map)
  finally show ?thesis by (simp add: get_key_def)
qed

lemma manifest_fields:
  assumes "sort_keys (PDict (build_manifest env s m d c t)) = PDict doc"
  shows "get_key doc ''revision'' = Some (PStr (manifest_revision (build_manifest env s m d c t)))"
    "get_key doc ''session_id'' = Some (PStr s)"
    "\<exists>arts. get_key doc ''artifacts'' = Some (PDict arts)
       \<and> set arts = (\<lambda>(f, h). (PStr f, PStr h)) ` set (artifacts_of env d)"
proof -
  let ?m = "build_manifest env s m d c t"
  have dist: "distinct (map fst ?m)" by (simp add: build_manifest_def Let_def)
  have g: "get_key ?m ''session_id'' = Some (PStr s)"
    "get_key ?m ''revision'' = Some (PStr (manifest_revision ?m))"
    "get_key ?m ''artifacts'' = Some (PDict (map (\<lambda>(f, h). (PStr f, PStr h)) (artifacts_of env d)))"
    by (simp_all add: build_manifest_def manifest_revision_def get_key_def Let_def)
  show "get_key doc ''revision'' = Some (PStr (manifest_revision ?m))" "get_key doc ''session_id'' = Some (PStr s)"
    using sort_keys_get [OF dist assms] g by simp_all
  show "\<exists>arts. get_key doc ''artifacts'' = Some (PDict arts)
       \<and> set arts = (\<lambda>(f, h). (PStr f, PStr h)) ` set (artifacts_of env d)"
    using sort_keys_get [OF dist assms] g by (auto simp: image_image split_beta o_def)
qed

lemma check_artifacts_ok:
  assumes "\<And>k h. (k, h) \<in> set arts \<Longrightarrow> \<exists>f. k = PStr f \<and> artifact_name_ok f
      \<and> (f \<in> set CORE_FILENAMES \<longrightarrow> (\<exists>c. dict_get d f = Some c \<and> h = PStr (me_sha256 env c)))"
  shows "check_artifacts env d arts = Inr ()"
  using assms
proof (induction arts)
  case (Cons a arts)
  obtain k h where a: "a = (k, h)" by (cases a)
  have "check_artifacts env d arts = Inr ()" using Cons.prems by (intro Cons.IH) simp
  moreover obtain f where "k = PStr f" "artifact_name_ok f"
    "f \<in> set CORE_FILENAMES \<longrightarrow> (\<exists>c. dict_get d f = Some c \<and> h = PStr (me_sha256 env c))"
    using Cons.prems [of k h] a by auto
  ultimately show ?case using a by auto
qed simp

lemma canonical_names_ok: "f \<in> set CANONICAL_FILENAMES \<Longrightarrow> artifact_name_ok f"
  by (auto simp: file_names artifact_name_ok_def path_name_def)

lemma artifacts_of_iff:
  "(f, h) \<in> set (artifacts_of env d) \<longleftrightarrow>
     f \<in> set CANONICAL_FILENAMES \<and> (\<exists>c. dict_get d f = Some c \<and> h = me_sha256 env c)"
  by (auto simp: artifacts_of_def List.map_filter_def image_iff)

text \<open>
  A manifest built from a directory verifies against every directory that has
  the same core files.
\<close>

lemma built_manifest_checks:
  assumes "sort_keys (PDict (build_manifest env s m d c t)) = PDict doc"
    "\<And>f. f \<in> set CORE_FILENAMES \<Longrightarrow> dict_get d' f = dict_get d f"
  shows "check_manifest env d' doc = Inr ()"
proof -
  obtain arts where a: "get_key doc ''artifacts'' = Some (PDict arts)"
    "set arts = (\<lambda>(f, h). (PStr f, PStr h)) ` set (artifacts_of env d)"
    using manifest_fields(3) [OF assms(1)] by blast
  have "check_artifacts env d' arts = Inr ()"
    using a(2) assms(2) by (intro check_artifacts_ok) (auto simp: artifacts_of_iff canonical_names_ok)
  then show ?thesis by (simp add: check_manifest_def a(1))
qed

lemma validate_dir_iff:
  "validate_dir env base m d = Inr info \<longleftrightarrow>
     nonempty_file d POSEGRAPH_POSEGRAPH_NAME \<and> nonempty_file d POSEGRAPH_DATA_NAME \<and> nonempty_file d MAP_YAML_NAME
     \<and> (\<exists>meta r maxval. parse_map_yaml env (the (dict_get d MAP_YAML_NAME)) = Inr meta
         \<and> image_file env base m d (mt_image meta) = Some r \<and> r \<noteq> []
         \<and> read_pgm_header r = Inr (bi_width info, bi_height info, maxval)
         \<and> 0 < bi_width info \<and> 0 < bi_height info \<and> 0 < maxval \<and> maxval \<le> 255
         \<and> (case read_manifest env d of None \<Rightarrow> Inr () | Some x \<Rightarrow> check_manifest env d x) = Inr ()
         \<and> bi_name info = m \<and> bi_revision info = manifest_text env (read_manifest env d) ''revision''
         \<and> bi_session_id info = manifest_text env (read_manifest env d) ''session_id''
         \<and> bi_resolution info = mt_resolution meta)"
  (is "?L \<longleftrightarrow> ?R")
proof
  assume ?L
  then show ?R
    by (auto simp: validate_dir_def bind_result_Inr_iff Let_def split: if_splits option.splits)
next
  assume ?R
  then show ?L
    by (clarsimp simp: validate_dir_def bind_result_Inr_iff Let_def simp del: split_paired_Ex)
qed

lemma nonempty_file_cong: "dict_get d f = dict_get d' f \<Longrightarrow> nonempty_file d f = nonempty_file d' f"
  by (simp add: nonempty_file_def)

lemma manifest_not_core: "MANIFEST_NAME \<notin> set CANONICAL_FILENAMES" "SEMANTICS_NAME \<notin> set CORE_FILENAMES"
  "set CORE_FILENAMES \<subseteq> set CANONICAL_FILENAMES"
  by (simp_all add: file_names)

lemma core_names: "POSEGRAPH_POSEGRAPH_NAME \<in> set CORE_FILENAMES" "POSEGRAPH_DATA_NAME \<in> set CORE_FILENAMES"
  "MAP_YAML_NAME \<in> set CORE_FILENAMES" "OCCUPANCY_NAME \<in> set CORE_FILENAMES"
  by (simp_all add: CORE_FILENAMES_def)

text \<open>
  Writing a manifest built from the directory itself keeps a bundle valid and
  gives it the manifest's revision and session, whatever optional files changed.
\<close>

lemma remanifest_valid:
  assumes "validate_dir env base m d = Inr info"
    and core: "\<And>f. f \<in> set CORE_FILENAMES \<Longrightarrow> dict_get d' f = dict_get d f"
    and yaml: "\<And>meta. parse_map_yaml env (the (dict_get d MAP_YAML_NAME)) = Inr meta \<Longrightarrow> mt_image meta = OCCUPANCY_NAME"
    and json: "me_read_json env (manifest_bytes env (build_manifest env s m d' c t))
        = Some (sort_keys (PDict (build_manifest env s m d' c t)))"
    and e: "d'' = dict_set d' MANIFEST_NAME (manifest_bytes env (build_manifest env s m d' c t))"
  shows "validate_dir env base' m d'' = Inr (info\<lparr>bi_revision := manifest_revision (build_manifest env s m d' c t),
      bi_session_id := s\<rparr>)"
proof -
  obtain doc where doc: "sort_keys (PDict (build_manifest env s m d' c t)) = PDict doc" by simp
  have get: "dict_get d'' f = (if f = MANIFEST_NAME then Some (manifest_bytes env (build_manifest env s m d' c t))
      else dict_get d' f)" for f
    by (simp add: e dict_get_set)
  have same: "dict_get d'' f = dict_get d f" if "f \<in> set CORE_FILENAMES" for f
    using that core manifest_not_core get by auto
  have man: "read_manifest env d'' = Some doc" using json doc get by (simp add: read_manifest_def)
  have chk: "check_manifest env d'' doc = Inr ()"
    using built_manifest_checks [OF doc, of d''] core same by simp
  have texts: "manifest_text env (Some doc) ''revision'' = manifest_revision (build_manifest env s m d' c t)"
    "manifest_text env (Some doc) ''session_id'' = s"
    using manifest_fields(1,2) [OF doc] by (simp_all add: manifest_text_def py_str_def)
  have img: "image_file env b n x OCCUPANCY_NAME = dict_get x OCCUPANCY_NAME" for b n x
    by (simp add: image_file_def OCCUPANCY_NAME_def)
  show ?thesis
    using assms(1) yaml chk same [OF core_names(1)] same [OF core_names(2)] same [OF core_names(3)] same [OF core_names(4)]
    unfolding validate_dir_iff man option.case texts
    by (auto simp: img nonempty_file_def)
qed

lemma staged_simps [simp]:
  "staged (stage_file st t f c) t = dict_set (staged st t) f c"
  "st_entries (stage_file st t f c) = st_entries st"
  "dirs_of Published (stage_file st t f c) = dirs_of Published st"
  by (simp_all add: stage_file_def staged_def dict_get_set fun_eq_iff)

lemma publish_result:
  assumes "publish env st t = (st', Inr outcome)"
  shows "dirs_of Published st' = (dirs_of Published st)(tx_name t \<mapsto>
      dict_set (staged st t) MANIFEST_NAME (manifest_bytes env (build_manifest env (tx_session_id t) (tx_name t) (staged st t)
        (PFloat (tx_created t)) (tx_created t))))"
    "so_state outcome = SAVE_SUCCEEDED" "so_name outcome = tx_name t" "so_session_id outcome = tx_session_id t"
    "so_revision outcome = manifest_revision (build_manifest env (tx_session_id t) (tx_name t) (staged st t)
        (PFloat (tx_created t)) (tx_created t))"
proof -
  have "dict_get (st_entries st) (tx_name t) \<in> {None, Some (RDir [])}"
    using assms by (auto simp: publish_def Let_def split: option.splits root_entry.splits list.splits)
  then have e: "publish env st t =
      (let m = build_manifest env (tx_session_id t) (tx_name t) (staged st t) (PFloat (tx_created t)) (tx_created t);
           st1 = stage_file st t MANIFEST_NAME (manifest_bytes env m)
       in (st1\<lparr>st_entries := dict_set (st_entries st1) (tx_name t) (RDir (staged st1 t)),
                st_staging := dict_del (st_staging st1) (tx_name t)\<rparr>,
           Inr \<lparr> so_state = SAVE_SUCCEEDED, so_detail = ''bundle published to catalog'',
                 so_name = tx_name t, so_revision = manifest_revision m, so_session_id = tx_session_id t \<rparr>))"
    by (auto simp: publish_def Let_def)
  note result = assms [unfolded e Let_def]
  show "dirs_of Published st' = (dirs_of Published st)(tx_name t \<mapsto>
      dict_set (staged st t) MANIFEST_NAME (manifest_bytes env (build_manifest env (tx_session_id t) (tx_name t) (staged st t)
        (PFloat (tx_created t)) (tx_created t))))"
    using result by (auto simp: dict_get_set fun_eq_iff)
  show "so_state outcome = SAVE_SUCCEEDED" "so_name outcome = tx_name t" "so_session_id outcome = tx_session_id t"
    "so_revision outcome = manifest_revision (build_manifest env (tx_session_id t) (tx_name t) (staged st t)
        (PFloat (tx_created t)) (tx_created t))"
    using result by auto
qed

lemma publish_failed: "publish env st t = (st', Inl e) \<Longrightarrow> st_entries st' = st_entries st"
  by (auto simp: publish_def Let_def split: option.splits root_entry.splits list.splits)

section \<open>An example map\<close>

definition demo_base :: map_env where
  "demo_base = \<lparr> me_read_yaml = (\<lambda>_. Doc (PDict [(PStr ''image'', PStr ''occupancy.pgm''),
       (PStr ''resolution'', PFloat (Fin (1 / 16))), (PStr ''origin'', PList [PInt 0, PInt 0, PInt 0])])),
     me_read_json = (\<lambda>_. None), me_write_json = (\<lambda>_. [1]), me_sha256 = (\<lambda>_. ''abc''),
     me_str = (\<lambda>_. []), me_iso_time = (\<lambda>_. []), me_outside = (\<lambda>_ _ _. None) \<rparr>"

lemma safe_basename_kitchen: "safe_basename ''kitchen'' = Inr ''kitchen''"
  by (simp add: safe_basename_def MAX_BASENAME_LEN_def path_name_def alnum_def char_in_def)

definition demo_pub_store :: map_store where
  "demo_pub_store = \<lparr> st_exists = True,
     st_entries = [(''kitchen'', RDir [(''posegraph.posegraph'', [1]), (''posegraph.data'', [1]),
       (''occupancy.pgm'', pgm_header 2 2), (''map.yaml'', [1])])],
     st_staging = [] \<rparr>"

lemma demo_pub_valid:
  "validate_bundle (demo_base\<lparr>me_read_json := f\<rparr>) Published demo_pub_store ''kitchen'' = Inr \<lparr> bi_name = ''kitchen'',
     bi_revision = [], bi_session_id = [], bi_resolution = Fin (1 / 16), bi_width = 2, bi_height = 2 \<rparr>"
proof -
  have "pgm_header 2 2 \<noteq> []" by (simp add: pgm_header_def ascii_bytes_def)
  then show ?thesis
    using read_written_header [of 2 2 "[]"]
    by (simp add: validate_bundle_def validate_dir_def safe_basename_kitchen demo_pub_store_def dict_get_def nonempty_file_def
        file_names parse_map_yaml_def parse_map_document_def demo_base_def get_key_def image_file_def
        float_of_int_def read_manifest_def manifest_text_def)
qed

end
