(* ===== verification/MapSession.thy ===== *)
theory MapSession
  imports MapStore
begin

text \<open>
  Mapping sessions and the map executor: \<open>MappingSession\<close> and \<open>MapSessionModel\<close>
  of \<open>runner_paddock/map_session.py\<close>, and the handlers of \<open>MapSessionNode\<close>
  (\<open>runner_paddock/map_session_node.py\<close>) that drive them and the catalogue. A
  save runs in its own callback group while observations go on, so it is a
  sequence of steps that other inputs may come between: the request, the
  answer of the serialisation service, polls for a grid, and the recording of
  the outcome. Requests are mutually exclusive with a running save.
\<close>

section \<open>The session model\<close>

datatype session_phase = PH_NONE | PH_STARTING | PH_READY | PH_SAVING | PH_SAVED | PH_FAILED
datatype delete_state = DELETE_IDLE | DELETE_SUCCEEDED | DELETE_FAILED

record mapping_session =
  sx_session_id :: string
  sx_runtime_epoch :: int
  sx_created :: pyfloat
  sx_phase :: session_phase
  sx_unsaved :: bool
  sx_saved_name :: string
  sx_saved_revision :: string
  sx_evidence_at :: "pyfloat option"

definition no_session :: mapping_session where
  "no_session = \<lparr> sx_session_id = [], sx_runtime_epoch = 0, sx_created = Fin 0, sx_phase = PH_NONE,
     sx_unsaved = False, sx_saved_name = [], sx_saved_revision = [], sx_evidence_at = None \<rparr>"

definition session_active :: "mapping_session \<Rightarrow> bool" where
  "session_active s = (truthy (sx_session_id s) \<and> sx_phase s \<noteq> PH_NONE)"

definition EVIDENCE_TIMEOUT :: pyfloat where "EVIDENCE_TIMEOUT = Fin 8"

definition session_ready :: "mapping_session \<Rightarrow> pyfloat \<Rightarrow> bool" where
  "session_ready s now =
     (session_active s \<and> sx_phase s \<in> {PH_READY, PH_SAVED}
      \<and> (case sx_evidence_at s of None \<Rightarrow> False | Some e \<Rightarrow> fle (fsub now e) EVIDENCE_TIMEOUT))"

type_synonym dir_rows = "(string \<times> int \<times> int) list"

record map_model =
  md_session :: mapping_session
  md_save_state :: save_state
  md_save_request_id :: int
  md_save_detail :: string
  md_selected_requested :: string
  md_selected_applied :: string
  md_selected_reason :: string
  md_delete_state :: delete_state
  md_delete_request_id :: int
  md_delete_name :: string
  md_delete_detail :: string
  md_save_results :: "(int, save_outcome) pydict"
  md_catalog_key :: "(string \<times> dir_rows) option"
  md_catalog_entries :: "catalog_entry list"

definition new_model :: map_model where
  "new_model = \<lparr> md_session = no_session, md_save_state = SAVE_IDLE, md_save_request_id = 0, md_save_detail = [],
     md_selected_requested = [], md_selected_applied = [], md_selected_reason = [], md_delete_state = DELETE_IDLE,
     md_delete_request_id = 0, md_delete_name = [], md_delete_detail = [], md_save_results = [],
     md_catalog_key = None, md_catalog_entries = [] \<rparr>"

definition observe_session :: "map_model \<Rightarrow> bool \<Rightarrow> string \<Rightarrow> int \<Rightarrow> pyfloat \<Rightarrow> map_model" where
  "observe_session m mapping_active session_id runtime_epoch now =
     (if \<not> mapping_active \<or> \<not> truthy session_id
      then (if session_active (md_session m) then m\<lparr>md_session := no_session\<rparr> else m)
      else if session_id \<noteq> sx_session_id (md_session m)
      then (let m1 = m\<lparr>md_session := no_session\<lparr>sx_session_id := session_id, sx_runtime_epoch := runtime_epoch,
                  sx_created := now, sx_phase := PH_STARTING, sx_unsaved := True\<rparr>\<rparr>
            in if md_save_state m1 = SAVE_RUNNING
               then m1\<lparr>md_save_state := SAVE_FAILED, md_save_detail := ''session changed during save''\<rparr>
               else m1)
      else m)"

definition observe_map_evidence :: "map_model \<Rightarrow> bool \<Rightarrow> pyfloat \<Rightarrow> map_model" where
  "observe_map_evidence m produced_after now =
     (if \<not> session_active (md_session m) \<or> \<not> produced_after then m
      else (let s = (md_session m)\<lparr>sx_evidence_at := Some now\<rparr>
            in m\<lparr>md_session := (if sx_phase s = PH_STARTING then s\<lparr>sx_phase := PH_READY\<rparr> else s)\<rparr>))"

definition refresh_session :: "map_model \<Rightarrow> pyfloat \<Rightarrow> map_model" where
  "refresh_session m now =
     (if session_active (md_session m) \<and> sx_phase (md_session m) \<in> {PH_READY, PH_SAVED}
         \<and> \<not> session_ready (md_session m) now
      then m\<lparr>md_session := (md_session m)\<lparr>sx_phase := PH_STARTING\<rparr>\<rparr> else m)"

definition cached_save :: "map_model \<Rightarrow> int \<Rightarrow> save_outcome option" where
  "cached_save m request_id = dict_get (md_save_results m) request_id"

definition record_save :: "map_model \<Rightarrow> int \<Rightarrow> save_outcome \<Rightarrow> map_model" where
  "record_save m request_id outcome =
     (let m1 = m\<lparr>md_save_results := dict_set (md_save_results m) request_id outcome,
                 md_save_request_id := request_id, md_save_state := so_state outcome,
                 md_save_detail := so_detail outcome\<rparr>;
          s = md_session m1
      in if so_state outcome = SAVE_SUCCEEDED
         then m1\<lparr>md_session := s\<lparr>sx_unsaved := False, sx_saved_name := so_name outcome,
                    sx_saved_revision := so_revision outcome, sx_phase := PH_SAVED\<rparr>\<rparr>
         else if so_state outcome = SAVE_FAILED \<and> session_active s \<and> sx_phase s = PH_SAVING
         then m1\<lparr>md_session := s\<lparr>sx_phase := PH_READY\<rparr>\<rparr>
         else m1)"

definition begin_save :: "map_model \<Rightarrow> int \<Rightarrow> map_model" where
  "begin_save m request_id =
     (let m1 = m\<lparr>md_save_request_id := request_id, md_save_state := SAVE_RUNNING,
                 md_save_detail := ''serializing SLAM posegraph''\<rparr>
      in if session_active (md_session m1)
         then m1\<lparr>md_session := (md_session m1)\<lparr>sx_phase := PH_SAVING\<rparr>\<rparr> else m1)"

definition set_selection :: "map_model \<Rightarrow> string \<Rightarrow> string \<Rightarrow> string \<Rightarrow> map_model" where
  "set_selection m requested applied reason =
     m\<lparr>md_selected_requested := requested, md_selected_applied := applied, md_selected_reason := reason\<rparr>"

definition record_delete :: "map_model \<Rightarrow> int \<Rightarrow> string \<Rightarrow> delete_state \<Rightarrow> string \<Rightarrow> map_model" where
  "record_delete m request_id name state detail =
     m\<lparr>md_delete_request_id := request_id, md_delete_name := name, md_delete_state := state,
       md_delete_detail := detail\<rparr>"

text \<open>
  \<open>catalog\<close>: the scan is repeated when the selection or the listing of the map
  root (name, modification time, size of each entry) changed.
\<close>

definition catalog :: "map_env \<Rightarrow> map_store \<Rightarrow> dir_rows \<Rightarrow> map_model \<Rightarrow> map_model result" where
  "catalog env st rows m =
     (let key = (md_selected_applied m, sort_key fst rows) in
      if md_catalog_key m = Some key then Inr m
      else bind_result (scan_catalog env st (md_selected_applied m)) (\<lambda>entries.
        Inr (m\<lparr>md_catalog_entries := entries, md_catalog_key := Some key\<rparr>)))"

section \<open>The executor node\<close>

definition STOP_STATE_TIMEOUT_SEC :: pyfloat where "STOP_STATE_TIMEOUT_SEC = Fin 1"
definition SESSION_EVIDENCE_GRACE_SEC :: pyfloat where "SESSION_EVIDENCE_GRACE_SEC = Fin 2"
definition SAVE_RASTER_TIMEOUT_SEC :: pyfloat where "SAVE_RASTER_TIMEOUT_SEC = Fin 15"
definition MODE_MAPPING :: int where "MODE_MAPPING = 1"
definition MODE_AUTONOMY :: int where "MODE_AUTONOMY = 2"
definition STATUS_STABLE :: int where "STATUS_STABLE = 0"
definition STATUS_TRANSITIONING :: int where "STATUS_TRANSITIONING = 1"
definition STATUS_FAULT :: int where "STATUS_FAULT = 2"

datatype reset_state = RESET_IDLE | RESET_RUNNING | RESET_SUCCEEDED | RESET_FAILED

record mode_msg =
  mo_mode :: int
  mo_status :: int
  mo_accepted_request_id :: int
  mo_active_autonomy_map :: string
  mo_detail :: string
  mo_runtime_epoch :: int
  mo_mapping_session_id :: string
  mo_ready :: bool

record map_request =
  mq_request_id :: int
  mq_lease_id :: string
  mq_operation :: int
  mq_name :: string
  mq_session_id :: string

text \<open>An occupancy grid message; \<open>og_yaw\<close> is \<open>2.0 * math.atan2(z, w)\<close> of its orientation.\<close>

record grid =
  og_width :: int
  og_height :: int
  og_resolution :: pyfloat
  og_x :: pyfloat
  og_y :: pyfloat
  og_yaw :: pyfloat
  og_data :: "int list"

text \<open>The stages of a running save.\<close>

datatype save_stage =
    Await_serialize txn int
  | Await_raster txn int pyfloat
  | Await_record int save_outcome
  | Await_unwind py_error

text \<open>The published state message without its stamp.\<close>

record map_state_msg =
  mp_session_id :: string
  mp_runtime_epoch :: int
  mp_mapping_active :: bool
  mp_session_phase :: session_phase
  mp_session_ready :: bool
  mp_unsaved :: bool
  mp_saved_name :: string
  mp_saved_revision :: string
  mp_save_state :: save_state
  mp_save_request_id :: int
  mp_save_detail :: string
  mp_selected_map_requested :: string
  mp_selected_map_applied :: string
  mp_selected_map_reason :: string
  mp_delete_state :: delete_state
  mp_delete_request_id :: int
  mp_delete_name :: string
  mp_delete_detail :: string
  mp_reset_state :: reset_state
  mp_reset_request_id :: int
  mp_reset_detail :: string
  mp_catalog :: "catalog_entry list"

datatype map_effect =
    MF_mode_request int string
  | MF_raise py_error
  | MF_serialize string
  | MF_publish map_state_msg

record map_node =
  mn_model :: map_model
  mn_lease_active :: bool
  mn_lease_id :: string
  mn_mode :: int
  mn_mode_status :: int
  mn_mode_ready :: bool
  mn_active_autonomy_map :: string
  mn_last_request_id :: int
  mn_new_map_request_seq :: int
  mn_mode_accepted_request_id :: int
  mn_reset_state :: reset_state
  mn_reset_request_id :: int
  mn_reset_detail :: string
  mn_pending_reset :: "(int \<times> int \<times> string) option"
  mn_stop_state :: "(bool \<times> bool) option"
  mn_stop_state_at :: "pyfloat option"
  mn_last_map :: "grid option"
  mn_last_map_at :: "pyfloat option"
  mn_last_state_key :: "map_state_msg option"
  mn_store :: map_store
  mn_selected_file :: "string option"
  mn_saving :: "save_stage option"
  mn_effects :: "map_effect list"

text \<open>
  What the environment decides during a callback: the clock, the listing of the
  map root, whether writing the selection or renaming a directory raises.
\<close>

record map_io =
  mi_now :: pyfloat
  mi_time :: pyfloat
  mi_time_ns :: int
  mi_rows :: dir_rows
  mi_store_raises :: bool
  mi_rename_raises :: bool

definition load_selection :: "map_env \<Rightarrow> map_store \<Rightarrow> string option \<Rightarrow> string result" where
  "load_selection env st selected_file =
     (case selected_file of
        None \<Rightarrow> Inr []
      | Some text \<Rightarrow>
          (let name = py_strip text in
           case bind_result (safe_basename name) (\<lambda>_. validate_bundle env Published st name) of
             Inr info \<Rightarrow> Inr name
           | Inl (MapError e) \<Rightarrow> Inr []
           | Inl e \<Rightarrow> Inl e))"

definition new_map_node :: "map_env \<Rightarrow> map_store \<Rightarrow> string option \<Rightarrow> map_node result" where
  "new_map_node env st selected_file =
     bind_result (load_selection env st selected_file) (\<lambda>applied.
       Inr \<lparr> mn_model = set_selection new_model applied applied [], mn_lease_active = False, mn_lease_id = [],
         mn_mode = 0, mn_mode_status = 0, mn_mode_ready = False, mn_active_autonomy_map = [],
         mn_last_request_id = 0, mn_new_map_request_seq = 0, mn_mode_accepted_request_id = 0,
         mn_reset_state = RESET_IDLE, mn_reset_request_id = 0, mn_reset_detail = [], mn_pending_reset = None,
         mn_stop_state = None, mn_stop_state_at = None, mn_last_map = None, mn_last_map_at = None,
         mn_last_state_key = None, mn_store = st, mn_selected_file = selected_file, mn_saving = None, mn_effects = [] \<rparr>)"

definition map_state_of :: "map_node \<Rightarrow> map_model \<Rightarrow> pyfloat \<Rightarrow> map_state_msg" where
  "map_state_of n m now =
     (let s = md_session m in
      \<lparr> mp_session_id = sx_session_id s, mp_runtime_epoch = sx_runtime_epoch s,
        mp_mapping_active = session_active s, mp_session_phase = sx_phase s,
        mp_session_ready = (session_ready s now \<and> mn_mode_ready n),
        mp_unsaved = (session_active s \<and> sx_unsaved s), mp_saved_name = sx_saved_name s,
        mp_saved_revision = sx_saved_revision s, mp_save_state = md_save_state m,
        mp_save_request_id = md_save_request_id m, mp_save_detail = md_save_detail m,
        mp_selected_map_requested = md_selected_requested m, mp_selected_map_applied = md_selected_applied m,
        mp_selected_map_reason = md_selected_reason m, mp_delete_state = md_delete_state m,
        mp_delete_request_id = md_delete_request_id m, mp_delete_name = md_delete_name m,
        mp_delete_detail = md_delete_detail m, mp_reset_state = mn_reset_state n,
        mp_reset_request_id = mn_reset_request_id n, mp_reset_detail = mn_reset_detail n,
        mp_catalog = md_catalog_entries m \<rparr>)"

text \<open>
  Every publication refreshes the catalogue; an exception of the scan leaves
  the callback.
\<close>

definition publish_map_state :: "map_env \<Rightarrow> map_io \<Rightarrow> map_node \<Rightarrow> bool \<Rightarrow> map_node" where
  "publish_map_state env io n force =
     (case catalog env (mn_store n) (mi_rows io) (mn_model n) of
        Inl e \<Rightarrow> n\<lparr>mn_effects := mn_effects n @ [MF_raise e]\<rparr>
      | Inr m \<Rightarrow>
          (let n1 = n\<lparr>mn_model := m\<rparr>; key = map_state_of n1 m (mi_now io)
           in if mn_last_state_key n = Some key \<and> \<not> force then n1
              else n1\<lparr>mn_last_state_key := Some key, mn_effects := mn_effects n1 @ [MF_publish key]\<rparr>))"

subsection \<open>Observations\<close>

definition on_lease :: "map_node \<Rightarrow> bool \<Rightarrow> string \<Rightarrow> map_node" where
  "on_lease n active lease_id = n\<lparr>mn_lease_active := active, mn_lease_id := (if active then lease_id else [])\<rparr>"

definition on_stop_state :: "map_node \<Rightarrow> bool \<Rightarrow> bool \<Rightarrow> pyfloat \<Rightarrow> map_node" where
  "on_stop_state n locked stopped now =
     n\<lparr>mn_stop_state := Some (locked, stopped), mn_stop_state_at := Some now\<rparr>"

definition or_text :: "string \<Rightarrow> string \<Rightarrow> string" where
  "or_text t u = (if truthy t then t else u)"

definition follow_reset :: "map_node \<Rightarrow> mode_msg \<Rightarrow> map_node" where
  "follow_reset n message =
     (case mn_pending_reset n of
        None \<Rightarrow> n
      | Some (mode_request_id, previous_epoch, previous_session) \<Rightarrow>
          if mo_accepted_request_id message < mode_request_id then n
          else if mo_status message = STATUS_TRANSITIONING
          then n\<lparr>mn_reset_detail := or_text (mo_detail message) ''Resetting mapping session''\<rparr>
          else if mo_status message = STATUS_FAULT
          then n\<lparr>mn_reset_state := RESET_FAILED,
                 mn_reset_detail := or_text (mo_detail message) ''Mapping reset failed'', mn_pending_reset := None\<rparr>
          else if mo_mode message = MODE_MAPPING \<and> previous_epoch < mo_runtime_epoch message
              \<and> truthy (mo_mapping_session_id message) \<and> mo_mapping_session_id message \<noteq> previous_session
              \<and> mo_ready message
          then n\<lparr>mn_reset_state := RESET_SUCCEEDED,
                 mn_reset_detail := ''Fresh mapping session ready: '' @ mo_mapping_session_id message,
                 mn_pending_reset := None\<rparr>
          else if take 17 (mo_detail message) = ''NEW MAP rejected:''
          then n\<lparr>mn_reset_state := RESET_FAILED, mn_reset_detail := mo_detail message, mn_pending_reset := None\<rparr>
          else n)"

definition on_map_mode_state :: "map_env \<Rightarrow> map_io \<Rightarrow> map_node \<Rightarrow> mode_msg \<Rightarrow> map_node" where
  "on_map_mode_state env io n message =
     (let n1 = n\<lparr>mn_mode := mo_mode message, mn_mode_status := mo_status message, mn_mode_ready := mo_ready message,
                 mn_mode_accepted_request_id := mo_accepted_request_id message,
                 mn_active_autonomy_map := mo_active_autonomy_map message\<rparr>;
          mapping_active = (mo_mode message = MODE_MAPPING \<and> mo_status message = STATUS_STABLE);
          n2 = n1\<lparr>mn_model := observe_session (mn_model n1) mapping_active (mo_mapping_session_id message)
                 (mo_runtime_epoch message) (mi_now io)\<rparr>
      in publish_map_state env io (follow_reset n2 message) False)"

definition on_map :: "map_env \<Rightarrow> map_io \<Rightarrow> map_node \<Rightarrow> grid \<Rightarrow> map_node" where
  "on_map env io n message =
     (let n1 = n\<lparr>mn_last_map := Some message, mn_last_map_at := Some (mi_now io)\<rparr>;
          s = md_session (mn_model n1);
          produced_after = (session_active s \<and> fle SESSION_EVIDENCE_GRACE_SEC (fsub (mi_now io) (sx_created s)))
      in publish_map_state env io
           (n1\<lparr>mn_model := observe_map_evidence (mn_model n1) produced_after (mi_now io)\<rparr>) False)"

definition on_map_timer :: "map_env \<Rightarrow> map_io \<Rightarrow> map_node \<Rightarrow> map_node" where
  "on_map_timer env io n =
     publish_map_state env io (n\<lparr>mn_model := refresh_session (mn_model n) (mi_now io)\<rparr>) True"

subsection \<open>Requests\<close>

definition stop_inhibited :: "map_node \<Rightarrow> pyfloat \<Rightarrow> bool" where
  "stop_inhibited n now =
     (case (mn_stop_state n, mn_stop_state_at n) of
        (Some (locked, stopped), Some received) \<Rightarrow>
          fle (fsub now received) STOP_STATE_TIMEOUT_SEC \<and> (locked \<or> stopped)
      | _ \<Rightarrow> False)"

definition map_authorized :: "map_node \<Rightarrow> map_request \<Rightarrow> bool" where
  "map_authorized n q = (mn_lease_active n \<and> truthy (mq_lease_id q) \<and> mq_lease_id q = mn_lease_id n)"

definition OP_NEW_MAP :: int where "OP_NEW_MAP = 0"
definition OP_SAVE_MAP :: int where "OP_SAVE_MAP = 1"
definition OP_SELECT_MAP :: int where "OP_SELECT_MAP = 2"
definition OP_DELETE_MAP :: int where "OP_DELETE_MAP = 3"

definition record_reset_rejection :: "map_node \<Rightarrow> int \<Rightarrow> string \<Rightarrow> map_node" where
  "record_reset_rejection n request_id reason =
     n\<lparr>mn_reset_state := RESET_FAILED, mn_reset_request_id := request_id, mn_reset_detail := reason,
       mn_pending_reset := None\<rparr>"

definition record_rejection :: "map_env \<Rightarrow> map_io \<Rightarrow> map_node \<Rightarrow> map_request \<Rightarrow> string \<Rightarrow> map_node" where
  "record_rejection env io n q reason =
     (let n1 = (if mq_operation q \<noteq> OP_SELECT_MAP then n
                else publish_map_state env io (n\<lparr>mn_model := set_selection (mn_model n) (mq_name q)
                       (md_selected_applied (mn_model n)) reason\<rparr>) False)
      in if mq_operation q \<noteq> OP_NEW_MAP then n1
         else publish_map_state env io
                (record_reset_rejection n1 (mq_request_id q) (''NEW MAP rejected: '' @ reason)) False)"

definition next_mode_request_id :: "map_node \<Rightarrow> int \<Rightarrow> int" where
  "next_mode_request_id n time_ns =
     max (max (mn_new_map_request_seq n + 1) (mn_mode_accepted_request_id n + 1)) time_ns"

definition handle_new_map :: "map_io \<Rightarrow> map_node \<Rightarrow> map_request \<Rightarrow> map_node" where
  "handle_new_map io n q =
     (if \<not> (mn_mode n = MODE_MAPPING \<and> mn_mode_status n = STATUS_STABLE \<and> session_active (md_session (mn_model n)))
      then record_reset_rejection n (mq_request_id q) ''NEW MAP rejected: requires an active stable MAPPING session''
      else (let mode_request_id = next_mode_request_id n (mi_time_ns io)
            in n\<lparr>mn_new_map_request_seq := mode_request_id, mn_reset_state := RESET_RUNNING,
                 mn_reset_request_id := mq_request_id q,
                 mn_reset_detail := ''Revoking motion and waiting for encoder stationary'',
                 mn_pending_reset := Some (mode_request_id, sx_runtime_epoch (md_session (mn_model n)),
                   sx_session_id (md_session (mn_model n))),
                 mn_effects := mn_effects n @ [MF_mode_request mode_request_id (mq_lease_id q)]\<rparr>))"

definition select_check :: "map_env \<Rightarrow> map_node \<Rightarrow> string \<Rightarrow> string result" where
  "select_check env n requested =
     bind_result (safe_basename requested) (\<lambda>name.
       if mn_mode_status n \<noteq> STATUS_STABLE then Inl (MapError ''runtime transition in progress'')
       else if mn_mode n = MODE_AUTONOMY \<and> name \<noteq> md_selected_applied (mn_model n)
       then Inl (MapError ''cannot hot-swap the map under a live runtime'')
       else bind_result (validate_bundle env Published (mn_store n) name) (\<lambda>_. Inr name))"

definition handle_select_map :: "map_env \<Rightarrow> map_io \<Rightarrow> map_node \<Rightarrow> map_request \<Rightarrow> map_node" where
  "handle_select_map env io n q =
     (let previous = md_selected_applied (mn_model n);
          reject = (\<lambda>reason. n\<lparr>mn_model := set_selection (mn_model n) (mq_name q) previous reason\<rparr>)
      in case select_check env n (mq_name q) of
           Inl (MapError reason) \<Rightarrow> reject reason
         | Inl e \<Rightarrow> n\<lparr>mn_effects := mn_effects n @ [MF_raise e]\<rparr>
         | Inr name \<Rightarrow>
             if mi_store_raises io then reject ''could not persist selected map''
             else n\<lparr>mn_selected_file := Some (name @ [CHR 0x0A]),
                    mn_model := set_selection (mn_model n) name name []\<rparr>)"

definition handle_delete_map :: "map_env \<Rightarrow> map_io \<Rightarrow> map_node \<Rightarrow> map_request \<Rightarrow> map_node" where
  "handle_delete_map env io n q =
     (let failed = (\<lambda>e. case e of
            MapError detail \<Rightarrow>
              n\<lparr>mn_model := record_delete (mn_model n) (mq_request_id q) (mq_name q) DELETE_FAILED detail\<rparr>
          | _ \<Rightarrow> n\<lparr>mn_effects := mn_effects n @ [MF_raise e]\<rparr>)
      in case bind_result (safe_basename (mq_name q)) (\<lambda>name.
                validate_delete_candidate env (mn_store n) name (md_selected_applied (mn_model n))
                  (mn_active_autonomy_map n)) of
           Inl e \<Rightarrow> failed e
         | Inr _ \<Rightarrow>
             (case delete_bundle env (mi_rename_raises io) (mn_store n) (mq_name q) of
                (st, Inl e) \<Rightarrow> failed e
              | (st, Inr info) \<Rightarrow>
                  n\<lparr>mn_store := st,
                    mn_model := record_delete (mn_model n) (mq_request_id q) (bi_name info) DELETE_SUCCEEDED
                      (''deleted saved bundle '' @ bi_name info)\<rparr>))"

subsection \<open>Saving\<close>

definition save_check :: "map_node \<Rightarrow> map_request \<Rightarrow> pyfloat \<Rightarrow> string result" where
  "save_check n q now =
     bind_result (safe_basename (mq_name q)) (\<lambda>name.
       let s = md_session (mn_model n) in
       if \<not> session_active s then Inl (MapError ''no active mapping session'')
       else if mq_session_id q \<noteq> sx_session_id s
       then Inl (MapError ''request session does not match current session'')
       else if sx_phase s \<in> {PH_STARTING, PH_NONE} then Inl (MapError ''current mapping session is not ready'')
       else if \<not> mn_mode_ready n then Inl (MapError ''mapping runtime is not ready'')
       else if \<not> stop_inhibited n now then Inl (MapError ''SAVE MAP requires STOP asserted/inhibited'')
       else if md_save_state (mn_model n) = SAVE_RUNNING then Inl (MapError ''a save is already in flight'')
       else Inr name)"

definition failed_save :: "string \<Rightarrow> save_outcome" where
  "failed_save detail = \<lparr> so_state = SAVE_FAILED, so_detail = detail, so_name = [], so_revision = [],
     so_session_id = [] \<rparr>"

text \<open>\<open>except MapError\<close>: the outcome is recorded; any other exception leaves the handler.\<close>

definition fail_save :: "map_node \<Rightarrow> int \<Rightarrow> py_error \<Rightarrow> map_node" where
  "fail_save n request_id e =
     (case e of
        MapError detail \<Rightarrow> n\<lparr>mn_saving := Some (Await_record request_id (failed_save detail))\<rparr>
      | _ \<Rightarrow> n\<lparr>mn_saving := Some (Await_unwind e)\<rparr>)"

definition handle_save_map :: "map_env \<Rightarrow> map_io \<Rightarrow> map_node \<Rightarrow> map_request \<Rightarrow> map_node" where
  "handle_save_map env io n q =
     (case cached_save (mn_model n) (mq_request_id q) of
        Some cached \<Rightarrow> n\<lparr>mn_model := record_save (mn_model n) (mq_request_id q) cached\<rparr>
      | None \<Rightarrow>
          (case save_check n q (mi_now io) of
             Inl (MapError reason) \<Rightarrow>
               n\<lparr>mn_model := record_save (mn_model n) (mq_request_id q) (failed_save reason)\<rparr>
           | Inl e \<Rightarrow> n\<lparr>mn_effects := mn_effects n @ [MF_raise e]\<rparr>
           | Inr name \<Rightarrow>
               (let n0 = n\<lparr>mn_model := begin_save (mn_model n) (mq_request_id q)\<rparr>;
                    n1 = publish_map_state env io n0 False
                in if \<not> is_ok (catalog env (mn_store n0) (mi_rows io) (mn_model n0)) then n1
                   else case new_txn name (sx_session_id (md_session (mn_model n))) (mi_time io) of
                     Inl e \<Rightarrow> n1\<lparr>mn_saving := Some (Await_unwind e)\<rparr>
                   | Inr t \<Rightarrow>
                       (case prepare (mn_store n1) t of
                          Inl e \<Rightarrow> fail_save n1 (mq_request_id q) e
                        | Inr st \<Rightarrow>
                            n1\<lparr>mn_store := st, mn_saving := Some (Await_serialize t (mq_request_id q)),
                               mn_effects := mn_effects n1 @ [MF_serialize name]\<rparr>))))"

text \<open>
  The answer of the serialisation service: unavailable, timed out or failed
  (\<open>Inl\<close> the reason), or the files it wrote into the staging directory. Without
  an answer in time files may have been written as well.
\<close>

definition on_serialized ::
  "map_io \<Rightarrow> map_node \<Rightarrow> (string \<times> bytes) list \<Rightarrow> string option \<Rightarrow> map_node" where
  "on_serialized io n files failure =
     (case mn_saving n of
        Some (Await_serialize t request_id) \<Rightarrow>
          (let n1 = n\<lparr>mn_store := foldl (\<lambda>st (f, content). stage_file st t f content) (mn_store n) files\<rparr>
           in case failure of
                Some reason \<Rightarrow> fail_save n1 request_id (MapError reason)
              | None \<Rightarrow>
                  (case check_serialized (mn_store n1) t of
                     Inl e \<Rightarrow> fail_save n1 request_id e
                   | Inr _ \<Rightarrow> n1\<lparr>mn_saving := Some (Await_raster t request_id (mi_now io))\<rparr>))
      | _ \<Rightarrow> n)"

definition to_raster :: "grid \<Rightarrow> raster option" where
  "to_raster g =
     (if \<not> isfinite (og_resolution g) \<or> fle (og_resolution g) (Fin 0) then None
      else Some \<lparr> ra_width = og_width g, ra_height = og_height g, ra_resolution = og_resolution g,
                  ra_origin_x = og_x g, ra_origin_y = og_y g, ra_origin_yaw = og_yaw g, ra_data = og_data g \<rparr>)"

text \<open>The rest of \<open>_run_save\<close> once a raster was captured, or none was.\<close>

definition finish_raster :: "map_env \<Rightarrow> map_node \<Rightarrow> txn \<Rightarrow> int \<Rightarrow> raster option \<Rightarrow> map_node" where
  "finish_raster env n t request_id captured =
     (case captured of
        None \<Rightarrow> fail_save n request_id (MapError ''no fresh same-session /map grid to raster'')
      | Some r \<Rightarrow>
          (case write_raster (mn_store n) t r of
             Inl e \<Rightarrow> fail_save n request_id e
           | Inr st \<Rightarrow>
               (let n1 = n\<lparr>mn_store := st\<rparr> in
                case validate_txn env st t of
                  Inl e \<Rightarrow> fail_save n1 request_id e
                | Inr info \<Rightarrow>
                    if tx_session_id t \<noteq> sx_session_id (md_session (mn_model n1))
                    then fail_save n1 request_id (MapError ''session changed during save'')
                    else (case publish env st t of
                        (st', Inl e) \<Rightarrow> fail_save (n1\<lparr>mn_store := st'\<rparr>) request_id e
                      | (st', Inr outcome) \<Rightarrow>
                          n1\<lparr>mn_store := st', mn_saving := Some (Await_record request_id outcome)\<rparr>))))"

text \<open>One poll of \<open>_capture_raster\<close>: before the deadline, and the final one after it.\<close>

definition on_raster_poll :: "map_env \<Rightarrow> map_io \<Rightarrow> map_node \<Rightarrow> map_node" where
  "on_raster_poll env io n =
     (case mn_saving n of
        Some (Await_raster t request_id start) \<Rightarrow>
          (case (mn_last_map n, mn_last_map_at n) of
             (Some g, Some received) \<Rightarrow>
               if flt (mi_now io) (fadd start SAVE_RASTER_TIMEOUT_SEC)
               then (if fle start received then finish_raster env n t request_id (to_raster g) else n)
               else finish_raster env n t request_id
                      (if fle (fsub (mi_now io) received) SAVE_RASTER_TIMEOUT_SEC then to_raster g else None)
           | _ \<Rightarrow> if flt (mi_now io) (fadd start SAVE_RASTER_TIMEOUT_SEC) then n
                  else finish_raster env n t request_id None)
      | _ \<Rightarrow> n)"

definition on_save_recorded :: "map_env \<Rightarrow> map_io \<Rightarrow> map_node \<Rightarrow> map_node" where
  "on_save_recorded env io n =
     (case mn_saving n of
        Some (Await_record request_id outcome) \<Rightarrow>
          publish_map_state env io
            (n\<lparr>mn_model := record_save (mn_model n) request_id outcome, mn_saving := None\<rparr>) False
      | Some (Await_unwind e) \<Rightarrow>
          publish_map_state env io (n\<lparr>mn_saving := None, mn_effects := mn_effects n @ [MF_raise e]\<rparr>) False
      | _ \<Rightarrow> n)"

definition on_map_request :: "map_env \<Rightarrow> map_io \<Rightarrow> map_node \<Rightarrow> map_request \<Rightarrow> map_node" where
  "on_map_request env io n q =
     (if \<not> map_authorized n q
      then record_rejection env io n q ''request does not hold the active control lease''
      else if mq_request_id q \<le> mn_last_request_id n
      then record_rejection env io n q (''stale/replayed map request '' @ str_of_int (mq_request_id q))
      else (let n1 = n\<lparr>mn_last_request_id := mq_request_id q\<rparr>;
                n2 = (if mq_operation q = OP_NEW_MAP then handle_new_map io n1 q
                      else if mq_operation q = OP_SAVE_MAP then handle_save_map env io n1 q
                      else if mq_operation q = OP_SELECT_MAP then handle_select_map env io n1 q
                      else if mq_operation q = OP_DELETE_MAP then handle_delete_map env io n1 q
                      else n1)
            in if mn_saving n2 = None then publish_map_state env io n2 False else n2))"

text \<open>
  Inputs of the node. A request that arrives while a save is running waits for
  it, so it is not an input of that time.
\<close>

datatype map_input =
    MI_lease bool string
  | MI_stop bool bool pyfloat
  | MI_mode map_io mode_msg
  | MI_grid map_io grid
  | MI_timer map_io
  | MI_request map_io map_request
  | MI_serialized map_io "(string \<times> bytes) list" "string option"
  | MI_poll map_io
  | MI_recorded map_io

fun map_step :: "map_env \<Rightarrow> map_node \<Rightarrow> map_input \<Rightarrow> map_node" where
  "map_step env n (MI_lease active lease_id) = on_lease n active lease_id"
| "map_step env n (MI_stop locked stopped now) = on_stop_state n locked stopped now"
| "map_step env n (MI_mode io message) = on_map_mode_state env io n message"
| "map_step env n (MI_grid io g) = on_map env io n g"
| "map_step env n (MI_timer io) = on_map_timer env io n"
| "map_step env n (MI_request io q) = (if mn_saving n = None then on_map_request env io n q else n)"
| "map_step env n (MI_serialized io files failure) = on_serialized io n files failure"
| "map_step env n (MI_poll io) = on_raster_poll env io n"
| "map_step env n (MI_recorded io) = on_save_recorded env io n"

section \<open>A saved bundle is complete\<close>

lemma safe_basename_Inr: "safe_basename x = Inr y \<Longrightarrow> y = x \<and> x \<noteq> []"
  by (auto simp: safe_basename_def split: if_splits)

lemma written_files:
  assumes "write_raster st t r = Inr st'"
  shows "\<exists>rows. dict_get (staged st' t) OCCUPANCY_NAME = Some (pgm_header (ra_width r) (ra_height r) @ rows)"
    "dict_get (staged st' t) MAP_YAML_NAME = Some (ascii_bytes (to_yaml_text r OCCUPANCY_NAME))"
    "st_entries st' = st_entries st" "0 < ra_width r" "0 < ra_height r"
proof -
  obtain pgm where p: "to_pgm_bytes r OCCUPIED_THRESH FREE_THRESH = Inr pgm"
    "st' = stage_file (stage_file st t OCCUPANCY_NAME pgm) t MAP_YAML_NAME (ascii_bytes (to_yaml_text r OCCUPANCY_NAME))"
    using assms by (auto simp: write_raster_def bind_result_Inr_iff split: if_splits)
  have "\<exists>rows. pgm = pgm_header (ra_width r) (ra_height r) @ rows"
    using p(1) by (auto simp: to_pgm_bytes_def bind_result_Inr_iff)
  then show "\<exists>rows. dict_get (staged st' t) OCCUPANCY_NAME = Some (pgm_header (ra_width r) (ra_height r) @ rows)"
    by (simp add: p(2) dict_get_set file_names)
  show "dict_get (staged st' t) MAP_YAML_NAME = Some (ascii_bytes (to_yaml_text r OCCUPANCY_NAME))"
    "st_entries st' = st_entries st" by (simp_all add: p(2) dict_get_set)
  show "0 < ra_width r" "0 < ra_height r" using assms by (auto simp: write_raster_def split: if_splits)
qed

lemma map_result_total: "(\<And>x. x \<in> set xs \<Longrightarrow> is_ok (f x)) \<Longrightarrow> is_ok (map_result f xs)"
proof (induction xs)
  case (Cons x xs)
  obtain y where "f x = Inr y" using Cons.prems [of x] by (auto simp: is_ok_iff)
  moreover obtain ys where "map_result f xs = Inr ys" using Cons by (auto simp: is_ok_iff)
  ultimately show ?case by simp
qed simp

lemma percent_converts:
  assumes "0 \<le> q" "q \<le> 1"
  shows "is_ok (int_of_float (fmul (dbl q) (Fin 100)))"
proof -
  have "fle (Fin 0) (dbl q)" "fle (dbl q) (Fin 1)" using assms by (auto intro: dbl_ge_double dbl_le_double)
  then obtain a where a: "dbl q = Fin a" "0 \<le> a" "a \<le> 1" by (cases "dbl q") auto
  have "fle (Fin 0) (dbl (a * 100))" "fle (dbl (a * 100)) (Fin 100)" using a by (auto intro!: dbl_ge_double dbl_le_double)
  then show ?thesis using a by (cases "dbl (a * 100)") auto
qed

text \<open>A consistent grid is always written.\<close>

lemma write_raster_ok:
  assumes "0 < ra_width r" "0 < ra_height r" "int (length (ra_data r)) = ra_width r * ra_height r"
  shows "\<exists>st'. write_raster st t r = Inr st'"
proof -
  let ?w = "nat (ra_width r)" and ?h = "nat (ra_height r)"
  have len: "length (ra_data r) = ?w * ?h" using assms by (simp add: nat_product)
  have in_range: "row * ?w + column < length (ra_data r)" if "row < ?h" "column < ?w" for row column
  proof -
    have "row * ?w + column < Suc row * ?w" using that(2) by simp
    also have "\<dots> \<le> ?h * ?w" using that(1) by (intro mult_le_mono1) simp
    finally show ?thesis using len by (simp add: mult.commute)
  qed
  have row: "is_ok (pgm_row r occ free row)" if "row < ?h" for occ free row
    unfolding pgm_row_def using in_range [OF that] by (intro map_result_total) (simp add: data_at_def)
  have "is_ok (map_result (pgm_row r occ free) (rev [0..<?h]))" for occ free
    using row by (intro map_result_total) simp
  moreover have "is_ok (int_of_float (fmul OCCUPIED_THRESH (Fin 100)))" "is_ok (int_of_float (fmul FREE_THRESH (Fin 100)))"
    unfolding OCCUPIED_THRESH_def FREE_THRESH_def by (intro percent_converts; simp)+
  ultimately obtain pgm where "to_pgm_bytes r OCCUPIED_THRESH FREE_THRESH = Inr pgm"
    unfolding is_ok_iff to_pgm_bytes_def by (metis bind_result_simps(2))
  then show ?thesis using assms by (simp add: write_raster_def)
qed

lemma finish_success:
  assumes "mn_saving (finish_raster env n t k captured) = Some (Await_record k outcome)" "so_state outcome = SAVE_SUCCEEDED"
  obtains r st info where "captured = Some r" "write_raster (mn_store n) t r = Inr st" "validate_txn env st t = Inr info"
    "tx_session_id t = sx_session_id (md_session (mn_model n))"
    "publish env st t = (mn_store (finish_raster env n t k captured), Inr outcome)"
  using assms
  by (auto simp: finish_raster_def fail_save_def failed_save_def Let_def
      split: option.splits sum.splits if_splits prod.splits py_error.splits)

text \<open>The manifest of a directory lists exactly its canonical files, each with the hash of its content.\<close>

definition manifest_lists_files :: "map_env \<Rightarrow> dir \<Rightarrow> bool" where
  "manifest_lists_files env d \<longleftrightarrow> (\<exists>m recorded. read_manifest env d = Some m
     \<and> get_key m ''artifacts'' = Some (PDict recorded)
     \<and> (\<forall>entry. entry \<in> set recorded \<longleftrightarrow>
          (\<exists>f \<in> set CANONICAL_FILENAMES. \<exists>content. dict_get d f = Some content \<and> entry = (PStr f, PStr (me_sha256 env content)))))"

lemma manifest_written:
  assumes "me_read_json env (manifest_bytes env (build_manifest env s m d c t)) = Some (sort_keys (PDict (build_manifest env s m d c t)))"
  shows "manifest_lists_files env (dict_set d MANIFEST_NAME (manifest_bytes env (build_manifest env s m d c t)))"
    (is "manifest_lists_files env ?d")
proof -
  obtain doc where doc: "sort_keys (PDict (build_manifest env s m d c t)) = PDict doc" by simp
  obtain arts where arts: "get_key doc ''artifacts'' = Some (PDict arts)"
      "set arts = (\<lambda>(f, h). (PStr f, PStr h)) ` set (artifacts_of env d)"
    using manifest_fields(3) [OF doc] by blast
  have "read_manifest env ?d = Some doc" using assms doc by (simp add: read_manifest_def dict_get_set)
  moreover have "dict_get ?d f = dict_get d f" if "f \<in> set CANONICAL_FILENAMES" for f
    using that manifest_not_core(1) by (auto simp: dict_get_set)
  moreover have "entry \<in> set arts \<longleftrightarrow>
      (\<exists>f \<in> set CANONICAL_FILENAMES. \<exists>content. dict_get d f = Some content \<and> entry = (PStr f, PStr (me_sha256 env content)))" for entry
  proof -
    have "entry \<in> set arts \<longleftrightarrow> (\<exists>f h. (f, h) \<in> set (artifacts_of env d) \<and> entry = (PStr f, PStr h))"
      unfolding arts(2) by auto
    then show ?thesis unfolding artifacts_of_iff by blast
  qed
  ultimately show ?thesis
    using arts(1) unfolding manifest_lists_files_def by (intro exI [of _ doc] exI [of _ arts]) simp
qed

text \<open>
  C38. A save that reports success has published a complete bundle: the four core
  files are there, the raster and the map.yaml are the captured grid's, the
  manifest lists exactly the bundle's canonical files with the hashes of their
  contents, the new map validates in the catalogue with the grid's dimensions,
  the session that was mapped and the revision the outcome names, and no other
  map was touched. The sides of the grid are below \<open>10 ^ 10\<close>; the YAML reader is
  assumed to find the image entry in the text that was written, and the JSON
  reader to read back the manifest.
\<close>

theorem saved_bundle_is_complete:
  assumes saved: "mn_saving (finish_raster env n t k captured) = Some (Await_record k outcome)"
    "so_state outcome = SAVE_SUCCEEDED"
    and size: "\<And>r. captured = Some r \<Longrightarrow> ra_width r < 10 ^ 10 \<and> ra_height r < 10 ^ 10"
    and yaml: "\<And>r meta. captured = Some r \<Longrightarrow>
        parse_map_yaml env (ascii_bytes (to_yaml_text r OCCUPANCY_NAME)) = Inr meta \<Longrightarrow> mt_image meta = OCCUPANCY_NAME"
    and json: "\<And>r st m. captured = Some r \<Longrightarrow> write_raster (mn_store n) t r = Inr st \<Longrightarrow>
        m = build_manifest env (tx_session_id t) (tx_name t) (staged st t) (PFloat (tx_created t)) (tx_created t) \<Longrightarrow>
        me_read_json env (manifest_bytes env m) = Some (sort_keys (PDict m))"
  shows "\<exists>r info d. captured = Some r
    \<and> dirs_of Published (mn_store (finish_raster env n t k captured)) (tx_name t) = Some d
    \<and> (\<forall>f \<in> set CORE_FILENAMES. dict_get d f \<noteq> None)
    \<and> (\<exists>pgm. to_pgm_bytes r OCCUPIED_THRESH FREE_THRESH = Inr pgm \<and> dict_get d OCCUPANCY_NAME = Some pgm)
    \<and> dict_get d MAP_YAML_NAME = Some (ascii_bytes (to_yaml_text r OCCUPANCY_NAME))
    \<and> manifest_lists_files env d
    \<and> validate_bundle env Published (mn_store (finish_raster env n t k captured)) (tx_name t) = Inr info
    \<and> bi_width info = ra_width r \<and> bi_height info = ra_height r
    \<and> bi_session_id info = tx_session_id t \<and> bi_revision info = so_revision outcome
    \<and> (\<forall>m. m \<noteq> tx_name t \<longrightarrow>
         dirs_of Published (mn_store (finish_raster env n t k captured)) m = dirs_of Published (mn_store n) m)"
proof -
  obtain r st info where f: "captured = Some r" "write_raster (mn_store n) t r = Inr st" "validate_txn env st t = Inr info"
    "publish env st t = (mn_store (finish_raster env n t k captured), Inr outcome)"
    using finish_success [OF saved] by metis
  note w = written_files [OF f(2)] and p = publish_result [OF f(4)]
  have vb: "validate_bundle env Staging st (tx_name t) = Inr info"
    using f(3) by (auto simp: validate_txn_def bind_result_Inr_iff split: if_splits)
  then have name: "safe_basename (tx_name t) = Inr (tx_name t)"
    using safe_basename_Inr by (fastforce simp: validate_bundle_def bind_result_Inr_iff)
  have v: "validate_dir env Staging (tx_name t) (staged st t) = Inr info"
    using vb name by (auto simp: validate_bundle_def staged_def split: option.splits)
  obtain rows where rows: "dict_get (staged st t) OCCUPANCY_NAME = Some (pgm_header (ra_width r) (ra_height r) @ rows)"
    using w(1) by blast
  have y: "mt_image meta = OCCUPANCY_NAME"
    if "parse_map_yaml env (the (dict_get (staged st t) MAP_YAML_NAME)) = Inr meta" for meta
    using that yaml [OF f(1)] w(2) by simp
  let ?m = "build_manifest env (tx_session_id t) (tx_name t) (staged st t) (PFloat (tx_created t)) (tx_created t)"
  have final: "validate_dir env Published (tx_name t) (dict_set (staged st t) MANIFEST_NAME (manifest_bytes env ?m))
      = Inr (info\<lparr>bi_revision := manifest_revision ?m, bi_session_id := tx_session_id t\<rparr>)"
    by (rule remanifest_valid [OF v refl y json [OF f(1,2) refl] refl])
  then have pub: "validate_bundle env Published (mn_store (finish_raster env n t k captured)) (tx_name t)
      = Inr (info\<lparr>bi_revision := manifest_revision ?m, bi_session_id := tx_session_id t\<rparr>)"
    using name p(1) by (simp add: validate_bundle_def)
  have dims: "bi_width info = ra_width r" "bi_height info = ra_height r"
  proof -
    obtain meta x mv where "image_file env Staging (tx_name t) (staged st t) (mt_image meta) = Some x"
      "parse_map_yaml env (the (dict_get (staged st t) MAP_YAML_NAME)) = Inr meta"
      "read_pgm_header x = Inr (bi_width info, bi_height info, mv)"
      using v unfolding validate_dir_iff by blast
    moreover have "read_pgm_header (pgm_header (ra_width r) (ra_height r) @ rows) = Inr (ra_width r, ra_height r, 255)"
      using size [OF f(1)] w(4,5) by (intro read_written_header) simp_all
    ultimately show "bi_width info = ra_width r" "bi_height info = ra_height r"
      using y rows by (auto simp: image_file_def OCCUPANCY_NAME_def)
  qed
  have others: "dirs_of Published (mn_store (finish_raster env n t k captured)) m = dirs_of Published (mn_store n) m"
    if "m \<noteq> tx_name t" for m using p(1) that w(3) by simp
  let ?d = "dict_set (staged st t) MANIFEST_NAME (manifest_bytes env ?m)"
  have same: "dict_get ?d x = dict_get (staged st t) x" if "x \<in> set CORE_FILENAMES" for x
    using that manifest_not_core by (auto simp: dict_get_set)
  have "dict_get (staged st t) x \<noteq> None" if "x \<in> set CORE_FILENAMES" for x
  proof -
    have "nonempty_file (staged st t) POSEGRAPH_POSEGRAPH_NAME" "nonempty_file (staged st t) POSEGRAPH_DATA_NAME"
      using v by (simp_all add: validate_dir_iff)
    then show ?thesis using that rows w(2) by (auto simp: CORE_FILENAMES_def nonempty_file_def split: option.splits)
  qed
  then have core: "\<forall>x \<in> set CORE_FILENAMES. dict_get ?d x \<noteq> None" using same by simp
  have raster: "\<exists>pgm. to_pgm_bytes r OCCUPIED_THRESH FREE_THRESH = Inr pgm \<and> dict_get ?d OCCUPANCY_NAME = Some pgm"
    using f(2) same [OF core_names(4)] by (auto simp: write_raster_def bind_result_Inr_iff dict_get_set file_names split: if_splits)
  have meta: "dict_get ?d MAP_YAML_NAME = Some (ascii_bytes (to_yaml_text r OCCUPANCY_NAME))"
    using same [OF core_names(3)] w(2) by simp
  have dir: "dirs_of Published (mn_store (finish_raster env n t k captured)) (tx_name t) = Some ?d" using p(1) by simp
  show ?thesis
    by (intro exI [of _ r] exI [of _ "info\<lparr>bi_revision := manifest_revision ?m, bi_session_id := tx_session_id t\<rparr>"]
        exI [of _ ?d] conjI)
      (use f(1) pub dims p(5) others dir core raster meta manifest_written [OF json [OF f(1,2) refl]] in simp_all)
qed

definition demo_txn :: txn where
  "demo_txn = \<lparr> tx_name = ''kitchen'', tx_session_id = ''s1'', tx_created = Fin 0 \<rparr>"

definition demo_raster :: raster where
  "demo_raster = \<lparr> ra_width = 2, ra_height = 2, ra_resolution = Fin (1 / 16), ra_origin_x = Fin 0,
     ra_origin_y = Fin 0, ra_origin_yaw = Fin 0, ra_data = [0, 100, -1, 50] \<rparr>"

definition demo_store :: map_store where
  "demo_store = \<lparr> st_exists = True, st_entries = [],
     st_staging = [(''kitchen'', [(POSEGRAPH_POSEGRAPH_NAME, [1]), (POSEGRAPH_DATA_NAME, [1])])] \<rparr>"

definition demo_manifest :: "(pyval \<times> pyval) list" where
  "demo_manifest = [(PStr ''version'', PInt 1), (PStr ''name'', PStr ''kitchen''), (PStr ''session_id'', PStr ''s1''),
     (PStr ''created'', PFloat (Fin 0)), (PStr ''created_iso'', PStr []), (PStr ''revision'', PStr ''abc''),
     (PStr ''artifacts'', PDict [(PStr ''map.yaml'', PStr ''abc''), (PStr ''occupancy.pgm'', PStr ''abc''),
       (PStr ''posegraph.posegraph'', PStr ''abc''), (PStr ''posegraph.data'', PStr ''abc'')])]"

definition demo_map_env :: map_env where
  "demo_map_env = demo_base\<lparr>me_read_json := (\<lambda>_. Some (sort_keys (PDict demo_manifest)))\<rparr>"

definition demo_map_node :: map_node where
  "demo_map_node = (case new_map_node demo_map_env demo_store None of
     Inr n \<Rightarrow> n\<lparr>mn_model := (mn_model n)\<lparr>md_session := no_session\<lparr>sx_session_id := ''s1'', sx_phase := PH_SAVING\<rparr>\<rparr>\<rparr>
   | Inl e \<Rightarrow> undefined)"

lemma demo_saved:
  "\<exists>outcome. mn_saving (finish_raster demo_map_env demo_map_node demo_txn 1 (Some demo_raster))
     = Some (Await_record 1 outcome) \<and> so_state outcome = SAVE_SUCCEEDED"
proof -
  have n: "mn_store demo_map_node = demo_store" "sx_session_id (md_session (mn_model demo_map_node)) = ''s1''"
    by (simp_all add: demo_map_node_def new_map_node_def load_selection_def set_selection_def)
  obtain st where w: "write_raster demo_store demo_txn demo_raster = Inr st"
    using write_raster_ok [of demo_raster demo_store demo_txn] by (auto simp: demo_raster_def)
  note f = written_files [OF w]
  obtain rows where rows: "dict_get (staged st demo_txn) OCCUPANCY_NAME = Some (pgm_header 2 2 @ rows)"
    using f(1) by (auto simp: demo_raster_def)
  have other: "dict_get (staged st demo_txn) x = dict_get (staged demo_store demo_txn) x"
    if "x \<noteq> OCCUPANCY_NAME" "x \<noteq> MAP_YAML_NAME" for x
    using w that by (auto simp: write_raster_def bind_result_Inr_iff dict_get_set split: if_splits)
  have d: "dirs_of Staging st ''kitchen'' = Some (staged st demo_txn)"
    using w by (auto simp: write_raster_def bind_result_Inr_iff stage_file_def staged_def dict_get_set demo_txn_def split: if_splits)
  have "nonempty_file (staged demo_store demo_txn) POSEGRAPH_POSEGRAPH_NAME" "nonempty_file (staged demo_store demo_txn) POSEGRAPH_DATA_NAME"
    by (simp_all add: nonempty_file_def staged_def demo_store_def demo_txn_def dict_get_def file_names)
  then have pg: "nonempty_file (staged st demo_txn) POSEGRAPH_POSEGRAPH_NAME" "nonempty_file (staged st demo_txn) POSEGRAPH_DATA_NAME"
    using other [of POSEGRAPH_POSEGRAPH_NAME] other [of POSEGRAPH_DATA_NAME] by (simp_all add: nonempty_file_def file_names)
  have ym: "nonempty_file (staged st demo_txn) MAP_YAML_NAME"
    using f(2) by (simp add: nonempty_file_def to_yaml_text_def ascii_bytes_def)
  have man: "read_manifest demo_map_env (staged st demo_txn) = None"
    using other [of MANIFEST_NAME] by (simp add: read_manifest_def staged_def demo_store_def demo_txn_def dict_get_def file_names)
  have hdr: "read_pgm_header (pgm_header 2 2 @ rows) = Inr (2, 2, 255)" by (rule read_written_header) simp_all
  have ne: "pgm_header 2 2 @ rows \<noteq> []" by (simp add: pgm_header_def ascii_bytes_def)
  have dz: "float_of_int 0 = Inr (Fin 0)" by (simp add: float_of_int_def)
  have "validate_txn demo_map_env st demo_txn = Inr \<lparr> bi_name = ''kitchen'', bi_revision = [], bi_session_id = [],
      bi_resolution = Fin (1 / 16), bi_width = 2, bi_height = 2 \<rparr>"
    using pg ym man hdr ne rows d dz
    by (simp add: validate_txn_def validate_bundle_def validate_dir_def safe_basename_kitchen demo_txn_def
        parse_map_yaml_def parse_map_document_def demo_map_env_def demo_base_def get_key_def image_file_def
        OCCUPANCY_NAME_def manifest_text_def)
  moreover have "dict_get (st_entries st) ''kitchen'' = None" using f(3) by (simp add: demo_store_def dict_get_def)
  ultimately show ?thesis
    using w n by (auto simp: finish_raster_def Let_def publish_def demo_txn_def)
qed

theorem saved_bundle_is_complete_witness:
  "\<exists>info d. validate_bundle demo_map_env Published
     (mn_store (finish_raster demo_map_env demo_map_node demo_txn 1 (Some demo_raster))) ''kitchen'' = Inr info
     \<and> bi_width info = 2
     \<and> dirs_of Published (mn_store (finish_raster demo_map_env demo_map_node demo_txn 1 (Some demo_raster))) ''kitchen'' = Some d
     \<and> manifest_lists_files demo_map_env d"
proof -
  obtain outcome where o: "mn_saving (finish_raster demo_map_env demo_map_node demo_txn 1 (Some demo_raster))
     = Some (Await_record 1 outcome)" "so_state outcome = SAVE_SUCCEEDED"
    using demo_saved by blast
  have m: "build_manifest demo_map_env ''s1'' ''kitchen'' (staged st demo_txn) (PFloat (Fin 0)) (Fin 0) = demo_manifest"
    if w: "write_raster (mn_store demo_map_node) demo_txn demo_raster = Inr st" for st
  proof -
    have n: "mn_store demo_map_node = demo_store"
      by (simp add: demo_map_node_def new_map_node_def load_selection_def set_selection_def)
    obtain x y where "staged st demo_txn = dict_set (dict_set (staged demo_store demo_txn) OCCUPANCY_NAME x) MAP_YAML_NAME y"
      using w n by (auto simp: write_raster_def bind_result_Inr_iff split: if_splits)
    then have "staged st demo_txn = [(''posegraph.posegraph'', [1]), (''posegraph.data'', [1]), (''occupancy.pgm'', x), (''map.yaml'', y)]"
      by (simp add: staged_def demo_store_def demo_txn_def dict_get_def file_names)
    then show ?thesis
      by (simp add: build_manifest_def artifacts_of_def List.map_filter_def file_names dict_get_def demo_manifest_def
          demo_map_env_def demo_base_def)
  qed
  have "\<exists>r info d. Some demo_raster = Some r
    \<and> dirs_of Published (mn_store (finish_raster demo_map_env demo_map_node demo_txn 1 (Some demo_raster))) (tx_name demo_txn) = Some d
    \<and> (\<forall>f \<in> set CORE_FILENAMES. dict_get d f \<noteq> None)
    \<and> (\<exists>pgm. to_pgm_bytes r OCCUPIED_THRESH FREE_THRESH = Inr pgm \<and> dict_get d OCCUPANCY_NAME = Some pgm)
    \<and> dict_get d MAP_YAML_NAME = Some (ascii_bytes (to_yaml_text r OCCUPANCY_NAME))
    \<and> manifest_lists_files demo_map_env d
    \<and> validate_bundle demo_map_env Published (mn_store (finish_raster demo_map_env demo_map_node demo_txn 1 (Some demo_raster))) (tx_name demo_txn) = Inr info
    \<and> bi_width info = ra_width r \<and> bi_height info = ra_height r
    \<and> bi_session_id info = tx_session_id demo_txn \<and> bi_revision info = so_revision outcome
    \<and> (\<forall>m. m \<noteq> tx_name demo_txn \<longrightarrow>
         dirs_of Published (mn_store (finish_raster demo_map_env demo_map_node demo_txn 1 (Some demo_raster))) m
         = dirs_of Published (mn_store demo_map_node) m)"
  proof (rule saved_bundle_is_complete [OF o], goal_cases)
    case (1 r)
    then show ?case by (auto simp: demo_raster_def)
  next
    case (2 r meta)
    then show ?case
      by (auto simp: parse_map_yaml_def parse_map_document_def demo_map_env_def demo_base_def get_key_def
          float_of_int_def OCCUPANCY_NAME_def)
  next
    case (3 r st c)
    then have "c = demo_manifest" using m by (auto simp: demo_txn_def)
    then show ?case by (simp add: demo_map_env_def)
  qed
  then show ?thesis by (auto simp: demo_txn_def demo_raster_def)
qed

section \<open>Maps in use are kept\<close>

text \<open>What each part of the node leaves alone.\<close>

lemma observe_session_selected [frame_simps]: "md_selected_applied (observe_session m a s e t) = md_selected_applied m"
  by (simp add: observe_session_def Let_def)

lemma model_selected [frame_simps]:
  "md_selected_applied (observe_map_evidence m b t) = md_selected_applied m"
  "md_selected_applied (refresh_session m t) = md_selected_applied m"
  "md_selected_applied (record_save m k out) = md_selected_applied m"
  "md_selected_applied (begin_save m k) = md_selected_applied m"
  "md_selected_applied (record_delete m k name s d) = md_selected_applied m"
  "md_selected_applied (set_selection m req app why) = app"
  by (simp_all add: observe_map_evidence_def refresh_session_def record_save_def begin_save_def record_delete_def
      set_selection_def Let_def)

lemma catalog_selected: "catalog env st rows m = Inr m' \<Longrightarrow> md_selected_applied m' = md_selected_applied m"
  by (auto simp: catalog_def Let_def bind_result_Inr_iff split: if_splits)

lemma publish_map_state_frame [simp]:
  "mn_store (publish_map_state env io n force) = mn_store n"
  "mn_saving (publish_map_state env io n force) = mn_saving n"
  "mn_active_autonomy_map (publish_map_state env io n force) = mn_active_autonomy_map n"
  "md_selected_applied (mn_model (publish_map_state env io n force)) = md_selected_applied (mn_model n)"
  "mn_last_request_id (publish_map_state env io n force) = mn_last_request_id n"
  by (auto simp: publish_map_state_def Let_def catalog_selected split: sum.split)

lemma follow_reset_frame [simp]:
  "mn_store (follow_reset n m) = mn_store n" "mn_saving (follow_reset n m) = mn_saving n" "mn_model (follow_reset n m) = mn_model n"
  "mn_last_request_id (follow_reset n m) = mn_last_request_id n"
  by (simp_all add: follow_reset_def split: option.split)

lemma record_rejection_frame [simp]:
  "mn_store (record_rejection env io n q r) = mn_store n" "mn_saving (record_rejection env io n q r) = mn_saving n"
  "md_selected_applied (mn_model (record_rejection env io n q r)) = md_selected_applied (mn_model n)"
  "mn_last_request_id (record_rejection env io n q r) = mn_last_request_id n"
  by (simp_all add: record_rejection_def record_reset_rejection_def Let_def frame_simps)

lemma fail_save_frame [simp]:
  "mn_store (fail_save n k e) = mn_store n" "mn_model (fail_save n k e) = mn_model n"
  "mn_last_request_id (fail_save n k e) = mn_last_request_id n"
  by (simp_all add: fail_save_def split: py_error.split)

lemma fail_save_stage: "mn_saving (fail_save n k e) = Some stage \<Longrightarrow> (\<exists>out. stage = Await_record k out) \<or> (\<exists>e. stage = Await_unwind e)"
  by (auto simp: fail_save_def split: py_error.splits)

lemma stage_files_entries: "st_entries (foldl (\<lambda>st (f, c). stage_file st t f c) st files) = st_entries st"
  by (induction files arbitrary: st) (auto simp: split_beta)

lemma prepare_entries: "prepare st t = Inr st' \<Longrightarrow> st_entries st' = st_entries st \<and> dict_get (st_entries st) (tx_name t) = None"
  by (auto simp: prepare_def split: if_splits)

text \<open>The name a running save will publish, while it is staged.\<close>

definition saving_txn :: "map_node \<Rightarrow> txn option" where
  "saving_txn n = (case mn_saving n of
     Some (Await_serialize t k) \<Rightarrow> Some t | Some (Await_raster t k s) \<Rightarrow> Some t | _ \<Rightarrow> None)"

definition map_inv :: "map_node \<Rightarrow> bool" where
  "map_inv n \<longleftrightarrow>
     (md_selected_applied (mn_model n) = [] \<or> dirs_of Published (mn_store n) (md_selected_applied (mn_model n)) \<noteq> None)
     \<and> (\<forall>t. saving_txn n = Some t \<longrightarrow> dict_get (st_entries (mn_store n)) (tx_name t) = None)"

lemma map_inv_quiet:
  assumes "map_inv n" "st_entries (mn_store n') = st_entries (mn_store n)"
    "md_selected_applied (mn_model n') = md_selected_applied (mn_model n)" "saving_txn n' \<in> {saving_txn n, None}"
  shows "map_inv n'"
  using assms by (auto simp: map_inv_def)

lemma publish_entries:
  "st_entries (fst (publish env st t)) = st_entries st
   \<or> (\<exists>d. st_entries (fst (publish env st t)) = dict_set (st_entries st) (tx_name t) (RDir d))"
proof (cases "snd (publish env st t)")
  case (Inl e)
  then show ?thesis using publish_failed by (metis prod.collapse)
next
  case (Inr out)
  then show ?thesis
    by (auto simp: publish_def Let_def split: option.splits root_entry.splits list.splits)
qed

lemma finish_raster_entries:
  "st_entries (mn_store (finish_raster env n t k captured)) = st_entries (mn_store n)
   \<or> (\<exists>d. st_entries (mn_store (finish_raster env n t k captured)) = dict_set (st_entries (mn_store n)) (tx_name t) (RDir d))"
proof (cases captured)
  case None
  then show ?thesis by (simp add: finish_raster_def)
next
  case (Some r)
  show ?thesis
  proof (cases "write_raster (mn_store n) t r")
    case (Inl e)
    then show ?thesis using Some by (simp add: finish_raster_def)
  next
    case (Inr st)
    then show ?thesis using Some written_files(3) [OF Inr] publish_entries [of env st t]
      by (auto simp: finish_raster_def Let_def split: sum.splits prod.splits)
  qed
qed

lemma finish_raster_saving: "saving_txn (finish_raster env n t k captured) = None"
  by (auto simp: finish_raster_def saving_txn_def fail_save_def Let_def
      split: option.splits sum.splits prod.splits py_error.splits)

lemma finish_raster_model [simp]: "mn_model (finish_raster env n t k captured) = mn_model n"
  by (auto simp: finish_raster_def Let_def split: option.splits sum.splits prod.splits)

lemma poll_disj: "on_raster_poll env io n = n \<or> (\<exists>t k c. on_raster_poll env io n = finish_raster env n t k c)"
  by (simp add: on_raster_poll_def split: option.split save_stage.split) blast

lemma poll_cases:
  obtains "on_raster_poll env io n = n" | t k c where "on_raster_poll env io n = finish_raster env n t k c"
  using poll_disj [of env io n] by blast

lemma finish_raster_inv:
  assumes "map_inv n"
  shows "map_inv (finish_raster env n t k captured)"
  using finish_raster_entries [of env n t k captured] finish_raster_saving [of env n t k captured] assms
  by (auto simp: map_inv_def dict_get_set split: if_splits)

lemma handle_delete_entries:
  "st_entries (mn_store (handle_delete_map env io n q)) = st_entries (mn_store n)
   \<or> (st_entries (mn_store (handle_delete_map env io n q)) = dict_del (st_entries (mn_store n)) (mq_name q)
      \<and> mq_name q \<noteq> md_selected_applied (mn_model n) \<and> mq_name q \<noteq> mn_active_autonomy_map n)"
proof (cases "bind_result (safe_basename (mq_name q)) (\<lambda>name.
    validate_delete_candidate env (mn_store n) name (md_selected_applied (mn_model n)) (mn_active_autonomy_map n))")
  case (Inl e)
  then show ?thesis by (simp add: handle_delete_map_def split: py_error.split)
next
  case (Inr info)
  then have "mq_name q \<noteq> md_selected_applied (mn_model n) \<and> mq_name q \<noteq> mn_active_autonomy_map n"
    using safe_basename_Inr
    by (fastforce simp: bind_result_Inr_iff validate_delete_candidate_def split: if_splits)
  then show ?thesis using Inr
    by (auto simp: handle_delete_map_def delete_bundle_def split: sum.splits prod.splits py_error.splits if_splits)
qed

lemma handle_delete_frame [simp]:
  "md_selected_applied (mn_model (handle_delete_map env io n q)) = md_selected_applied (mn_model n)"
  "mn_saving (handle_delete_map env io n q) = mn_saving n"
  by (auto simp: handle_delete_map_def Let_def frame_simps split: sum.splits prod.splits py_error.splits)

lemma handle_delete_inv: "map_inv n \<Longrightarrow> mn_saving n = None \<Longrightarrow> map_inv (handle_delete_map env io n q)"
  using handle_delete_entries [of env io n q] by (auto simp: map_inv_def saving_txn_def dict_get_del)

lemma handle_select_inv:
  assumes "map_inv n" "mn_saving n = None"
  shows "map_inv (handle_select_map env io n q)"
proof -
  have dir: "dirs_of Published (mn_store n) name \<noteq> None" if "select_check env n x = Inr name" for x name
    using that by (auto simp: select_check_def validate_bundle_def bind_result_Inr_iff split: if_splits option.splits
        dest!: safe_basename_Inr)
  show ?thesis
  proof (cases "select_check env n (mq_name q)")
    case (Inl e)
    then show ?thesis using assms
      by (auto simp: handle_select_map_def map_inv_def saving_txn_def frame_simps Let_def split: py_error.split)
  next
    case (Inr name)
    then show ?thesis using assms dir [OF Inr]
      by (auto simp: handle_select_map_def map_inv_def saving_txn_def frame_simps Let_def)
  qed
qed

lemma handle_save_cases:
  assumes "mn_saving n = None"
  shows "st_entries (mn_store (handle_save_map env io n q)) = st_entries (mn_store n)"
    "md_selected_applied (mn_model (handle_save_map env io n q)) = md_selected_applied (mn_model n)"
    "saving_txn (handle_save_map env io n q) = Some t \<Longrightarrow>
       dict_get (st_entries (mn_store n)) (tx_name t) = None \<and> save_check n q (mi_now io) = Inr (tx_name t)
       \<and> tx_session_id t = sx_session_id (md_session (mn_model n))"
proof -
  let ?n0 = "n\<lparr>mn_model := begin_save (mn_model n) (mq_request_id q)\<rparr>"
  consider c where "cached_save (mn_model n) (mq_request_id q) = Some c"
    | e where "cached_save (mn_model n) (mq_request_id q) = None" "save_check n q (mi_now io) = Inl e"
    | name where "cached_save (mn_model n) (mq_request_id q) = None" "save_check n q (mi_now io) = Inr name"
    by (cases "cached_save (mn_model n) (mq_request_id q)"; cases "save_check n q (mi_now io)") auto
  then have "st_entries (mn_store (handle_save_map env io n q)) = st_entries (mn_store n)
    \<and> md_selected_applied (mn_model (handle_save_map env io n q)) = md_selected_applied (mn_model n)
    \<and> (saving_txn (handle_save_map env io n q) = Some t \<longrightarrow>
       dict_get (st_entries (mn_store n)) (tx_name t) = None \<and> save_check n q (mi_now io) = Inr (tx_name t)
       \<and> tx_session_id t = sx_session_id (md_session (mn_model n)))"
  proof cases
    case 1
    then show ?thesis using assms by (simp add: handle_save_map_def frame_simps saving_txn_def)
  next
    case 2
    then show ?thesis using assms
      by (cases e) (simp_all add: handle_save_map_def frame_simps saving_txn_def)
  next
    case (3 name)
    have nm: "u = name" if "safe_basename name = Inr u" for u using safe_basename_Inr [OF that] by simp
    show ?thesis using 3 assms nm
      by (auto simp: handle_save_map_def frame_simps saving_txn_def Let_def new_txn_def bind_result_def fail_save_def
          split: sum.splits py_error.splits dest!: prepare_entries)
  qed
  then show "st_entries (mn_store (handle_save_map env io n q)) = st_entries (mn_store n)"
    "md_selected_applied (mn_model (handle_save_map env io n q)) = md_selected_applied (mn_model n)"
    "saving_txn (handle_save_map env io n q) = Some t \<Longrightarrow>
       dict_get (st_entries (mn_store n)) (tx_name t) = None \<and> save_check n q (mi_now io) = Inr (tx_name t)
       \<and> tx_session_id t = sx_session_id (md_session (mn_model n))"
    by blast+
qed

lemma saving_txn_publish [simp]: "saving_txn (publish_map_state env io n force) = saving_txn n"
  by (simp add: saving_txn_def)

lemma on_map_request_inv:
  assumes "map_inv n" "mn_saving n = None"
  shows "map_inv (on_map_request env io n q)"
proof -
  let ?n = "n\<lparr>mn_last_request_id := mq_request_id q\<rparr>"
  have n1: "map_inv ?n" "mn_saving ?n = None" using assms by (simp_all add: map_inv_def saving_txn_def)
  have "map_inv (handle_new_map io ?n q)"
    using n1 by (auto simp: handle_new_map_def record_reset_rejection_def map_inv_def saving_txn_def Let_def)
  moreover have "map_inv (handle_save_map env io ?n q)"
    using n1 handle_save_cases [OF n1(2), of env io q] unfolding map_inv_def by auto
  moreover have "map_inv (handle_select_map env io ?n q)" "map_inv (handle_delete_map env io ?n q)"
    using n1 by (simp_all add: handle_select_inv handle_delete_inv)
  moreover have pub: "map_inv (publish_map_state env io m False) = map_inv m" for m by (simp add: map_inv_def)
  moreover have "map_inv (record_rejection env io n q r)" for r
    using assms by (simp add: map_inv_def saving_txn_def)
  ultimately show ?thesis using n1 by (simp add: on_map_request_def Let_def)
qed

lemma map_step_inv:
  assumes "map_inv n"
  shows "map_inv (map_step env n i)"
proof (cases i)
  case (MI_lease a l)
  then show ?thesis using assms by (simp add: on_lease_def map_inv_def saving_txn_def)
next
  case (MI_stop a b t)
  then show ?thesis using assms by (simp add: on_stop_state_def map_inv_def saving_txn_def)
next
  case (MI_mode io m)
  then show ?thesis using assms by (simp add: on_map_mode_state_def map_inv_def saving_txn_def frame_simps Let_def)
next
  case (MI_grid io g)
  then show ?thesis using assms by (simp add: on_map_def map_inv_def saving_txn_def frame_simps Let_def)
next
  case (MI_timer io)
  then show ?thesis using assms by (simp add: on_map_timer_def map_inv_def saving_txn_def frame_simps)
next
  case (MI_request io q)
  then show ?thesis using assms by (simp add: on_map_request_inv)
next
  case (MI_serialized io files failure)
  show ?thesis
    unfolding MI_serialized map_step.simps
    by (rule map_inv_quiet [OF assms])
       (auto simp: on_serialized_def stage_files_entries saving_txn_def fail_save_def Let_def
         split: option.splits save_stage.splits sum.splits py_error.splits)
next
  case (MI_poll io)
  then show ?thesis using assms finish_raster_inv [OF assms]
    by (cases rule: poll_cases [of env io n]) simp_all
next
  case (MI_recorded io)
  then show ?thesis using assms
    by (auto simp: on_save_recorded_def map_inv_def saving_txn_def frame_simps split: option.splits save_stage.splits)
qed

definition map_initial :: "map_env \<Rightarrow> map_node \<Rightarrow> bool" where
  "map_initial env n = (\<exists>st selected_file. new_map_node env st selected_file = Inr n)"

lemma map_initial_inv: "map_initial env n \<Longrightarrow> map_inv n"
proof -
  assume "map_initial env n"
  then obtain st f applied where n: "load_selection env st f = Inr applied" "mn_store n = st" "mn_saving n = None"
    "md_selected_applied (mn_model n) = applied"
    by (auto simp: map_initial_def new_map_node_def bind_result_Inr_iff frame_simps)
  have "applied = [] \<or> dirs_of Published st applied \<noteq> None"
    using n(1) by (auto simp: load_selection_def validate_bundle_def bind_result_Inr_iff Let_def
        split: option.splits sum.splits py_error.splits dest!: safe_basename_Inr)
  then show ?thesis using n by (simp add: map_inv_def saving_txn_def)
qed

interpretation map_exec: machine "map_initial env" "map_step env" map_inv for env
  by unfold_locales (simp_all add: map_initial_inv map_step_inv)

text \<open>
  The selected map is always there: whatever requests, saves, deletions and
  observations the executor handles from its start, the map it reports as
  selected is a published map directory (or no map is selected).
\<close>

theorem selected_map_survives:
  assumes "new_map_node env st selected_file = Inr n0" "n = run_steps (map_step env) n0 is"
  shows "md_selected_applied (mn_model n) = []
    \<or> dirs_of Published (mn_store n) (md_selected_applied (mn_model n)) \<noteq> None"
proof -
  have "map_initial env n0" using assms(1) by (auto simp: map_initial_def)
  then have "map_inv n" using assms(2) map_exec.invar_reachable by simp
  then show ?thesis by (simp add: map_inv_def)
qed

theorem selected_map_survives_witness:
  "let n = run_steps (map_step demo_map_env) (demo_map_node\<lparr>mn_model := new_model\<rparr>) [MI_lease True ''L'', MI_stop True True (Fin 0)]
   in md_selected_applied (mn_model n) = [] \<or> dirs_of Published (mn_store n) (md_selected_applied (mn_model n)) \<noteq> None"
  unfolding Let_def
  by (rule selected_map_survives [where st = demo_store and selected_file = None, OF _ refl])
     (simp add: demo_map_node_def new_map_node_def load_selection_def set_selection_def new_model_def)

text \<open>
  A published map disappears only through a DELETE request that holds the
  control lease, is newer than every earlier request and names that map, and
  never while the map is selected or is the map AUTONOMY runs on.
\<close>

theorem deletion_is_deliberate:
  assumes "dirs_of Published (mn_store n) m \<noteq> None" "dirs_of Published (mn_store (map_step env n i)) m = None"
  shows "\<exists>io q. i = MI_request io q \<and> map_authorized n q \<and> mn_last_request_id n < mq_request_id q
    \<and> mq_operation q = OP_DELETE_MAP \<and> mq_name q = m
    \<and> m \<noteq> md_selected_applied (mn_model n) \<and> m \<noteq> mn_active_autonomy_map n"
proof -
  have keeps: "dirs_of Published (mn_store n') m \<noteq> None" if "st_entries (mn_store n') = st_entries (mn_store n)" for n'
    using assms(1) that by simp
  have poll: "dirs_of Published (mn_store (finish_raster env n t k c)) m \<noteq> None" for t k c
    using finish_raster_entries [of env n t k c] assms(1) by (auto simp: dict_get_set)
  obtain io q where i: "i = MI_request io q" "mn_saving n = None"
  proof (cases i)
    case (MI_poll io)
    have "dirs_of Published (mn_store (map_step env n i)) m \<noteq> None"
      unfolding MI_poll map_step.simps
      by (rule poll_cases [of env io n]) (simp_all only: assms(1) poll not_False_eq_True)
    then show ?thesis using assms(2) by blast
  next
    case (MI_request io q)
    then show ?thesis using assms that by (auto split: if_splits)
  next
    case (MI_serialized io files failure)
    then have "st_entries (mn_store (map_step env n i)) = st_entries (mn_store n)"
      by (auto simp: on_serialized_def stage_files_entries Let_def split: option.splits save_stage.splits sum.splits)
    then show ?thesis using assms(2) keeps by blast
  qed (use assms in \<open>auto simp: on_lease_def on_stop_state_def on_map_mode_state_def on_map_def on_map_timer_def
        on_save_recorded_def Let_def split: option.splits save_stage.splits\<close>)
  let ?n = "n\<lparr>mn_last_request_id := mq_request_id q\<rparr>"
  have new: "st_entries (mn_store (handle_new_map io ?n q)) = st_entries (mn_store n)"
    by (simp add: handle_new_map_def record_reset_rejection_def Let_def)
  have sel: "st_entries (mn_store (handle_select_map env io ?n q)) = st_entries (mn_store n)"
    by (auto simp: handle_select_map_def Let_def split: sum.splits py_error.splits)
  have sav: "st_entries (mn_store (handle_save_map env io ?n q)) = st_entries (mn_store n)"
    using handle_save_cases(1) [of ?n env io q] i(2) by simp
  have op: "map_authorized n q \<and> mn_last_request_id n < mq_request_id q \<and> mq_operation q = OP_DELETE_MAP"
  proof (rule ccontr)
    assume a: "\<not> ?thesis"
    have "st_entries (mn_store (map_step env n i)) = st_entries (mn_store n)"
      using a i new sel sav by (auto simp: on_map_request_def Let_def)
    then show False using assms(2) keeps by blast
  qed
  have "mq_operation q \<noteq> OP_NEW_MAP" "mq_operation q \<noteq> OP_SAVE_MAP" "mq_operation q \<noteq> OP_SELECT_MAP"
    using op by (simp_all add: OP_DELETE_MAP_def OP_NEW_MAP_def OP_SAVE_MAP_def OP_SELECT_MAP_def)
  then have e: "st_entries (mn_store (map_step env n i)) = st_entries (mn_store (handle_delete_map env io ?n q))"
    using op i by (simp add: on_map_request_def Let_def)
  then show ?thesis
    using handle_delete_entries [of env io ?n q] assms op i(1) by (auto simp: dict_get_del split: if_splits)
qed

definition empty_store :: map_store where
  "empty_store = \<lparr> st_exists = True, st_entries = [], st_staging = [] \<rparr>"

definition demo_request :: "int \<Rightarrow> map_request" where
  "demo_request operation = \<lparr> mq_request_id = 5, mq_lease_id = ''L'', mq_operation = operation, mq_name = ''kitchen'',
     mq_session_id = ''s1'' \<rparr>"

definition demo_mio :: map_io where
  "demo_mio = \<lparr> mi_now = Fin 0, mi_time = Fin 0, mi_time_ns = 0, mi_rows = [], mi_store_raises = False,
     mi_rename_raises = False \<rparr>"

definition demo_idle_node :: "map_store \<Rightarrow> map_node" where
  "demo_idle_node st = demo_map_node\<lparr>mn_store := st, mn_lease_active := True, mn_lease_id := ''L'', mn_mode_ready := True,
     mn_stop_state := Some (True, True), mn_stop_state_at := Some (Fin 0),
     mn_model := new_model\<lparr>md_session := no_session\<lparr>sx_session_id := ''s1'', sx_phase := PH_READY\<rparr>\<rparr>\<rparr>"

lemma demo_idle_fields:
  "mn_saving (demo_idle_node st) = None" "mn_last_request_id (demo_idle_node st) = 0"
  "mn_active_autonomy_map (demo_idle_node st) = []" "map_authorized (demo_idle_node st) (demo_request k)"
  "md_selected_applied (mn_model (demo_idle_node st)) = []" "mn_store (demo_idle_node st) = st"
  by (simp_all add: demo_idle_node_def demo_map_node_def new_map_node_def load_selection_def set_selection_def new_model_def
      map_authorized_def demo_request_def)

theorem deletion_is_deliberate_witness:
  "\<exists>io q. MI_request demo_mio (demo_request OP_DELETE_MAP) = MI_request io q
    \<and> map_authorized (demo_idle_node demo_pub_store) q \<and> mn_last_request_id (demo_idle_node demo_pub_store) < mq_request_id q
    \<and> mq_operation q = OP_DELETE_MAP \<and> mq_name q = ''kitchen''
    \<and> ''kitchen'' \<noteq> md_selected_applied (mn_model (demo_idle_node demo_pub_store))
    \<and> ''kitchen'' \<noteq> mn_active_autonomy_map (demo_idle_node demo_pub_store)"
proof (rule deletion_is_deliberate [where env = demo_map_env])
  show "dirs_of Published (mn_store (demo_idle_node demo_pub_store)) ''kitchen'' \<noteq> None"
    by (simp add: demo_idle_fields demo_pub_store_def dict_get_def)
  show "dirs_of Published (mn_store (map_step demo_map_env (demo_idle_node demo_pub_store)
      (MI_request demo_mio (demo_request OP_DELETE_MAP)))) ''kitchen'' = None"
    using demo_pub_valid [of "\<lambda>_. Some (sort_keys (PDict demo_manifest))"]
    by (auto simp: demo_idle_fields demo_map_env_def on_map_request_def handle_delete_map_def demo_request_def OP_DELETE_MAP_def
        OP_NEW_MAP_def OP_SAVE_MAP_def OP_SELECT_MAP_def validate_delete_candidate_def safe_basename_kitchen is_ok_iff
        delete_bundle_def demo_mio_def dict_get_del map_authorized_def Let_def)
       (use demo_idle_fields(4) [of demo_pub_store 3] in \<open>simp add: map_authorized_def demo_request_def\<close>)+
qed

text \<open>
  C39. A save starts only on a request that holds the control lease and is newer
  than every earlier one, for the active session it names, with that session
  past its start, the mapping runtime ready and STOP reported asserted within
  the last second; the bundle it will publish is labelled with that session.
\<close>

theorem save_needs_stop_and_lease:
  assumes "saving_txn n = None" "saving_txn (map_step env n i) = Some t"
  shows "\<exists>io q. i = MI_request io q \<and> map_authorized n q \<and> mn_last_request_id n < mq_request_id q
    \<and> mq_operation q = OP_SAVE_MAP \<and> mq_name q = tx_name t
    \<and> stop_inhibited n (mi_now io) \<and> mn_mode_ready n
    \<and> session_active (md_session (mn_model n)) \<and> sx_phase (md_session (mn_model n)) \<noteq> PH_STARTING
    \<and> mq_session_id q = sx_session_id (md_session (mn_model n)) \<and> tx_session_id t = mq_session_id q"
proof -
  have none: "saving_txn (finish_raster env n u k c) = None" for u k c by (rule finish_raster_saving)
  obtain io q where i: "i = MI_request io q" "mn_saving n = None"
  proof (cases i)
    case (MI_poll io)
    then show ?thesis using assms none by (cases rule: poll_cases [of env io n]) simp_all
  next
    case (MI_request io q)
    then show ?thesis using assms that by (auto split: if_splits)
  next
    case (MI_serialized io files failure)
    then show ?thesis using assms
      by (auto simp: on_serialized_def saving_txn_def Let_def split: option.splits save_stage.splits sum.splits)
  next
    case (MI_mode io x)
    then show ?thesis using assms by (simp add: on_map_mode_state_def Let_def saving_txn_def)
  qed (use assms in \<open>auto simp: on_lease_def on_stop_state_def on_map_def on_map_timer_def saving_txn_def
        on_save_recorded_def Let_def split: option.splits save_stage.splits\<close>)
  let ?n = "n\<lparr>mn_last_request_id := mq_request_id q\<rparr>"
  have quiet: "mn_saving (handle_new_map io ?n q) = None" "mn_saving (handle_select_map env io ?n q) = None"
    "mn_saving (handle_delete_map env io ?n q) = None"
    using i(2) by (auto simp: handle_new_map_def record_reset_rejection_def handle_select_map_def Let_def
        split: sum.splits py_error.splits)
  have op: "map_authorized n q \<and> mn_last_request_id n < mq_request_id q \<and> mq_operation q = OP_SAVE_MAP"
    using assms(2) i quiet by (auto simp: on_map_request_def saving_txn_def Let_def split: if_splits)
  have "mq_operation q \<noteq> OP_NEW_MAP" using op by (simp add: OP_NEW_MAP_def OP_SAVE_MAP_def)
  then have "saving_txn (handle_save_map env io ?n q) = Some t"
    using assms(2) i op by (simp add: on_map_request_def Let_def split: if_splits)
  then have chk: "save_check ?n q (mi_now io) = Inr (tx_name t)" "tx_session_id t = sx_session_id (md_session (mn_model n))"
    using handle_save_cases(3) [of ?n env io q t] i(2) by auto
  then show ?thesis using op i(1)
    by (auto simp: save_check_def stop_inhibited_def bind_result_Inr_iff Let_def dest!: safe_basename_Inr split: if_splits)
qed

theorem save_needs_stop_and_lease_witness:
  "\<exists>io q. MI_request demo_mio (demo_request OP_SAVE_MAP) = MI_request io q \<and> stop_inhibited (demo_idle_node empty_store) (mi_now io)"
proof -
  let ?n = "demo_idle_node empty_store"
  have a: "map_authorized ?n (demo_request OP_SAVE_MAP)" by (rule demo_idle_fields)
  have "saving_txn (handle_save_map demo_map_env demo_mio (?n\<lparr>mn_last_request_id := 5\<rparr>) (demo_request OP_SAVE_MAP))
      = Some \<lparr> tx_name = ''kitchen'', tx_session_id = ''s1'', tx_created = Fin 0 \<rparr>"
    by (simp add: handle_save_map_def cached_save_def demo_idle_node_def demo_map_node_def new_map_node_def load_selection_def
        set_selection_def new_model_def dict_get_def save_check_def demo_request_def safe_basename_kitchen session_active_def
        no_session_def stop_inhibited_def demo_mio_def STOP_STATE_TIMEOUT_SEC_def begin_save_def
        new_txn_def prepare_def empty_store_def saving_txn_def catalog_def scan_catalog_def catalog_names_def dict_keys_def
        Let_def)
  then have "saving_txn (map_step demo_map_env ?n (MI_request demo_mio (demo_request OP_SAVE_MAP)))
      = Some \<lparr> tx_name = ''kitchen'', tx_session_id = ''s1'', tx_created = Fin 0 \<rparr>"
    using a by (simp add: demo_idle_fields on_map_request_def demo_request_def OP_SAVE_MAP_def OP_NEW_MAP_def Let_def)
  from save_needs_stop_and_lease [OF _ this] show ?thesis by (auto simp: saving_txn_def demo_idle_fields)
qed

section \<open>Two weaknesses\<close>

text \<open>
  A \<open>map.yaml\<close> that is not UTF-8 raises a plain \<open>ValueError\<close>, which the catalogue
  scan does not catch: one such directory hides every other map, because the
  publication of the map state raises as well.
\<close>

lemma undecodable_yaml_breaks_catalog:
  assumes "st_exists st" "name \<in> set (catalog_names st)" "validate_bundle env Published st name = Inl (ValueError e)"
  shows "\<not> is_ok (scan_catalog env st selected)"
proof -
  have "\<not> is_ok (map_result f xs)" if "x \<in> set xs" "f x = Inl err" for f :: "string \<Rightarrow> catalog_entry result" and xs x err
    using that
  proof (induction xs)
    case (Cons y ys)
    then show ?case by (cases "f y"; cases "map_result f ys") (auto simp: is_ok_def)
  qed simp
  moreover have "catalog_row env st selected name = Inl (ValueError e)" using assms(3) by (simp add: catalog_row_def)
  ultimately show ?thesis using assms(1,2) by (simp add: scan_catalog_def)
qed

text \<open>
  A save that was published just before the mapping session changed is recorded
  against the new session, which then claims to be saved.
\<close>

lemma late_save_marks_new_session:
  assumes "mn_saving n = Some (Await_record k out)" "so_state out = SAVE_SUCCEEDED"
    "n' = on_map_mode_state env io n message" "mo_mode message = MODE_MAPPING" "mo_status message = STATUS_STABLE"
    "truthy (mo_mapping_session_id message)" "mo_mapping_session_id message \<noteq> sx_session_id (md_session (mn_model n))"
    "is_ok (catalog env (mn_store n) (mi_rows io') (record_save (mn_model n') k out))"
  shows "sx_session_id (md_session (mn_model (on_save_recorded env io' n'))) = mo_mapping_session_id message
    \<and> \<not> sx_unsaved (md_session (mn_model (on_save_recorded env io' n')))"
proof -
  have frame: "md_session m' = md_session m" if "catalog env st rows m = Inr m'" for m m' st rows
    using that by (auto simp: catalog_def Let_def bind_result_Inr_iff split: if_splits)
  have pub: "md_session (mn_model (publish_map_state env i x b)) = md_session (mn_model x)" for i x b
    using frame by (auto simp: publish_map_state_def Let_def split: sum.split)
  have s: "sx_session_id (md_session (mn_model n')) = mo_mapping_session_id message" "mn_saving n' = Some (Await_record k out)"
    using assms by (simp_all add: on_map_mode_state_def Let_def pub observe_session_def)
  show ?thesis using s assms(2) by (simp add: on_save_recorded_def pub record_save_def Let_def)
qed

end
