(* ===== verification/Semantics.thy ===== *)
theory Semantics
  imports MapStore
begin

text \<open>
  The semantic class raster of a map (\<open>runner_paddock/semantics.py\<close>): encoding
  and decoding of the class buffer, and reading and writing \<open>semantics.png\<close> in
  the map directory of the catalogue. The class buffer is in grid order (row 0
  at the origin), the picture in image order (row 0 on top).
\<close>

section \<open>Class buffers\<close>

definition CLASS_UNCLASSIFIED :: "8 word" where "CLASS_UNCLASSIFIED = 0"
definition CLASS_CAUTION :: "8 word" where "CLASS_CAUTION = 1"
definition CLASS_LETHAL :: "8 word" where "CLASS_LETHAL = 2"
definition VALID_CLASS_VALUES :: "8 word list" where
  "VALID_CLASS_VALUES = [CLASS_UNCLASSIFIED, CLASS_CAUTION, CLASS_LETHAL]"

text \<open>The loop of \<open>_flip_rows\<close>: row \<open>row\<close> is copied to its mirrored place in \<open>out\<close>.\<close>

definition flip_row :: "bytes \<Rightarrow> nat \<Rightarrow> nat \<Rightarrow> bytes \<Rightarrow> nat \<Rightarrow> bytes" where
  "flip_row pixels width height out row =
     (let source = row * width; destination = (height - 1 - row) * width in
      take destination out @ slice pixels source (source + width) @ drop (destination + width) out)"

definition flip_rows :: "bytes \<Rightarrow> nat \<Rightarrow> nat \<Rightarrow> bytes" where
  "flip_rows pixels width height =
     foldl (flip_row pixels width height) (replicate (length pixels) 0) [0..<height]"

definition reject_unsupported_values :: "bytes \<Rightarrow> unit result" where
  "reject_unsupported_values data =
     (if list_all (\<lambda>v. v \<in> set VALID_CLASS_VALUES) data then Inr ()
      else Inl (SemanticsError ''unsupported semantic class value(s)''))"

text \<open>\<open>except PngError\<close>: re-raised as \<open>SemanticsError\<close>; other exceptions pass.\<close>

definition png_to_semantics :: "'a result \<Rightarrow> 'a result" where
  "png_to_semantics r = (case r of Inl (PngError m) \<Rightarrow> Inl (SemanticsError m) | _ \<Rightarrow> r)"

definition encode_semantics_png ::
  "(bytes \<Rightarrow> bytes) \<Rightarrow> int \<Rightarrow> int \<Rightarrow> bytes \<Rightarrow> bytes result" where
  "encode_semantics_png compress width height grid_data =
     (if width \<le> 0 \<or> height \<le> 0 then Inl (SemanticsError ''semantic raster dimensions must be positive'')
      else if int (length grid_data) \<noteq> width * height
      then Inl (SemanticsError ''expected width * height class bytes'')
      else bind_result (reject_unsupported_values grid_data) (\<lambda>_.
        png_to_semantics (encode_grayscale_png compress width height
          (flip_rows grid_data (nat width) (nat height)))))"

definition decode_semantics_png ::
  "(bytes \<Rightarrow> bytes option) \<Rightarrow> bytes \<Rightarrow> int \<Rightarrow> int \<Rightarrow> bytes result" where
  "decode_semantics_png decompress data expected_width expected_height =
     bind_result (png_to_semantics (decode_grayscale_png decompress data)) (\<lambda>(width, height, image_order).
       if (width, height) \<noteq> (expected_width, expected_height)
       then Inl (SemanticsError ''semantics.png does not match the occupancy raster'')
       else (let grid_data = flip_rows image_order (nat width) (nat height) in
         bind_result (reject_unsupported_values grid_data) (\<lambda>_. Inr grid_data)))"

section \<open>Reading and writing\<close>

definition read_semantics ::
  "(bytes \<Rightarrow> bytes option) \<Rightarrow> map_store \<Rightarrow> string \<Rightarrow> int \<Rightarrow> int \<Rightarrow> bytes option result" where
  "read_semantics decompress st map_id expected_width expected_height =
     bind_result (safe_basename map_id) (\<lambda>name.
       case (case dirs_of Published st name of None \<Rightarrow> None | Some d \<Rightarrow> dict_get d SEMANTICS_NAME) of
         None \<Rightarrow> Inr None
       | Some data \<Rightarrow>
           if data = [] then Inl (SemanticsError ''semantics.png exists but is empty'')
           else bind_result (decode_semantics_png decompress data expected_width expected_height)
                  (\<lambda>grid_data. Inr (Some grid_data)))"

text \<open>The creation time of the previous manifest if it is a number, the current time otherwise.\<close>

definition kept_created :: "(pyval \<times> pyval) list option \<Rightarrow> pyfloat \<Rightarrow> pyval" where
  "kept_created manifest now =
     (case manifest of
        None \<Rightarrow> PFloat now
      | Some m \<Rightarrow> (case get_key m ''created'' of
            Some v \<Rightarrow> if is_number v then v else PFloat now
          | None \<Rightarrow> PFloat now))"

text \<open>
  \<open>write_semantics\<close>: \<open>semantics.png\<close> is replaced first, then \<open>manifest.json\<close>. Both
  replacements are atomic; the store is returned as it is when the call ends
  or raises.
\<close>

definition write_semantics ::
  "map_env \<Rightarrow> (bytes \<Rightarrow> bytes) \<Rightarrow> pyfloat \<Rightarrow> map_store \<Rightarrow> string \<Rightarrow> bytes \<Rightarrow> map_store \<times> unit result" where
  "write_semantics env compress now st map_id grid_data =
     (case validate_bundle env Published st map_id of
        Inl e \<Rightarrow> (st, Inl e)
      | Inr info \<Rightarrow>
          (case encode_semantics_png compress (bi_width info) (bi_height info) grid_data of
             Inl e \<Rightarrow> (st, Inl e)
           | Inr blob \<Rightarrow>
               (let d = (case dirs_of Published st map_id of None \<Rightarrow> [] | Some d \<Rightarrow> d);
                    d1 = dict_set d SEMANTICS_NAME blob;
                    st1 = st\<lparr>st_entries := dict_set (st_entries st) map_id (RDir d1)\<rparr>;
                    previous = read_manifest env d1;
                    created = kept_created previous now
                in case to_float created of
                     Inl e \<Rightarrow> (st1, Inl e)
                   | Inr created_at \<Rightarrow>
                       (let manifest = build_manifest env (manifest_text env previous ''session_id'') map_id d1 created created_at
                        in (st1\<lparr>st_entries := dict_set (st_entries st1) map_id
                                 (RDir (dict_set d1 MANIFEST_NAME (manifest_bytes env manifest)))\<rparr>, Inr ())))))"

section \<open>Flipping rows\<close>

definition rows_of :: "bytes \<Rightarrow> nat \<Rightarrow> nat \<Rightarrow> bytes list" where
  "rows_of px width height = map (\<lambda>r. slice px (r * width) (r * width + width)) [0..<height]"

lemma rows_of_lengths:
  assumes "length px = width * height" "r \<in> set (rows_of px width height)"
  shows "length r = width"
proof -
  obtain k where "k < height" "r = slice px (k * width) (k * width + width)"
    using assms(2) by (auto simp: rows_of_def)
  then show ?thesis using row_length [OF assms(1), of k] by (simp add: add.commute)
qed

lemma concat_rows_of:
  assumes "length px = width * height"
  shows "concat (rows_of px width height) = px"
proof -
  have "concat (map (\<lambda>r. slice px (r * width) (r * width + width)) [0..<k]) = take (k * width) px" if "k \<le> height" for k
    using that
  proof (induction k)
    case (Suc k)
    have e: "take (Suc k * width) px = take (k * width) px @ slice px (k * width) (k * width + width)"
      using take_add [of "k * width" width px] by (simp add: slice_def add.commute)
    have "concat (map (\<lambda>r. slice px (r * width) (r * width + width)) [0..<k]) = take (k * width) px"
      using Suc by simp
    then show ?case unfolding e by simp
  qed simp
  from this [of height] show ?thesis using assms by (simp add: rows_of_def mult.commute)
qed

lemma concat_uniform_length: "(\<And>r. r \<in> set rs \<Longrightarrow> length r = width) \<Longrightarrow> length (concat rs) = length rs * width"
  by (induction rs) auto

lemma rows_of_concat:
  assumes "length rs = height" "\<And>r. r \<in> set rs \<Longrightarrow> length r = width"
  shows "rows_of (concat rs) width height = rs"
proof -
  have "slice (concat rs) (k * width) (k * width + width) = rs ! k" if "k < height" for k
  proof -
    have "concat rs = concat (take k rs) @ rs ! k @ concat (drop (Suc k) rs)"
      using that assms(1) by (metis concat.simps(2) concat_append id_take_nth_drop)
    moreover have "length (concat (take k rs)) = k * width"
      using that assms(2) concat_uniform_length [of "take k rs" width] assms(1) by (auto dest: in_set_takeD)
    ultimately show ?thesis
      using slice_middle [of "k * width" "concat (take k rs)" "k * width + width" "rs ! k" "concat (drop (Suc k) rs)"]
        assms(2) [of "rs ! k"] assms(1) that by simp
  qed
  then show ?thesis using assms(1) by (intro nth_equalityI) (simp_all add: rows_of_def)
qed

lemma flip_rows_rev:
  assumes "length px = width * height"
  shows "flip_rows px width height = concat (rev (rows_of px width height))"
proof -
  let ?row = "\<lambda>r. slice px (r * width) (r * width + width)"
  let ?out = "\<lambda>k. foldl (flip_row px width height) (replicate (length px) 0) [0..<k]"
  have "length (?out k) = width * height \<and> drop ((height - k) * width) (?out k) = concat (rev (map ?row [0..<k]))"
    if "k \<le> height" for k
    using that
  proof (induction k)
    case 0
    then show ?case using assms by (simp add: mult.commute)
  next
    case (Suc k)
    let ?d = "(height - 1 - k) * width"
    have h: "height - k = Suc (height - 1 - k)" "height - 1 - k = height - Suc k" using Suc.prems by simp_all
    have d: "?d + width = (height - k) * width" using h(1) by simp
    have le: "?d + width \<le> width * height" unfolding d by (simp add: mult.commute)
    have row: "length (?row k) = width" using row_length [OF assms, of k] Suc.prems by (simp add: add.commute)
    have e: "?out (Suc k) = take ?d (?out k) @ ?row k @ drop (?d + width) (?out k)"
      by (simp add: flip_row_def Let_def)
    have "length (?out (Suc k)) = width * height" unfolding e using Suc le row by simp
    moreover have "drop ?d (?out (Suc k)) = ?row k @ drop ((height - k) * width) (?out k)"
      unfolding e d [symmetric] using Suc le by simp
    ultimately show ?case using Suc by (simp add: h(2))
  qed
  from this [of height] show ?thesis by (simp add: flip_rows_def rows_of_def)
qed

lemma flip_rows_length: "length px = width * height \<Longrightarrow> length (flip_rows px width height) = length px"
proof -
  assume l: "length px = width * height"
  have "length (concat (rev (rows_of px width height))) = length (concat (rows_of px width height))"
    by (simp add: length_concat rev_map [symmetric] sum_list_rev)
  then show ?thesis using l by (simp add: flip_rows_rev concat_rows_of)
qed

lemma flip_rows_involution:
  assumes "length px = width * height"
  shows "flip_rows (flip_rows px width height) width height = px"
proof -
  let ?rs = "rev (rows_of px width height)"
  have "length ?rs = height" by (simp add: rows_of_def)
  moreover have "length r = width" if "r \<in> set ?rs" for r using that rows_of_lengths [OF assms] by simp
  ultimately have "rows_of (concat ?rs) width height = ?rs" by (rule rows_of_concat)
  moreover have "length (concat ?rs) = width * height" using flip_rows_length [OF assms] assms by (simp add: flip_rows_rev)
  ultimately show ?thesis using assms by (simp add: flip_rows_rev concat_rows_of)
qed

lemma flip_rows_set:
  assumes "length px = width * height"
  shows "set (flip_rows px width height) = set px"
proof -
  have "set (concat (rev (rows_of px width height))) = set (concat (rows_of px width height))" by simp
  then show ?thesis using assms by (simp only: flip_rows_rev concat_rows_of)
qed

section \<open>Properties\<close>

lemma encoded_semantics_decode:
  assumes enc: "encode_semantics_png compress w h grid = Inr blob"
    and inflate: "\<And>raw. decompress (compress raw) = Some raw"
    and size: "\<And>raw. length raw = length grid + nat h \<Longrightarrow> compress raw \<noteq> []"
  shows "decode_semantics_png decompress blob w h = Inr grid"
proof -
  have g: "0 < w" "0 < h" "int (length grid) = w * h" "reject_unsupported_values grid = Inr ()"
    "encode_grayscale_png compress w h (flip_rows grid (nat w) (nat h)) = Inr blob"
    using enc by (auto simp: encode_semantics_png_def bind_result_Inr_iff png_to_semantics_def split: if_splits sum.splits py_error.splits)
  have n: "length grid = nat w * nat h" using g by (simp add: nat_product)
  let ?px = "flip_rows grid (nat w) (nat h)"
  have len: "length ?px = length grid" using flip_rows_length [OF n] .
  have "decode_grayscale_png decompress blob = Inr (w, h, ?px)"
    using encoded_decodes [OF g(5) inflate] size len by simp
  then show ?thesis
    using g(4) flip_rows_involution [OF n] by (simp add: decode_semantics_png_def png_to_semantics_def)
qed

lemma write_semantics_dirs:
  assumes "write_semantics env compress now st map_id grid = (st', Inr ())"
  obtains info d blob created_at where "validate_bundle env Published st map_id = Inr info" "dirs_of Published st map_id = Some d"
    "encode_semantics_png compress (bi_width info) (bi_height info) grid = Inr blob"
    "dirs_of Published st' = (dirs_of Published st)(map_id \<mapsto> dict_set (dict_set d SEMANTICS_NAME blob) MANIFEST_NAME
       (manifest_bytes env (build_manifest env (manifest_text env (read_manifest env d) ''session_id'') map_id
          (dict_set d SEMANTICS_NAME blob) (kept_created (read_manifest env d) now) created_at)))"
proof -
  obtain info where v: "validate_bundle env Published st map_id = Inr info"
    using assms by (cases "validate_bundle env Published st map_id") (simp_all add: write_semantics_def)
  obtain blob where b: "encode_semantics_png compress (bi_width info) (bi_height info) grid = Inr blob"
    using assms v by (cases "encode_semantics_png compress (bi_width info) (bi_height info) grid") (simp_all add: write_semantics_def)
  obtain d where d: "dirs_of Published st map_id = Some d"
    using v by (auto simp: validate_bundle_def bind_result_Inr_iff safe_basename_def split: if_splits option.splits)
  have m: "read_manifest env (dict_set d SEMANTICS_NAME blob) = read_manifest env d"
    by (simp add: read_manifest_def dict_get_set file_names)
  obtain ca where ca: "to_float (kept_created (read_manifest env d) now) = Inr ca"
    using assms v b d m by (cases "to_float (kept_created (read_manifest env d) now)") (simp_all add: write_semantics_def Let_def)
  have "dirs_of Published st' = (dirs_of Published st)(map_id \<mapsto> dict_set (dict_set d SEMANTICS_NAME blob) MANIFEST_NAME
       (manifest_bytes env (build_manifest env (manifest_text env (read_manifest env d) ''session_id'') map_id
          (dict_set d SEMANTICS_NAME blob) (kept_created (read_manifest env d) now) ca)))"
    using assms v b d m ca by (auto simp: write_semantics_def Let_def dict_get_set fun_eq_iff)
  then show ?thesis using that v b d by blast
qed

text \<open>
  C40. Writing a semantic layer and reading it back returns the same classes,
  and the map stays selectable: its bundle validates with unchanged dimensions
  and no other map is touched. \<open>zlib\<close> is assumed to inflate what it deflated, the
  YAML document to name the occupancy raster and the JSON reader to read back
  the manifest.
\<close>

theorem semantics_roundtrip:
  assumes w: "write_semantics env compress now st map_id grid = (st', Inr ())"
    and v: "validate_bundle env Published st map_id = Inr info"
    and inflate: "\<And>raw. decompress (compress raw) = Some raw" and nonempty: "\<And>raw. compress raw \<noteq> []"
    and yaml: "\<And>d content meta. dirs_of Published st map_id = Some d \<Longrightarrow> dict_get d MAP_YAML_NAME = Some content \<Longrightarrow>
        parse_map_yaml env content = Inr meta \<Longrightarrow> mt_image meta = OCCUPANCY_NAME"
    and json: "\<And>d blob t m. dirs_of Published st map_id = Some d \<Longrightarrow>
        encode_semantics_png compress (bi_width info) (bi_height info) grid = Inr blob \<Longrightarrow>
        m = build_manifest env (bi_session_id info) map_id (dict_set d SEMANTICS_NAME blob)
              (kept_created (read_manifest env d) now) t \<Longrightarrow>
        me_read_json env (manifest_bytes env m) = Some (sort_keys (PDict m))"
  shows "read_semantics decompress st' map_id (bi_width info) (bi_height info) = Inr (Some grid)
    \<and> (\<exists>info'. validate_bundle env Published st' map_id = Inr info' \<and> bi_width info' = bi_width info
         \<and> bi_height info' = bi_height info \<and> bi_session_id info' = bi_session_id info)
    \<and> (\<forall>m. m \<noteq> map_id \<longrightarrow> dirs_of Published st' m = dirs_of Published st m)"
proof -
  obtain d blob ca where d: "dirs_of Published st map_id = Some d"
    "encode_semantics_png compress (bi_width info) (bi_height info) grid = Inr blob"
    and st': "dirs_of Published st' = (dirs_of Published st)(map_id \<mapsto> dict_set (dict_set d SEMANTICS_NAME blob) MANIFEST_NAME
       (manifest_bytes env (build_manifest env (manifest_text env (read_manifest env d) ''session_id'') map_id
          (dict_set d SEMANTICS_NAME blob) (kept_created (read_manifest env d) now) ca)))"
    using write_semantics_dirs [OF w] v by (metis sum.inject(2))
  have name: "safe_basename map_id = Inr map_id"
    using v by (auto simp: validate_bundle_def bind_result_Inr_iff safe_basename_def split: if_splits)
  have vd: "validate_dir env Published map_id d = Inr info" using v d(1) name by (simp add: validate_bundle_def)
  have dec: "decode_semantics_png decompress blob (bi_width info) (bi_height info) = Inr grid"
    by (rule encoded_semantics_decode [OF d(2) inflate]) (simp add: nonempty)
  have "blob \<noteq> []" using dec by (auto simp: decode_semantics_png_def png_to_semantics_def decode_grayscale_png_def SIGNATURE_def)
  then have "read_semantics decompress st' map_id (bi_width info) (bi_height info) = Inr (Some grid)"
    using name st' dec by (simp add: read_semantics_def dict_get_set file_names)
  moreover have sid: "bi_session_id info = manifest_text env (read_manifest env d) ''session_id''"
    using vd unfolding validate_dir_iff by blast
  moreover have "\<exists>info'. validate_dir env Published map_id (the (dirs_of Published st' map_id)) = Inr info'
      \<and> bi_width info' = bi_width info \<and> bi_height info' = bi_height info
      \<and> bi_session_id info' = manifest_text env (read_manifest env d) ''session_id''"
  proof -
    let ?d = "dict_set d SEMANTICS_NAME blob" and ?s = "manifest_text env (read_manifest env d) ''session_id''"
      and ?c = "kept_created (read_manifest env d) now"
    have core: "dict_get ?d f = dict_get d f" if "f \<in> set CORE_FILENAMES" for f
      using that manifest_not_core(2) by (auto simp: dict_get_set)
    have "me_read_json env (manifest_bytes env (build_manifest env ?s map_id ?d ?c ca))
        = Some (sort_keys (PDict (build_manifest env ?s map_id ?d ?c ca)))"
      using json [OF d refl, of ca] sid by simp
    moreover have "mt_image meta = OCCUPANCY_NAME" if "parse_map_yaml env (the (dict_get d MAP_YAML_NAME)) = Inr meta" for meta
    proof -
      have "nonempty_file d MAP_YAML_NAME" using vd unfolding validate_dir_iff by blast
      then obtain content where "dict_get d MAP_YAML_NAME = Some content" by (auto simp: nonempty_file_def split: option.splits)
      then show ?thesis using yaml [OF d(1)] that by simp
    qed
    ultimately show ?thesis using remanifest_valid [OF vd core _ _ refl, of ?s ?c ca Published] by (simp add: st')
  qed
  ultimately show ?thesis using name st' by (auto simp: validate_bundle_def)
qed

definition demo_blob :: bytes where
  "demo_blob = (case encode_semantics_png stored 2 2 [0, 1, 2, 0] of Inr b \<Rightarrow> b | Inl e \<Rightarrow> [])"

definition demo_sem_manifest :: "(pyval \<times> pyval) list" where
  "demo_sem_manifest = build_manifest demo_base [] ''kitchen''
     (dict_set (the (dirs_of Published demo_pub_store ''kitchen'')) SEMANTICS_NAME demo_blob) (PFloat (Fin 0)) (Fin 0)"

definition demo_sem_env :: map_env where
  "demo_sem_env = demo_base\<lparr>me_read_json := (\<lambda>_. Some (sort_keys (PDict demo_sem_manifest)))\<rparr>"

lemma demo_blob: "encode_semantics_png stored 2 2 [0, 1, 2, 0] = Inr demo_blob"
proof -
  have "length (flip_rows [0, 1, 2, 0 :: 8 word] 2 2) = 4" by (subst flip_rows_length) simp_all
  then obtain b where "encode_grayscale_png stored 2 2 (flip_rows [0, 1, 2, 0] 2 2) = Inr b"
    using encode_total [of 2 2 "flip_rows [0, 1, 2, 0] 2 2" stored] by (auto simp: stored_def)
  then have "\<exists>b. encode_semantics_png stored 2 2 [0, 1, 2, 0] = Inr b"
    by (simp add: encode_semantics_png_def png_to_semantics_def reject_unsupported_values_def VALID_CLASS_VALUES_def
        CLASS_UNCLASSIFIED_def CLASS_CAUTION_def CLASS_LETHAL_def)
  then show ?thesis by (auto simp: demo_blob_def)
qed

theorem semantics_roundtrip_witness:
  "read_semantics unstored (fst (write_semantics demo_sem_env stored (Fin 0) demo_pub_store ''kitchen'' [0, 1, 2, 0])) ''kitchen'' 2 2
     = Inr (Some [0, 1, 2, 0])"
proof -
  let ?i = "\<lparr> bi_name = ''kitchen'', bi_revision = [], bi_session_id = [], bi_resolution = Fin (1 / 16), bi_width = 2, bi_height = 2 \<rparr>"
  have v: "validate_bundle demo_sem_env Published demo_pub_store ''kitchen'' = Inr ?i"
    unfolding demo_sem_env_def by (rule demo_pub_valid)
  obtain d where d: "dirs_of Published demo_pub_store ''kitchen'' = Some d" "dict_get d MANIFEST_NAME = None"
    by (simp add: demo_pub_store_def dict_get_def file_names)
  then have m: "read_manifest e d = None" "read_manifest e (dict_set d SEMANTICS_NAME b) = None" for e b
    by (simp_all add: read_manifest_def dict_get_set file_names)
  obtain st' where w: "write_semantics demo_sem_env stored (Fin 0) demo_pub_store ''kitchen'' [0, 1, 2, 0] = (st', Inr ())"
    using v demo_blob d m by (simp add: write_semantics_def kept_created_def Let_def)
  have "read_semantics unstored st' ''kitchen'' (bi_width ?i) (bi_height ?i) = Inr (Some [0, 1, 2, 0])
    \<and> (\<exists>info'. validate_bundle demo_sem_env Published st' ''kitchen'' = Inr info' \<and> bi_width info' = bi_width ?i
         \<and> bi_height info' = bi_height ?i \<and> bi_session_id info' = bi_session_id ?i)
    \<and> (\<forall>m. m \<noteq> ''kitchen'' \<longrightarrow> dirs_of Published st' m = dirs_of Published demo_pub_store m)"
  proof (rule semantics_roundtrip [OF w v, where decompress = unstored], goal_cases)
    case (3 d' content meta)
    then show ?case
      by (auto simp: parse_map_yaml_def parse_map_document_def demo_sem_env_def demo_base_def get_key_def
          float_of_int_def OCCUPANCY_NAME_def)
  next
    case (4 d' blob t c)
    then have "c = demo_sem_manifest" using d m demo_blob
      by (simp add: demo_sem_manifest_def kept_created_def demo_sem_env_def build_manifest_def artifacts_of_def)
         (simp add: demo_base_def)
    then show ?case by (simp add: demo_sem_env_def)
  qed (simp_all add: stored_def unstored_def)
  then show ?thesis using w by simp
qed

text \<open>
  A semantic layer that is read has exactly one class byte per cell of the
  expected raster and only known classes; anything else raises or reads as absent.
\<close>

theorem read_classes_are_valid:
  assumes "read_semantics decompress st map_id w h = Inr (Some grid)"
  shows "int (length grid) = w * h \<and> set grid \<subseteq> {CLASS_UNCLASSIFIED, CLASS_CAUTION, CLASS_LETHAL}"
proof -
  obtain data px where p: "decode_grayscale_png decompress data = Inr (w, h, px)" "grid = flip_rows px (nat w) (nat h)"
    "reject_unsupported_values grid = Inr ()"
    using assms
    by (auto simp: read_semantics_def decode_semantics_png_def png_to_semantics_def bind_result_Inr_iff Let_def
        split: option.splits if_splits sum.splits py_error.splits)
  have "0 \<le> w" "0 \<le> h" "int (length px) = w * h" using decode_size [OF p(1)] by simp_all
  then have "length px = nat w * nat h" by (simp add: nat_product)
  then have "length grid = length px" using p(2) flip_rows_length by simp
  then show ?thesis
    using p(3) \<open>int (length px) = w * h\<close>
    by (auto simp: reject_unsupported_values_def VALID_CLASS_VALUES_def list_all_iff split: if_splits)
qed

theorem read_classes_are_valid_witness:
  "\<exists>st. read_semantics unstored st ''kitchen'' 2 2 = Inr (Some [0, 1, 2, 0])
     \<and> set [0, 1, 2, 0 :: 8 word] \<subseteq> {CLASS_UNCLASSIFIED, CLASS_CAUTION, CLASS_LETHAL}"
proof -
  let ?st = "\<lparr> st_exists = True, st_entries = [(''kitchen'', RDir [(SEMANTICS_NAME, demo_blob)])], st_staging = [] \<rparr>"
  have "decode_semantics_png unstored demo_blob 2 2 = Inr [0, 1, 2, 0]"
    by (rule encoded_semantics_decode [OF demo_blob]) (simp_all add: stored_def unstored_def)
  moreover from this have "demo_blob \<noteq> []"
    by (auto simp: decode_semantics_png_def png_to_semantics_def decode_grayscale_png_def SIGNATURE_def)
  ultimately have r: "read_semantics unstored ?st ''kitchen'' 2 2 = Inr (Some [0, 1, 2, 0])"
    by (simp add: read_semantics_def safe_basename_kitchen dict_get_def)
  show ?thesis using r read_classes_are_valid [OF r] by blast
qed

end
