(* ===== verification/ModeRuntime.thy ===== *)
theory ModeRuntime
  imports StateMachine MapStore
begin

text \<open>
  The mode runtime (\<open>ModeRuntime\<close> of \<open>runner_paddock/mode_runtime.py\<close>): it stops
  and starts the mapping and autonomy systemd units and publishes the actual
  mode. What it reads from systemd, the ROS graph and the readiness callbacks
  are inputs: each waiting loop takes the list of the observations it makes
  before its deadline, so an empty rest is the deadline. What it does (stop,
  start, publications, the map file) is recorded in order. The long dash of
  the progress texts is written \<open>--\<close>.
\<close>

section \<open>Units, nodes and state\<close>

datatype mode_unit = MAPPING_UNIT | AUTONOMY_UNIT

fun unit_name :: "mode_unit \<Rightarrow> string" where
  "unit_name MAPPING_UNIT = ''runner-mode-mapping.service''"
| "unit_name AUTONOMY_UNIT = ''runner-mode-autonomy.service''"

definition MODE_UNITS :: "mode_unit list" where "MODE_UNITS = [MAPPING_UNIT, AUTONOMY_UNIT]"

definition COMMON_NODES :: "string list" where
  "COMMON_NODES = [''/LD19'', ''/base_link_to_base_laser'', ''/base_link_to_imu_link'', ''/bno085'', ''/ekf_node'',
     ''/rf2o_laser_odometry'', ''/rf2o_scan_canonicalizer'', ''/scan_rebinner'', ''/slam_toolbox'']"

definition PERSISTENT_LOCAL_NODES :: "string list" where
  "PERSISTENT_LOCAL_NODES = [''/drive_adapter'', ''/joy_node'', ''/runner_teleop'', ''/twist_mux'', ''/runner_stop_enforcer'']"

definition AUTONOMY_ONLY_NODES :: "string list" where
  "AUTONOMY_ONLY_NODES = [''/map_server'', ''/planner_server'', ''/controller_server'', ''/bt_navigator'',
     ''/bt_navigator_navigate_to_pose_rclcpp_node'', ''/bt_navigator_navigate_through_poses_rclcpp_node'',
     ''/global_costmap/global_costmap'', ''/local_costmap/local_costmap'', ''/lifecycle_manager_navigation'',
     ''/runner_navigation_runtime'', ''/speed_envelope_observer'']"

definition MODE_NODES :: "string list" where "MODE_NODES = COMMON_NODES @ AUTONOMY_ONLY_NODES"

datatype lifecycle = STABLE | TRANSITIONING | FAULT

record unit_state =
  us_active_state :: string
  us_sub_state :: string
  us_main_pid :: int
  us_control_group :: string
  us_processes :: "(int \<times> string) list"

definition us_active :: "unit_state \<Rightarrow> bool" where
  "us_active u = (us_active_state u = ''active'' \<and> us_sub_state u = ''running'')"

definition cleanly_inactive :: "unit_state \<Rightarrow> bool" where
  "cleanly_inactive u = (us_main_pid u = 0 \<and> \<not> truthy (us_control_group u))"

text \<open>\<open>SystemdManager.state\<close>: a reading, or the text of the \<open>RuntimeError\<close> it raises.\<close>

type_synonym unit_reading = "string + unit_state"

definition read_unit :: "unit_reading \<Rightarrow> unit_state result" where
  "read_unit r = (case r of Inl reason \<Rightarrow> Inl (RuntimeError reason) | Inr u \<Rightarrow> Inr u)"

record runtime_state =
  rs_mode :: mode
  rs_lifecycle :: lifecycle
  rs_accepted_request_id :: int
  rs_active_autonomy_map :: string
  rs_detail :: string
  rs_runtime_epoch :: int
  rs_mapping_session_id :: string
  rs_ready :: bool
  rs_readiness_reason :: string

datatype mode_effect =
    ME_stop mode_unit
  | ME_start mode_unit
  | ME_publish runtime_state
  | ME_write_map string
  | ME_quiesce
  | ME_raise py_error

record mode_rt =
  rt_state :: runtime_state
  rt_map_file :: "string option"
  rt_effects :: "mode_effect list"

definition new_mode_rt :: "string option \<Rightarrow> mode_rt" where
  "new_mode_rt map_file =
     \<lparr> rt_state = \<lparr> rs_mode = MODE_IDLE, rs_lifecycle = STABLE, rs_accepted_request_id = 0,
         rs_active_autonomy_map = [], rs_detail = [], rs_runtime_epoch = 0, rs_mapping_session_id = [],
         rs_ready = True, rs_readiness_reason = [] \<rparr>,
       rt_map_file = map_file, rt_effects = [] \<rparr>"

definition act :: "mode_rt \<Rightarrow> mode_effect \<Rightarrow> mode_rt" where
  "act rt e = rt\<lparr>rt_effects := rt_effects rt @ [e]\<rparr>"

text \<open>\<open>_set\<close>: the changed state is stored and published.\<close>

definition set_state :: "mode_rt \<Rightarrow> runtime_state \<Rightarrow> mode_rt" where
  "set_state rt s = (act rt (ME_publish s))\<lparr>rt_state := s\<rparr>"

fun mode_name :: "mode \<Rightarrow> string" where
  "mode_name MODE_IDLE = ''IDLE''"
| "mode_name MODE_MAPPING = ''MAPPING''"
| "mode_name MODE_AUTONOMY = ''AUTONOMY''"

definition suffix_text :: "string \<Rightarrow> string" where
  "suffix_text last_reason = (if truthy last_reason then '': '' @ last_reason else [])"

definition or_else :: "string \<Rightarrow> string \<Rightarrow> string" where
  "or_else t u = (if truthy t then t else u)"

definition transition_progress :: "mode_rt \<Rightarrow> string \<Rightarrow> mode_rt" where
  "transition_progress rt detail =
     (if detail \<noteq> rs_detail (rt_state rt)
      then set_state rt ((rt_state rt)\<lparr>rs_detail := detail, rs_readiness_reason := detail\<rparr>) else rt)"

section \<open>Stopping\<close>

text \<open>Two readings of each unit: the first, and one with process details when it was not clean.\<close>

record cleanup_obs =
  co_first :: "mode_unit \<Rightarrow> unit_reading"
  co_second :: "mode_unit \<Rightarrow> unit_reading"

definition blocker_text :: "mode_unit \<Rightarrow> unit_state \<Rightarrow> string" where
  "blocker_text u s =
     (let listed = join '', '' (map (\<lambda>(pid, command). ''PID '' @ str_of_int pid @ '' '' @ command) (us_processes s));
          processes = (if truthy listed then listed
                       else if us_main_pid s \<noteq> 0 then ''MainPID '' @ str_of_int (us_main_pid s)
                       else ''no process details available'')
      in unit_name u @ '' '' @ us_active_state s @ ''/'' @ us_sub_state s @ '', cgroup ''
         @ or_else (us_control_group s) ''<no cgroup reported>'' @ '': '' @ processes)"

fun cleanup_blockers :: "cleanup_obs \<Rightarrow> mode_unit list \<Rightarrow> string list result" where
  "cleanup_blockers obs [] = Inr []"
| "cleanup_blockers obs (u # us) =
     bind_result (read_unit (co_first obs u)) (\<lambda>s.
       if cleanly_inactive s then cleanup_blockers obs us
       else bind_result (read_unit (co_second obs u)) (\<lambda>s'.
         if cleanly_inactive s' then cleanup_blockers obs us
         else bind_result (cleanup_blockers obs us) (\<lambda>rest. Inr (blocker_text u s' # rest))))"

definition unit_cleanup_status :: "cleanup_obs \<Rightarrow> (bool \<times> string) result" where
  "unit_cleanup_status obs =
     bind_result (cleanup_blockers obs MODE_UNITS) (\<lambda>blockers. Inr (blockers = [], join ''; '' blockers))"

fun wait_for_unit_cleanup ::
  "bool \<Rightarrow> string \<Rightarrow> mode_rt \<Rightarrow> cleanup_obs list \<Rightarrow> mode_rt \<times> unit result" where
  "wait_for_unit_cleanup progress last_reason rt [] =
     (rt, Inl (RuntimeError (''timed out waiting for empty mode cgroups'' @ suffix_text last_reason)))"
| "wait_for_unit_cleanup progress last_reason rt (obs # rest) =
     (case unit_cleanup_status obs of
        Inl e \<Rightarrow> (rt, Inl e)
      | Inr (clean, reason) \<Rightarrow>
          if clean then (rt, Inr ())
          else if progress \<and> reason \<noteq> last_reason
          then wait_for_unit_cleanup progress reason
                 (transition_progress rt (''Stopping previous runtime -- waiting for '' @ reason)) rest
          else wait_for_unit_cleanup progress last_reason rt rest)"

type_synonym graph_counts = "string \<Rightarrow> nat"

definition resources_gone :: "graph_counts \<Rightarrow> bool" where
  "resources_gone counts = list_all (\<lambda>node. counts node = 0) MODE_NODES"

definition wait_resources_gone :: "graph_counts list \<Rightarrow> unit result" where
  "wait_resources_gone polls =
     (if list_ex resources_gone polls then Inr ()
      else Inl (RuntimeError ''timed out waiting for mode-scoped ROS resources to disappear''))"

text \<open>What one \<open>_stop_all\<close> meets: errors of the stop calls, the cleanup polls, the graph polls.\<close>

record stop_world =
  sw_stop :: "mode_unit \<Rightarrow> string option"
  sw_cleanup :: "cleanup_obs list"
  sw_graph :: "graph_counts list"

definition stop_all :: "bool \<Rightarrow> stop_world \<Rightarrow> mode_rt \<Rightarrow> mode_rt \<times> unit result" where
  "stop_all progress w rt =
     (let rt1 = (if progress then transition_progress rt ''Stopping previous runtime -- requesting service stop'' else rt);
          rt2 = foldl (\<lambda>r u. act r (ME_stop u)) rt1 MODE_UNITS;
          errors = List.map_filter (sw_stop w) MODE_UNITS
      in if errors \<noteq> [] then (rt2, Inl (RuntimeError (join ''; '' errors)))
         else (case wait_for_unit_cleanup progress [] rt2 (sw_cleanup w) of
             (rt3, Inl e) \<Rightarrow> (rt3, Inl e)
           | (rt3, Inr _) \<Rightarrow>
               (let rt4 = (if progress then transition_progress rt3
                      ''Stopping previous runtime -- waiting for ROS graph cleanup'' else rt3)
                in (rt4, wait_resources_gone (sw_graph w)))))"

section \<open>Readiness\<close>

record ready_obs =
  ro_unit :: unit_reading
  ro_graph :: graph_counts
  ro_ownership :: bool
  ro_capability :: "bool \<times> string"

definition unit_of_mode :: "mode \<Rightarrow> mode_unit" where
  "unit_of_mode m = (if m = MODE_MAPPING then MAPPING_UNIT else AUTONOMY_UNIT)"

definition required_nodes :: "mode \<Rightarrow> string list" where
  "required_nodes m = COMMON_NODES @ PERSISTENT_LOCAL_NODES @ (if m = MODE_AUTONOMY then AUTONOMY_ONLY_NODES else [])"

definition forbidden_nodes :: "mode \<Rightarrow> string list" where
  "forbidden_nodes m = (if m = MODE_MAPPING then AUTONOMY_ONLY_NODES else [])"

definition structural_reason :: "ready_obs \<Rightarrow> mode \<Rightarrow> string result" where
  "structural_reason obs m =
     bind_result (read_unit (ro_unit obs)) (\<lambda>u.
       if \<not> us_active u then Inr (unit_name (unit_of_mode m) @ '' is not active/running'')
       else (let missing = sort (filter (\<lambda>n. ro_graph obs n < 1) (required_nodes m));
                 present_forbidden = sort (filter (\<lambda>n. ro_graph obs n \<noteq> 0) (forbidden_nodes m))
             in if missing \<noteq> [] then Inr (''missing node(s): '' @ join '', '' missing)
                else if present_forbidden \<noteq> [] then Inr (''unexpected node(s): '' @ join '', '' present_forbidden)
                else if \<not> ro_ownership obs then Inr ''single-writer ownership check failed''
                else Inr []))"

definition fully_ready :: "ready_obs \<Rightarrow> mode \<Rightarrow> (bool \<times> string) result" where
  "fully_ready obs m =
     bind_result (structural_reason obs m) (\<lambda>reason.
       if truthy reason then Inr (False, reason)
       else (let (ok, capability_reason) = ro_capability obs
             in Inr (ok, if ok then [] else or_else capability_reason ''capability not ready'')))"

fun wait_for_readiness :: "mode \<Rightarrow> string \<Rightarrow> mode_rt \<Rightarrow> ready_obs list \<Rightarrow> mode_rt \<times> unit result" where
  "wait_for_readiness m last_reason rt [] =
     (rt, Inl (RuntimeError (''timed out waiting for '' @ mode_name m @ '' readiness'' @ suffix_text last_reason)))"
| "wait_for_readiness m last_reason rt (obs # rest) =
     (case fully_ready obs m of
        Inl e \<Rightarrow> (rt, Inl e)
      | Inr (ok, reason) \<Rightarrow>
          if ok then (rt, Inr ())
          else if reason \<noteq> last_reason
          then wait_for_readiness m reason (transition_progress rt (''Starting '' @ mode_name m @ '' -- '' @ reason)) rest
          else wait_for_readiness m last_reason rt rest)"

fun wait_for_quiescence :: "string \<Rightarrow> mode_rt \<Rightarrow> (bool \<times> string) list \<Rightarrow> mode_rt \<times> unit result" where
  "wait_for_quiescence last_reason rt [] =
     (rt, Inl (RuntimeError (''timed out waiting for confirmed stationary state'' @ suffix_text last_reason)))"
| "wait_for_quiescence last_reason rt ((ok, reason) # rest) =
     (if ok then (rt, Inr ())
      else if reason \<noteq> last_reason
      then wait_for_quiescence reason
             (transition_progress rt (''Resetting MAPPING -- '' @ or_else reason ''waiting for motion to become safe'')) rest
      else wait_for_quiescence last_reason rt rest)"

definition refresh :: "ready_obs \<Rightarrow> mode_rt \<Rightarrow> mode_rt" where
  "refresh obs rt =
     (let s = rt_state rt in
      if rs_lifecycle s \<noteq> STABLE then (if rs_ready s then set_state rt (s\<lparr>rs_ready := False\<rparr>) else rt)
      else if rs_mode s = MODE_IDLE
      then (if \<not> rs_ready s \<or> truthy (rs_readiness_reason s)
            then set_state rt (s\<lparr>rs_ready := True, rs_readiness_reason := []\<rparr>) else rt)
      else case fully_ready obs (rs_mode s) of
          Inl e \<Rightarrow> act rt (ME_raise e)
        | Inr (ok, reason) \<Rightarrow>
            if ok \<noteq> rs_ready s \<or> reason \<noteq> rs_readiness_reason s
            then set_state rt (s\<lparr>rs_ready := ok, rs_readiness_reason := reason\<rparr>) else rt)"

section \<open>Transitions\<close>

text \<open>\<open>str(error)\<close> and the exceptions caught by \<open>except (OSError, RuntimeError, ValueError)\<close>.\<close>

fun err_text :: "py_error \<Rightarrow> string" where
  "err_text (ValueError t) = t"
| "err_text (RuntimeError t) = t"
| "err_text (OSError t) = t"
| "err_text (MapError t) = t"
| "err_text _ = []"

fun caught :: "py_error \<Rightarrow> bool" where
  "caught (OSError t) = True"
| "caught (RuntimeError t) = True"
| "caught (ValueError t) = True"
| "caught (MapError t) = True"
| "caught (PngError t) = True"
| "caught (SemanticsError t) = True"
| "caught _ = False"

definition fail_mode :: "stop_world \<Rightarrow> mode_rt \<Rightarrow> string \<Rightarrow> mode_rt" where
  "fail_mode w rt detail =
     (let (rt1, stopped) = stop_all False w rt;
          cleanup = (case stopped of Inl e \<Rightarrow> ''; cleanup failed: '' @ err_text e | Inr _ \<Rightarrow> [])
      in set_state rt1 ((rt_state rt1)\<lparr>rs_mode := MODE_IDLE, rs_lifecycle := FAULT, rs_detail := detail @ cleanup,
           rs_mapping_session_id := [], rs_ready := False, rs_readiness_reason := detail\<rparr>))"

text \<open>
  What a transition meets after its preconditions: stopping, the map store and
  the write of the map file, the start call, readiness polls, the final
  readiness reading and the text of the session id factory; and, for a
  failure, the stopping done then.
\<close>

record transition_world =
  tw_quiescence :: "(bool \<times> string) list"
  tw_previous :: ready_obs
  tw_stop :: stop_world
  tw_env :: map_env
  tw_maps :: map_store
  tw_write_raises :: "string option"
  tw_start_raises :: "string option"
  tw_ready :: "ready_obs list"
  tw_final :: ready_obs
  tw_session :: string
  tw_fail :: stop_world

definition stored_map :: "mode_rt \<Rightarrow> string" where
  "stored_map rt = (case rt_map_file rt of None \<Rightarrow> [] | Some text \<Rightarrow> py_strip text)"

definition write_map :: "transition_world \<Rightarrow> mode_rt \<Rightarrow> string \<Rightarrow> mode_rt \<times> unit result" where
  "write_map w rt basename =
     (case tw_write_raises w of
        Some reason \<Rightarrow> (rt, Inl (OSError reason))
      | None \<Rightarrow> ((act rt (ME_write_map basename))\<lparr>rt_map_file := Some (basename @ [CHR 0x0A])\<rparr>, Inr ()))"

text \<open>The choice of the unit, with validation and the map file for AUTONOMY.\<close>

definition select_unit :: "transition_world \<Rightarrow> mode_rt \<Rightarrow> mode \<Rightarrow> string \<Rightarrow> mode_rt \<times> mode_unit result" where
  "select_unit w rt requested autonomy_map =
     (if requested = MODE_AUTONOMY
      then (let rt1 = transition_progress rt (''Validating selected map -- '' @ autonomy_map) in
            case validate_bundle (tw_env w) Published (tw_maps w) autonomy_map of
              Inl e \<Rightarrow> (rt1, Inl e)
            | Inr _ \<Rightarrow>
                (case write_map w rt1 autonomy_map of
                   (rt2, Inl e) \<Rightarrow> (rt2, Inl e)
                 | (rt2, Inr _) \<Rightarrow> (rt2, Inr AUTONOMY_UNIT)))
      else (rt, Inr MAPPING_UNIT))"

definition start_unit :: "transition_world \<Rightarrow> mode_rt \<Rightarrow> mode \<Rightarrow> mode_unit \<Rightarrow> mode_rt \<times> unit result" where
  "start_unit w rt requested u =
     (let rt1 = act (transition_progress rt (''Starting '' @ mode_name requested @ '' -- requesting '' @ unit_name u)) (ME_start u)
      in case tw_start_raises w of
           Some reason \<Rightarrow> (rt1, Inl (RuntimeError reason))
         | None \<Rightarrow>
             wait_for_readiness requested []
               (transition_progress rt1 (''Starting '' @ mode_name requested @ '' -- waiting for runtime readiness'')) (tw_ready w))"

text \<open>The \<open>try\<close> block of a transition.\<close>

definition perform :: "transition_world \<Rightarrow> mode_rt \<Rightarrow> mode \<Rightarrow> string \<Rightarrow> mode_rt \<times> unit result" where
  "perform w rt requested autonomy_map =
     (case stop_all True (tw_stop w) rt of
        (rt1, Inl e) \<Rightarrow> (rt1, Inl e)
      | (rt1, Inr _) \<Rightarrow>
          if requested = MODE_IDLE
          then (set_state rt1 ((rt_state rt1)\<lparr>rs_mode := MODE_IDLE, rs_lifecycle := STABLE, rs_detail := [],
                  rs_mapping_session_id := [], rs_ready := True, rs_readiness_reason := []\<rparr>), Inr ())
          else (case select_unit w rt1 requested autonomy_map of
              (rt2, Inl e) \<Rightarrow> (rt2, Inl e)
            | (rt2, Inr u) \<Rightarrow>
                (case start_unit w rt2 requested u of
                   (rt3, Inl e) \<Rightarrow> (rt3, Inl e)
                 | (rt3, Inr _) \<Rightarrow>
                     (case fully_ready (tw_final w) requested of
                        Inl e \<Rightarrow> (rt3, Inl e)
                      | Inr (ok, reason) \<Rightarrow>
                          (let s = rt_state rt3; epoch = rs_runtime_epoch s + 1;
                               s1 = s\<lparr>rs_mode := requested, rs_lifecycle := STABLE, rs_detail := [],
                                 rs_runtime_epoch := epoch,
                                 rs_mapping_session_id := (if requested = MODE_MAPPING
                                   then str_of_int epoch @ ''-'' @ tw_session w else []),
                                 rs_ready := ok, rs_readiness_reason := reason\<rparr>
                           in (set_state rt3 (if requested = MODE_AUTONOMY
                                 then s1\<lparr>rs_active_autonomy_map := autonomy_map\<rparr> else s1), Inr ()))))))"

definition perform_or_fail :: "transition_world \<Rightarrow> mode_rt \<Rightarrow> mode \<Rightarrow> string \<Rightarrow> mode_rt" where
  "perform_or_fail w rt requested autonomy_map =
     (case perform w rt requested autonomy_map of
        (rt1, Inr _) \<Rightarrow> rt1
      | (rt1, Inl e) \<Rightarrow>
          if caught e then fail_mode (tw_fail w) rt1 (mode_name requested @ '' transition failed: '' @ err_text e)
          else act rt1 (ME_raise e))"

definition OP_NEW_MAP :: int where "OP_NEW_MAP = 1"

definition mode_transition ::
  "transition_world \<Rightarrow> mode_rt \<Rightarrow> mode \<Rightarrow> int \<Rightarrow> string \<Rightarrow> int \<Rightarrow> mode_rt" where
  "mode_transition w rt requested request_id autonomy_map operation =
     (let s = rt_state rt;
          new_map = (operation = OP_NEW_MAP \<and> requested = MODE_MAPPING);
          same_selection = (requested \<noteq> MODE_AUTONOMY \<or> autonomy_map = rs_active_autonomy_map s)
      in if request_id \<le> rs_accepted_request_id s then rt
         else if requested = MODE_AUTONOMY \<and> \<not> truthy autonomy_map
         then set_state rt (s\<lparr>rs_accepted_request_id := request_id, rs_detail := ''AUTONOMY needs a selected map''\<rparr>)
         else if new_map \<and> \<not> (rs_lifecycle s = STABLE \<and> rs_mode s = MODE_MAPPING \<and> truthy (rs_mapping_session_id s))
         then set_state rt (s\<lparr>rs_accepted_request_id := request_id,
                rs_detail := ''NEW MAP rejected: requires an active stable MAPPING session''\<rparr>)
         else if \<not> new_map \<and> rs_lifecycle s = STABLE \<and> requested = rs_mode s \<and> same_selection
         then set_state rt (s\<lparr>rs_accepted_request_id := request_id\<rparr>)
         else (let detail = (if new_map then ''starting fresh mapping session''
                             else ''transitioning to '' @ mode_name requested);
                   rt1 = (if new_map then act rt ME_quiesce else rt);
                   rt2 = set_state rt1 (s\<lparr>rs_lifecycle := TRANSITIONING, rs_accepted_request_id := request_id,
                           rs_detail := detail, rs_ready := False, rs_readiness_reason := detail,
                           rs_mapping_session_id := []\<rparr>)
               in if \<not> new_map then perform_or_fail w rt2 requested autonomy_map
                  else (case wait_for_quiescence [] rt2 (tw_quiescence w) of
                      (rt3, Inr _) \<Rightarrow> perform_or_fail w rt3 requested autonomy_map
                    | (rt3, Inl e) \<Rightarrow>
                        (case fully_ready (tw_previous w) MODE_MAPPING of
                           Inl e' \<Rightarrow> act rt3 (ME_raise e')
                         | Inr (ok, reason) \<Rightarrow>
                             set_state rt3 ((rt_state rt3)\<lparr>rs_mode := rs_mode s, rs_lifecycle := STABLE,
                               rs_detail := ''NEW MAP rejected: '' @ err_text e,
                               rs_runtime_epoch := rs_runtime_epoch s,
                               rs_mapping_session_id := rs_mapping_session_id s,
                               rs_ready := ok, rs_readiness_reason := reason\<rparr>)))))"

section \<open>Reconciliation\<close>

record reconcile_world =
  rw_units :: "mode_unit \<Rightarrow> unit_reading"
  rw_graph :: graph_counts
  rw_first :: ready_obs
  rw_polls :: "ready_obs list"
  rw_reason :: ready_obs
  rw_env :: map_env
  rw_maps :: map_store
  rw_final :: ready_obs
  rw_session :: string
  rw_fail :: stop_world

text \<open>\<open>_wait(lambda: self._ready(mode))\<close>: a reading that raises ends it as a failure too.\<close>

fun wait_structural :: "mode \<Rightarrow> ready_obs list \<Rightarrow> bool" where
  "wait_structural m [] = False"
| "wait_structural m (obs # rest) =
     (case structural_reason obs m of Inl e \<Rightarrow> False | Inr reason \<Rightarrow> \<not> truthy reason \<or> wait_structural m rest)"

text \<open>The \<open>try\<close> block up to an early failure text, an adopted state, or an exception.\<close>

definition reconcile_adopt :: "reconcile_world \<Rightarrow> mode_rt \<Rightarrow> mode \<Rightarrow> runtime_state result" where
  "reconcile_adopt w rt m =
     (let s = rt_state rt; selected = (if m = MODE_AUTONOMY then stored_map rt else rs_active_autonomy_map s) in
      bind_result (if m = MODE_AUTONOMY
                   then bind_result (validate_bundle (rw_env w) Published (rw_maps w) selected) (\<lambda>_. Inr ())
                   else Inr ()) (\<lambda>_.
      bind_result (fully_ready (rw_final w) m) (\<lambda>(ok, reason).
        Inr (s\<lparr>rs_mode := m, rs_lifecycle := STABLE, rs_active_autonomy_map := selected, rs_detail := [],
               rs_runtime_epoch := max (rs_runtime_epoch s) 1,
               rs_mapping_session_id := (if m = MODE_MAPPING
                 then str_of_int (rs_runtime_epoch s + 1) @ ''-'' @ rw_session w else []),
               rs_ready := ok, rs_readiness_reason := reason\<rparr>))))"

definition reconcile_units :: "reconcile_world \<Rightarrow> (mode_unit list \<times> mode_unit list) result" where
  "reconcile_units w =
     bind_result (read_unit (rw_units w MAPPING_UNIT)) (\<lambda>a.
     bind_result (read_unit (rw_units w AUTONOMY_UNIT)) (\<lambda>b.
       let states = [(MAPPING_UNIT, a), (AUTONOMY_UNIT, b)]
       in Inr (map fst (filter (\<lambda>(u, x). us_active x) states),
               map fst (filter (\<lambda>(u, x). \<not> us_active x \<and> \<not> cleanly_inactive x) states))))"

definition reconcile_result :: "reconcile_world \<Rightarrow> mode_rt \<Rightarrow> (string + runtime_state) result" where
  "reconcile_result w rt =
     bind_result (reconcile_units w) (\<lambda>(active, ambiguous).
       if ambiguous \<noteq> [] \<or> 1 < length active
       then Inr (Inl (''ambiguous systemd mode state: ''
              @ join '', '' (map unit_name (if ambiguous \<noteq> [] then ambiguous else active))))
       else case active of
           [] \<Rightarrow>
             if \<not> resources_gone (rw_graph w)
             then Inr (Inl ''mode-scoped ROS resources exist outside active mode units'')
             else Inr (Inr ((rt_state rt)\<lparr>rs_mode := MODE_IDLE, rs_lifecycle := STABLE, rs_detail := [],
                    rs_mapping_session_id := [], rs_ready := True, rs_readiness_reason := []\<rparr>))
         | u # us \<Rightarrow>
             (let m = (if u = MAPPING_UNIT then MODE_MAPPING else MODE_AUTONOMY) in
              bind_result (structural_reason (rw_first w) m) (\<lambda>reason.
                if truthy reason \<and> \<not> wait_structural m (rw_polls w)
                then bind_result (structural_reason (rw_reason w) m) (\<lambda>now.
                       Inr (Inl (mode_name m @ '' unit is active but graph is partial: '' @ now)))
                else bind_result (reconcile_adopt w rt m) (\<lambda>s. Inr (Inr s)))))"

definition reconcile :: "reconcile_world \<Rightarrow> mode_rt \<Rightarrow> mode_rt" where
  "reconcile w rt =
     (case reconcile_result w rt of
        Inr (Inr s) \<Rightarrow> set_state rt s
      | Inr (Inl detail) \<Rightarrow> fail_mode (rw_fail w) rt detail
      | Inl e \<Rightarrow> if caught e then fail_mode (rw_fail w) rt (''reconciliation failed: '' @ err_text e)
                else act rt (ME_raise e))"

section \<open>What the waiting loops change\<close>

text \<open>
  Progress reports change only the texts of the state. \<open>quiet\<close> relates a runtime
  to one that has published such reports and nothing else.
\<close>

definition core :: "runtime_state \<Rightarrow> runtime_state" where
  "core s = s\<lparr>rs_detail := [], rs_readiness_reason := []\<rparr>"

definition quiet :: "mode_rt \<Rightarrow> mode_rt \<Rightarrow> bool" where
  "quiet rt rt' \<longleftrightarrow> core (rt_state rt') = core (rt_state rt) \<and> rt_map_file rt' = rt_map_file rt
     \<and> (\<exists>ps. rt_effects rt' = rt_effects rt @ map ME_publish ps \<and> (\<forall>x \<in> set ps. core x = core (rt_state rt)))"

lemma quiet_refl [simp, intro]: "quiet rt rt"
  unfolding quiet_def by (auto intro!: exI [of _ "[]"])

lemma quiet_trans: "quiet a b \<Longrightarrow> quiet b c \<Longrightarrow> quiet a c"
  unfolding quiet_def by (auto, metis append.assoc map_append Un_iff set_append)

lemma quiet_progress [simp, intro]: "quiet rt (transition_progress rt detail)"
proof (cases "detail = rs_detail (rt_state rt)")
  case False
  then show ?thesis
    unfolding quiet_def by (auto simp: transition_progress_def set_state_def act_def core_def
        intro!: exI [of _ "[(rt_state rt)\<lparr>rs_detail := detail, rs_readiness_reason := detail\<rparr>]"])
qed (simp add: transition_progress_def)

lemma quiet_cleanup: "quiet rt (fst (wait_for_unit_cleanup progress last_reason rt polls))"
proof (induction polls arbitrary: last_reason rt)
  case (Cons obs rest)
  have "quiet rt (fst (wait_for_unit_cleanup progress r (transition_progress rt d) rest))" for r d
    by (rule quiet_trans [OF quiet_progress Cons.IH])
  then show ?case using Cons.IH by (cases progress) (simp_all split: sum.split)
qed simp

lemma quiet_readiness: "quiet rt (fst (wait_for_readiness m last_reason rt polls))"
proof (induction polls arbitrary: last_reason rt)
  case (Cons obs rest)
  have "quiet rt (fst (wait_for_readiness m r (transition_progress rt d) rest))" for r d
    by (rule quiet_trans [OF quiet_progress Cons.IH])
  then show ?case using Cons.IH by (simp split: sum.split)
qed simp

lemma quiet_quiescence: "quiet rt (fst (wait_for_quiescence last_reason rt polls))"
proof (induction polls arbitrary: last_reason rt)
  case (Cons p rest)
  obtain ok reason where p: "p = (ok, reason)" by (cases p)
  have "quiet rt (fst (wait_for_quiescence r (transition_progress rt d) rest))" for r d
    by (rule quiet_trans [OF quiet_progress Cons.IH])
  then show ?case using Cons.IH by (simp add: p)
qed simp

lemma core_fields:
  assumes "core s = core s'"
  shows "rs_mode s = rs_mode s'" "rs_lifecycle s = rs_lifecycle s'" "rs_accepted_request_id s = rs_accepted_request_id s'"
    "rs_active_autonomy_map s = rs_active_autonomy_map s'" "rs_runtime_epoch s = rs_runtime_epoch s'"
    "rs_mapping_session_id s = rs_mapping_session_id s'" "rs_ready s = rs_ready s'"
  using assms by (cases s; cases s'; simp add: core_def)+

text \<open>A cleanup that ends has seen both units without processes.\<close>

definition both_clean :: "cleanup_obs \<Rightarrow> bool" where
  "both_clean obs \<longleftrightarrow> (\<forall>u \<in> set MODE_UNITS.
     (\<exists>x. (co_first obs u = Inr x \<or> co_second obs u = Inr x) \<and> cleanly_inactive x))"

lemma read_unit_Inr: "read_unit r = Inr u \<longleftrightarrow> r = Inr u"
  by (cases r) (simp_all add: read_unit_def)

lemma no_blockers_clean:
  "cleanup_blockers obs us = Inr [] \<Longrightarrow> u \<in> set us \<Longrightarrow>
     \<exists>x. (co_first obs u = Inr x \<or> co_second obs u = Inr x) \<and> cleanly_inactive x"
  by (induction obs us rule: cleanup_blockers.induct)
     (auto simp: bind_result_Inr_iff read_unit_Inr split: if_splits)

lemma cleanup_done:
  "snd (wait_for_unit_cleanup progress last_reason rt polls) = Inr () \<Longrightarrow> \<exists>obs \<in> set polls. both_clean obs"
proof (induction polls arbitrary: last_reason rt)
  case (Cons obs rest)
  have status: "both_clean obs" if "unit_cleanup_status obs = Inr (True, r)" for r
    using that no_blockers_clean [of obs MODE_UNITS] by (auto simp: unit_cleanup_status_def bind_result_Inr_iff both_clean_def)
  show ?case
  proof (cases "unit_cleanup_status obs")
    case (Inl e)
    then show ?thesis using Cons.prems by simp
  next
    case (Inr x)
    then show ?thesis using Cons status by (cases x; cases "fst x") (auto split: if_splits)
  qed
qed simp

definition stops :: "mode_effect list" where
  "stops = [ME_stop MAPPING_UNIT, ME_stop AUTONOMY_UNIT]"

lemma stop_all_shape:
  "\<exists>rt1 rt2. quiet rt rt1 \<and> (\<not> progress \<longrightarrow> rt1 = rt)
     \<and> rt2 = rt1\<lparr>rt_effects := rt_effects rt1 @ stops\<rparr> \<and> quiet rt2 (fst (stop_all progress w rt))
     \<and> (snd (stop_all progress w rt) = Inr () \<longrightarrow>
          (\<forall>u. sw_stop w u = None) \<and> (\<exists>obs \<in> set (sw_cleanup w). both_clean obs)
          \<and> (\<exists>g \<in> set (sw_graph w). resources_gone g))"
proof -
  let ?rt1 = "if progress then transition_progress rt ''Stopping previous runtime -- requesting service stop'' else rt"
  let ?rt2 = "?rt1\<lparr>rt_effects := rt_effects ?rt1 @ stops\<rparr>"
  have two: "foldl (\<lambda>r u. act r (ME_stop u)) ?rt1 MODE_UNITS = ?rt2"
    by (simp add: MODE_UNITS_def act_def stops_def)
  have none: "List.map_filter (sw_stop w) MODE_UNITS = [] \<longleftrightarrow> (\<forall>u. sw_stop w u = None)"
    by (auto simp: MODE_UNITS_def List.map_filter_def) (metis mode_unit.exhaust)
  have "quiet ?rt2 (fst (stop_all progress w rt))
     \<and> (snd (stop_all progress w rt) = Inr () \<longrightarrow>
          (\<forall>u. sw_stop w u = None) \<and> (\<exists>obs \<in> set (sw_cleanup w). both_clean obs)
          \<and> (\<exists>g \<in> set (sw_graph w). resources_gone g))"
  proof (cases "List.map_filter (sw_stop w) MODE_UNITS = []")
    case False
    then show ?thesis unfolding stop_all_def two Let_def by simp
  next
    case True
    obtain rt3 r where r: "wait_for_unit_cleanup progress [] ?rt2 (sw_cleanup w) = (rt3, r)" by fastforce
    have q: "quiet ?rt2 rt3" using quiet_cleanup [of ?rt2 progress "[]" "sw_cleanup w"] r by simp
    have c: "r = Inr () \<Longrightarrow> \<exists>obs \<in> set (sw_cleanup w). both_clean obs"
      using cleanup_done [of progress "[]" ?rt2 "sw_cleanup w"] r by simp
    show ?thesis unfolding stop_all_def two Let_def
      using True r q c none quiet_trans [OF q]
      by (cases r) (auto simp: wait_resources_gone_def list_ex_iff)
  qed
  then show ?thesis by (intro exI [of _ ?rt1] exI [of _ ?rt2]) simp
qed

section \<open>The published state\<close>

text \<open>
  What every published state promises: ready only while stable, a mapping
  session only while MAPPING is stable, and IDLE as the mode of a fault.
\<close>

definition rs_ok :: "runtime_state \<Rightarrow> bool" where
  "rs_ok s \<longleftrightarrow> (rs_ready s \<longrightarrow> rs_lifecycle s = STABLE)
     \<and> (rs_mapping_session_id s \<noteq> [] \<longrightarrow> rs_mode s = MODE_MAPPING \<and> rs_lifecycle s = STABLE)
     \<and> (rs_lifecycle s = FAULT \<longrightarrow> rs_mode s = MODE_IDLE)"

definition rt_inv :: "mode_rt \<Rightarrow> bool" where
  "rt_inv rt \<longleftrightarrow> rs_ok (rt_state rt) \<and> 0 \<le> rs_runtime_epoch (rt_state rt)
     \<and> (\<forall>s. ME_publish s \<in> set (rt_effects rt) \<longrightarrow> rs_ok s)"

lemma rs_ok_core: "core s = core s' \<Longrightarrow> rs_ok s \<longleftrightarrow> rs_ok s'"
  unfolding rs_ok_def by (simp only: core_fields [of s s'])

lemma quiet_inv:
  assumes "quiet rt rt'" "rt_inv rt"
  shows "rt_inv rt'"
proof -
  obtain ps where e: "core (rt_state rt') = core (rt_state rt)"
      and f: "rt_effects rt' = rt_effects rt @ map ME_publish ps"
      and c: "\<And>x. x \<in> set ps \<Longrightarrow> core x = core (rt_state rt)"
    using assms(1) unfolding quiet_def by blast
  have ok: "rs_ok (rt_state rt)" using assms(2) by (simp add: rt_inv_def)
  have "rs_ok x" if "x \<in> set ps" for x using rs_ok_core [OF c [OF that]] ok by blast
  moreover have "rs_ok (rt_state rt')" using rs_ok_core [OF e] ok by blast
  ultimately show ?thesis using assms(2) core_fields(5) [OF e] unfolding rt_inv_def f by auto
qed

lemma set_state_inv: "rt_inv rt \<Longrightarrow> rs_ok s \<Longrightarrow> 0 \<le> rs_runtime_epoch s \<Longrightarrow> rt_inv (set_state rt s)"
  by (auto simp: rt_inv_def set_state_def act_def)

lemma act_inv: "(\<And>s. e \<noteq> ME_publish s) \<Longrightarrow> rt_inv rt \<Longrightarrow> rt_inv (act rt e)"
  by (auto simp: rt_inv_def act_def)

lemma stop_all_inv:
  assumes "rt_inv rt"
  shows "rt_inv (fst (stop_all progress w rt))" "core (rt_state (fst (stop_all progress w rt))) = core (rt_state rt)"
proof -
  obtain rt1 rt2 where s: "quiet rt rt1" "rt2 = rt1\<lparr>rt_effects := rt_effects rt1 @ stops\<rparr>" "quiet rt2 (fst (stop_all progress w rt))"
    using stop_all_shape [of rt progress w] by metis
  have "rt_inv rt2" using quiet_inv [OF s(1) assms] s(2) by (auto simp: rt_inv_def stops_def)
  then show "rt_inv (fst (stop_all progress w rt))" using quiet_inv [OF s(3)] by simp
  show "core (rt_state (fst (stop_all progress w rt))) = core (rt_state rt)" using s by (simp add: quiet_def)
qed

lemma fail_mode_state:
  "rs_lifecycle (rt_state (fail_mode w rt detail)) = FAULT" "rs_mode (rt_state (fail_mode w rt detail)) = MODE_IDLE"
  "\<not> rs_ready (rt_state (fail_mode w rt detail))" "rs_mapping_session_id (rt_state (fail_mode w rt detail)) = []"
  by (simp_all add: fail_mode_def set_state_def split_beta Let_def)

lemma fail_mode_core:
  "rs_runtime_epoch (rt_state (fail_mode w rt detail)) = rs_runtime_epoch (rt_state (fst (stop_all False w rt)))"
  "rs_accepted_request_id (rt_state (fail_mode w rt detail)) = rs_accepted_request_id (rt_state (fst (stop_all False w rt)))"
  by (simp_all add: fail_mode_def set_state_def split_beta Let_def)

lemma fail_mode_inv:
  assumes "rt_inv rt"
  shows "rt_inv (fail_mode w rt detail)"
    "rs_runtime_epoch (rt_state (fail_mode w rt detail)) = rs_runtime_epoch (rt_state rt)"
    "rs_accepted_request_id (rt_state (fail_mode w rt detail)) = rs_accepted_request_id (rt_state rt)"
proof -
  note s = stop_all_inv [OF assms, of False w]
  have e: "rs_runtime_epoch (rt_state (fst (stop_all False w rt))) = rs_runtime_epoch (rt_state rt)"
    "rs_accepted_request_id (rt_state (fst (stop_all False w rt))) = rs_accepted_request_id (rt_state rt)"
    using core_fields [OF s(2)] by simp_all
  have "0 \<le> rs_runtime_epoch (rt_state rt)" using assms by (simp add: rt_inv_def)
  then show "rt_inv (fail_mode w rt detail)"
    unfolding fail_mode_def split_beta Let_def using s(1) e(1) by (intro set_state_inv) (simp_all add: rs_ok_def)
  show "rs_runtime_epoch (rt_state (fail_mode w rt detail)) = rs_runtime_epoch (rt_state rt)"
    "rs_accepted_request_id (rt_state (fail_mode w rt detail)) = rs_accepted_request_id (rt_state rt)"
    using e by (simp_all add: fail_mode_core)
qed

text \<open>
  \<open>stage\<close> is the part of a state a running transition keeps: its epoch, its
  accepted request and that no readiness or session is claimed.
\<close>

definition stage :: "mode_rt \<Rightarrow> mode_rt \<Rightarrow> bool" where
  "stage rt rt' \<longleftrightarrow> (rt_inv rt \<longrightarrow> rt_inv rt') \<and> core (rt_state rt') = core (rt_state rt)"

lemma stage_quiet: "quiet rt rt' \<Longrightarrow> stage rt rt'"
  using quiet_inv by (auto simp: stage_def quiet_def)

lemma stage_trans: "stage a b \<Longrightarrow> stage b c \<Longrightarrow> stage a c"
  by (simp add: stage_def)

lemma stage_stop_all: "stage rt (fst (stop_all progress w rt))"
proof -
  have "core (rt_state (fst (stop_all progress w rt))) = core (rt_state rt)"
    using stop_all_shape [of rt progress w] by (auto simp: quiet_def)
  then show ?thesis using stop_all_inv by (simp add: stage_def)
qed

lemma stage_act: "(\<And>s. e \<noteq> ME_publish s) \<Longrightarrow> stage rt (act rt e)"
  by (simp add: stage_def act_inv) (simp add: act_def)

lemma stage_map_file:
  assumes "stage rt r"
  shows "stage rt (r\<lparr>rt_map_file := f\<rparr>)"
proof -
  have "rt_inv (r\<lparr>rt_map_file := f\<rparr>) = rt_inv r" by (simp add: rt_inv_def)
  then show ?thesis using assms unfolding stage_def by simp
qed

lemma stage_select: "stage rt (fst (select_unit w rt requested autonomy_map))"
proof -
  have "stage rt ((act (transition_progress rt d) (ME_write_map m))\<lparr>rt_map_file := f\<rparr>)" for d m f
  proof -
    have "stage rt (act (transition_progress rt d) (ME_write_map m))"
      by (rule stage_trans [OF stage_quiet [OF quiet_progress] stage_act]) simp
    then show ?thesis by (rule stage_map_file)
  qed
  then show ?thesis
    by (simp add: select_unit_def write_map_def Let_def stage_quiet split: sum.split option.split)
qed

lemma stage_start: "stage rt (fst (start_unit w rt requested u))"
proof -
  let ?rt = "act (transition_progress rt (''Starting '' @ mode_name requested @ '' -- requesting '' @ unit_name u)) (ME_start u)"
  have a: "stage rt ?rt" by (rule stage_trans [OF stage_quiet [OF quiet_progress] stage_act]) simp
  have "stage ?rt (fst (wait_for_readiness requested [] (transition_progress ?rt d) polls))" for d polls
    by (rule stage_quiet [OF quiet_trans [OF quiet_progress quiet_readiness]])
  then show ?thesis using a stage_trans [OF a] by (auto simp: start_unit_def Let_def split: option.split)
qed

lemma stage_epoch: "stage a b \<Longrightarrow> rs_runtime_epoch (rt_state b) = rs_runtime_epoch (rt_state a)"
  and stage_request: "stage a b \<Longrightarrow> rs_accepted_request_id (rt_state b) = rs_accepted_request_id (rt_state a)"
  using core_fields [of "rt_state b" "rt_state a"] by (simp_all add: stage_def)

text \<open>\<open>settles\<close>: a performed transition ends with one stable state of the requested mode.\<close>

definition settles :: "mode_rt \<Rightarrow> mode \<Rightarrow> mode_rt \<Rightarrow> bool" where
  "settles rt m rt' \<longleftrightarrow> (\<exists>rt3 s. stage rt rt3 \<and> rt' = set_state rt3 s \<and> rs_lifecycle s = STABLE \<and> rs_mode s = m \<and> rs_ok s
     \<and> rs_runtime_epoch s = rs_runtime_epoch (rt_state rt) + (if m = MODE_IDLE then 0 else 1)
     \<and> rs_accepted_request_id s = rs_accepted_request_id (rt_state rt))"

lemma settlesI:
  "stage rt rt3 \<Longrightarrow> rs_lifecycle s = STABLE \<Longrightarrow> rs_mode s = m \<Longrightarrow> rs_ok s \<Longrightarrow>
   rs_runtime_epoch s = rs_runtime_epoch (rt_state rt) + (if m = MODE_IDLE then 0 else 1) \<Longrightarrow>
   rs_accepted_request_id s = rs_accepted_request_id (rt_state rt) \<Longrightarrow> settles rt m (set_state rt3 s)"
  unfolding settles_def by blast

lemma perform_outcome:
  "case perform w rt m autonomy_map of (rt', Inl e) \<Rightarrow> stage rt rt' | (rt', Inr _) \<Rightarrow> settles rt m rt'"
proof -
  obtain rt1 r1 where one: "stop_all True (tw_stop w) rt = (rt1, r1)" by fastforce
  have s1: "stage rt rt1" using stage_stop_all [of rt True "tw_stop w"] one by simp
  obtain rt2 r2 where two: "select_unit w rt1 m autonomy_map = (rt2, r2)" by fastforce
  have s2: "stage rt rt2" using stage_trans [OF s1] stage_select [of rt1 w m autonomy_map] two by simp
  have s3: "stage rt (fst (start_unit w rt2 m u))" for u using stage_trans [OF s2 stage_start] .
  consider (stopped) e where "r1 = Inl e" | (idle) "r1 = Inr ()" "m = MODE_IDLE"
    | (unselected) e where "r1 = Inr ()" "m \<noteq> MODE_IDLE" "r2 = Inl e"
    | (go) u where "r1 = Inr ()" "m \<noteq> MODE_IDLE" "r2 = Inr u"
    by (cases r1; cases r2; cases "m = MODE_IDLE") auto
  then show ?thesis
  proof cases
    case stopped
    then show ?thesis using one s1 by (simp add: perform_def)
  next
    case idle
    then show ?thesis using one s1 stage_epoch [OF s1] stage_request [OF s1]
      by (auto simp: perform_def rs_ok_def intro!: settlesI [OF s1])
  next
    case unselected
    then show ?thesis using one two s2 by (simp add: perform_def)
  next
    case go
    obtain rt3 r3 where three: "start_unit w rt2 m u = (rt3, r3)" by fastforce
    have s: "stage rt rt3" using s3 [of u] three by simp
    note k = stage_epoch [OF s] stage_request [OF s]
    show ?thesis
    proof (cases r3)
      case (Inl e)
      then show ?thesis using one two three go s by (simp add: perform_def)
    next
      case (Inr x)
      show ?thesis
      proof (cases "fully_ready (tw_final w) m")
        case (Inl e)
        then show ?thesis using one two three go s Inr by (simp add: perform_def)
      next
        case (Inr y)
        obtain ok reason where y: "y = (ok, reason)" by (cases y)
        show ?thesis using one two three go s Inr k \<open>r3 = Inr x\<close> y
          by (auto simp: perform_def rs_ok_def Let_def intro!: settlesI [OF s])
      qed
    qed
  qed
qed

lemma settles_inv:
  assumes "settles rt m rt'" "rt_inv rt"
  shows "rt_inv rt'"
proof -
  obtain rt3 s where s: "stage rt rt3" "rt' = set_state rt3 s" "rs_ok s" "rs_runtime_epoch (rt_state rt) \<le> rs_runtime_epoch s"
    using assms(1) by (auto simp: settles_def)
  have "0 \<le> rs_runtime_epoch s" using s(4) assms(2) by (simp add: rt_inv_def)
  then show ?thesis using s assms(2) by (auto simp: stage_def intro: set_state_inv)
qed

lemma settles_state:
  assumes "settles rt m rt'"
  shows "rs_lifecycle (rt_state rt') = STABLE" "rs_mode (rt_state rt') = m"
    "rs_runtime_epoch (rt_state rt') = rs_runtime_epoch (rt_state rt) + (if m = MODE_IDLE then 0 else 1)"
    "rs_accepted_request_id (rt_state rt') = rs_accepted_request_id (rt_state rt)"
  using assms by (auto simp: settles_def set_state_def)

text \<open>\<open>follows\<close>: the invariant is kept and the two counters never go back.\<close>

definition follows :: "mode_rt \<Rightarrow> mode_rt \<Rightarrow> bool" where
  "follows rt rt' \<longleftrightarrow> (rt_inv rt \<longrightarrow> rt_inv rt' \<and> rs_runtime_epoch (rt_state rt) \<le> rs_runtime_epoch (rt_state rt')
     \<and> rs_accepted_request_id (rt_state rt) \<le> rs_accepted_request_id (rt_state rt'))"

lemma follows_refl [simp]: "follows rt rt"
  by (simp add: follows_def)

lemma follows_trans: "follows a b \<Longrightarrow> follows b c \<Longrightarrow> follows a c"
  by (auto simp: follows_def)

lemma follows_stage: "stage a b \<Longrightarrow> follows a b"
  using stage_epoch [of a b] stage_request [of a b] unfolding follows_def stage_def by simp

lemma follows_set_state:
  assumes "rs_ok (rt_state rt) \<Longrightarrow> rs_ok s" "rs_runtime_epoch (rt_state rt) \<le> rs_runtime_epoch s"
    "rs_accepted_request_id (rt_state rt) \<le> rs_accepted_request_id s"
  shows "follows rt (set_state rt s)"
proof -
  have "rt_inv (set_state rt s)" if inv: "rt_inv rt"
  proof (rule set_state_inv [OF inv])
    show "rs_ok s" using assms(1) inv unfolding rt_inv_def by blast
    show "0 \<le> rs_runtime_epoch s" using assms(2) inv unfolding rt_inv_def by linarith
  qed
  moreover have "rt_state (set_state rt s) = s" by (simp add: set_state_def)
  ultimately show ?thesis using assms(2,3) unfolding follows_def by metis
qed

lemma follows_raise [simp]: "follows rt (act rt (ME_raise e))"
  by (rule follows_stage [OF stage_act]) simp

lemma follows_fail: "follows rt (fail_mode w rt detail)"
  unfolding follows_def using fail_mode_inv by simp

lemma follows_perform: "follows rt (perform_or_fail w rt m autonomy_map)"
proof -
  obtain rt' r where p: "perform w rt m autonomy_map = (rt', r)" by fastforce
  show ?thesis
  proof (cases r)
    case (Inl e)
    then have "follows rt rt'" using perform_outcome [where w = w and rt = rt and m = m and autonomy_map = autonomy_map] p by (simp add: follows_stage)
    then show ?thesis using p Inl follows_trans [OF _ follows_fail] follows_trans [OF _ follows_raise]
      by (simp add: perform_or_fail_def)
  next
    case (Inr x)
    then have "settles rt m rt'" using perform_outcome [where w = w and rt = rt and m = m and autonomy_map = autonomy_map] p by simp
    then show ?thesis using p Inr settles_inv settles_state by (simp add: perform_or_fail_def follows_def)
  qed
qed

text \<open>The state a transition publishes before it stops anything.\<close>

definition begun :: "runtime_state \<Rightarrow> int \<Rightarrow> string \<Rightarrow> runtime_state" where
  "begun s request_id detail = s\<lparr>rs_lifecycle := TRANSITIONING, rs_accepted_request_id := request_id,
     rs_detail := detail, rs_ready := False, rs_readiness_reason := detail, rs_mapping_session_id := []\<rparr>"

lemma follows_begun:
  "rs_accepted_request_id (rt_state rt) < request_id \<Longrightarrow> follows rt (set_state rt (begun (rt_state rt) request_id detail))"
  by (rule follows_set_state) (simp_all add: begun_def rs_ok_def)

lemma follows_begun_new_map:
  assumes "rs_accepted_request_id (rt_state rt) < request_id"
  shows "follows rt (set_state (act rt ME_quiesce) (begun (rt_state rt) request_id detail))"
proof -
  have a: "follows rt (act rt ME_quiesce)" by (rule follows_stage [OF stage_act]) simp
  have b: "rt_state (act rt ME_quiesce) = rt_state rt" by (simp add: act_def)
  show ?thesis using follows_trans [OF a] follows_begun [of "act rt ME_quiesce" request_id detail] assms b by simp
qed

text \<open>A transition is one of: ignored, answered in place, started, or a new map that is rejected or started.\<close>

lemma mode_transition_cases:
  obtains (ignored) "request_id \<le> rs_accepted_request_id (rt_state rt)" "mode_transition w rt m request_id amap op = rt"
  | (answered) d where "rs_accepted_request_id (rt_state rt) < request_id"
      "mode_transition w rt m request_id amap op = set_state rt ((rt_state rt)\<lparr>rs_accepted_request_id := request_id, rs_detail := d\<rparr>)"
  | (started) d where "rs_accepted_request_id (rt_state rt) < request_id" "m = MODE_AUTONOMY \<Longrightarrow> truthy amap"
      "mode_transition w rt m request_id amap op =
         perform_or_fail w (set_state rt (begun (rt_state rt) request_id d)) m amap"
  | (new_map) d where "rs_accepted_request_id (rt_state rt) < request_id" "m = MODE_MAPPING"
      "rs_lifecycle (rt_state rt) = STABLE" "rs_mode (rt_state rt) = MODE_MAPPING"
      "mode_transition w rt m request_id amap op =
         (case wait_for_quiescence [] (set_state (act rt ME_quiesce) (begun (rt_state rt) request_id d)) (tw_quiescence w) of
            (rt3, Inr _) \<Rightarrow> perform_or_fail w rt3 MODE_MAPPING amap
          | (rt3, Inl e) \<Rightarrow>
              (case fully_ready (tw_previous w) MODE_MAPPING of
                 Inl e' \<Rightarrow> act rt3 (ME_raise e')
               | Inr (ok, reason) \<Rightarrow>
                   set_state rt3 ((rt_state rt3)\<lparr>rs_mode := rs_mode (rt_state rt), rs_lifecycle := STABLE,
                     rs_detail := ''NEW MAP rejected: '' @ err_text e,
                     rs_runtime_epoch := rs_runtime_epoch (rt_state rt),
                     rs_mapping_session_id := rs_mapping_session_id (rt_state rt),
                     rs_ready := ok, rs_readiness_reason := reason\<rparr>)))"
proof -
  let ?s = "rt_state rt" and ?new = "op = OP_NEW_MAP \<and> m = MODE_MAPPING"
  consider (a) "request_id \<le> rs_accepted_request_id ?s"
    | (b) "rs_accepted_request_id ?s < request_id" "m = MODE_AUTONOMY" "\<not> truthy amap"
    | (c) "rs_accepted_request_id ?s < request_id" "\<not> (m = MODE_AUTONOMY \<and> \<not> truthy amap)" "?new"
        "\<not> (rs_lifecycle ?s = STABLE \<and> rs_mode ?s = MODE_MAPPING \<and> truthy (rs_mapping_session_id ?s))"
    | (d) "rs_accepted_request_id ?s < request_id" "?new"
        "rs_lifecycle ?s = STABLE \<and> rs_mode ?s = MODE_MAPPING \<and> truthy (rs_mapping_session_id ?s)"
    | (e) "rs_accepted_request_id ?s < request_id" "\<not> (m = MODE_AUTONOMY \<and> \<not> truthy amap)" "\<not> ?new"
        "rs_lifecycle ?s = STABLE \<and> m = rs_mode ?s \<and> (m \<noteq> MODE_AUTONOMY \<or> amap = rs_active_autonomy_map ?s)"
    | (f) "rs_accepted_request_id ?s < request_id" "\<not> (m = MODE_AUTONOMY \<and> \<not> truthy amap)" "\<not> ?new"
        "\<not> (rs_lifecycle ?s = STABLE \<and> m = rs_mode ?s \<and> (m \<noteq> MODE_AUTONOMY \<or> amap = rs_active_autonomy_map ?s))"
    using not_le_imp_less [of request_id "rs_accepted_request_id ?s"] by argo
  then show ?thesis
  proof cases
    case a
    then show ?thesis by (intro ignored) (simp_all add: mode_transition_def)
  next
    case b
    then show ?thesis by (intro answered [of "''AUTONOMY needs a selected map''"]) (simp_all add: mode_transition_def)
  next
    case c
    then show ?thesis
      by (intro answered [of "''NEW MAP rejected: requires an active stable MAPPING session''"]) (auto simp: mode_transition_def)
  next
    case d
    then show ?thesis
      by (intro new_map [of "''starting fresh mapping session''"]) (simp_all add: mode_transition_def begun_def Let_def case_prod_unfold)
  next
    case e
    then show ?thesis by (intro answered [of "rs_detail ?s"]) (auto simp: mode_transition_def)
  next
    case f
    then show ?thesis
      by (intro started [of "''transitioning to '' @ mode_name m"]) (auto simp: mode_transition_def begun_def Let_def)
  qed
qed

lemma follows_transition: "follows rt (mode_transition w rt m request_id amap op)"
proof (cases rule: mode_transition_cases [of request_id rt w m amap op])
  case ignored
  then show ?thesis by simp
next
  case (answered d)
  then show ?thesis using follows_set_state [of rt] by (simp add: rs_ok_def)
next
  case (started d)
  then show ?thesis using follows_trans [OF follows_begun follows_perform] by simp
next
  case (new_map d)
  let ?rt2 = "set_state (act rt ME_quiesce) (begun (rt_state rt) request_id d)"
  obtain rt3 r where q: "wait_for_quiescence [] ?rt2 (tw_quiescence w) = (rt3, r)" by fastforce
  have st: "stage ?rt2 rt3" using stage_quiet quiet_quiescence [of ?rt2 "[]" "tw_quiescence w"] q by simp
  have k: "rs_runtime_epoch (rt_state rt3) = rs_runtime_epoch (rt_state rt)"
    using stage_epoch [OF st] by (simp add: set_state_def begun_def)
  have f: "follows rt rt3" using follows_trans [OF follows_begun_new_map [OF new_map(1)] follows_stage [OF st]] .
  have restored: "follows rt3 (set_state rt3 ((rt_state rt3)\<lparr>rs_mode := MODE_MAPPING, rs_lifecycle := STABLE, rs_detail := t,
      rs_runtime_epoch := rs_runtime_epoch (rt_state rt), rs_mapping_session_id := i, rs_ready := ok, rs_readiness_reason := v\<rparr>))"
    for t i ok v by (rule follows_set_state) (simp_all add: k rs_ok_def)
  show ?thesis unfolding new_map(4,5) q prod.case
    by (simp split: sum.split add: follows_trans [OF f restored] follows_trans [OF f follows_raise] follows_trans [OF f follows_perform])
qed

lemma follows_refresh: "follows rt (refresh obs rt)"
  unfolding refresh_def Let_def
  by (auto intro!: follows_set_state simp: rs_ok_def split: sum.split)

definition adoptable :: "runtime_state \<Rightarrow> runtime_state \<Rightarrow> bool" where
  "adoptable old s \<longleftrightarrow> rs_ok s \<and> rs_runtime_epoch old \<le> rs_runtime_epoch s
    \<and> rs_accepted_request_id s = rs_accepted_request_id old \<and> rs_lifecycle s = STABLE"

lemma reconcile_adopt_state: "reconcile_adopt w rt m = Inr s \<Longrightarrow> adoptable (rt_state rt) s"
  unfolding reconcile_adopt_def Let_def bind_result_Inr_iff
  by (elim exE conjE) (auto simp: adoptable_def rs_ok_def split: prod.splits if_splits)

lemma reconcile_result_state:
  assumes "reconcile_result w rt = Inr (Inr s)"
  shows "adoptable (rt_state rt) s"
proof -
  obtain active ambiguous where u: "reconcile_units w = Inr (active, ambiguous)"
    using assms by (auto simp: reconcile_result_def bind_result_Inr_iff)
  show ?thesis
  proof (cases active)
    case Nil
    then show ?thesis using assms u
      by (auto simp: reconcile_result_def adoptable_def rs_ok_def split: if_splits)
  next
    case (Cons unit rest)
    then obtain m where "reconcile_adopt w rt m = Inr s"
      using assms u by (auto simp: reconcile_result_def bind_result_Inr_iff Let_def split: if_splits)
    then show ?thesis by (rule reconcile_adopt_state)
  qed
qed

lemma follows_reconcile: "follows rt (reconcile w rt)"
proof (cases "reconcile_result w rt")
  case (Inl e)
  then show ?thesis by (simp add: reconcile_def follows_fail)
next
  case (Inr x)
  show ?thesis
  proof (cases x)
    case (Inl d)
    then show ?thesis using Inr by (simp add: reconcile_def follows_fail)
  next
    case (Inr s)
    then have r: "reconcile_result w rt = Inr (Inr s)" using \<open>reconcile_result w rt = Inr x\<close> by simp
    show ?thesis using reconcile_result_state [OF r] r
      by (auto simp: reconcile_def adoptable_def intro!: follows_set_state)
  qed
qed

section \<open>Runs of the runtime\<close>

datatype mode_input =
    MM_transition transition_world mode int string int
  | MM_reconcile reconcile_world
  | MM_refresh ready_obs

fun mode_step :: "mode_rt \<Rightarrow> mode_input \<Rightarrow> mode_rt" where
  "mode_step rt (MM_transition w m request_id autonomy_map operation) = mode_transition w rt m request_id autonomy_map operation"
| "mode_step rt (MM_reconcile w) = reconcile w rt"
| "mode_step rt (MM_refresh obs) = refresh obs rt"

lemma follows_step: "follows rt (mode_step rt i)"
  by (cases i) (simp_all add: follows_transition follows_reconcile follows_refresh)

lemma new_mode_rt_inv: "rt_inv (new_mode_rt map_file)"
  by (simp add: rt_inv_def new_mode_rt_def rs_ok_def)

interpretation mode_exec: counting_machine "\<lambda>rt. \<exists>f. rt = new_mode_rt f" mode_step rt_inv "\<lambda>rt. rs_runtime_epoch (rt_state rt)"
proof unfold_locales
  fix rt i
  show "rt_inv rt \<Longrightarrow> rt_inv (mode_step rt i)"
    "rt_inv rt \<Longrightarrow> rs_runtime_epoch (rt_state rt) \<le> rs_runtime_epoch (rt_state (mode_step rt i))"
    using follows_step [of rt i] by (simp_all add: follows_def)
qed (use new_mode_rt_inv in auto)

interpretation mode_requests: counting_machine "\<lambda>rt. \<exists>f. rt = new_mode_rt f" mode_step rt_inv
  "\<lambda>rt. rs_accepted_request_id (rt_state rt)"
  by unfold_locales (use follows_step in \<open>simp add: follows_def\<close>)

fun published_ok :: "mode_effect \<Rightarrow> bool" where
  "published_ok (ME_publish s) = rs_ok s"
| "published_ok _ = True"

lemma rt_inv_published: "rt_inv rt \<Longrightarrow> list_all published_ok (rt_effects rt)"
  unfolding rt_inv_def list_all_iff by (metis published_ok.elims(3))

text \<open>
  In every run of the mode runtime, whatever it observes of systemd, the
  ROS graph and the maps: the state and every published state is ready only
  while stable, has a mapping session only while MAPPING is stable, and is
  IDLE in a fault; and neither the runtime epoch nor the accepted request id
  ever goes back.
\<close>

theorem mode_runtime_invariant:
  "rs_ok (rt_state (run_steps mode_step (new_mode_rt f) xs))
   \<and> list_all published_ok (rt_effects (run_steps mode_step (new_mode_rt f) xs))
   \<and> rs_runtime_epoch (rt_state (run_steps mode_step (new_mode_rt f) xs))
       \<le> rs_runtime_epoch (rt_state (run_steps mode_step (new_mode_rt f) (xs @ ys)))
   \<and> rs_accepted_request_id (rt_state (run_steps mode_step (new_mode_rt f) xs))
       \<le> rs_accepted_request_id (rt_state (run_steps mode_step (new_mode_rt f) (xs @ ys)))"
proof (intro conjI)
  have inv: "rt_inv (run_steps mode_step (new_mode_rt f) xs)" by (rule mode_exec.invar_reachable) blast
  then show "rs_ok (rt_state (run_steps mode_step (new_mode_rt f) xs))" by (simp add: rt_inv_def)
  show "list_all published_ok (rt_effects (run_steps mode_step (new_mode_rt f) xs))"
    by (rule rt_inv_published [OF inv])
qed (rule mode_exec.counter_prefix mode_requests.counter_prefix; rule new_mode_rt_inv)+

section \<open>What a transition starts\<close>

fun not_start :: "mode_effect \<Rightarrow> bool" where
  "not_start (ME_start u) = False"
| "not_start _ = True"

definition no_start :: "mode_effect list \<Rightarrow> bool" where "no_start es = list_all not_start es"

lemma no_start_simps [simp]:
  "no_start []" "no_start (e # es) \<longleftrightarrow> not_start e \<and> no_start es" "no_start (es @ fs) \<longleftrightarrow> no_start es \<and> no_start fs"
  "no_start (map ME_publish ps)" "no_start stops"
  by (auto simp: no_start_def stops_def list_all_iff)

lemma no_start_mem: "no_start es \<Longrightarrow> ME_start u \<notin> set es"
  by (auto simp: no_start_def list_all_iff)

definition adds :: "mode_rt \<Rightarrow> mode_effect list \<Rightarrow> mode_rt \<Rightarrow> bool" where
  "adds rt es rt' \<longleftrightarrow> rt_effects rt' = rt_effects rt @ es"

lemma adds_trans: "adds a es b \<Longrightarrow> adds b fs c \<Longrightarrow> adds a (es @ fs) c"
  by (simp add: adds_def)

lemma adds_quiet: "quiet rt rt' \<Longrightarrow> \<exists>ps. adds rt (map ME_publish ps) rt'"
  by (auto simp: quiet_def adds_def)

lemma adds_set_state: "adds rt [ME_publish s] (set_state rt s)"
  and adds_act: "adds rt [e] (act rt e)"
  by (simp_all add: adds_def set_state_def act_def)

lemma stop_all_adds:
  "\<exists>ps qs. adds rt (map ME_publish ps @ stops @ map ME_publish qs) (fst (stop_all progress w rt))"
proof -
  obtain rt1 rt2 where s: "quiet rt rt1" "rt2 = rt1\<lparr>rt_effects := rt_effects rt1 @ stops\<rparr>" "quiet rt2 (fst (stop_all progress w rt))"
    using stop_all_shape [of rt progress w] by metis
  obtain ps where p: "adds rt (map ME_publish ps) rt1" using adds_quiet [OF s(1)] by blast
  obtain qs where q: "adds rt2 (map ME_publish qs) (fst (stop_all progress w rt))" using adds_quiet [OF s(3)] by blast
  have "adds rt1 stops rt2" by (simp add: adds_def s(2))
  then show ?thesis using adds_trans [OF adds_trans [OF p] q] by auto
qed

text \<open>Without progress reports stopping publishes nothing at all.\<close>

lemma cleanup_silent: "fst (wait_for_unit_cleanup False last_reason rt polls) = rt"
  by (induction polls arbitrary: last_reason) (simp_all split: sum.split)

lemma stop_all_silent: "fst (stop_all False w rt) = rt\<lparr>rt_effects := rt_effects rt @ stops\<rparr>"
proof -
  have two: "foldl (\<lambda>r u. act r (ME_stop u)) rt MODE_UNITS = rt\<lparr>rt_effects := rt_effects rt @ stops\<rparr>"
    by (simp add: MODE_UNITS_def act_def stops_def)
  show ?thesis using cleanup_silent [of "[]" "rt\<lparr>rt_effects := rt_effects rt @ stops\<rparr>" "sw_cleanup w"]
    unfolding stop_all_def Let_def by (auto simp: two split: prod.split sum.split)
qed

lemma fail_mode_adds: "adds rt (stops @ [ME_publish (rt_state (fail_mode w rt detail))]) (fail_mode w rt detail)"
  by (simp add: adds_def fail_mode_def split_beta Let_def set_state_def act_def stop_all_silent)

text \<open>What has to hold before a unit is started.\<close>

definition start_allowed :: "transition_world \<Rightarrow> mode \<Rightarrow> string \<Rightarrow> bool" where
  "start_allowed w m amap \<longleftrightarrow> m \<noteq> MODE_IDLE \<and> (\<forall>v. sw_stop (tw_stop w) v = None)
     \<and> (\<exists>obs \<in> set (sw_cleanup (tw_stop w)). both_clean obs) \<and> (\<exists>g \<in> set (sw_graph (tw_stop w)). resources_gone g)
     \<and> (m = MODE_AUTONOMY \<longrightarrow> (\<exists>x. validate_bundle (tw_env w) Published (tw_maps w) amap = Inr x))"

definition one_start :: "mode_unit \<Rightarrow> mode_effect list \<Rightarrow> bool" where
  "one_start u es \<longleftrightarrow> (\<exists>a b c. es = a @ stops @ b @ ME_start u # c \<and> no_start a \<and> no_start b \<and> no_start c)"

lemma one_startI: "es = a @ stops @ b @ ME_start u # c \<Longrightarrow> no_start a \<Longrightarrow> no_start b \<Longrightarrow> no_start c \<Longrightarrow> one_start u es"
  unfolding one_start_def by blast

lemma one_start_append: "one_start u es \<Longrightarrow> no_start fs \<Longrightarrow> one_start u (es @ fs)"
  and one_start_prepend: "one_start u es \<Longrightarrow> no_start fs \<Longrightarrow> one_start u (fs @ es)"
proof -
  assume "one_start u es" and f: "no_start fs"
  then obtain a b c where e: "es = a @ stops @ b @ ME_start u # c" "no_start a" "no_start b" "no_start c"
    by (auto simp: one_start_def)
  show "one_start u (es @ fs)" by (rule one_startI [of _ a b u "c @ fs"]) (simp_all add: e f)
  show "one_start u (fs @ es)" by (rule one_startI [of _ "fs @ a" b u c]) (simp_all add: e f)
qed

lemma one_start_mem: "one_start u es \<Longrightarrow> ME_start v \<in> set es \<Longrightarrow> v = u"
  by (auto simp: one_start_def stops_def dest: no_start_mem)

definition start_discipline :: "transition_world \<Rightarrow> mode \<Rightarrow> string \<Rightarrow> mode_effect list \<Rightarrow> bool" where
  "start_discipline w m amap es \<longleftrightarrow> no_start es \<or> (start_allowed w m amap \<and> one_start (unit_of_mode m) es)"

lemma start_discipline_append: "start_discipline w m amap es \<Longrightarrow> no_start fs \<Longrightarrow> start_discipline w m amap (es @ fs)"
  and start_discipline_prepend: "start_discipline w m amap es \<Longrightarrow> no_start fs \<Longrightarrow> start_discipline w m amap (fs @ es)"
  by (auto simp: start_discipline_def one_start_append one_start_prepend)

definition unstarted :: "mode_rt \<Rightarrow> mode_rt \<Rightarrow> bool" where
  "unstarted rt rt' \<longleftrightarrow> (\<exists>es. adds rt es rt' \<and> no_start es)"

lemma unstarted_quiet: "quiet rt rt' \<Longrightarrow> unstarted rt rt'"
  unfolding unstarted_def using adds_quiet no_start_simps(4) by blast

lemma select_unit_adds:
  assumes "select_unit w rt m amap = (rt', r)" "m \<noteq> MODE_IDLE"
  shows "unstarted rt rt'"
    and "r = Inr u \<Longrightarrow> u = unit_of_mode m \<and> (m = MODE_AUTONOMY \<longrightarrow> (\<exists>x. validate_bundle (tw_env w) Published (tw_maps w) amap = Inr x))"
proof -
  let ?v = "transition_progress rt (''Validating selected map -- '' @ amap)"
  have v: "unstarted rt ?v" by (rule unstarted_quiet [OF quiet_progress])
  have "unstarted rt ((act ?v (ME_write_map amap))\<lparr>rt_map_file := g\<rparr>)" for g
    using v by (auto simp: unstarted_def adds_def act_def)
  moreover have "unstarted rt rt" by (rule unstarted_quiet [OF quiet_refl])
  ultimately have "unstarted rt (fst (select_unit w rt m amap))"
    using v by (simp add: select_unit_def write_map_def Let_def split: sum.split option.split)
  then show "unstarted rt rt'" using assms by simp
  show "r = Inr u \<Longrightarrow> u = unit_of_mode m \<and> (m = MODE_AUTONOMY \<longrightarrow> (\<exists>x. validate_bundle (tw_env w) Published (tw_maps w) amap = Inr x))"
    using assms unfolding select_unit_def write_map_def Let_def
    by (cases m) (auto simp: unit_of_mode_def split: if_splits sum.splits option.splits)
qed

lemma start_unit_adds: "\<exists>ps qs. adds rt (map ME_publish ps @ ME_start u # map ME_publish qs) (fst (start_unit w rt m u))"
proof -
  let ?p = "transition_progress rt (''Starting '' @ mode_name m @ '' -- requesting '' @ unit_name u)"
  obtain ps where p: "adds rt (map ME_publish ps) ?p" using adds_quiet [OF quiet_progress] by blast
  have s: "adds rt (map ME_publish ps @ [ME_start u]) (act ?p (ME_start u))" by (rule adds_trans [OF p adds_act])
  have "quiet (act ?p (ME_start u)) (fst (start_unit w rt m u))"
    using quiet_trans [OF quiet_progress quiet_readiness] by (simp add: start_unit_def Let_def split: option.split)
  then obtain qs where "adds (act ?p (ME_start u)) (map ME_publish qs) (fst (start_unit w rt m u))"
    using adds_quiet by blast
  then show ?thesis using adds_trans [OF s] by auto
qed

definition disciplined :: "transition_world \<Rightarrow> mode \<Rightarrow> string \<Rightarrow> mode_rt \<Rightarrow> mode_rt \<Rightarrow> bool" where
  "disciplined w m amap rt rt' \<longleftrightarrow> (\<exists>es. adds rt es rt' \<and> start_discipline w m amap es)"

lemma disciplined_unstarted: "unstarted rt rt' \<Longrightarrow> disciplined w m amap rt rt'"
  by (auto simp: unstarted_def disciplined_def start_discipline_def)

lemma disciplined_then: "disciplined w m amap a b \<Longrightarrow> unstarted b c \<Longrightarrow> disciplined w m amap a c"
  unfolding disciplined_def unstarted_def using adds_trans start_discipline_append by meson

lemma then_disciplined: "unstarted a b \<Longrightarrow> disciplined w m amap b c \<Longrightarrow> disciplined w m amap a c"
  unfolding disciplined_def unstarted_def using adds_trans start_discipline_prepend by meson

lemma unstarted_set_state [simp]: "unstarted rt (set_state rt s)"
  and unstarted_raise [simp]: "unstarted rt (act rt (ME_raise e))"
  and unstarted_quiesce [simp]: "unstarted rt (act rt ME_quiesce)"
  and unstarted_fail [simp]: "unstarted rt (fail_mode w rt detail)"
  unfolding unstarted_def using adds_set_state adds_act fail_mode_adds by (fastforce)+

lemma unstarted_stop_all: "unstarted rt (fst (stop_all progress w rt))"
  using stop_all_adds [of rt progress w] unfolding unstarted_def by fastforce

lemma unstarted_trans: "unstarted a b \<Longrightarrow> unstarted b c \<Longrightarrow> unstarted a c"
  unfolding unstarted_def using adds_trans no_start_simps(3) by meson

lemma started_disciplined:
  assumes "stop_all True (tw_stop w) rt = (rt1, Inr ())" "select_unit w rt1 m amap = (rt2, Inr u)" "m \<noteq> MODE_IDLE"
  shows "disciplined w m amap rt (fst (start_unit w rt2 m u))"
proof -
  obtain ps qs where one: "adds rt (map ME_publish ps @ stops @ map ME_publish qs) rt1"
    using stop_all_adds [of rt True "tw_stop w"] assms(1) by auto
  obtain es where two: "adds rt1 es rt2" "no_start es"
    using select_unit_adds(1) [OF assms(2,3)] by (auto simp: unstarted_def)
  obtain ps' qs' where three: "adds rt2 (map ME_publish ps' @ ME_start u # map ME_publish qs') (fst (start_unit w rt2 m u))"
    using start_unit_adds by blast
  let ?b = "map ME_publish qs @ es @ map ME_publish ps'"
  have "adds rt (map ME_publish ps @ stops @ ?b @ ME_start u # map ME_publish qs') (fst (start_unit w rt2 m u))"
    using adds_trans [OF one adds_trans [OF two(1) three]] by simp
  moreover have "one_start u (map ME_publish ps @ stops @ ?b @ ME_start u # map ME_publish qs')"
    by (rule one_startI [OF refl]) (simp_all add: two)
  moreover have "start_allowed w m amap" "u = unit_of_mode m"
    using select_unit_adds(2) [OF assms(2,3), of u] stop_all_shape [of rt True "tw_stop w"] assms
    by (auto simp: start_allowed_def)
  ultimately show ?thesis unfolding disciplined_def start_discipline_def by blast
qed

lemma perform_disciplined: "disciplined w m amap rt (fst (perform w rt m amap))"
proof -
  obtain rt1 r1 where one: "stop_all True (tw_stop w) rt = (rt1, r1)" by fastforce
  have s1: "unstarted rt rt1" using unstarted_stop_all [of rt True "tw_stop w"] one by simp
  obtain rt2 r2 where two: "select_unit w rt1 m amap = (rt2, r2)" by fastforce
  consider (stopped) e where "r1 = Inl e" | (idle) "r1 = Inr ()" "m = MODE_IDLE"
    | (unselected) e where "r1 = Inr ()" "m \<noteq> MODE_IDLE" "r2 = Inl e"
    | (go) u where "r1 = Inr ()" "m \<noteq> MODE_IDLE" "r2 = Inr u"
    by (cases r1; cases r2; cases "m = MODE_IDLE") auto
  then show ?thesis
  proof cases
    case stopped
    then show ?thesis using one disciplined_unstarted [OF s1] by (simp add: perform_def)
  next
    case idle
    then show ?thesis using one disciplined_unstarted [OF unstarted_trans [OF s1 unstarted_set_state]]
      by (simp add: perform_def)
  next
    case unselected
    then show ?thesis
      using one two disciplined_unstarted [OF unstarted_trans [OF s1 select_unit_adds(1) [OF two]]]
      by (simp add: perform_def)
  next
    case go
    obtain rt3 r3 where three: "start_unit w rt2 m u = (rt3, r3)" by fastforce
    have d: "disciplined w m amap rt rt3" using started_disciplined [of w rt rt1 m amap rt2 u] one two three go by simp
    have d': "disciplined w m amap rt (set_state rt3 s)" for s by (rule disciplined_then [OF d unstarted_set_state])
    show ?thesis using one two three go d d'
      by (simp add: perform_def Let_def split: sum.split prod.split)
  qed
qed

lemma perform_or_fail_disciplined: "disciplined w m amap rt (perform_or_fail w rt m amap)"
proof -
  obtain rt' r where p: "perform w rt m amap = (rt', r)" by fastforce
  have d: "disciplined w m amap rt rt'" using perform_disciplined [of w m amap rt] p by simp
  show ?thesis using p d disciplined_then [OF d unstarted_fail] disciplined_then [OF d unstarted_raise]
    by (cases r) (simp_all add: perform_or_fail_def)
qed

lemma transition_disciplined: "disciplined w m amap rt (mode_transition w rt m request_id amap op)"
proof (cases rule: mode_transition_cases [of request_id rt w m amap op])
  case ignored
  then show ?thesis using disciplined_unstarted [OF unstarted_quiet [OF quiet_refl]] by simp
next
  case (answered d)
  then show ?thesis using disciplined_unstarted [OF unstarted_set_state] by simp
next
  case (started d)
  then show ?thesis using then_disciplined [OF unstarted_set_state perform_or_fail_disciplined] by simp
next
  case (new_map d)
  let ?rt2 = "set_state (act rt ME_quiesce) (begun (rt_state rt) request_id d)"
  obtain rt3 r where q: "wait_for_quiescence [] ?rt2 (tw_quiescence w) = (rt3, r)" by fastforce
  have "unstarted ?rt2 rt3" using unstarted_quiet quiet_quiescence [of ?rt2 "[]" "tw_quiescence w"] q by simp
  then have u: "unstarted rt rt3"
    using unstarted_trans [OF unstarted_trans [OF unstarted_quiesce unstarted_set_state]] by blast
  show ?thesis unfolding new_map(5) q prod.case
    using then_disciplined [OF u perform_or_fail_disciplined] disciplined_unstarted [OF unstarted_trans [OF u unstarted_set_state]]
      disciplined_unstarted [OF unstarted_trans [OF u unstarted_raise]] new_map(2)
    by (simp split: sum.split prod.split)
qed

lemma started_accepted:
  assumes "adds rt es (mode_transition w rt m request_id amap op)" "ME_start u \<in> set es"
  shows "rs_accepted_request_id (rt_state rt) < request_id"
  using assms by (cases rule: mode_transition_cases [of request_id rt w m amap op]) (auto simp: adds_def)

text \<open>
  C31. A transition starts a unit only when the request is newer than every
  accepted one and asks for MAPPING or AUTONOMY; it starts only the unit of
  the requested mode, once, after both units were told to stop without an
  error, both were seen without processes and the mode's nodes were seen gone
  from the graph; for AUTONOMY the selected map passed validation.
\<close>

theorem start_needs_clean_stop:
  assumes "rt_effects (mode_transition w rt m request_id amap op) = rt_effects rt @ es" "ME_start u \<in> set es"
  shows "rs_accepted_request_id (rt_state rt) < request_id \<and> start_allowed w m amap \<and> u = unit_of_mode m \<and> one_start u es"
proof -
  have a: "adds rt es (mode_transition w rt m request_id amap op)" using assms(1) by (simp add: adds_def)
  then have "start_discipline w m amap es"
    using transition_disciplined [of w m amap rt request_id op] by (auto simp: disciplined_def adds_def)
  then show ?thesis using assms(2) no_start_mem one_start_mem started_accepted [OF a assms(2)]
    unfolding start_discipline_def by metis
qed

section \<open>Failing\<close>

lemma perform_fault:
  assumes "rs_lifecycle (rt_state rt) \<noteq> FAULT" "rs_lifecycle (rt_state (perform_or_fail w rt m amap)) = FAULT"
  shows "\<exists>rt1 d. stage rt rt1 \<and> disciplined w m amap rt rt1 \<and> perform_or_fail w rt m amap = fail_mode (tw_fail w) rt1 d"
proof -
  obtain rt1 r where p: "perform w rt m amap = (rt1, r)" by fastforce
  have d: "disciplined w m amap rt rt1" using perform_disciplined [of w m amap rt] p by simp
  note o = perform_outcome [where w = w and rt = rt and m = m and autonomy_map = amap]
  show ?thesis
  proof (cases r)
    case (Inr x)
    then show ?thesis using assms p o settles_state by (simp add: perform_or_fail_def)
  next
    case (Inl e)
    then have s: "stage rt rt1" using o p by simp
    then have "rs_lifecycle (rt_state (act rt1 x)) \<noteq> FAULT" for x
      using assms(1) core_fields(2) [of "rt_state rt1" "rt_state rt"] by (simp add: stage_def act_def)
    then show ?thesis using Inl p s d assms(2) by (auto simp: perform_or_fail_def split: if_splits)
  qed
qed

definition faulted :: "mode_rt \<Rightarrow> mode_rt \<Rightarrow> bool" where
  "faulted rt rt' \<longleftrightarrow> rs_mode (rt_state rt') = MODE_IDLE \<and> \<not> rs_ready (rt_state rt') \<and> rs_mapping_session_id (rt_state rt') = []
     \<and> (\<exists>pre. rt_effects rt' = rt_effects rt @ pre @ stops @ [ME_publish (rt_state rt')])"

lemma faulted_fail: "adds rt es rt1 \<Longrightarrow> faulted rt (fail_mode w rt1 d)"
  unfolding faulted_def using fail_mode_state adds_trans [OF _ fail_mode_adds, of rt es rt1 w d] by (auto simp: adds_def)

lemma refresh_lifecycle: "rs_lifecycle (rt_state (refresh obs rt)) = rs_lifecycle (rt_state rt)"
  by (simp add: refresh_def Let_def set_state_def act_def split: sum.split prod.split)

lemma reconcile_faulted:
  assumes "rs_lifecycle (rt_state rt) \<noteq> FAULT" "rs_lifecycle (rt_state (reconcile w rt)) = FAULT"
  shows "faulted rt (reconcile w rt)"
proof -
  have f: "faulted rt (fail_mode (rw_fail w) rt d)" for d by (rule faulted_fail [of rt "[]"]) (simp add: adds_def)
  have ok: "rs_lifecycle s = STABLE" if "reconcile_result w rt = Inr (Inr s)" for s
    using reconcile_result_state [OF that] by (simp add: adoptable_def)
  show ?thesis
  proof (cases "reconcile_result w rt")
    case (Inl e)
    then show ?thesis using assms f by (auto simp: reconcile_def act_def split: if_splits)
  next
    case (Inr x)
    then show ?thesis using assms f ok by (cases x) (auto simp: reconcile_def set_state_def)
  qed
qed

lemma started_faulted:
  assumes "adds rt es rt0" "rs_lifecycle (rt_state rt0) \<noteq> FAULT" "rs_lifecycle (rt_state (perform_or_fail w rt0 m amap)) = FAULT"
  shows "faulted rt (perform_or_fail w rt0 m amap)"
proof -
  obtain rt1 d where f: "disciplined w m amap rt0 rt1" "perform_or_fail w rt0 m amap = fail_mode (tw_fail w) rt1 d"
    using perform_fault [OF assms(2,3)] by blast
  then obtain fs where "adds rt0 fs rt1" by (auto simp: disciplined_def)
  then show ?thesis unfolding f(2) by (rule faulted_fail [OF adds_trans [OF assms(1)]])
qed

lemma new_map_faulted:
  assumes q: "wait_for_quiescence [] rt2 polls = (rt3, r)" and s: "adds rt es rt2" "rs_lifecycle (rt_state rt2) \<noteq> FAULT"
    and f: "rs_lifecycle (rt_state (perform_or_fail w rt3 m amap)) = FAULT"
  shows "faulted rt (perform_or_fail w rt3 m amap)"
proof -
  have qt: "quiet rt2 rt3" using quiet_quiescence [of rt2 "[]" polls] q by simp
  then obtain ps where a: "adds rt2 (map ME_publish ps) rt3" using adds_quiet by blast
  have "core (rt_state rt3) = core (rt_state rt2)" using qt by (simp add: quiet_def)
  then have "rs_lifecycle (rt_state rt3) \<noteq> FAULT" using s(2) core_fields(2) by metis
  then show ?thesis using started_faulted [OF adds_trans [OF s(1) a]] f by blast
qed

text \<open>
  C32. A runtime that enters FAULT, in a transition or in reconciliation,
  has as its last acts the stop of both units and the publication of the
  fault; the published state is IDLE, not ready and without a mapping session.
\<close>

theorem fault_is_fail_closed:
  assumes "rs_lifecycle (rt_state rt) \<noteq> FAULT" "rs_lifecycle (rt_state (mode_step rt i)) = FAULT"
  shows "faulted rt (mode_step rt i)"
proof (cases i)
  case (MM_transition w m request_id amap op)
  have r: "rs_lifecycle (rt_state (mode_transition w rt m request_id amap op)) = FAULT" using assms(2) MM_transition by simp
  show ?thesis unfolding MM_transition mode_step.simps
  proof (cases rule: mode_transition_cases [of request_id rt w m amap op])
    case ignored
    then show "faulted rt (mode_transition w rt m request_id amap op)" using assms(1) r by simp
  next
    case (answered d)
    then show "faulted rt (mode_transition w rt m request_id amap op)" using assms(1) r by (simp add: set_state_def)
  next
    case (started d)
    then show "faulted rt (mode_transition w rt m request_id amap op)"
      using started_faulted [OF adds_set_state, of rt "begun (rt_state rt) request_id d"] r by (simp add: set_state_def begun_def)
  next
    case (new_map d)
    let ?rt2 = "set_state (act rt ME_quiesce) (begun (rt_state rt) request_id d)"
    obtain rt3 q where q: "wait_for_quiescence [] ?rt2 (tw_quiescence w) = (rt3, q)" by fastforce
    have l: "rs_lifecycle (rt_state rt3) \<noteq> FAULT"
      using quiet_quiescence [of ?rt2 "[]" "tw_quiescence w"] q core_fields(2) [of "rt_state rt3" "rt_state ?rt2"]
      by (simp add: quiet_def set_state_def begun_def)
    have f: "faulted rt (perform_or_fail w rt3 MODE_MAPPING amap)"
      if "rs_lifecycle (rt_state (perform_or_fail w rt3 MODE_MAPPING amap)) = FAULT"
      using new_map_faulted [OF q adds_trans [OF adds_act adds_set_state] _ that] by (simp add: set_state_def begun_def)
    show "faulted rt (mode_transition w rt m request_id amap op)"
      using r f l unfolding new_map(5) q prod.case
      by (auto simp: set_state_def act_def split: sum.splits prod.splits)
  qed
next
  case (MM_reconcile w)
  then show ?thesis using assms reconcile_faulted by simp
next
  case (MM_refresh obs)
  then show ?thesis using assms refresh_lifecycle [of obs rt] by simp
qed

section \<open>Succeeding\<close>

text \<open>Polls that never raise and at one point say yes before the deadline.\<close>

definition polls_reach :: "('a \<Rightarrow> (bool \<times> string) result) \<Rightarrow> 'a list \<Rightarrow> bool" where
  "polls_reach status polls \<longleftrightarrow> list_all (\<lambda>p. case status p of Inl _ \<Rightarrow> False | Inr _ \<Rightarrow> True) polls
     \<and> list_ex (\<lambda>p. case status p of Inl _ \<Rightarrow> False | Inr (ok, _) \<Rightarrow> ok) polls"

lemma polls_reach_Cons:
  "polls_reach status (p # ps) \<longleftrightarrow>
     (case status p of Inl _ \<Rightarrow> False
      | Inr (ok, _) \<Rightarrow> (if ok then list_all (\<lambda>p. case status p of Inl _ \<Rightarrow> False | Inr _ \<Rightarrow> True) ps else polls_reach status ps))"
  by (auto simp: polls_reach_def split: sum.splits prod.splits)

lemma cleanup_reached: "polls_reach unit_cleanup_status polls \<Longrightarrow> snd (wait_for_unit_cleanup progress last_reason rt polls) = Inr ()"
proof (induction polls arbitrary: last_reason rt)
  case Nil
  then show ?case by (simp add: polls_reach_def)
next
  case (Cons p ps)
  then show ?case by (auto simp: polls_reach_Cons split: sum.splits prod.splits if_splits)
qed

lemma readiness_reached: "polls_reach (\<lambda>obs. fully_ready obs m) polls \<Longrightarrow> snd (wait_for_readiness m last_reason rt polls) = Inr ()"
proof (induction polls arbitrary: last_reason rt)
  case Nil
  then show ?case by (simp add: polls_reach_def)
next
  case (Cons p ps)
  then show ?case by (auto simp: polls_reach_Cons split: sum.splits prod.splits if_splits)
qed

lemma quiescence_reached: "list_ex fst polls \<Longrightarrow> snd (wait_for_quiescence last_reason rt polls) = Inr ()"
  by (induction last_reason rt polls rule: wait_for_quiescence.induct) auto

text \<open>A world in which nothing raises and every wait ends in time.\<close>

definition good_stop :: "stop_world \<Rightarrow> bool" where
  "good_stop w \<longleftrightarrow> List.map_filter (sw_stop w) MODE_UNITS = [] \<and> polls_reach unit_cleanup_status (sw_cleanup w)
     \<and> list_ex resources_gone (sw_graph w)"

definition good_world :: "transition_world \<Rightarrow> mode \<Rightarrow> string \<Rightarrow> bool" where
  "good_world w m amap \<longleftrightarrow> good_stop (tw_stop w) \<and> (m \<noteq> MODE_IDLE \<longrightarrow>
     (m = MODE_AUTONOMY \<longrightarrow> tw_write_raises w = None
        \<and> (case validate_bundle (tw_env w) Published (tw_maps w) amap of Inl _ \<Rightarrow> False | Inr _ \<Rightarrow> True))
     \<and> tw_start_raises w = None \<and> polls_reach (\<lambda>obs. fully_ready obs m) (tw_ready w)
     \<and> (case fully_ready (tw_final w) m of Inl _ \<Rightarrow> False | Inr (ok, _) \<Rightarrow> ok))"

lemma stop_all_good:
  assumes "good_stop w"
  shows "snd (stop_all progress w rt) = Inr ()"
proof -
  have g: "List.map_filter (sw_stop w) MODE_UNITS = []" "polls_reach unit_cleanup_status (sw_cleanup w)"
    "wait_resources_gone (sw_graph w) = Inr ()"
    using assms by (simp_all add: good_stop_def wait_resources_gone_def)
  have "\<exists>x. wait_for_unit_cleanup progress [] r (sw_cleanup w) = (x, Inr ())" for r
    using cleanup_reached [OF g(2), of progress "[]" r] by (metis prod.collapse)
  then obtain x where "wait_for_unit_cleanup progress [] (foldl (\<lambda>r u. act r (ME_stop u))
      (if progress then transition_progress rt ''Stopping previous runtime -- requesting service stop'' else rt) MODE_UNITS)
      (sw_cleanup w) = (x, Inr ())" by blast
  then show ?thesis unfolding stop_all_def Let_def g by simp
qed

lemma select_unit_good:
  "good_world w m amap \<Longrightarrow> m \<noteq> MODE_IDLE \<Longrightarrow> snd (select_unit w rt m amap) = Inr (unit_of_mode m)"
  unfolding good_world_def select_unit_def write_map_def
  by (cases m) (auto simp: unit_of_mode_def Let_def split: sum.splits)

lemma start_unit_good: "good_world w m amap \<Longrightarrow> m \<noteq> MODE_IDLE \<Longrightarrow> snd (start_unit w rt m u) = Inr ()"
  unfolding good_world_def start_unit_def by (simp add: Let_def readiness_reached)

lemma perform_good:
  assumes g: "good_world w m amap"
  shows "snd (perform w rt m amap) = Inr ()" "rs_ready (rt_state (fst (perform w rt m amap)))"
    "m = MODE_AUTONOMY \<Longrightarrow> rs_active_autonomy_map (rt_state (fst (perform w rt m amap))) = amap"
proof -
  obtain rt1 where one: "stop_all True (tw_stop w) rt = (rt1, Inr ())"
    using stop_all_good [of "tw_stop w" True rt] g by (cases "stop_all True (tw_stop w) rt") (auto simp: good_world_def)
  have "snd (perform w rt m amap) = Inr () \<and> rs_ready (rt_state (fst (perform w rt m amap)))
    \<and> (m = MODE_AUTONOMY \<longrightarrow> rs_active_autonomy_map (rt_state (fst (perform w rt m amap))) = amap)"
  proof (cases "m = MODE_IDLE")
    case True
    then show ?thesis using one by (simp add: perform_def set_state_def)
  next
    case False
    obtain rt2 where two: "select_unit w rt1 m amap = (rt2, Inr (unit_of_mode m))"
      using select_unit_good [OF g False, of rt1] by (cases "select_unit w rt1 m amap") auto
    obtain rt3 where three: "start_unit w rt2 m (unit_of_mode m) = (rt3, Inr ())"
      using start_unit_good [OF g False, of rt2 "unit_of_mode m"] by (cases "start_unit w rt2 m (unit_of_mode m)") auto
    obtain reason where f: "fully_ready (tw_final w) m = Inr (True, reason)"
      using g False by (auto simp: good_world_def split: sum.splits)
    show ?thesis unfolding perform_def one two three f if_not_P [OF False] prod.case sum.case
      by (simp add: Let_def set_state_def)
  qed
  then show "snd (perform w rt m amap) = Inr ()" "rs_ready (rt_state (fst (perform w rt m amap)))"
    "m = MODE_AUTONOMY \<Longrightarrow> rs_active_autonomy_map (rt_state (fst (perform w rt m amap))) = amap" by blast+
qed

text \<open>\<open>reaches\<close>: the requested mode is the stable, ready runtime, as a fresh epoch of the accepted request.\<close>

definition reaches :: "runtime_state \<Rightarrow> mode \<Rightarrow> int \<Rightarrow> string \<Rightarrow> runtime_state \<Rightarrow> bool" where
  "reaches old m request_id amap s \<longleftrightarrow> rs_lifecycle s = STABLE \<and> rs_mode s = m \<and> rs_ready s
     \<and> rs_accepted_request_id s = request_id \<and> rs_runtime_epoch s = rs_runtime_epoch old + (if m = MODE_IDLE then 0 else 1)
     \<and> (m = MODE_AUTONOMY \<longrightarrow> rs_active_autonomy_map s = amap)"

lemma perform_or_fail_good:
  assumes "good_world w m amap" "rs_accepted_request_id (rt_state rt) = request_id"
    "rs_runtime_epoch (rt_state rt) = rs_runtime_epoch old"
  shows "reaches old m request_id amap (rt_state (perform_or_fail w rt m amap))"
proof -
  note g = perform_good [OF assms(1), of rt]
  obtain rt' where p: "perform w rt m amap = (rt', Inr ())" using g(1) by (cases "perform w rt m amap") auto
  have "settles rt m rt'"
    using perform_outcome [where w = w and rt = rt and m = m and autonomy_map = amap] p by simp
  moreover have "m = MODE_AUTONOMY \<longrightarrow> rs_active_autonomy_map (rt_state rt') = amap" using g(3) p by auto
  ultimately show ?thesis using settles_state [of rt m rt'] g(2) p assms(2,3) by (simp add: reaches_def perform_or_fail_def)
qed

text \<open>Requests that are not answered in place.\<close>

definition must_run :: "transition_world \<Rightarrow> runtime_state \<Rightarrow> mode \<Rightarrow> int \<Rightarrow> string \<Rightarrow> int \<Rightarrow> bool" where
  "must_run w s m request_id amap op \<longleftrightarrow> rs_accepted_request_id s < request_id \<and> (m = MODE_AUTONOMY \<longrightarrow> truthy amap) \<and>
     (if op = OP_NEW_MAP \<and> m = MODE_MAPPING
      then rs_lifecycle s = STABLE \<and> rs_mode s = MODE_MAPPING \<and> truthy (rs_mapping_session_id s) \<and> list_ex fst (tw_quiescence w)
      else \<not> (rs_lifecycle s = STABLE \<and> m = rs_mode s \<and> (m = MODE_AUTONOMY \<longrightarrow> amap = rs_active_autonomy_map s)))"

text \<open>
  C33. A request with a newer id that is not answered in place (NEW MAP: from a
  stable mapping session, and the vehicle is confirmed stationary in time), in
  a world in which every stop command succeeds, the units are seen cleanly
  inactive and the graph empties before the deadlines, no poll of them raises
  before that and, for MAPPING and AUTONOMY, the unit starts, a poll before the
  deadline finds it fully ready and so does the final check, and, for AUTONOMY,
  the named map validates and the selection is written: then the transition
  ends stable and ready in the requested mode under the request's id, also out
  of FAULT. MAPPING and AUTONOMY run under the next epoch, IDLE keeps the epoch.
\<close>

theorem transition_reaches_mode:
  assumes "must_run w (rt_state rt) m request_id amap op" "good_world w m amap"
  shows "reaches (rt_state rt) m request_id amap (rt_state (mode_transition w rt m request_id amap op))"
proof (cases "op = OP_NEW_MAP \<and> m = MODE_MAPPING")
  case False
  then have "mode_transition w rt m request_id amap op =
      perform_or_fail w (set_state rt (begun (rt_state rt) request_id (''transitioning to '' @ mode_name m))) m amap"
    using assms(1) by (auto simp: mode_transition_def must_run_def begun_def Let_def)
  then show ?thesis using perform_or_fail_good [OF assms(2)] by (simp add: set_state_def begun_def)
next
  case True
  let ?rt2 = "set_state (act rt ME_quiesce) (begun (rt_state rt) request_id ''starting fresh mapping session'')"
  obtain rt3 where q: "wait_for_quiescence [] ?rt2 (tw_quiescence w) = (rt3, Inr ())"
    using quiescence_reached [of "tw_quiescence w" "[]" ?rt2] assms(1) True
    by (cases "wait_for_quiescence [] ?rt2 (tw_quiescence w)") (auto simp: must_run_def)
  have "core (rt_state rt3) = core (rt_state ?rt2)" using quiet_quiescence [of ?rt2 "[]" "tw_quiescence w"] q by (simp add: quiet_def)
  note k = core_fields [OF this]
  have "mode_transition w rt m request_id amap op = perform_or_fail w rt3 m amap"
    using assms(1) True q by (auto simp: mode_transition_def must_run_def begun_def Let_def)
  then show ?thesis using perform_or_fail_good [OF assms(2)] k(3,5) by (simp add: set_state_def begun_def)
qed

section \<open>Concrete runs\<close>

definition clean_unit :: unit_state where
  "clean_unit = \<lparr> us_active_state = ''inactive'', us_sub_state = ''dead'', us_main_pid = 0, us_control_group = [], us_processes = [] \<rparr>"

definition busy_unit :: unit_state where
  "busy_unit = \<lparr> us_active_state = ''active'', us_sub_state = ''running'', us_main_pid = 41, us_control_group = ''/a'',
     us_processes = [(41, ''ros2'')] \<rparr>"

definition clean_obs :: cleanup_obs where
  "clean_obs = \<lparr> co_first = (\<lambda>_. Inr clean_unit), co_second = (\<lambda>_. Inr clean_unit) \<rparr>"

definition busy_obs :: cleanup_obs where
  "busy_obs = \<lparr> co_first = (\<lambda>_. Inr busy_unit), co_second = (\<lambda>_. Inr busy_unit) \<rparr>"

definition demo_stop :: stop_world where
  "demo_stop = \<lparr> sw_stop = (\<lambda>_. None), sw_cleanup = [busy_obs, clean_obs], sw_graph = [\<lambda>_. 1, \<lambda>_. 0] \<rparr>"

definition demo_ready :: ready_obs where
  "demo_ready = \<lparr> ro_unit = Inr busy_unit, ro_graph = (\<lambda>n. 1), ro_ownership = True, ro_capability = (True, []) \<rparr>"

definition demo_unready :: ready_obs where
  "demo_unready = demo_ready\<lparr>ro_capability := (False, ''no scan'')\<rparr>"

definition demo_world :: "transition_world" where
  "demo_world = \<lparr> tw_quiescence = [], tw_previous = demo_ready, tw_stop = demo_stop,
     tw_env = demo_base, tw_maps = demo_pub_store, tw_write_raises = None, tw_start_raises = None,
     tw_ready = [demo_unready, demo_ready], tw_final = demo_ready, tw_session = ''ab'', tw_fail = demo_stop \<rparr>"

definition demo_failing :: "transition_world" where
  "demo_failing = demo_world\<lparr>tw_start_raises := Some ''cannot start''\<rparr>"

lemma demo_valid: "validate_bundle demo_base Published demo_pub_store ''kitchen'' = Inr \<lparr> bi_name = ''kitchen'',
     bi_revision = [], bi_session_id = [], bi_resolution = Fin (1 / 16), bi_width = 2, bi_height = 2 \<rparr>"
  using demo_pub_valid [of "\<lambda>_. None"] by (simp add: demo_base_def)

lemma demo_cleanup:
  "unit_cleanup_status clean_obs = Inr (True, [])" "\<exists>r. unit_cleanup_status busy_obs = Inr (False, r)"
  by (simp_all add: unit_cleanup_status_def MODE_UNITS_def clean_obs_def clean_unit_def busy_obs_def busy_unit_def
      read_unit_def cleanly_inactive_def)

lemma demo_stop_good: "good_stop demo_stop"
  using demo_cleanup by (auto simp: good_stop_def polls_reach_def demo_stop_def MODE_UNITS_def List.map_filter_def resources_gone_def
      MODE_NODES_def COMMON_NODES_def AUTONOMY_ONLY_NODES_def)

lemma demo_full:
  "fully_ready demo_ready MODE_AUTONOMY = Inr (True, [])" "fully_ready demo_unready MODE_AUTONOMY = Inr (False, ''no scan'')"
  by (simp_all add: fully_ready_def structural_reason_def demo_ready_def demo_unready_def read_unit_def us_active_def
      busy_unit_def forbidden_nodes_def or_else_def truthy_def)

lemma demo_world_good: "good_world demo_world MODE_AUTONOMY ''kitchen''"
  using demo_stop_good demo_full demo_valid by (simp add: good_world_def demo_world_def polls_reach_def)

lemma demo_must_run: "must_run demo_world (rt_state (new_mode_rt None)) MODE_AUTONOMY 1 ''kitchen'' 0"
  by (simp add: must_run_def new_mode_rt_def truthy_def)

text \<open>Witness: from IDLE to AUTONOMY with the map \<open>kitchen\<close>, the units busy and unready at first.\<close>

theorem transition_reaches_mode_witness:
  "reaches (rt_state (new_mode_rt None)) MODE_AUTONOMY 1 ''kitchen''
     (rt_state (mode_transition demo_world (new_mode_rt None) MODE_AUTONOMY 1 ''kitchen'' 0))"
  by (rule transition_reaches_mode [OF demo_must_run demo_world_good])

lemma demo_failing_perform:
  "\<exists>rt' e. perform demo_failing rt MODE_AUTONOMY ''kitchen'' = (rt', Inl (RuntimeError e)) \<and> ME_start AUTONOMY_UNIT \<in> set (rt_effects rt')"
proof -
  obtain rt1 where one: "stop_all True (tw_stop demo_failing) rt = (rt1, Inr ())"
    using stop_all_good [OF demo_stop_good, of True rt]
    by (cases "stop_all True demo_stop rt") (simp add: demo_failing_def demo_world_def)
  obtain rt2 where two: "select_unit demo_failing rt1 MODE_AUTONOMY ''kitchen'' = (rt2, Inr AUTONOMY_UNIT)"
    by (simp add: select_unit_def write_map_def demo_failing_def demo_world_def demo_valid Let_def)
  obtain rt3 e where three: "start_unit demo_failing rt2 MODE_AUTONOMY AUTONOMY_UNIT = (rt3, Inl (RuntimeError e))"
      "ME_start AUTONOMY_UNIT \<in> set (rt_effects rt3)"
    by (simp add: start_unit_def demo_failing_def Let_def act_def)
  show ?thesis using three(2) by (simp add: perform_def one two three(1))
qed

lemma demo_failing_run:
  "rs_lifecycle (rt_state (mode_transition demo_failing (new_mode_rt None) MODE_AUTONOMY 1 ''kitchen'' 0)) = FAULT
   \<and> ME_start AUTONOMY_UNIT \<in> set (rt_effects (mode_transition demo_failing (new_mode_rt None) MODE_AUTONOMY 1 ''kitchen'' 0))"
proof -
  have "\<exists>rt0. mode_transition demo_failing (new_mode_rt None) MODE_AUTONOMY 1 ''kitchen'' 0 =
      perform_or_fail demo_failing rt0 MODE_AUTONOMY ''kitchen''"
    by (simp add: mode_transition_def new_mode_rt_def Let_def) blast
  then obtain rt0 where run: "mode_transition demo_failing (new_mode_rt None) MODE_AUTONOMY 1 ''kitchen'' 0 =
      perform_or_fail demo_failing rt0 MODE_AUTONOMY ''kitchen''" by blast
  obtain rt' e where p: "perform demo_failing rt0 MODE_AUTONOMY ''kitchen'' = (rt', Inl (RuntimeError e))"
      "ME_start AUTONOMY_UNIT \<in> set (rt_effects rt')"
    using demo_failing_perform [of rt0] by blast
  show ?thesis unfolding run using p fail_mode_state(1) fail_mode_adds
    by (simp add: perform_or_fail_def adds_def)
qed

text \<open>Witnesses: a start call that fails.\<close>

theorem start_needs_clean_stop_witness:
  "start_allowed demo_failing MODE_AUTONOMY ''kitchen''
   \<and> one_start AUTONOMY_UNIT (rt_effects (mode_transition demo_failing (new_mode_rt None) MODE_AUTONOMY 1 ''kitchen'' 0))"
  using start_needs_clean_stop [of demo_failing "new_mode_rt None" MODE_AUTONOMY 1 "''kitchen''" 0 _ AUTONOMY_UNIT]
    demo_failing_run by (simp add: new_mode_rt_def)

theorem fault_is_fail_closed_witness:
  "faulted (new_mode_rt None) (mode_step (new_mode_rt None) (MM_transition demo_failing MODE_AUTONOMY 1 ''kitchen'' 0))"
proof (rule fault_is_fail_closed)
  show "rs_lifecycle (rt_state (new_mode_rt None)) \<noteq> FAULT" by (simp add: new_mode_rt_def)
  show "rs_lifecycle (rt_state (mode_step (new_mode_rt None) (MM_transition demo_failing MODE_AUTONOMY 1 ''kitchen'' 0))) = FAULT"
    using demo_failing_run by simp
qed

end
