(* ===== verification/CommandAuthority.thy ===== *)
theory CommandAuthority
  imports NavigationRuntime StopEnforcer CommandSupervisor
begin

text \<open>
  The command authority node (\<open>runner_paddock/command_authority_node.py\<close>): the only
  writer of the supervised autonomy and manual mux inputs. The node is the
  record \<open>authority_node\<close> (fields prefixed \<open>an_\<close>) around the supervisor; each
  callback is a function on it, and what it publishes is collected in order in
  \<open>an_effects\<close>. A callback reads the clock several times, so it takes a record
  of readings, one field per reading. Message stamps and log texts are left
  out; the identifiers from \<open>uuid\<close> are inputs, sine and cosine come from the
  environment of the navigation runtime.
\<close>

section \<open>Constants and messages\<close>

definition DEFAULT_AUTO_BRAKE_WINDOW_SEC :: pyfloat where "DEFAULT_AUTO_BRAKE_WINDOW_SEC = dbl (30 / 100)"
definition DEFAULT_SUPERVISION_PERIOD_SEC :: pyfloat where "DEFAULT_SUPERVISION_PERIOD_SEC = dbl (10 / 1000)"
definition DEFAULT_LOCAL_CONTROL_TIMEOUT_SEC :: pyfloat where "DEFAULT_LOCAL_CONTROL_TIMEOUT_SEC = dbl (100 / 1000)"
definition DEFAULT_STOP_STATE_TIMEOUT_SEC :: pyfloat where "DEFAULT_STOP_STATE_TIMEOUT_SEC = dbl (150 / 1000)"
definition DEFAULT_NAVIGATION_STATE_TIMEOUT_SEC :: pyfloat where "DEFAULT_NAVIGATION_STATE_TIMEOUT_SEC = Fin 1"
definition STATUS_HEARTBEAT_PERIOD_SEC :: pyfloat where "STATUS_HEARTBEAT_PERIOD_SEC = dbl (2 / 10)"

record authority_msg =
  am_authority :: authority
  am_client_id :: string
  am_lease_id :: string
  am_dualsense_active :: bool
  am_run_held :: bool
  am_autonomy_permitted :: bool
  am_autonomy_goal_selected :: bool
  am_goal_frame :: string
  am_goal_map :: string
  am_goal_x :: pyfloat
  am_goal_y :: pyfloat
  am_goal_yaw :: pyfloat
  am_autonomy_action_active :: bool
  am_brake_intent :: bool
  am_lease_fresh :: bool
  am_lease_age_sec :: pyfloat
  am_raw_autonomy_fresh :: bool
  am_raw_autonomy_age_sec :: pyfloat
  am_manual_input_fresh :: bool
  am_manual_input_age_sec :: pyfloat
  am_manual_applied_speed_mps :: pyfloat
  am_manual_applied_steering :: pyfloat
  am_last_control_sequence :: int
  am_reason :: string
  am_stop_state_fresh :: bool
  am_stop_healthy :: bool
  am_stop_applied :: bool
  am_stop_clear :: bool
  am_stop_boot_id :: string
  am_stop_generation :: int
  am_stop_reason :: string
  am_runtime_epoch :: int

record lease_msg =
  lm_active :: bool
  lm_client_id :: string
  lm_lease_id :: string
  lm_generation :: int

record demand_msg =
  dm_active :: bool
  dm_sequence :: int
  dm_lease_generation :: int
  dm_runtime_epoch :: int
  dm_signed_speed_mps :: pyfloat
  dm_steering_normalized :: pyfloat

record config_msg =
  cm_request_id :: int
  cm_revision :: int
  cm_requested_value :: pyfloat
  cm_applied_value :: pyfloat
  cm_accepted :: bool
  cm_reason :: string

datatype nav_operation = NAV_SELECT | NAV_DISPATCH | NAV_CANCEL

record nav_msg =
  nq_lease_id :: string
  nq_operation :: nav_operation
  nq_mission_id :: string
  nq_mission_revision :: int
  nq_runtime_epoch :: int
  nq_map_id :: string
  nq_mission_type :: int
  nq_poses :: "mission_pose list"

datatype authority_effect =
    AE_auto velocity_command
  | AE_paddock velocity_command
  | AE_demand demand_msg
  | AE_nav nav_msg
  | AE_stop stop_request
  | AE_status authority_msg lease_msg
  | AE_config config_msg

text \<open>\<open>_status_key\<close>: the messages without stamps and ages.\<close>

definition status_key :: "authority_msg \<Rightarrow> lease_msg \<Rightarrow> authority_msg \<times> lease_msg" where
  "status_key a l = (a\<lparr>am_lease_age_sec := Fin 0, am_raw_autonomy_age_sec := Fin 0, am_manual_input_age_sec := Fin 0\<rparr>, l)"

section \<open>The output gate\<close>

definition zero_command :: velocity_command where
  "zero_command = \<lparr>vc_linear_x = Fin 0, vc_linear_y = Fin 0, vc_linear_z = Fin 0,
     vc_angular_x = Fin 0, vc_angular_y = Fin 0, vc_angular_z = Fin 0\<rparr>"

record output_gate =
  gt_brake_window_sec :: pyfloat
  gt_was_forwarding :: bool
  gt_brake_deadline :: "pyfloat option"

definition new_gate :: "pyfloat \<Rightarrow> output_gate" where
  "new_gate w = \<lparr>gt_brake_window_sec = w, gt_was_forwarding = False, gt_brake_deadline = None\<rparr>"

definition gate_update ::
  "output_gate \<Rightarrow> pyfloat \<Rightarrow> bool \<Rightarrow> velocity_command option \<Rightarrow> output_gate \<times> velocity_command option" where
  "gate_update g now permitted command =
     (if permitted \<and> command \<noteq> None
      then (g\<lparr>gt_was_forwarding := True, gt_brake_deadline := None\<rparr>, command)
      else if permitted then (g\<lparr>gt_brake_deadline := None\<rparr>, None)
      else (let g1 = (if gt_was_forwarding g
                      then g\<lparr>gt_was_forwarding := False, gt_brake_deadline := Some (fadd now (gt_brake_window_sec g))\<rparr>
                      else g)
            in case gt_brake_deadline g1 of
                 None \<Rightarrow> (g1, None)
               | Some deadline \<Rightarrow>
                   if fle now deadline then (g1, Some zero_command)
                   else (g1\<lparr>gt_brake_deadline := None\<rparr>, None)))"

section \<open>The node\<close>

record authority_node =
  an_supervisor :: supervisor
  an_config_revision :: int
  an_config_request_id :: int
  an_config_requested_value :: pyfloat
  an_config_accepted :: bool
  an_config_reason :: string
  an_local_control_timeout :: pyfloat
  an_last_local_control_at :: "pyfloat option"
  an_local_control_identity :: "(string \<times> int) option"
  an_dualsense_active :: bool
  an_requester_id :: string
  an_stop_request_id :: int
  an_pending_stop_request :: "stop_request option"
  an_last_stop_request_at :: "pyfloat option"
  an_stop_state :: "stop_state option"
  an_stop_state_at :: "pyfloat option"
  an_runtime_epoch :: int
  an_mission_id :: string
  an_mission_revision :: int
  an_nav_last_goal_key :: "goal_intent option"
  an_nav_last_dispatch_active :: bool
  an_nav_action_active :: bool
  an_nav_state_at :: "pyfloat option"
  an_last_status_publish_at :: "pyfloat option"
  an_last_status_key :: "(authority_msg \<times> lease_msg) option"
  an_auto_gate :: output_gate
  an_manual_gate :: output_gate
  an_manual_demand_asserted :: bool
  an_effects :: "authority_effect list"

definition emits :: "authority_node \<Rightarrow> authority_effect \<Rightarrow> authority_node" where
  "emits n e = n\<lparr>an_effects := an_effects n @ [e]\<rparr>"

text \<open>The readings of one callback, and the text of its \<open>uuid4\<close>.\<close>

record callback_io =
  io_call :: pyfloat
  io_check :: pyfloat
  io_sent :: pyfloat
  io_apply :: pyfloat
  io_state :: pyfloat
  io_uuid :: string

definition recent :: "pyfloat option \<Rightarrow> pyfloat \<Rightarrow> pyfloat \<Rightarrow> bool" where
  "recent stamp now limit = (case stamp of None \<Rightarrow> False | Some t \<Rightarrow> fle (fsub now t) limit)"

definition stop_is_fresh :: "authority_node \<Rightarrow> pyfloat \<Rightarrow> bool" where
  "stop_is_fresh n now = (an_stop_state n \<noteq> None \<and> recent (an_stop_state_at n) now DEFAULT_STOP_STATE_TIMEOUT_SEC)"

definition stop_clear :: "authority_node \<Rightarrow> pyfloat \<Rightarrow> bool" where
  "stop_clear n now =
     (stop_is_fresh n now
      \<and> (case an_stop_state n of None \<Rightarrow> False
         | Some m \<Rightarrow> ss_healthy m \<and> \<not> ss_stopped m \<and> \<not> ss_locked m))"

definition navigation_state_fresh :: "authority_node \<Rightarrow> pyfloat \<Rightarrow> bool" where
  "navigation_state_fresh n now = recent (an_nav_state_at n) now DEFAULT_NAVIGATION_STATE_TIMEOUT_SEC"

subsection \<open>Status\<close>

definition authority_message :: "snapshot \<Rightarrow> stop_state option \<Rightarrow> bool \<Rightarrow> bool \<Rightarrow> int \<Rightarrow> authority_msg" where
  "authority_message sn stop stop_fresh nav_action_active epoch =
     (let s = sn_state sn; g = ps_goal s;
          goal_field = (\<lambda>f. case g of None \<Rightarrow> Fin 0 | Some i \<Rightarrow> f i);
          age = (\<lambda>a. case a of None \<Rightarrow> Fin (- 1) | Some x \<Rightarrow> x);
          m = (if stop_fresh then stop else None);
          flag = (\<lambda>f. case m of None \<Rightarrow> False | Some x \<Rightarrow> f x)
      in \<lparr> am_authority = authority_of s, am_client_id = ps_lease_client_id s, am_lease_id = ps_lease_id s,
           am_dualsense_active = ps_dualsense_active s, am_run_held = ps_run_held s,
           am_autonomy_permitted = autonomy_permitted s, am_autonomy_goal_selected = (g \<noteq> None),
           am_goal_frame = (if g \<noteq> None then ''map'' else []),
           am_goal_map = (case g of None \<Rightarrow> [] | Some i \<Rightarrow> gi_map_name i),
           am_goal_x = goal_field gi_x, am_goal_y = goal_field gi_y, am_goal_yaw = goal_field gi_yaw,
           am_autonomy_action_active = nav_action_active,
           am_brake_intent = sn_brake_intent sn, am_lease_fresh = sn_lease_fresh sn,
           am_lease_age_sec = age (sn_lease_age_sec sn),
           am_raw_autonomy_fresh = sn_raw_autonomy_fresh sn,
           am_raw_autonomy_age_sec = age (sn_raw_autonomy_age_sec sn),
           am_manual_input_fresh = sn_manual_input_fresh sn,
           am_manual_input_age_sec = age (sn_manual_input_age_sec sn),
           am_manual_applied_speed_mps = sn_manual_applied_speed_mps sn,
           am_manual_applied_steering = sn_manual_applied_steering sn,
           am_last_control_sequence = (case sn_last_control_sequence sn of None \<Rightarrow> 0 | Some q \<Rightarrow> q),
           am_reason = sn_reason sn, am_stop_state_fresh = stop_fresh,
           am_stop_healthy = flag ss_healthy, am_stop_applied = flag ss_applied,
           am_stop_clear = flag (\<lambda>x. ss_healthy x \<and> \<not> ss_stopped x \<and> \<not> ss_locked x),
           am_stop_boot_id = (case m of None \<Rightarrow> [] | Some x \<Rightarrow> ss_boot_id x),
           am_stop_generation = (case m of None \<Rightarrow> 0 | Some x \<Rightarrow> ss_generation x),
           am_stop_reason = (case m of None \<Rightarrow> ''STOP_STATE_STALE'' | Some x \<Rightarrow> ss_reason x),
           am_runtime_epoch = epoch \<rparr>)"

definition lease_message :: "paddock_state \<Rightarrow> lease_msg" where
  "lease_message s = \<lparr> lm_active = lease_active s, lm_client_id = ps_lease_client_id s,
     lm_lease_id = ps_lease_id s, lm_generation = ps_lease_generation s \<rparr>"

definition publish_status :: "authority_node \<Rightarrow> snapshot \<Rightarrow> pyfloat \<Rightarrow> authority_node" where
  "publish_status n sn now =
     (let a = authority_message sn (an_stop_state n) (stop_is_fresh n now)
                (an_nav_action_active n \<and> navigation_state_fresh n now) (an_runtime_epoch n);
          l = lease_message (sn_state sn); key = status_key a l;
          due = (case an_last_status_publish_at n of None \<Rightarrow> True
                 | Some t \<Rightarrow> fle STATUS_HEARTBEAT_PERIOD_SEC (fsub now t))
      in if an_last_status_key n = Some key \<and> \<not> due then n
         else (emits n (AE_status a l))\<lparr>an_last_status_key := Some key, an_last_status_publish_at := Some now\<rparr>)"

subsection \<open>Navigation intent\<close>

text \<open>\<open>x / 2.0\<close>, which never divides by zero.\<close>

definition half :: "pyfloat \<Rightarrow> pyfloat" where
  "half x = (case fdiv x (Fin 2) of Inl e \<Rightarrow> NaN | Inr y \<Rightarrow> y)"

definition publish_nav_request ::
  "nav_env \<Rightarrow> authority_node \<Rightarrow> nav_operation \<Rightarrow> paddock_state \<Rightarrow> goal_intent option \<Rightarrow> authority_node" where
  "publish_nav_request env n operation s goal =
     emits n (AE_nav \<lparr> nq_lease_id = ps_lease_id s, nq_operation = operation, nq_mission_id = an_mission_id n,
       nq_mission_revision = an_mission_revision n, nq_runtime_epoch = an_runtime_epoch n,
       nq_map_id = ps_active_autonomy_map s, nq_mission_type = MISSION_SINGLE_GOAL,
       nq_poses = (case goal of
          Some g \<Rightarrow> if operation = NAV_SELECT
            then [\<lparr> mp_frame_id = ''map'', mp_position = (gi_x g, gi_y g, Fin 0),
                   mp_orientation = (Fin 0, Fin 0, ne_sin env (half (gi_yaw g)), ne_cos env (half (gi_yaw g))) \<rparr>]
            else []
        | None \<Rightarrow> []) \<rparr>)"

definition sync_goal :: "nav_env \<Rightarrow> string \<Rightarrow> authority_node \<Rightarrow> paddock_state \<Rightarrow> authority_node" where
  "sync_goal env uuid n s =
     (let goal = ps_goal s in
      if goal = an_nav_last_goal_key n then n
      else (let n1 = (case goal of
              Some g \<Rightarrow> publish_nav_request env
                (n\<lparr>an_mission_revision := an_mission_revision n + 1, an_mission_id := uuid\<rparr>) NAV_SELECT s goal
            | None \<Rightarrow> publish_nav_request env n NAV_CANCEL s None)
            in n1\<lparr>an_nav_last_goal_key := goal\<rparr>))"

definition sync_dispatch :: "nav_env \<Rightarrow> authority_node \<Rightarrow> paddock_state \<Rightarrow> authority_node" where
  "sync_dispatch env n s =
     (let active = ps_navigation_active s;
          n1 = (if active \<and> \<not> an_nav_last_dispatch_active n then publish_nav_request env n NAV_DISPATCH s (ps_goal s)
                else if \<not> active \<and> an_nav_last_dispatch_active n then publish_nav_request env n NAV_CANCEL s None
                else n)
      in n1\<lparr>an_nav_last_dispatch_active := active\<rparr>)"

definition sync_navigation :: "nav_env \<Rightarrow> string \<Rightarrow> authority_node \<Rightarrow> paddock_state \<Rightarrow> authority_node" where
  "sync_navigation env uuid n s = sync_dispatch env (sync_goal env uuid n s) s"

subsection \<open>Applying a supervisor result\<close>

definition publish_demand :: "authority_node \<Rightarrow> sup_result \<Rightarrow> authority_node" where
  "publish_demand n r =
     (let s = sn_state (sr_snapshot r) in
      case sr_manual_demand r of
        Some d \<Rightarrow>
          (emits n (AE_demand \<lparr> dm_active = True, dm_sequence = md_sequence d, dm_lease_generation = ps_lease_generation s,
             dm_runtime_epoch = an_runtime_epoch n, dm_signed_speed_mps = md_signed_speed_mps d,
             dm_steering_normalized = md_steering_normalized d \<rparr>))\<lparr>an_manual_demand_asserted := True\<rparr>
      | None \<Rightarrow>
          if an_manual_demand_asserted n \<and> \<not> ps_manual_active s
          then (emits n (AE_demand \<lparr> dm_active = False, dm_sequence = 0, dm_lease_generation = ps_lease_generation s,
                 dm_runtime_epoch = an_runtime_epoch n, dm_signed_speed_mps = Fin 0,
                 dm_steering_normalized = Fin 0 \<rparr>))\<lparr>an_manual_demand_asserted := False\<rparr>
          else n)"

definition auto_permitted :: "authority_node \<Rightarrow> sup_result \<Rightarrow> pyfloat \<Rightarrow> bool" where
  "auto_permitted n r now =
     (\<not> sn_brake_intent (sr_snapshot r) \<and> stop_clear n now
      \<and> an_nav_action_active n \<and> navigation_state_fresh n now)"

definition manual_permitted :: "authority_node \<Rightarrow> sup_result \<Rightarrow> pyfloat \<Rightarrow> bool" where
  "manual_permitted n r now =
     (stop_clear n now \<and> authority_of (sn_state (sr_snapshot r)) = AUTH_PADDOCK_MANUAL
      \<and> sn_manual_input_fresh (sr_snapshot r))"

definition publish_auto :: "authority_node \<Rightarrow> sup_result \<Rightarrow> pyfloat \<Rightarrow> authority_node" where
  "publish_auto n r now =
     (let (g, output) = gate_update (an_auto_gate n) now (auto_permitted n r now) (sr_autonomy_command r);
          n1 = n\<lparr>an_auto_gate := g\<rparr>
      in case output of None \<Rightarrow> n1 | Some c \<Rightarrow> emits n1 (AE_auto c))"

definition publish_manual :: "authority_node \<Rightarrow> sup_result \<Rightarrow> pyfloat \<Rightarrow> authority_node" where
  "publish_manual n r now =
     (let (g, output) = gate_update (an_manual_gate n) now (manual_permitted n r now) (sr_manual_command r);
          n1 = n\<lparr>an_manual_gate := g\<rparr>
      in case output of None \<Rightarrow> n1 | Some c \<Rightarrow> emits n1 (AE_paddock c))"

definition apply_result :: "nav_env \<Rightarrow> callback_io \<Rightarrow> authority_node \<Rightarrow> sup_result \<Rightarrow> authority_node" where
  "apply_result env io n r =
     (let n1 = publish_demand n r;
          n2 = publish_auto n1 r (io_apply io);
          n3 = publish_manual n2 r (io_apply io);
          n4 = sync_navigation env (io_uuid io) n3 (sn_state (sr_snapshot r))
      in publish_status n4 (sr_snapshot r) (io_state io))"

text \<open>The new supervisor is stored and its result applied.\<close>

definition supervise :: "nav_env \<Rightarrow> callback_io \<Rightarrow> authority_node \<Rightarrow> supervisor \<times> sup_result \<Rightarrow> authority_node" where
  "supervise env io n cr = apply_result env io (n\<lparr>an_supervisor := fst cr\<rparr>) (snd cr)"

section \<open>Callbacks\<close>

definition on_raw_autonomy :: "nav_env \<Rightarrow> callback_io \<Rightarrow> authority_node \<Rightarrow> velocity_command \<Rightarrow> authority_node" where
  "on_raw_autonomy env io n command = supervise env io n (receive_raw_autonomy (an_supervisor n) command (io_call io))"

definition publish_config_state :: "authority_node \<Rightarrow> authority_node" where
  "publish_config_state n =
     emits n (AE_config \<lparr> cm_request_id = an_config_request_id n, cm_revision = an_config_revision n,
       cm_requested_value = an_config_requested_value n,
       cm_applied_value = cs_manual_max_speed_mps (an_supervisor n),
       cm_accepted = an_config_accepted n, cm_reason = an_config_reason n \<rparr>)"

record config_request =
  cr_request_id :: int
  cr_lease_id :: string
  cr_expected_revision :: int
  cr_field :: string
  cr_value :: pyfloat

definition on_config_request :: "authority_node \<Rightarrow> config_request \<Rightarrow> authority_node" where
  "on_config_request n m =
     (let s = cs_state (an_supervisor n);
          n1 = n\<lparr>an_config_request_id := cr_request_id m,
                 an_config_requested_value := (if isfinite (cr_value m) then cr_value m
                                               else cs_manual_max_speed_mps (an_supervisor n)),
                 an_config_accepted := False\<rparr>;
          n2 = (if \<not> lease_active s \<or> cr_lease_id m \<noteq> ps_lease_id s then n1\<lparr>an_config_reason := ''LEASE_NOT_OWNED''\<rparr>
                else if cr_expected_revision m \<noteq> an_config_revision n then n1\<lparr>an_config_reason := ''STALE_REVISION''\<rparr>
                else if cr_field m \<noteq> ''manual_max_speed_mps'' then n1\<lparr>an_config_reason := ''UNKNOWN_FIELD''\<rparr>
                else case set_manual_max_speed_mps (an_supervisor n) (cr_value m) of
                    Inl (ValueError text) \<Rightarrow> n1\<lparr>an_config_reason := text\<rparr>
                  | Inl e \<Rightarrow> n1
                  | Inr c \<Rightarrow> n1\<lparr>an_supervisor := c, an_config_revision := an_config_revision n + 1,
                                an_config_accepted := True, an_config_reason := ''APPLIED''\<rparr>)
      in publish_config_state n2)"

definition publish_stop_request :: "authority_node \<Rightarrow> stop_request \<Rightarrow> pyfloat \<Rightarrow> authority_node" where
  "publish_stop_request n q now = (emits n (AE_stop q))\<lparr>an_last_stop_request_at := Some now\<rparr>"

text \<open>\<open>_request_stop\<close>; a clear request names the boot and generation last reported.\<close>

definition request_stop :: "authority_node \<Rightarrow> bool \<Rightarrow> pyfloat \<Rightarrow> authority_node" where
  "request_stop n stopped now =
     (let q = \<lparr> rq_requester_id = an_requester_id n, rq_request_id = an_stop_request_id n + 1,
                rq_expected_boot_id = (case an_stop_state n of Some m \<Rightarrow> if stopped then [] else ss_boot_id m | None \<Rightarrow> []),
                rq_expected_generation = (case an_stop_state n of Some m \<Rightarrow> if stopped then 0 else ss_generation m | None \<Rightarrow> 0),
                rq_stopped = stopped \<rparr>
      in publish_stop_request
           (n\<lparr>an_stop_request_id := an_stop_request_id n + 1, an_pending_stop_request := Some q\<rparr>) q now)"

fun control_event_of :: "int \<Rightarrow> control_event option" where
  "control_event_of k =
     (if k = 0 then Some CE_RUN_PRESSED else if k = 1 then Some CE_RUN_RELEASED else if k = 2 then Some CE_STOP
      else if k = 3 then Some CE_MANUAL_ACTIVE else if k = 4 then Some CE_MANUAL_INACTIVE
      else if k = 5 then Some CE_GOAL_SELECTED else if k = 6 then Some CE_LEASE_ACQUIRED
      else if k = 7 then Some CE_LEASE_RELEASED else if k = 8 then Some CE_LEASE_LOST
      else if k = 9 then Some CE_HEARTBEAT else if k = 10 then Some CE_CLEAR_STOP else None)"

text \<open>A control event message: its event number and the other fields, read into a \<open>control_input\<close>.\<close>

definition on_control_event :: "nav_env \<Rightarrow> callback_io \<Rightarrow> authority_node \<Rightarrow> int \<Rightarrow> control_input \<Rightarrow> authority_node" where
  "on_control_event env io n k i =
     (case control_event_of k of
        None \<Rightarrow> n
      | Some e \<Rightarrow>
          (let (c, r) = handle_control_event (an_supervisor n) (i\<lparr>ci_event := e, ci_now := io_call io\<rparr>);
               n1 = n\<lparr>an_supervisor := c\<rparr>;
               n2 = (if \<not> sr_accepted r then n1
                     else if e = CE_STOP then request_stop n1 True (io_sent io)
                     else if e = CE_CLEAR_STOP \<and> stop_is_fresh n1 (io_check io)
                          \<and> (case an_stop_state n1 of None \<Rightarrow> False
                             | Some m \<Rightarrow> ss_healthy m \<and> ss_stopped m \<and> ss_applied m)
                     then request_stop n1 False (io_sent io)
                     else n1)
           in apply_result env io n2 r))"

record converted_command =
  cv_source :: int
  cv_sequence :: int
  cv_lease_generation :: int
  cv_runtime_epoch :: int
  cv_command :: velocity_command

definition SOURCE_PADDOCK_MANUAL :: int where "SOURCE_PADDOCK_MANUAL = 1"

definition on_raw_manual :: "nav_env \<Rightarrow> callback_io \<Rightarrow> authority_node \<Rightarrow> converted_command \<Rightarrow> authority_node" where
  "on_raw_manual env io n m =
     (if cv_source m \<noteq> SOURCE_PADDOCK_MANUAL \<or> cv_runtime_epoch m \<noteq> an_runtime_epoch n
         \<or> cv_lease_generation m \<noteq> ps_lease_generation (cs_state (an_supervisor n))
      then n
      else supervise env io n (receive_raw_manual (an_supervisor n) (cv_command m) (cv_sequence m) (io_call io)))"

text \<open>\<open>_on_stop_state\<close>: a pending request ends when it was refused or has taken effect.\<close>

definition on_stop_state :: "authority_node \<Rightarrow> stop_state \<Rightarrow> pyfloat \<Rightarrow> authority_node" where
  "on_stop_state n m now =
     (let n1 = n\<lparr>an_stop_state := Some m, an_stop_state_at := Some now\<rparr> in
      case an_pending_stop_request n of
        None \<Rightarrow> n1
      | Some q \<Rightarrow>
          if ss_last_requester_id m \<noteq> rq_requester_id q \<or> ss_last_request_id m \<noteq> rq_request_id q then n1
          else if \<not> ss_last_request_accepted m then n1\<lparr>an_pending_stop_request := None\<rparr>
          else if rq_stopped q \<and> ss_applied m then n1\<lparr>an_pending_stop_request := None\<rparr>
          else if \<not> rq_stopped q \<and> ss_healthy m \<and> \<not> ss_stopped m \<and> \<not> ss_locked m
          then n1\<lparr>an_pending_stop_request := None\<rparr> else n1)"

record mode_state_msg =
  mo_mode :: int
  mo_status :: int
  mo_ready :: bool
  mo_runtime_epoch :: int
  mo_active_autonomy_map :: string

fun mode_of :: "int \<Rightarrow> mode option" where
  "mode_of k = (if k = 0 then Some MODE_IDLE else if k = 1 then Some MODE_MAPPING
                else if k = 2 then Some MODE_AUTONOMY else None)"

definition STATUS_STABLE :: int where "STATUS_STABLE = 0"

definition on_mode :: "nav_env \<Rightarrow> callback_io \<Rightarrow> authority_node \<Rightarrow> mode_state_msg \<Rightarrow> authority_node" where
  "on_mode env io n m =
     (case mode_of (mo_mode m) of
        None \<Rightarrow> n
      | Some mode \<Rightarrow>
          supervise env io (n\<lparr>an_runtime_epoch := mo_runtime_epoch m\<rparr>)
            (set_runtime_mode (an_supervisor n) mode (mo_active_autonomy_map m) (io_call io)
               (mo_status m = STATUS_STABLE \<and> mo_ready m)))"

text \<open>Setting the local takeover; a second application in one callback has its own readings.\<close>

definition set_takeover :: "nav_env \<Rightarrow> callback_io \<Rightarrow> authority_node \<Rightarrow> bool \<Rightarrow> authority_node" where
  "set_takeover env io n active =
     supervise env io (n\<lparr>an_dualsense_active := active\<rparr>) (set_dualsense_active (an_supervisor n) active (io_call io))"

definition on_local_control ::
  "nav_env \<Rightarrow> callback_io \<Rightarrow> callback_io \<Rightarrow> authority_node \<Rightarrow> string \<times> int \<Rightarrow> bool \<Rightarrow> authority_node" where
  "on_local_control env io io2 n identity active =
     (let n1 = n\<lparr>an_last_local_control_at := Some (io_call io)\<rparr>;
          n2 = (if Some identity \<noteq> an_local_control_identity n1
                then (let n' = n1\<lparr>an_local_control_identity := Some identity\<rparr>
                      in if \<not> an_dualsense_active n' then set_takeover env io n' True else n')
                else n1)
      in if active = an_dualsense_active n2 then n2
         else set_takeover env (io2\<lparr>io_call := io_call io\<rparr>) n2 active)"

definition on_supervision_timer :: "nav_env \<Rightarrow> callback_io \<Rightarrow> callback_io \<Rightarrow> authority_node \<Rightarrow> authority_node" where
  "on_supervision_timer env io io2 n =
     (let now = io_call io;
          n1 = (case an_pending_stop_request n of
                  None \<Rightarrow> n
                | Some q \<Rightarrow>
                    if (case an_last_stop_request_at n of None \<Rightarrow> True | Some t \<Rightarrow> fle (dbl (5 / 100)) (fsub now t))
                    then publish_stop_request n q now else n);
          n2 = (if \<not> an_dualsense_active n1
                   \<and> (case an_last_local_control_at n1 of None \<Rightarrow> True
                      | Some t \<Rightarrow> flt (an_local_control_timeout n1) (fsub now t))
                then set_takeover env io n1 True else n1)
      in supervise env io2 n2 (CommandSupervisor.tick (an_supervisor n2) now))"

definition STATE_ACTIVE :: int where "STATE_ACTIVE = 2"

definition on_navigation_state :: "authority_node \<Rightarrow> int \<Rightarrow> pyfloat \<Rightarrow> authority_node" where
  "on_navigation_state n state now =
     n\<lparr>an_nav_state_at := Some now, an_nav_action_active := (state = STATE_ACTIVE)\<rparr>"

section \<open>Construction\<close>

record authority_params =
  ap_lease_timeout_sec :: pyfloat
  ap_control_liveness_sec :: pyfloat
  ap_raw_autonomy_timeout_sec :: pyfloat
  ap_supervision_period_sec :: pyfloat
  ap_local_control_timeout_sec :: pyfloat
  ap_active_autonomy_map :: string
  ap_auto_brake_window_sec :: pyfloat

definition default_params :: authority_params where
  "default_params = \<lparr> ap_lease_timeout_sec = dbl (150 / 1000), ap_control_liveness_sec = Fin 3,
     ap_raw_autonomy_timeout_sec = dbl (150 / 1000), ap_supervision_period_sec = DEFAULT_SUPERVISION_PERIOD_SEC,
     ap_local_control_timeout_sec = DEFAULT_LOCAL_CONTROL_TIMEOUT_SEC, ap_active_autonomy_map = [],
     ap_auto_brake_window_sec = DEFAULT_AUTO_BRAKE_WINDOW_SEC \<rparr>"

definition new_authority :: "nav_env \<Rightarrow> callback_io \<Rightarrow> string \<Rightarrow> authority_params \<Rightarrow> authority_node result" where
  "new_authority env io requester p =
     (let period = ap_supervision_period_sec p; local = ap_local_control_timeout_sec p; window = ap_auto_brake_window_sec p in
      if \<not> isfinite period \<or> fle period (Fin 0)
      then Inl (ValueError ''supervision_period_sec must be finite and positive'')
      else if \<not> isfinite local \<or> \<not> (flt (Fin 0) local \<and> flt local (dbl (15 / 100)))
      then Inl (ValueError ''local_control_timeout_sec must be finite and below mux timeout'')
      else bind_result (new_supervisor (ap_lease_timeout_sec p) (ap_raw_autonomy_timeout_sec p)
             (Some (ap_control_liveness_sec p)) DEFAULT_MANUAL_TIMEOUT_SEC DEFAULT_MANUAL_MAX_SPEED_MPS
             DEFAULT_MINIMUM_MOVING_SPEED_MPS (ap_active_autonomy_map p)) (\<lambda>c.
        if \<not> isfinite window \<or> fle window (Fin 0)
        then Inl (ValueError ''auto_brake_window_sec must be finite and positive'')
        else (let n = \<lparr> an_supervisor = c, an_config_revision = 0, an_config_request_id = 0,
                an_config_requested_value = cs_manual_max_speed_mps c, an_config_accepted = True,
                an_config_reason = ''DEFAULT'', an_local_control_timeout = local, an_last_local_control_at = None,
                an_local_control_identity = None, an_dualsense_active = False, an_requester_id = requester,
                an_stop_request_id = 0, an_pending_stop_request = None, an_last_stop_request_at = None,
                an_stop_state = None, an_stop_state_at = None, an_runtime_epoch = 0, an_mission_id = [],
                an_mission_revision = 0, an_nav_last_goal_key = None, an_nav_last_dispatch_active = False,
                an_nav_action_active = False, an_nav_state_at = None, an_last_status_publish_at = None,
                an_last_status_key = None, an_auto_gate = new_gate window, an_manual_gate = new_gate window,
                an_manual_demand_asserted = False, an_effects = [] \<rparr>
              in Inr (publish_config_state (supervise env io n (restart c (io_call io)))))))"

section \<open>The node as a machine\<close>

datatype authority_input =
    CA_raw_autonomy callback_io velocity_command
  | CA_config config_request
  | CA_event callback_io int control_input
  | CA_raw_manual callback_io converted_command
  | CA_stop_state stop_state pyfloat
  | CA_mode callback_io mode_state_msg
  | CA_local callback_io callback_io "string \<times> int" bool
  | CA_timer callback_io callback_io
  | CA_navigation int pyfloat

fun authority_step :: "nav_env \<Rightarrow> authority_node \<Rightarrow> authority_input \<Rightarrow> authority_node" where
  "authority_step env n (CA_raw_autonomy io c) = on_raw_autonomy env io n c"
| "authority_step env n (CA_config m) = on_config_request n m"
| "authority_step env n (CA_event io k i) = on_control_event env io n k i"
| "authority_step env n (CA_raw_manual io m) = on_raw_manual env io n m"
| "authority_step env n (CA_stop_state m now) = on_stop_state n m now"
| "authority_step env n (CA_mode io m) = on_mode env io n m"
| "authority_step env n (CA_local io io2 identity active) = on_local_control env io io2 n identity active"
| "authority_step env n (CA_timer io io2) = on_supervision_timer env io io2 n"
| "authority_step env n (CA_navigation state now) = on_navigation_state n state now"

section \<open>What the pieces of a callback leave alone\<close>

lemma emits_frame [simp]:
  "an_supervisor (emits n e) = an_supervisor n" "an_effects (emits n e) = an_effects n @ [e]"
  "an_nav_last_goal_key (emits n e) = an_nav_last_goal_key n"
  "an_nav_last_dispatch_active (emits n e) = an_nav_last_dispatch_active n"
  "an_pending_stop_request (emits n e) = an_pending_stop_request n"
  "an_stop_state (emits n e) = an_stop_state n" "an_stop_state_at (emits n e) = an_stop_state_at n"
  "an_nav_action_active (emits n e) = an_nav_action_active n" "an_nav_state_at (emits n e) = an_nav_state_at n"
  by (simp_all add: emits_def)

text \<open>\<open>same_core\<close>: the fields that publishing a result does not touch.\<close>

definition same_core :: "authority_node \<Rightarrow> authority_node \<Rightarrow> bool" where
  "same_core n n' \<longleftrightarrow> an_supervisor n' = an_supervisor n \<and> an_pending_stop_request n' = an_pending_stop_request n
     \<and> an_last_stop_request_at n' = an_last_stop_request_at n \<and> an_stop_request_id n' = an_stop_request_id n
     \<and> an_stop_state n' = an_stop_state n \<and> an_stop_state_at n' = an_stop_state_at n
     \<and> an_nav_action_active n' = an_nav_action_active n \<and> an_nav_state_at n' = an_nav_state_at n
     \<and> an_dualsense_active n' = an_dualsense_active n \<and> an_requester_id n' = an_requester_id n
     \<and> an_runtime_epoch n' = an_runtime_epoch n"

lemma same_core_trans: "same_core a b \<Longrightarrow> same_core b c \<Longrightarrow> same_core a c"
  by (simp add: same_core_def)

lemma same_core_stop: "same_core n n' \<Longrightarrow> stop_clear n' now = stop_clear n now"
  and same_core_nav: "same_core n n' \<Longrightarrow> navigation_state_fresh n' now = navigation_state_fresh n now"
  by (simp_all add: same_core_def stop_clear_def stop_is_fresh_def navigation_state_fresh_def)

lemma same_core_pieces:
  "same_core n (publish_demand n r)" "same_core n (publish_auto n r now)" "same_core n (publish_manual n r now)"
  "same_core n (sync_goal env uuid n s)" "same_core n (sync_dispatch env n s)" "same_core n (publish_status n sn now)"
  by (simp_all add: same_core_def publish_demand_def publish_auto_def publish_manual_def sync_goal_def sync_dispatch_def
      publish_status_def publish_nav_request_def emits_def Let_def split: option.split prod.split)

lemma same_core_apply: "same_core n (apply_result env io n r)"
  unfolding apply_result_def sync_navigation_def Let_def
  by (meson same_core_pieces same_core_trans)

section \<open>The kinds of output\<close>

text \<open>The commands a list of effects has for each mux input, and the navigation requests.\<close>

definition auto_outputs :: "authority_effect list \<Rightarrow> velocity_command list" where
  "auto_outputs es = concat (map (\<lambda>e. case e of AE_auto c \<Rightarrow> [c] | _ \<Rightarrow> []) es)"

definition manual_outputs :: "authority_effect list \<Rightarrow> velocity_command list" where
  "manual_outputs es = concat (map (\<lambda>e. case e of AE_paddock c \<Rightarrow> [c] | _ \<Rightarrow> []) es)"

lemma outputs_simps [simp]:
  "auto_outputs [] = []" "auto_outputs (e # es) = (case e of AE_auto c \<Rightarrow> [c] | _ \<Rightarrow> []) @ auto_outputs es"
  "auto_outputs (es @ fs) = auto_outputs es @ auto_outputs fs"
  "manual_outputs [] = []" "manual_outputs (e # es) = (case e of AE_paddock c \<Rightarrow> [c] | _ \<Rightarrow> []) @ manual_outputs es"
  "manual_outputs (es @ fs) = manual_outputs es @ manual_outputs fs"
  by (simp_all add: auto_outputs_def manual_outputs_def)

fun told_step :: "bool \<Rightarrow> authority_effect \<Rightarrow> bool" where
  "told_step b (AE_nav m) = (case nq_operation m of NAV_DISPATCH \<Rightarrow> True | NAV_CANCEL \<Rightarrow> False | NAV_SELECT \<Rightarrow> b)"
| "told_step b _ = b"

text \<open>Whether the last request that says so tells the navigation runtime to run.\<close>

definition told_to_run :: "authority_effect list \<Rightarrow> bool" where
  "told_to_run es = foldl told_step False es"

lemma told_to_run_snoc [simp]: "told_to_run (es @ [e]) = told_step (told_to_run es) e"
  by (simp add: told_to_run_def)

lemma told_frames [simp]:
  "told_to_run (an_effects (publish_demand n r)) = told_to_run (an_effects n)"
  "told_to_run (an_effects (publish_auto n r now)) = told_to_run (an_effects n)"
  "told_to_run (an_effects (publish_manual n r now)) = told_to_run (an_effects n)"
  "told_to_run (an_effects (publish_status n sn now)) = told_to_run (an_effects n)"
  "told_to_run (an_effects (publish_config_state n)) = told_to_run (an_effects n)"
  "told_to_run (an_effects (publish_stop_request n q now)) = told_to_run (an_effects n)"
  "told_to_run (an_effects (request_stop n stopped now)) = told_to_run (an_effects n)"
  by (simp_all add: publish_demand_def publish_auto_def publish_manual_def publish_status_def publish_config_state_def
      publish_stop_request_def request_stop_def Let_def split: option.split prod.split)

lemma key_frames [simp]:
  "an_nav_last_goal_key (publish_demand n r) = an_nav_last_goal_key n"
  "an_nav_last_goal_key (publish_auto n r now) = an_nav_last_goal_key n"
  "an_nav_last_goal_key (publish_manual n r now) = an_nav_last_goal_key n"
  "an_nav_last_goal_key (publish_status n sn now) = an_nav_last_goal_key n"
  "an_nav_last_goal_key (request_stop n stopped now) = an_nav_last_goal_key n"
  "an_nav_last_dispatch_active (publish_demand n r) = an_nav_last_dispatch_active n"
  "an_nav_last_dispatch_active (publish_auto n r now) = an_nav_last_dispatch_active n"
  "an_nav_last_dispatch_active (publish_manual n r now) = an_nav_last_dispatch_active n"
  "an_nav_last_dispatch_active (publish_status n sn now) = an_nav_last_dispatch_active n"
  "an_nav_last_dispatch_active (request_stop n stopped now) = an_nav_last_dispatch_active n"
  by (simp_all add: publish_demand_def publish_auto_def publish_manual_def publish_status_def request_stop_def
      publish_stop_request_def Let_def split: option.split prod.split)

section \<open>The reported state\<close>

definition reports :: "supervisor \<times> sup_result \<Rightarrow> bool" where
  "reports cr \<longleftrightarrow> sn_state (sr_snapshot (snd cr)) = cs_state (fst cr)"

lemma reports_answer [simp]: "reports (answer c now r)" "reports (reject c now r)"
  by (simp_all add: reports_def answer_def reject_def)

lemma reports_plain [simp]: "reports (c, plain_result (take_snapshot c now r))"
  by (simp add: reports_def)

lemma reports_tick: "reports (CommandSupervisor.tick c now)"
  by (simp add: CommandSupervisor.tick_def split_beta Let_def)

lemma reports_mode: "reports (set_runtime_mode c m map_name now ok)"
  and reports_dualsense: "reports (set_dualsense_active c b now)"
  and reports_restart: "reports (restart c now)"
  by (simp_all add: set_runtime_mode_def set_dualsense_active_def restart_def Let_def)

lemma reports_raw_autonomy: "reports (receive_raw_autonomy c v now)"
  and reports_raw_manual: "reports (receive_raw_manual c v q now)"
  by (simp_all add: receive_raw_autonomy_def receive_raw_manual_def Let_def reports_def reject_def)

lemma reports_finish: "reports (finish_event c i)"
  by (simp add: finish_event_def Let_def)

lemma reports_manual_active: "reports (manual_active_event c i)"
  by (simp add: manual_active_event_def Let_def) (simp add: reports_def)

lemma reports_mapped: "reports (mapped_event c i e)"
  by (simp add: mapped_event_def Let_def reports_finish reports_manual_active)

lemma reports_goal: "reports (goal_selected_event c i)"
  by (simp add: goal_selected_event_def Let_def reports_finish)

lemma reports_owner: "reports (owner_event c i)"
  by (simp add: owner_event_def Let_def reports_finish reports_goal reports_mapped split: option.split)

lemma reports_control: "reports (handle_control_event c i)"
  by (simp add: handle_control_event_def acquire_lease_event_def Let_def reports_owner)

lemmas all_report = reports_tick reports_mode reports_dualsense reports_restart reports_raw_autonomy reports_raw_manual
  reports_control

section \<open>The navigation runtime is told what the interlock says\<close>

definition an_inv :: "authority_node \<Rightarrow> bool" where
  [inv_defs]: "an_inv n \<longleftrightarrow> cs_inv (an_supervisor n)
     \<and> an_nav_last_goal_key n = ps_goal (cs_state (an_supervisor n))
     \<and> an_nav_last_dispatch_active n = ps_navigation_active (cs_state (an_supervisor n))
     \<and> told_to_run (an_effects n) = ps_navigation_active (cs_state (an_supervisor n))"

lemma sync_told:
  assumes "told_to_run (an_effects n) = an_nav_last_dispatch_active n" "ps_navigation_active s \<Longrightarrow> ps_goal s \<noteq> None"
  shows "told_to_run (an_effects (sync_navigation env uuid n s)) = ps_navigation_active s"
    "an_nav_last_goal_key (sync_navigation env uuid n s) = ps_goal s"
    "an_nav_last_dispatch_active (sync_navigation env uuid n s) = ps_navigation_active s"
  using assms
  by (auto simp: sync_navigation_def sync_dispatch_def sync_goal_def publish_nav_request_def Let_def split: option.splits)

lemma told_needs_goal: "cs_inv c \<Longrightarrow> ps_navigation_active (cs_state c) \<Longrightarrow> ps_goal (cs_state c) \<noteq> None"
  by (auto simp: cs_inv_def ps_inv_def autonomy_permitted_def)

lemma apply_inv:
  assumes "cs_inv (an_supervisor n)" "told_to_run (an_effects n) = an_nav_last_dispatch_active n"
    "sn_state (sr_snapshot r) = cs_state (an_supervisor n)"
  shows "an_inv (apply_result env io n r)"
proof -
  have c: "an_supervisor (apply_result env io n r) = an_supervisor n"
    using same_core_apply by (simp add: same_core_def)
  let ?n = "publish_manual (publish_auto (publish_demand n r) r (io_apply io)) r (io_apply io)"
  have s: "told_to_run (an_effects ?n) = an_nav_last_dispatch_active ?n" using assms(2) by simp
  note t = sync_told [OF s told_needs_goal [OF assms(1)], of env "io_uuid io"]
  show ?thesis unfolding an_inv_def c
    using assms(1) t unfolding apply_result_def Let_def assms(3) by simp
qed

lemma supervise_inv:
  assumes "reports cr" "cs_inv (fst cr)" "told_to_run (an_effects n) = an_nav_last_dispatch_active n"
  shows "an_inv (supervise env io n cr)"
  unfolding supervise_def using assms by (intro apply_inv) (simp_all add: reports_def)

lemma an_invD:
  assumes "an_inv n"
  shows "cs_inv (an_supervisor n)" "told_to_run (an_effects n) = an_nav_last_dispatch_active n"
  using assms by (simp_all add: an_inv_def)

lemma set_takeover_inv: "an_inv n \<Longrightarrow> an_inv (set_takeover env io n b)"
  unfolding set_takeover_def by (rule supervise_inv) (simp_all add: reports_dualsense an_invD set_dualsense_active_inv)

lemma on_control_event_node_inv:
  assumes "an_inv n"
  shows "an_inv (on_control_event env io n k i)"
proof (cases "control_event_of k")
  case None
  then show ?thesis using assms by (simp add: on_control_event_def)
next
  case (Some e)
  let ?i = "i\<lparr>ci_event := e, ci_now := io_call io\<rparr>"
  obtain c r where h: "handle_control_event (an_supervisor n) ?i = (c, r)" by fastforce
  have "reports (c, r)" "cs_inv c"
    using reports_control [of "an_supervisor n" ?i] handle_control_event_inv [OF an_invD(1) [OF assms], of ?i] h by simp_all
  moreover have "cs_inv (an_supervisor (request_stop m b t)) = cs_inv (an_supervisor m)" for m b t
    by (simp add: request_stop_def publish_stop_request_def Let_def)
  moreover have "an_supervisor (request_stop m b t) = an_supervisor m" for m b t
    by (simp add: request_stop_def publish_stop_request_def Let_def)
  ultimately show ?thesis using an_invD(2) [OF assms] Some h
    by (auto simp: on_control_event_def Let_def reports_def intro!: apply_inv)
qed

lemma on_config_request_inv: "an_inv n \<Longrightarrow> an_inv (on_config_request n m)"
  using set_manual_max_inv [of "an_supervisor n" "cr_value m"]
  by (auto simp: on_config_request_def publish_config_state_def an_inv_def set_manual_max_speed_mps_def emits_def Let_def
      split: sum.split py_error.split)

lemma on_supervision_timer_inv:
  assumes "an_inv n"
  shows "an_inv (on_supervision_timer env io io2 n)"
proof -
  have r: "an_inv (publish_stop_request n q now)" for q now
    using assms by (simp add: an_inv_def publish_stop_request_def)
  let ?n1 = "case an_pending_stop_request n of None \<Rightarrow> n | Some q \<Rightarrow>
      if (case an_last_stop_request_at n of None \<Rightarrow> True | Some t \<Rightarrow> fle (dbl (5 / 100)) (fsub (io_call io) t))
      then publish_stop_request n q (io_call io) else n"
  have n1: "an_inv ?n1" using assms r by (simp split: option.split)
  have "an_inv (supervise env io2 m (CommandSupervisor.tick (an_supervisor m) (io_call io)))" if "an_inv m" for m
    by (rule supervise_inv) (simp_all add: reports_tick an_invD [OF that] tick_inv)
  then show ?thesis unfolding on_supervision_timer_def Let_def using n1 set_takeover_inv [OF n1] by simp
qed

lemma on_local_control_inv:
  assumes "an_inv n"
  shows "an_inv (on_local_control env io io2 n identity active)"
proof -
  have "an_inv (n\<lparr>an_last_local_control_at := a\<rparr>)" "an_inv (n\<lparr>an_last_local_control_at := a, an_local_control_identity := b\<rparr>)" for a b
    using assms by (simp_all add: an_inv_def)
  then show ?thesis unfolding on_local_control_def Let_def by (simp add: set_takeover_inv)
qed

lemma authority_step_inv: "an_inv n \<Longrightarrow> an_inv (authority_step env n i)"
proof (induction env n i rule: authority_step.induct)
  case (1 env n io c)
  then show ?case
    by (simp add: on_raw_autonomy_def supervise_inv reports_raw_autonomy receive_raw_autonomy_inv an_invD)
next
  case (4 env n io m)
  then show ?case by (simp add: on_raw_manual_def supervise_inv reports_raw_manual receive_raw_manual_inv an_invD)
next
  case (6 env n io m)
  then show ?case
    by (auto simp: on_mode_def reports_mode set_runtime_mode_inv an_invD split: option.split intro!: supervise_inv)
qed (auto simp: on_config_request_inv on_control_event_node_inv on_local_control_inv on_supervision_timer_inv
      on_stop_state_def on_navigation_state_def Let_def split: option.split, (simp add: an_inv_def)+)

lemma new_authority_inv:
  assumes "new_authority env io requester p = Inr n"
  shows "an_inv n"
proof -
  obtain c n0 where c: "new_supervisor (ap_lease_timeout_sec p) (ap_raw_autonomy_timeout_sec p)
      (Some (ap_control_liveness_sec p)) DEFAULT_MANUAL_TIMEOUT_SEC DEFAULT_MANUAL_MAX_SPEED_MPS
      DEFAULT_MINIMUM_MOVING_SPEED_MPS (ap_active_autonomy_map p) = Inr c"
    and n: "n = publish_config_state (supervise env io n0 (restart c (io_call io)))"
    and n0: "told_to_run (an_effects n0) = an_nav_last_dispatch_active n0"
    using assms by (auto simp: new_authority_def bind_result_Inr_iff Let_def told_to_run_def split: if_splits)
  have "cs_inv c" by (rule new_supervisor_inv [OF c]) (simp add: DEFAULT_MINIMUM_MOVING_SPEED_MPS_def)
  then have "an_inv (supervise env io n0 (restart c (io_call io)))"
    by (intro supervise_inv) (simp_all add: reports_restart restart_inv n0)
  then show ?thesis unfolding n by (simp add: an_inv_def publish_config_state_def)
qed

definition an_initial :: "nav_env \<Rightarrow> authority_node \<Rightarrow> bool" where
  "an_initial env n \<longleftrightarrow> (\<exists>io requester p. new_authority env io requester p = Inr n)"

interpretation authority_exec: machine "an_initial env" "authority_step env" an_inv
  by unfold_locales (auto simp: an_initial_def new_authority_inv authority_step_inv)

section \<open>Where output comes from\<close>

text \<open>
  \<open>ext f P n n'\<close>: from \<open>n\<close> to \<open>n'\<close> the outputs selected by \<open>f\<close> only grew, and by
  commands with the property \<open>P\<close>.
\<close>

definition ext ::
  "(authority_effect list \<Rightarrow> velocity_command list) \<Rightarrow> (velocity_command \<Rightarrow> bool) \<Rightarrow> authority_node \<Rightarrow> authority_node \<Rightarrow> bool" where
  "ext f P n n' \<longleftrightarrow> (\<exists>vs. f (an_effects n') = f (an_effects n) @ vs \<and> list_all P vs)"

lemma ext_refl: "f (an_effects n') = f (an_effects n) \<Longrightarrow> ext f P n n'"
  by (simp add: ext_def)

lemma ext_trans: "ext f P a b \<Longrightarrow> ext f P b c \<Longrightarrow> ext f P a c"
  by (fastforce simp: ext_def)

lemma ext_mem:
  assumes "ext f P n n'" "f (an_effects n') = f (an_effects n) @ vs" "v \<in> set vs"
  shows "P v"
  using assms by (auto simp: ext_def list_all_iff)

lemma gate_output:
  assumes "snd (gate_update g now permitted command) = Some v"
  shows "permitted \<and> command = Some v \<or> \<not> permitted \<and> v = zero_command"
  using assms by (auto simp: gate_update_def Let_def split: if_splits option.splits)

lemma outputs_frames:
  "auto_outputs (an_effects (publish_demand n r)) = auto_outputs (an_effects n)"
  "auto_outputs (an_effects (publish_manual n r now)) = auto_outputs (an_effects n)"
  "auto_outputs (an_effects (sync_navigation env uuid n s)) = auto_outputs (an_effects n)"
  "auto_outputs (an_effects (publish_status n sn now)) = auto_outputs (an_effects n)"
  "manual_outputs (an_effects (publish_demand n r)) = manual_outputs (an_effects n)"
  "manual_outputs (an_effects (publish_auto n r now)) = manual_outputs (an_effects n)"
  "manual_outputs (an_effects (sync_navigation env uuid n s)) = manual_outputs (an_effects n)"
  "manual_outputs (an_effects (publish_status n sn now)) = manual_outputs (an_effects n)"
  by (simp_all add: publish_demand_def publish_auto_def publish_manual_def publish_status_def sync_navigation_def
      sync_dispatch_def sync_goal_def publish_nav_request_def Let_def split: option.split prod.split)

lemma stop_outputs:
  "auto_outputs (an_effects (request_stop n b t)) = auto_outputs (an_effects n)"
  "manual_outputs (an_effects (request_stop n b t)) = manual_outputs (an_effects n)"
  "auto_outputs (an_effects (publish_stop_request n q t)) = auto_outputs (an_effects n)"
  "manual_outputs (an_effects (publish_stop_request n q t)) = manual_outputs (an_effects n)"
  by (simp_all add: request_stop_def publish_stop_request_def Let_def)

lemma publish_auto_ext:
  assumes "\<And>v. auto_permitted n r now \<Longrightarrow> sr_autonomy_command r = Some v \<Longrightarrow> P v" "P zero_command"
  shows "ext auto_outputs P n (publish_auto n r now)"
  using assms gate_output [of "an_auto_gate n" now "auto_permitted n r now" "sr_autonomy_command r"]
  by (force simp: ext_def publish_auto_def Let_def split: prod.split option.split)

lemma publish_manual_ext:
  assumes "\<And>v. manual_permitted n r now \<Longrightarrow> sr_manual_command r = Some v \<Longrightarrow> P v" "P zero_command"
  shows "ext manual_outputs P n (publish_manual n r now)"
  using assms gate_output [of "an_manual_gate n" now "manual_permitted n r now" "sr_manual_command r"]
  by (force simp: ext_def publish_manual_def Let_def split: prod.split option.split)

lemma permitted_frames:
  "auto_permitted (publish_demand n r) r' now = auto_permitted n r' now"
  "manual_permitted (publish_auto (publish_demand n r) r now') r' now = manual_permitted n r' now"
proof -
  have d: "same_core n (publish_demand n r)" by (rule same_core_pieces)
  then show "auto_permitted (publish_demand n r) r' now = auto_permitted n r' now"
    unfolding auto_permitted_def same_core_stop [OF d] same_core_nav [OF d] by (simp add: same_core_def)
  have "same_core n (publish_auto (publish_demand n r) r now')" by (rule same_core_trans [OF d same_core_pieces(2)])
  then show "manual_permitted (publish_auto (publish_demand n r) r now') r' now = manual_permitted n r' now"
    unfolding manual_permitted_def by (simp add: same_core_stop)
qed

lemma apply_auto_ext:
  assumes "\<And>v. auto_permitted n r (io_apply io) \<Longrightarrow> sr_autonomy_command r = Some v \<Longrightarrow> P v" "P zero_command"
  shows "ext auto_outputs P n (apply_result env io n r)"
proof -
  have "ext auto_outputs P (publish_demand n r) (publish_auto (publish_demand n r) r (io_apply io))"
    by (rule publish_auto_ext) (use assms in \<open>simp_all add: permitted_frames\<close>)
  then show ?thesis unfolding apply_result_def Let_def ext_def by (simp add: outputs_frames)
qed

lemma apply_manual_ext:
  assumes "\<And>v. manual_permitted n r (io_apply io) \<Longrightarrow> sr_manual_command r = Some v \<Longrightarrow> P v" "P zero_command"
  shows "ext manual_outputs P n (apply_result env io n r)"
proof -
  let ?m = "publish_auto (publish_demand n r) r (io_apply io)"
  have "ext manual_outputs P ?m (publish_manual ?m r (io_apply io))"
    by (rule publish_manual_ext) (use assms in \<open>simp_all add: permitted_frames\<close>)
  then show ?thesis unfolding apply_result_def Let_def ext_def by (simp add: outputs_frames)
qed

text \<open>Which supervisor operations hand out a command at all.\<close>

definition mute :: "sup_result \<Rightarrow> bool" where
  "mute r \<longleftrightarrow> sr_autonomy_command r = None \<and> sr_manual_command r = None"

lemma mute_answer [simp]: "mute (snd (answer c now r))" "mute (snd (reject c now r))" "mute (plain_result sn)"
  by (simp_all add: mute_def answer_def reject_def)

lemma mute_demand [simp]: "mute (r\<lparr>sr_manual_demand := d\<rparr>) = mute r"
  by (simp add: mute_def)

lemma mute_ops:
  "mute (snd (CommandSupervisor.tick c now))" "mute (snd (set_runtime_mode c m map_name now ok))"
  "mute (snd (set_dualsense_active c b now))" "mute (snd (restart c now))"
  by (simp_all add: CommandSupervisor.tick_def set_runtime_mode_def set_dualsense_active_def restart_def split_beta Let_def)

lemma mute_finish: "mute (snd (finish_event c i))"
  by (simp add: finish_event_def Let_def)

lemma mute_mapped: "mute (snd (mapped_event c i e))"
  by (simp add: mapped_event_def manual_active_event_def Let_def mute_finish)

lemma mute_control: "mute (snd (handle_control_event c i))"
  by (simp add: handle_control_event_def acquire_lease_event_def owner_event_def goal_selected_event_def Let_def
      mute_finish mute_mapped split: option.split)

lemma raw_autonomy_command:
  assumes "cs_inv c" "sr_autonomy_command (snd (receive_raw_autonomy c command now)) = Some v"
  shows "v = command \<and> vc_valid command \<and> authority_of (cs_state c) = AUTH_PADDOCK_AUTONOMY \<and> lease_is_fresh c now"
proof -
  let ?c = "fst (expire_lease c now)"
  have a: "authority_of (cs_state ?c) = AUTH_PADDOCK_AUTONOMY" "lease_is_fresh ?c now" "v = command" "vc_valid command"
    using assms(2) by (auto simp: receive_raw_autonomy_def reject_def Let_def split: if_splits)
  then have "lease_is_live c now" using expire_lease_dead [of c now] authority_needs_lease by force
  then show ?thesis using a by (simp add: expire_lease_live)
qed

lemma raw_manual_command:
  assumes "cs_inv c" "sr_manual_command (snd (receive_raw_manual c command q now)) = Some v"
  shows "v = command \<and> vc_valid command \<and> authority_of (cs_state c) = AUTH_PADDOCK_MANUAL \<and> lease_is_live c now
    \<and> manual_is_fresh c now \<and> map_option md_sequence (cs_manual_demand c) = Some q"
proof -
  let ?l = "fst (expire_lease c now)"
  let ?c = "fst (expire_manual ?l now)"
  have a: "authority_of (cs_state ?c) = AUTH_PADDOCK_MANUAL" "map_option md_sequence (cs_manual_demand ?c) = Some q"
    "v = command" "vc_valid command"
    using assms(2) by (auto simp: receive_raw_manual_def reject_def Let_def split: if_splits option.splits)
  have m: "ps_manual_active (cs_state ?c)" "lease_active (cs_state ?c)" using authority_manualD [OF a(1)] by simp_all
  have f: "manual_is_fresh ?l now" using expire_manual_stale [OF expire_lease_inv [OF assms(1)]] m(1) by blast
  then have e: "?c = ?l" by (simp add: expire_manual_fresh)
  then have live: "lease_is_live c now" using expire_lease_dead [of c now] m(2) by metis
  then show ?thesis using a e f by (simp add: expire_lease_live)
qed

abbreviation brakes_only :: "authority_node \<Rightarrow> authority_node \<Rightarrow> bool" where
  "brakes_only n n' \<equiv> ext auto_outputs (\<lambda>v. v = zero_command) n n' \<and> ext manual_outputs (\<lambda>v. v = zero_command) n n'"

lemma brakes_refl:
  "auto_outputs (an_effects n') = auto_outputs (an_effects n) \<Longrightarrow>
   manual_outputs (an_effects n') = manual_outputs (an_effects n) \<Longrightarrow> brakes_only n n'"
  by (simp add: ext_refl)

lemma brakes_trans: "brakes_only a b \<Longrightarrow> brakes_only b c \<Longrightarrow> brakes_only a c"
  using ext_trans by blast

lemma apply_mute: "mute r \<Longrightarrow> brakes_only n (apply_result env io n r)"
  unfolding mute_def by (intro conjI apply_auto_ext apply_manual_ext) simp_all

lemma supervise_mute:
  assumes "mute (snd cr)" "an_effects m = an_effects n"
  shows "brakes_only n (supervise env io m cr)"
proof -
  have "brakes_only n (m\<lparr>an_supervisor := fst cr\<rparr>)" by (rule brakes_refl) (simp_all add: assms(2))
  then show ?thesis unfolding supervise_def by (rule brakes_trans [OF _ apply_mute [OF assms(1)]])
qed

lemma set_takeover_mute: "an_effects m = an_effects n \<Longrightarrow> brakes_only n (set_takeover env io m b)"
  unfolding set_takeover_def by (rule supervise_mute) (simp_all add: mute_ops)

lemma on_control_event_mute: "brakes_only n (on_control_event env io n k i)"
proof (cases "control_event_of k")
  case None
  then show ?thesis by (simp add: on_control_event_def ext_refl)
next
  case (Some e)
  obtain c r where h: "handle_control_event (an_supervisor n) (i\<lparr>ci_event := e, ci_now := io_call io\<rparr>) = (c, r)" by fastforce
  have r: "mute r" using mute_control [of "an_supervisor n" "i\<lparr>ci_event := e, ci_now := io_call io\<rparr>"] h by simp
  have q: "brakes_only n (n\<lparr>an_supervisor := c\<rparr>)" "brakes_only n (request_stop (n\<lparr>an_supervisor := c\<rparr>) b t)" for b t
    by (rule brakes_refl; simp add: stop_outputs)+
  show ?thesis unfolding on_control_event_def Some h option.case prod.case Let_def
    using q brakes_trans [OF _ apply_mute [OF r]] by (simp only: split: if_split) blast
qed

lemma on_supervision_timer_mute: "brakes_only n (on_supervision_timer env io io2 n)"
proof -
  let ?n1 = "case an_pending_stop_request n of None \<Rightarrow> n | Some q \<Rightarrow>
      if (case an_last_stop_request_at n of None \<Rightarrow> True | Some t \<Rightarrow> fle (dbl (5 / 100)) (fsub (io_call io) t))
      then publish_stop_request n q (io_call io) else n"
  have one: "brakes_only n ?n1" by (rule brakes_refl) (simp_all add: stop_outputs split: option.split)
  have two: "brakes_only n (if b then set_takeover env io ?n1 True else ?n1)" for b
    using one brakes_trans [OF one set_takeover_mute [OF refl]] by simp
  show ?thesis unfolding on_supervision_timer_def Let_def
    by (rule brakes_trans [OF two supervise_mute]) (simp_all add: mute_ops)
qed

lemma on_local_control_mute: "brakes_only n (on_local_control env io io2 n identity active)"
proof -
  let ?n1 = "n\<lparr>an_last_local_control_at := Some (io_call io)\<rparr>"
  let ?n2 = "if Some identity \<noteq> an_local_control_identity ?n1
      then (let n' = ?n1\<lparr>an_local_control_identity := Some identity\<rparr>
            in if \<not> an_dualsense_active n' then set_takeover env io n' True else n') else ?n1"
  have two: "brakes_only n ?n2" using set_takeover_mute brakes_refl by (simp add: Let_def)
  show ?thesis unfolding on_local_control_def Let_def
    using two [unfolded Let_def] brakes_trans [OF two [unfolded Let_def] set_takeover_mute [OF refl]] by simp
qed

lemma other_steps_brake:
  assumes "\<nexists>io c. i = CA_raw_autonomy io c" "\<nexists>io m. i = CA_raw_manual io m"
  shows "brakes_only n (authority_step env n i)"
proof (cases i)
  case (CA_mode io m)
  then show ?thesis by (auto simp: on_mode_def intro!: supervise_mute ext_refl split: option.split) (simp_all add: mute_ops)
next
  case (CA_config m)
  then show ?thesis
    by (simp add: brakes_refl on_config_request_def publish_config_state_def Let_def split: sum.split py_error.split)
next
  case (CA_stop_state m now)
  then show ?thesis by (simp add: brakes_refl on_stop_state_def Let_def split: option.split)
next
  case (CA_navigation state now)
  then show ?thesis by (simp add: brakes_refl on_navigation_state_def)
qed (use assms on_control_event_mute on_local_control_mute on_supervision_timer_mute in auto)

lemma raw_autonomy_ext:
  assumes "cs_inv (an_supervisor n)"
  shows "ext auto_outputs (\<lambda>v. v = zero_command \<or>
      (v = command \<and> vc_valid command \<and> stop_clear n (io_apply io) \<and> an_nav_action_active n
       \<and> navigation_state_fresh n (io_apply io) \<and> authority_of (cs_state (an_supervisor n)) = AUTH_PADDOCK_AUTONOMY
       \<and> lease_is_fresh (an_supervisor n) (io_call io))) n (on_raw_autonomy env io n command)"
    "ext manual_outputs (\<lambda>v. v = zero_command) n (on_raw_autonomy env io n command)"
proof -
  let ?cr = "receive_raw_autonomy (an_supervisor n) command (io_call io)"
  let ?m = "n\<lparr>an_supervisor := fst ?cr\<rparr>"
  have f: "stop_clear ?m t = stop_clear n t" "navigation_state_fresh ?m t = navigation_state_fresh n t" for t
    by (simp_all add: stop_clear_def stop_is_fresh_def navigation_state_fresh_def)
  have e: "ext g P n n' = ext g P ?m n'" for g P n' by (simp add: ext_def)
  show "ext auto_outputs (\<lambda>v. v = zero_command \<or>
      (v = command \<and> vc_valid command \<and> stop_clear n (io_apply io) \<and> an_nav_action_active n
       \<and> navigation_state_fresh n (io_apply io) \<and> authority_of (cs_state (an_supervisor n)) = AUTH_PADDOCK_AUTONOMY
       \<and> lease_is_fresh (an_supervisor n) (io_call io))) n (on_raw_autonomy env io n command)"
    unfolding on_raw_autonomy_def supervise_def e
    by (rule apply_auto_ext) (use raw_autonomy_command [OF assms] in \<open>auto simp: auto_permitted_def f\<close>)
  have none: "sr_manual_command (snd ?cr) = None" by (simp add: receive_raw_autonomy_def reject_def Let_def)
  show "ext manual_outputs (\<lambda>v. v = zero_command) n (on_raw_autonomy env io n command)"
    unfolding on_raw_autonomy_def supervise_def e by (rule apply_manual_ext) (simp_all add: none)
qed

lemma raw_manual_ext:
  assumes "cs_inv (an_supervisor n)"
  shows "ext manual_outputs (\<lambda>v. v = zero_command \<or>
      (v = cv_command m \<and> vc_valid v \<and> stop_clear n (io_apply io) \<and> cv_source m = SOURCE_PADDOCK_MANUAL
       \<and> cv_runtime_epoch m = an_runtime_epoch n
       \<and> cv_lease_generation m = ps_lease_generation (cs_state (an_supervisor n))
       \<and> authority_of (cs_state (an_supervisor n)) = AUTH_PADDOCK_MANUAL \<and> lease_is_live (an_supervisor n) (io_call io)
       \<and> manual_is_fresh (an_supervisor n) (io_call io)
       \<and> map_option md_sequence (cs_manual_demand (an_supervisor n)) = Some (cv_sequence m))) n (on_raw_manual env io n m)"
    "ext auto_outputs (\<lambda>v. v = zero_command) n (on_raw_manual env io n m)"
proof -
  let ?cr = "receive_raw_manual (an_supervisor n) (cv_command m) (cv_sequence m) (io_call io)"
  let ?m = "n\<lparr>an_supervisor := fst ?cr\<rparr>"
  have f: "stop_clear ?m t = stop_clear n t" for t by (simp add: stop_clear_def stop_is_fresh_def)
  have e: "ext g P n (apply_result env io ?m r) = ext g P ?m (apply_result env io ?m r)" for g P r by (simp add: ext_def)
  show "ext manual_outputs (\<lambda>v. v = zero_command \<or>
      (v = cv_command m \<and> vc_valid v \<and> stop_clear n (io_apply io) \<and> cv_source m = SOURCE_PADDOCK_MANUAL
       \<and> cv_runtime_epoch m = an_runtime_epoch n
       \<and> cv_lease_generation m = ps_lease_generation (cs_state (an_supervisor n))
       \<and> authority_of (cs_state (an_supervisor n)) = AUTH_PADDOCK_MANUAL \<and> lease_is_live (an_supervisor n) (io_call io)
       \<and> manual_is_fresh (an_supervisor n) (io_call io)
       \<and> map_option md_sequence (cs_manual_demand (an_supervisor n)) = Some (cv_sequence m))) n (on_raw_manual env io n m)"
    unfolding on_raw_manual_def supervise_def
    by (auto simp: ext_refl e intro!: apply_manual_ext)
       (use raw_manual_command [OF assms] in \<open>auto simp: manual_permitted_def f\<close>)
  have none: "sr_autonomy_command (snd ?cr) = None" by (simp add: receive_raw_manual_def reject_def Let_def)
  show "ext auto_outputs (\<lambda>v. v = zero_command) n (on_raw_manual env io n m)"
    unfolding on_raw_manual_def supervise_def by (auto simp: ext_refl e none intro!: apply_auto_ext)
qed

section \<open>The autonomy gate over a run\<close>

text \<open>
  The supervisor results a callback applies, in order, each with the readings of
  its application; and what each application hands to the autonomy gate.
\<close>

type_synonym gate_input = "pyfloat \<times> bool \<times> velocity_command option"

fun applied_results :: "authority_node \<Rightarrow> authority_input \<Rightarrow> (callback_io \<times> sup_result) list" where
  "applied_results n (CA_raw_autonomy io c) = [(io, snd (receive_raw_autonomy (an_supervisor n) c (io_call io)))]"
| "applied_results n (CA_event io k x) =
     (case control_event_of k of None \<Rightarrow> []
      | Some e \<Rightarrow> [(io, snd (handle_control_event (an_supervisor n) (x\<lparr>ci_event := e, ci_now := io_call io\<rparr>)))])"
| "applied_results n (CA_raw_manual io m) =
     (if cv_source m \<noteq> SOURCE_PADDOCK_MANUAL \<or> cv_runtime_epoch m \<noteq> an_runtime_epoch n
         \<or> cv_lease_generation m \<noteq> ps_lease_generation (cs_state (an_supervisor n)) then []
      else [(io, snd (receive_raw_manual (an_supervisor n) (cv_command m) (cv_sequence m) (io_call io)))])"
| "applied_results n (CA_mode io m) =
     (case mode_of (mo_mode m) of None \<Rightarrow> []
      | Some mode \<Rightarrow> [(io, snd (set_runtime_mode (an_supervisor n) mode (mo_active_autonomy_map m) (io_call io)
             (mo_status m = STATUS_STABLE \<and> mo_ready m)))])"
| "applied_results n (CA_local io io2 identity active) =
     (let first = (Some identity \<noteq> an_local_control_identity n \<and> \<not> an_dualsense_active n);
          held = set_dualsense_active (an_supervisor n) True (io_call io);
          c = (if first then fst held else an_supervisor n)
      in (if first then [(io, snd held)] else [])
         @ (if active = (first \<or> an_dualsense_active n) then []
            else [(io2\<lparr>io_call := io_call io\<rparr>, snd (set_dualsense_active c active (io_call io)))]))"
| "applied_results n (CA_timer io io2) =
     (let due = (\<not> an_dualsense_active n \<and> (case an_last_local_control_at n of None \<Rightarrow> True
                  | Some t \<Rightarrow> flt (an_local_control_timeout n) (fsub (io_call io) t)));
          held = set_dualsense_active (an_supervisor n) True (io_call io);
          c = (if due then fst held else an_supervisor n)
      in (if due then [(io, snd held)] else []) @ [(io2, snd (CommandSupervisor.tick c (io_call io)))])"
| "applied_results n _ = []"

definition gate_input_of :: "authority_node \<Rightarrow> callback_io \<times> sup_result \<Rightarrow> gate_input" where
  "gate_input_of n = (\<lambda>(io, r). (io_apply io, auto_permitted n r (io_apply io), sr_autonomy_command r))"

definition gate_inputs :: "authority_node \<Rightarrow> authority_input \<Rightarrow> gate_input list" where
  "gate_inputs n i = map (gate_input_of n) (applied_results n i)"

fun gate_history :: "nav_env \<Rightarrow> authority_node \<Rightarrow> authority_input list \<Rightarrow> gate_input list" where
  "gate_history env n [] = []"
| "gate_history env n (i # is) = gate_inputs n i @ gate_history env (authority_step env n i) is"

fun gate_run :: "output_gate \<Rightarrow> gate_input list \<Rightarrow> output_gate \<times> velocity_command list" where
  "gate_run g [] = (g, [])"
| "gate_run g ((now, permitted, command) # us) =
     (let (g1, out) = gate_update g now permitted command; (g2, outs) = gate_run g1 us
      in (g2, (case out of None \<Rightarrow> outs | Some v \<Rightarrow> v # outs)))"

lemma gate_run_append:
  "gate_run g (us @ vs) = (let (g1, a) = gate_run g us; (g2, b) = gate_run g1 vs in (g2, a @ b))"
  by (induction g us rule: gate_run.induct) (auto simp: Let_def split: prod.splits option.splits)

definition gated :: "gate_input list \<Rightarrow> authority_node \<Rightarrow> authority_node \<Rightarrow> bool" where
  "gated us n n' \<longleftrightarrow> an_auto_gate n' = fst (gate_run (an_auto_gate n) us)
     \<and> auto_outputs (an_effects n') = auto_outputs (an_effects n) @ snd (gate_run (an_auto_gate n) us)"

lemma gated_refl: "an_auto_gate n' = an_auto_gate n \<Longrightarrow> an_effects n' = an_effects n \<Longrightarrow> gated [] n n'"
  by (simp add: gated_def)

lemma gated_trans: "gated us a b \<Longrightarrow> gated vs b c \<Longrightarrow> gated (us @ vs) a c"
  by (simp add: gated_def gate_run_append Let_def split: prod.split)

lemma auto_gate_frames [simp]:
  "an_auto_gate (emits n e) = an_auto_gate n"
  "an_auto_gate (publish_demand n r) = an_auto_gate n" "an_auto_gate (publish_manual n r now) = an_auto_gate n"
  "an_auto_gate (sync_navigation env uuid n s) = an_auto_gate n" "an_auto_gate (publish_status n sn now) = an_auto_gate n"
  "an_auto_gate (request_stop n b now) = an_auto_gate n" "an_auto_gate (publish_stop_request n q now) = an_auto_gate n"
  "an_auto_gate (publish_config_state n) = an_auto_gate n"
  by (simp_all add: emits_def publish_demand_def publish_manual_def sync_navigation_def sync_dispatch_def sync_goal_def
      publish_nav_request_def publish_status_def request_stop_def publish_stop_request_def publish_config_state_def Let_def
      split: option.split prod.split)

text \<open>Nodes with the same STOP state and navigation state permit the same.\<close>

definition same_gates :: "authority_node \<Rightarrow> authority_node \<Rightarrow> bool" where
  "same_gates n n' \<longleftrightarrow> an_stop_state n' = an_stop_state n \<and> an_stop_state_at n' = an_stop_state_at n
     \<and> an_nav_action_active n' = an_nav_action_active n \<and> an_nav_state_at n' = an_nav_state_at n"

lemma same_gates_permitted: "same_gates n n' \<Longrightarrow> auto_permitted n' r now = auto_permitted n r now"
  by (simp add: same_gates_def auto_permitted_def stop_clear_def stop_is_fresh_def navigation_state_fresh_def)

lemma same_gates_input: "same_gates n n' \<Longrightarrow> gate_input_of n' x = gate_input_of n x"
  by (simp add: gate_input_of_def same_gates_permitted split: prod.split)

lemma apply_gated: "gated [gate_input_of n (io, r)] n (apply_result env io n r)"
proof -
  let ?d = "publish_demand n r"
  have p: "auto_permitted ?d r t = auto_permitted n r t" for t by (rule permitted_frames)
  have "gated [gate_input_of n (io, r)] n (publish_auto ?d r (io_apply io))"
    by (simp add: gated_def publish_auto_def gate_input_of_def p outputs_frames Let_def split: prod.split option.split)
  then show ?thesis unfolding apply_result_def Let_def gated_def by (simp add: outputs_frames)
qed

lemma supervise_gated:
  assumes "same_gates n m" "an_auto_gate m = an_auto_gate n" "auto_outputs (an_effects m) = auto_outputs (an_effects n)"
  shows "gated [gate_input_of n (io, snd cr)] n (supervise env io m cr)"
proof -
  have s: "same_gates n (m\<lparr>an_supervisor := fst cr\<rparr>)" using assms(1) by (simp add: same_gates_def)
  show ?thesis
    using apply_gated [of "m\<lparr>an_supervisor := fst cr\<rparr>" io "snd cr" env] assms(2,3)
    unfolding same_gates_input [OF s] supervise_def by (simp add: gated_def)
qed

lemma supervise_same_gates: "same_gates n m \<Longrightarrow> same_gates n (supervise env io m cr)"
  using same_core_apply [of "m\<lparr>an_supervisor := fst cr\<rparr>" env io "snd cr"] by (simp add: same_gates_def supervise_def same_core_def)

lemma same_gates_stop [simp]:
  "same_gates n (publish_stop_request m q t) = same_gates n m" "same_gates n (request_stop m b t) = same_gates n m"
  by (simp_all add: same_gates_def publish_stop_request_def request_stop_def Let_def)


lemma supervise_core [simp]:
  "an_supervisor (supervise env io n cr) = fst cr"
  "an_stop_state (supervise env io n cr) = an_stop_state n" "an_stop_state_at (supervise env io n cr) = an_stop_state_at n"
  "an_nav_action_active (supervise env io n cr) = an_nav_action_active n"
  "an_nav_state_at (supervise env io n cr) = an_nav_state_at n"
  using same_core_apply [of "n\<lparr>an_supervisor := fst cr\<rparr>" env io "snd cr"]
  by (simp_all add: supervise_def same_core_def)

lemma timer_gated: "gated (gate_inputs n (CA_timer io io2)) n (on_supervision_timer env io io2 n)"
proof -
  define n1 where "n1 = (case an_pending_stop_request n of None \<Rightarrow> n | Some q \<Rightarrow>
      if (case an_last_stop_request_at n of None \<Rightarrow> True | Some t \<Rightarrow> fle (dbl (5 / 100)) (fsub (io_call io) t))
      then publish_stop_request n q (io_call io) else n)"
  have one: "same_gates n n1" "an_auto_gate n1 = an_auto_gate n" "auto_outputs (an_effects n1) = auto_outputs (an_effects n)"
    "an_supervisor n1 = an_supervisor n" "an_dualsense_active n1 = an_dualsense_active n"
    "an_last_local_control_at n1 = an_last_local_control_at n" "an_local_control_timeout n1 = an_local_control_timeout n"
    by (simp_all add: n1_def same_gates_def publish_stop_request_def emits_def split: option.split)
  define due where "due \<longleftrightarrow> \<not> an_dualsense_active n \<and> (case an_last_local_control_at n of None \<Rightarrow> True
                  | Some t \<Rightarrow> flt (an_local_control_timeout n) (fsub (io_call io) t))"
  define n2 where "n2 = (if due then set_takeover env io n1 True else n1)"
  let ?held = "set_dualsense_active (an_supervisor n) True (io_call io)"
  have take: "gated [gate_input_of n (io, snd ?held)] n (set_takeover env io n1 True)"
    unfolding set_takeover_def using one supervise_gated [of n "n1\<lparr>an_dualsense_active := True\<rparr>" io ?held env]
    by (simp add: same_gates_def)
  have g2: "gated (if due then [gate_input_of n (io, snd ?held)] else []) n n2" using take one by (simp add: n2_def gated_def)
  have s2: "same_gates n n2" "an_supervisor n2 = (if due then fst ?held else an_supervisor n)"
    using one by (simp_all add: n2_def set_takeover_def) (simp add: same_gates_def)
  let ?cr = "CommandSupervisor.tick (an_supervisor n2) (io_call io)"
  have "gated [gate_input_of n (io2, snd ?cr)] n2 (supervise env io2 n2 ?cr)"
    using supervise_gated [of n2 n2 io2 ?cr env] same_gates_input [OF s2(1)] by (simp add: same_gates_def)
  moreover have "gate_inputs n (CA_timer io io2) =
      (if due then [gate_input_of n (io, snd ?held)] else []) @ [gate_input_of n (io2, snd ?cr)]"
    unfolding s2(2) by (simp add: gate_inputs_def due_def Let_def)
  ultimately have "gated (gate_inputs n (CA_timer io io2)) n (supervise env io2 n2 ?cr)"
    using gated_trans [OF g2] by (simp only:)
  moreover have "on_supervision_timer env io io2 n = supervise env io2 n2 ?cr"
    unfolding on_supervision_timer_def Let_def n1_def [symmetric] n2_def due_def one(5-7) ..
  ultimately show ?thesis by simp
qed

lemma local_gated: "gated (gate_inputs n (CA_local io io2 identity active)) n (on_local_control env io io2 n identity active)"
proof -
  define first where "first \<longleftrightarrow> Some identity \<noteq> an_local_control_identity n \<and> \<not> an_dualsense_active n"
  let ?held = "set_dualsense_active (an_supervisor n) True (io_call io)"
  define n1 where "n1 = n\<lparr>an_last_local_control_at := Some (io_call io)\<rparr>"
  define n2 where "n2 = (if Some identity \<noteq> an_local_control_identity n1
                then (let n' = n1\<lparr>an_local_control_identity := Some identity\<rparr>
                      in if \<not> an_dualsense_active n' then set_takeover env io n' True else n')
                else n1)"
  let ?n' = "n1\<lparr>an_local_control_identity := Some identity\<rparr>"
  have take: "gated [gate_input_of n (io, snd ?held)] n (set_takeover env io ?n' True)"
    unfolding set_takeover_def using supervise_gated [of n "?n'\<lparr>an_dualsense_active := True\<rparr>" io ?held env]
    by (simp add: same_gates_def n1_def)
  have dual: "an_dualsense_active (set_takeover env io m True)" for m
    using same_core_apply by (simp add: set_takeover_def supervise_def same_core_def)
  have two: "gated (if first then [gate_input_of n (io, snd ?held)] else []) n n2" "same_gates n n2"
    "an_supervisor n2 = (if first then fst ?held else an_supervisor n)"
    "an_dualsense_active n2 \<longleftrightarrow> first \<or> an_dualsense_active n"
    using take dual [of ?n'] by (simp_all add: n2_def first_def n1_def gated_def same_gates_def set_takeover_def Let_def)
  let ?io = "io2\<lparr>io_call := io_call io\<rparr>"
  let ?cr = "set_dualsense_active (an_supervisor n2) active (io_call io)"
  have "gated [gate_input_of n (?io, snd ?cr)] n2 (set_takeover env ?io n2 active)"
    using supervise_gated [of n2 "n2\<lparr>an_dualsense_active := active\<rparr>" ?io ?cr env] same_gates_input [OF two(2)]
    by (simp add: same_gates_def set_takeover_def)
  then have later: "gated (if active = an_dualsense_active n2 then [] else [gate_input_of n (?io, snd ?cr)]) n2
      (if active = an_dualsense_active n2 then n2 else set_takeover env ?io n2 active)"
    by (cases "active = an_dualsense_active n2") (simp_all only: if_True if_False refl gated_refl)
  have "gate_inputs n (CA_local io io2 identity active) = (if first then [gate_input_of n (io, snd ?held)] else [])
      @ (if active = an_dualsense_active n2 then [] else [gate_input_of n (?io, snd ?cr)])"
    unfolding two(3,4) by (simp add: gate_inputs_def first_def Let_def)
  then have "gated (gate_inputs n (CA_local io io2 identity active)) n
      (if active = an_dualsense_active n2 then n2 else set_takeover env ?io n2 active)"
    using gated_trans [OF two(1) later] by (simp only:)
  moreover have "on_local_control env io io2 n identity active =
      (if active = an_dualsense_active n2 then n2 else set_takeover env ?io n2 active)"
    unfolding on_local_control_def Let_def n1_def n2_def ..
  ultimately show ?thesis by simp
qed

lemma event_gated: "gated (gate_inputs n (CA_event io k x)) n (on_control_event env io n k x)"
proof (cases "control_event_of k")
  case None
  then show ?thesis by (simp add: gate_inputs_def on_control_event_def gated_refl del: control_event_of.simps)
next
  case (Some e)
  obtain c r where h: "handle_control_event (an_supervisor n) (x\<lparr>ci_event := e, ci_now := io_call io\<rparr>) = (c, r)" by fastforce
  have g: "gated [gate_input_of n (io, r)] n (apply_result env io m r)"
    if "same_gates n m" "an_auto_gate m = an_auto_gate n" "auto_outputs (an_effects m) = auto_outputs (an_effects n)" for m
    using apply_gated [of m io r env] that by (simp add: gated_def same_gates_input)
  have m: "same_gates n (n\<lparr>an_supervisor := c\<rparr>)" by (simp add: same_gates_def)
  show ?thesis using m
    by (simp add: gate_inputs_def on_control_event_def Some h Let_def g stop_outputs del: control_event_of.simps)
qed

lemma authority_step_gated: "gated (gate_inputs n i) n (authority_step env n i)"
proof (cases i)
  case (CA_mode io m)
  have "same_gates n (n\<lparr>an_runtime_epoch := e\<rparr>)" for e by (simp add: same_gates_def)
  then show ?thesis
    using CA_mode by (auto simp: gate_inputs_def on_mode_def gated_refl intro: supervise_gated split: option.split)
next
  case (CA_config m)
  then show ?thesis
    by (simp add: gate_inputs_def gated_def on_config_request_def publish_config_state_def Let_def split: sum.split py_error.split)
next
  case (CA_stop_state m now)
  then show ?thesis by (simp add: gate_inputs_def gated_def on_stop_state_def Let_def split: option.split)
next
  case (CA_navigation state now)
  then show ?thesis by (simp add: gate_inputs_def gated_def on_navigation_state_def)
next
  case (CA_raw_autonomy io c)
  then show ?thesis by (simp add: gate_inputs_def on_raw_autonomy_def supervise_gated same_gates_def)
next
  case (CA_raw_manual io m)
  then show ?thesis by (simp add: gate_inputs_def on_raw_manual_def supervise_gated same_gates_def gated_refl)
qed (simp_all only: authority_step.simps timer_gated local_gated event_gated)

lemma gate_history_append:
  "gate_history env n (is @ js) = gate_history env n is @ gate_history env (run_steps (authority_step env) n is) js"
  by (induction "is" arbitrary: n) simp_all

lemma run_gated: "gated (gate_history env n is) n (run_steps (authority_step env) n is)"
  by (induction "is" arbitrary: n) (auto simp: gated_refl intro: gated_trans authority_step_gated)

text \<open>
  The brake window, as a property of everything the gate was given: a sample
  was let through, then nothing arrived while output stayed permitted, then
  permission was refused, for the first time at \<open>t\<close>, and ever since; no update
  from \<open>t\<close> on is later than \<open>t\<close> plus the window.
\<close>

definition brake_window :: "pyfloat \<Rightarrow> gate_input list \<Rightarrow> bool" where
  "brake_window w us \<longleftrightarrow> (\<exists>before t0 c idle t x refused.
     us = before @ (t0, True, Some c) # idle @ (t, False, x) # refused
     \<and> (\<forall>(now, permitted, y) \<in> set idle. permitted \<and> y = None)
     \<and> (\<forall>(now, permitted, y) \<in> set refused. \<not> permitted)
     \<and> (\<forall>(now, permitted, y) \<in> set ((t, False, x) # refused). fle now (fadd t w)))"

definition forwarding_after :: "gate_input list \<Rightarrow> bool" where
  "forwarding_after us \<longleftrightarrow> (\<exists>before t0 c idle. us = before @ (t0, True, Some c) # idle
     \<and> (\<forall>(now, permitted, y) \<in> set idle. permitted \<and> y = None))"

definition braking_until :: "pyfloat \<Rightarrow> pyfloat \<Rightarrow> gate_input list \<Rightarrow> bool" where
  "braking_until w d us \<longleftrightarrow> (\<exists>before t0 c idle t x refused.
     us = before @ (t0, True, Some c) # idle @ (t, False, x) # refused \<and> d = fadd t w
     \<and> (\<forall>(now, permitted, y) \<in> set idle. permitted \<and> y = None)
     \<and> (\<forall>(now, permitted, y) \<in> set refused. \<not> permitted)
     \<and> (\<forall>(now, permitted, y) \<in> set ((t, False, x) # refused). fle now d))"

lemma braking_window: "braking_until w d us \<Longrightarrow> brake_window w us"
  by (fastforce simp: braking_until_def brake_window_def)

definition gate_ok :: "pyfloat \<Rightarrow> output_gate \<Rightarrow> gate_input list \<Rightarrow> bool" where
  "gate_ok w g us \<longleftrightarrow> gt_brake_window_sec g = w
     \<and> (gt_was_forwarding g \<longrightarrow> gt_brake_deadline g = None \<and> forwarding_after us)
     \<and> (\<forall>d. gt_brake_deadline g = Some d \<longrightarrow> braking_until w d us)"

lemma forwarding_idle: "forwarding_after us \<Longrightarrow> forwarding_after (us @ [(now, True, None)])"
proof -
  assume "forwarding_after us"
  then obtain a t0 c idle where "us = a @ (t0, True, Some c) # idle" "\<forall>(now, p, y) \<in> set idle. p \<and> y = None"
    unfolding forwarding_after_def by blast
  then show ?thesis unfolding forwarding_after_def
    by (intro exI [of _ a] exI [of _ t0] exI [of _ c] exI [of _ "idle @ [(now, True, None)]"]) auto
qed

lemma forwarding_refused:
  "forwarding_after us \<Longrightarrow> fle now (fadd now w) \<Longrightarrow> braking_until w (fadd now w) (us @ [(now, False, x)])"
  unfolding forwarding_after_def braking_until_def by fastforce

lemma braking_refused:
  assumes "braking_until w d us" "fle now d"
  shows "braking_until w d (us @ [(now, False, x)])"
proof -
  obtain a t0 c idle t y r where "us = a @ (t0, True, Some c) # idle @ (t, False, y) # r" "d = fadd t w"
     "\<forall>(now, p, y) \<in> set idle. p \<and> y = None" "\<forall>(now, p, y) \<in> set r. \<not> p"
     "\<forall>(now, p, y) \<in> set ((t, False, y) # r). fle now d"
    using assms(1) unfolding braking_until_def by blast
  then show ?thesis using assms(2) unfolding braking_until_def
    by (intro exI [of _ a] exI [of _ t0] exI [of _ c] exI [of _ idle] exI [of _ t] exI [of _ y] exI [of _ "r @ [(now, False, x)]"]) auto
qed

lemma gate_update_ok:
  assumes "gate_ok w g us" "gate_update g now permitted command = (g', out)"
  shows "gate_ok w g' (us @ [(now, permitted, command)])"
    and "out = Some v \<Longrightarrow> permitted \<and> command = Some v \<or> v = zero_command \<and> brake_window w (us @ [(now, permitted, command)])"
proof -
  have f: "forwarding_after (us @ [(now, True, Some c)])" for c
    unfolding forwarding_after_def by (intro exI [of _ us]) simp
  have k: "gate_ok w g' (us @ [(now, permitted, command)]) \<and>
      (out = Some v \<longrightarrow> permitted \<and> command = Some v \<or> v = zero_command \<and> brake_window w (us @ [(now, permitted, command)]))"
  proof (cases permitted)
    case True
    then show ?thesis using assms f forwarding_idle by (auto simp: gate_ok_def gate_update_def split: if_splits)
  next
    case False
    then show ?thesis
      using assms forwarding_refused [of us now w command] braking_refused [of w _ us now command]
      by (auto simp: gate_ok_def gate_update_def Let_def intro: braking_window split: if_splits option.splits)
  qed
  show "gate_ok w g' (us @ [(now, permitted, command)])" using k by blast
  show "out = Some v \<Longrightarrow> permitted \<and> command = Some v \<or> v = zero_command \<and> brake_window w (us @ [(now, permitted, command)])"
    using k by blast
qed

text \<open>Every output of a run of the gate is a sample let through or a zero of the window.\<close>

lemma gate_run_outputs:
  assumes "gate_ok w g hist" "v \<in> set (snd (gate_run g us))"
  shows "\<exists>a now permitted command b. us = a @ (now, permitted, command) # b
    \<and> (permitted \<and> command = Some v \<or> v = zero_command \<and> brake_window w (hist @ a @ [(now, permitted, command)]))"
  using assms
proof (induction g us arbitrary: hist rule: gate_run.induct)
  case (2 g now permitted command us)
  obtain g1 out where u: "gate_update g now permitted command = (g1, out)" by fastforce
  note ok = gate_update_ok [OF 2(2) u]
  from 2(3) u consider (here) "out = Some v" | (later) "v \<in> set (snd (gate_run g1 us))"
    by (auto simp: Let_def split: prod.splits option.splits)
  then show ?case
  proof cases
    case here
    then show ?thesis using ok(2) by (metis append_Nil)
  next
    case later
    obtain a t p c b where "us = a @ (t, p, c) # b"
      "p \<and> c = Some v \<or> v = zero_command \<and> brake_window w ((hist @ [(now, permitted, command)]) @ a @ [(t, p, c)])"
      using 2(1) [OF u [symmetric] refl ok(1) later] by auto
    then show ?thesis by (intro exI [of _ "(now, permitted, command) # a"]) auto
  qed
qed simp

lemma gate_run_ok: "gate_ok w g hist \<Longrightarrow> gate_ok w (fst (gate_run g us)) (hist @ us)"
proof (induction g us arbitrary: hist rule: gate_run.induct)
  case (2 g now permitted command us)
  obtain g1 out where u: "gate_update g now permitted command = (g1, out)" by fastforce
  show ?case using 2(1) [OF u [symmetric] refl gate_update_ok(1) [OF 2(2) u]] u by (auto simp: Let_def split: prod.split)
qed simp

lemma new_authority_gate:
  assumes "new_authority env io requester p = Inr n"
  shows "gate_ok (ap_auto_brake_window_sec p) (an_auto_gate n) []"
proof -
  obtain c n0 where n: "n = publish_config_state (supervise env io n0 (restart c (io_call io)))" and g: "an_auto_gate n0 = new_gate (ap_auto_brake_window_sec p)"
    and s: "an_stop_state n0 = None"
    using assms by (auto simp: new_authority_def bind_result_Inr_iff Let_def split: if_splits)
  let ?cr = "restart c (io_call io)"
  have "gated [gate_input_of n0 (io, snd ?cr)] n0 (supervise env io n0 ?cr)" by (rule supervise_gated) (simp_all add: same_gates_def)
  moreover have "\<not> auto_permitted n0 (snd ?cr) t" for t using s by (simp add: auto_permitted_def stop_clear_def stop_is_fresh_def)
  ultimately have "an_auto_gate (supervise env io n0 ?cr) = new_gate (ap_auto_brake_window_sec p)"
    by (simp add: gated_def gate_input_of_def g gate_update_def new_gate_def)
  then show ?thesis by (simp add: n gate_ok_def new_gate_def)
qed

text \<open>Only a raw sample ever brings a command.\<close>

lemma applied_command:
  assumes "cs_inv (an_supervisor n)" "(io, r) \<in> set (applied_results n i)" "sr_autonomy_command r = Some v"
  shows "i = CA_raw_autonomy io v \<and> vc_valid v \<and> authority_of (cs_state (an_supervisor n)) = AUTH_PADDOCK_AUTONOMY
    \<and> lease_is_fresh (an_supervisor n) (io_call io)"
proof -
  have no: "\<not> mute r" using assms(3) by (simp add: mute_def)
  have manual: "sr_autonomy_command (snd (receive_raw_manual c u q t)) = None" for c u q t
    by (simp add: receive_raw_manual_def reject_def Let_def)
  show ?thesis
  proof (cases i)
    case (CA_raw_autonomy io' c)
    then show ?thesis using raw_autonomy_command [OF assms(1), of c "io_call io" v] assms(2,3) by auto
  next
    case (CA_event io' k x)
    then show ?thesis using assms(2) no mute_control by (auto split: option.splits simp del: control_event_of.simps)
  next
    case (CA_raw_manual io' m)
    then show ?thesis using assms(2,3) manual by (auto split: if_splits)
  next
    case (CA_mode io' m)
    then show ?thesis using assms(2) no mute_ops by (auto split: option.splits simp del: mode_of.simps)
  next
    case (CA_local io1 io2 identity active)
    then show ?thesis using assms(2) no mute_ops by (auto simp: Let_def split: if_splits)
  next
    case (CA_timer io1 io2)
    then show ?thesis using assms(2) no mute_ops by (auto simp: Let_def split: if_splits)
  qed (use assms(2) in auto)
qed

section \<open>The goal the navigation runtime was told\<close>

definition goal_pose :: "nav_env \<Rightarrow> goal_intent \<Rightarrow> mission_pose" where
  "goal_pose env g = \<lparr> mp_frame_id = ''map'', mp_position = (gi_x g, gi_y g, Fin 0),
     mp_orientation = (Fin 0, Fin 0, ne_sin env (half (gi_yaw g)), ne_cos env (half (gi_yaw g))) \<rparr>"

fun select_step :: "nav_msg option \<Rightarrow> authority_effect \<Rightarrow> nav_msg option" where
  "select_step b (AE_nav m) = (if nq_operation m = NAV_SELECT then Some m else b)"
| "select_step b _ = b"

text \<open>The last request that selects a mission.\<close>

definition last_selected :: "authority_effect list \<Rightarrow> nav_msg option" where
  "last_selected es = foldl select_step None es"

lemma last_selected_snoc [simp]: "last_selected (es @ [e]) = select_step (last_selected es) e"
  by (simp add: last_selected_def)

definition same_mission :: "authority_node \<Rightarrow> authority_node \<Rightarrow> bool" where
  "same_mission n n' \<longleftrightarrow> last_selected (an_effects n') = last_selected (an_effects n)
     \<and> an_mission_id n' = an_mission_id n \<and> an_mission_revision n' = an_mission_revision n"

lemma same_mission_refl [simp]: "same_mission n n" "same_mission n (n\<lparr>an_supervisor := c\<rparr>)"
    "same_mission n (n\<lparr>an_dualsense_active := b\<rparr>)"
  by (simp_all add: same_mission_def)

lemma same_mission_trans: "same_mission a b \<Longrightarrow> same_mission b c \<Longrightarrow> same_mission a c"
  by (simp add: same_mission_def)

lemma same_mission_pieces:
  "same_mission n (publish_demand n r)" "same_mission n (publish_auto n r now)" "same_mission n (publish_manual n r now)"
  "same_mission n (sync_dispatch env n s)" "same_mission n (publish_status n sn now)"
  "same_mission n (publish_config_state n)" "same_mission n (publish_stop_request n q now)" "same_mission n (request_stop n b now)"
  by (simp_all add: same_mission_def publish_demand_def publish_auto_def publish_manual_def sync_dispatch_def publish_status_def
      publish_config_state_def publish_stop_request_def request_stop_def publish_nav_request_def emits_def Let_def
      split: option.split prod.split)

text \<open>The last selection names the goal, on its map, under the current mission id and revision.\<close>

definition told_goal :: "nav_env \<Rightarrow> authority_node \<Rightarrow> goal_intent \<Rightarrow> bool" where
  "told_goal env n g \<longleftrightarrow> (\<exists>m. last_selected (an_effects n) = Some m \<and> nq_poses m = [goal_pose env g]
     \<and> nq_map_id m = gi_map_name g \<and> nq_mission_id m = an_mission_id n \<and> nq_mission_revision m = an_mission_revision n)"

definition goal_inv :: "nav_env \<Rightarrow> authority_node \<Rightarrow> bool" where
  "goal_inv env n \<longleftrightarrow> (\<forall>g. an_nav_last_goal_key n = Some g \<longrightarrow> told_goal env n g)"

lemma goal_inv_same: "same_mission n n' \<Longrightarrow> an_nav_last_goal_key n' = an_nav_last_goal_key n \<Longrightarrow> goal_inv env n \<Longrightarrow> goal_inv env n'"
  by (simp add: same_mission_def goal_inv_def told_goal_def)

lemma sync_goal_told:
  assumes "goal_inv env n" "\<And>g. ps_goal s = Some g \<Longrightarrow> gi_map_name g = ps_active_autonomy_map s"
  shows "goal_inv env (sync_goal env uuid n s)"
  using assms by (auto simp: sync_goal_def publish_nav_request_def goal_inv_def told_goal_def goal_pose_def emits_def Let_def
      split: option.split)

lemma sync_dispatch_key [simp]: "an_nav_last_goal_key (sync_dispatch env n s) = an_nav_last_goal_key n"
  by (simp add: sync_dispatch_def publish_nav_request_def Let_def)

lemma apply_goal:
  assumes "goal_inv env n" "cs_inv (an_supervisor n)" "sn_state (sr_snapshot r) = cs_state (an_supervisor n)"
  shows "goal_inv env (apply_result env io n r)"
proof -
  let ?n = "publish_manual (publish_auto (publish_demand n r) r (io_apply io)) r (io_apply io)"
  have "same_mission n ?n" by (meson same_mission_pieces same_mission_trans)
  then have m: "goal_inv env ?n" using goal_inv_same [of n ?n] assms(1) by simp
  have "gi_map_name g = ps_active_autonomy_map (cs_state (an_supervisor n))" if "ps_goal (cs_state (an_supervisor n)) = Some g" for g
    using assms(2) that by (auto simp: cs_inv_def ps_inv_def)
  then have "goal_inv env (sync_goal env (io_uuid io) ?n (cs_state (an_supervisor n)))" using sync_goal_told [OF m] by simp
  then have "goal_inv env (sync_navigation env (io_uuid io) ?n (cs_state (an_supervisor n)))"
    unfolding sync_navigation_def by (rule goal_inv_same [OF same_mission_pieces(4) sync_dispatch_key])
  then show ?thesis unfolding apply_result_def Let_def assms(3) by (rule goal_inv_same [OF same_mission_pieces(5)  key_frames(4)])
qed

lemma supervise_goal:
  assumes "reports cr" "cs_inv (fst cr)" "goal_inv env m"
  shows "goal_inv env (supervise env io m cr)"
proof -
  have "goal_inv env (m\<lparr>an_supervisor := fst cr\<rparr>)" using assms(3) by (simp add: goal_inv_def told_goal_def)
  then show ?thesis unfolding supervise_def using assms by (intro apply_goal) (simp_all add: reports_def)
qed

lemma set_takeover_goal: "cs_inv (an_supervisor n) \<Longrightarrow> goal_inv env n \<Longrightarrow> goal_inv env (set_takeover env io n b)"
  unfolding set_takeover_def
  by (rule supervise_goal) (simp_all add: reports_dualsense set_dualsense_active_inv goal_inv_def told_goal_def)

lemma on_control_event_goal:
  assumes "cs_inv (an_supervisor n)" "goal_inv env n"
  shows "goal_inv env (on_control_event env io n k i)"
proof (cases "control_event_of k")
  case None
  then show ?thesis using assms by (simp add: on_control_event_def)
next
  case (Some e)
  let ?i = "i\<lparr>ci_event := e, ci_now := io_call io\<rparr>"
  obtain c r where h: "handle_control_event (an_supervisor n) ?i = (c, r)" by fastforce
  have r: "reports (c, r)" "cs_inv c"
    using reports_control [of "an_supervisor n" ?i] handle_control_event_inv [OF assms(1), of ?i] h by simp_all
  let ?n1 = "n\<lparr>an_supervisor := c\<rparr>"
  have g: "goal_inv env ?n1" by (rule goal_inv_same [OF same_mission_refl(2) _ assms(2)]) simp
  have "goal_inv env (request_stop ?n1 b t)" "an_supervisor (request_stop ?n1 b t) = c" for b t
    using goal_inv_same [OF same_mission_pieces(8) key_frames(5) g]
    by (simp_all add: request_stop_def publish_stop_request_def Let_def)
  then show ?thesis using r g unfolding on_control_event_def Some h option.case prod.case Let_def
    by (auto simp: reports_def intro!: apply_goal)
qed

lemma on_config_request_goal: "goal_inv env n \<Longrightarrow> goal_inv env (on_config_request n m)"
  by (auto simp: on_config_request_def publish_config_state_def goal_inv_def told_goal_def emits_def Let_def
      split: sum.split py_error.split)

lemma on_supervision_timer_goal:
  assumes "an_inv n" "goal_inv env n"
  shows "goal_inv env (on_supervision_timer env io io2 n)"
proof -
  have r: "an_inv (publish_stop_request n q now)" "goal_inv env (publish_stop_request n q now)" for q now
    using assms by (simp_all add: an_inv_def publish_stop_request_def goal_inv_def told_goal_def) (simp add: emits_def)
  let ?n1 = "case an_pending_stop_request n of None \<Rightarrow> n | Some q \<Rightarrow>
      if (case an_last_stop_request_at n of None \<Rightarrow> True | Some t \<Rightarrow> fle (dbl (5 / 100)) (fsub (io_call io) t))
      then publish_stop_request n q (io_call io) else n"
  have n1: "an_inv ?n1" "goal_inv env ?n1" using assms r by (simp_all split: option.split)
  have t: "goal_inv env (supervise env io2 m (CommandSupervisor.tick (an_supervisor m) (io_call io)))"
    if "an_inv m" "goal_inv env m" for m
    by (rule supervise_goal) (simp_all add: reports_tick an_invD [OF that(1)] tick_inv that)
  show ?thesis unfolding on_supervision_timer_def Let_def
    using t n1 set_takeover_inv [OF n1(1)] set_takeover_goal [OF an_invD(1) [OF n1(1)] n1(2)] by simp
qed

lemma on_local_control_goal:
  assumes "an_inv n" "goal_inv env n"
  shows "goal_inv env (on_local_control env io io2 n identity active)"
proof -
  have a: "an_inv (n\<lparr>an_last_local_control_at := a\<rparr>)" "an_inv (n\<lparr>an_last_local_control_at := a, an_local_control_identity := b\<rparr>)"
     "goal_inv env (n\<lparr>an_last_local_control_at := a\<rparr>)" "goal_inv env (n\<lparr>an_last_local_control_at := a, an_local_control_identity := b\<rparr>)" for a b
    using assms by (simp_all add: an_inv_def goal_inv_def told_goal_def)
  then show ?thesis unfolding on_local_control_def Let_def using set_takeover_goal [OF an_invD(1)] set_takeover_inv by simp
qed

lemma goal_inv_epoch [simp]: "goal_inv env (n\<lparr>an_runtime_epoch := e\<rparr>) = goal_inv env n"
  by (simp add: goal_inv_def told_goal_def)

lemma authority_step_goal: "an_inv n \<Longrightarrow> goal_inv env n \<Longrightarrow> goal_inv env (authority_step env n i)"
proof (cases i)
  case (CA_raw_autonomy io c)
  assume "an_inv n" "goal_inv env n"
  then show ?thesis using CA_raw_autonomy
    by (simp add: on_raw_autonomy_def supervise_goal reports_raw_autonomy receive_raw_autonomy_inv an_invD)
next
  case (CA_raw_manual io m)
  assume "an_inv n" "goal_inv env n"
  then show ?thesis using CA_raw_manual
    by (simp add: on_raw_manual_def supervise_goal reports_raw_manual receive_raw_manual_inv an_invD)
next
  case (CA_mode io m)
  assume "an_inv n" "goal_inv env n"
  then show ?thesis using CA_mode
    by (auto simp: on_mode_def reports_mode set_runtime_mode_inv an_invD split: option.split intro!: supervise_goal)
next
  case (CA_stop_state m now)
  assume "an_inv n" "goal_inv env n"
  then show ?thesis using CA_stop_state by (simp add: on_stop_state_def goal_inv_def told_goal_def Let_def split: option.split)
next
  case (CA_navigation s now)
  assume "an_inv n" "goal_inv env n"
  then show ?thesis using CA_navigation by (simp add: on_navigation_state_def goal_inv_def told_goal_def)
qed (simp_all add: on_config_request_goal on_control_event_goal on_local_control_goal on_supervision_timer_goal an_invD)

lemma new_authority_goal:
  assumes "new_authority env io requester p = Inr n"
  shows "goal_inv env n"
proof -
  obtain c n0 where c: "new_supervisor (ap_lease_timeout_sec p) (ap_raw_autonomy_timeout_sec p)
      (Some (ap_control_liveness_sec p)) DEFAULT_MANUAL_TIMEOUT_SEC DEFAULT_MANUAL_MAX_SPEED_MPS
      DEFAULT_MINIMUM_MOVING_SPEED_MPS (ap_active_autonomy_map p) = Inr c"
    and n: "n = publish_config_state (supervise env io n0 (restart c (io_call io)))"
    and n0: "an_nav_last_goal_key n0 = None"
    using assms by (auto simp: new_authority_def bind_result_Inr_iff Let_def split: if_splits)
  have "cs_inv c" by (rule new_supervisor_inv [OF c]) (simp add: DEFAULT_MINIMUM_MOVING_SPEED_MPS_def)
  then have "goal_inv env (supervise env io n0 (restart c (io_call io)))"
    by (intro supervise_goal) (simp_all add: reports_restart restart_inv goal_inv_def n0)
  then show ?thesis unfolding n by (simp add: goal_inv_def told_goal_def publish_config_state_def emits_def)
qed

interpretation authority_goal: machine "an_initial env" "authority_step env" "\<lambda>n. an_inv n \<and> goal_inv env n"
  by unfold_locales (auto simp: an_initial_def new_authority_inv new_authority_goal authority_step_inv authority_step_goal)

section \<open>Properties of the authority\<close>

text \<open>
  C8. After start-up and any callbacks, the last request that tells the
  navigation runtime to run or to cancel says run exactly while the complete
  autonomy interlock of the supervisor is closed; and while the supervisor holds
  a goal, the last mission selected is that goal, one pose on its map, under the
  node's current mission id and revision.
\<close>

theorem navigation_told_iff_interlock:
  assumes "new_authority env io requester p = Inr n0" "n = run_steps (authority_step env) n0 is"
  shows "told_to_run (an_effects n) = autonomy_permitted (cs_state (an_supervisor n))
    \<and> (\<forall>g. ps_goal (cs_state (an_supervisor n)) = Some g \<longrightarrow> told_goal env n g)"
proof -
  have "an_initial env n0" using assms(1) by (auto simp: an_initial_def)
  then have "an_inv n \<and> goal_inv env n" unfolding assms(2) by (rule authority_goal.invar_reachable)
  then show ?thesis by (auto simp: an_inv_def cs_inv_def ps_inv_def goal_inv_def)
qed

text \<open>
  C7. Every command on the supervised autonomy input is of one of two kinds. It
  is the valid raw sample whose arrival is being handled, at a time when a fresh
  STOP state is clear, the navigation runtime freshly reports an active action,
  autonomy authority is granted and the lease is fresh. Or it is the zero of the
  brake window: a sample had been let through, the node refused permission after
  it and ever since, and this update comes no later than the first refusal plus
  the configured window.
\<close>

theorem autonomy_output_provenance:
  assumes "new_authority env io0 requester p = Inr n0" "n = run_steps (authority_step env) n0 is"
    "auto_outputs (an_effects (authority_step env n i)) = auto_outputs (an_effects n) @ vs" "v \<in> set vs"
  shows "(\<exists>io. i = CA_raw_autonomy io v \<and> vc_valid v \<and> stop_clear n (io_apply io) \<and> an_nav_action_active n
      \<and> navigation_state_fresh n (io_apply io) \<and> authority_of (cs_state (an_supervisor n)) = AUTH_PADDOCK_AUTONOMY
      \<and> lease_is_fresh (an_supervisor n) (io_call io))
    \<or> (v = zero_command \<and> (\<exists>a u b. gate_inputs n i = a @ u # b
        \<and> brake_window (ap_auto_brake_window_sec p) (gate_history env n0 is @ a @ [u])))"
proof -
  let ?w = "ap_auto_brake_window_sec p"
  have "an_inv n" unfolding assms(2)
    by (rule authority_exec.invar_reachable) (use assms(1) in \<open>auto simp: an_initial_def\<close>)
  then have inv: "cs_inv (an_supervisor n)" by (rule an_invD)
  have ok: "gate_ok ?w (an_auto_gate n) (gate_history env n0 is)"
    using gate_run_ok [OF new_authority_gate [OF assms(1)], of "gate_history env n0 is"] run_gated [of env n0 "is"]
    by (simp add: assms(2) gated_def)
  have "v \<in> set (snd (gate_run (an_auto_gate n) (gate_inputs n i)))"
    using authority_step_gated [of n i env] assms(3,4) by (simp add: gated_def)
  then obtain a now q c b where u: "gate_inputs n i = a @ (now, q, c) # b"
      "q \<and> c = Some v \<or> v = zero_command \<and> brake_window ?w (gate_history env n0 is @ a @ [(now, q, c)])"
    using gate_run_outputs [OF ok] by blast
  from u(2) show ?thesis
  proof
    assume "q \<and> c = Some v"
    then have "(now, True, Some v) \<in> set (gate_inputs n i)" using u(1) by simp
    then obtain io r where r: "(io, r) \<in> set (applied_results n i)" "sr_autonomy_command r = Some v" "auto_permitted n r (io_apply io)"
      by (auto simp: gate_inputs_def gate_input_of_def)
    then show ?thesis using applied_command [OF inv r(1,2)] by (auto simp: auto_permitted_def)
  qed (use u(1) in blast)
qed

text \<open>
  A command on the Paddock manual input that is not the zero brake command
  is the valid sample being handled, converted by the drive adapter for the
  current runtime epoch and lease generation and answering the sequence number
  of the held demand, while a fresh STOP state is clear, manual authority is
  granted, the lease is live and the demand fresh.
\<close>

theorem manual_output_provenance:
  assumes "new_authority env io0 requester p = Inr n0" "n = run_steps (authority_step env) n0 is"
    "manual_outputs (an_effects (authority_step env n i)) = manual_outputs (an_effects n) @ vs" "v \<in> set vs" "v \<noteq> zero_command"
  shows "\<exists>io m. i = CA_raw_manual io m \<and> v = cv_command m \<and> vc_valid v \<and> stop_clear n (io_apply io)
    \<and> cv_source m = SOURCE_PADDOCK_MANUAL \<and> cv_runtime_epoch m = an_runtime_epoch n
    \<and> cv_lease_generation m = ps_lease_generation (cs_state (an_supervisor n))
    \<and> authority_of (cs_state (an_supervisor n)) = AUTH_PADDOCK_MANUAL \<and> lease_is_live (an_supervisor n) (io_call io)
    \<and> manual_is_fresh (an_supervisor n) (io_call io)
    \<and> map_option md_sequence (cs_manual_demand (an_supervisor n)) = Some (cv_sequence m)"
proof -
  have "an_inv n" unfolding assms(2)
    by (rule authority_exec.invar_reachable) (use assms(1) in \<open>auto simp: an_initial_def\<close>)
  then have inv: "cs_inv (an_supervisor n)" by (rule an_invD)
  consider (auto) io c where "i = CA_raw_autonomy io c" | (manual) io m where "i = CA_raw_manual io m"
    | (other) "\<nexists>io c. i = CA_raw_autonomy io c" "\<nexists>io m. i = CA_raw_manual io m" by blast
  then show ?thesis
  proof cases
    case auto
    then show ?thesis using ext_mem [OF raw_autonomy_ext(2) [OF inv, of env io c] _ assms(4)] assms(3,5) by simp
  next
    case manual
    then show ?thesis
      using ext_mem [OF raw_manual_ext(1) [OF inv, of m io env] _ assms(4)] assms(3,5) by auto
  next
    case other
    then show ?thesis using ext_mem [OF conjunct2 [OF other_steps_brake [OF other, of n env]] assms(3,4)] assms(5) by simp
  qed
qed

section \<open>Concrete runs\<close>

text \<open>With every gate open the handled sample is the output.\<close>

lemma gate_forwards: "snd (gate_update g now True (Some c)) = Some c"
  by (simp add: gate_update_def)

lemma raw_autonomy_forwards:
  assumes "cs_inv (an_supervisor n)" "isfinite (io_call io)" "vc_valid c"
    "authority_of (cs_state (an_supervisor n)) = AUTH_PADDOCK_AUTONOMY" "lease_is_fresh (an_supervisor n) (io_call io)"
    "stop_clear n (io_apply io)" "an_nav_action_active n" "navigation_state_fresh n (io_apply io)"
  shows "auto_outputs (an_effects (on_raw_autonomy env io n c)) = auto_outputs (an_effects n) @ [c]"
proof -
  let ?cr = "receive_raw_autonomy (an_supervisor n) c (io_call io)"
  let ?m = "n\<lparr>an_supervisor := fst ?cr\<rparr>" let ?d = "publish_demand ?m (snd ?cr)"
  have s: "sr_autonomy_command (snd ?cr) = Some c" using raw_autonomy_gate [OF assms(1-3)] assms(4,5) by simp
  then have "\<not> sn_brake_intent (sr_snapshot (snd ?cr))"
    by (auto simp: receive_raw_autonomy_def reject_def Let_def split: if_splits)
  then have p: "auto_permitted ?d (snd ?cr) (io_apply io)"
    using assms(6-8) unfolding permitted_frames
    by (simp add: auto_permitted_def stop_clear_def stop_is_fresh_def navigation_state_fresh_def)
  obtain g where g: "gate_update (an_auto_gate ?d) (io_apply io) True (Some c) = (g, Some c)"
    by (cases "gate_update (an_auto_gate ?d) (io_apply io) True (Some c)") (simp add: gate_update_def)
  have "auto_outputs (an_effects (publish_auto ?d (snd ?cr) (io_apply io))) = auto_outputs (an_effects ?d) @ [c]"
    using p g by (simp add: publish_auto_def s)
  then show ?thesis
    unfolding on_raw_autonomy_def supervise_def apply_result_def Let_def by (simp add: outputs_frames)
qed

lemma raw_manual_forwards:
  assumes "cs_inv (an_supervisor n)" "isfinite (io_call io)" "vc_valid (cv_command m)"
    "authority_of (cs_state (an_supervisor n)) = AUTH_PADDOCK_MANUAL" "lease_is_live (an_supervisor n) (io_call io)"
    "manual_is_fresh (an_supervisor n) (io_call io)"
    "map_option md_sequence (cs_manual_demand (an_supervisor n)) = Some (cv_sequence m)"
    "cv_source m = SOURCE_PADDOCK_MANUAL" "cv_runtime_epoch m = an_runtime_epoch n"
    "cv_lease_generation m = ps_lease_generation (cs_state (an_supervisor n))" "stop_clear n (io_apply io)"
  shows "manual_outputs (an_effects (on_raw_manual env io n m)) = manual_outputs (an_effects n) @ [cv_command m]"
proof -
  let ?cr = "receive_raw_manual (an_supervisor n) (cv_command m) (cv_sequence m) (io_call io)"
  let ?m = "n\<lparr>an_supervisor := fst ?cr\<rparr>"
  let ?d = "publish_auto (publish_demand ?m (snd ?cr)) (snd ?cr) (io_apply io)"
  have s: "sr_manual_command (snd ?cr) = Some (cv_command m)" using raw_manual_gate [OF assms(1-3)] assms(4-7) by simp
  then have "authority_of (sn_state (sr_snapshot (snd ?cr))) = AUTH_PADDOCK_MANUAL" "sn_manual_input_fresh (sr_snapshot (snd ?cr))"
    by (auto simp: receive_raw_manual_def reject_def Let_def split: if_splits)
  then have p: "manual_permitted ?d (snd ?cr) (io_apply io)"
    using assms(11) unfolding permitted_frames by (simp add: manual_permitted_def stop_clear_def stop_is_fresh_def)
  obtain g where g: "gate_update (an_manual_gate ?d) (io_apply io) True (Some (cv_command m)) = (g, Some (cv_command m))"
    by (cases "gate_update (an_manual_gate ?d) (io_apply io) True (Some (cv_command m))") (simp add: gate_update_def)
  have "manual_outputs (an_effects (publish_manual ?d (snd ?cr) (io_apply io))) = manual_outputs (an_effects ?d) @ [cv_command m]"
    using p by (simp add: publish_manual_def s g)
  then show ?thesis
    unfolding on_raw_manual_def supervise_def apply_result_def Let_def using assms(8-10) by (simp add: outputs_frames)
qed

definition demo_cb :: "pyfloat \<Rightarrow> callback_io" where
  "demo_cb t = \<lparr>io_call = t, io_check = t, io_sent = t, io_apply = t, io_state = t, io_uuid = ''u''\<rparr>"

definition demo_nav_env :: nav_env where
  "demo_nav_env = \<lparr> ne_sum = (\<lambda>_. Fin 0), ne_sqrt = (\<lambda>x. x), ne_hypot = (\<lambda>x y. x), ne_atan2 = (\<lambda>x y. Fin 0),
     ne_sin = (\<lambda>x. Fin 0), ne_cos = (\<lambda>x. Fin 1), ne_error_names = (\<lambda>_. None), ne_status_names = (\<lambda>_. None),
     ne_STATUS_ACCEPTED = 1, ne_STATUS_EXECUTING = 2, ne_STATUS_SUCCEEDED = 4, ne_STATUS_CANCELED = 5, ne_STATUS_ABORTED = 6 \<rparr>"

definition demo_params :: authority_params where
  "demo_params = \<lparr> ap_lease_timeout_sec = Fin 1, ap_control_liveness_sec = Fin 3, ap_raw_autonomy_timeout_sec = Fin 1,
     ap_supervision_period_sec = Fin 1, ap_local_control_timeout_sec = Fin (1 / 16), ap_active_autonomy_map = [],
     ap_auto_brake_window_sec = Fin 1 \<rparr>"

definition demo_stop_clear :: stop_state where
  "demo_stop_clear = \<lparr> ss_boot_id = ''b'', ss_generation = 4, ss_stopped = False, ss_locked = False, ss_healthy = True,
     ss_applied = False, ss_clear_pending = False, ss_reason = [], ss_last_requester_id = [], ss_last_request_id = 0,
     ss_last_request_accepted = True, ss_last_request_reason = [] \<rparr>"

definition demo_authority :: authority_node where
  "demo_authority = (case new_authority demo_nav_env (demo_cb (Fin 0)) ''r'' demo_params of Inr n \<Rightarrow> n | Inl e \<Rightarrow> undefined)"

lemma new_demo_supervisor:
  "\<exists>c. new_supervisor (Fin 1) (Fin 1) (Some (Fin 3)) DEFAULT_MANUAL_TIMEOUT_SEC DEFAULT_MANUAL_MAX_SPEED_MPS
      DEFAULT_MINIMUM_MOVING_SPEED_MPS [] = Inr c \<and> cs_state c = initial_state [] \<and> cs_lease_timeout_sec c = Fin 1
      \<and> cs_control_liveness_sec c = Fin 3 \<and> cs_manual_timeout_sec c = DEFAULT_MANUAL_TIMEOUT_SEC
      \<and> cs_manual_max_speed_mps c = DEFAULT_MANUAL_MAX_SPEED_MPS
      \<and> cs_minimum_moving_speed_mps c = DEFAULT_MINIMUM_MOVING_SPEED_MPS"
proof -
  have lo: "fle (Fin (1 / 4)) (dbl (2 / 5))" and hi: "fle (dbl (2 / 5)) (Fin 1)"
    using dbl_ge_double [of "1 / 4" "2 / 5"] dbl_le_double [of "2 / 5" 1] by simp_all
  have "isfinite (dbl (2 / 5))" using lo hi by (cases "dbl (2 / 5)") simp_all
  then show ?thesis using lo
    by (simp add: new_supervisor_def manual_speed_ceiling_valid_def DEFAULT_MANUAL_TIMEOUT_SEC_def
        DEFAULT_MANUAL_MAX_SPEED_MPS_def DEFAULT_MINIMUM_MOVING_SPEED_MPS_def MAX_MANUAL_MAX_SPEED_MPS_def
        fle_refl_iff)
qed

lemma demo_authority_new: "new_authority demo_nav_env (demo_cb (Fin 0)) ''r'' demo_params = Inr demo_authority"
proof -
  have "flt (Fin (1 / 16)) (dbl (15 / 100))"
    using dbl_ge_double [of "1 / 8" "15 / 100"] flt_fle_trans [of "Fin (1 / 16)" "Fin (1 / 8)"] by simp
  then show ?thesis
    using new_demo_supervisor by (auto simp: demo_authority_def new_authority_def demo_params_def Let_def)
qed

text \<open>The autonomy scenario: STOP clear, AUTONOMY ready, a lease, a goal, RUN, an active action.\<close>

definition demo_authority_run :: "authority_input list" where
  "demo_authority_run =
     [CA_stop_state demo_stop_clear (Fin 1), CA_event (demo_cb (Fin 1)) 6 (demo_event CE_LEASE_ACQUIRED 1 (Fin 1)),
      CA_mode (demo_cb (Fin 1)) \<lparr> mo_mode = 2, mo_status = 0, mo_ready = True, mo_runtime_epoch = 1, mo_active_autonomy_map = ''studio'' \<rparr>,
      CA_event (demo_cb (Fin 1)) 5 (demo_event CE_GOAL_SELECTED 2 (Fin 1)),
      CA_event (demo_cb (Fin 1)) 0 (demo_event CE_RUN_PRESSED 3 (Fin 1)), CA_navigation 2 (Fin 1)]"

definition demo_boot_supervisor :: supervisor where
  "demo_boot_supervisor = demo_supervisor\<lparr>cs_manual_timeout_sec := Fin (1 / 4), cs_manual_max_speed_mps := dbl (2 / 5),
     cs_minimum_moving_speed_mps := Fin (1 / 4)\<rparr>"

lemma publish_config_frame [simp]: "an_supervisor (publish_config_state n) = an_supervisor n"
  "an_runtime_epoch (publish_config_state n) = an_runtime_epoch n"
  by (simp_all add: publish_config_state_def) (simp add: emits_def)

lemma new_authority_supervisor:
  "new_authority env io requester p = Inr n \<Longrightarrow> \<exists>c. new_supervisor (ap_lease_timeout_sec p) (ap_raw_autonomy_timeout_sec p)
     (Some (ap_control_liveness_sec p)) DEFAULT_MANUAL_TIMEOUT_SEC DEFAULT_MANUAL_MAX_SPEED_MPS
     DEFAULT_MINIMUM_MOVING_SPEED_MPS (ap_active_autonomy_map p) = Inr c \<and> an_supervisor n = fst (restart c (io_call io))"
  by (auto simp: new_authority_def bind_result_Inr_iff Let_def split: if_splits)

lemma demo_authority_start: "an_supervisor demo_authority = demo_boot_supervisor"
proof -
  obtain c where c: "new_supervisor (Fin 1) (Fin 1) (Some (Fin 3)) DEFAULT_MANUAL_TIMEOUT_SEC DEFAULT_MANUAL_MAX_SPEED_MPS
      DEFAULT_MINIMUM_MOVING_SPEED_MPS [] = Inr c" "an_supervisor demo_authority = fst (restart c (Fin 0))"
    using new_authority_supervisor [OF demo_authority_new] by (auto simp: demo_params_def demo_cb_def)
  then show ?thesis
    by (auto simp: new_supervisor_def Let_def restart_def answer_def transition_simps on_restart_def initial_state_def no_args_def
        demo_boot_supervisor_def demo_supervisor_def DEFAULT_MANUAL_TIMEOUT_SEC_def DEFAULT_MANUAL_MAX_SPEED_MPS_def
        DEFAULT_MINIMUM_MOVING_SPEED_MPS_def split: if_splits)
qed

lemma request_stop_frame [simp]: "an_supervisor (request_stop n b t) = an_supervisor n"
  by (simp add: request_stop_def publish_stop_request_def Let_def)

lemma on_event_core [simp]:
  assumes "control_event_of k = Some e"
  shows "an_supervisor (on_control_event env io n k i) = fst (handle_control_event (an_supervisor n) (i\<lparr>ci_event := e, ci_now := io_call io\<rparr>))"
    "an_stop_state (on_control_event env io n k i) = an_stop_state n"
    "an_stop_state_at (on_control_event env io n k i) = an_stop_state_at n"
  using same_core_apply assms
  by (simp_all add: on_control_event_def Let_def same_core_def request_stop_def publish_stop_request_def split: prod.split)

lemma demo_event_again: "(demo_event e q t)\<lparr>ci_event := e, ci_now := t\<rparr> = demo_event e q t"
  by (simp add: demo_event_def)

definition demo_running :: authority_node where
  "demo_running = run_steps (authority_step demo_nav_env) demo_authority demo_authority_run"

lemma demo_running_supervisor: "an_supervisor demo_running = run_steps sup_step demo_boot_supervisor demo_autonomy_run"
  by (simp add: demo_running_def demo_authority_run_def demo_autonomy_run_def on_stop_state_def on_mode_def on_navigation_state_def
      demo_authority_start demo_cb_def demo_event_again STATUS_STABLE_def Let_def split: option.split)

lemma demo_running_facts:
  "authority_of (cs_state (an_supervisor demo_running)) = AUTH_PADDOCK_AUTONOMY" "lease_is_fresh (an_supervisor demo_running) (Fin 1)"
  by (simp_all add: demo_running_supervisor demo_autonomy_run_def demo_boot_supervisor_def sup_eval)

lemma demo_running_gates:
  "stop_clear demo_running (Fin 1)" "an_nav_action_active demo_running" "navigation_state_fresh demo_running (Fin 1)"
  using dbl_ge_double [of "1 / 8" "150 / 1000"] fle_trans [of "Fin 0" "Fin (1 / 8)" "dbl (150 / 1000)"]
  by (simp_all add: demo_running_def demo_authority_run_def on_stop_state_def on_mode_def on_navigation_state_def
      stop_clear_def stop_is_fresh_def navigation_state_fresh_def recent_def DEFAULT_NAVIGATION_STATE_TIMEOUT_SEC_def
      DEFAULT_STOP_STATE_TIMEOUT_SEC_def demo_stop_clear_def STATE_ACTIVE_def Let_def split: option.split)

definition demo_manual_authority_run :: "authority_input list" where
  "demo_manual_authority_run =
     [CA_stop_state demo_stop_clear (Fin 1), CA_event (demo_cb (Fin 1)) 6 (demo_event CE_LEASE_ACQUIRED 1 (Fin 1)),
      CA_mode (demo_cb (Fin 1)) \<lparr> mo_mode = 1, mo_status = 0, mo_ready = True, mo_runtime_epoch = 1, mo_active_autonomy_map = [] \<rparr>,
      CA_event (demo_cb (Fin 1)) 3 (demo_event CE_MANUAL_ACTIVE 2 (Fin 1))]"

definition demo_driving :: authority_node where
  "demo_driving = run_steps (authority_step demo_nav_env) demo_authority demo_manual_authority_run"

lemma demo_driving_supervisor: "an_supervisor demo_driving = run_steps sup_step demo_boot_supervisor demo_manual_run"
  by (simp add: demo_driving_def demo_manual_authority_run_def demo_manual_run_def on_stop_state_def on_mode_def
      demo_authority_start demo_cb_def demo_event_again STATUS_STABLE_def Let_def split: option.split)

lemma demo_driving_facts:
  "authority_of (cs_state (an_supervisor demo_driving)) = AUTH_PADDOCK_MANUAL" "lease_is_live (an_supervisor demo_driving) (Fin 1)"
  "manual_is_fresh (an_supervisor demo_driving) (Fin 1)"
  "map_option md_sequence (cs_manual_demand (an_supervisor demo_driving)) = Some 2"
  "ps_lease_generation (cs_state (an_supervisor demo_driving)) = 1"
  by (simp_all add: demo_driving_supervisor demo_manual_run_def demo_boot_supervisor_def sup_eval)

lemma epoch_frames [simp]:
  "an_runtime_epoch (supervise env io n cr) = an_runtime_epoch n"
  "an_runtime_epoch (on_control_event env io n k i) = an_runtime_epoch n"
  using same_core_apply
  by (simp_all add: supervise_def same_core_def on_control_event_def request_stop_def publish_stop_request_def emits_def
      Let_def split: option.split prod.split)

lemma demo_driving_gates: "stop_clear demo_driving (Fin 1)" "an_runtime_epoch demo_driving = 1"
  using dbl_ge_double [of "1 / 8" "150 / 1000"] fle_trans [of "Fin 0" "Fin (1 / 8)" "dbl (150 / 1000)"]
  by (simp_all add: demo_driving_def demo_manual_authority_run_def on_stop_state_def on_mode_def
      stop_clear_def stop_is_fresh_def recent_def DEFAULT_STOP_STATE_TIMEOUT_SEC_def demo_stop_clear_def Let_def split: option.split)

lemma demo_velocity_ok: "vc_valid demo_velocity" "demo_velocity \<noteq> zero_command"
  by (simp_all add: demo_velocity_def vc_valid_def vc_values_def zero_command_def)

definition demo_sample :: converted_command where
  "demo_sample = \<lparr> cv_source = 1, cv_sequence = 2, cv_lease_generation = 1, cv_runtime_epoch = 1, cv_command = demo_velocity \<rparr>"

lemma demo_reached: "an_inv demo_running" "an_inv demo_driving"
  unfolding demo_running_def demo_driving_def
  by (rule authority_exec.invar_reachable, use demo_authority_new in \<open>auto simp: an_initial_def\<close>)+

lemma demo_auto_output:
  "auto_outputs (an_effects (authority_step demo_nav_env demo_running (CA_raw_autonomy (demo_cb (Fin 1)) demo_velocity)))
     = auto_outputs (an_effects demo_running) @ [demo_velocity]"
  using raw_autonomy_forwards [OF an_invD(1) [OF demo_reached(1)], of "demo_cb (Fin 1)" demo_velocity demo_nav_env]
    demo_running_facts demo_running_gates demo_velocity_ok by (simp add: demo_cb_def)

lemma demo_manual_output:
  "manual_outputs (an_effects (authority_step demo_nav_env demo_driving (CA_raw_manual (demo_cb (Fin 1)) demo_sample)))
     = manual_outputs (an_effects demo_driving) @ [demo_velocity]"
  using raw_manual_forwards [OF an_invD(1) [OF demo_reached(2)], of "demo_cb (Fin 1)" demo_sample demo_nav_env]
    demo_driving_facts demo_driving_gates demo_velocity_ok
  by (simp add: demo_cb_def demo_sample_def SOURCE_PADDOCK_MANUAL_def)

text \<open>Witnesses: a raw sample while running, a converted sample while driving by hand.\<close>

theorem autonomy_output_provenance_witness:
  "\<exists>io. CA_raw_autonomy (demo_cb (Fin 1)) demo_velocity = CA_raw_autonomy io demo_velocity \<and> stop_clear demo_running (io_apply io)"
  using autonomy_output_provenance [OF demo_authority_new demo_running_def demo_auto_output, of demo_velocity] demo_velocity_ok
  by auto

theorem manual_output_provenance_witness:
  "\<exists>io m. CA_raw_manual (demo_cb (Fin 1)) demo_sample = CA_raw_manual io m \<and> stop_clear demo_driving (io_apply io)"
  using manual_output_provenance [OF demo_authority_new demo_driving_def demo_manual_output, of demo_velocity] demo_velocity_ok
  by auto

theorem navigation_told_iff_interlock_witness:
  "told_to_run (an_effects demo_running) = autonomy_permitted (cs_state (an_supervisor demo_running))
   \<and> authority_of (cs_state (an_supervisor demo_running)) = AUTH_PADDOCK_AUTONOMY"
  using navigation_told_iff_interlock [OF demo_authority_new demo_running_def] demo_running_facts(1) by simp

section \<open>The brake window\<close>

text \<open>What the gate puts out over updates without permission, and its reference: zero up to the deadline, then silence.\<close>

fun gate_outputs :: "output_gate \<Rightarrow> (pyfloat \<times> velocity_command option) list \<Rightarrow> velocity_command option list" where
  "gate_outputs g [] = []"
| "gate_outputs g ((now, c) # us) = (let (g', out) = gate_update g now False c in out # gate_outputs g' us)"

definition brake_reference :: "pyfloat \<Rightarrow> (pyfloat \<times> velocity_command option) list \<Rightarrow> velocity_command option list" where
  "brake_reference deadline us =
     map (\<lambda>_. Some zero_command) (takeWhile (\<lambda>(t, c). fle t deadline) us)
     @ map (\<lambda>_. None) (dropWhile (\<lambda>(t, c). fle t deadline) us)"

lemma silent_outputs:
  "\<not> gt_was_forwarding g \<Longrightarrow> gt_brake_deadline g = None \<Longrightarrow> gate_outputs g us = map (\<lambda>_. None) us"
  by (induction us) (auto simp: gate_update_def)

lemma braking_outputs:
  "\<not> gt_was_forwarding g \<Longrightarrow> gt_brake_deadline g = Some d \<Longrightarrow> gate_outputs g us = brake_reference d us"
  by (induction us) (auto simp: gate_update_def brake_reference_def silent_outputs)

text \<open>
  C10. Over any updates without permission the gate does exactly this: right
  after forwarding it puts out the zero command until the first update later
  than the revoke plus the brake window and is silent from then on; a gate
  that is not forwarding and not braking stays silent.
\<close>

theorem revoked_output_is_bounded_brake:
  "gate_outputs g ((now, c) # us) =
    (if gt_was_forwarding g then brake_reference (fadd now (gt_brake_window_sec g)) ((now, c) # us)
     else case gt_brake_deadline g of None \<Rightarrow> map (\<lambda>_. None) ((now, c) # us)
       | Some d \<Rightarrow> brake_reference d ((now, c) # us))"
proof (cases "gt_was_forwarding g")
  case True
  let ?d = "fadd now (gt_brake_window_sec g)"
  let ?g = "g\<lparr>gt_was_forwarding := False, gt_brake_deadline := Some ?d\<rparr>"
  have "gate_outputs g ((now, c) # us) = gate_outputs ?g ((now, c) # us)"
    using True by (simp add: gate_update_def Let_def)
  then show ?thesis using True braking_outputs [of ?g ?d "(now, c) # us"] by simp
next
  case False
  then show ?thesis using silent_outputs [of g "(now, c) # us"] braking_outputs [of g _ "(now, c) # us"]
    by (auto split: option.split)
qed

section \<open>The STOP request\<close>

definition grows :: "authority_node \<Rightarrow> authority_node \<Rightarrow> bool" where
  "grows n n' \<longleftrightarrow> (\<exists>es. an_effects n' = an_effects n @ es)"

lemma grows_refl [simp]: "grows n n" "grows n (n\<lparr>an_supervisor := c\<rparr>)" "grows n (n\<lparr>an_dualsense_active := b\<rparr>)"
  by (simp_all add: grows_def)

lemma grows_trans: "grows a b \<Longrightarrow> grows b c \<Longrightarrow> grows a c"
  by (auto simp: grows_def)

lemma grows_pieces:
  "grows n (publish_demand n r)" "grows n (publish_auto n r now)" "grows n (publish_manual n r now)"
  "grows n (sync_goal env uuid n s)" "grows n (sync_dispatch env n s)" "grows n (publish_status n sn now)"
  by (simp_all add: grows_def publish_demand_def publish_auto_def publish_manual_def sync_goal_def sync_dispatch_def
      publish_status_def publish_nav_request_def Let_def split: option.split prod.split)

lemma grows_apply: "grows n (apply_result env io n r)"
  unfolding apply_result_def sync_navigation_def Let_def by (meson grows_pieces grows_trans)

lemma grows_supervise: "grows n (supervise env io n cr)" "grows n (set_takeover env io n b)"
proof -
  have s: "grows m (supervise env io m cr)" for m io cr
    unfolding supervise_def by (rule grows_trans [OF grows_refl(2) grows_apply])
  show "grows n (supervise env io n cr)" by (rule s)
  show "grows n (set_takeover env io n b)" unfolding set_takeover_def by (rule grows_trans [OF grows_refl(3) s])
qed

definition repeat_due :: "authority_node \<Rightarrow> pyfloat \<Rightarrow> bool" where
  "repeat_due n now = (case an_last_stop_request_at n of None \<Rightarrow> True | Some t \<Rightarrow> fle (dbl (5 / 100)) (fsub now t))"

lemma timer_repeats:
  assumes "an_pending_stop_request n = Some q" "repeat_due n (io_call io)"
  shows "\<exists>es. an_effects (on_supervision_timer env io io2 n) = an_effects n @ AE_stop q # es"
proof -
  let ?n = "publish_stop_request n q (io_call io)"
  have "an_effects ?n = an_effects n @ [AE_stop q]" by (simp add: publish_stop_request_def)
  moreover have "grows ?n (on_supervision_timer env io io2 n)"
    using assms grows_supervise(1) [of ?n] grows_trans [OF grows_supervise(2) grows_supervise(1)]
    by (simp add: on_supervision_timer_def repeat_due_def Let_def)
  ultimately show ?thesis by (auto simp: grows_def)
qed

lemma event_request:
  assumes "control_event_of k = Some e"
  shows "an_pending_stop_request (on_control_event env io n k x) = an_pending_stop_request n
    \<or> e \<in> {CE_STOP, CE_CLEAR_STOP} \<and> (\<exists>q'. an_pending_stop_request (on_control_event env io n k x) = Some q'
         \<and> rq_request_id q' = an_stop_request_id n + 1 \<and> rq_stopped q' = (e = CE_STOP))"
proof -
  obtain c r where h: "handle_control_event (an_supervisor n) (x\<lparr>ci_event := e, ci_now := io_call io\<rparr>) = (c, r)" by fastforce
  have ap: "an_pending_stop_request (apply_result env io m r) = an_pending_stop_request m" for m
    using same_core_apply by (simp add: same_core_def)
  have rq: "\<exists>q'. an_pending_stop_request (request_stop m b t) = Some q' \<and> rq_request_id q' = an_stop_request_id m + 1
      \<and> rq_stopped q' = b" for m b t
    by (simp add: request_stop_def publish_stop_request_def emits_def Let_def)
  show ?thesis using rq [of "n\<lparr>an_supervisor := c\<rparr>"]
    unfolding on_control_event_def assms option.case h prod.case Let_def ap by auto
qed

text \<open>
  C9. A STOP or CLEAR STOP request stays pending until a STOP state names it and
  reports it refused or carried out (applied, or healthy and clear), or the
  operator's next STOP or CLEAR STOP supersedes it with a request under the next
  id; and as long as it is pending the supervision timer starts with publishing
  it again whenever 50 ms passed since it was last sent.
\<close>

theorem stop_request_persists:
  assumes "an_pending_stop_request n = Some q"
  shows "(an_pending_stop_request (authority_step env n i) = Some q
      \<or> (\<exists>m now. i = CA_stop_state m now \<and> ss_last_requester_id m = rq_requester_id q \<and> ss_last_request_id m = rq_request_id q
          \<and> (\<not> ss_last_request_accepted m \<or> (if rq_stopped q then ss_applied m
               else ss_healthy m \<and> \<not> ss_stopped m \<and> \<not> ss_locked m)))
      \<or> (\<exists>io k c q'. i = CA_event io k c \<and> control_event_of k \<in> {Some CE_STOP, Some CE_CLEAR_STOP}
          \<and> an_pending_stop_request (authority_step env n i) = Some q' \<and> rq_request_id q' = an_stop_request_id n + 1
          \<and> rq_stopped q' = (control_event_of k = Some CE_STOP)))
    \<and> (\<forall>io io2. i = CA_timer io io2 \<longrightarrow> repeat_due n (io_call io)
        \<longrightarrow> (\<exists>es. an_effects (authority_step env n i) = an_effects n @ AE_stop q # es))"
proof (rule conjI)
  let ?p = an_pending_stop_request
  have sv: "?p (supervise env io m cr) = ?p m" for io m cr
    using same_core_apply [of "m\<lparr>an_supervisor := fst cr\<rparr>" env io "snd cr"] by (simp add: supervise_def same_core_def)
  have tk: "?p (set_takeover env io m b) = ?p m" for io m b by (simp add: set_takeover_def sv)
  have ps: "?p (publish_stop_request m r t) = ?p m" for m r t by (simp add: publish_stop_request_def)
  show "?p (authority_step env n i) = Some q
      \<or> (\<exists>m now. i = CA_stop_state m now \<and> ss_last_requester_id m = rq_requester_id q \<and> ss_last_request_id m = rq_request_id q
          \<and> (\<not> ss_last_request_accepted m \<or> (if rq_stopped q then ss_applied m
               else ss_healthy m \<and> \<not> ss_stopped m \<and> \<not> ss_locked m)))
      \<or> (\<exists>io k c q'. i = CA_event io k c \<and> control_event_of k \<in> {Some CE_STOP, Some CE_CLEAR_STOP}
          \<and> ?p (authority_step env n i) = Some q' \<and> rq_request_id q' = an_stop_request_id n + 1
          \<and> rq_stopped q' = (control_event_of k = Some CE_STOP))"
  proof (cases i)
    case (CA_event io k x)
    show ?thesis
    proof (cases "control_event_of k")
      case None
      then show ?thesis using assms CA_event by (simp add: on_control_event_def del: control_event_of.simps)
    next
      case (Some e)
      then show ?thesis using assms CA_event event_request [OF Some, of env io n x]
        by (auto simp del: control_event_of.simps)
    qed
  next
    case (CA_stop_state m now)
    then show ?thesis using assms by (auto simp: on_stop_state_def Let_def)
  next
    case (CA_local io io2 identity active)
    then show ?thesis using assms by (simp add: on_local_control_def Let_def tk)
  next
    case (CA_timer io io2)
    then show ?thesis using assms by (simp add: on_supervision_timer_def Let_def tk sv ps)
  next
    case (CA_config m)
    then show ?thesis using assms
      by (simp add: on_config_request_def publish_config_state_def Let_def split: sum.split py_error.split)
  next
    case (CA_mode io m)
    then show ?thesis using assms by (simp add: on_mode_def sv split: option.split)
  qed (use assms in \<open>simp_all add: on_raw_autonomy_def on_raw_manual_def on_navigation_state_def sv\<close>)
qed (use timer_repeats [OF assms(1)] in auto)

theorem stop_request_persists_witness:
  "an_pending_stop_request (authority_step demo_nav_env (request_stop demo_authority True (Fin 1)) (CA_timer (demo_cb (Fin 2)) (demo_cb (Fin 2))))
     = an_pending_stop_request (request_stop demo_authority True (Fin 1))"
proof -
  obtain q where q: "an_pending_stop_request (request_stop demo_authority True (Fin 1)) = Some q"
    by (simp add: request_stop_def publish_stop_request_def Let_def)
  show ?thesis using stop_request_persists [OF q, of demo_nav_env "CA_timer (demo_cb (Fin 2)) (demo_cb (Fin 2))"] q by auto
qed

end
