(* ===== verification/LocalTakeover.thy ===== *)
theory LocalTakeover
  imports Teleop CommandAuthority
begin

text \<open>
  Teleoperation and the command authority together. The teleop node reports
  its process and takeover epochs; the authority compares them with the last
  pair it saw. Status samples may be dropped or delayed, so a whole press and
  release can fall between two of them: the epoch makes it visible, and the
  next sample to arrive takes every remote grant away.
\<close>

section \<open>The takeover flag of the authority and of the reducer agree\<close>

lemma transition_keeps_dualsense:
  "e \<notin> {EV_RESTART, EV_DUALSENSE_ACTIVE, EV_DUALSENSE_INACTIVE} \<Longrightarrow>
    ps_dualsense_active (fst (transition s e a)) = ps_dualsense_active s"
  by (cases e) (auto simp: transition_simps branch_defs Let_def split: option.splits)

abbreviation dual :: "supervisor \<Rightarrow> bool" where
  "dual c \<equiv> ps_dualsense_active (cs_state c)"

lemma dual_pieces [simp]:
  "dual (clear_manual_if_inactive c) = dual c" "dual (fst (expire_lease c now)) = dual c"
  "dual (fst (expire_manual c now)) = dual c" "dual (lease_taken c i) = dual c"
  "ps_dualsense_active (follow_runtime s m map_name ok) = ps_dualsense_active s"
  by (simp_all add: clear_manual_if_inactive_def expire_lease_def expire_manual_def lease_taken_def follow_runtime_def
    transition_keeps_dualsense Let_def)

lemma event_map_keeps: "event_map e = Some v \<Longrightarrow> v \<notin> {EV_RESTART, EV_DUALSENSE_ACTIVE, EV_DUALSENSE_INACTIVE}"
  by (cases e) auto

lemma dual_events:
  "dual (fst (finish_event c i)) = dual c" "dual (fst (manual_active_event c i)) = dual c"
  "dual (fst (goal_selected_event c i)) = dual c" "dual (fst (acquire_lease_event c i)) = dual c"
  by (simp_all add: finish_event_def manual_active_event_def goal_selected_event_def acquire_lease_event_def
    transition_keeps_dualsense Let_def)

lemma dual_mapped: "event_map e = Some v \<Longrightarrow> dual (fst (mapped_event c i v)) = dual c"
  using event_map_keeps [of e v] by (simp add: mapped_event_def Let_def dual_events transition_keeps_dualsense)

lemma dual_owner: "dual (fst (owner_event c i)) = dual c"
  by (auto simp: owner_event_def Let_def dual_events dual_mapped transition_keeps_dualsense split: option.split)

lemma dual_operations [simp]:
  "dual (fst (CommandSupervisor.tick c now)) = dual c"
  "dual (fst (set_runtime_mode c m map_name now ok)) = dual c"
  "dual (fst (handle_control_event c i)) = dual c"
  "dual (fst (receive_raw_autonomy c v now)) = dual c"
  "dual (fst (receive_raw_manual c v q now)) = dual c"
  "dual (fst (set_dualsense_active c b now)) = b"
  by (simp_all add: CommandSupervisor.tick_def set_runtime_mode_def handle_control_event_def receive_raw_autonomy_def
    receive_raw_manual_def set_dualsense_active_def dual_events dual_owner split_beta Let_def transition_simps branch_defs)

definition dual_ok :: "authority_node \<Rightarrow> bool" where
  "dual_ok n \<longleftrightarrow> an_dualsense_active n = dual (an_supervisor n)"

lemma supervise_fields [simp]:
  "an_supervisor (supervise env io n cr) = fst cr" "an_dualsense_active (supervise env io n cr) = an_dualsense_active n"
  using same_core_apply [of "n\<lparr>an_supervisor := fst cr\<rparr>" env io "snd cr"] by (simp_all add: supervise_def same_core_def)

lemma dual_supervise: "dual (fst cr) = an_dualsense_active n \<Longrightarrow> dual_ok (supervise env io n cr)"
  by (simp add: dual_ok_def)

lemma takeover_flag [simp]: "an_dualsense_active (set_takeover env io n b) = b"
  by (simp add: set_takeover_def)

lemma dual_takeover: "dual_ok (set_takeover env io n b)"
  unfolding set_takeover_def by (rule dual_supervise) simp

lemma dual_control_event:
  assumes "dual_ok n" shows "dual_ok (on_control_event env io n k i)"
proof (cases "control_event_of k")
  case None
  then show ?thesis using assms by (simp add: on_control_event_def)
next
  case (Some e)
  have stop: "dual_ok (request_stop m b t) = dual_ok m" for m b t
    by (simp add: dual_ok_def request_stop_def publish_stop_request_def emits_def Let_def)
  have ap: "dual_ok (apply_result env io m r) = dual_ok m" for m r
    using same_core_apply [of m env io r] by (simp add: dual_ok_def same_core_def)
  obtain c r where h: "handle_control_event (an_supervisor n) (i\<lparr>ci_event := e, ci_now := io_call io\<rparr>) = (c, r)"
    by fastforce
  then have "dual c = dual (an_supervisor n)" using dual_operations(3) [of "an_supervisor n"] by (metis fst_conv)
  then have "dual_ok (n\<lparr>an_supervisor := c\<rparr>)" using assms by (simp add: dual_ok_def)
  then show ?thesis using Some h by (simp add: on_control_event_def Let_def ap stop)
qed

lemma dual_config: "dual_ok n \<Longrightarrow> dual_ok (on_config_request n m)"
  by (auto simp: on_config_request_def publish_config_state_def dual_ok_def set_manual_max_speed_mps_def emits_def Let_def
      split: sum.split py_error.split)

lemma dual_timer:
  assumes "dual_ok n" shows "dual_ok (on_supervision_timer env io io2 n)"
proof -
  have "dual_ok (publish_stop_request n q now)" for q now
    using assms by (simp add: dual_ok_def publish_stop_request_def emits_def)
  then have n1: "dual_ok (case an_pending_stop_request n of None \<Rightarrow> n | Some q \<Rightarrow>
      if (case an_last_stop_request_at n of None \<Rightarrow> True | Some t \<Rightarrow> fle (dbl (5 / 100)) (fsub (io_call io) t))
      then publish_stop_request n q (io_call io) else n)" using assms by (simp split: option.split)
  have "dual_ok (supervise env io2 m (CommandSupervisor.tick (an_supervisor m) (io_call io)))" if "dual_ok m" for m
    using that by (intro dual_supervise) (simp add: dual_ok_def)
  then show ?thesis unfolding on_supervision_timer_def Let_def using n1 dual_takeover by simp
qed

lemma dual_local: "dual_ok n \<Longrightarrow> dual_ok (on_local_control env io io2 n identity active)"
  unfolding on_local_control_def Let_def using dual_takeover by (simp add: dual_ok_def)

lemma dual_step: "dual_ok n \<Longrightarrow> dual_ok (authority_step env n i)"
proof (induction env n i rule: authority_step.induct)
  case (6 env n io m)
  then show ?case by (simp add: on_mode_def dual_ok_def split: option.split)
qed (auto simp: dual_config dual_control_event dual_local dual_timer on_raw_autonomy_def on_raw_manual_def
      on_stop_state_def on_navigation_state_def Let_def split: option.split, (simp add: dual_ok_def)+)

lemma dual_new:
  assumes "new_authority env io requester p = Inr n" shows "dual_ok n"
proof -
  have "dual (fst (restart c now)) = False" for c now
    by (simp add: restart_def Let_def transition_simps branch_defs initial_state_def)
  then show ?thesis using assms
    by (auto simp: new_authority_def bind_result_Inr_iff Let_def publish_config_state_def emits_def dual_ok_def split: if_splits)
qed

interpretation takeover_exec: machine "an_initial env" "authority_step env" "\<lambda>n. an_inv n \<and> dual_ok n"
  by unfold_locales (auto simp: an_initial_def new_authority_inv authority_step_inv dual_new dual_step)

section \<open>A changed epoch revokes\<close>

definition revoked :: "paddock_state \<Rightarrow> bool" where
  "revoked s \<longleftrightarrow> \<not> ps_manual_active s \<and> (ps_run_held s \<longrightarrow> ps_run_blocked_until_release s)"

lemma revoked_authority:
  "revoked s \<Longrightarrow> ps_inv s \<Longrightarrow> authority_of s \<notin> {AUTH_PADDOCK_MANUAL, AUTH_PADDOCK_AUTONOMY}"
  by (auto simp: revoked_def ps_inv_def authority_of_def autonomy_permitted_def split: if_splits)

lemma revoked_expire: "revoked (cs_state c) \<Longrightarrow> revoked (cs_state (fst (expire_lease c now)))"
  by (auto simp: revoked_def expire_lease_def clear_manual_if_inactive_def Let_def transition_simps branch_defs)

lemma revoked_release: "revoked (cs_state c) \<Longrightarrow> revoked (cs_state (fst (set_dualsense_active c False now)))"
  using revoked_expire [of c now]
  by (simp add: set_dualsense_active_def clear_manual_if_inactive_def Let_def transition_simps branch_defs revoked_def)

lemma an_inv_reducer: "an_inv n \<Longrightarrow> ps_inv (cs_state (an_supervisor n))"
  by (simp add: an_inv_def cs_inv_def)

lemma taken_over_revoked: "ps_inv s \<Longrightarrow> ps_dualsense_active s \<Longrightarrow> revoked s"
  by (auto simp: ps_inv_def revoked_def)

lemma changed_epoch_revokes:
  assumes "an_inv n" "dual_ok n" "Some identity \<noteq> an_local_control_identity n"
  shows "revoked (cs_state (an_supervisor (on_local_control env io io2 n identity active)))"
proof -
  define n1 where "n1 = n\<lparr>an_last_local_control_at := Some (io_call io), an_local_control_identity := Some identity\<rparr>"
  define n2 where "n2 = (if \<not> an_dualsense_active n1 then set_takeover env io n1 True else n1)"
  have n1: "an_inv n1" "dual_ok n1" using assms by (simp_all add: n1_def an_inv_def dual_ok_def)
  have n2: "an_inv n2" "dual_ok n2" "an_dualsense_active n2"
    using n1 by (auto simp: n2_def set_takeover_inv dual_takeover)
  have r: "revoked (cs_state (an_supervisor n2))"
    using n2 by (intro taken_over_revoked) (auto simp: an_inv_def cs_inv_def dual_ok_def)
  have "on_local_control env io io2 n identity active =
      (if active then n2 else set_takeover env (io2\<lparr>io_call := io_call io\<rparr>) n2 False)"
    using assms(3) n2(3) by (simp add: on_local_control_def n2_def n1_def Let_def)
  then show ?thesis using r by (simp add: set_takeover_def revoked_release)
qed

section \<open>A press between two samples\<close>

lemma process_epoch_frames [simp]:
  "tn_process_epoch (publishes n es) = tn_process_epoch n"
  "tn_process_epoch (disarm_held_keyboard_motion n) = tn_process_epoch n"
  "tn_process_epoch (update_dpad n msg) = tn_process_epoch n"
  "tn_process_epoch (joy_axes cube n msg) = tn_process_epoch n"
  "tn_process_epoch (joy_buttons n msg now) = tn_process_epoch n"
  "tn_process_epoch (invalidate_keyboard n) = tn_process_epoch n"
  "tn_process_epoch (keyboard_suppress n b s) = tn_process_epoch n"
  "tn_process_epoch (keyboard_motion n b) = tn_process_epoch n"
  "tn_process_epoch (expire_inputs n now) = tn_process_epoch n"
  "tn_process_epoch (publish_selected n now c) = tn_process_epoch n"
  by (simp_all add: publishes_def disarm_held_keyboard_motion_def update_dpad_def joy_axes_def joy_buttons_def
    invalidate_keyboard_def keyboard_suppress_def keyboard_motion_def expire_inputs_def expire_controller_def
    expire_keyboard_def publish_selected_def Let_def split: option.split prod.split)

lemma process_epoch_step [simp]: "tn_process_epoch (teleop_step cube n i) = tn_process_epoch n"
  by (cases i) (simp_all add: on_joy_def on_keyboard_def publish_cmd_def Let_def)

lemma process_epoch_run: "tn_process_epoch (run_steps (teleop_step cube) n is) = tn_process_epoch n"
  by (induction "is" arbitrary: n) simp_all

text \<open>
  C11. A takeover is never missed: let the authority have seen no sample newer
  than the teleop state \<open>t\<close>, and let X or R1 be pressed afterwards, whatever
  else the teleop node received before and after, the release included. Then
  the next sample the authority handles ends manual and autonomous authority
  and leaves a held RUN blocked until it is released, whatever remote events
  the authority handled meanwhile.
\<close>

theorem takeover_press_is_never_missed:
  assumes cube: "cube_ok cube" and t0: "tn_initial t0" and t: "t = run_steps (teleop_step cube) t0 is0"
    and a0: "new_authority env io0 requester p = Inr a0" and a: "a = run_steps (authority_step env) a0 as"
    and seen: "\<And>k. an_local_control_identity a = Some (tn_process_epoch t, k) \<Longrightarrow> k \<le> tn_takeover_epoch t"
    and b: "b = run_steps (teleop_step cube) t is1" and press: "engages b msg" "\<not> tn_takeover_active b"
    and t': "t' = run_steps (teleop_step cube) (on_joy cube b msg now) is2"
    and m: "m = control_state t' later mode"
    and s: "s = cs_state (an_supervisor (on_local_control env io io2 a (lc_process_epoch m, lc_takeover_epoch m) (lc_active m)))"
  shows "authority_of s \<notin> {AUTH_PADDOCK_MANUAL, AUTH_PADDOCK_AUTONOMY} \<and> (ps_run_held s \<longrightarrow> ps_run_blocked_until_release s)"
proof -
  have it: "tn_inv t" unfolding t by (rule tn_inv_reachable [OF cube t0])
  have ib: "tn_inv b" using teleop_exec.invar_run [of "(cube, t)" is1] cube it by (simp add: run_teleop_exec b)
  have ij: "tn_inv (on_joy cube b msg now)" using tn_inv_step [OF cube ib, of "TI_joy msg now"] by simp
  have "tn_takeover_epoch t \<le> tn_takeover_epoch b" unfolding b by (rule epoch_run [OF cube it])
  also have "\<dots> < tn_takeover_epoch (on_joy cube b msg now)" using press by (simp add: epoch_joy)
  also have "\<dots> \<le> tn_takeover_epoch t'" unfolding t' by (rule epoch_run [OF cube ij])
  finally have lt: "tn_takeover_epoch t < tn_takeover_epoch t'" .
  have joy: "tn_process_epoch (on_joy cube b msg now) = tn_process_epoch b" by (simp add: on_joy_def)
  have pe: "tn_process_epoch t' = tn_process_epoch t" unfolding t' process_epoch_run joy by (unfold b) (rule process_epoch_run)
  have new: "Some (lc_process_epoch m, lc_takeover_epoch m) \<noteq> an_local_control_identity a"
  proof
    assume "Some (lc_process_epoch m, lc_takeover_epoch m) = an_local_control_identity a"
    then have "an_local_control_identity a = Some (tn_process_epoch t, tn_takeover_epoch t')"
      unfolding m control_state_def pe [symmetric] by (simp only: control_state_msg.simps)
    from seen [OF this] lt show False by simp
  qed
  have ia: "an_inv a \<and> dual_ok a" unfolding a
    by (rule takeover_exec.invar_reachable) (use a0 in \<open>auto simp: an_initial_def\<close>)
  have "revoked s" unfolding s by (rule changed_epoch_revokes [OF conjunct1 [OF ia] conjunct2 [OF ia] new])
  moreover have "ps_inv s" unfolding s by (rule an_inv_reducer [OF on_local_control_inv [OF conjunct1 [OF ia]]])
  ultimately show ?thesis using revoked_authority [of s] by (simp add: revoked_def)
qed

lemma identity_pieces [simp]:
  "an_local_control_identity (publish_demand n r) = an_local_control_identity n"
  "an_local_control_identity (publish_auto n r now) = an_local_control_identity n"
  "an_local_control_identity (publish_manual n r now) = an_local_control_identity n"
  "an_local_control_identity (sync_goal env uuid n s) = an_local_control_identity n"
  "an_local_control_identity (sync_dispatch env n s) = an_local_control_identity n"
  "an_local_control_identity (publish_status n sn now) = an_local_control_identity n"
  by (simp_all add: publish_demand_def publish_auto_def publish_manual_def sync_goal_def sync_dispatch_def
      publish_status_def publish_nav_request_def emits_def Let_def split: option.split prod.split)

lemma identity_apply [simp]: "an_local_control_identity (apply_result env io n r) = an_local_control_identity n"
  by (simp add: apply_result_def sync_navigation_def Let_def)

lemma identity_event [simp]: "an_local_control_identity (on_control_event env io n k i) = an_local_control_identity n"
  by (cases "control_event_of k")
    (simp_all add: on_control_event_def request_stop_def publish_stop_request_def emits_def Let_def split: prod.split)

lemma new_authority_identity: "new_authority env io requester p = Inr n \<Longrightarrow> an_local_control_identity n = None"
  by (auto simp: new_authority_def bind_result_Inr_iff Let_def publish_config_state_def emits_def supervise_def split: if_splits)

lemma demo_running_identity: "an_local_control_identity demo_running = None"
proof -
  have "an_local_control_identity demo_authority = None" by (rule new_authority_identity [OF demo_authority_new])
  then show ?thesis
    by (simp add: demo_running_def demo_authority_run_def on_stop_state_def on_mode_def on_navigation_state_def supervise_def
      Let_def split: option.split)
qed

definition demo_after_press :: paddock_state where
  "demo_after_press = cs_state (an_supervisor (on_local_control demo_nav_env (demo_cb (Fin 1)) (demo_cb (Fin 1)) demo_running
     (''epoch'', 1) True))"

lemma demo_pressed:
  "tn_process_epoch (on_joy demo_cube demo_teleop demo_press (Fin 1)) = ''epoch''"
  "tn_takeover_epoch (on_joy demo_cube demo_teleop demo_press (Fin 1)) = 1"
  "tn_takeover_active (on_joy demo_cube demo_teleop demo_press (Fin 1))"
  "engages demo_teleop demo_press" "\<not> tn_takeover_active demo_teleop" "tn_process_epoch demo_teleop = ''epoch''"
  by (simp_all add: demo_teleop_def demo_defs demo_press_def on_joy_def joy_buttons_def joy_axes_def update_dpad_def
    dpad_direction_def button_held_def engages_def X_BUTTON_INDEX_def R1_BUTTON_INDEX_def L1_BUTTON_INDEX_def
    disarm_held_keyboard_motion_def DPAD_VERTICAL_AXIS_INDEX_def Let_def)

theorem takeover_press_is_never_missed_witness:
  "authority_of (cs_state (an_supervisor demo_running)) = AUTH_PADDOCK_AUTONOMY
   \<and> authority_of demo_after_press \<notin> {AUTH_PADDOCK_MANUAL, AUTH_PADDOCK_AUTONOMY}"
  using takeover_press_is_never_missed [OF demo_cube_ok demo_teleop_initial, of demo_teleop "[]" demo_nav_env "demo_cb (Fin 0)" "''r''"
      demo_params demo_authority demo_running demo_authority_run demo_teleop "[]" demo_press
      "on_joy demo_cube demo_teleop demo_press (Fin 1)" "Fin 1" "[]" _ "Fin 1" MANUAL_MODE demo_after_press
      "demo_cb (Fin 1)" "demo_cb (Fin 1)"]
    demo_authority_new demo_running_identity demo_pressed demo_running_facts
  by (simp add: demo_running_def [symmetric] demo_after_press_def control_state_def)

end
