(* ===== verification/Protocol.thy ===== *)
theory Protocol
  imports PyFloat "HOL-Library.List_Lexorder" "HOL-Library.Char_ord"
begin

text \<open>
  The strict JSON framing of the web stream (\<open>runner_paddock/protocol.py\<close>):
  which Python values may be sent, grid data validated once at ingress, and
  the versioned message. A frame is the message dictionary that
  \<open>json.dumps\<close> then renders as text; rendering itself is not modelled. The
  second half is Python's \<open>==\<close> on such values, which the state cache uses to
  decide whether a value changed.
\<close>

section \<open>Values\<close>

text \<open>
  What reaches the encoder. \<open>JOther\<close> stands for an object of an unsupported
  type, by its type name; a dictionary key that is no string is \<open>None\<close>.
\<close>

datatype json =
    JNull
  | JBool bool
  | JInt int
  | JFloat pyfloat
  | JStr string
  | JGrid "int list"
  | JList "json list"
  | JDict "(string option \<times> json) list"
  | JOther string

type_synonym jdict = "(string option \<times> json) list"

definition PROTOCOL_VERSION :: int where "PROTOCOL_VERSION = 1"

text \<open>The constructor of \<open>ValidatedGridData\<close>: integers (a boolean is of another type) in [-1, 100].\<close>

fun validated_grid :: "json list \<Rightarrow> int list result" where
  "validated_grid [] = Inr []"
| "validated_grid (v # vs) =
     (case v of
        JInt n \<Rightarrow>
          if n < - 1 \<or> n > 100 then Inl (ValueError ''OccupancyGrid data is outside [-1, 100]'')
          else bind_result (validated_grid vs) (\<lambda>ns. Inr (n # ns))
      | _ \<Rightarrow> Inl (TypeError ''OccupancyGrid data contains a non-integer''))"

section \<open>Validation and framing\<close>

fun validate_json :: "json \<Rightarrow> string \<Rightarrow> unit result"
  and validate_items :: "json list \<Rightarrow> nat \<Rightarrow> string \<Rightarrow> unit result"
  and validate_fields :: "(string option \<times> json) list \<Rightarrow> string \<Rightarrow> unit result" where
  "validate_json (JFloat x) path =
     (if \<not> isfinite x then Inl (ValueError (''non-finite number at '' @ path)) else Inr ())"
| "validate_json (JList vs) path = validate_items vs 0 path"
| "validate_json (JDict d) path = validate_fields d path"
| "validate_json (JOther t) path = Inl (TypeError (''unsupported JSON value at '' @ path @ '': '' @ t))"
| "validate_json _ path = Inr ()"
| "validate_items [] i path = Inr ()"
| "validate_items (v # vs) i path =
     bind_result (validate_json v (path @ ''['' @ str_of_int (int i) @ '']'')) (\<lambda>_. validate_items vs (Suc i) path)"
| "validate_fields [] path = Inr ()"
| "validate_fields ((k, v) # d) path =
     (case k of
        None \<Rightarrow> Inl (TypeError (''non-string object key at '' @ path))
      | Some key \<Rightarrow> bind_result (validate_json v (path @ ''.'' @ key)) (\<lambda>_. validate_fields d path))"

definition dict_merge :: "('k, 'v) pydict \<Rightarrow> ('k, 'v) pydict \<Rightarrow> ('k, 'v) pydict" where
  "dict_merge d fs = foldl (\<lambda>d (k, v). dict_set d k v) d fs"

text \<open>
  \<open>encode_message(message_type, **fields)\<close>: a keyword that is no string, or that
  names the positional parameter again, is a \<open>TypeError\<close> of the call itself.
\<close>

definition encode_message :: "string \<Rightarrow> jdict \<Rightarrow> jdict result" where
  "encode_message message_type fields =
     (if list_ex (\<lambda>f. fst f = None) fields then Inl (TypeError ''keywords must be strings'')
      else if dict_get fields (Some ''message_type'') \<noteq> None
      then Inl (TypeError ''encode_message() got multiple values for argument message_type'')
      else (let message = dict_merge [(Some ''protocol_version'', JInt PROTOCOL_VERSION), (Some ''type'', JStr message_type)] fields
            in bind_result (validate_json (JDict message) ''$'') (\<lambda>_. Inr message)))"

section \<open>Laws of framing\<close>

lemma dict_get_merge: "dict_get (dict_merge d fs) = dict_get d ++ map_of (rev fs)"
proof (induction fs arbitrary: d)
  case (Cons f fs)
  obtain k v where f: "f = (k, v)" by fastforce
  show ?case using Cons [of "dict_set d k v"]
    by (simp add: f dict_merge_def dict_get_set map_add_def fun_eq_iff dict_get_def split: option.split)
qed (simp add: dict_merge_def)

text \<open>Every number of an encoded message is finite, and every key a string.\<close>

fun json_sound :: "json \<Rightarrow> bool" where
  "json_sound (JFloat x) = isfinite x"
| "json_sound (JList vs) = list_all json_sound vs"
| "json_sound (JDict d) = list_all (\<lambda>f. fst f \<noteq> None \<and> json_sound (snd f)) d"
| "json_sound (JOther t) = False"
| "json_sound _ = True"

lemma validate_sound:
  "validate_json v p = Inr () \<longleftrightarrow> json_sound v"
  "validate_items vs i p = Inr () \<longleftrightarrow> list_all json_sound vs"
  "validate_fields d p = Inr () \<longleftrightarrow> list_all (\<lambda>f. fst f \<noteq> None \<and> json_sound (snd f)) d"
  by (induction v p and vs i p and d p rule: validate_json_validate_items_validate_fields.induct)
    (auto simp: bind_result_Inr_iff split: option.split)

text \<open>Validation raises nothing but the two exceptions its callers catch.\<close>

definition caught_error :: "py_error \<Rightarrow> bool" where
  "caught_error e = (case e of TypeError _ \<Rightarrow> True | ValueError _ \<Rightarrow> True | _ \<Rightarrow> False)"

lemma validate_errors:
  "validate_json v p = Inl e \<Longrightarrow> caught_error e"
  "validate_items vs i p = Inl e \<Longrightarrow> caught_error e"
  "validate_fields d p = Inl e \<Longrightarrow> caught_error e"
  by (induction v p and vs i p and d p arbitrary: e and e and e rule: validate_json_validate_items_validate_fields.induct)
    (auto simp: caught_error_def bind_result_def split: option.splits sum.splits if_splits)

lemma encode_message_errors: "encode_message t fs = Inl e \<Longrightarrow> caught_error e"
  by (auto simp: encode_message_def Let_def bind_result_def caught_error_def split: if_splits sum.splits
    dest!: validate_errors(1) simp del: validate_json.simps)

lemma encode_message_Inr:
  "encode_message t fs = Inr m \<Longrightarrow>
    m = dict_merge [(Some ''protocol_version'', JInt PROTOCOL_VERSION), (Some ''type'', JStr t)] fs \<and> json_sound (JDict m)"
  by (auto simp: encode_message_def Let_def bind_result_Inr_iff validate_sound simp del: validate_json.simps json_sound.simps
    split: if_splits)

lemma encode_message_get:
  assumes "encode_message t fs = Inr m" "distinct (map fst fs)"
  shows "dict_get m k = (case dict_get fs k of Some v \<Rightarrow> Some v
    | None \<Rightarrow> if k = Some ''protocol_version'' then Some (JInt PROTOCOL_VERSION)
              else if k = Some ''type'' then Some (JStr t) else None)"
  using encode_message_Inr [OF assms(1)] map_of_rev_distinct [OF assms(2)]
  by (auto simp: dict_get_merge dict_get_def map_add_def split: option.split)

section \<open>Equality of values\<close>

text \<open>
  Python's \<open>==\<close> compares numbers of different types by value (\<open>True == 1 == 1.0\<close>),
  lists element by element (validated grid data is a list) and dictionaries
  without regard to order; NaN is equal to nothing. Values are equal exactly
  when they contain no NaN and have the same canonical form.
\<close>

datatype canon =
    CNull
  | CNum rat
  | CInf bool
  | CNaN
  | CStr string
  | CList "canon list"
  | CDict "(string option \<times> canon) list"
  | COther string

definition key_text :: "string option \<Rightarrow> string" where
  "key_text k = (case k of None \<Rightarrow> [] | Some t \<Rightarrow> CHR ''k'' # t)"

fun canonical :: "json \<Rightarrow> canon" where
  "canonical JNull = CNull"
| "canonical (JBool b) = CNum (if b then 1 else 0)"
| "canonical (JInt n) = CNum (of_int n)"
| "canonical (JFloat x) = (case x of Fin q \<Rightarrow> CNum q | PInf \<Rightarrow> CInf True | NInf \<Rightarrow> CInf False | NaN \<Rightarrow> CNaN)"
| "canonical (JStr t) = CStr t"
| "canonical (JGrid ns) = CList (map (\<lambda>n. CNum (of_int n)) ns)"
| "canonical (JList vs) = CList (map canonical vs)"
| "canonical (JDict d) = CDict (sort_key (\<lambda>f. key_text (fst f)) (map (\<lambda>f. (fst f, canonical (snd f))) d))"
| "canonical (JOther t) = COther t"

fun has_nan :: "canon \<Rightarrow> bool" where
  "has_nan CNaN = True"
| "has_nan (CList vs) = list_ex has_nan vs"
| "has_nan (CDict d) = list_ex (\<lambda>f. has_nan (snd f)) d"
| "has_nan _ = False"

definition json_eq :: "json \<Rightarrow> json \<Rightarrow> bool" where
  "json_eq a b = (\<not> has_nan (canonical a) \<and> canonical a = canonical b)"

lemma json_eq_canon: "json_eq a b \<Longrightarrow> canonical a = canonical b"
  by (simp add: json_eq_def)

lemma sound_no_nan: "json_sound v \<Longrightarrow> \<not> has_nan (canonical v)"
  by (induction v rule: json_sound.induct)
    (auto simp: list_ex_iff list_all_iff isfinite_iff)

end
