(* ===== verification/StateCache.thy ===== *)
theory StateCache
  imports Protocol
begin

text \<open>
  The latest-state store between the ROS callbacks and the web event loop
  (\<open>runner_paddock/state_cache.py\<close>). Every method runs under one lock, so each
  is one atomic operation; the clock reading is an argument. The cache is the
  dictionary of its entries in the order of the constructor. Stored values are
  replaced and never mutated, so a kept reference and a deep copy are the same.
\<close>

section \<open>Sources\<close>

definition GRID_SOURCES :: "string list" where
  "GRID_SOURCES = [''map'', ''global_costmap'', ''local_costmap'']"

definition LARGE_SOURCES :: "string list" where
  "LARGE_SOURCES = GRID_SOURCES @ [''plan'']"

definition EXPIRY_SEC :: "(string, pyfloat option) pydict" where
  "EXPIRY_SEC =
     [(''pose'', Some (Fin (1 / 2))), (''mode'', Some (Fin (1 / 2))), (''command_authority'', Some (Fin (1 / 2))),
      (''control_lease'', Some (Fin (1 / 2))), (''stop_state'', Some (Fin 1)), (''local_control'', Some (Fin (1 / 2))),
      (''adapter_state'', Some (Fin (1 / 2))), (''encoder_state'', Some (dbl (2 / 10))), (''map_state'', Some (Fin 3)),
      (''navigation_state'', Some (Fin 2)), (''plan'', None), (''global_costmap'', Some (Fin 2)),
      (''local_costmap'', Some (Fin 1)), (''recording_state'', Some (Fin (5 / 2))),
      (''system_telemetry'', Some (Fin (5 / 2))), (''battery'', Some (Fin (5 / 2)))]"

definition SMALL_SOURCES :: "string list" where
  "SMALL_SOURCES =
     [''pose'', ''mode'', ''command_authority'', ''control_lease'', ''stop_state'', ''local_control'', ''adapter_state'',
      ''gateway'', ''config'', ''map_state'', ''navigation_state'', ''encoder_state'', ''initial_pose'',
      ''recording_state'', ''system_telemetry'', ''battery'', ''obstacle_processing'', ''autonomy_tuning'']"

definition ENTRY_NAMES :: "string list" where
  "ENTRY_NAMES =
     [''pose'', ''mode'', ''command_authority'', ''control_lease'', ''stop_state'', ''local_control'', ''adapter_state'',
      ''encoder_state'', ''initial_pose'', ''gateway'', ''config'', ''map_state'', ''navigation_state'',
      ''recording_state'', ''system_telemetry'', ''battery'', ''obstacle_processing'', ''autonomy_tuning'',
      ''map'', ''plan'', ''global_costmap'', ''local_costmap'']"

section \<open>Entries\<close>

record entry =
  en_value :: "jdict option"
  en_received_at :: "pyfloat option"
  en_revision :: int

definition new_entry :: entry where
  "new_entry = \<lparr> en_value = None, en_received_at = None, en_revision = 0 \<rparr>"

type_synonym cache = "(string, entry) pydict"

definition new_cache :: cache where
  "new_cache = map (\<lambda>name. (name, new_entry)) ENTRY_NAMES"

definition value_eq :: "jdict option \<Rightarrow> jdict option \<Rightarrow> bool" where
  "value_eq a b =
     (case (a, b) of (Some x, Some y) \<Rightarrow> json_eq (JDict x) (JDict y) | (None, None) \<Rightarrow> True | _ \<Rightarrow> False)"

definition source_is_fresh :: "string \<Rightarrow> entry \<Rightarrow> pyfloat \<Rightarrow> bool" where
  "source_is_fresh name e now =
     (case (en_value e, en_received_at e) of
        (Some _, Some t) \<Rightarrow>
          (case dict_get EXPIRY_SEC name of Some (Some expiry) \<Rightarrow> fle (fsub now t) expiry | _ \<Rightarrow> True)
      | _ \<Rightarrow> False)"

record source_health =
  sh_available :: bool
  sh_fresh :: bool
  sh_age_sec :: "pyfloat option"
  sh_revision :: int

definition health_of :: "string \<Rightarrow> entry \<Rightarrow> pyfloat \<Rightarrow> source_health" where
  "health_of name e now =
     \<lparr> sh_available = (en_value e \<noteq> None \<and> en_received_at e \<noteq> None),
       sh_fresh = source_is_fresh name e now,
       sh_age_sec = map_option (\<lambda>t. fmax (Fin 0) (fsub now t)) (en_received_at e),
       sh_revision = en_revision e \<rparr>"

definition health_json :: "source_health \<Rightarrow> json" where
  "health_json h =
     JDict [(Some ''available'', JBool (sh_available h)), (Some ''fresh'', JBool (sh_fresh h)),
       (Some ''age_sec'', case sh_age_sec h of None \<Rightarrow> JNull | Some a \<Rightarrow> JFloat a),
       (Some ''revision'', JInt (sh_revision h))]"

section \<open>Operations\<close>

definition update :: "cache \<Rightarrow> string \<Rightarrow> jdict \<Rightarrow> pyfloat \<Rightarrow> (cache \<times> bool) result" where
  "update c source v now =
     (case dict_get c source of
        None \<Rightarrow> Inl (KeyError source)
      | Some e \<Rightarrow>
          (let changed = (\<not> value_eq (en_value e) (Some v))
           in Inr (dict_set c source \<lparr> en_value = Some v, en_received_at = Some now,
                     en_revision = en_revision e + (if changed then 1 else 0) \<rparr>, changed)))"

definition invalidate :: "cache \<Rightarrow> string \<Rightarrow> (cache \<times> bool) result" where
  "invalidate c source =
     (case dict_get c source of
        None \<Rightarrow> Inl (KeyError source)
      | Some e \<Rightarrow>
          if en_value e = None then Inr (c, False)
          else Inr (dict_set c source \<lparr> en_value = None, en_received_at = None, en_revision = en_revision e + 1 \<rparr>, True))"

type_synonym section_key = "int \<times> bool"

definition key_of :: "string \<Rightarrow> entry \<Rightarrow> pyfloat \<Rightarrow> section_key" where
  "key_of name e now = (en_revision e, source_is_fresh name e now)"

definition state_section_keys :: "cache \<Rightarrow> pyfloat \<Rightarrow> (string, section_key) pydict" where
  "state_section_keys c now = map (\<lambda>(name, e). (name, key_of name e now)) c"

text \<open>Reading an entry that the constructor created; the fallback is never used.\<close>

definition entry_of :: "cache \<Rightarrow> string \<Rightarrow> entry" where
  "entry_of c name = (case dict_get c name of None \<Rightarrow> new_entry | Some e \<Rightarrow> e)"

definition json_of_value :: "jdict option \<Rightarrow> json" where
  "json_of_value v = (case v of None \<Rightarrow> JNull | Some d \<Rightarrow> JDict d)"

text \<open>Aggregate health over the two required sources, pose and map.\<close>

definition aggregate_health :: "bool \<Rightarrow> bool \<Rightarrow> bool \<Rightarrow> bool \<Rightarrow> string" where
  "aggregate_health pose_available map_available pose_fresh map_fresh =
     (if \<not> pose_available \<and> \<not> map_available then ''starting''
      else if pose_fresh \<and> map_fresh then ''ok'' else ''degraded'')"

definition snapshot_health :: "cache \<Rightarrow> pyfloat \<Rightarrow> json" where
  "snapshot_health c now =
     (let pose = health_of ''pose'' (entry_of c ''pose'') now; map_health = health_of ''map'' (entry_of c ''map'') now
      in JDict [(Some ''status'', JStr (aggregate_health (sh_available pose) (sh_available map_health) (sh_fresh pose) (sh_fresh map_health))),
                (Some ''sources'', JDict (map (\<lambda>(name, e). (Some name, health_json (health_of name e now))) c))])"

definition state_snapshot_with_keys :: "cache \<Rightarrow> pyfloat \<Rightarrow> jdict \<times> (string, section_key) pydict" where
  "state_snapshot_with_keys c now =
     (map (\<lambda>name. (Some name, json_of_value (en_value (entry_of c name)))) SMALL_SOURCES
        @ [(Some ''health'', snapshot_health c now)],
      state_section_keys c now)"

definition state_snapshot :: "cache \<Rightarrow> pyfloat \<Rightarrow> jdict" where
  "state_snapshot c now = fst (state_snapshot_with_keys c now)"

definition section_status :: "cache \<Rightarrow> pyfloat \<Rightarrow> string" where
  "section_status c now =
     (let pose = entry_of c ''pose''; map_entry = entry_of c ''map''
      in aggregate_health (en_value pose \<noteq> None) (en_value map_entry \<noteq> None)
           (source_is_fresh ''pose'' pose now) (source_is_fresh ''map'' map_entry now))"

definition state_section_snapshot :: "cache \<Rightarrow> string \<Rightarrow> pyfloat \<Rightarrow> (section_key \<times> jdict) result" where
  "state_section_snapshot c source now =
     (case dict_get c source of
        None \<Rightarrow> Inl (KeyError source)
      | Some e \<Rightarrow>
          Inr ((en_revision e, sh_fresh (health_of source e now)),
               [(Some ''section'', JStr source), (Some ''source_health'', health_json (health_of source e now)),
                (Some ''health_status'', JStr (section_status c now))]
               @ (if source \<in> set SMALL_SOURCES then [(Some ''value'', json_of_value (en_value e))] else [])))"

definition state_revision :: "cache \<Rightarrow> pyfloat \<Rightarrow> int list \<times> bool list" where
  "state_revision c now = (map (\<lambda>(name, e). en_revision e) c, map (\<lambda>(name, e). source_is_fresh name e now) c)"

definition large_snapshot :: "cache \<Rightarrow> string \<Rightarrow> (int \<times> jdict option) result" where
  "large_snapshot c source =
     (if source \<notin> set LARGE_SOURCES then Inl (KeyError source)
      else (case dict_get c source of
              None \<Rightarrow> Inl (KeyError source)
            | Some e \<Rightarrow> Inr (en_revision e, en_value e)))"

section \<open>Revisions\<close>

datatype cache_op = CO_update string jdict pyfloat | CO_invalidate string

text \<open>A call that raises \<open>KeyError\<close> leaves the cache as it is.\<close>

fun cache_step :: "cache \<Rightarrow> cache_op \<Rightarrow> cache" where
  "cache_step c (CO_update source v now) = (case update c source v now of Inr (c', _) \<Rightarrow> c' | Inl _ \<Rightarrow> c)"
| "cache_step c (CO_invalidate source) = (case invalidate c source of Inr (c', _) \<Rightarrow> c' | Inl _ \<Rightarrow> c)"

definition entry_ok :: "entry \<Rightarrow> bool" where
  "entry_ok e \<longleftrightarrow> (en_value e = None \<longleftrightarrow> en_received_at e = None) \<and> 0 \<le> en_revision e"

definition cache_ok :: "cache \<Rightarrow> bool" where
  "cache_ok c \<longleftrightarrow> map fst c = ENTRY_NAMES \<and> (\<forall>(name, e) \<in> set c. entry_ok e)"

lemma dict_set_names: "dict_get d k \<noteq> None \<Longrightarrow> map fst (dict_set d k v) = map fst d"
  by (induction d k v rule: dict_set.induct) (auto simp: dict_get_def)

lemma dict_set_values: "set (dict_set d k v) \<subseteq> insert (k, v) (set d)"
  by (induction d k v rule: dict_set.induct) auto

lemma dict_get_mem: "dict_get d k = Some v \<Longrightarrow> (k, v) \<in> set d"
  by (simp add: dict_get_def map_of_SomeD)

lemma cache_ok_set:
  assumes "cache_ok c" "dict_get c s = Some e" "entry_ok e'" shows "cache_ok (dict_set c s e')"
  using assms dict_set_names [of c s e'] dict_set_values [of c s e'] by (auto simp: cache_ok_def)

lemma cache_ok_entry: "cache_ok c \<Longrightarrow> dict_get c s = Some e \<Longrightarrow> entry_ok e"
  by (auto simp: cache_ok_def dest!: dict_get_mem)

lemma cache_ok_step: "cache_ok c \<Longrightarrow> cache_ok (cache_step c op)"
  by (cases op) (auto simp: update_def invalidate_def Let_def entry_ok_def split: option.split
    intro!: cache_ok_set dest: cache_ok_entry)

lemma cache_ok_new: "cache_ok new_cache"
  by (auto simp: cache_ok_def new_cache_def new_entry_def entry_ok_def comp_def)

definition value_class :: "jdict option \<Rightarrow> canon option" where
  "value_class = map_option (\<lambda>d. canonical (JDict d))"

lemma value_eq_class: "value_eq a b \<Longrightarrow> value_class a = value_class b"
  by (auto simp: value_eq_def value_class_def split: option.splits dest: json_eq_canon)

text \<open>
  One step of a source: the revision grows, or it stays and so does the value up
  to Python equality.
\<close>

definition entry_le :: "entry \<Rightarrow> entry \<Rightarrow> bool" where
  "entry_le e e' \<longleftrightarrow> en_revision e \<le> en_revision e'
     \<and> (en_revision e = en_revision e' \<longrightarrow> value_class (en_value e) = value_class (en_value e'))"

lemma entry_le_refl [simp]: "entry_le e e" by (simp add: entry_le_def)

lemma entry_le_trans: "entry_le a b \<Longrightarrow> entry_le b c \<Longrightarrow> entry_le a c"
  by (auto simp: entry_le_def)

definition cache_le :: "cache \<Rightarrow> cache \<Rightarrow> bool" where
  "cache_le c c' \<longleftrightarrow> (\<forall>s. entry_le (entry_of c s) (entry_of c' s))"

lemma cache_le_refl [simp]: "cache_le c c" by (simp add: cache_le_def)

lemma cache_le_trans: "cache_le a b \<Longrightarrow> cache_le b c \<Longrightarrow> cache_le a c"
  unfolding cache_le_def using entry_le_trans by blast

lemma entry_of_set: "entry_of (dict_set c s e) n = (if n = s then e else entry_of c n)"
  by (simp add: entry_of_def dict_get_set)

lemma cache_le_set: "dict_get c s = Some e \<Longrightarrow> entry_le e e' \<Longrightarrow> cache_le c (dict_set c s e')"
  by (simp add: cache_le_def entry_of_set) (simp add: entry_of_def)

lemma cache_le_step: "cache_le c (cache_step c op)"
  by (cases op) (auto simp: update_def invalidate_def Let_def entry_le_def split: option.split
    intro!: cache_le_set dest: value_eq_class)

interpretation cache_exec: machine "\<lambda>c. c = new_cache" cache_step cache_ok
  by unfold_locales (auto simp: cache_ok_new cache_ok_step)

lemma cache_le_run: "cache_le c (run_steps cache_step c ops)"
  by (induction ops arbitrary: c) (auto intro: cache_le_trans cache_le_step)

end
