(* ===== verification/ClientStream.thy ===== *)
theory ClientStream
  imports StateCache
begin

text \<open>
  Latest-wins fan-out of the state cache to web clients
  (\<open>runner_paddock/client_stream.py\<close>). A connection holds at most one pending
  frame per kind; the hub offers a full state once and then only the sections
  whose key changed. ROS callbacks may change the cache between the calls one
  publication makes, so each of its cache readings is an input of its own.
  The set of connections is a list of numbered connections: \<open>publish\<close> treats
  each on its own, so the order is immaterial.
\<close>

section \<open>Connections\<close>

definition FRAME_KINDS :: "string list" where
  "FRAME_KINDS = [''map'', ''global_costmap'', ''local_costmap'', ''plan'', ''state'']"

definition VISUALIZATION_KINDS :: "string set" where
  "VISUALIZATION_KINDS = {''map'', ''global_costmap'', ''local_costmap'', ''plan''}"

type_synonym frame = jdict

record client =
  cc_pending :: "(string, frame) pydict"
  cc_available :: bool
  cc_closed :: bool
  cc_revisions :: "(string, int) pydict"
  cc_visualization_demand :: "string set"
  cc_state_sections :: "(string, section_key) pydict option"

definition new_client :: client where
  "new_client = \<lparr> cc_pending = [], cc_available = False, cc_closed = False,
     cc_revisions = [(''map'', 0), (''global_costmap'', 0), (''local_costmap'', 0), (''plan'', 0)],
     cc_visualization_demand = {}, cc_state_sections = None \<rparr>"

definition pending_count :: "client \<Rightarrow> nat" where
  "pending_count c = length (cc_pending c)"

definition state_prefix :: "string \<Rightarrow> bool" where
  "state_prefix kind = (take 6 kind = ''state:'')"

definition offer :: "client \<Rightarrow> string \<Rightarrow> frame \<Rightarrow> client result" where
  "offer c kind f =
     (if kind \<notin> set FRAME_KINDS \<and> \<not> state_prefix kind then Inl (KeyError kind)
      else Inr (c\<lparr>cc_pending := dict_set (cc_pending c) kind f, cc_available := True\<rparr>))"

definition close_client :: "client \<Rightarrow> client" where
  "close_client c = c\<lparr>cc_closed := True, cc_available := True\<rparr>"

text \<open>\<open>None\<close>: the reader stays parked.\<close>

definition next_frame :: "client \<Rightarrow> (client \<times> frame) result option" where
  "next_frame c =
     (if \<not> cc_available c then None
      else case cc_pending c of
          [] \<Rightarrow> Some (Inl (RuntimeError ''client connection closed''))
        | (kind, f) # rest \<Rightarrow>
            Some (Inr (c\<lparr>cc_pending := rest, cc_available := (rest \<noteq> [] \<or> cc_closed c)\<rparr>, f)))"

section \<open>The hub\<close>

record hub =
  hb_clients :: "(nat \<times> client) list"
  hb_next :: nat
  hb_state_revision :: "(string, section_key) pydict option"
  hb_state_frame :: "frame option"
  hb_section_frames :: "(string, section_key \<times> frame) pydict"

definition new_hub :: hub where
  "new_hub = \<lparr> hb_clients = [], hb_next = 0, hb_state_revision = None, hb_state_frame = None, hb_section_frames = [] \<rparr>"

definition client_count :: "hub \<Rightarrow> nat" where
  "client_count h = length (hb_clients h)"

definition register :: "hub \<Rightarrow> hub" where
  "register h = h\<lparr>hb_clients := hb_clients h @ [(hb_next h, new_client)], hb_next := Suc (hb_next h)\<rparr>"

definition unregister :: "hub \<Rightarrow> nat \<Rightarrow> hub" where
  "unregister h i = h\<lparr>hb_clients := filter (\<lambda>x. fst x \<noteq> i) (hb_clients h)\<rparr>"

definition on_clients :: "(client \<Rightarrow> client) \<Rightarrow> hub \<Rightarrow> hub" where
  "on_clients f h = h\<lparr>hb_clients := map (\<lambda>(i, c). (i, f c)) (hb_clients h)\<rparr>"

definition on_client :: "nat \<Rightarrow> (client \<Rightarrow> client) \<Rightarrow> hub \<Rightarrow> hub" where
  "on_client j f h = h\<lparr>hb_clients := map (\<lambda>(i, c). (i, if i = j then f c else c)) (hb_clients h)\<rparr>"

definition demand_client :: "string set \<Rightarrow> client \<Rightarrow> client" where
  "demand_client demand c =
     c\<lparr>cc_visualization_demand := demand,
       cc_revisions := map (\<lambda>(kind, r). (kind, if kind \<in> demand - cc_visualization_demand c then - 1 else r)) (cc_revisions c)\<rparr>"

definition set_visualization_demand :: "hub \<Rightarrow> nat \<Rightarrow> string set \<Rightarrow> hub result" where
  "set_visualization_demand h i demand =
     (if \<not> demand \<subseteq> VISUALIZATION_KINDS then Inl (ValueError ''unknown visualization kind'')
      else Inr (on_client i (demand_client demand) h))"

definition close_hub :: "hub \<Rightarrow> hub" where
  "close_hub h = on_clients close_client h"

section \<open>One publication\<close>

record readings =
  rd_keys :: "cache \<times> pyfloat"
  rd_snapshot :: "cache \<times> pyfloat"
  rd_section :: "string \<Rightarrow> cache \<times> pyfloat"
  rd_large :: "string \<Rightarrow> cache"

text \<open>
  \<open>offer\<close> never raises on the kinds the hub uses, and the cache has an entry for
  every source it lists, so the \<open>KeyError\<close> branches below are never taken.
\<close>

definition offered :: "string \<Rightarrow> frame \<Rightarrow> client \<Rightarrow> client" where
  "offered kind f c = (case offer c kind f of Inl _ \<Rightarrow> c | Inr c' \<Rightarrow> c')"

definition unsynchronized :: "hub \<Rightarrow> bool" where
  "unsynchronized h = list_ex (\<lambda>(i, c). cc_state_sections c = None) (hb_clients h)"

text \<open>The full state: encoded anew when the keys changed; a rejected snapshot keeps the old frame.\<close>

definition refresh_state_frame ::
  "hub \<Rightarrow> readings \<Rightarrow> (string, section_key) pydict \<Rightarrow> hub \<times> (string, section_key) pydict" where
  "refresh_state_frame h r section_keys =
     (if unsynchronized h \<and> Some section_keys \<noteq> hb_state_revision h
      then (let (snapshot, snapshot_keys) = state_snapshot_with_keys (fst (rd_snapshot r)) (snd (rd_snapshot r))
            in case encode_message ''state'' snapshot of
                 Inl _ \<Rightarrow> (h, section_keys)
               | Inr f \<Rightarrow> (h\<lparr>hb_state_revision := Some snapshot_keys, hb_state_frame := Some f\<rparr>, snapshot_keys))
      else (h, section_keys))"

definition synchronize :: "frame \<Rightarrow> (string, section_key) pydict \<Rightarrow> client \<Rightarrow> client" where
  "synchronize f section_keys c =
     (if cc_state_sections c = None
      then (offered ''state'' f c)\<lparr>cc_state_sections := Some section_keys\<rparr> else c)"

definition publish_state :: "hub \<Rightarrow> readings \<Rightarrow> hub \<times> (string, section_key) pydict" where
  "publish_state h r =
     (let (h1, section_keys) = refresh_state_frame h r (state_section_keys (fst (rd_keys r)) (snd (rd_keys r)))
      in (case hb_state_frame h1 of
            None \<Rightarrow> h1
          | Some f \<Rightarrow> on_clients (synchronize f section_keys) h1, section_keys))"

definition wants_section :: "string \<Rightarrow> section_key \<Rightarrow> client \<Rightarrow> bool" where
  "wants_section source key c =
     (case cc_state_sections c of None \<Rightarrow> False | Some ks \<Rightarrow> dict_get ks source \<noteq> Some key)"

definition section_frame :: "hub \<Rightarrow> readings \<Rightarrow> string \<Rightarrow> section_key \<Rightarrow> (hub \<times> section_key \<times> frame) option" where
  "section_frame h r source key =
     (let cached = dict_get (hb_section_frames h) source in
      if map_option fst cached \<noteq> Some key
      then (case state_section_snapshot (fst (rd_section r source)) source (snd (rd_section r source)) of
              Inl _ \<Rightarrow> None
            | Inr (actual_key, payload) \<Rightarrow>
                (case encode_message ''state_update'' payload of
                   Inl _ \<Rightarrow> None
                 | Inr f \<Rightarrow> Some (h\<lparr>hb_section_frames := dict_set (hb_section_frames h) source (actual_key, f)\<rparr>, actual_key, f)))
      else map_option (\<lambda>(k, f). (h, key, f)) cached)"

definition send_section :: "string \<Rightarrow> section_key \<Rightarrow> section_key \<Rightarrow> frame \<Rightarrow> client \<Rightarrow> client" where
  "send_section source wanted key f c =
     (if wants_section source wanted c
      then (offered (''state:'' @ source) f c)
             \<lparr>cc_state_sections := map_option (\<lambda>ks. dict_set ks source key) (cc_state_sections c)\<rparr>
      else c)"

definition publish_section :: "readings \<Rightarrow> hub \<Rightarrow> string \<times> section_key \<Rightarrow> hub" where
  "publish_section r h sk =
     (case sk of (source, key) \<Rightarrow>
        if \<not> list_ex (\<lambda>(i, c). wants_section source key c) (hb_clients h) then h
        else (case section_frame h r source key of
                None \<Rightarrow> h
              | Some (h', actual_key, f) \<Rightarrow> on_clients (send_section source key actual_key f) h'))"

text \<open>\<open>encode_message(kind, revision=revision, **value)\<close>: a value with a key \<open>revision\<close> of its own is a \<open>TypeError\<close>.\<close>

definition large_frame :: "string \<Rightarrow> int \<Rightarrow> jdict option \<Rightarrow> frame result" where
  "large_frame kind revision v =
     (case v of
        None \<Rightarrow> encode_message kind [(Some ''revision'', JInt revision), (Some ''cleared'', JBool True)]
      | Some d \<Rightarrow>
          if dict_get d (Some ''revision'') \<noteq> None then Inl (TypeError ''got multiple values for keyword argument revision'')
          else encode_message kind ((Some ''revision'', JInt revision) # d))"

definition wants_large :: "string \<Rightarrow> int \<Rightarrow> client \<Rightarrow> bool" where
  "wants_large kind revision c =
     (kind \<in> cc_visualization_demand c \<and> dict_get (cc_revisions c) kind \<noteq> Some revision)"

definition send_large :: "string \<Rightarrow> int \<Rightarrow> frame \<Rightarrow> client \<Rightarrow> client" where
  "send_large kind revision f c =
     (if wants_large kind revision c
      then (offered kind f c)\<lparr>cc_revisions := dict_set (cc_revisions c) kind revision\<rparr> else c)"

definition publish_large :: "readings \<Rightarrow> hub \<Rightarrow> string \<Rightarrow> hub" where
  "publish_large r h kind =
     (case large_snapshot (rd_large r kind) kind of
        Inl _ \<Rightarrow> h
      | Inr (revision, v) \<Rightarrow>
          if \<not> list_ex (\<lambda>(i, c). wants_large kind revision c) (hb_clients h) then h
          else (case large_frame kind revision v of
                  Inl _ \<Rightarrow> h
                | Inr f \<Rightarrow> on_clients (send_large kind revision f) h))"

definition publish_hub :: "hub \<Rightarrow> readings \<Rightarrow> hub" where
  "publish_hub h r =
     (if hb_clients h = [] then h
      else (let (h1, section_keys) = publish_state h r;
                h2 = foldl (publish_section r) h1 section_keys
            in foldl (publish_large r) h2 [''map'', ''global_costmap'', ''local_costmap'', ''plan'']))"

section \<open>The sampling task\<close>

text \<open>
  \<open>StateStreamer\<close>: its task flag and period; one turn of the loop publishes and
  computes the next deadline and the sleep from the loop clock.
\<close>

definition STREAM_HZ :: pyfloat where "STREAM_HZ = Fin 10"

record streamer =
  sm_period :: pyfloat
  sm_running :: bool

definition new_streamer :: "pyfloat \<Rightarrow> streamer result" where
  "new_streamer rate_hz =
     (if fle rate_hz (Fin 0) then Inl (ValueError ''rate_hz must be positive'')
      else bind_result (fdiv (Fin 1) rate_hz) (\<lambda>period. Inr \<lparr> sm_period = period, sm_running = False \<rparr>))"

definition start_streamer :: "streamer \<Rightarrow> streamer result" where
  "start_streamer s =
     (if sm_running s then Inl (RuntimeError ''state streamer is already running'') else Inr (s\<lparr>sm_running := True\<rparr>))"

definition stop_streamer :: "streamer \<Rightarrow> streamer" where
  "stop_streamer s = s\<lparr>sm_running := False\<rparr>"

definition streamer_turn :: "streamer \<Rightarrow> hub \<Rightarrow> readings \<Rightarrow> pyfloat \<Rightarrow> pyfloat \<Rightarrow> hub \<times> pyfloat \<times> pyfloat" where
  "streamer_turn s h r deadline now =
     (let deadline' = fadd deadline (sm_period s) in (publish_hub h r, deadline', fmax (Fin 0) (fsub deadline' now)))"

section \<open>What a browser has been told\<close>

text \<open>
  The content of a frame for one section, read back from the message: its key
  (revision and freshness) and, for a small source, its value.
\<close>

definition as_dict :: "json option \<Rightarrow> jdict" where
  "as_dict j = (case j of Some (JDict d) \<Rightarrow> d | _ \<Rightarrow> [])"

definition health_key :: "jdict \<Rightarrow> section_key option" where
  "health_key h =
     (case (dict_get h (Some ''revision''), dict_get h (Some ''fresh'')) of
        (Some (JInt r), Some (JBool b)) \<Rightarrow> Some (r, b) | _ \<Rightarrow> None)"

definition content_of :: "string \<Rightarrow> frame \<Rightarrow> string \<Rightarrow> (section_key \<times> json option) option" where
  "content_of kind f s =
     (if kind = ''state''
      then map_option (\<lambda>k. (k, dict_get f (Some s)))
             (health_key (as_dict (dict_get (as_dict (dict_get (as_dict (dict_get f (Some ''health''))) (Some ''sources''))) (Some s))))
      else if kind = ''state:'' @ s
      then map_option (\<lambda>k. (k, dict_get f (Some ''value''))) (health_key (as_dict (dict_get f (Some ''source_health''))))
      else None)"

text \<open>The last content for a section in what was delivered, and in what is still pending after it.\<close>

fun view :: "(string \<times> frame) list \<Rightarrow> string \<Rightarrow> (section_key \<times> json option) option" where
  "view [] s = None"
| "view ((kind, f) # kfs) s = (case view kfs s of Some x \<Rightarrow> Some x | None \<Rightarrow> content_of kind f s)"

definition or_else :: "'a option \<Rightarrow> 'a option \<Rightarrow> 'a option" where
  "or_else a b = (case a of None \<Rightarrow> b | Some x \<Rightarrow> Some x)"

lemma or_else_simps [simp]: "or_else None b = b" "or_else (Some x) b = Some x" "or_else a None = a"
  by (simp_all add: or_else_def split: option.split)

lemma or_else_assoc: "or_else (or_else a b) c = or_else a (or_else b c)"
  by (simp add: or_else_def split: option.split)

lemma view_append: "view (a @ b) s = or_else (view b s) (view a s)"
  by (induction a s rule: view.induct) (auto simp: or_else_def split: option.split)

definition state_first :: "(string, frame) pydict \<Rightarrow> bool" where
  "state_first p \<longleftrightarrow> (\<forall>a b. map fst p = a @ ''state'' # b \<longrightarrow> list_all (\<lambda>k. \<not> state_prefix k) a)"

lemma state_prefix_simps [simp]: "state_prefix (''state:'' @ s)" "\<not> state_prefix ''state''" "state_prefix (CHR ''s'' # CHR ''t'' # CHR ''a'' # CHR ''t'' # CHR ''e'' # CHR '':'' # s)"
  by (simp_all add: state_prefix_def)

lemma content_kind: "content_of kind f s \<noteq> None \<Longrightarrow> kind = ''state'' \<or> kind = ''state:'' @ s"
  by (auto simp: content_of_def split: if_splits)

definition pending_view :: "(string, frame) pydict \<Rightarrow> string \<Rightarrow> (section_key \<times> json option) option" where
  "pending_view p s =
     or_else (Option.bind (dict_get p (''state:'' @ s)) (\<lambda>f. content_of (''state:'' @ s) f s))
       (Option.bind (dict_get p ''state'') (\<lambda>f. content_of ''state'' f s))"

definition told :: "(string \<times> frame) list \<Rightarrow> client \<Rightarrow> string \<Rightarrow> (section_key \<times> json option) option" where
  "told D c s = view (D @ cc_pending c) s"

lemma state_first_tl: "state_first (x # p) \<Longrightarrow> state_first p"
  unfolding state_first_def
proof (intro allI impI)
  fix a b
  assume h: "\<forall>a b. map fst (x # p) = a @ ''state'' # b \<longrightarrow> list_all (\<lambda>k. \<not> state_prefix k) a" and "map fst p = a @ ''state'' # b"
  then have "map fst (x # p) = (fst x # a) @ ''state'' # b" by simp
  with h have "list_all (\<lambda>k. \<not> state_prefix k) (fst x # a)" by blast
  then show "list_all (\<lambda>k. \<not> state_prefix k) a" by simp
qed

lemma view_pending:
  "distinct (map fst p) \<Longrightarrow> state_first p \<Longrightarrow> view p s = pending_view p s"
proof (induction p)
  case Nil
  then show ?case by (simp add: pending_view_def dict_get_def)
next
  case (Cons kf p)
  obtain k f where kf: "kf = (k, f)" by fastforce
  have "state_first p" by (rule state_first_tl [OF Cons.prems(2)])
  with Cons have IH: "view p s = pending_view p s" by simp
  have nk: "dict_get p k = None" using Cons.prems(1) by (auto simp: kf dict_get_def map_of_eq_None_iff)
  have st: "k = ''state:'' @ s \<Longrightarrow> dict_get p ''state'' = None"
  proof (rule ccontr)
    assume k: "k = ''state:'' @ s" and "dict_get p ''state'' \<noteq> None"
    then have "''state'' \<in> set (map fst p)" by (simp add: dict_get_None_iff dict_keys_def)
    then obtain a b where "map fst p = a @ ''state'' # b" by (meson split_list)
    then have "map fst (kf # p) = (fst kf # a) @ ''state'' # b" by simp
    with Cons.prems(2) have "list_all (\<lambda>k. \<not> state_prefix k) (fst kf # a)" unfolding state_first_def by blast
    then show False by (simp add: kf k)
  qed
  have step: "view (kf # p) s = or_else (pending_view p s) (content_of k f s)"
    using IH by (simp add: kf or_else_def split: option.split)
  consider (sec) "k = ''state:'' @ s" | (full) "k = ''state''" | (none) "k \<noteq> ''state:'' @ s" "k \<noteq> ''state''" by blast
  then show ?case
  proof cases
    case sec
    then show ?thesis using nk st unfolding step by (simp add: kf pending_view_def dict_get_def)
  next
    case full
    then show ?thesis using nk unfolding step by (simp add: kf pending_view_def dict_get_def)
  next
    case none
    then have "content_of k f s = None" using content_kind [of k f s] by blast
    then show ?thesis using none unfolding step by (simp add: kf pending_view_def dict_get_def)
  qed
qed

section \<open>The invariant of hub and connections\<close>

text \<open>
  \<open>genuine H s k v\<close>: key and value were read from one state of the cache in the
  history \<open>H\<close>. The first clause is about the queue, the second about what the
  hub believes the browser has.
\<close>

definition genuine :: "cache set \<Rightarrow> string \<Rightarrow> section_key \<Rightarrow> json option \<Rightarrow> bool" where
  "genuine H s k v \<longleftrightarrow>
     (\<exists>h \<in> H. fst k = en_revision (entry_of h s)
        \<and> (s \<in> set SMALL_SOURCES \<longrightarrow> v = Some (json_of_value (en_value (entry_of h s)))))"

definition known_kinds :: "string list" where
  "known_kinds = FRAME_KINDS @ map (\<lambda>s. ''state:'' @ s) ENTRY_NAMES"

definition queue_ok :: "client \<Rightarrow> bool" where
  "queue_ok c \<longleftrightarrow>
     distinct (map fst (cc_pending c)) \<and> state_first (cc_pending c)
     \<and> set (map fst (cc_pending c)) \<subseteq> set known_kinds
     \<and> (cc_pending c \<noteq> [] \<longrightarrow> cc_available c)
     \<and> (cc_state_sections c = None \<longrightarrow> list_all (\<lambda>x. fst x \<noteq> ''state'' \<and> \<not> state_prefix (fst x)) (cc_pending c))"

definition believed :: "cache set \<Rightarrow> (string \<times> frame) list \<Rightarrow> client \<Rightarrow> bool" where
  "believed H D c \<longleftrightarrow>
     (\<forall>ks. cc_state_sections c = Some ks \<longrightarrow> map fst ks = ENTRY_NAMES
        \<and> (\<forall>s k. dict_get ks s = Some k \<longrightarrow> (\<exists>v. told D c s = Some (k, v) \<and> genuine H s k v)))"

definition hub_frames_ok :: "cache set \<Rightarrow> hub \<Rightarrow> bool" where
  "hub_frames_ok H h \<longleftrightarrow>
     (hb_state_revision h = None \<longleftrightarrow> hb_state_frame h = None)
     \<and> (\<forall>f ks. hb_state_frame h = Some f \<longrightarrow> hb_state_revision h = Some ks \<longrightarrow> map fst ks = ENTRY_NAMES
          \<and> (\<forall>s k. dict_get ks s = Some k \<longrightarrow> (\<exists>v. content_of ''state'' f s = Some (k, v) \<and> genuine H s k v)))
     \<and> (\<forall>s k f. dict_get (hb_section_frames h) s = Some (k, f) \<longrightarrow>
          (\<exists>v. content_of (''state:'' @ s) f s = Some (k, v) \<and> genuine H s k v))"

lemma genuine_mono: "genuine H s k v \<Longrightarrow> H \<subseteq> H' \<Longrightarrow> genuine H' s k v"
  by (auto simp: genuine_def)

lemma believed_mono: "believed H D c \<Longrightarrow> H \<subseteq> H' \<Longrightarrow> believed H' D c"
  unfolding believed_def by (meson genuine_mono)

lemma believedD:
  "believed H D c \<Longrightarrow> cc_state_sections c = Some ks \<Longrightarrow> dict_get ks s = Some k \<Longrightarrow> \<exists>v. told D c s = Some (k, v) \<and> genuine H s k v"
  unfolding believed_def by blast

lemma hub_frames_mono: "hub_frames_ok H h \<Longrightarrow> H \<subseteq> H' \<Longrightarrow> hub_frames_ok H' h"
  unfolding hub_frames_ok_def by (meson genuine_mono)

text \<open>Reading back what the encoder wrote.\<close>

lemma health_key_json: "health_key (as_dict (Some (health_json h))) = Some (sh_revision h, sh_fresh h)"
  by (simp add: health_json_def health_key_def as_dict_def dict_get_def)

lemma map_of_sources: "map_of (map (\<lambda>(name, e). (Some name, g name e)) c) (Some s) = map_option (g s) (map_of c s)"
  by (induction c) auto

lemma small_names: "distinct SMALL_SOURCES" "''health'' \<notin> set SMALL_SOURCES" "set SMALL_SOURCES \<subseteq> set ENTRY_NAMES"
  "distinct ENTRY_NAMES"
  by (simp_all add: SMALL_SOURCES_def ENTRY_NAMES_def)

lemma map_of_small: "map_of (map (\<lambda>n. (Some n, g n)) ns) (Some s) = (if s \<in> set ns then Some (g s) else None)"
  by (induction ns) auto

lemma state_frame_content:
  assumes "encode_message ''state'' (fst (state_snapshot_with_keys c now)) = Inr f" "dict_get c s = Some e"
  shows "content_of ''state'' f s = Some (key_of s e now,
    dict_get f (Some s)) \<and> (s \<in> set SMALL_SOURCES \<longrightarrow> dict_get f (Some s) = Some (json_of_value (en_value e)))"
proof -
  let ?fs = "fst (state_snapshot_with_keys c now)"
  have d: "distinct (map fst ?fs)"
    using small_names by (simp add: state_snapshot_with_keys_def comp_def distinct_map inj_on_def image_iff)
  have "dict_get ?fs (Some ''health'') = Some (snapshot_health c now)"
    using small_names by (simp add: state_snapshot_with_keys_def dict_get_def map_add_def map_of_small)
  then have h: "dict_get f (Some ''health'') = Some (snapshot_health c now)"
    using encode_message_get [OF assms(1) d] by simp
  have v: "dict_get f (Some s) = Some (json_of_value (en_value e))" if "s \<in> set SMALL_SOURCES"
  proof -
    have "s \<noteq> ''health''" using that small_names by auto
    then have "dict_get ?fs (Some s) = Some (json_of_value (en_value e))"
      using that assms(2) by (simp add: state_snapshot_with_keys_def dict_get_def map_add_def map_of_small entry_of_def)
    then show ?thesis using encode_message_get [OF assms(1) d] by simp
  qed
  have "dict_get (map (\<lambda>(name, e). (Some name, health_json (health_of name e now))) c) (Some s)
      = Some (health_json (health_of s e now))"
    using assms(2) by (simp add: dict_get_def map_of_sources)
  then have "health_key (as_dict (dict_get (as_dict (dict_get (as_dict (Some (snapshot_health c now))) (Some ''sources''))) (Some s)))
      = Some (key_of s e now)"
    using health_key_json [of "health_of s e now"]
    by (simp add: snapshot_health_def as_dict_def dict_get_def key_of_def health_of_def Let_def)
  then show ?thesis using h v by (simp add: content_of_def)
qed

lemma section_frame_content:
  assumes "state_section_snapshot c s now = Inr (k, payload)" "encode_message ''state_update'' payload = Inr f"
  shows "\<exists>e. dict_get c s = Some e \<and> k = key_of s e now \<and> content_of (''state:'' @ s) f s = Some (k, dict_get f (Some ''value''))
    \<and> (s \<in> set SMALL_SOURCES \<longrightarrow> dict_get f (Some ''value'') = Some (json_of_value (en_value e)))"
proof -
  obtain e where e: "dict_get c s = Some e" and k: "k = key_of s e now"
    and p: "payload = [(Some ''section'', JStr s), (Some ''source_health'', health_json (health_of s e now)),
        (Some ''health_status'', JStr (section_status c now))]
      @ (if s \<in> set SMALL_SOURCES then [(Some ''value'', json_of_value (en_value e))] else [])"
    using assms(1) by (auto simp: state_section_snapshot_def key_of_def health_of_def split: option.splits)
  have d: "distinct (map fst payload)" by (simp add: p)
  have h: "dict_get f (Some ''source_health'') = Some (health_json (health_of s e now))"
    using encode_message_get [OF assms(2) d] by (simp add: p dict_get_def)
  have v: "s \<in> set SMALL_SOURCES \<Longrightarrow> dict_get f (Some ''value'') = Some (json_of_value (en_value e))"
    using encode_message_get [OF assms(2) d] by (simp add: p dict_get_def)
  show ?thesis using e k h v health_key_json [of "health_of s e now"]
    by (simp add: content_of_def key_of_def health_of_def)
qed

section \<open>Offering keeps the invariant\<close>

lemma told_eq: "queue_ok c \<Longrightarrow> told D c s = or_else (pending_view (cc_pending c) s) (view D s)"
  by (simp add: told_def view_append view_pending queue_ok_def)

lemma known_kinds_known: "kind \<in> set known_kinds \<Longrightarrow> kind \<in> set FRAME_KINDS \<or> state_prefix kind"
  by (auto simp: known_kinds_def)

lemma offered_eq: "kind \<in> set known_kinds \<Longrightarrow>
    offered kind f c = c\<lparr>cc_pending := dict_set (cc_pending c) kind f, cc_available := True\<rparr>"
  using known_kinds_known [of kind] by (auto simp: offered_def offer_def)

lemma dict_set_keys_list: "map fst (dict_set d k v) = (if k \<in> set (map fst d) then map fst d else map fst d @ [k])"
  by (induction d k v rule: dict_set.induct) auto

lemma state_first_set:
  assumes "state_first p" "kind = ''state'' \<Longrightarrow> list_all (\<lambda>x. \<not> state_prefix (fst x)) p"
  shows "state_first (dict_set p kind f)"
proof (cases "kind \<in> set (map fst p)")
  case True
  then show ?thesis using assms(1) by (simp add: state_first_def dict_set_keys_list)
next
  case False
  have "list_all (\<lambda>k. \<not> state_prefix k) a" if "map fst p @ [kind] = a @ ''state'' # b" for a b
  proof (cases b rule: rev_cases)
    case Nil
    then show ?thesis using that assms(2) by (auto simp: list_all_iff)
  next
    case (snoc b' x)
    then have "map fst p = a @ ''state'' # b'" using that by simp
    then show ?thesis using assms(1) unfolding state_first_def by blast
  qed
  then show ?thesis using False by (simp add: state_first_def dict_set_keys_list)
qed

lemma queue_ok_offered:
  assumes "queue_ok c" "kind \<in> set known_kinds"
    "if cc_state_sections c = None then sections' = None \<longrightarrow> kind \<noteq> ''state'' \<and> \<not> state_prefix kind
     else kind \<noteq> ''state'' \<and> sections' \<noteq> None"
  shows "queue_ok ((offered kind f c)\<lparr>cc_state_sections := sections'\<rparr>)"
proof -
  let ?p = "cc_pending c"
  have "state_first (dict_set ?p kind f)"
    using assms(1,3) by (intro state_first_set) (auto simp: queue_ok_def list_all_iff split: if_splits)
  moreover have "distinct (map fst (dict_set ?p kind f))" "set (map fst (dict_set ?p kind f)) \<subseteq> set known_kinds"
    using assms(1,2) by (auto simp: queue_ok_def dict_set_keys_list)
  moreover have "sections' = None \<Longrightarrow> list_all (\<lambda>x. fst x \<noteq> ''state'' \<and> \<not> state_prefix (fst x)) (dict_set ?p kind f)"
    using assms(1,3) dict_set_values [of ?p kind f] by (fastforce simp: queue_ok_def list_all_iff split: if_splits)
  ultimately show ?thesis using assms(2) by (simp add: queue_ok_def offered_eq)
qed

lemma state_kind_known: "''state'' \<in> set known_kinds" by (simp add: known_kinds_def FRAME_KINDS_def)

lemma section_kind_known: "s \<in> set ENTRY_NAMES \<Longrightarrow> ''state:'' @ s \<in> set known_kinds" by (simp add: known_kinds_def)

lemma told_fields: "cc_pending c' = cc_pending c \<Longrightarrow> told D c' s = told D c s"
  by (simp add: told_def)

lemma synchronize_ok:
  assumes "queue_ok c" "believed H D c" "map fst ks = ENTRY_NAMES"
    "\<And>s k. dict_get ks s = Some k \<Longrightarrow> \<exists>v. content_of ''state'' f s = Some (k, v) \<and> genuine H s k v"
  shows "queue_ok (synchronize f ks c)" "believed H D (synchronize f ks c)"
proof -
  show q: "queue_ok (synchronize f ks c)"
    using assms(1) state_kind_known by (auto simp: synchronize_def intro!: queue_ok_offered)
  show "believed H D (synchronize f ks c)"
  proof (cases "cc_state_sections c")
    case None
    have n: "dict_get (cc_pending c) (''state:'' @ s) = None" for s
      using assms(1) None by (force simp: queue_ok_def list_all_iff dict_get_None_iff dict_keys_def)
    have "told D (synchronize f ks c) s = or_else (content_of ''state'' f s) (view D s)" for s
      using told_eq [OF q, of D s] n [of s] None state_kind_known
      by (simp add: synchronize_def offered_eq pending_view_def dict_get_set)
    then show ?thesis unfolding believed_def using None assms(3,4) by (fastforce simp: synchronize_def)
  next
    case (Some _)
    then show ?thesis using assms(2) by (simp add: synchronize_def)
  qed
qed

lemma send_section_ok:
  assumes "queue_ok c" "believed H D c" "s \<in> set ENTRY_NAMES" "content_of (''state:'' @ s) f s = Some (k, v)" "genuine H s k v"
  shows "queue_ok (send_section s w k f c)" "believed H D (send_section s w k f c)"
proof -
  note kind = section_kind_known [OF assms(3)]
  show q: "queue_ok (send_section s w k f c)"
    using assms(1) kind by (auto simp: send_section_def wants_section_def intro!: queue_ok_offered split: option.splits)
  show "believed H D (send_section s w k f c)"
  proof (cases "wants_section s w c")
    case True
    then obtain ks where ks: "cc_state_sections c = Some ks" by (auto simp: wants_section_def split: option.splits)
    have t: "told D (send_section s w k f c) x = (if x = s then Some (k, v) else told D c x)" for x
      using told_eq [OF q, of D x] told_eq [OF assms(1), of D x] True kind assms(4)
      by (simp add: send_section_def offered_eq pending_view_def dict_get_set)
    have "map fst ks = ENTRY_NAMES" using assms(2) ks by (simp add: believed_def)
    then have "map fst (dict_set ks s k) = ENTRY_NAMES" using assms(3) by (simp add: dict_set_keys_list)
    moreover have "\<exists>v. told D (send_section s w k f c) x = Some (y, v) \<and> genuine H x y v"
      if "dict_get (dict_set ks s k) x = Some y" for x y
      using that assms(5) t [of x] believedD [OF assms(2) ks, of x y] by (cases "x = s") (simp_all add: dict_get_set)
    ultimately show ?thesis using True ks by (auto simp: believed_def send_section_def)
  next
    case False
    then show ?thesis using assms(2) by (simp add: send_section_def)
  qed
qed

lemma large_kinds: "kind \<in> {''map'', ''global_costmap'', ''local_costmap'', ''plan''} \<Longrightarrow>
    kind \<in> set known_kinds \<and> kind \<noteq> ''state'' \<and> \<not> state_prefix kind"
  by (auto simp: known_kinds_def FRAME_KINDS_def state_prefix_def)

lemma send_large_ok:
  assumes "queue_ok c" "believed H D c" "kind \<in> {''map'', ''global_costmap'', ''local_costmap'', ''plan''}"
  shows "queue_ok (send_large kind r f c)" "believed H D (send_large kind r f c)"
proof -
  note k = large_kinds [OF assms(3)]
  have "queue_ok ((offered kind f c)\<lparr>cc_state_sections := cc_state_sections c\<rparr>)"
    using assms(1) k by (intro queue_ok_offered) auto
  then have q: "queue_ok ((offered kind f c)\<lparr>cc_revisions := rs\<rparr>)" for rs
    using k by (simp add: queue_ok_def offered_eq)
  then show "queue_ok (send_large kind r f c)" using assms(1) by (simp add: send_large_def)
  have ne: "kind \<noteq> ''state:'' @ s" for s using k by auto
  have st: "''state'' \<noteq> kind" using k by auto
  have "told D ((offered kind f c)\<lparr>cc_revisions := rs\<rparr>) s = told D c s" for rs s
    using told_eq [OF q [of rs], of D s] told_eq [OF assms(1), of D s] k ne [of s] st
    by (simp add: offered_eq pending_view_def dict_get_set)
  then show "believed H D (send_large kind r f c)"
    using assms(2) k by (auto simp: send_large_def believed_def offered_eq)
qed

section \<open>A publication keeps the invariant\<close>

definition clients_ok :: "cache set \<Rightarrow> (nat \<Rightarrow> (string \<times> frame) list) \<Rightarrow> hub \<Rightarrow> bool" where
  "clients_ok H D h \<longleftrightarrow> (\<forall>(i, c) \<in> set (hb_clients h). queue_ok c \<and> believed H (D i) c)"

definition hub_ok :: "cache set \<Rightarrow> (nat \<Rightarrow> (string \<times> frame) list) \<Rightarrow> hub \<Rightarrow> bool" where
  "hub_ok H D h \<longleftrightarrow> hub_frames_ok H h \<and> clients_ok H D h"

definition readings_in :: "cache set \<Rightarrow> readings \<Rightarrow> bool" where
  "readings_in H r \<longleftrightarrow> fst (rd_keys r) \<in> H \<and> fst (rd_snapshot r) \<in> H
     \<and> (\<forall>s \<in> set ENTRY_NAMES. fst (rd_section r s) \<in> H \<and> rd_large r s \<in> H)"

definition snapshot_encodes :: "readings \<Rightarrow> bool" where
  "snapshot_encodes r =
     is_ok (encode_message ''state'' (fst (state_snapshot_with_keys (fst (rd_snapshot r)) (snd (rd_snapshot r)))))"

lemma section_keys_names: "cache_ok c \<Longrightarrow> map fst (state_section_keys c now) = ENTRY_NAMES"
  by (simp add: state_section_keys_def cache_ok_def comp_def case_prod_unfold)

lemma section_keys_get: "dict_get (state_section_keys c now) s = map_option (\<lambda>e. key_of s e now) (dict_get c s)"
  unfolding state_section_keys_def dict_get_def by (induction c) auto

lemma genuine_read: "c \<in> H \<Longrightarrow> dict_get c s = Some e \<Longrightarrow> (s \<in> set SMALL_SOURCES \<longrightarrow> v = Some (json_of_value (en_value e))) \<Longrightarrow>
    genuine H s (key_of s e now) v"
  by (force simp: genuine_def entry_of_def key_of_def)

lemma on_clients_ok:
  assumes "clients_ok H D h" "\<And>c E. queue_ok c \<Longrightarrow> believed H E c \<Longrightarrow> queue_ok (g c) \<and> believed H E (g c)"
  shows "clients_ok H D (on_clients g h)"
  using assms by (auto simp: clients_ok_def on_clients_def)

lemma on_clients_frames [simp]: "hub_frames_ok H (on_clients g h) = hub_frames_ok H h"
  by (simp add: hub_frames_ok_def on_clients_def)

lemma refresh_state_frame_ok:
  assumes "hub_frames_ok H h" "fst (rd_snapshot r) \<in> H" "\<And>c. c \<in> H \<Longrightarrow> cache_ok c" "snapshot_encodes r"
    "refresh_state_frame h r ks = (h', ks')" "map fst ks = ENTRY_NAMES"
  shows "hub_frames_ok H h'" "hb_clients h' = hb_clients h" "map fst ks' = ENTRY_NAMES"
    "unsynchronized h \<Longrightarrow> hb_state_revision h' = Some ks'"
proof -
  obtain c now where c: "rd_snapshot r = (c, now)" by fastforce
  obtain f where f: "encode_message ''state'' (fst (state_snapshot_with_keys c now)) = Inr f"
    using assms(4) c by (auto simp: snapshot_encodes_def is_ok_iff)
  let ?sk = "state_section_keys c now"
  let ?new = "h\<lparr>hb_state_revision := Some ?sk, hb_state_frame := Some f\<rparr>"
  have names: "map fst ?sk = ENTRY_NAMES" using assms(2,3) c by (simp add: section_keys_names)
  have con: "\<exists>v. content_of ''state'' f s = Some (k, v) \<and> genuine H s k v" if k: "dict_get ?sk s = Some k" for s k
  proof -
    obtain e where e: "dict_get c s = Some e" "k = key_of s e now" using k by (auto simp: section_keys_get)
    then show ?thesis using state_frame_content [OF f e(1)] genuine_read [OF _ e(1), of H] assms(2) c by auto
  qed
  have new: "hub_frames_ok H ?new"
    using assms(1) names con unfolding hub_frames_ok_def
    by (simp add: hub.simps)
  have "refresh_state_frame h r ks = (if unsynchronized h \<and> Some ks \<noteq> hb_state_revision h then (?new, ?sk) else (h, ks))"
    using f by (simp add: refresh_state_frame_def c state_snapshot_with_keys_def)
  then have "h' = ?new \<and> ks' = ?sk \<or> h' = h \<and> ks' = ks \<and> (unsynchronized h \<longrightarrow> hb_state_revision h = Some ks)"
    using assms(5) by (auto split: if_splits)
  then show "hub_frames_ok H h'" "hb_clients h' = hb_clients h" "map fst ks' = ENTRY_NAMES"
      "unsynchronized h \<Longrightarrow> hb_state_revision h' = Some ks'"
    using new names assms(1,6) by auto
qed

lemma publish_state_ok:
  assumes "hub_ok H D h" "readings_in H r" "\<And>c. c \<in> H \<Longrightarrow> cache_ok c" "snapshot_encodes r" "publish_state h r = (h', ks')"
  shows "hub_ok H D h'" "map fst ks' = ENTRY_NAMES"
    "\<And>i c. (i, c) \<in> set (hb_clients h') \<Longrightarrow> cc_state_sections c \<noteq> None"
proof -
  let ?ks = "state_section_keys (fst (rd_keys r)) (snd (rd_keys r))"
  obtain h1 where h1: "refresh_state_frame h r ?ks = (h1, ks')"
    using assms(5) by (auto simp: publish_state_def Let_def split: prod.splits)
  have names: "map fst ?ks = ENTRY_NAMES" using assms(2,3) by (simp add: readings_in_def section_keys_names)
  have snap: "fst (rd_snapshot r) \<in> H" using assms(2) by (simp add: readings_in_def)
  have h: "hub_frames_ok H h" "clients_ok H D h" using assms(1) by (simp_all add: hub_ok_def)
  note r = refresh_state_frame_ok [OF h(1) snap assms(3) assms(4) h1 names]
  have h'_def: "h' = (case hb_state_frame h1 of None \<Rightarrow> h1 | Some f \<Rightarrow> on_clients (synchronize f ks') h1)"
    using assms(5) h1 by (auto simp: publish_state_def)
  show "map fst ks' = ENTRY_NAMES" using r(3) by simp
  have f1: "hub_frames_ok H h1" and c1: "hb_clients h1 = hb_clients h" using r(1,2) by simp_all
  have sync: "queue_ok (synchronize f ks' c) \<and> believed H E (synchronize f ks' c)"
    if "hb_state_frame h1 = Some f" "queue_ok c" "believed H E c" "unsynchronized h" for f c E
  proof -
    have "hb_state_revision h1 = Some ks'" using r(4) that(4) by simp
    then have "map fst ks' = ENTRY_NAMES" "\<And>s k. dict_get ks' s = Some k \<Longrightarrow> \<exists>v. content_of ''state'' f s = Some (k, v) \<and> genuine H s k v"
      using f1 that(1) unfolding hub_frames_ok_def by blast+
    then show ?thesis using synchronize_ok [OF that(2,3)] by blast
  qed
  show "hub_ok H D h'"
  proof (cases "hb_state_frame h1")
    case None
    then show ?thesis using f1 h(2) c1 by (simp add: h'_def hub_ok_def clients_ok_def)
  next
    case (Some f)
    have cl: "clients_ok H D h1" using h(2) c1 by (simp add: clients_ok_def)
    have "clients_ok H D (on_clients (synchronize f ks') h1)"
    proof (cases "unsynchronized h")
      case True
      then show ?thesis using cl sync [OF Some] by (intro on_clients_ok) auto
    next
      case False
      then have "\<forall>(i, c) \<in> set (hb_clients h1). synchronize f ks' c = c"
        using c1 by (auto simp: unsynchronized_def list_ex_iff synchronize_def)
      then have "hb_clients (on_clients (synchronize f ks') h1) = hb_clients h1"
        by (auto simp: on_clients_def intro!: map_idI)
      then show ?thesis using cl by (simp add: clients_ok_def)
    qed
    then show ?thesis using f1 by (simp add: h'_def Some hub_ok_def)
  qed
  show "cc_state_sections c \<noteq> None" if "(i, c) \<in> set (hb_clients h')" for i c
  proof (cases "unsynchronized h")
    case True
    then have "hb_state_revision h1 = Some ks'" using r(4) by blast
    then obtain f where "hb_state_frame h1 = Some f" using f1 unfolding hub_frames_ok_def by fastforce
    then show ?thesis using that by (auto simp: h'_def on_clients_def synchronize_def split: if_splits)
  next
    case False
    then have "\<forall>(i, c) \<in> set (hb_clients h). cc_state_sections c \<noteq> None" by (auto simp: unsynchronized_def list_ex_iff)
    then show ?thesis using that c1
      by (auto simp: h'_def on_clients_def synchronize_def split: option.splits if_splits)
  qed
qed

lemma hub_frames_section:
  "hub_frames_ok H h \<Longrightarrow> dict_get (hb_section_frames h) s = Some (k, f) \<Longrightarrow>
    \<exists>v. content_of (''state:'' @ s) f s = Some (k, v) \<and> genuine H s k v"
  unfolding hub_frames_ok_def by blast

lemma section_frame_ok:
  assumes "hub_ok H D h" "readings_in H r" "s \<in> set ENTRY_NAMES" "section_frame h r s key = Some (h', k, f)"
  shows "hub_ok H D h'" "hb_clients h' = hb_clients h" "\<exists>v. content_of (''state:'' @ s) f s = Some (k, v) \<and> genuine H s k v"
proof -
  obtain c now where c: "rd_section r s = (c, now)" "c \<in> H" using assms(2,3) by (cases "rd_section r s") (auto simp: readings_in_def)
  have fr: "hub_frames_ok H h" and cl: "clients_ok H D h" using assms(1) by (simp_all add: hub_ok_def)
  consider (old) "h' = h" "dict_get (hb_section_frames h) s = Some (k, f)"
    | (new) payload where "state_section_snapshot c s now = Inr (k, payload)" "encode_message ''state_update'' payload = Inr f"
        "h' = h\<lparr>hb_section_frames := dict_set (hb_section_frames h) s (k, f)\<rparr>"
    using assms(4) c by (auto simp: section_frame_def Let_def split: if_splits sum.splits prod.splits option.splits)
  then have "(\<exists>v. content_of (''state:'' @ s) f s = Some (k, v) \<and> genuine H s k v)
      \<and> hub_frames_ok H h' \<and> hb_clients h' = hb_clients h"
  proof cases
    case old
    then show ?thesis using fr hub_frames_section [OF fr old(2)] by simp
  next
    case new
    obtain e where e: "dict_get c s = Some e" "k = key_of s e now" "content_of (''state:'' @ s) f s = Some (k, dict_get f (Some ''value''))"
        "s \<in> set SMALL_SOURCES \<longrightarrow> dict_get f (Some ''value'') = Some (json_of_value (en_value e))"
      using section_frame_content [OF new(1,2)] by blast
    have g: "genuine H s k (dict_get f (Some ''value''))" using genuine_read [OF c(2) e(1)] e(2,4) by blast
    then have "hub_frames_ok H h'" using fr e(3) unfolding hub_frames_ok_def new(3)
      by (cases k) (simp add: dict_get_set)
    then show ?thesis using g e(3) new(3) by simp
  qed
  then show "hub_ok H D h'" "hb_clients h' = hb_clients h" "\<exists>v. content_of (''state:'' @ s) f s = Some (k, v) \<and> genuine H s k v"
    using cl by (simp_all add: hub_ok_def clients_ok_def)
qed

lemma publish_section_ok:
  assumes "hub_ok H D h" "readings_in H r" "s \<in> set ENTRY_NAMES"
  shows "hub_ok H D (publish_section r h (s, key))"
proof (cases "section_frame h r s key")
  case (Some x)
  obtain h' k f where x: "x = (h', k, f)" by (cases x) auto
  note fr = section_frame_ok [OF assms Some [unfolded x]]
  obtain v where v: "content_of (''state:'' @ s) f s = Some (k, v)" "genuine H s k v" using fr(3) by blast
  have "clients_ok H D (on_clients (send_section s key k f) h')"
    using fr(1) send_section_ok [OF _ _ assms(3) v] by (intro on_clients_ok) (auto simp: hub_ok_def)
  then show ?thesis using assms(1) fr(1) Some x by (simp add: publish_section_def hub_ok_def)
qed (use assms(1) in \<open>simp add: publish_section_def\<close>)

lemma publish_large_ok:
  assumes "hub_ok H D h" "kind \<in> {''map'', ''global_costmap'', ''local_costmap'', ''plan''}"
  shows "hub_ok H D (publish_large r h kind)"
proof -
  have "clients_ok H D (on_clients (send_large kind v f) h)" for v f
    using assms(1) send_large_ok [OF _ _ assms(2)] by (intro on_clients_ok) (auto simp: hub_ok_def)
  then show ?thesis using assms(1) by (auto simp: publish_large_def hub_ok_def split: sum.split prod.split)
qed

lemma publish_sections_ok:
  "hub_ok H D h \<Longrightarrow> readings_in H r \<Longrightarrow> set (map fst ks) \<subseteq> set ENTRY_NAMES \<Longrightarrow> hub_ok H D (foldl (publish_section r) h ks)"
proof (induction ks arbitrary: h)
  case (Cons sk ks)
  obtain s k where "sk = (s, k)" by (cases sk)
  then show ?case using Cons.prems Cons.IH [OF publish_section_ok [OF Cons.prems(1,2), of s k]] by simp
qed simp

lemma publish_hub_ok:
  assumes "hub_ok H D h" "readings_in H r" "\<And>c. c \<in> H \<Longrightarrow> cache_ok c" "snapshot_encodes r"
  shows "hub_ok H D (publish_hub h r)"
proof -
  obtain h1 ks where p: "publish_state h r = (h1, ks)" by fastforce
  note s = publish_state_ok [OF assms p]
  have "hub_ok H D (foldl (publish_section r) h1 ks)" using s(1,2) assms(2) by (intro publish_sections_ok) simp_all
  then show ?thesis using assms(1) p by (simp add: publish_hub_def publish_large_ok)
qed

section \<open>The whole stream\<close>

text \<open>
  The cache with the states it has had, the hub, and what each browser has
  received. A publication reads states the cache has had; cache updates of the
  ROS thread between two of its readings are cache steps of their own.
\<close>

record stream =
  sy_cache :: cache
  sy_history :: "cache list"
  sy_hub :: hub
  sy_delivered :: "nat \<Rightarrow> (string \<times> frame) list"

definition new_stream :: stream where
  "new_stream = \<lparr> sy_cache = new_cache, sy_history = [new_cache], sy_hub = new_hub, sy_delivered = (\<lambda>_. []) \<rparr>"

datatype stream_input =
    SI_cache cache_op
  | SI_register
  | SI_unregister nat
  | SI_demand nat "string set"
  | SI_close
  | SI_publish readings
  | SI_deliver nat

definition deliver :: "stream \<Rightarrow> nat \<Rightarrow> stream" where
  "deliver y i =
     (case map_of (hb_clients (sy_hub y)) i of
        None \<Rightarrow> y
      | Some c \<Rightarrow>
          (case next_frame c of
             Some (Inr (c', f)) \<Rightarrow>
               y\<lparr>sy_hub := on_client i (\<lambda>_. c') (sy_hub y),
                 sy_delivered := (sy_delivered y)(i := sy_delivered y i @ [(fst (hd (cc_pending c)), f)])\<rparr>
           | _ \<Rightarrow> y))"

fun stream_step :: "stream \<Rightarrow> stream_input \<Rightarrow> stream" where
  "stream_step y (SI_cache op) =
     (let c = cache_step (sy_cache y) op in y\<lparr>sy_cache := c, sy_history := c # sy_history y\<rparr>)"
| "stream_step y SI_register = y\<lparr>sy_hub := register (sy_hub y)\<rparr>"
| "stream_step y (SI_unregister i) = y\<lparr>sy_hub := unregister (sy_hub y) i\<rparr>"
| "stream_step y (SI_demand i demand) =
     (case set_visualization_demand (sy_hub y) i demand of Inl _ \<Rightarrow> y | Inr h \<Rightarrow> y\<lparr>sy_hub := h\<rparr>)"
| "stream_step y SI_close = y\<lparr>sy_hub := close_hub (sy_hub y)\<rparr>"
| "stream_step y (SI_publish r) =
     (if readings_in (set (sy_history y)) r then y\<lparr>sy_hub := publish_hub (sy_hub y) r\<rparr> else y)"
| "stream_step y (SI_deliver i) = deliver y i"

definition history_ok :: "stream \<Rightarrow> bool" where
  "history_ok y \<longleftrightarrow> sy_cache y \<in> set (sy_history y)
     \<and> (\<forall>c \<in> set (sy_history y). cache_ok c \<and> cache_le c (sy_cache y))"

definition ids_ok :: "hub \<Rightarrow> bool" where
  "ids_ok h \<longleftrightarrow> distinct (map fst (hb_clients h)) \<and> (\<forall>i \<in> set (map fst (hb_clients h)). i < hb_next h)"

definition stream_inv :: "stream \<Rightarrow> bool" where
  "stream_inv y \<longleftrightarrow> history_ok y \<and> ids_ok (sy_hub y) \<and> hub_ok (set (sy_history y)) (sy_delivered y) (sy_hub y)"

lemma hub_ok_mono: "hub_ok H D h \<Longrightarrow> H \<subseteq> H' \<Longrightarrow> hub_ok H' D h"
  by (auto simp: hub_ok_def clients_ok_def intro: hub_frames_mono believed_mono)

lemma history_step: "history_ok y \<Longrightarrow> history_ok (stream_step y (SI_cache op))"
  by (auto simp: history_ok_def Let_def cache_ok_step cache_le_step intro: cache_le_trans)

lemma ids_on_clients [simp]: "ids_ok (on_clients g h) = ids_ok h" "ids_ok (on_client i g h) = ids_ok h"
  by (simp_all add: ids_ok_def on_clients_def on_client_def comp_def case_prod_unfold)

lemma ids_publish:
  assumes "ids_ok h" shows "ids_ok (publish_hub h r)"
proof -
  have sec: "ids_ok g \<Longrightarrow> ids_ok (publish_section r g sk)" for g sk
    by (auto simp: publish_section_def section_frame_def Let_def split: prod.split option.splits sum.splits if_splits)
      (simp_all add: ids_ok_def)
  have secs: "ids_ok g \<Longrightarrow> ids_ok (foldl (publish_section r) g ks)" for g ks
    by (induction ks arbitrary: g) (simp_all add: sec)
  have large: "ids_ok g \<Longrightarrow> ids_ok (publish_large r g kind)" for g kind
    by (auto simp: publish_large_def split: sum.split prod.split)
  have st: "ids_ok (fst (publish_state h r))"
    using assms by (auto simp: publish_state_def refresh_state_frame_def Let_def split: prod.split option.split sum.split)
      (simp_all add: ids_ok_def)
  show ?thesis using assms st by (auto simp: publish_hub_def Let_def secs large split: prod.split)
qed

lemma register_ok: "hub_ok H D h \<Longrightarrow> hub_ok H D (register h)"
  by (auto simp: hub_ok_def clients_ok_def register_def hub_frames_ok_def new_client_def queue_ok_def believed_def state_first_def)

lemma unregister_ok: "hub_ok H D h \<Longrightarrow> hub_ok H D (unregister h i)"
  by (auto simp: hub_ok_def clients_ok_def unregister_def hub_frames_ok_def)

lemma queue_cong:
  "cc_pending c' = cc_pending c \<Longrightarrow> cc_state_sections c' = cc_state_sections c \<Longrightarrow> (cc_available c \<Longrightarrow> cc_available c') \<Longrightarrow>
    queue_ok c \<Longrightarrow> queue_ok c'"
  "cc_pending c' = cc_pending c \<Longrightarrow> cc_state_sections c' = cc_state_sections c \<Longrightarrow> believed H D c \<Longrightarrow> believed H D c'"
  by (auto simp: queue_ok_def believed_def told_def)

lemma on_client_frames [simp]: "hub_frames_ok H (on_client i g h) = hub_frames_ok H h"
  by (simp add: hub_frames_ok_def on_client_def)

lemma demand_ok: "hub_ok H D h \<Longrightarrow> hub_ok H D (on_client i (demand_client demand) h)"
proof -
  assume h: "hub_ok H D h"
  have "queue_ok c \<Longrightarrow> queue_ok (demand_client demand c)" "believed H E c \<Longrightarrow> believed H E (demand_client demand c)" for c E
    by (rule queue_cong, auto simp: demand_client_def)+
  then have "clients_ok H D (on_client i (demand_client demand) h)"
    using h unfolding hub_ok_def clients_ok_def on_client_def by fastforce
  then show ?thesis using h by (simp add: hub_ok_def)
qed

lemma close_ok: "hub_ok H D h \<Longrightarrow> hub_ok H D (close_hub h)"
proof -
  assume h: "hub_ok H D h"
  have "queue_ok c \<Longrightarrow> queue_ok (close_client c)" "believed H E c \<Longrightarrow> believed H E (close_client c)" for c E
    by (rule queue_cong, auto simp: close_client_def)+
  then show ?thesis using h on_clients_ok [of H D h close_client] by (simp add: hub_ok_def close_hub_def)
qed

text \<open>Delivering moves the first pending frame behind the delivered ones: what the browser is told stays.\<close>

lemma next_frame_ok:
  assumes "next_frame c = Some (Inr (c', f))" "queue_ok c" "believed H D c"
  shows "queue_ok c'" "believed H (D @ [(fst (hd (cc_pending c)), f)]) c'"
proof -
  obtain k p where p: "cc_pending c = (k, f) # p" "c' = c\<lparr>cc_pending := p, cc_available := (p \<noteq> [] \<or> cc_closed c)\<rparr>"
    using assms(1) by (auto simp: next_frame_def split: if_splits list.splits)
  show "queue_ok c'" using assms(2) p state_first_tl [of "(k, f)" p] by (auto simp: queue_ok_def)
  have "told (D @ [(k, f)]) c' s = told D c s" for s by (simp add: told_def p)
  then show "believed H (D @ [(fst (hd (cc_pending c)), f)]) c'" using assms(3) p by (simp add: believed_def)
qed

lemma deliver_ok:
  assumes "hub_ok H (sy_delivered y) (sy_hub y)" "ids_ok (sy_hub y)"
  shows "hub_ok H (sy_delivered (deliver y i)) (sy_hub (deliver y i))" "ids_ok (sy_hub (deliver y i))"
    "sy_history (deliver y i) = sy_history y" "sy_cache (deliver y i) = sy_cache y"
proof -
  let ?h = "sy_hub y"
  have "hub_ok H ((sy_delivered y)(i := sy_delivered y i @ [(fst (hd (cc_pending c)), f)])) (on_client i (\<lambda>_. c') ?h)"
    if c: "map_of (hb_clients ?h) i = Some c" "next_frame c = Some (Inr (c', f))" for c c' f
  proof -
    have "queue_ok c" "believed H (sy_delivered y i) c"
      using assms(1) map_of_SomeD [OF c(1)] by (auto simp: hub_ok_def clients_ok_def)
    note n = next_frame_ok [OF c(2) this]
    show ?thesis using assms(1) n
      by (auto simp: hub_ok_def clients_ok_def on_client_def hub_frames_ok_def split: if_splits)
  qed
  then show "hub_ok H (sy_delivered (deliver y i)) (sy_hub (deliver y i))"
    using assms(1) by (simp add: deliver_def split: option.split sum.split prod.split)
qed (use assms(2) in \<open>simp_all add: deliver_def split: option.split sum.split prod.split\<close>)

text \<open>Runs in which every full state passes the encoder.\<close>

fun input_encodes :: "stream_input \<Rightarrow> bool" where
  "input_encodes (SI_publish r) = snapshot_encodes r"
| "input_encodes _ = True"

definition encodable_step :: "stream \<Rightarrow> stream_input \<Rightarrow> stream" where
  "encodable_step y i = (if input_encodes i then stream_step y i else y)"

lemma run_encodable: "list_all input_encodes is \<Longrightarrow> run_steps encodable_step y is = run_steps stream_step y is"
  by (induction "is" arbitrary: y) (simp_all add: encodable_step_def)

lemma stream_inv_step: "stream_inv y \<Longrightarrow> input_encodes i \<Longrightarrow> stream_inv (stream_step y i)"
proof (cases i)
  case (SI_cache op)
  assume y: "stream_inv y"
  then have "hub_ok (insert (cache_step (sy_cache y) op) (set (sy_history y))) (sy_delivered y) (sy_hub y)"
    by (auto simp: stream_inv_def intro: hub_ok_mono)
  then show ?thesis using y SI_cache history_step [of y op] by (simp add: stream_inv_def Let_def)
next
  case (SI_publish r)
  assume "stream_inv y" "input_encodes i"
  then show ?thesis using SI_publish publish_hub_ok [of "set (sy_history y)" "sy_delivered y" "sy_hub y" r]
    by (auto simp: stream_inv_def history_ok_def ids_publish)
next
  case (SI_deliver j)
  assume "stream_inv y"
  then show ?thesis using SI_deliver deliver_ok [of "set (sy_history y)" y j] by (simp add: stream_inv_def history_ok_def)
next
  case SI_register
  assume "stream_inv y"
  then show ?thesis using SI_register register_ok by (auto simp: stream_inv_def history_ok_def ids_ok_def register_def)
next
  case (SI_unregister j)
  assume "stream_inv y"
  then show ?thesis using SI_unregister unregister_ok
    by (auto simp: stream_inv_def history_ok_def ids_ok_def unregister_def distinct_map_filter)
next
  case (SI_demand j d)
  assume "stream_inv y"
  then show ?thesis using SI_demand demand_ok by (simp add: stream_inv_def history_ok_def set_visualization_demand_def)
next
  case SI_close
  assume "stream_inv y"
  then show ?thesis using SI_close close_ok by (simp add: stream_inv_def history_ok_def) (simp add: close_hub_def)
qed

interpretation stream_exec: machine "\<lambda>y. y = new_stream" encodable_step stream_inv
  by unfold_locales
    (auto simp: stream_inv_step encodable_step_def, simp add: stream_inv_def new_stream_def history_ok_def cache_ok_new ids_ok_def new_hub_def
      hub_ok_def hub_frames_ok_def clients_ok_def dict_get_def)

lemma stream_inv_reachable: "list_all input_encodes is \<Longrightarrow> stream_inv (run_steps stream_step new_stream is)"
  using stream_exec.invar_reachable [of new_stream "is"] by (simp add: run_encodable)

lemma queue_bound:
  assumes "queue_ok c"
  shows "pending_count c \<le> 27"
proof -
  have "card (set (map fst (cc_pending c))) \<le> card (set known_kinds)"
    using assms by (intro card_mono) (simp_all add: queue_ok_def)
  moreover have "card (set known_kinds) \<le> length known_kinds" by (rule card_length)
  moreover have "length known_kinds = 27" by (simp add: known_kinds_def FRAME_KINDS_def ENTRY_NAMES_def)
  moreover have "card (set (map fst (cc_pending c))) = pending_count c"
    using assms distinct_card [of "map fst (cc_pending c)"] by (simp add: queue_ok_def pending_count_def)
  ultimately show ?thesis by linarith
qed

text \<open>
  C14. The hub never believes a browser has what it was not offered: in every
  run in which each full state that a publication reads encodes as JSON, the
  last content for a section among the
  frames a browser received and those still waiting for it carries exactly the
  key the hub recorded, and was read from one state the cache had. At most 27
  frames wait.
\<close>

theorem browser_has_what_hub_records:
  assumes "list_all input_encodes is" "y = run_steps stream_step new_stream is" "(i, c) \<in> set (hb_clients (sy_hub y))"
  shows "pending_count c \<le> 27 \<and> (\<forall>ks s k. cc_state_sections c = Some ks \<longrightarrow> dict_get ks s = Some k \<longrightarrow>
    (\<exists>v. \<exists>h \<in> set (sy_history y). view (sy_delivered y i @ cc_pending c) s = Some (k, v) \<and> fst k = en_revision (entry_of h s)
       \<and> (s \<in> set SMALL_SOURCES \<longrightarrow> v = Some (json_of_value (en_value (entry_of h s))))))"
proof -
  have "hub_ok (set (sy_history y)) (sy_delivered y) (sy_hub y)"
    using stream_inv_reachable [OF assms(1)] assms(2) by (simp add: stream_inv_def)
  then have q: "queue_ok c" and b: "believed (set (sy_history y)) (sy_delivered y i) c"
    using assms(3) by (auto simp: hub_ok_def clients_ok_def)
  have "pending_count c \<le> 27" using q by (rule queue_bound)
  then show ?thesis using believedD [OF b] unfolding told_def genuine_def by meson
qed

section \<open>Convergence\<close>

definition has_key :: "string \<Rightarrow> section_key \<Rightarrow> hub \<Rightarrow> bool" where
  "has_key s k h \<longleftrightarrow> (\<forall>(i, c) \<in> set (hb_clients h). \<exists>ks. cc_state_sections c = Some ks \<and> dict_get ks s = Some k)"

definition all_synced :: "hub \<Rightarrow> bool" where
  "all_synced h \<longleftrightarrow> (\<forall>(i, c) \<in> set (hb_clients h). cc_state_sections c \<noteq> None)"

definition current_readings :: "cache \<Rightarrow> pyfloat \<Rightarrow> readings" where
  "current_readings c now = \<lparr> rd_keys = (c, now), rd_snapshot = (c, now), rd_section = (\<lambda>_. (c, now)), rd_large = (\<lambda>_. c) \<rparr>"

definition section_encodes :: "cache \<Rightarrow> pyfloat \<Rightarrow> string \<Rightarrow> bool" where
  "section_encodes c now s =
     is_ok (bind_result (state_section_snapshot c s now) (\<lambda>(k, payload). encode_message ''state_update'' payload))"

lemma section_frame_current:
  assumes "section_encodes c now s" "dict_get (state_section_keys c now) s = Some key"
  shows "\<exists>h' f. section_frame h (current_readings c now) s key = Some (h', key, f) \<and> hb_clients h' = hb_clients h"
proof -
  obtain e where e: "dict_get c s = Some e" "key = key_of s e now" using assms(2) by (auto simp: section_keys_get)
  obtain payload f where "state_section_snapshot c s now = Inr (key, payload)" "encode_message ''state_update'' payload = Inr f"
    using assms(1) e by (auto simp: section_encodes_def is_ok_iff bind_result_Inr_iff state_section_snapshot_def key_of_def health_of_def)
  then show ?thesis
    by (cases "dict_get (hb_section_frames h) s") (auto simp: section_frame_def current_readings_def Let_def)
qed

lemma send_section_keys:
  assumes "cc_state_sections c = Some ks"
  shows "\<exists>ks'. cc_state_sections (send_section s key key f c) = Some ks' \<and> dict_get ks' s = Some key
    \<and> (\<forall>x. x \<noteq> s \<longrightarrow> dict_get ks' x = dict_get ks x)"
  using assms by (auto simp: send_section_def wants_section_def dict_get_set)

lemma publish_section_current:
  assumes "section_encodes c now s" "dict_get (state_section_keys c now) s = Some key" "all_synced h"
  shows "all_synced (publish_section (current_readings c now) h (s, key))"
    "has_key s key (publish_section (current_readings c now) h (s, key))"
    "x \<noteq> s \<Longrightarrow> has_key x k h \<Longrightarrow> has_key x k (publish_section (current_readings c now) h (s, key))"
proof -
  obtain h' f where f: "section_frame h (current_readings c now) s key = Some (h', key, f)" "hb_clients h' = hb_clients h"
    using section_frame_current [OF assms(1,2)] by blast
  let ?p = "publish_section (current_readings c now) h (s, key)"
  have p: "hb_clients ?p = map (\<lambda>(i, c). (i, send_section s key key f c)) (hb_clients h)"
  proof (cases "list_ex (\<lambda>(i, c). wants_section s key c) (hb_clients h)")
    case True
    then show ?thesis using f by (simp add: publish_section_def on_clients_def)
  next
    case False
    then have "map (\<lambda>(i, c). (i, send_section s key key f c)) (hb_clients h) = hb_clients h"
      by (intro map_idI) (auto simp: list_ex_iff send_section_def)
    then show ?thesis using False by (simp add: publish_section_def)
  qed
  have sent: "\<exists>ks'. cc_state_sections (send_section s key key f d) = Some ks' \<and> dict_get ks' s = Some key
      \<and> (\<forall>x. x \<noteq> s \<longrightarrow> dict_get ks' x = dict_get (the (cc_state_sections d)) x)" if m: "(i, d) \<in> set (hb_clients h)" for i d
  proof -
    obtain ks where "cc_state_sections d = Some ks" using bspec [OF assms(3) [unfolded all_synced_def] m] by auto
    then show ?thesis using send_section_keys [of d ks s key f] by simp
  qed
  show "all_synced ?p" unfolding all_synced_def p using sent by fastforce
  show "has_key s key ?p" unfolding has_key_def p using sent by fastforce
  show "has_key x k ?p" if x: "x \<noteq> s" "has_key x k h"
    unfolding has_key_def p
  proof clarsimp
    fix i d
    assume d: "(i, d) \<in> set (hb_clients h)"
    then obtain ks where "cc_state_sections d = Some ks" "dict_get ks x = Some k" using x(2) by (auto simp: has_key_def)
    then show "\<exists>ks. cc_state_sections (send_section s key key f d) = Some ks \<and> dict_get ks x = Some k"
      using sent [OF d] x(1) by auto
  qed
qed

lemma publish_sections_current:
  assumes "\<And>s. s \<in> set (map fst ks) \<Longrightarrow> section_encodes c now s" "distinct (map fst ks)"
    "\<And>s k. (s, k) \<in> set ks \<Longrightarrow> dict_get (state_section_keys c now) s = Some k" "all_synced h"
  shows "all_synced (foldl (publish_section (current_readings c now)) h ks)"
    "(s, k) \<in> set ks \<Longrightarrow> has_key s k (foldl (publish_section (current_readings c now)) h ks)"
    "s \<notin> set (map fst ks) \<Longrightarrow> has_key s k h \<Longrightarrow> has_key s k (foldl (publish_section (current_readings c now)) h ks)"
  using assms
proof (induction ks arbitrary: h s k)
  case Nil
  { case 1 then show ?case by simp next case 2 then show ?case by simp next case 3 then show ?case by simp }
next
  case (Cons x ks)
  obtain s0 k0 where x: "x = (s0, k0)" by (cases x)
  have P: "section_encodes c now s0" "dict_get (state_section_keys c now) s0 = Some k0" if
    "\<And>s. s \<in> set (map fst (x # ks)) \<Longrightarrow> section_encodes c now s"
    "\<And>s k. (s, k) \<in> set (x # ks) \<Longrightarrow> dict_get (state_section_keys c now) s = Some k"
    using that by (auto simp: x)
  { case 1
    then show ?case using publish_section_current(1) [OF P [OF 1(1,3)] 1(4)] Cons.IH(1) by (simp add: x)
  next
    case 2
    note h1 = publish_section_current [OF P [OF 2(2,4)] 2(5)]
    show ?case
    proof (cases "(s, k) = x")
      case True
      then show ?thesis using Cons.IH(3) [of s] h1(1,2) 2 by (auto simp: x)
    next
      case False
      then show ?thesis using Cons.IH(2) [of s k] h1(1) 2 by (auto simp: x)
    qed
  next
    case 3
    note h1 = publish_section_current [OF P [OF 3(3,5)] 3(6)]
    then show ?case using Cons.IH(3) [of s] 3 by (simp add: x)
  }
qed

lemma publish_large_sections:
  "has_key s k h \<Longrightarrow> has_key s k (publish_large r h kind)"
proof -
  assume h: "has_key s k h"
  have "cc_state_sections (send_large kind v f c) = cc_state_sections c" for v f c
    by (simp add: send_large_def offered_def offer_def)
  then have "has_key s k (on_clients (send_large kind v f) h)" for v f
    using h by (auto simp: has_key_def on_clients_def)
  then show ?thesis using h by (simp add: publish_large_def split: sum.split prod.split)
qed

lemma publish_current:
  assumes "hub_ok H D h" "readings_in H (current_readings c now)" "\<And>c. c \<in> H \<Longrightarrow> cache_ok c"
    "snapshot_encodes (current_readings c now)" "\<And>s. s \<in> set ENTRY_NAMES \<Longrightarrow> section_encodes c now s"
    "dict_get (state_section_keys c now) s = Some k"
  shows "has_key s k (publish_hub h (current_readings c now))"
proof (cases "hb_clients h = []")
  case True
  then show ?thesis by (simp add: publish_hub_def has_key_def)
next
  case False
  let ?r = "current_readings c now"
  let ?ks = "state_section_keys c now"
  obtain h1 ks where p: "publish_state h ?r = (h1, ks)" by fastforce
  have ks: "ks = ?ks"
    using p by (auto simp: publish_state_def refresh_state_frame_def current_readings_def state_snapshot_with_keys_def Let_def
      split: if_splits sum.splits)
  note st = publish_state_ok [OF assms(1-4) p]
  have names: "map fst ?ks = ENTRY_NAMES" using st(2) assms(3) by (simp add: ks)
  have d: "distinct (map fst ?ks)" using names small_names by simp
  have mem: "dict_get ?ks x = Some y" if "(x, y) \<in> set ?ks" for x y using that d by (simp add: dict_get_def)
  have "all_synced h1" using st(3) assms(3) by (auto simp: all_synced_def)
  then have "has_key s k (foldl (publish_section ?r) h1 ?ks)"
    using publish_sections_current(2) [of ?ks c now h1 s k] assms(5) names d mem dict_get_mem [OF assms(6)] by simp
  then show ?thesis using False p by (simp add: publish_hub_def ks publish_large_sections)
qed

text \<open>
  C13. Browsers converge to the cache: in a run in which each full state that a
  publication reads encodes as JSON, after a publication that reads the current
  cache, of which the full state and every section encode, at most 27 frames
  wait for each connected browser, and once it has received them it holds for
  each small source the current revision and freshness and a value equal to the
  cached one.
\<close>

theorem browser_converges_to_cache:
  assumes "list_all input_encodes is" "y = run_steps stream_step new_stream is" "c = sy_cache y"
    "snapshot_encodes (current_readings c now)" "\<And>s. s \<in> set ENTRY_NAMES \<Longrightarrow> section_encodes c now s"
    "y' = stream_step y (SI_publish (current_readings c now))" "(i, d) \<in> set (hb_clients (sy_hub y'))" "s \<in> set SMALL_SOURCES"
  shows "pending_count d \<le> 27 \<and> (\<exists>v. view (sy_delivered y' i @ cc_pending d) s = Some (key_of s (entry_of c s) now, Some v)
    \<and> canonical v = canonical (json_of_value (en_value (entry_of c s))))"
proof -
  let ?H = "set (sy_history y)"
  have y: "history_ok y" "hub_ok ?H (sy_delivered y) (sy_hub y)"
    using stream_inv_reachable [OF assms(1)] assms(2) by (simp_all add: stream_inv_def)
  have cH: "c \<in> ?H" and ok: "x \<in> ?H \<Longrightarrow> cache_ok x" and le: "x \<in> ?H \<Longrightarrow> cache_le x c" for x
    using y(1) assms(3) by (auto simp: history_ok_def)
  have r: "readings_in ?H (current_readings c now)" using cH by (simp add: readings_in_def current_readings_def)
  have y': "y' = y\<lparr>sy_hub := publish_hub (sy_hub y) (current_readings c now)\<rparr>" using assms(6) r by simp
  obtain e where e: "dict_get c s = Some e"
  proof -
    have "s \<in> set (map fst c)" using ok [OF cH] small_names assms(8) by (auto simp: cache_ok_def)
    then show ?thesis using that by (auto simp: dict_get_def dest: weak_map_of_SomeI)
  qed
  have k: "dict_get (state_section_keys c now) s = Some (key_of s e now)" using e by (simp add: section_keys_get)
  have "has_key s (key_of s e now) (sy_hub y')"
    using publish_current [OF y(2) r ok assms(4,5) k] by (simp add: y')
  then obtain ks where ks: "cc_state_sections d = Some ks" "dict_get ks s = Some (key_of s e now)"
    using assms(7) by (auto simp: has_key_def)
  have "hub_ok ?H (sy_delivered y) (sy_hub y')"
    using publish_hub_ok [OF y(2) r ok assms(4)] by (simp add: y')
  then have "believed ?H (sy_delivered y i) d" "queue_ok d" using assms(7) by (auto simp: hub_ok_def clients_ok_def)
  note waiting = queue_bound [OF this(2)]
  from believedD [OF \<open>believed ?H (sy_delivered y i) d\<close> ks] obtain v where v: "told (sy_delivered y i) d s = Some (key_of s e now, v)"
    "genuine ?H s (key_of s e now) v" by blast
  then obtain h where h: "h \<in> ?H" "en_revision e = en_revision (entry_of h s)" "v = Some (json_of_value (en_value (entry_of h s)))"
    using assms(8) by (auto simp: genuine_def key_of_def)
  have "entry_of c s = e" using e by (simp add: entry_of_def)
  moreover have "value_class (en_value (entry_of h s)) = value_class (en_value e)"
    using le [OF h(1)] h(2) calculation by (simp add: cache_le_def entry_le_def)
  then have "canonical (json_of_value (en_value (entry_of h s))) = canonical (json_of_value (en_value e))"
    by (cases "en_value (entry_of h s)"; cases "en_value e") (auto simp: value_class_def json_of_value_def)
  ultimately show ?thesis using v(1) h(3) waiting by (simp add: told_def y')
qed

section \<open>When frames encode\<close>

text \<open>Finite numbers and supported values are all the encoder asks for.\<close>

definition cache_sound :: "cache \<Rightarrow> pyfloat \<Rightarrow> bool" where
  "cache_sound c now \<longleftrightarrow>
     (\<forall>(n, e) \<in> set c. json_sound (json_of_value (en_value e)) \<and> (\<forall>t. en_received_at e = Some t \<longrightarrow> isfinite (fsub now t)))"

lemma dict_merge_values: "set (dict_merge d fs) \<subseteq> set d \<union> set fs"
proof (induction fs arbitrary: d)
  case (Cons f fs)
  obtain k v where f: "f = (k, v)" by (cases f)
  have "set (dict_merge (dict_set d k v) fs) \<subseteq> set (dict_set d k v) \<union> set fs" by (rule Cons)
  then show ?case using dict_set_values [of d k v] by (auto simp: dict_merge_def f)
qed (simp add: dict_merge_def)

lemma encode_message_ok:
  assumes "list_all (\<lambda>f. fst f \<noteq> None \<and> json_sound (snd f)) fs" "Some ''message_type'' \<notin> set (map fst fs)"
  shows "is_ok (encode_message t fs)"
proof -
  let ?m = "dict_merge [(Some ''protocol_version'', JInt PROTOCOL_VERSION), (Some ''type'', JStr t)] fs"
  have "list_all (\<lambda>f. fst f \<noteq> None \<and> json_sound (snd f)) ?m"
    unfolding list_all_iff
  proof
    fix f
    assume "f \<in> set ?m"
    then have "f \<in> set [(Some ''protocol_version'', JInt PROTOCOL_VERSION), (Some ''type'', JStr t)] \<union> set fs"
      by (rule subsetD [OF dict_merge_values])
    then show "fst f \<noteq> None \<and> json_sound (snd f)" using assms(1) by (auto simp: list_all_iff)
  qed
  then have "validate_json (JDict ?m) ''$'' = Inr ()" by (simp add: validate_sound del: validate_json.simps)
  moreover have "\<not> list_ex (\<lambda>f. fst f = None) fs" using assms(1) by (auto simp: list_ex_iff list_all_iff)
  moreover have "dict_get fs (Some ''message_type'') = None" using assms(2) by (simp add: dict_get_None_iff dict_keys_def)
  ultimately show ?thesis by (simp add: encode_message_def Let_def del: validate_json.simps)
qed

lemma cache_sound_entry:
  assumes "cache_sound c now"
  shows "json_sound (json_of_value (en_value (entry_of c s)))"
    "(s, e) \<in> set c \<Longrightarrow> json_sound (health_json (health_of s e now))"
proof -
  show "json_sound (json_of_value (en_value (entry_of c s)))"
    using assms by (auto simp: cache_sound_def entry_of_def new_entry_def json_of_value_def split: option.split dest!: dict_get_mem)
  show "json_sound (health_json (health_of s e now))" if "(s, e) \<in> set c"
    using assms that by (auto simp: cache_sound_def health_json_def health_of_def fmax_def split: option.split)
qed

lemma snapshot_sound: "cache_sound c now \<Longrightarrow> snapshot_encodes (current_readings c now)"
  unfolding snapshot_encodes_def
  by (rule encode_message_ok)
    (auto simp: current_readings_def state_snapshot_with_keys_def snapshot_health_def list_all_iff cache_sound_entry Let_def,
     simp add: SMALL_SOURCES_def)

lemma section_sound:
  assumes "cache_sound c now" "dict_get c s = Some e" shows "section_encodes c now s"
proof -
  have "is_ok (encode_message ''state_update'' ([(Some ''section'', JStr s), (Some ''source_health'', health_json (health_of s e now)),
      (Some ''health_status'', JStr (section_status c now))]
      @ (if s \<in> set SMALL_SOURCES then [(Some ''value'', json_of_value (en_value e))] else [])))"
    using cache_sound_entry [OF assms(1), of s] cache_sound_entry(2) [OF assms(1) dict_get_mem [OF assms(2)]] assms(2)
    by (intro encode_message_ok) (auto simp: entry_of_def)
  then show ?thesis using assms(2) by (simp add: section_encodes_def state_section_snapshot_def)
qed

section \<open>Witnesses\<close>

definition demo_pose :: jdict where
  "demo_pose = [(Some ''x'', JFloat (Fin 1)), (Some ''frame'', JStr ''map'')]"

definition demo_cache :: cache where
  "demo_cache = cache_step new_cache (CO_update ''pose'' demo_pose (Fin 0))"

lemma demo_cache_facts: "cache_ok demo_cache" "cache_sound demo_cache (Fin 0)" "dict_get demo_cache ''pose'' =
    Some \<lparr> en_value = Some demo_pose, en_received_at = Some (Fin 0), en_revision = 1 \<rparr>"
proof -
  show "cache_ok demo_cache" by (simp add: demo_cache_def cache_ok_step cache_ok_new del: cache_step.simps)
  have p: "dict_get new_cache ''pose'' = Some new_entry" by (simp add: new_cache_def ENTRY_NAMES_def dict_get_def)
  then have d: "demo_cache = dict_set new_cache ''pose'' \<lparr> en_value = Some demo_pose, en_received_at = Some (Fin 0), en_revision = 1 \<rparr>"
    by (simp add: demo_cache_def update_def new_entry_def value_eq_def)
  show "dict_get demo_cache ''pose'' = Some \<lparr> en_value = Some demo_pose, en_received_at = Some (Fin 0), en_revision = 1 \<rparr>"
    unfolding d dict_get_set by simp
  show "cache_sound demo_cache (Fin 0)"
    using dict_set_values [of new_cache "''pose''" "\<lparr> en_value = Some demo_pose, en_received_at = Some (Fin 0), en_revision = 1 \<rparr>"]
    unfolding cache_sound_def d by (fastforce simp: new_cache_def new_entry_def json_of_value_def demo_pose_def)
qed

definition demo_stream_run :: "stream_input list" where
  "demo_stream_run = [SI_cache (CO_update ''pose'' demo_pose (Fin 0)), SI_register]"

definition demo_stream :: stream where
  "demo_stream = run_steps stream_step new_stream demo_stream_run"

definition demo_published :: stream where
  "demo_published = stream_step demo_stream (SI_publish (current_readings demo_cache (Fin 0)))"

lemma demo_stream_facts: "sy_cache demo_stream = demo_cache" "hb_clients (sy_hub demo_stream) = [(0, new_client)]"
  "list_all input_encodes demo_stream_run" "sy_history demo_stream = [demo_cache, new_cache]"
  by (simp_all add: demo_stream_def demo_stream_run_def new_stream_def register_def new_hub_def demo_cache_def Let_def
    del: cache_step.simps)

lemma demo_encodes: "snapshot_encodes (current_readings demo_cache (Fin 0))" "s \<in> set ENTRY_NAMES \<Longrightarrow> section_encodes demo_cache (Fin 0) s"
proof -
  show "snapshot_encodes (current_readings demo_cache (Fin 0))" by (rule snapshot_sound [OF demo_cache_facts(2)])
  assume "s \<in> set ENTRY_NAMES"
  then have "s \<in> set (map fst demo_cache)" using demo_cache_facts(1) by (simp add: cache_ok_def)
  then obtain e where "dict_get demo_cache s = Some e" by (auto simp: dict_get_def dest: weak_map_of_SomeI)
  then show "section_encodes demo_cache (Fin 0) s" by (rule section_sound [OF demo_cache_facts(2)])
qed

lemma demo_published_client: "\<exists>d. (0, d) \<in> set (hb_clients (sy_hub demo_published))"
proof -
  have "map fst (hb_clients (publish_section r h sk)) = map fst (hb_clients h)" for r h sk
    by (auto simp: publish_section_def section_frame_def on_clients_def Let_def split: prod.split option.splits sum.splits if_splits)
  then have secs: "map fst (hb_clients (foldl (publish_section r) h ks)) = map fst (hb_clients h)" for r h ks
    by (induction ks arbitrary: h) simp_all
  have large: "map fst (hb_clients (publish_large r h k)) = map fst (hb_clients h)" for r h k
    by (auto simp: publish_large_def on_clients_def split: sum.split prod.split)
  have st: "map fst (hb_clients (fst (publish_state h r))) = map fst (hb_clients h)" for r h
    by (auto simp: publish_state_def refresh_state_frame_def on_clients_def Let_def split: prod.split option.split sum.split)
  have "map fst (hb_clients (publish_hub h r)) = map fst (hb_clients h)" for r h
    using st [of h r] by (auto simp: publish_hub_def secs large Let_def split: prod.split)
  then have "map fst (hb_clients (sy_hub demo_published)) = [0]"
    by (simp add: demo_published_def demo_stream_facts)
  then show ?thesis by (cases "hb_clients (sy_hub demo_published)") auto
qed

theorem browser_converges_to_cache_witness:
  "\<exists>d v. pending_count d \<le> 27 \<and> (0, d) \<in> set (hb_clients (sy_hub demo_published))
    \<and> view (sy_delivered demo_published 0 @ cc_pending d) ''pose'' = Some ((1, True), Some v) \<and> canonical v = canonical (JDict demo_pose)"
proof -
  obtain d where d: "(0, d) \<in> set (hb_clients (sy_hub demo_published))" using demo_published_client by blast
  have "pending_count d \<le> 27 \<and> (\<exists>v. view (sy_delivered demo_published 0 @ cc_pending d) ''pose'' = Some (key_of ''pose'' (entry_of demo_cache ''pose'') (Fin 0), Some v)
      \<and> canonical v = canonical (json_of_value (en_value (entry_of demo_cache ''pose''))))"
    by (rule browser_converges_to_cache [OF demo_stream_facts(3) demo_stream_def demo_stream_facts(1) [symmetric] demo_encodes
        demo_published_def d]) (simp_all add: SMALL_SOURCES_def)
  then show ?thesis using d demo_cache_facts(3)
    by (auto simp: entry_of_def key_of_def source_is_fresh_def json_of_value_def EXPIRY_SEC_def dict_get_def simp del: canonical.simps)
qed

theorem browser_has_what_hub_records_witness:
  "\<exists>d. (0, d) \<in> set (hb_clients (sy_hub demo_published)) \<and> pending_count d \<le> 27"
proof -
  obtain d where d: "(0, d) \<in> set (hb_clients (sy_hub demo_published))" using demo_published_client by blast
  have "list_all input_encodes (demo_stream_run @ [SI_publish (current_readings demo_cache (Fin 0))])"
    using demo_stream_facts(3) demo_encodes(1) by simp
  from browser_has_what_hub_records [OF this _ d] show ?thesis
    using d by (auto simp: demo_published_def demo_stream_def run_steps_append)
qed

end
