(* ===== verification/ModeNode.thy ===== *)
theory ModeNode
  imports ModeRuntime
begin

text \<open>
  The ROS adapter of the mode runtime
  (\<open>runner_paddock/mode_supervisor_node.py\<close>): the evidence its subscriptions
  collect, the readiness and quiescence predicates it hands to the runtime,
  the lease check on requests and the refresh heartbeat. Evidence callbacks run
  in a thread of their own, also while a transition waits, so every poll of a
  waiting loop is given with the evidence that arrived before it. An encoder
  callback stores its time and its flag one after the other and without a lock;
  they are two events, so that a poll may fall between them. The other
  callbacks and the arming of the barrier are one event each. TF lookups and
  the publisher graph are readings.
\<close>

section \<open>Evidence\<close>

definition SCAN_SLAM_MAX_AGE_SEC :: pyfloat where "SCAN_SLAM_MAX_AGE_SEC = Fin (3 / 2)"
definition SCAN_MAX_AGE_SEC :: pyfloat where "SCAN_MAX_AGE_SEC = Fin (3 / 2)"
definition MAP_MAX_AGE_SEC :: pyfloat where "MAP_MAX_AGE_SEC = Fin 15"

definition AUTHORITY_PADDOCK_MANUAL :: int where "AUTHORITY_PADDOCK_MANUAL = 2"

record evidence =
  ev_scan_slam_at :: "pyfloat option"
  ev_scan_at :: "pyfloat option"
  ev_map_at :: "pyfloat option"
  ev_session_started_at :: "pyfloat option"
  ev_quiescence_started_at :: "pyfloat option"
  ev_quiescence_runtime_epoch :: int
  ev_authority_revoked_at :: "pyfloat option"
  ev_encoder_at :: "pyfloat option"
  ev_encoder_stationary :: bool

definition no_evidence :: evidence where
  "no_evidence = \<lparr> ev_scan_slam_at = None, ev_scan_at = None, ev_map_at = None, ev_session_started_at = None,
     ev_quiescence_started_at = None, ev_quiescence_runtime_epoch = 0, ev_authority_revoked_at = None,
     ev_encoder_at = None, ev_encoder_stationary = False \<rparr>"

datatype evidence_event =
    ScanSlam pyfloat
  | Scan pyfloat
  | MapUpdate pyfloat
  | AuthorityState int bool int pyfloat
  | EncoderReceived pyfloat
  | EncoderStationary bool

definition on_authority_state :: "evidence \<Rightarrow> int \<Rightarrow> bool \<Rightarrow> int \<Rightarrow> pyfloat \<Rightarrow> evidence" where
  "on_authority_state ev runtime_epoch brake_intent authority now =
     (if (case ev_quiescence_started_at ev of None \<Rightarrow> False | Some t \<Rightarrow> fle t now)
         \<and> runtime_epoch = ev_quiescence_runtime_epoch ev \<and> brake_intent \<and> authority \<noteq> AUTHORITY_PADDOCK_MANUAL
      then ev\<lparr>ev_authority_revoked_at := Some now\<rparr> else ev)"

fun evidence_step :: "evidence \<Rightarrow> evidence_event \<Rightarrow> evidence" where
  "evidence_step ev (ScanSlam now) = ev\<lparr>ev_scan_slam_at := Some now\<rparr>"
| "evidence_step ev (Scan now) = ev\<lparr>ev_scan_at := Some now\<rparr>"
| "evidence_step ev (MapUpdate now) = ev\<lparr>ev_map_at := Some now\<rparr>"
| "evidence_step ev (AuthorityState epoch brake authority now) = on_authority_state ev epoch brake authority now"
| "evidence_step ev (EncoderReceived now) = ev\<lparr>ev_encoder_at := Some now\<rparr>"
| "evidence_step ev (EncoderStationary stationary) = ev\<lparr>ev_encoder_stationary := stationary\<rparr>"

definition begin_quiescence :: "evidence \<Rightarrow> int \<Rightarrow> pyfloat \<Rightarrow> evidence" where
  "begin_quiescence ev runtime_epoch now =
     ev\<lparr>ev_quiescence_started_at := Some now, ev_quiescence_runtime_epoch := runtime_epoch,
        ev_authority_revoked_at := None, ev_session_started_at := Some now,
        ev_scan_slam_at := None, ev_map_at := None\<rparr>"

definition quiescence_ready :: "evidence \<Rightarrow> bool \<times> string" where
  "quiescence_ready ev =
     (case ev_authority_revoked_at ev of
        None \<Rightarrow> (False, ''revoking browser/manual motion'')
      | Some revoked \<Rightarrow>
          if (case ev_encoder_at ev of None \<Rightarrow> True | Some t \<Rightarrow> fle t revoked)
          then (False, ''waiting for post-revocation encoder evidence'')
          else if \<not> ev_encoder_stationary ev then (False, ''braking; encoder still reports motion'')
          else (True, []))"

section \<open>Ownership and capability\<close>

text \<open>\<open>text.rstrip('/')\<close> and \<open>name.startswith(prefix)\<close>.\<close>

definition rstrip_slash :: "string \<Rightarrow> string" where
  "rstrip_slash t = rev (dropWhile (\<lambda>c. c = CHR ''/'') (rev t))"

definition starts_with :: "string \<Rightarrow> string \<Rightarrow> bool" where
  "starts_with prefix t = (take (length prefix) t = prefix)"

text \<open>The publishers of each topic, by node name and namespace.\<close>

type_synonym publishers = "string \<Rightarrow> (string \<times> string) list"

definition owner_name :: "string \<times> string \<Rightarrow> string" where
  "owner_name endpoint = (case endpoint of (name, node_namespace) \<Rightarrow>
     (let namespace = rstrip_slash node_namespace
      in if truthy namespace then namespace @ ''/'' @ name else ''/'' @ name))"

definition publisher_owners :: "publishers \<Rightarrow> string \<Rightarrow> string set" where
  "publisher_owners pubs topic =
     set (map owner_name (filter (\<lambda>e. truthy (fst e) \<and> \<not> starts_with ''_NODE_NAME_UNKNOWN_'' (fst e)) (pubs topic)))"

definition expected_owners :: "mode \<Rightarrow> (string \<times> string set) list" where
  "expected_owners m =
     [(''/map'', {if m = MODE_MAPPING then ''/slam_toolbox'' else ''/map_server''}), (''/scan'', {''/LD19''}),
      (''/odometry/filtered'', {''/ekf_node''}), (''/cmd_vel'', {''/twist_mux''}),
      (''/tf'', {''/ekf_node'', ''/slam_toolbox''}),
      (''/tf_static'', {''/base_link_to_base_laser'', ''/base_link_to_imu_link''})]
     @ (if m = MODE_AUTONOMY then [(''/slam_map'', {''/slam_toolbox''})] else [])"

definition ownership_ready :: "publishers \<Rightarrow> mode \<Rightarrow> bool" where
  "ownership_ready pubs m = list_all (\<lambda>(topic, owners). publisher_owners pubs topic = owners) (expected_owners m)"

definition fresh_at :: "pyfloat option \<Rightarrow> pyfloat \<Rightarrow> pyfloat \<Rightarrow> bool" where
  "fresh_at received now bound = (case received of None \<Rightarrow> False | Some t \<Rightarrow> fle (fsub now t) bound)"

text \<open>\<open>tf target source\<close>: whether the lookup finds the transform.\<close>

definition capability_ready :: "evidence \<Rightarrow> (string \<Rightarrow> string \<Rightarrow> bool) \<Rightarrow> pyfloat \<Rightarrow> mode \<Rightarrow> bool \<times> string" where
  "capability_ready ev tf now m =
     (if \<not> tf ''odom'' ''base_link'' then (False, ''odom->base_link TF unavailable'')
      else if \<not> tf ''map'' ''odom'' then (False, ''map->odom TF unavailable (SLAM not localized)'')
      else if m = MODE_MAPPING
      then (if \<not> fresh_at (ev_scan_slam_at ev) now SCAN_SLAM_MAX_AGE_SEC then (False, ''/scan_slam is stale or missing'')
            else if \<not> fresh_at (ev_map_at ev) now MAP_MAX_AGE_SEC then (False, ''/map has no recent update'')
            else if (case ev_session_started_at ev of None \<Rightarrow> False
                     | Some started \<Rightarrow> (case ev_map_at ev of None \<Rightarrow> True | Some t \<Rightarrow> flt t started))
            then (False, ''no current-session map evidence yet'')
            else (True, []))
      else if \<not> fresh_at (ev_scan_at ev) now SCAN_MAX_AGE_SEC then (False, ''/scan is stale or missing'')
      else if ev_map_at ev = None then (False, ''/map not published by map_server'')
      else (True, []))"

section \<open>Polls of the runtime\<close>

text \<open>One reading of unit, graph, publishers and TF at a time, after the evidence that arrived before it.\<close>

record poll =
  po_events :: "evidence_event list"
  po_now :: pyfloat
  po_unit :: unit_reading
  po_nodes :: "(string \<times> string) list"
  po_publishers :: publishers
  po_tf :: "string \<Rightarrow> string \<Rightarrow> bool"

text \<open>\<open>_graph_nodes\<close>: how often each fully qualified node name occurs.\<close>

definition graph_nodes :: "(string \<times> string) list \<Rightarrow> graph_counts" where
  "graph_nodes nodes full =
     length (filter (\<lambda>(name, namespace).
       (if namespace \<noteq> ''/'' then rstrip_slash namespace @ ''/'' @ name else ''/'' @ name) = full) nodes)"

definition gather :: "evidence \<Rightarrow> evidence_event list \<Rightarrow> evidence" where
  "gather ev es = foldl evidence_step ev es"

definition observe :: "evidence \<Rightarrow> poll \<Rightarrow> mode \<Rightarrow> ready_obs" where
  "observe ev p m =
     \<lparr> ro_unit = po_unit p, ro_graph = graph_nodes (po_nodes p), ro_ownership = ownership_ready (po_publishers p) m,
       ro_capability = capability_ready ev (po_tf p) (po_now p) m \<rparr>"

fun observe_all :: "evidence \<Rightarrow> poll list \<Rightarrow> mode \<Rightarrow> evidence \<times> ready_obs list" where
  "observe_all ev [] m = (ev, [])"
| "observe_all ev (p # ps) m =
     (let ev1 = gather ev (po_events p); (ev2, os) = observe_all ev1 ps m in (ev2, observe ev1 p m # os))"

fun quiescence_polls :: "evidence \<Rightarrow> evidence_event list list \<Rightarrow> evidence \<times> (bool \<times> string) list" where
  "quiescence_polls ev [] = (ev, [])"
| "quiescence_polls ev (es # ess) =
     (let ev1 = gather ev es; (ev2, rs) = quiescence_polls ev1 ess in (ev2, quiescence_ready ev1 # rs))"

section \<open>The node\<close>

definition MODE_REQUEST_UNKNOWN :: string where "MODE_REQUEST_UNKNOWN = ''rejected unknown Paddock mode ''"

fun mode_number :: "mode \<Rightarrow> int" where
  "mode_number MODE_IDLE = 0"
| "mode_number MODE_MAPPING = 1"
| "mode_number MODE_AUTONOMY = 2"

fun lifecycle_number :: "lifecycle \<Rightarrow> int" where
  "lifecycle_number STABLE = 0"
| "lifecycle_number TRANSITIONING = 1"
| "lifecycle_number FAULT = 2"

definition requested_mode_of :: "int \<Rightarrow> mode option" where
  "requested_mode_of k =
     (if k = 0 then Some MODE_IDLE else if k = 1 then Some MODE_MAPPING else if k = 2 then Some MODE_AUTONOMY else None)"

record mode_request =
  mq_lease_id :: string
  mq_requested_mode :: int
  mq_operation :: int
  mq_request_id :: int
  mq_autonomy_map :: string

text \<open>The message \<open>_publish\<close> fills, less its stamp.\<close>

record mode_state_message =
  md_mode :: int
  md_status :: int
  md_accepted_request_id :: int
  md_active_autonomy_map :: string
  md_detail :: string
  md_runtime_epoch :: int
  md_mapping_session_id :: string
  md_ready :: bool
  md_readiness_reason :: string

definition mode_message :: "runtime_state \<Rightarrow> mode_state_message" where
  "mode_message s =
     \<lparr> md_mode = mode_number (rs_mode s), md_status = lifecycle_number (rs_lifecycle s),
       md_accepted_request_id = rs_accepted_request_id s, md_active_autonomy_map = rs_active_autonomy_map s,
       md_detail = rs_detail s, md_runtime_epoch = rs_runtime_epoch s,
       md_mapping_session_id = rs_mapping_session_id s, md_ready = rs_ready s,
       md_readiness_reason = rs_readiness_reason s \<rparr>"

text \<open>
  The runtime's effects hold what it publishes; an exception that leaves a
  callback leaves the executor's spin and takes the node down.
\<close>

record mode_node =
  mn_lease_id :: string
  mn_lease_active :: bool
  mn_evidence :: evidence
  mn_runtime :: mode_rt
  mn_log :: "string list"
  mn_down :: bool

definition say :: "mode_node \<Rightarrow> string \<Rightarrow> mode_node" where
  "say n text = n\<lparr>mn_log := mn_log n @ [text]\<rparr>"

definition on_lease :: "mode_node \<Rightarrow> bool \<Rightarrow> string \<Rightarrow> mode_node" where
  "on_lease n active lease_id = n\<lparr>mn_lease_active := active, mn_lease_id := (if active then lease_id else [])\<rparr>"

definition new_effects :: "mode_rt \<Rightarrow> mode_rt \<Rightarrow> mode_effect list" where
  "new_effects rt rt' = drop (length (rt_effects rt)) (rt_effects rt')"

fun is_raise :: "mode_effect \<Rightarrow> bool" where
  "is_raise (ME_raise e) = True"
| "is_raise _ = False"

definition raised :: "mode_rt \<Rightarrow> mode_rt \<Rightarrow> bool" where
  "raised rt rt' = list_ex is_raise (new_effects rt rt')"

text \<open>
  What a request meets: the clock when the barrier is armed and when the
  transition has ended, the polls of the three waits, and, for the rest, the
  readings of \<open>transition_world\<close>, whose readiness readings are replaced by
  those that the node's predicates give.
\<close>

record request_world =
  qw_begin :: pyfloat
  qw_quiescence :: "evidence_event list list"
  qw_previous :: poll
  qw_ready :: "poll list"
  qw_final :: poll
  qw_end :: pyfloat
  qw_world :: transition_world

text \<open>\<open>transition\<close> arms the barrier exactly for an accepted NEW MAP.\<close>

definition arms_barrier :: "mode_rt \<Rightarrow> mode \<Rightarrow> int \<Rightarrow> int \<Rightarrow> bool" where
  "arms_barrier rt requested request_id operation =
     (rs_accepted_request_id (rt_state rt) < request_id \<and> operation = OP_NEW_MAP \<and> requested = MODE_MAPPING
      \<and> rs_lifecycle (rt_state rt) = STABLE \<and> rs_mode (rt_state rt) = MODE_MAPPING
      \<and> truthy (rs_mapping_session_id (rt_state rt)))"

definition armed_evidence :: "request_world \<Rightarrow> evidence \<Rightarrow> mode_rt \<Rightarrow> mode \<Rightarrow> int \<Rightarrow> int \<Rightarrow> evidence" where
  "armed_evidence w ev rt requested request_id operation =
     (if arms_barrier rt requested request_id operation
      then begin_quiescence ev (rs_runtime_epoch (rt_state rt)) (qw_begin w) else ev)"

text \<open>The transition seen through the node's predicates, and the evidence it ends with.\<close>

definition barrier_polls :: "request_world \<Rightarrow> evidence \<Rightarrow> mode_rt \<Rightarrow> mode \<Rightarrow> int \<Rightarrow> int \<Rightarrow> evidence \<times> (bool \<times> string) list" where
  "barrier_polls w ev rt requested request_id operation =
     (if arms_barrier rt requested request_id operation
      then quiescence_polls (armed_evidence w ev rt requested request_id operation) (qw_quiescence w) else (ev, []))"

definition seen_world :: "request_world \<Rightarrow> evidence \<Rightarrow> mode_rt \<Rightarrow> mode \<Rightarrow> int \<Rightarrow> int \<Rightarrow> evidence \<times> transition_world" where
  "seen_world w ev rt requested request_id operation =
     (let (ev1, quiet_polls) = barrier_polls w ev rt requested request_id operation;
          rejected = (arms_barrier rt requested request_id operation \<and> \<not> list_ex fst quiet_polls);
          ev_previous = gather ev1 (po_events (qw_previous w));
          (ev2, ready) = observe_all ev1 (qw_ready w) requested;
          ev3 = gather ev2 (po_events (qw_final w))
      in (if rejected then ev_previous else ev3,
          (qw_world w)\<lparr>tw_quiescence := quiet_polls, tw_previous := observe ev_previous (qw_previous w) MODE_MAPPING,
             tw_ready := ready, tw_final := observe ev3 (qw_final w) requested\<rparr>))"

definition run_request :: "request_world \<Rightarrow> mode_node \<Rightarrow> mode \<Rightarrow> mode_request \<Rightarrow> mode_node" where
  "run_request w n requested q =
     (let rt = mn_runtime n; before = rs_mapping_session_id (rt_state rt);
          (ev, tw) = seen_world w (mn_evidence n) rt requested (mq_request_id q) (mq_operation q);
          rt' = mode_transition tw rt requested (mq_request_id q) (mq_autonomy_map q) (mq_operation q);
          s = rt_state rt'; n1 = n\<lparr>mn_runtime := rt', mn_evidence := ev\<rparr>
      in if raised rt rt' then n1\<lparr>mn_down := True\<rparr>
         else (let n2 = (if rs_mode s = MODE_MAPPING \<and> rs_mapping_session_id s \<noteq> before
                         then n1\<lparr>mn_evidence := ev\<lparr>ev_session_started_at := Some (qw_end w)\<rparr>\<rparr> else n1)
               in if rs_lifecycle s = FAULT then say n2 (rs_detail s) else n2))"

definition on_request :: "request_world \<Rightarrow> mode_node \<Rightarrow> mode_request \<Rightarrow> mode_node" where
  "on_request w n q =
     (if \<not> mn_lease_active n \<or> mq_lease_id q \<noteq> mn_lease_id n then say n ''rejected mode request from non-owner lease''
      else case requested_mode_of (mq_requested_mode q) of
          None \<Rightarrow> say n (MODE_REQUEST_UNKNOWN @ str_of_int (mq_requested_mode q))
        | Some requested \<Rightarrow>
            if mq_operation q = OP_NEW_MAP \<and> requested \<noteq> MODE_MAPPING then say n ''NEW MAP is only valid with MAPPING''
            else run_request w n requested q)"

definition on_refresh_timer :: "bool \<Rightarrow> poll \<Rightarrow> mode_node \<Rightarrow> mode_node" where
  "on_refresh_timer busy p n =
     (if busy then n
      else (let rt = mn_runtime n;
                rt' = refresh (observe (mn_evidence n) p (rs_mode (rt_state rt))) rt
            in if raised rt rt' then n\<lparr>mn_runtime := rt', mn_down := True\<rparr>
               else n\<lparr>mn_runtime := act rt' (ME_publish (rt_state rt'))\<rparr>))"

text \<open>Construction: the runtime is reconciled before any callback runs.\<close>

definition new_mode_node :: "string option \<Rightarrow> reconcile_world \<Rightarrow> pyfloat \<Rightarrow> mode_node" where
  "new_mode_node map_file w now =
     (let rt = reconcile w (new_mode_rt map_file); s = rt_state rt
      in \<lparr> mn_lease_id = [], mn_lease_active = False,
           mn_evidence = (if rs_mode s = MODE_MAPPING then no_evidence\<lparr>ev_session_started_at := Some now\<rparr> else no_evidence),
           mn_runtime = rt,
           mn_log = [''reconciled Paddock mode as '' @ mode_name (rs_mode s) @ ''/''
             @ (case rs_lifecycle s of STABLE \<Rightarrow> ''STABLE'' | TRANSITIONING \<Rightarrow> ''TRANSITIONING'' | FAULT \<Rightarrow> ''FAULT'')],
           mn_down = False \<rparr>)"

datatype node_input =
    NI_lease bool string
  | NI_evidence evidence_event
  | NI_request request_world mode_request
  | NI_refresh bool poll

fun mode_node_step :: "mode_node \<Rightarrow> node_input \<Rightarrow> mode_node" where
  "mode_node_step n (NI_lease active lease_id) = (if mn_down n then n else on_lease n active lease_id)"
| "mode_node_step n (NI_evidence e) = (if mn_down n then n else n\<lparr>mn_evidence := evidence_step (mn_evidence n) e\<rparr>)"
| "mode_node_step n (NI_request w q) = (if mn_down n then n else on_request w n q)"
| "mode_node_step n (NI_refresh busy p) = (if mn_down n then n else on_refresh_timer busy p n)"

section \<open>The stationary barrier of a new map\<close>

text \<open>
  The last encoder sample of the events: its time and, once its callback has
  stored it, its flag; and the flag that was stored last, by whatever sample.
\<close>

fun sample_step :: "(pyfloat \<times> bool option) option \<Rightarrow> evidence_event \<Rightarrow> (pyfloat \<times> bool option) option" where
  "sample_step r (EncoderReceived t) = Some (t, None)"
| "sample_step r (EncoderStationary stationary) = map_option (\<lambda>(t, _). (t, Some stationary)) r"
| "sample_step r _ = r"

definition last_sample :: "evidence_event list \<Rightarrow> (pyfloat \<times> bool option) option" where
  "last_sample es = foldl sample_step None es"

fun flag_step :: "bool \<Rightarrow> evidence_event \<Rightarrow> bool" where
  "flag_step b (EncoderStationary stationary) = stationary"
| "flag_step b _ = b"

definition last_flag :: "bool \<Rightarrow> evidence_event list \<Rightarrow> bool" where
  "last_flag b es = foldl flag_step b es"

text \<open>
  The messages that confirm a stop: the authority braked for the epoch, after
  the barrier was armed and not in manual control, and the last encoder sample
  came later than that and is of a stationary wheel; when the events end
  inside its callback, the flag that was stored before it says stationary.
\<close>

definition confirmed_stop :: "int \<Rightarrow> pyfloat \<Rightarrow> bool \<Rightarrow> evidence_event list \<Rightarrow> bool" where
  "confirmed_stop epoch armed stationary es \<longleftrightarrow>
     (\<exists>authority revoked t. AuthorityState epoch True authority revoked \<in> set es \<and> authority \<noteq> AUTHORITY_PADDOCK_MANUAL
        \<and> fle armed revoked \<and> \<not> fle t revoked
        \<and> (last_sample es = Some (t, Some True) \<or> (last_sample es = Some (t, None) \<and> last_flag stationary es)))"

lemma gather_snoc [simp]: "gather ev (es @ fs) = gather (gather ev es) fs" "gather ev [e] = evidence_step ev e" "gather ev [] = ev"
  by (simp_all add: gather_def)

lemma last_sample_snoc [simp]:
  "last_sample (es @ [e]) = sample_step (last_sample es) e" "last_sample [] = None"
  "last_flag b (es @ [e]) = flag_step (last_flag b es) e" "last_flag b [] = b"
  by (simp_all add: last_sample_def last_flag_def)

lemma gather_flag: "ev_encoder_stationary (gather ev es) = last_flag (ev_encoder_stationary ev) es"
proof (induction es rule: rev_induct)
  case (snoc e es)
  then show ?case by (cases e) (auto simp: on_authority_state_def)
qed simp

lemma gather_encoder:
  "case last_sample es of None \<Rightarrow> ev_encoder_at (gather ev es) = ev_encoder_at ev
     | Some (t, flag) \<Rightarrow> ev_encoder_at (gather ev es) = Some t
         \<and> (case flag of None \<Rightarrow> True | Some b \<Rightarrow> ev_encoder_stationary (gather ev es) = b)"
proof (induction es rule: rev_induct)
  case (snoc e es)
  then show ?case by (cases e) (auto simp: on_authority_state_def split: option.splits)
qed simp

lemma gather_barrier:
  "ev_quiescence_started_at (gather ev es) = ev_quiescence_started_at ev"
  "ev_quiescence_runtime_epoch (gather ev es) = ev_quiescence_runtime_epoch ev"
proof (induction es rule: rev_induct)
  case (snoc e es)
  { case 1 show ?case using snoc by (cases e) (auto simp: on_authority_state_def) }
  { case 2 show ?case using snoc by (cases e) (auto simp: on_authority_state_def) }
qed simp_all

lemma gather_revoked:
  assumes "ev_quiescence_started_at ev = Some armed" "ev_authority_revoked_at ev = None"
    and "ev_authority_revoked_at (gather ev es) = Some revoked"
  shows "\<exists>authority. AuthorityState (ev_quiescence_runtime_epoch ev) True authority revoked \<in> set es
    \<and> authority \<noteq> AUTHORITY_PADDOCK_MANUAL \<and> fle armed revoked"
  using assms(3)
proof (induction es rule: rev_induct)
  case (snoc e es)
  then show ?case
    by (cases e) (auto simp: on_authority_state_def gather_barrier assms(1) split: if_splits)
qed (simp add: assms)

lemma barrier_confirms:
  assumes "fst (quiescence_ready (gather (begin_quiescence ev epoch armed) es))"
    and older: "case ev_encoder_at ev of None \<Rightarrow> True | Some t \<Rightarrow> fle t armed"
  shows "confirmed_stop epoch armed (ev_encoder_stationary ev) es"
proof -
  let ?ev0 = "begin_quiescence ev epoch armed"
  have b: "ev_quiescence_started_at ?ev0 = Some armed" "ev_authority_revoked_at ?ev0 = None"
    "ev_quiescence_runtime_epoch ?ev0 = epoch" "ev_encoder_at ?ev0 = ev_encoder_at ev"
    "ev_encoder_stationary ?ev0 = ev_encoder_stationary ev"
    by (simp_all add: begin_quiescence_def)
  obtain revoked t where r: "ev_authority_revoked_at (gather ?ev0 es) = Some revoked"
    "ev_encoder_at (gather ?ev0 es) = Some t" "\<not> fle t revoked" "ev_encoder_stationary (gather ?ev0 es)"
    using assms(1) by (auto simp: quiescence_ready_def split: option.splits if_splits)
  obtain authority where a: "AuthorityState epoch True authority revoked \<in> set es"
    "authority \<noteq> AUTHORITY_PADDOCK_MANUAL" "fle armed revoked"
    using gather_revoked [OF b(1,2) r(1)] b(3) by auto
  have "last_sample es \<noteq> None"
    using gather_encoder [of ?ev0 es] r(2-3) older fle_trans [OF _ a(3)] b(4) by (auto split: option.splits)
  then obtain t' flag where s': "last_sample es = Some (t', flag)" by auto
  then have s: "last_sample es = Some (t, flag)" "flag = None \<or> flag = Some True"
    using gather_encoder [of ?ev0 es] r(2,4) by (cases flag; simp)+
  have "last_flag (ev_encoder_stationary ev) es" using gather_flag [of ?ev0 es] r(4) b(5) by simp
  then show ?thesis using a r(3) s unfolding confirmed_stop_def by blast
qed

lemma quiescence_polls_reached:
  "list_ex fst (snd (quiescence_polls ev ess)) \<Longrightarrow>
     \<exists>k < length ess. fst (quiescence_ready (gather ev (concat (take (Suc k) ess))))"
proof (induction ess arbitrary: ev)
  case (Cons es ess)
  show ?case
  proof (cases "fst (quiescence_ready (gather ev es))")
    case True
    then show ?thesis by (intro exI [of _ 0]) simp
  next
    case False
    then obtain k where "k < length ess" "fst (quiescence_ready (gather (gather ev es) (concat (take (Suc k) ess))))"
      using Cons by (auto simp: case_prod_unfold Let_def)
    then show ?thesis by (intro exI [of _ "Suc k"]) simp
  qed
qed simp

lemma quiescence_wait_result: "snd (wait_for_quiescence last_reason rt polls) = Inr () \<longleftrightarrow> list_ex fst polls"
proof (induction polls arbitrary: last_reason rt)
  case (Cons p polls)
  then show ?case by (cases p) simp
qed simp

lemma effects_after:
  "adds rt es rt' \<Longrightarrow> new_effects rt rt' = es" "quiet rt rt' \<Longrightarrow> \<exists>ps. adds rt (map ME_publish ps) rt'"
  by (simp add: adds_def new_effects_def) (rule adds_quiet)

lemma new_map_stop_quiesced:
  assumes "ME_stop u \<in> set (new_effects rt (mode_transition w rt MODE_MAPPING request_id amap OP_NEW_MAP))"
  shows "arms_barrier rt MODE_MAPPING request_id OP_NEW_MAP \<and> list_ex fst (tw_quiescence w)"
proof -
  let ?s = "rt_state rt" and ?d = "''starting fresh mapping session''"
  let ?rt2 = "set_state (act rt ME_quiesce) (begun ?s request_id ?d)"
  have newer: "rs_accepted_request_id ?s < request_id"
    using assms by (rule contrapos_pp) (simp add: mode_transition_def new_effects_def)
  have armed: "rs_lifecycle ?s = STABLE \<and> rs_mode ?s = MODE_MAPPING \<and> truthy (rs_mapping_session_id ?s)"
    using assms by (rule contrapos_pp) (use newer in \<open>auto simp: mode_transition_def new_effects_def set_state_def act_def Let_def\<close>)
  obtain rt3 r where q: "wait_for_quiescence [] ?rt2 (tw_quiescence w) = (rt3, r)" by fastforce
  obtain ps where "adds ?rt2 (map ME_publish ps) rt3"
    using adds_quiet quiet_quiescence [of ?rt2 "[]" "tw_quiescence w"] q by (metis fst_conv)
  then have e: "rt_effects rt3 = rt_effects rt @ ME_quiesce # ME_publish (begun ?s request_id ?d) # map ME_publish ps"
    by (simp add: adds_def set_state_def act_def)
  have "list_ex fst (tw_quiescence w)"
  proof (rule ccontr)
    assume "\<not> list_ex fst (tw_quiescence w)"
    then obtain x where "r = Inl x"
      using quiescence_wait_result [of "[]" ?rt2 "tw_quiescence w"] q by (cases r) auto
    then have "ME_stop u \<notin> set (new_effects rt (mode_transition w rt MODE_MAPPING request_id amap OP_NEW_MAP))"
      using newer armed q e
      by (auto simp: mode_transition_def begun_def Let_def new_effects_def set_state_def act_def split: sum.split prod.split)
    then show False using assms by simp
  qed
  then show ?thesis using newer armed by (simp add: arms_barrier_def)
qed

text \<open>
  The race of the two writes: a poll between them passes the barrier with the
  time of a sample that reports motion, which the next poll would refuse.
\<close>

lemma torn_sample_passes_barrier:
  fixes ev defines "ev0 \<equiv> begin_quiescence ev 1 (Fin 1)"
  defines "es \<equiv> [AuthorityState 1 True 0 (Fin 2), EncoderReceived (Fin 3)]"
  assumes "ev_encoder_stationary ev"
  shows "quiescence_ready (gather ev0 es) = (True, [])"
    "quiescence_ready (gather ev0 (es @ [EncoderStationary False])) = (False, ''braking; encoder still reports motion'')"
  using assms(3) by (simp_all add: ev0_def es_def begin_quiescence_def gather_def on_authority_state_def
      AUTHORITY_PADDOCK_MANUAL_def quiescence_ready_def)

text \<open>
  C34. A NEW MAP request that stops anything came from the owner of the active
  control lease, found a stable mapping session, and was preceded, between the
  arming of the barrier and the stop, by an authority state of the runtime's
  own epoch that brakes and is not manual control and, as the last encoder
  sample, a later one that reports standstill. The one exception is a poll
  between the two writes of an encoder callback, which sees the later sample
  with the flag stored before it: then it is that flag that reports standstill.
\<close>

theorem new_map_waits_for_standstill:
  assumes op: "mq_operation q = OP_NEW_MAP"
    and stopped: "ME_stop u \<in> set (new_effects (mn_runtime n) (mn_runtime (on_request w n q)))"
    and older: "case ev_encoder_at (mn_evidence n) of None \<Rightarrow> True | Some t \<Rightarrow> fle t (qw_begin w)"
  shows "mn_lease_active n \<and> mq_lease_id q = mn_lease_id n \<and> mq_requested_mode q = mode_number MODE_MAPPING
    \<and> arms_barrier (mn_runtime n) MODE_MAPPING (mq_request_id q) OP_NEW_MAP
    \<and> (\<exists>k < length (qw_quiescence w). confirmed_stop (rs_runtime_epoch (rt_state (mn_runtime n))) (qw_begin w)
          (ev_encoder_stationary (mn_evidence n)) (concat (take (Suc k) (qw_quiescence w))))"
proof -
  let ?rt = "mn_runtime n"
  have none: "ME_stop u \<notin> set (new_effects ?rt (mn_runtime (say n t)))" for t by (simp add: say_def new_effects_def)
  have guards: "mn_lease_active n" "mq_lease_id q = mn_lease_id n" "requested_mode_of (mq_requested_mode q) = Some MODE_MAPPING"
    using stopped none op by (auto simp: on_request_def split: if_splits option.splits)
  obtain ev tw where w: "seen_world w (mn_evidence n) ?rt MODE_MAPPING (mq_request_id q) OP_NEW_MAP = (ev, tw)" by fastforce
  have "mn_runtime (on_request w n q) = mode_transition tw ?rt MODE_MAPPING (mq_request_id q) (mq_autonomy_map q) OP_NEW_MAP"
    using guards op w by (auto simp: on_request_def run_request_def Let_def say_def split: option.splits)
  then have a: "arms_barrier ?rt MODE_MAPPING (mq_request_id q) OP_NEW_MAP" "list_ex fst (tw_quiescence tw)"
    using new_map_stop_quiesced stopped by auto
  have "list_ex fst (snd (quiescence_polls (begin_quiescence (mn_evidence n) (rs_runtime_epoch (rt_state ?rt)) (qw_begin w))
      (qw_quiescence w)))"
    using a w by (auto simp: seen_world_def barrier_polls_def armed_evidence_def Let_def split: prod.splits)
  then obtain k where "k < length (qw_quiescence w)" "confirmed_stop (rs_runtime_epoch (rt_state ?rt)) (qw_begin w)
      (ev_encoder_stationary (mn_evidence n)) (concat (take (Suc k) (qw_quiescence w)))"
    using quiescence_polls_reached barrier_confirms [OF _ older] by blast
  then show ?thesis
    using guards a(1) by (auto simp: requested_mode_of_def split: if_splits)
qed

section \<open>Runs of the node\<close>

text \<open>The node keeps the runtime's invariant: what it publishes of its own, the heartbeat, is the current state.\<close>

definition node_ok :: "mode_node \<Rightarrow> bool" where
  "node_ok n = rt_inv (mn_runtime n)"

definition node_initial :: "mode_node \<Rightarrow> bool" where
  "node_initial n = (\<exists>map_file w now. n = new_mode_node map_file w now)"

lemma follows_heartbeat: "follows rt (act rt (ME_publish (rt_state rt)))"
  unfolding follows_def rt_inv_def by (auto simp: act_def)

lemma follows_on_request: "follows (mn_runtime n) (mn_runtime (on_request w n q))"
  unfolding on_request_def run_request_def Let_def say_def
  by (auto simp: follows_transition split: option.split prod.split)

lemma follows_node_step: "follows (mn_runtime n) (mn_runtime (mode_node_step n i))"
proof (cases i)
  case (NI_refresh busy p)
  then show ?thesis
    using follows_refresh follows_trans [OF follows_refresh follows_heartbeat]
    by (simp add: on_refresh_timer_def Let_def)
qed (simp_all add: on_lease_def follows_on_request)

interpretation mode_node_exec: counting_machine node_initial mode_node_step node_ok "\<lambda>n. rs_runtime_epoch (rt_state (mn_runtime n))"
proof unfold_locales
  fix n i
  show "node_ok n \<Longrightarrow> node_ok (mode_node_step n i)"
    "node_ok n \<Longrightarrow> rs_runtime_epoch (rt_state (mn_runtime n)) \<le> rs_runtime_epoch (rt_state (mn_runtime (mode_node_step n i)))"
    using follows_node_step [of n i] by (simp_all add: follows_def node_ok_def)
next
  fix n
  assume "node_initial n"
  then show "node_ok n"
    using follows_reconcile new_mode_rt_inv by (auto simp: node_initial_def node_ok_def new_mode_node_def Let_def follows_def)
qed

lemma node_published_ok: "node_initial n \<Longrightarrow> list_all published_ok (rt_effects (mn_runtime (run_steps mode_node_step n xs)))"
  using mode_node_exec.invar_reachable [of n xs] by (simp add: node_ok_def rt_inv_published)

section \<open>An example\<close>

definition demo_node :: mode_node where
  "demo_node = \<lparr> mn_lease_id = ''a'', mn_lease_active = True,
     mn_evidence = no_evidence\<lparr>ev_encoder_at := Some (Fin 0), ev_encoder_stationary := True\<rparr>,
     mn_runtime = (new_mode_rt None)\<lparr>rt_state := (rt_state (new_mode_rt None))\<lparr>rs_mode := MODE_MAPPING,
       rs_runtime_epoch := 1, rs_mapping_session_id := ''1-ab''\<rparr>\<rparr>,
     mn_log = [], mn_down = False \<rparr>"

definition demo_poll :: poll where
  "demo_poll = \<lparr> po_events = [], po_now = Fin 4, po_unit = Inr busy_unit, po_nodes = [], po_publishers = (\<lambda>_. []),
     po_tf = (\<lambda>_ _. True) \<rparr>"

definition demo_barrier :: "evidence_event list list" where
  "demo_barrier = [[AuthorityState 1 True 0 (Fin 2)], [EncoderReceived (Fin 3), EncoderStationary True]]"

definition demo_request_world :: request_world where
  "demo_request_world = \<lparr> qw_begin = Fin 1, qw_quiescence = demo_barrier, qw_previous = demo_poll, qw_ready = [],
     qw_final = demo_poll, qw_end = Fin 4,
     qw_world = demo_world\<lparr>tw_stop := demo_stop\<lparr>sw_stop := (\<lambda>_. Some ''refused'')\<rparr>\<rparr> \<rparr>"

definition demo_request :: mode_request where
  "demo_request = \<lparr> mq_lease_id = ''a'', mq_requested_mode = 1, mq_operation = OP_NEW_MAP, mq_request_id = 1,
     mq_autonomy_map = [] \<rparr>"

lemma refused_stop_runs:
  assumes "sw_stop (tw_stop w) = (\<lambda>_. Some ''refused'')"
  shows "\<exists>es. adds rt es (perform_or_fail w rt m amap) \<and> ME_stop MAPPING_UNIT \<in> set es"
proof -
  obtain rt1 e where s: "stop_all True (tw_stop w) rt = (rt1, Inl (RuntimeError e))"
    using assms by (simp add: stop_all_def Let_def MODE_UNITS_def List.map_filter_def)
  obtain ps qs where a: "adds rt (map ME_publish ps @ stops @ map ME_publish qs) rt1"
    using stop_all_adds [of rt True "tw_stop w"] s by auto
  obtain d where "perform_or_fail w rt m amap = fail_mode (tw_fail w) rt1 d"
    by (simp add: perform_or_fail_def perform_def s)
  then show ?thesis using adds_trans [OF a fail_mode_adds] by (fastforce simp: stops_def MODE_UNITS_def)
qed

lemma demo_node_polls:
  "snd (quiescence_polls (begin_quiescence (mn_evidence demo_node) 1 (Fin 1)) demo_barrier)
     = [(False, ''waiting for post-revocation encoder evidence''), (True, [])]"
  by (simp add: demo_barrier_def begin_quiescence_def demo_node_def no_evidence_def gather_def on_authority_state_def
      AUTHORITY_PADDOCK_MANUAL_def quiescence_ready_def)

lemma demo_node_stops:
  "ME_stop MAPPING_UNIT \<in> set (new_effects (mn_runtime demo_node) (mn_runtime (on_request demo_request_world demo_node demo_request)))"
proof -
  let ?rt = "mn_runtime demo_node"
  obtain ev tw where w: "seen_world demo_request_world (mn_evidence demo_node) ?rt MODE_MAPPING 1 OP_NEW_MAP = (ev, tw)" by fastforce
  have f: "rs_lifecycle (rt_state ?rt) = STABLE" "rs_mode (rt_state ?rt) = MODE_MAPPING" "rs_runtime_epoch (rt_state ?rt) = 1"
    "truthy (rs_mapping_session_id (rt_state ?rt))" "rs_accepted_request_id (rt_state ?rt) = 0"
    by (simp_all add: demo_node_def new_mode_rt_def truthy_def)
  then have armed: "arms_barrier ?rt MODE_MAPPING 1 OP_NEW_MAP" by (simp add: arms_barrier_def)
  have tw: "tw_quiescence tw = [(False, ''waiting for post-revocation encoder evidence''), (True, [])]"
    "sw_stop (tw_stop tw) = (\<lambda>_. Some ''refused'')"
    using w armed f(3) demo_node_polls
    by (auto simp: seen_world_def barrier_polls_def armed_evidence_def demo_request_world_def Let_def case_prod_unfold)
  obtain rt3 es where t: "adds ?rt es rt3" "mode_transition tw ?rt MODE_MAPPING 1 [] OP_NEW_MAP = perform_or_fail tw rt3 MODE_MAPPING []"
  proof -
    let ?rt2 = "set_state (act ?rt ME_quiesce) (begun (rt_state ?rt) 1 ''starting fresh mapping session'')"
    obtain rt3 r where q: "wait_for_quiescence [] ?rt2 (tw_quiescence tw) = (rt3, r)" by fastforce
    have r: "r = Inr ()" using quiescence_wait_result [of "[]" ?rt2 "tw_quiescence tw"] q tw(1) by simp
    obtain ps where "adds ?rt2 (map ME_publish ps) rt3"
      using adds_quiet quiet_quiescence [of ?rt2 "[]" "tw_quiescence tw"] q by (metis fst_conv)
    then have "adds ?rt (ME_quiesce # ME_publish (begun (rt_state ?rt) 1 ''starting fresh mapping session'') # map ME_publish ps) rt3"
      by (simp add: adds_def set_state_def act_def)
    moreover have "mode_transition tw ?rt MODE_MAPPING 1 [] OP_NEW_MAP = perform_or_fail tw rt3 MODE_MAPPING []"
      using f q r by (simp add: mode_transition_def Let_def begun_def)
    ultimately show ?thesis by (rule that)
  qed
  obtain fs where fs: "adds rt3 fs (perform_or_fail tw rt3 MODE_MAPPING [])" "ME_stop MAPPING_UNIT \<in> set fs"
    using refused_stop_runs [OF tw(2)] by blast
  have "mn_runtime (on_request demo_request_world demo_node demo_request) = mode_transition tw ?rt MODE_MAPPING 1 [] OP_NEW_MAP"
    using w by (auto simp: on_request_def run_request_def Let_def say_def demo_request_def requested_mode_of_def demo_node_def)
  then show ?thesis using adds_trans [OF t(1) fs(1)] fs(2) t(2) by (simp add: new_effects_def adds_def)
qed

theorem new_map_waits_for_standstill_witness:
  "\<exists>k < length demo_barrier. confirmed_stop 1 (Fin 1) True (concat (take (Suc k) demo_barrier))"
proof -
  have e: "rs_runtime_epoch (rt_state (mn_runtime demo_node)) = 1" "qw_begin demo_request_world = Fin 1"
    "qw_quiescence demo_request_world = demo_barrier"
    "ev_encoder_stationary (mn_evidence demo_node)"
    by (simp_all add: demo_node_def demo_request_world_def)
  have "mq_operation demo_request = OP_NEW_MAP" by (simp add: demo_request_def)
  moreover have "case ev_encoder_at (mn_evidence demo_node) of None \<Rightarrow> True | Some t \<Rightarrow> fle t (qw_begin demo_request_world)"
    by (simp add: demo_node_def demo_request_world_def)
  ultimately show ?thesis using new_map_waits_for_standstill [OF _ demo_node_stops] e by simp
qed

end
