(* ===== verification/AutonomyTuning.thy ===== *)
theory AutonomyTuning
  imports DriveAdapter Teleop "HOL-Library.List_Lexorder" "HOL-Library.Char_ord"
begin

text \<open>
  The shared schema of live speed tuning (\<open>runner_paddock/autonomy_tuning.py\<close>):
  the parameters with their owners, the validation of a complete snapshot and
  the persisted override, and how the snapshot fits the drive adapter that
  receives a part of it. Values come from JSON, so a snapshot may hold anything.
  The order in which Python walks a set is the parameter \<open>walk\<close>.
\<close>

section \<open>Schema\<close>

text \<open>A decoded JSON value; a dictionary keeps the order of its keys.\<close>

datatype tuning_value =
    TV_scalar live_value
  | TV_null
  | TV_list "tuning_value list"
  | TV_dict "(string \<times> tuning_value) list"

definition CONTROLLER_OWNER :: string where "CONTROLLER_OWNER = ''controller''"
definition ADAPTER_OWNER :: string where "ADAPTER_OWNER = ''adapter''"
definition NAVIGATOR_OWNER :: string where "NAVIGATOR_OWNER = ''navigator''"
definition PLANNER_OWNER :: string where "PLANNER_OWNER = ''planner''"

record tuning_parameter =
  tu_owner :: string
  tu_node_name :: string
  tu_parameter_name :: string

definition tuned :: "string \<Rightarrow> string \<Rightarrow> string \<Rightarrow> tuning_parameter" where
  "tuned owner node_name parameter_name =
     \<lparr> tu_owner = owner, tu_node_name = node_name, tu_parameter_name = parameter_name \<rparr>"

definition PARAMETERS :: "(string \<times> tuning_parameter) list" where
  "PARAMETERS =
    [(''desired_linear_vel'', tuned CONTROLLER_OWNER ''/controller_server'' ''FollowPath.desired_linear_vel''),
     (''regulated_linear_scaling_min_speed'', tuned CONTROLLER_OWNER ''/controller_server'' ''FollowPath.regulated_linear_scaling_min_speed''),
     (''regulated_linear_scaling_min_radius'', tuned CONTROLLER_OWNER ''/controller_server'' ''FollowPath.regulated_linear_scaling_min_radius''),
     (''min_lookahead_dist'', tuned CONTROLLER_OWNER ''/controller_server'' ''FollowPath.min_lookahead_dist''),
     (''max_lookahead_dist'', tuned CONTROLLER_OWNER ''/controller_server'' ''FollowPath.max_lookahead_dist''),
     (''lookahead_time'', tuned CONTROLLER_OWNER ''/controller_server'' ''FollowPath.lookahead_time''),
     (''max_allowed_time_to_collision_up_to_carrot'', tuned CONTROLLER_OWNER ''/controller_server'' ''FollowPath.max_allowed_time_to_collision_up_to_carrot''),
     (''maximum_commanded_speed'', tuned ADAPTER_OWNER ''/drive_adapter'' ''maximum_commanded_speed''),
     (''proportional_gain'', tuned ADAPTER_OWNER ''/drive_adapter'' ''proportional_gain''),
     (''integral_gain'', tuned ADAPTER_OWNER ''/drive_adapter'' ''integral_gain''),
     (''feedforward_effort_per_speed'', tuned ADAPTER_OWNER ''/drive_adapter'' ''feedforward_effort_per_speed''),
     (''feedforward_effort_intercept'', tuned ADAPTER_OWNER ''/drive_adapter'' ''feedforward_effort_intercept''),
     (''output_max'', tuned ADAPTER_OWNER ''/drive_adapter'' ''output_max''),
     (''minimum_traversal_speed'', tuned NAVIGATOR_OWNER ''/bt_navigator'' ''speed_policy.minimum_traversal_speed''),
     (''tight_clearance'', tuned NAVIGATOR_OWNER ''/bt_navigator'' ''speed_policy.tight_clearance''),
     (''open_clearance'', tuned NAVIGATOR_OWNER ''/bt_navigator'' ''speed_policy.open_clearance''),
     (''clearance_curve_family'', tuned NAVIGATOR_OWNER ''/bt_navigator'' ''speed_policy.clearance_curve_family''),
     (''clearance_curve_shape'', tuned NAVIGATOR_OWNER ''/bt_navigator'' ''speed_policy.clearance_curve_shape''),
     (''approach_time_s'', tuned NAVIGATOR_OWNER ''/bt_navigator'' ''speed_policy.approach_time_s''),
     (''curvature_window'', tuned NAVIGATOR_OWNER ''/bt_navigator'' ''speed_policy.curvature_window''),
     (''max_lateral_acceleration'', tuned NAVIGATOR_OWNER ''/bt_navigator'' ''speed_policy.max_lateral_acceleration''),
     (''footprint_front'', tuned NAVIGATOR_OWNER ''/bt_navigator'' ''speed_policy.footprint_front''),
     (''footprint_rear'', tuned NAVIGATOR_OWNER ''/bt_navigator'' ''speed_policy.footprint_rear''),
     (''footprint_half_width'', tuned NAVIGATOR_OWNER ''/bt_navigator'' ''speed_policy.footprint_half_width''),
     (''braking_linear'', tuned NAVIGATOR_OWNER ''/bt_navigator'' ''speed_policy.braking_linear''),
     (''braking_constant'', tuned NAVIGATOR_OWNER ''/bt_navigator'' ''speed_policy.braking_constant''),
     (''reaction_time_s'', tuned NAVIGATOR_OWNER ''/bt_navigator'' ''speed_policy.reaction_time_s''),
     (''recovery_acceleration_gain'', tuned NAVIGATOR_OWNER ''/bt_navigator'' ''speed_policy.recovery_acceleration_gain''),
     (''recovery_acceleration_floor'', tuned NAVIGATOR_OWNER ''/bt_navigator'' ''speed_policy.recovery_acceleration_floor''),
     (''cost_penalty'', tuned PLANNER_OWNER ''/planner_server'' ''GridBased.cost_penalty'')]"

definition FIELDS :: "string list" where
  "FIELDS = map fst PARAMETERS"

definition ENGINEERING_FIELDS :: "string list" where
  "ENGINEERING_FIELDS =
     [''proportional_gain'', ''integral_gain'', ''feedforward_effort_per_speed'', ''feedforward_effort_intercept'',
      ''output_max'']"

definition SPEED_PROFILE_FIELDS :: "string list" where
  "SPEED_PROFILE_FIELDS = filter (\<lambda>f. f \<notin> set ENGINEERING_FIELDS \<and> f \<noteq> ''cost_penalty'') FIELDS"

definition NEUTRAL_COMPLETION_VALUES :: "(string \<times> pyfloat) list" where
  "NEUTRAL_COMPLETION_VALUES =
     [(''proportional_gain'', dbl (1 / 1000)), (''integral_gain'', Fin 0),
      (''feedforward_effort_per_speed'', dbl (1 / 10 ^ 6)), (''feedforward_effort_intercept'', Fin 0),
      (''output_max'', MAXIMUM_OUTPUT_AUTHORITY), (''cost_penalty'', Fin 2)]"

text \<open>Reading a field of a validated snapshot, which has every field.\<close>

definition tval :: "(string \<times> pyfloat) list \<Rightarrow> string \<Rightarrow> pyfloat" where
  "tval n f = (case map_of n f of Some x \<Rightarrow> x | None \<Rightarrow> NaN)"

definition values_for_owner :: "(string \<times> pyfloat) list \<Rightarrow> string \<Rightarrow> (string \<times> pyfloat) list" where
  "values_for_owner n owner =
     map (\<lambda>(field, spec). (tu_parameter_name spec, tval n field)) (filter (\<lambda>(field, spec). tu_owner spec = owner) PARAMETERS)"

section \<open>Validation\<close>

fun number_of :: "string \<Rightarrow> tuning_value \<Rightarrow> pyfloat result" where
  "number_of name (TV_scalar (LV_float x)) =
     (if isfinite x then Inr x else Inl (ValueError (name @ '' must be a finite number'')))"
| "number_of name (TV_scalar (LV_int k)) = float_of_int k"
| "number_of name _ = Inl (ValueError (name @ '' must be a finite number''))"

fun normalize_values :: "(string \<times> tuning_value) list \<Rightarrow> (string \<times> pyfloat) list result" where
  "normalize_values [] = Inr []"
| "normalize_values ((name, v) # rest) =
     bind_result (number_of name v) (\<lambda>x. bind_result (normalize_values rest) (\<lambda>xs. Inr ((name, x) # xs)))"

definition POSITIVE_FIELDS :: "string list" where
  "POSITIVE_FIELDS = filter (\<lambda>f. f \<notin> {''integral_gain'', ''feedforward_effort_intercept'', ''reaction_time_s'',
     ''approach_time_s'', ''clearance_curve_family'', ''tight_clearance'', ''footprint_rear''}) FIELDS"

fun first_failure :: "(bool \<times> string) list \<Rightarrow> unit result" where
  "first_failure [] = Inr ()"
| "first_failure ((bad, message) # rest) = (if bad then Inl (ValueError message) else first_failure rest)"

definition tuned_maximum_feedforward :: "(string \<times> pyfloat) list \<Rightarrow> pyfloat" where
  "tuned_maximum_feedforward n =
     fadd (fmul (tval n ''feedforward_effort_per_speed'') (tval n ''maximum_commanded_speed''))
       (tval n ''feedforward_effort_intercept'')"

definition tuned_minimum_feedforward :: "(string \<times> pyfloat) list \<Rightarrow> pyfloat" where
  "tuned_minimum_feedforward n =
     fadd (fmul (tval n ''feedforward_effort_per_speed'') (Fin (1 / 4))) (tval n ''feedforward_effort_intercept'')"

definition limits :: "(string \<times> pyfloat) list \<Rightarrow> (bool \<times> string) list" where
  "limits n =
     [(flt (tval n ''integral_gain'') (Fin 0), ''integral_gain must be nonnegative''),
      (flt (tval n ''reaction_time_s'') (Fin 0), ''reaction_time_s must be nonnegative''),
      (flt (tval n ''approach_time_s'') (Fin 0), ''approach_time_s must be nonnegative''),
      (flt (tval n ''tight_clearance'') (Fin 0), ''tight_clearance must be nonnegative''),
      (flt (tval n ''footprint_rear'') (Fin 0), ''footprint_rear must be nonnegative''),
      (\<not> (feq (tval n ''clearance_curve_family'') (Fin 0) \<or> feq (tval n ''clearance_curve_family'') (Fin 1)
           \<or> feq (tval n ''clearance_curve_family'') (Fin 2)),
       ''clearance_curve_family must be linear, power, or smoothstep''),
      (fle (tval n ''open_clearance'') (tval n ''tight_clearance''), ''open_clearance must exceed tight_clearance''),
      (flt (tval n ''desired_linear_vel'') (tval n ''regulated_linear_scaling_min_speed''),
       ''regulated minimum must not exceed nominal speed''),
      (flt (tval n ''maximum_commanded_speed'') (tval n ''desired_linear_vel''),
       ''nominal speed must not exceed adapter ceiling''),
      (flt MAXIMUM_COMMANDED_SPEED (tval n ''maximum_commanded_speed''), ''maximum_commanded_speed must not exceed 2.0''),
      (flt (tval n ''max_lookahead_dist'') (tval n ''min_lookahead_dist''),
       ''minimum lookahead must not exceed maximum lookahead''),
      (flt (fmin (tuned_maximum_feedforward n) (tuned_minimum_feedforward n)) (Fin 0),
       ''feedforward must be nonnegative in the command range''),
      (flt MAXIMUM_OUTPUT_AUTHORITY (tval n ''output_max''), ''output_max must not exceed 0.3''),
      (flt (tval n ''output_max'') (tuned_maximum_feedforward n), ''output_max must reach maximum feedforward'')]"

definition validate_values ::
  "(string list \<Rightarrow> string list) \<Rightarrow> (string \<times> tuning_value) list \<Rightarrow> (string \<times> pyfloat) list result" where
  "validate_values walk vs =
     (if set (map fst vs) \<noteq> set FIELDS then Inl (ValueError ''tuning fields mismatch'')
      else bind_result (normalize_values vs) (\<lambda>n.
        bind_result (check_positive (map (\<lambda>f. (f, tval n f)) (walk POSITIVE_FIELDS))) (\<lambda>_.
          bind_result (first_failure (limits n)) (\<lambda>_. Inr n))))"

definition dict_merge :: "('k \<times> 'v) list \<Rightarrow> ('k \<times> 'v) list \<Rightarrow> ('k \<times> 'v) list" where
  "dict_merge d updates = foldl (\<lambda>d p. dict_set d (fst p) (snd p)) d updates"

definition validate_speed_profile_snapshot ::
  "(string list \<Rightarrow> string list) \<Rightarrow> (string \<times> tuning_value) list \<Rightarrow> (string \<times> tuning_value) list
     \<Rightarrow> (string \<times> pyfloat) list result" where
  "validate_speed_profile_snapshot walk snapshot current_values =
     (if set (map fst snapshot) \<noteq> set SPEED_PROFILE_FIELDS
      then Inl (ValueError ''speed profile fields mismatch'')
      else bind_result (validate_values walk (dict_merge current_values snapshot)) (\<lambda>n.
        Inr (map (\<lambda>f. (f, tval n f)) SPEED_PROFILE_FIELDS)))"

section \<open>What an accepted snapshot satisfies\<close>

definition walks :: "(string list \<Rightarrow> string list) \<Rightarrow> bool" where
  "walks walk \<longleftrightarrow> set (walk POSITIVE_FIELDS) = set POSITIVE_FIELDS"

definition snapshot_ok :: "(string \<times> pyfloat) list \<Rightarrow> bool" where
  "snapshot_ok n \<longleftrightarrow> (\<forall>f \<in> set FIELDS. isfinite (tval n f)) \<and> (\<forall>f \<in> set POSITIVE_FIELDS. flt (Fin 0) (tval n f))
     \<and> list_all (\<lambda>c. \<not> fst c) (limits n)"

lemma first_failure_ok: "first_failure cs = Inr () \<longleftrightarrow> list_all (\<lambda>c. \<not> fst c) cs"
  by (induction cs rule: first_failure.induct) simp_all

lemma normalize_keys: "normalize_values vs = Inr n \<Longrightarrow> map fst n = map fst vs"
  by (induction vs arbitrary: n rule: normalize_values.induct) (auto simp: bind_result_Inr_iff)

lemma number_finite: "number_of name v = Inr x \<Longrightarrow> isfinite x"
  by (induction name v rule: number_of.induct)
    (auto simp: float_of_int_def isfinite_iff eq_commute [of "Fin _" "dbl _"] split: if_splits pyfloat.splits)

lemma normalize_lookup:
  "normalize_values vs = Inr n \<Longrightarrow> map_of n f = (case map_of vs f of None \<Rightarrow> None | Some v \<Rightarrow>
     (case number_of f v of Inr x \<Rightarrow> Some x | Inl e \<Rightarrow> None))"
  by (induction vs arbitrary: n rule: normalize_values.induct) (auto simp: bind_result_Inr_iff)

lemma normalize_finite:
  assumes "normalize_values vs = Inr n" "f \<in> set (map fst vs)"
  shows "isfinite (tval n f)"
proof -
  have "f \<in> set (map fst n)" using assms normalize_keys by metis
  then obtain x where x: "map_of n f = Some x" by (metis map_of_eq_None_iff not_None_eq set_map)
  then have "\<exists>v. map_of vs f = Some v \<and> number_of f v = Inr x"
    using normalize_lookup [OF assms(1), of f] by (auto split: option.splits sum.splits)
  then show ?thesis using x number_finite by (auto simp: tval_def)
qed

definition finite_float :: "tuning_value \<Rightarrow> bool" where
  "finite_float v \<longleftrightarrow> (\<exists>x. v = TV_scalar (LV_float x) \<and> isfinite x)"

lemma normalize_floats: "\<forall>p \<in> set vs. finite_float (snd p) \<Longrightarrow> \<exists>n. normalize_values vs = Inr n"
  by (induction vs rule: normalize_values.induct) (auto simp: finite_float_def)

lemma normalized_value:
  assumes "normalize_values vs = Inr n" "map_of vs f = Some (TV_scalar (LV_float x))" "isfinite x"
  shows "tval n f = x"
  using normalize_lookup [OF assms(1), of f] assms(2,3) by (simp add: tval_def)

lemma positive_is_field: "f \<in> set POSITIVE_FIELDS \<Longrightarrow> f \<in> set FIELDS"
  by (simp add: POSITIVE_FIELDS_def)

lemma validate_values_iff:
  assumes "walks walk"
  shows "validate_values walk vs = Inr n \<longleftrightarrow> set (map fst vs) = set FIELDS \<and> normalize_values vs = Inr n \<and> snapshot_ok n"
proof (cases "set (map fst vs) = set FIELDS \<and> normalize_values vs = Inr n")
  case True
  then have fin: "isfinite (tval n f)" if "f \<in> set FIELDS" for f using normalize_finite that by blast
  have pos: "flt (Fin 0) (tval n f) \<longleftrightarrow> \<not> fle (tval n f) (Fin 0)" if "f \<in> set POSITIVE_FIELDS" for f
    using fin [OF positive_is_field [OF that]] by (auto simp: isfinite_iff)
  have "check_positive (map (\<lambda>f. (f, tval n f)) (walk POSITIVE_FIELDS)) = Inr ()
      \<longleftrightarrow> (\<forall>f \<in> set POSITIVE_FIELDS. flt (Fin 0) (tval n f))"
    using assms pos by (auto simp: check_positive_ok walks_def)
  then show ?thesis using True fin
    by (auto simp: validate_values_def snapshot_ok_def bind_result_Inr_iff first_failure_ok [symmetric])
next
  case False
  then show ?thesis by (auto simp: validate_values_def bind_result_Inr_iff)
qed

lemma snapshot_limits:
  assumes "snapshot_ok n"
  shows "\<not> flt (tval n ''integral_gain'') (Fin 0)" "\<not> flt (tval n ''reaction_time_s'') (Fin 0)"
    "\<not> flt (tval n ''tight_clearance'') (Fin 0)" "\<not> fle (tval n ''open_clearance'') (tval n ''tight_clearance'')"
    "\<not> flt (tval n ''desired_linear_vel'') (tval n ''regulated_linear_scaling_min_speed'')"
    "\<not> flt (tval n ''maximum_commanded_speed'') (tval n ''desired_linear_vel'')"
    "\<not> flt MAXIMUM_COMMANDED_SPEED (tval n ''maximum_commanded_speed'')"
    "\<not> flt (fmin (tuned_maximum_feedforward n) (tuned_minimum_feedforward n)) (Fin 0)"
    "\<not> flt MAXIMUM_OUTPUT_AUTHORITY (tval n ''output_max'')"
    "\<not> flt (tval n ''output_max'') (tuned_maximum_feedforward n)"
  using assms by (simp_all add: snapshot_ok_def limits_def)

lemma field_members:
  "''feedforward_effort_per_speed'' \<in> set POSITIVE_FIELDS" "''maximum_commanded_speed'' \<in> set POSITIVE_FIELDS"
  "''output_max'' \<in> set POSITIVE_FIELDS" "''proportional_gain'' \<in> set POSITIVE_FIELDS"
  "''desired_linear_vel'' \<in> set POSITIVE_FIELDS"
  "''integral_gain'' \<in> set FIELDS" "''feedforward_effort_intercept'' \<in> set FIELDS"
  by (simp_all add: POSITIVE_FIELDS_def FIELDS_def PARAMETERS_def)

section \<open>The snapshot and the drive adapter\<close>

text \<open>The feedforward of a speed between two others lies between theirs.\<close>

lemma linear_feedforward_between:
  assumes "0 \<le> e" "0 \<le> a" "a \<le> \<bar>s\<bar>" "\<bar>s\<bar> \<le> b"
    and top: "fle (linear_feedforward (Fin b) (Fin e) (Fin d)) (Fin ub)"
    and low: "fle (Fin lb) (linear_feedforward (Fin a) (Fin e) (Fin d))"
  shows "fle (Fin lb) (linear_feedforward (Fin s) (Fin e) (Fin d))
    \<and> fle (linear_feedforward (Fin s) (Fin e) (Fin d)) (Fin ub)"
proof -
  have b: "0 \<le> b" using assms by linarith
  have ord: "0 \<le> e * a" "e * a \<le> e * \<bar>s\<bar>" "e * \<bar>s\<bar> \<le> e * b" using assms(1-4) by (simp_all add: mult_left_mono)
  obtain pb where pb: "dbl (e * b) = Fin pb"
    using top b dbl_cases [of "e * b"] ord dbl_mono [of 0 "e * b"]
    by (cases "dbl (e * b)") (auto simp: linear_feedforward_def)
  obtain ps where ps: "dbl (e * \<bar>s\<bar>) = Fin ps"
    using dbl_mono [OF ord(3)] dbl_mono [of 0 "e * \<bar>s\<bar>"] ord pb by (cases "dbl (e * \<bar>s\<bar>)") auto
  obtain pa where pa: "dbl (e * a) = Fin pa"
    using dbl_mono [OF ord(2)] dbl_mono [of 0 "e * a"] ord ps by (cases "dbl (e * a)") auto
  have o: "pa \<le> ps" "ps \<le> pb" using dbl_mono [OF ord(2)] dbl_mono [OF ord(3)] by (simp_all add: pa ps pb)
  have v: "linear_feedforward (Fin s) (Fin e) (Fin d) = dbl (ps + d)" "linear_feedforward (Fin b) (Fin e) (Fin d) = dbl (pb + d)"
    "linear_feedforward (Fin a) (Fin e) (Fin d) = dbl (pa + d)"
    using b assms(2) by (simp_all add: linear_feedforward_def ps pb pa)
  show ?thesis unfolding v(1)
    using fle_trans [OF low [unfolded v(3)] dbl_mono [of "pa + d" "ps + d"]]
      fle_trans [OF dbl_mono [of "ps + d" "pb + d"] top [unfolded v(2)]] o by simp
qed

lemma snapshot_numbers:
  assumes "snapshot_ok n"
  obtains e m i u p g where
    "tval n ''feedforward_effort_per_speed'' = Fin e" "0 < e" "tval n ''maximum_commanded_speed'' = Fin m" "0 < m"
    "tval n ''feedforward_effort_intercept'' = Fin i" "tval n ''output_max'' = Fin u" "0 < u"
    "tval n ''proportional_gain'' = Fin p" "0 < p" "tval n ''integral_gain'' = Fin g" "0 \<le> g"
    "m \<le> 2" "fle (Fin u) MAXIMUM_OUTPUT_AUTHORITY"
    "fle (linear_feedforward (Fin m) (Fin e) (Fin i)) (Fin u)"
    "fle (Fin 0) (linear_feedforward (Fin m) (Fin e) (Fin i))"
    "fle (Fin 0) (linear_feedforward (Fin (1 / 4)) (Fin e) (Fin i))"
proof -
  have pos: "\<exists>q > 0. tval n f = Fin q" if "f \<in> set POSITIVE_FIELDS" for f
  proof -
    have "isfinite (tval n f)" using assms positive_is_field [OF that] by (simp add: snapshot_ok_def)
    then have "\<exists>q. tval n f = Fin q" by (simp add: isfinite_iff)
    moreover have "flt (Fin 0) (tval n f)" using assms that by (simp add: snapshot_ok_def)
    ultimately show ?thesis by auto
  qed
  obtain e m u p where v: "tval n ''feedforward_effort_per_speed'' = Fin e" "0 < e" "tval n ''maximum_commanded_speed'' = Fin m"
      "0 < m" "tval n ''output_max'' = Fin u" "0 < u" "tval n ''proportional_gain'' = Fin p" "0 < p"
    using pos field_members by metis
  have fin: "isfinite (tval n f)" if "f \<in> set FIELDS" for f using assms that by (simp add: snapshot_ok_def)
  obtain i g where w: "tval n ''feedforward_effort_intercept'' = Fin i" "tval n ''integral_gain'' = Fin g"
    using fin [OF field_members(6)] fin [OF field_members(7)] isfinite_iff by blast
  note lim = snapshot_limits [OF assms]
  have ff: "tuned_maximum_feedforward n = linear_feedforward (Fin m) (Fin e) (Fin i)"
    "tuned_minimum_feedforward n = linear_feedforward (Fin (1 / 4)) (Fin e) (Fin i)"
    using v w by (simp_all add: tuned_maximum_feedforward_def tuned_minimum_feedforward_def linear_feedforward_def)
  have nan: "linear_feedforward (Fin s) (Fin e) (Fin i) \<noteq> NaN" for s
    using v(2) by (cases "dbl (e * \<bar>s\<bar>)") (simp_all add: linear_feedforward_def)
  show ?thesis
  proof (rule that [OF v(1-4) w(1) v(5-8) w(2)])
    show "0 \<le> g" using lim(1) w(2) by simp
    show "m \<le> 2" using lim(7) v(3) by (simp add: MAXIMUM_COMMANDED_SPEED_def)
    show "fle (Fin u) MAXIMUM_OUTPUT_AUTHORITY"
      using lim(9) v(5) by (simp add: not_flt_iff MAXIMUM_OUTPUT_AUTHORITY_def)
    show "fle (linear_feedforward (Fin m) (Fin e) (Fin i)) (Fin u)" using lim(10) v(5) ff(1) nan by (simp add: not_flt_iff)
    have "\<not> flt (fmin (linear_feedforward (Fin m) (Fin e) (Fin i)) (linear_feedforward (Fin (1 / 4)) (Fin e) (Fin i))) (Fin 0)"
      using lim(8) ff by simp
    then show "fle (Fin 0) (linear_feedforward (Fin m) (Fin e) (Fin i))" "fle (Fin 0) (linear_feedforward (Fin (1 / 4)) (Fin e) (Fin i))"
      using nan [of m] nan [of "1 / 4"] not_flt_iff [OF _ nan, of "Fin 0"] not_flt_iff [OF nan nan]
      by (auto simp: fmin_def not_flt_iff split: if_splits dest: flt_imp_fle fle_trans)
  qed
qed

text \<open>
  C36. For every speed the adapter may command under an accepted snapshot, from
  0.25 m/s up to the snapshot's ceiling, its feedforward is neither negative
  nor above the snapshot's output limit, and that limit lies within the output
  authority; rounding included.
\<close>

theorem accepted_feedforward_in_range:
  assumes "walks walk" "validate_values walk vs = Inr n"
    and "1 / 4 \<le> \<bar>s\<bar>" "fle (Fin \<bar>s\<bar>) (tval n ''maximum_commanded_speed'')"
  shows "fle (Fin 0) (linear_feedforward (Fin s) (tval n ''feedforward_effort_per_speed'') (tval n ''feedforward_effort_intercept''))
    \<and> fle (linear_feedforward (Fin s) (tval n ''feedforward_effort_per_speed'') (tval n ''feedforward_effort_intercept''))
        (tval n ''output_max'')
    \<and> fle (tval n ''output_max'') MAXIMUM_OUTPUT_AUTHORITY"
proof -
  have "snapshot_ok n" using assms(1,2) validate_values_iff by blast
  then show ?thesis
  proof (rule snapshot_numbers)
    fix e m i u p g
    assume f: "tval n ''feedforward_effort_per_speed'' = Fin e" "0 < e" "tval n ''maximum_commanded_speed'' = Fin m"
      "tval n ''feedforward_effort_intercept'' = Fin i" "tval n ''output_max'' = Fin u" "fle (Fin u) MAXIMUM_OUTPUT_AUTHORITY"
      "fle (linear_feedforward (Fin m) (Fin e) (Fin i)) (Fin u)" "fle (Fin 0) (linear_feedforward (Fin (1 / 4)) (Fin e) (Fin i))"
    then show ?thesis using linear_feedforward_between [OF _ _ assms(3) _ f(7,8)] assms(4) by simp
  qed
qed

definition adapter_updates :: "(string \<times> pyfloat) list \<Rightarrow> (string \<times> live_value) list" where
  "adapter_updates n = map (\<lambda>(name, x). (name, LV_float x)) (values_for_owner n ADAPTER_OWNER)"

lemma adapter_values:
  "values_for_owner n ADAPTER_OWNER =
     [(''maximum_commanded_speed'', tval n ''maximum_commanded_speed''), (''proportional_gain'', tval n ''proportional_gain''),
      (''integral_gain'', tval n ''integral_gain''), (''feedforward_effort_per_speed'', tval n ''feedforward_effort_per_speed''),
      (''feedforward_effort_intercept'', tval n ''feedforward_effort_intercept''), (''output_max'', tval n ''output_max'')]"
  by (simp add: values_for_owner_def PARAMETERS_def tuned_def CONTROLLER_OWNER_def ADAPTER_OWNER_def NAVIGATOR_OWNER_def
      PLANNER_OWNER_def)

definition tuned_config :: "adapter_config \<Rightarrow> (string \<times> pyfloat) list \<Rightarrow> adapter_config" where
  "tuned_config c n =
     c\<lparr>ac_maximum_commanded_speed := tval n ''maximum_commanded_speed'', ac_proportional_gain := tval n ''proportional_gain'',
       ac_integral_gain := tval n ''integral_gain'',
       ac_feedforward_effort_per_speed := tval n ''feedforward_effort_per_speed'',
       ac_feedforward_effort_intercept := tval n ''feedforward_effort_intercept'', ac_output_max := tval n ''output_max''\<rparr>"

lemma merge_tuned: "merge_config c (values_for_owner n ADAPTER_OWNER) = tuned_config c n"
  by (simp add: adapter_values merge_config_def config_put_def tuned_config_def)

lemma tuned_config_ok:
  assumes c: "adapter_config_ok c" and ok: "snapshot_ok n"
    and lo: "fle (Fin (1 / 4)) (ac_minimum_moving_speed c)"
    and hi: "fle (ac_minimum_moving_speed c) (tval n ''maximum_commanded_speed'')"
  shows "adapter_config_ok (tuned_config c n)"
  using ok
proof (rule snapshot_numbers)
  fix e m i u p g
  assume f: "tval n ''feedforward_effort_per_speed'' = Fin e" "0 < e" "tval n ''maximum_commanded_speed'' = Fin m" "0 < m"
    "tval n ''feedforward_effort_intercept'' = Fin i" "tval n ''output_max'' = Fin u" "0 < u"
    "tval n ''proportional_gain'' = Fin p" "0 < p" "tval n ''integral_gain'' = Fin g" "0 \<le> g"
    "m \<le> 2" "fle (Fin u) MAXIMUM_OUTPUT_AUTHORITY"
    "fle (linear_feedforward (Fin m) (Fin e) (Fin i)) (Fin u)"
    "fle (Fin 0) (linear_feedforward (Fin m) (Fin e) (Fin i))"
    "fle (Fin 0) (linear_feedforward (Fin (1 / 4)) (Fin e) (Fin i))"
  obtain w where w: "ac_minimum_moving_speed c = Fin w" "0 < w" using adapter_config_ok_positive(3) [OF c] by blast
  have ff: "fle (Fin 0) (linear_feedforward (Fin w) (Fin e) (Fin i))"
    using linear_feedforward_between [OF _ _ _ _ f(14,16), of w] f(2,3) w lo hi by simp
  have le: "\<not> flt (linear_feedforward (Fin m) (Fin e) (Fin i)) (Fin 0)" "\<not> flt (Fin u) (linear_feedforward (Fin m) (Fin e) (Fin i))"
    "\<not> flt (linear_feedforward (Fin w) (Fin e) (Fin i)) (Fin 0)" "\<not> flt MAXIMUM_OUTPUT_AUTHORITY (Fin u)" "\<not> fle (Fin u) (Fin 0)"
    using f(7,13-15) ff flt_not_fle by auto
  have old: "list_all isfinite (config_values c)" "\<forall>(n, v) \<in> set (positive_fields c). \<not> fle v (Fin 0)" "check_limits c = Inr ()"
    using c by (simp_all add: adapter_config_ok_iff)
  have kept: "flt (Fin 0) (ac_max_steering_angle c)" "flt (ac_max_steering_angle c) half_pi" "feq (ac_output_min c) (Fin 0)"
    "\<not> fle (ac_wheelspin_speed_ratio c) (Fin 1)" "\<not> flt (ac_wheelspin_min_speed_excess c) (Fin 0)"
    using old(3) by (simp_all add: check_limits_def split: if_split_asm)
  have fields: "ac_maximum_commanded_speed (tuned_config c n) = Fin m" "ac_proportional_gain (tuned_config c n) = Fin p"
    "ac_integral_gain (tuned_config c n) = Fin g" "ac_feedforward_effort_per_speed (tuned_config c n) = Fin e"
    "ac_feedforward_effort_intercept (tuned_config c n) = Fin i" "ac_output_max (tuned_config c n) = Fin u"
    using f by (simp_all add: tuned_config_def)
  have "list_all isfinite (config_values (tuned_config c n))"
    using old(1) f by (simp add: config_values_def tuned_config_def)
  moreover have "\<forall>(n, v) \<in> set (positive_fields (tuned_config c n)). \<not> fle v (Fin 0)"
    using old(2) f by (simp add: positive_fields_def tuned_config_def)
  moreover have "check_limits (tuned_config c n) = Inr ()"
    using kept le w hi f by (simp add: check_limits_def tuned_config_def maximum_feedforward_def minimum_feedforward_def
        MAXIMUM_COMMANDED_SPEED_def)
  ultimately show ?thesis by (simp add: adapter_config_ok_iff)
qed

text \<open>
  C35. A snapshot that the gateway accepts is accepted by the drive adapter too:
  when the adapter runs a valid configuration whose minimum moving speed is at
  least 0.25 m/s and not above the snapshot's ceiling, the atomic write of the
  adapter's part succeeds, leaves a valid configuration and changes the six
  tuned fields only.
\<close>

theorem tuning_fits_adapter:
  assumes "walks walk" "validate_values walk vs = Inr n" "adapter_config_ok (da_config a)"
    and "fle (Fin (1 / 4)) (ac_minimum_moving_speed (da_config a))"
      "fle (ac_minimum_moving_speed (da_config a)) (tval n ''maximum_commanded_speed'')"
  shows "\<exists>a'. set_live_parameters a (adapter_updates n) = Inr a' \<and> da_config a' = tuned_config (da_config a) n
    \<and> adapter_config_ok (da_config a')"
proof -
  have ok: "adapter_config_ok (tuned_config (da_config a) n)"
    using tuned_config_ok assms validate_values_iff by blast
  have "unsupported_names (adapter_updates n) = []"
    by (simp add: unsupported_names_def adapter_updates_def adapter_values LIVE_TUNABLE_PARAMETERS_def)
  moreover have "check_doubles (adapter_updates n) = Inr (values_for_owner n ADAPTER_OWNER)"
    by (simp add: adapter_updates_def adapter_values)
  ultimately show ?thesis
    using ok by (simp add: set_live_parameters_def merge_tuned adapter_config_ok_def Let_def)
qed

section \<open>The persisted override\<close>

text \<open>
  A file replaced atomically: its content, absent at first, and the temporary
  files that failed attempts left in its directory. An attempt can fail before
  its temporary file exists, or after (in the write, the flush, \<open>fsync\<close> or
  \<open>replace\<close>); nothing removes the temporary file then.
\<close>

record 'c target_file =
  tf_content :: "'c option"
  tf_temporaries :: nat

datatype write_outcome = WO_done | WO_before string | WO_after string

definition atomic_write :: "write_outcome \<Rightarrow> 'c \<Rightarrow> 'c target_file \<Rightarrow> 'c target_file \<times> unit result" where
  "atomic_write w c f =
     (case w of
        WO_done \<Rightarrow> (f\<lparr>tf_content := Some c\<rparr>, Inr ())
      | WO_before reason \<Rightarrow> (f, Inl (OSError reason))
      | WO_after reason \<Rightarrow> (f\<lparr>tf_temporaries := tf_temporaries f + 1\<rparr>, Inl (OSError reason)))"

lemma atomic_write_content:
  "tf_content (fst (atomic_write w c f)) = (if snd (atomic_write w c f) = Inr () then Some c else tf_content f)"
  by (cases w) (simp_all add: atomic_write_def)

text \<open>\<open>format(x, '.12g')\<close> of a finite float: twelve significant digits, trailing zeros dropped.\<close>

definition strip_zeros :: "string \<Rightarrow> string" where
  "strip_zeros t = rev (dropWhile (\<lambda>c. c = CHR ''0'') (rev t))"

definition with_fraction :: "string \<Rightarrow> string \<Rightarrow> string" where
  "with_fraction whole fraction =
     (let f = strip_zeros fraction in if f = [] then whole else whole @ ''.'' @ f)"

definition exponent_text :: "int \<Rightarrow> string" where
  "exponent_text e =
     (let d = digits (nat \<bar>e\<bar>) in (if e < 0 then ''e-'' else ''e+'') @ (if length d < 2 then ''0'' @ d else d))"

definition format_g12_pos :: "rat \<Rightarrow> string" where
  "format_g12_pos q =
     (let e0 = rat_log10 q; k0 = round_half_even (q / 10 powi (e0 - 11));
          (e, k) = (if k0 = 10 ^ 12 then (e0 + 1, 10 ^ 11) else (e0, k0));
          ds = digits (nat k)
      in if 0 \<le> e \<and> e < 12 then with_fraction (take (nat e + 1) ds) (drop (nat e + 1) ds)
         else if - 4 \<le> e \<and> e < 0 then with_fraction ''0'' (replicate (nat (- e) - 1) (CHR ''0'') @ ds)
         else with_fraction (take 1 ds) (drop 1 ds) @ exponent_text e)"

fun format_g12 :: "pyfloat \<Rightarrow> string" where
  "format_g12 (Fin q) =
     (if q = 0 then ''0'' else if q < 0 then ''-'' @ format_g12_pos (- q) else format_g12_pos q)"
| "format_g12 PInf = ''inf''"
| "format_g12 NInf = ''-inf''"
| "format_g12 NaN = ''nan''"

definition override_section :: "string \<Rightarrow> (string \<times> pyfloat) list \<Rightarrow> string list" where
  "override_section node parameters =
     [node @ '':'', ''  ros__parameters:''] @ map (\<lambda>(name, x). ''    '' @ name @ '': '' @ format_g12 x) parameters"

definition override_lines :: "(string \<times> pyfloat) list \<Rightarrow> string list" where
  "override_lines n =
     override_section ''planner_server'' (values_for_owner n PLANNER_OWNER)
     @ override_section ''bt_navigator'' (values_for_owner n NAVIGATOR_OWNER)"

definition override_text :: "(string \<times> pyfloat) list \<Rightarrow> string" where
  "override_text n = concat (map (\<lambda>l. l @ [CHR 0x0A]) (override_lines n))"

definition persist_override ::
  "(string list \<Rightarrow> string list) \<Rightarrow> write_outcome \<Rightarrow> (string \<times> tuning_value) list \<Rightarrow> string target_file
     \<Rightarrow> string target_file \<times> unit result" where
  "persist_override walk w vs f =
     (case validate_values walk vs of
        Inl e \<Rightarrow> (f, Inl e)
      | Inr n \<Rightarrow> atomic_write w (override_text n) f)"

text \<open>The override is the old one or the complete text of an accepted snapshot, also when writing fails.\<close>

lemma override_is_whole:
  assumes "walks walk" "persist_override walk w vs f = (f', r)"
  shows "tf_content f' = tf_content f \<and> r \<noteq> Inr ()
    \<or> (\<exists>n. snapshot_ok n \<and> normalize_values vs = Inr n \<and> tf_content f' = Some (override_text n) \<and> r = Inr ())"
proof (cases "validate_values walk vs")
  case (Inl e)
  then show ?thesis using assms(2) by (auto simp: persist_override_def)
next
  case (Inr n)
  then have "atomic_write w (override_text n) f = (f', r)" using assms(2) by (simp add: persist_override_def)
  moreover have "normalize_values vs = Inr n \<and> snapshot_ok n" using Inr validate_values_iff [OF assms(1)] by blast
  ultimately show ?thesis using atomic_write_content [of w "override_text n" f] by (auto split: if_splits)
qed

section \<open>An example\<close>

definition demo_value :: "string \<Rightarrow> pyfloat" where
  "demo_value f =
     (if f \<in> {''integral_gain'', ''feedforward_effort_intercept'', ''tight_clearance''} then Fin 0
      else if f = ''feedforward_effort_per_speed'' then Fin (1 / 8)
      else if f = ''output_max'' then Fin (1 / 4) else Fin 1)"

definition demo_normal :: "(string \<times> pyfloat) list" where
  "demo_normal = map (\<lambda>f. (f, demo_value f)) FIELDS"

definition demo_snapshot :: "(string \<times> tuning_value) list" where
  "demo_snapshot = map (\<lambda>f. (f, TV_scalar (LV_float (demo_value f)))) FIELDS"

lemma demo_tval: "f \<in> set FIELDS \<Longrightarrow> tval demo_normal f = demo_value f"
  by (simp add: tval_def demo_normal_def map_of_map_restrict)

lemma demo_normalizes: "normalize_values demo_snapshot = Inr demo_normal"
proof -
  have "normalize_values (map (\<lambda>f. (f, TV_scalar (LV_float (demo_value f)))) fs) = Inr (map (\<lambda>f. (f, demo_value f)) fs)" for fs
    by (induction fs) (simp_all add: demo_value_def)
  then show ?thesis by (simp add: demo_snapshot_def demo_normal_def)
qed

lemma demo_members:
  "''integral_gain'' \<in> set FIELDS" "''reaction_time_s'' \<in> set FIELDS" "''approach_time_s'' \<in> set FIELDS"
  "''tight_clearance'' \<in> set FIELDS" "''footprint_rear'' \<in> set FIELDS" "''clearance_curve_family'' \<in> set FIELDS"
  "''open_clearance'' \<in> set FIELDS" "''desired_linear_vel'' \<in> set FIELDS" "''regulated_linear_scaling_min_speed'' \<in> set FIELDS"
  "''maximum_commanded_speed'' \<in> set FIELDS" "''max_lookahead_dist'' \<in> set FIELDS" "''min_lookahead_dist'' \<in> set FIELDS"
  "''output_max'' \<in> set FIELDS" "''feedforward_effort_per_speed'' \<in> set FIELDS" "''feedforward_effort_intercept'' \<in> set FIELDS"
  by (simp_all add: FIELDS_def PARAMETERS_def)

lemmas demo_tvals = demo_members [THEN demo_tval]

lemma demo_ok: "snapshot_ok demo_normal"
proof -
  have d: "dbl (1 / 8) = Fin (1 / 8)" "dbl (1 / 32) = Fin (1 / 32)"
    using is_double_dyadic [of 1 "- 5"] by (simp_all add: dbl_is_double power_int_minus field_simps)
  have o: "\<not> flt MAXIMUM_OUTPUT_AUTHORITY (Fin (1 / 4))"
    using dbl_ge_double [of "1 / 4" "30 / 100"] flt_not_fle by (auto simp: MAXIMUM_OUTPUT_AUTHORITY_def)
  have ff: "tuned_maximum_feedforward demo_normal = Fin (1 / 8)" "tuned_minimum_feedforward demo_normal = Fin (1 / 32)"
    unfolding tuned_maximum_feedforward_def tuned_minimum_feedforward_def demo_tvals by (simp_all add: demo_value_def d)
  have "list_all (\<lambda>c. \<not> fst c) (limits demo_normal)"
    unfolding limits_def demo_tvals ff using o by (simp add: demo_value_def MAXIMUM_COMMANDED_SPEED_def fmin_def feq_iff)
  moreover have "isfinite (tval demo_normal f)" if "f \<in> set FIELDS" for f
    using that by (simp add: demo_tval demo_value_def)
  moreover have "flt (Fin 0) (tval demo_normal f)" if "f \<in> set POSITIVE_FIELDS" for f
    using that by (simp add: demo_tval POSITIVE_FIELDS_def demo_value_def)
  ultimately show ?thesis by (simp add: snapshot_ok_def)
qed

lemma demo_walks: "walks (\<lambda>fs. fs)"
  by (simp add: walks_def)

lemma demo_accepted: "validate_values (\<lambda>fs. fs) demo_snapshot = Inr demo_normal"
proof -
  have "map fst demo_snapshot = FIELDS" by (simp add: demo_snapshot_def comp_def)
  then show ?thesis using demo_normalizes demo_ok validate_values_iff [OF demo_walks] by metis
qed

theorem accepted_feedforward_in_range_witness:
  "fle (Fin 0) (linear_feedforward (Fin (- (1 / 2))) (Fin (1 / 8)) (Fin 0))
   \<and> fle (linear_feedforward (Fin (- (1 / 2))) (Fin (1 / 8)) (Fin 0)) (Fin (1 / 4))"
  using accepted_feedforward_in_range [OF demo_walks demo_accepted, of "- (1 / 2)"]
  unfolding demo_tvals by (simp add: demo_value_def)

theorem tuning_fits_adapter_witness:
  "\<exists>a'. set_live_parameters (new_adapter sample_config) (adapter_updates demo_normal) = Inr a'
    \<and> ac_output_max (da_config a') = Fin (1 / 4) \<and> adapter_config_ok (da_config a')"
proof -
  have "\<exists>a'. set_live_parameters (new_adapter sample_config) (adapter_updates demo_normal) = Inr a'
      \<and> da_config a' = tuned_config (da_config (new_adapter sample_config)) demo_normal \<and> adapter_config_ok (da_config a')"
    by (rule tuning_fits_adapter [OF demo_walks demo_accepted])
      (use sample_config_ok in \<open>simp_all add: new_adapter_def demo_tvals demo_value_def sample_config_def\<close>)
  then show ?thesis by (auto simp: tuned_config_def demo_tvals demo_value_def)
qed

end
