(* ===== verification/SpeedProfiles.thy ===== *)
theory SpeedProfiles
  imports AutonomyTuning
begin

text \<open>
  Named speed profiles (\<open>runner_paddock/speed_profiles.py\<close>): complete driving
  presets in one JSON file next to an immutable baseline. The file's content is
  its decoded document: what \<open>json.dumps\<close> wrote, \<open>json.loads\<close> returns, with
  sorted keys.
\<close>

section \<open>The store\<close>

datatype profile_document = PD_unreadable | PD_json tuning_value

type_synonym profile_file = "profile_document target_file"

type_synonym profiles = "(string \<times> tuning_value) list"

definition BASELINE_NAME :: string where "BASELINE_NAME = ''Default Baseline''"

definition BASELINE_VALUES :: "(string \<times> pyfloat) list" where
  "BASELINE_VALUES =
    [(''desired_linear_vel'', Fin 1),
     (''maximum_commanded_speed'', Fin 1),
     (''regulated_linear_scaling_min_speed'', dbl (2 / 5)),
     (''regulated_linear_scaling_min_radius'', dbl (3 / 4)),
     (''min_lookahead_dist'', dbl (3 / 10)),
     (''max_lookahead_dist'', dbl (4 / 5)),
     (''lookahead_time'', Fin 1),
     (''max_allowed_time_to_collision_up_to_carrot'', dbl (3 / 5)),
     (''minimum_traversal_speed'', dbl (1 / 4)),
     (''tight_clearance'', dbl (1 / 20)),
     (''open_clearance'', dbl (7 / 10)),
     (''clearance_curve_family'', Fin 2),
     (''clearance_curve_shape'', Fin 1),
     (''approach_time_s'', Fin 0),
     (''curvature_window'', dbl (2 / 5)),
     (''max_lateral_acceleration'', dbl (7 / 20)),
     (''footprint_front'', dbl (23 / 100)),
     (''footprint_rear'', dbl (3 / 50)),
     (''footprint_half_width'', dbl (33 / 400)),
     (''braking_linear'', dbl (8 / 5)),
     (''braking_constant'', dbl (27 / 100)),
     (''reaction_time_s'', dbl (2 / 5)),
     (''recovery_acceleration_gain'', dbl (8 / 5)),
     (''recovery_acceleration_floor'', dbl (3 / 5))]"

definition as_values :: "(string \<times> pyfloat) list \<Rightarrow> (string \<times> tuning_value) list" where
  "as_values n = map (\<lambda>(f, x). (f, TV_scalar (LV_float x))) n"

text \<open>
  How reading the file went: an \<open>OSError\<close> may hit a file that another read
  returns. Every failure to read or decode it counts as an empty store.
\<close>

datatype read_outcome = RD_done | RD_oserror

definition read_store :: "read_outcome \<Rightarrow> profile_file \<Rightarrow> profiles" where
  "read_store rd f =
     (if rd = RD_oserror then []
      else case tf_content f of
        Some (PD_json (TV_dict raw)) \<Rightarrow> (case map_of raw ''profiles'' of Some (TV_dict ps) \<Rightarrow> ps | _ \<Rightarrow> [])
      | _ \<Rightarrow> [])"

text \<open>\<open>sort_keys=True\<close>, at every level.\<close>

fun sorted_keys :: "tuning_value \<Rightarrow> tuning_value" where
  "sorted_keys (TV_dict d) = TV_dict (sort_key fst (map (\<lambda>p. (fst p, sorted_keys (snd p))) d))"
| "sorted_keys (TV_list vs) = TV_list (map sorted_keys vs)"
| "sorted_keys v = v"

definition write_store :: "write_outcome \<Rightarrow> profiles \<Rightarrow> profile_file \<Rightarrow> profile_file \<times> unit result" where
  "write_store w ps f = atomic_write w (PD_json (sorted_keys (TV_dict [(''profiles'', TV_dict ps)]))) f"

section \<open>Operations\<close>

definition list_profiles :: "read_outcome \<Rightarrow> profile_file \<Rightarrow> (string \<times> bool) list" where
  "list_profiles rd f = (BASELINE_NAME, True) # map (\<lambda>name. (name, False)) (sort (map fst (read_store rd f)))"

definition load_profile :: "(string list \<Rightarrow> string list) \<Rightarrow> read_outcome \<Rightarrow> string \<Rightarrow> profile_file \<Rightarrow> (string \<times> pyfloat) list result" where
  "load_profile walk rd name f =
     (if name = BASELINE_NAME
      then validate_speed_profile_snapshot walk (as_values BASELINE_VALUES) (as_values NEUTRAL_COMPLETION_VALUES)
      else case map_of (read_store rd f) name of
          None \<Rightarrow> Inl (KeyError name)
        | Some (TV_dict raw) \<Rightarrow>
            if set (map fst raw) \<noteq> set SPEED_PROFILE_FIELDS then Inl (ValueError ''saved profile is corrupt'')
            else validate_speed_profile_snapshot walk raw (as_values NEUTRAL_COMPLETION_VALUES)
        | Some _ \<Rightarrow> Inl (ValueError ''saved profile is corrupt''))"

definition save_profile ::
  "(string list \<Rightarrow> string list) \<Rightarrow> read_outcome \<Rightarrow> write_outcome \<Rightarrow> string \<Rightarrow> (string \<times> tuning_value) list \<Rightarrow> (string \<times> tuning_value) list
     \<Rightarrow> profile_file \<Rightarrow> profile_file \<times> (string \<times> pyfloat) list result" where
  "save_profile walk rd w raw_name snapshot current_values f =
     (let name = py_strip raw_name in
      if \<not> truthy name then (f, Inl (ValueError ''profile name must not be empty''))
      else if name = BASELINE_NAME then (f, Inl (ValueError ''baseline is immutable and cannot be saved over''))
      else case validate_speed_profile_snapshot walk snapshot current_values of
          Inl e \<Rightarrow> (f, Inl e)
        | Inr validated \<Rightarrow>
            (case write_store w (dict_set (read_store rd f) name (TV_dict (as_values validated))) f of
               (f', Inl e) \<Rightarrow> (f', Inl e)
             | (f', Inr _) \<Rightarrow> (f', Inr validated)))"

definition delete_profile :: "read_outcome \<Rightarrow> write_outcome \<Rightarrow> string \<Rightarrow> profile_file \<Rightarrow> profile_file \<times> unit result" where
  "delete_profile rd w name f =
     (if name = BASELINE_NAME then (f, Inl (ValueError ''baseline is immutable and cannot be deleted''))
      else if map_of (read_store rd f) name = None then (f, Inl (KeyError name))
      else write_store w (dict_del (read_store rd f) name) f)"

section \<open>Sorting keys keeps every lookup\<close>

lemma map_of_filter_key: "map_of (filter (\<lambda>p. fst p = k) d) k = map_of d k"
  by (induction d) auto

lemma map_of_sort_key: "map_of (sort_key fst d) k = map_of d k"
  using map_of_filter_key [of k "sort_key fst d"] map_of_filter_key [of k d] sort_key_stable [of fst k d] by metis

lemma sorted_keys_lookup: "map_of (sort_key fst (map (\<lambda>p. (fst p, sorted_keys (snd p))) d)) k = map_option sorted_keys (map_of d k)"
  unfolding map_of_sort_key by (induction d) auto

lemma read_written:
  assumes "write_store w ps f = (f', Inr u)"
  shows "map_of (read_store RD_done f') k = map_option sorted_keys (map_of ps k)"
    "set (map fst (read_store RD_done f')) = set (map fst ps)"
proof -
  have c: "tf_content f' = Some (PD_json (sorted_keys (TV_dict [(''profiles'', TV_dict ps)])))"
    using atomic_write_content [of w "PD_json (sorted_keys (TV_dict [(''profiles'', TV_dict ps)]))" f] assms
    by (simp add: write_store_def)
  then have r: "read_store RD_done f' = sort_key fst (map (\<lambda>p. (fst p, sorted_keys (snd p))) ps)" by (simp add: read_store_def)
  show "map_of (read_store RD_done f') k = map_option sorted_keys (map_of ps k)" unfolding r by (rule sorted_keys_lookup)
  show "set (map fst (read_store RD_done f')) = set (map fst ps)" unfolding r by (simp add: image_image)
qed

lemma as_values_keys: "map fst (as_values n) = map fst n"
  by (simp add: as_values_def case_prod_unfold)

lemma sorted_as_values:
  assumes "distinct (map fst n)"
  shows "\<exists>d. sorted_keys (TV_dict (as_values n)) = TV_dict d \<and> (\<forall>k. map_of d k = map_of (as_values n) k)
    \<and> set d = set (as_values n) \<and> distinct (map fst d)"
proof -
  let ?d = "sort_key fst (map (\<lambda>p. (fst p, sorted_keys (snd p))) (as_values n))"
  have same: "map (\<lambda>p. (fst p, sorted_keys (snd p))) (as_values n) = as_values n"
    by (simp add: as_values_def case_prod_unfold)
  have "map_of ?d k = map_of (as_values n) k" for k unfolding same by (rule map_of_sort_key)
  moreover have "distinct (map fst ?d)" unfolding same using assms as_values_keys by (metis distinct_map distinct_sort set_sort)
  ultimately show ?thesis by (intro exI [of _ ?d]) (simp add: same)
qed

section \<open>A saved profile loads back\<close>

lemma dict_merge_lookup: "map_of (dict_merge d u) = map_of d ++ map_of (rev u)"
proof (induction u arbitrary: d)
  case (Cons p u)
  have "map_of (dict_set d (fst p) (snd p)) = (map_of d)(fst p \<mapsto> snd p)" using dict_get_set by (simp add: dict_get_def [abs_def])
  then show ?case using Cons [of "dict_set d (fst p) (snd p)"]
    by (cases p) (simp add: dict_merge_def map_add_upd_left fun_eq_iff map_add_def split: option.split)
qed (simp add: dict_merge_def)

lemma dict_set_items: "set (dict_set d k v) \<subseteq> insert (k, v) (set d)"
  by (induction d k v rule: dict_set.induct) auto

lemma dict_merge_items: "set (dict_merge d u) \<subseteq> set d \<union> set u"
proof (induction u arbitrary: d)
  case (Cons p u)
  then show ?case using dict_set_items [of d "fst p" "snd p"] Cons [of "dict_set d (fst p) (snd p)"]
    by (auto simp: dict_merge_def)
qed (simp add: dict_merge_def)

lemma dict_merge_keys: "set (map fst (dict_merge d u)) = set (map fst d) \<union> set (map fst u)"
proof (induction u arbitrary: d)
  case (Cons p u)
  then show ?case using dict_set_keys [of d "fst p" "snd p"] by (auto simp: dict_merge_def dict_keys_def)
qed (simp add: dict_merge_def)

lemma profile_members:
  "''desired_linear_vel'' \<in> set SPEED_PROFILE_FIELDS" "''maximum_commanded_speed'' \<in> set SPEED_PROFILE_FIELDS"
  "''regulated_linear_scaling_min_speed'' \<in> set SPEED_PROFILE_FIELDS" "''min_lookahead_dist'' \<in> set SPEED_PROFILE_FIELDS"
  "''max_lookahead_dist'' \<in> set SPEED_PROFILE_FIELDS" "''tight_clearance'' \<in> set SPEED_PROFILE_FIELDS"
  "''open_clearance'' \<in> set SPEED_PROFILE_FIELDS" "''clearance_curve_family'' \<in> set SPEED_PROFILE_FIELDS"
  "''reaction_time_s'' \<in> set SPEED_PROFILE_FIELDS" "''approach_time_s'' \<in> set SPEED_PROFILE_FIELDS"
  "''footprint_rear'' \<in> set SPEED_PROFILE_FIELDS"
  by (simp_all add: SPEED_PROFILE_FIELDS_def ENGINEERING_FIELDS_def FIELDS_def PARAMETERS_def)

lemma distinct_FIELDS: "distinct FIELDS"
  by code_simp

lemma profile_fields:
  "set FIELDS = set SPEED_PROFILE_FIELDS \<union> set (map fst NEUTRAL_COMPLETION_VALUES)"
  "distinct SPEED_PROFILE_FIELDS" "set SPEED_PROFILE_FIELDS \<inter> set (map fst NEUTRAL_COMPLETION_VALUES) = {}"
  "distinct (map fst NEUTRAL_COMPLETION_VALUES)"
proof -
  have n: "set (map fst NEUTRAL_COMPLETION_VALUES) = insert ''cost_penalty'' (set ENGINEERING_FIELDS)"
    by (auto simp: NEUTRAL_COMPLETION_VALUES_def ENGINEERING_FIELDS_def)
  have "insert ''cost_penalty'' (set ENGINEERING_FIELDS) \<subseteq> set FIELDS"
    by (simp add: ENGINEERING_FIELDS_def FIELDS_def PARAMETERS_def)
  then show "set FIELDS = set SPEED_PROFILE_FIELDS \<union> set (map fst NEUTRAL_COMPLETION_VALUES)"
    unfolding n by (auto simp: SPEED_PROFILE_FIELDS_def)
  show "set SPEED_PROFILE_FIELDS \<inter> set (map fst NEUTRAL_COMPLETION_VALUES) = {}"
    unfolding n by (auto simp: SPEED_PROFILE_FIELDS_def)
  show "distinct SPEED_PROFILE_FIELDS" using distinct_FIELDS by (simp add: SPEED_PROFILE_FIELDS_def)
  show "distinct (map fst NEUTRAL_COMPLETION_VALUES)" by (simp add: NEUTRAL_COMPLETION_VALUES_def)
qed

lemma moderate_double:
  assumes "1 / 2 ^ 20 \<le> q" "q \<le> b" "is_double b"
  shows "\<exists>r > 0. dbl q = Fin r \<and> r \<le> b"
proof -
  have "is_double (1 / 2 ^ 20)" using is_double_dyadic [of 1 "- 20"] by (simp add: power_int_minus field_simps)
  then have lo: "fle (Fin (1 / 2 ^ 20)) (dbl q)" using assms(1) by (rule dbl_ge_double [rotated])
  have hi: "fle (dbl q) (Fin b)" using assms(2,3) by (rule dbl_le_double)
  show ?thesis using lo hi by (cases "dbl q") auto
qed

lemma neutral_values:
  "\<exists>r > 0. dbl (1 / 1000) = Fin r" "\<exists>r > 0. dbl (1 / 10 ^ 6) = Fin r \<and> r \<le> 1 / 8" "\<exists>r > 0. MAXIMUM_OUTPUT_AUTHORITY = Fin r \<and> 1 / 4 \<le> r"
proof -
  show "\<exists>r > 0. dbl (1 / 1000) = Fin r" using moderate_double [of "1 / 1000" 1] by auto
  show "\<exists>r > 0. dbl (1 / 10 ^ 6) = Fin r \<and> r \<le> 1 / 8" using moderate_double [of "1 / 10 ^ 6" "1 / 8"] by auto
  obtain r where r: "0 < r" "dbl (30 / 100) = Fin r" using moderate_double [of "30 / 100" 1] by auto
  moreover have "fle (Fin (1 / 4)) (dbl (30 / 100))" by (rule dbl_ge_double) simp_all
  ultimately show "\<exists>r > 0. MAXIMUM_OUTPUT_AUTHORITY = Fin r \<and> 1 / 4 \<le> r" by (simp add: MAXIMUM_OUTPUT_AUTHORITY_def)
qed

lemma neutral_items: "p \<in> set (as_values NEUTRAL_COMPLETION_VALUES) \<Longrightarrow> finite_float (snd p)"
  using neutral_values by (auto simp: as_values_def NEUTRAL_COMPLETION_VALUES_def finite_float_def isfinite_iff)

lemma neutral_positive:
  assumes "f \<in> set (map fst NEUTRAL_COMPLETION_VALUES)" "f \<noteq> ''integral_gain''" "f \<noteq> ''feedforward_effort_intercept''"
  shows "\<exists>x. map_of NEUTRAL_COMPLETION_VALUES f = Some x \<and> flt (Fin 0) x"
proof -
  obtain q p u where v: "dbl (1 / 1000) = Fin p" "0 < p" "dbl (1 / 10 ^ 6) = Fin q" "0 < q" "MAXIMUM_OUTPUT_AUTHORITY = Fin u" "0 < u"
    using neutral_values by metis
  have "f = ''proportional_gain'' \<or> f = ''feedforward_effort_per_speed'' \<or> f = ''output_max'' \<or> f = ''cost_penalty''"
    using assms unfolding NEUTRAL_COMPLETION_VALUES_def by (simp only: list.map list.set fst_conv insert_iff empty_iff) blast
  then show ?thesis unfolding NEUTRAL_COMPLETION_VALUES_def v(1,3,5) using v(2,4,6) by (elim disjE) simp_all
qed

text \<open>Completed with the neutral values, a profile that was valid once is valid again.\<close>

lemma neutral_limits:
  assumes n: "snapshot_ok n" and same: "\<And>f. f \<in> set SPEED_PROFILE_FIELDS \<Longrightarrow> tval n2 f = tval n f"
    and neutral: "\<And>f x. map_of NEUTRAL_COMPLETION_VALUES f = Some x \<Longrightarrow> tval n2 f = x"
  shows "list_all (\<lambda>c. \<not> fst c) (limits n2)"
proof -
  obtain q where q: "dbl (1 / 10 ^ 6) = Fin q" "0 < q" "q \<le> 1 / 8" using neutral_values(2) by blast
  obtain u where u: "MAXIMUM_OUTPUT_AUTHORITY = Fin u" "1 / 4 \<le> u" using neutral_values(3) by blast
  have e: "tval n2 ''integral_gain'' = Fin 0" "tval n2 ''feedforward_effort_per_speed'' = Fin q"
    "tval n2 ''feedforward_effort_intercept'' = Fin 0" "tval n2 ''output_max'' = Fin u"
    by (rule neutral; simp add: NEUTRAL_COMPLETION_VALUES_def u(1) q(1) [simplified])+
  obtain m where m: "tval n ''maximum_commanded_speed'' = Fin m" "0 < m" "m \<le> 2" using snapshot_numbers [OF n] by metis
  have small: "dbl (q * x) = Fin y \<Longrightarrow> 0 \<le> y \<and> y \<le> 1 / 4" if "0 \<le> x" "x \<le> 2" for x y
  proof -
    assume y: "dbl (q * x) = Fin y"
    have "q * x \<le> 1 / 8 * 2" using q(2,3) that by (intro mult_mono) auto
    then have "fle (dbl (q * x)) (Fin (1 / 4))" by (intro dbl_le_double) simp_all
    moreover have "fle (Fin 0) (dbl (q * x))" using q(2) that by (intro dbl_ge_double) simp_all
    ultimately show "0 \<le> y \<and> y \<le> 1 / 4" using y by simp
  qed
  have some: "\<exists>y. dbl (q * x) = Fin y" if "0 \<le> x" "x \<le> 2" for x
  proof -
    have "q * x \<le> 1 / 8 * 2" using q(2,3) that by (intro mult_mono) auto
    then have "fle (dbl (q * x)) (Fin (1 / 4))" "fle (Fin 0) (dbl (q * x))"
      using q(2) that by (intro dbl_le_double dbl_ge_double; simp)+
    then show ?thesis by (cases "dbl (q * x)") auto
  qed
  obtain y z where y: "dbl (q * m) = Fin y" "0 \<le> y" "y \<le> 1 / 4" and z: "dbl (q * (1 / 4)) = Fin z" "0 \<le> z" "z \<le> 1 / 4"
    using some [of m] some [of "1 / 4"] small [of m] small [of "1 / 4"] m by auto
  have t: "tuned_maximum_feedforward n2 = dbl y" "tuned_minimum_feedforward n2 = dbl z"
    using e m(1) y(1) z(1) same [OF profile_members(2)] by (simp_all add: tuned_maximum_feedforward_def tuned_minimum_feedforward_def)
  have range: "fle (Fin 0) (dbl y)" "fle (Fin 0) (dbl z)" "fle (dbl y) (Fin (1 / 4))"
    using y(2,3) z(2) by (intro dbl_ge_double dbl_le_double; simp)+
  have ff: "\<not> flt (fmin (dbl y) (dbl z)) (Fin 0)" "\<not> flt (Fin u) (dbl y)"
    using range flt_not_fle fle_trans [OF range(3), of "Fin u"] u(2) by (auto simp: fmin_def)
  show ?thesis
    using n e same [OF profile_members(1)] same [OF profile_members(2)] same [OF profile_members(3)] same [OF profile_members(4)]
      same [OF profile_members(5)] same [OF profile_members(6)] same [OF profile_members(7)] same [OF profile_members(8)]
      same [OF profile_members(9)] same [OF profile_members(10)] same [OF profile_members(11)] ff
    by (simp add: limits_def snapshot_ok_def t u(1))
qed

definition profile_of :: "(string \<times> pyfloat) list \<Rightarrow> (string \<times> pyfloat) list" where
  "profile_of n = map (\<lambda>f. (f, tval n f)) SPEED_PROFILE_FIELDS"

lemma profile_of_lookup: "map_of (profile_of n) f = (if f \<in> set SPEED_PROFILE_FIELDS then Some (tval n f) else None)"
  by (auto simp: profile_of_def map_of_map_restrict restrict_map_def)

lemma as_values_lookup: "map_of (as_values n) f = map_option (\<lambda>x. TV_scalar (LV_float x)) (map_of n f)"
  by (induction n) (auto simp: as_values_def)

lemma accepted_snapshot:
  assumes "walks walk" "validate_speed_profile_snapshot walk snapshot current_values = Inr v"
  obtains n where "snapshot_ok n" "v = profile_of n"
  using assms validate_values_iff [OF assms(1)]
  by (auto simp: validate_speed_profile_snapshot_def bind_result_Inr_iff profile_of_def split: if_splits)

text \<open>Whatever completed it when it was saved, the profile is accepted again with the neutral values.\<close>

lemma profile_revalidates:
  assumes walk: "walks walk" and n: "snapshot_ok n"
    and d: "\<And>f. map_of d f = map_of (as_values (profile_of n)) f" "set d = set (as_values (profile_of n))" "distinct (map fst d)"
  shows "validate_speed_profile_snapshot walk d (as_values NEUTRAL_COMPLETION_VALUES) = Inr (profile_of n)"
proof -
  let ?c = "dict_merge (as_values NEUTRAL_COMPLETION_VALUES) d"
  have fin: "isfinite (tval n f)" if "f \<in> set SPEED_PROFILE_FIELDS" for f
    using n that profile_fields(1) by (auto simp: snapshot_ok_def)
  have keys: "set (map fst d) = set SPEED_PROFILE_FIELDS" using d(2) by (force simp: as_values_def profile_of_def)
  have ckeys: "set (map fst ?c) = set FIELDS"
    unfolding dict_merge_keys keys profile_fields(1) as_values_keys by blast
  have "\<forall>p \<in> set d. finite_float (snd p)"
    using d(2) fin by (auto simp: as_values_def profile_of_def finite_float_def)
  then have "\<forall>p \<in> set ?c. finite_float (snd p)"
    using dict_merge_items [of "as_values NEUTRAL_COMPLETION_VALUES" d] neutral_items by blast
  then obtain n2 where n2: "normalize_values ?c = Inr n2" using normalize_floats by blast
  have look: "map_of ?c f = (case map_of (as_values (profile_of n)) f of None \<Rightarrow> map_of (as_values NEUTRAL_COMPLETION_VALUES) f | Some x \<Rightarrow> Some x)" for f
    using d(3) by (simp add: dict_merge_lookup map_of_rev_distinct map_add_def d(1))
  have same: "tval n2 f = tval n f" if "f \<in> set SPEED_PROFILE_FIELDS" for f
    by (rule normalized_value [OF n2]) (use fin that in \<open>simp_all add: look as_values_lookup profile_of_lookup\<close>)
  have neutral: "tval n2 f = x" if "map_of NEUTRAL_COMPLETION_VALUES f = Some x" for f x
  proof (rule normalized_value [OF n2])
    have f: "f \<in> set (map fst NEUTRAL_COMPLETION_VALUES)" using that by (metis map_of_eq_None_iff option.distinct(1) set_map)
    then have out: "f \<notin> set SPEED_PROFILE_FIELDS" using profile_fields(3) by blast
    show "map_of ?c f = Some (TV_scalar (LV_float x))"
      by (simp add: look as_values_lookup profile_of_lookup out that)
    show "isfinite x"
      using neutral_items [of "(f, TV_scalar (LV_float x))"] map_of_SomeD [OF that] by (force simp: as_values_def finite_float_def)
  qed
  have "snapshot_ok n2"
    unfolding snapshot_ok_def
  proof (intro conjI ballI)
    fix f
    assume "f \<in> set FIELDS"
    then show "isfinite (tval n2 f)" using normalize_finite [OF n2] ckeys by blast
  next
    fix f
    assume f: "f \<in> set POSITIVE_FIELDS"
    show "flt (Fin 0) (tval n2 f)"
    proof (cases "f \<in> set SPEED_PROFILE_FIELDS")
      case True
      then show ?thesis using same n f by (simp add: snapshot_ok_def)
    next
      case False
      then have "f \<in> set (map fst NEUTRAL_COMPLETION_VALUES)" using positive_is_field [OF f] profile_fields(1) by blast
      moreover have "f \<noteq> ''integral_gain''" "f \<noteq> ''feedforward_effort_intercept''" using f by (auto simp: POSITIVE_FIELDS_def)
      ultimately obtain x where x: "map_of NEUTRAL_COMPLETION_VALUES f = Some x" "flt (Fin 0) x"
        using neutral_positive by blast
      then show ?thesis using neutral by simp
    qed
  next
    show "list_all (\<lambda>c. \<not> fst c) (limits n2)" using neutral_limits [OF n same neutral] by blast
  qed
  then have "validate_values walk ?c = Inr n2" using validate_values_iff [OF walk] ckeys n2 by blast
  moreover have "profile_of n2 = profile_of n" using same by (simp add: profile_of_def)
  ultimately show ?thesis using keys by (simp add: validate_speed_profile_snapshot_def profile_of_def)
qed

text \<open>
  C37. A profile that was saved loads back, once the file can be read, with
  exactly the saved values, whatever the calibration and planner settings were
  that completed it when it was saved; it is listed under its stripped name; and
  beside it the file has just the profiles that the read at the start of the
  save returned, which are none when that read failed.
\<close>

theorem saved_profile_loads_back:
  assumes "walks walk" "save_profile walk rd w raw_name snapshot current_values f = (f', Inr v)"
  shows "load_profile walk RD_done (py_strip raw_name) f' = Inr v \<and> (py_strip raw_name, False) \<in> set (list_profiles RD_done f')
    \<and> (\<forall>other. other = py_strip raw_name \<or> map_of (read_store RD_done f') other = map_option sorted_keys (map_of (read_store rd f) other))"
proof -
  let ?name = "py_strip raw_name"
  have name: "?name \<noteq> BASELINE_NAME" using assms(2) by (auto simp: save_profile_def Let_def split: if_splits)
  have ok: "validate_speed_profile_snapshot walk snapshot current_values = Inr v"
    "\<exists>u. write_store w (dict_set (read_store rd f) ?name (TV_dict (as_values v))) f = (f', Inr u)"
    using assms(2) by (auto simp: save_profile_def Let_def split: if_splits sum.splits prod.splits)
  obtain n where n: "snapshot_ok n" "v = profile_of n" using accepted_snapshot [OF assms(1) ok(1)] by blast
  obtain u where w: "write_store w (dict_set (read_store rd f) ?name (TV_dict (as_values v))) f = (f', Inr u)" using ok(2) by blast
  have upd: "map_of (dict_set (read_store rd f) ?name (TV_dict (as_values v))) = (map_of (read_store rd f))(?name \<mapsto> TV_dict (as_values v))"
    using dict_get_set by (simp add: dict_get_def [abs_def])
  have look: "map_of (read_store RD_done f') k = map_option sorted_keys (((map_of (read_store rd f))(?name \<mapsto> TV_dict (as_values v))) k)" for k
    using read_written(1) [OF w, of k] upd by simp
  have "distinct (map fst v)" unfolding n(2) profile_of_def using profile_fields(2) by (simp add: comp_def)
  then obtain d where d: "sorted_keys (TV_dict (as_values v)) = TV_dict d" "\<forall>k. map_of d k = map_of (as_values v) k"
    "set d = set (as_values v)" "distinct (map fst d)"
    using sorted_as_values by blast
  have "set (map fst d) = set SPEED_PROFILE_FIELDS" using d(3) by (force simp: n(2) profile_of_def as_values_def)
  then have "load_profile walk RD_done ?name f' = Inr v"
    using profile_revalidates [OF assms(1) n(1), of d] d name look [of ?name] by (simp add: load_profile_def n(2))
  moreover have "?name \<in> set (map fst (read_store RD_done f'))"
    using read_written(2) [OF w] dict_set_keys [of "read_store rd f" ?name "TV_dict (as_values v)"] by (simp add: dict_keys_def)
  then have "(?name, False) \<in> set (list_profiles RD_done f')" by (simp add: list_profiles_def)
  ultimately show ?thesis using look by simp
qed

text \<open>A save whose read failed leaves the file with the saved profile alone.\<close>

lemma failed_read_drops_profiles:
  assumes "save_profile walk RD_oserror w raw_name snapshot current_values f = (f', Inr v)" "other \<noteq> py_strip raw_name"
  shows "map_of (read_store RD_done f') other = None"
proof -
  obtain u where "write_store w (dict_set [] (py_strip raw_name) (TV_dict (as_values v))) f = (f', Inr u)"
    using assms(1) by (auto simp: save_profile_def read_store_def Let_def split: if_splits sum.splits prod.splits)
  from read_written(1) [OF this, of other] show ?thesis using assms(2) by simp
qed

text \<open>The baseline always loads, and no operation changes what it is.\<close>

lemma baseline_is_immutable:
  "py_strip name = BASELINE_NAME \<Longrightarrow> save_profile walk rd w name snapshot current_values f = (f', r) \<Longrightarrow> f' = f \<and> (\<forall>v. r \<noteq> Inr v)"
  "delete_profile rd w BASELINE_NAME f = (f, Inl (ValueError ''baseline is immutable and cannot be deleted''))"
  "load_profile walk rd BASELINE_NAME f = load_profile walk rd' BASELINE_NAME f''"
  by (auto simp: save_profile_def delete_profile_def load_profile_def Let_def split: if_splits)

lemma failed_write_keeps_profiles:
  "save_profile walk rd w name snapshot current_values f = (f', Inl e) \<Longrightarrow> tf_content f' = tf_content f"
  "delete_profile rd w name f = (f', Inl e) \<Longrightarrow> tf_content f' = tf_content f"
  using atomic_write_content [of w _ f]
  by (auto simp: save_profile_def delete_profile_def write_store_def Let_def atomic_write_def
      split: if_splits sum.splits prod.splits write_outcome.splits)

definition demo_profile :: "(string \<times> tuning_value) list" where
  "demo_profile = map (\<lambda>f. (f, TV_scalar (LV_float (demo_value f)))) SPEED_PROFILE_FIELDS"

lemma dict_merge_same: "\<forall>p \<in> set u. map_of d (fst p) = Some (snd p) \<Longrightarrow> dict_merge d u = d"
  by (induction u) (simp_all add: dict_merge_def dict_set_same [unfolded dict_get_def])

lemma demo_profile_accepted:
  "validate_speed_profile_snapshot (\<lambda>fs. fs) demo_profile demo_snapshot = Inr (profile_of demo_normal)"
proof -
  have "dict_merge demo_snapshot demo_profile = demo_snapshot"
    by (rule dict_merge_same) (auto simp: demo_profile_def demo_snapshot_def map_of_map_restrict SPEED_PROFILE_FIELDS_def)
  moreover have "map fst demo_profile = SPEED_PROFILE_FIELDS" by (simp add: demo_profile_def comp_def)
  ultimately show ?thesis
    by (simp only: validate_speed_profile_snapshot_def demo_accepted bind_result_simps profile_of_def simp_thms if_False)
qed

definition no_profiles :: profile_file where
  "no_profiles = \<lparr> tf_content = None, tf_temporaries = 0 \<rparr>"

theorem saved_profile_loads_back_witness:
  "load_profile (\<lambda>fs. fs) RD_done ''fast'' (fst (save_profile (\<lambda>fs. fs) RD_done WO_done '' fast '' demo_profile demo_snapshot no_profiles))
     = Inr (profile_of demo_normal)"
proof -
  let ?r = "save_profile (\<lambda>fs. fs) RD_done WO_done '' fast '' demo_profile demo_snapshot no_profiles"
  have name: "py_strip '' fast '' = ''fast''" by code_simp
  have "snd ?r = Inr (profile_of demo_normal)"
    by (simp add: save_profile_def name BASELINE_NAME_def demo_profile_accepted write_store_def atomic_write_def)
  then have "?r = (fst ?r, Inr (profile_of demo_normal))" by (metis prod.collapse)
  from saved_profile_loads_back [OF demo_walks this] show ?thesis by (simp add: name)
qed

end
