(* ===== verification/Gateway.thy ===== *)
theory Gateway
  imports AutonomyTuning CommandSupervisor
begin

text \<open>
  The operator gateway (\<open>runner_paddock/gateway.py\<close>): one browser connection
  holds the control lease, every other one observes, and each browser message
  becomes intents or a rejection. The texts of two fresh UUIDs are readings;
  \<open>str\<close> of a value that is no string is a parameter, as is \<open>repr\<close>.
\<close>

section \<open>Reading a browser message\<close>

type_synonym action = "(string \<times> tuning_value) list"

text \<open>\<open>bool(v)\<close>.\<close>

fun truth :: "tuning_value \<Rightarrow> bool" where
  "truth TV_null = False"
| "truth (TV_scalar (LV_bool b)) = b"
| "truth (TV_scalar (LV_int n)) = (n \<noteq> 0)"
| "truth (TV_scalar (LV_float x)) = (x \<noteq> Fin 0)"
| "truth (TV_scalar (LV_str t)) = truthy t"
| "truth (TV_list vs) = (vs \<noteq> [])"
| "truth (TV_dict d) = (d \<noteq> [])"

text \<open>Digits with single underscores between them, as a number and how many there are.\<close>

definition is_digit :: "char \<Rightarrow> bool" where
  "is_digit c = (let n = (of_char c :: nat) in 48 \<le> n \<and> n \<le> 57)"

fun digit_run :: "string \<Rightarrow> string \<times> string" where
  "digit_run [] = ([], [])"
| "digit_run (c # t) =
     (if is_digit c then (case digit_run t of (ds, rest) \<Rightarrow> (c # ds, rest))
      else if c = CHR ''_'' \<and> t \<noteq> [] \<and> is_digit (hd t) then digit_run t
      else ([], c # t))"

text \<open>A run starts with a digit.\<close>

definition digit_part :: "string \<Rightarrow> string \<times> string" where
  "digit_part t = (if t \<noteq> [] \<and> is_digit (hd t) then digit_run t else ([], t))"

definition number_of_digits :: "string \<Rightarrow> int" where
  "number_of_digits ds = foldl (\<lambda>n c. 10 * n + (of_char c - 48)) 0 ds"

definition signed_text :: "string \<Rightarrow> bool \<times> string" where
  "signed_text t =
     (case t of [] \<Rightarrow> (False, []) | c # r \<Rightarrow> if c = CHR ''-'' then (True, r) else if c = CHR ''+'' then (False, r) else (False, t))"

definition lower_char :: "char \<Rightarrow> char" where
  "lower_char c =
     (let n = (of_char c :: nat)
      in if (65 \<le> n \<and> n \<le> 90) \<or> (192 \<le> n \<and> n \<le> 222 \<and> n \<noteq> 215) then char_of (n + 32) else c)"

definition py_lower :: "string \<Rightarrow> string" where
  "py_lower t = map lower_char t"

text \<open>\<open>int(text)\<close> and \<open>float(text)\<close>; \<open>None\<close> is the \<open>ValueError\<close>.\<close>

definition int_of_text :: "string \<Rightarrow> int option" where
  "int_of_text text =
     (let (neg, t) = signed_text (py_strip text); (ds, rest) = digit_part t
      in if ds = [] \<or> rest \<noteq> [] then None
         else Some (if neg then - number_of_digits ds else number_of_digits ds))"

definition exponent_part :: "string \<Rightarrow> int option" where
  "exponent_part t =
     (case t of [] \<Rightarrow> Some 0
      | c # r \<Rightarrow>
          if lower_char c \<noteq> CHR ''e'' then None
          else (let (neg, t') = signed_text r; (ds, rest) = digit_part t'
                in if ds = [] \<or> rest \<noteq> [] then None
                   else Some (if neg then - number_of_digits ds else number_of_digits ds)))"

definition decimal_text :: "string \<Rightarrow> pyfloat option" where
  "decimal_text t =
     (let (whole, r1) = digit_part t;
          (fraction, r2) = (case r1 of [] \<Rightarrow> ([], []) | c # r \<Rightarrow> if c = CHR ''.'' then digit_part r else ([], r1))
      in if whole = [] \<and> fraction = [] then None
         else map_option (\<lambda>e. dbl (of_int (number_of_digits (whole @ fraction)) * 10 powi (e - int (length fraction)))) (exponent_part r2))"

definition float_of_text :: "string \<Rightarrow> pyfloat option" where
  "float_of_text text =
     (let (neg, t) = signed_text (py_strip text); name = py_lower t;
          value = (if name \<in> {''inf'', ''infinity''} then Some PInf else if name = ''nan'' then Some NaN else decimal_text t)
      in if neg then map_option fneg value else value)"

fun py_float :: "tuning_value \<Rightarrow> pyfloat result" where
  "py_float (TV_scalar (LV_float x)) = Inr x"
| "py_float (TV_scalar (LV_int n)) = float_of_int n"
| "py_float (TV_scalar (LV_bool b)) = Inr (Fin (if b then 1 else 0))"
| "py_float (TV_scalar (LV_str t)) =
     (case float_of_text t of None \<Rightarrow> Inl (ValueError ''could not convert string to float'') | Some x \<Rightarrow> Inr x)"
| "py_float v = Inl (TypeError ''float() argument must be a string or a real number'')"

fun py_int :: "tuning_value \<Rightarrow> int result" where
  "py_int (TV_scalar (LV_int n)) = Inr n"
| "py_int (TV_scalar (LV_bool b)) = Inr (if b then 1 else 0)"
| "py_int (TV_scalar (LV_float x)) = int_of_float x"
| "py_int (TV_scalar (LV_str t)) =
     (case int_of_text t of None \<Rightarrow> Inl (ValueError ''invalid literal for int()'') | Some n \<Rightarrow> Inr n)"
| "py_int v = Inl (TypeError ''int() argument must be a string or a real number'')"

text \<open>\<open>action[key]\<close>, and \<open>str(v)\<close> with the parameter for values that are no strings.\<close>

definition item :: "action \<Rightarrow> string \<Rightarrow> tuning_value result" where
  "item a key = (case map_of a key of None \<Rightarrow> Inl (KeyError key) | Some v \<Rightarrow> Inr v)"

definition value_text :: "(tuning_value \<Rightarrow> string) \<Rightarrow> tuning_value \<Rightarrow> string" where
  "value_text str v = (case v of TV_scalar (LV_str t) \<Rightarrow> t | _ \<Rightarrow> str v)"

definition text_item :: "(tuning_value \<Rightarrow> string) \<Rightarrow> action \<Rightarrow> string \<Rightarrow> string \<Rightarrow> string" where
  "text_item str a key fallback = (case map_of a key of None \<Rightarrow> fallback | Some v \<Rightarrow> value_text str v)"

text \<open>\<open>f'{x:.2f}'\<close> of a finite float.\<close>

fun format_2f :: "pyfloat \<Rightarrow> string" where
  "format_2f (Fin q) =
     (let k = nat (round_half_even (\<bar>q\<bar> * 100))
      in (if q < 0 then ''-'' else []) @ digits (k div 100) @ ''.'' @ digits (k mod 100 div 10) @ digits (k mod 10))"
| "format_2f PInf = ''inf''"
| "format_2f NInf = ''-inf''"
| "format_2f NaN = ''nan''"

section \<open>State and intents\<close>

definition MODE_OP_SELECT_RUNTIME :: int where "MODE_OP_SELECT_RUNTIME = 0"
definition MAP_OP_NEW_MAP :: int where "MAP_OP_NEW_MAP = 0"
definition MAP_OP_SAVE_MAP :: int where "MAP_OP_SAVE_MAP = 1"
definition MAP_OP_SELECT_MAP :: int where "MAP_OP_SELECT_MAP = 2"
definition MAP_OP_DELETE_MAP :: int where "MAP_OP_DELETE_MAP = 3"
definition RECORDING_OP_START :: int where "RECORDING_OP_START = 0"
definition RECORDING_OP_STOP :: int where "RECORDING_OP_STOP = 1"
definition RECORDING_OP_DELETE :: int where "RECORDING_OP_DELETE = 2"

definition MODE_NAMES :: "(string \<times> int) list" where
  "MODE_NAMES = [(''idle'', 0), (''mapping'', 1), (''autonomy'', 2)]"

fun control_number :: "control_event \<Rightarrow> int" where
  "control_number CE_RUN_PRESSED = 0"
| "control_number CE_RUN_RELEASED = 1"
| "control_number CE_STOP = 2"
| "control_number CE_MANUAL_ACTIVE = 3"
| "control_number CE_MANUAL_INACTIVE = 4"
| "control_number CE_GOAL_SELECTED = 5"
| "control_number CE_LEASE_ACQUIRED = 6"
| "control_number CE_LEASE_RELEASED = 7"
| "control_number CE_LEASE_LOST = 8"
| "control_number CE_HEARTBEAT = 9"
| "control_number CE_CLEAR_STOP = 10"

record control_intent =
  ct_event :: control_event
  ct_sequence :: int
  ct_client_id :: string
  ct_lease_id :: string
  ct_goal_frame :: string
  ct_goal_x :: pyfloat
  ct_goal_y :: pyfloat
  ct_goal_yaw :: pyfloat
  ct_manual_speed_mps :: pyfloat
  ct_manual_steering :: pyfloat

datatype intent =
    ControlIntent control_intent
  | ModeRequestIntent int int string
  | MapRequestIntent int string string
  | SaveSemanticsIntent string string
  | ConfigRequestIntent string int string pyfloat
  | ClearCostmapsIntent
  | ObstacleProcessingIntent string bool
  | AutonomyTuningIntent action bool
  | SaveSpeedProfileIntent string action
  | DeleteSpeedProfileIntent string
  | InitialPoseIntent pyfloat pyfloat pyfloat string
  | RecordingRequestIntent int string string string

datatype role = CONTROLLER | OBSERVER

record gateway_result =
  gr_accepted :: bool
  gr_reason :: string
  gr_intents :: "intent list"
  gr_role :: role

record gateway =
  gw_sequence :: int
  gw_owner_conn :: "string option"
  gw_client_id :: string
  gw_lease_id :: string
  gw_run_pressed :: bool
  gw_manual_active :: bool

text \<open>The two texts of \<open>_uuid_factory\<close> that one action may draw.\<close>

record gateway_io =
  gi_client_uuid :: string
  gi_lease_uuid :: string

definition new_gateway :: gateway where
  "new_gateway = \<lparr> gw_sequence = 0, gw_owner_conn = None, gw_client_id = [], gw_lease_id = [], gw_run_pressed = False,
     gw_manual_active = False \<rparr>"

definition lease_held :: "gateway \<Rightarrow> bool" where
  "lease_held g = (gw_owner_conn g \<noteq> None)"

definition role_for :: "gateway \<Rightarrow> string \<Rightarrow> role" where
  "role_for g conn = (if gw_owner_conn g = Some conn then CONTROLLER else OBSERVER)"

text \<open>The dictionary of \<open>public_state\<close>.\<close>

definition public_state :: "gateway \<Rightarrow> (string \<times> tuning_value) list" where
  "public_state g =
     [(''lease_held'', TV_scalar (LV_bool (lease_held g))), (''client_id'', TV_scalar (LV_str (gw_client_id g))),
      (''lease_id'', TV_scalar (LV_str (gw_lease_id g))), (''sequence'', TV_scalar (LV_int (gw_sequence g))),
      (''run_pressed'', TV_scalar (LV_bool (gw_run_pressed g)))]"

section \<open>Actions\<close>

definition accept :: "string \<Rightarrow> intent list \<Rightarrow> role \<Rightarrow> gateway_result" where
  "accept reason intents r = \<lparr> gr_accepted = True, gr_reason = reason, gr_intents = intents, gr_role = r \<rparr>"

definition refuse :: "gateway \<Rightarrow> string \<Rightarrow> string \<Rightarrow> gateway_result" where
  "refuse g conn reason = \<lparr> gr_accepted = False, gr_reason = reason, gr_intents = [], gr_role = role_for g conn \<rparr>"

definition plain_control :: "gateway \<Rightarrow> control_event \<Rightarrow> control_intent" where
  "plain_control g e =
     \<lparr> ct_event = e, ct_sequence = gw_sequence g + 1, ct_client_id = gw_client_id g, ct_lease_id = gw_lease_id g,
       ct_goal_frame = ''map'', ct_goal_x = Fin 0, ct_goal_y = Fin 0, ct_goal_yaw = Fin 0,
       ct_manual_speed_mps = Fin 0, ct_manual_steering = Fin 0 \<rparr>"

text \<open>\<open>_control\<close>: the counter goes up and the event carries it with the identity of the lease.\<close>

definition control :: "gateway \<Rightarrow> control_event \<Rightarrow> gateway \<times> intent" where
  "control g e = (g\<lparr>gw_sequence := gw_sequence g + 1\<rparr>, ControlIntent (plain_control g e))"

definition answer_control :: "gateway \<Rightarrow> string \<Rightarrow> control_event \<Rightarrow> gateway \<times> gateway_result" where
  "answer_control g reason e = (let (g', i) = control g e in (g', accept reason [i] CONTROLLER))"

definition forget_owner :: "gateway \<Rightarrow> gateway" where
  "forget_owner g = g\<lparr>gw_owner_conn := None, gw_client_id := [], gw_lease_id := [], gw_run_pressed := False,
     gw_manual_active := False\<rparr>"

definition on_disconnect :: "gateway \<Rightarrow> string \<Rightarrow> gateway \<times> gateway_result" where
  "on_disconnect g conn =
     (if gw_owner_conn g \<noteq> Some conn then (g, accept ''observer disconnected'' [] OBSERVER)
      else (let (g', i) = control g CE_LEASE_RELEASED
            in (forget_owner g', accept ''lease released on disconnect'' [i] OBSERVER)))"

definition grant :: "gateway_io \<Rightarrow> gateway \<Rightarrow> string \<Rightarrow> gateway" where
  "grant io g conn =
     g\<lparr>gw_owner_conn := Some conn, gw_client_id := gi_client_uuid io, gw_lease_id := gi_lease_uuid io,
       gw_run_pressed := False, gw_manual_active := False\<rparr>"

definition do_acquire :: "gateway_io \<Rightarrow> gateway \<Rightarrow> string \<Rightarrow> gateway \<times> gateway_result" where
  "do_acquire io g conn =
     (if gw_owner_conn g = Some conn then (g, accept ''already holding the lease'' [] CONTROLLER)
      else if gw_owner_conn g \<noteq> None
      then (g, \<lparr> gr_accepted = False, gr_reason = ''another session holds the control lease'', gr_intents = [],
                 gr_role = OBSERVER \<rparr>)
      else answer_control (grant io g conn) ''control lease acquired'' CE_LEASE_ACQUIRED)"

definition do_takeover :: "gateway_io \<Rightarrow> gateway \<Rightarrow> string \<Rightarrow> gateway \<times> gateway_result" where
  "do_takeover io g conn =
     (if gw_owner_conn g = Some conn then (g, accept ''already holding the lease'' [] CONTROLLER)
      else if gw_owner_conn g = None then do_acquire io g conn
      else (let (g1, lost) = control g CE_LEASE_LOST;
                (g2, acquired) = control (grant io (forget_owner g1) conn) CE_LEASE_ACQUIRED
            in (g2, accept ''control lease taken over'' [lost, acquired] CONTROLLER)))"

definition do_release :: "gateway \<Rightarrow> string \<Rightarrow> gateway \<times> gateway_result" where
  "do_release g conn =
     (if gw_owner_conn g \<noteq> Some conn then (g, refuse g conn ''not the lease owner'') else on_disconnect g conn)"

definition do_run :: "gateway \<Rightarrow> action \<Rightarrow> gateway \<times> gateway_result" where
  "do_run g a =
     (let held = (case map_of a ''held'' of None \<Rightarrow> False | Some v \<Rightarrow> truth v) in
      if held \<and> \<not> gw_run_pressed g then answer_control (g\<lparr>gw_run_pressed := True\<rparr>) ''RUN pressed'' CE_RUN_PRESSED
      else if held \<and> gw_run_pressed g then answer_control g ''RUN held'' CE_HEARTBEAT
      else if \<not> held \<and> gw_run_pressed g
      then answer_control (g\<lparr>gw_run_pressed := False\<rparr>) ''RUN released'' CE_RUN_RELEASED
      else (g, accept ''RUN idle'' [] CONTROLLER))"

definition do_stop :: "gateway \<Rightarrow> gateway \<times> gateway_result" where
  "do_stop g = answer_control (g\<lparr>gw_run_pressed := False, gw_manual_active := False\<rparr>) ''STOP requested'' CE_STOP"

text \<open>The \<open>except (KeyError, TypeError, ValueError)\<close> around a conversion; other exceptions leave the handler.\<close>

fun conversion_error :: "py_error \<Rightarrow> bool" where
  "conversion_error (KeyError t) = True"
| "conversion_error (TypeError t) = True"
| "conversion_error (ValueError t) = True"
| "conversion_error _ = False"

definition converted :: "gateway \<Rightarrow> string \<Rightarrow> string \<Rightarrow> 'v result \<Rightarrow> ('v \<Rightarrow> gateway \<times> gateway_result) \<Rightarrow> (gateway \<times> gateway_result) result" where
  "converted g conn reason r k =
     (case r of Inr v \<Rightarrow> Inr (k v) | Inl e \<Rightarrow> if conversion_error e then Inr (g, refuse g conn reason) else Inl e)"

definition manual_numbers :: "action \<Rightarrow> (pyfloat \<times> pyfloat) result" where
  "manual_numbers a =
     bind_result (item a ''speed_mps'') (\<lambda>v. bind_result (py_float v) (\<lambda>speed.
       bind_result (item a ''steering'') (\<lambda>w. bind_result (py_float w) (\<lambda>steering. Inr (speed, steering)))))"

definition do_manual :: "gateway \<Rightarrow> string \<Rightarrow> action \<Rightarrow> (gateway \<times> gateway_result) result" where
  "do_manual g conn a =
     (if \<not> (case map_of a ''active'' of None \<Rightarrow> False | Some v \<Rightarrow> truth v)
      then Inr (if \<not> gw_manual_active g then (g, accept ''manual idle'' [] CONTROLLER)
                else answer_control (g\<lparr>gw_manual_active := False\<rparr>) ''manual released'' CE_MANUAL_INACTIVE)
      else converted g conn ''manual needs finite speed and steering'' (manual_numbers a) (\<lambda>(speed, steering).
        if \<not> (isfinite speed \<and> isfinite steering) then (g, refuse g conn ''manual needs finite speed and steering'')
        else (g\<lparr>gw_sequence := gw_sequence g + 1, gw_manual_active := True, gw_run_pressed := False\<rparr>,
              accept ''manual demand''
                [ControlIntent ((plain_control g CE_MANUAL_ACTIVE)\<lparr>ct_manual_speed_mps := speed, ct_manual_steering := steering\<rparr>)]
                CONTROLLER)))"

definition do_set_obstacle_processing :: "(tuning_value \<Rightarrow> string) \<Rightarrow> gateway \<Rightarrow> string \<Rightarrow> action \<Rightarrow> gateway \<times> gateway_result" where
  "do_set_obstacle_processing str g conn a =
     (let costmap = py_lower (py_strip (text_item str a ''costmap'' [])) in
      if costmap \<notin> {''global'', ''local''} then (g, refuse g conn ''obstacle processing costmap must be global or local'')
      else case map_of a ''enabled'' of
          Some (TV_scalar (LV_bool enabled)) \<Rightarrow>
            (g, accept (costmap @ '' obstacle processing '' @ (if enabled then ''ON'' else ''OFF'') @ '' requested'')
                  [ObstacleProcessingIntent costmap enabled] CONTROLLER)
        | _ \<Rightarrow> (g, refuse g conn ''obstacle processing enabled must be boolean''))"

text \<open>\<open>action.get('values', {})\<close> when it is a dictionary.\<close>

definition values_item :: "action \<Rightarrow> action option" where
  "values_item a = (case map_of a ''values'' of None \<Rightarrow> Some [] | Some (TV_dict d) \<Rightarrow> Some d | _ \<Rightarrow> None)"

definition do_autonomy_tuning :: "bool \<Rightarrow> gateway \<Rightarrow> string \<Rightarrow> action \<Rightarrow> gateway \<times> gateway_result" where
  "do_autonomy_tuning save g conn a =
     (case values_item a of
        None \<Rightarrow> (g, refuse g conn ''autonomy tuning values must be an object'')
      | Some values \<Rightarrow>
          (g, accept (if save then ''autonomy tuning override save requested'' else ''autonomy tuning requested'')
                [AutonomyTuningIntent values save] CONTROLLER))"

definition do_save_speed_profile :: "(tuning_value \<Rightarrow> string) \<Rightarrow> gateway \<Rightarrow> string \<Rightarrow> action \<Rightarrow> gateway \<times> gateway_result" where
  "do_save_speed_profile str g conn a =
     (let name = py_strip (text_item str a ''name'' []) in
      if \<not> truthy name then (g, refuse g conn ''save requires a profile name'')
      else case values_item a of
          None \<Rightarrow> (g, refuse g conn ''speed profile values must be an object'')
        | Some values \<Rightarrow>
            (g, accept (''SAVE SPEED PROFILE '' @ name @ '' requested'') [SaveSpeedProfileIntent name values] CONTROLLER))"

text \<open>The actions that name one object: a stripped, nonempty name becomes one intent.\<close>

definition named_action ::
  "(tuning_value \<Rightarrow> string) \<Rightarrow> gateway \<Rightarrow> string \<Rightarrow> action \<Rightarrow> string \<Rightarrow> string \<Rightarrow> (string \<Rightarrow> intent) \<Rightarrow> gateway \<times> gateway_result" where
  "named_action str g conn a missing verb intent_of =
     (let name = py_strip (text_item str a ''name'' []) in
      if \<not> truthy name then (g, refuse g conn missing)
      else (g, accept (verb @ '' '' @ name @ '' requested'') [intent_of name] CONTROLLER))"

definition do_delete_speed_profile :: "(tuning_value \<Rightarrow> string) \<Rightarrow> gateway \<Rightarrow> string \<Rightarrow> action \<Rightarrow> gateway \<times> gateway_result" where
  "do_delete_speed_profile str g conn a =
     named_action str g conn a ''delete requires a profile name'' ''DELETE SPEED PROFILE'' DeleteSpeedProfileIntent"

definition do_delete_recording :: "(tuning_value \<Rightarrow> string) \<Rightarrow> gateway \<Rightarrow> string \<Rightarrow> action \<Rightarrow> gateway \<times> gateway_result" where
  "do_delete_recording str g conn a =
     named_action str g conn a ''delete requires a recording name'' ''recording delete''
       (\<lambda>name. RecordingRequestIntent RECORDING_OP_DELETE (gw_lease_id g) name [])"

definition do_save_map :: "(tuning_value \<Rightarrow> string) \<Rightarrow> gateway \<Rightarrow> string \<Rightarrow> action \<Rightarrow> gateway \<times> gateway_result" where
  "do_save_map str g conn a =
     named_action str g conn a ''save requires a map basename'' ''SAVE MAP'' (\<lambda>name. MapRequestIntent MAP_OP_SAVE_MAP (gw_lease_id g) name)"

definition do_select_map :: "(tuning_value \<Rightarrow> string) \<Rightarrow> gateway \<Rightarrow> string \<Rightarrow> action \<Rightarrow> gateway \<times> gateway_result" where
  "do_select_map str g conn a =
     named_action str g conn a ''select requires a map basename'' ''SELECT MAP'' (\<lambda>name. MapRequestIntent MAP_OP_SELECT_MAP (gw_lease_id g) name)"

definition do_delete_map :: "(tuning_value \<Rightarrow> string) \<Rightarrow> gateway \<Rightarrow> string \<Rightarrow> action \<Rightarrow> gateway \<times> gateway_result" where
  "do_delete_map str g conn a =
     named_action str g conn a ''delete requires a map basename'' ''DELETE MAP'' (\<lambda>name. MapRequestIntent MAP_OP_DELETE_MAP (gw_lease_id g) name)"

definition config_numbers :: "action \<Rightarrow> (pyfloat \<times> int) result" where
  "config_numbers a =
     bind_result (item a ''value'') (\<lambda>v. bind_result (py_float v) (\<lambda>x.
       bind_result (item a ''expected_revision'') (\<lambda>w. bind_result (py_int w) (\<lambda>revision. Inr (x, revision)))))"

definition do_set_config :: "(tuning_value \<Rightarrow> string) \<Rightarrow> gateway \<Rightarrow> string \<Rightarrow> action \<Rightarrow> (gateway \<times> gateway_result) result" where
  "do_set_config str g conn a =
     (let field = text_item str a ''field'' [] in
      if field \<noteq> ''manual_max_speed_mps'' then Inr (g, refuse g conn ''unsupported configuration field'')
      else converted g conn ''configuration value/revision invalid'' (config_numbers a) (\<lambda>(x, revision).
        if \<not> isfinite x \<or> revision < 0 then (g, refuse g conn ''configuration value/revision invalid'')
        else (g, accept (field @ '' configuration requested'') [ConfigRequestIntent (gw_lease_id g) revision field x] CONTROLLER)))"

definition do_start_recording :: "(tuning_value \<Rightarrow> string) \<Rightarrow> gateway \<Rightarrow> action \<Rightarrow> gateway \<times> gateway_result" where
  "do_start_recording str g a =
     (g, accept ''recording start requested''
           [RecordingRequestIntent RECORDING_OP_START (gw_lease_id g) (py_strip (text_item str a ''name'' []))
              (py_strip (text_item str a ''profile'' ''runner_debug''))] CONTROLLER)"

definition do_stop_recording :: "gateway \<Rightarrow> gateway \<times> gateway_result" where
  "do_stop_recording g =
     (g, accept ''recording stop requested'' [RecordingRequestIntent RECORDING_OP_STOP (gw_lease_id g) [] []] CONTROLLER)"

definition do_select_mode :: "(tuning_value \<Rightarrow> string) \<Rightarrow> gateway \<Rightarrow> string \<Rightarrow> action \<Rightarrow> gateway \<times> gateway_result" where
  "do_select_mode str g conn a =
     (case map_of MODE_NAMES (py_lower (text_item str a ''mode'' [])) of
        None \<Rightarrow> (g, refuse g conn ''mode must be idle, mapping or autonomy'')
      | Some m \<Rightarrow>
          (g, accept (''runtime '' @ text_item str a ''mode'' ''None'' @ '' requested'')
                [ModeRequestIntent m MODE_OP_SELECT_RUNTIME (gw_lease_id g)] CONTROLLER))"

definition do_new_map :: "gateway \<Rightarrow> gateway \<times> gateway_result" where
  "do_new_map g = (g, accept ''NEW MAP requested'' [MapRequestIntent MAP_OP_NEW_MAP (gw_lease_id g) []] CONTROLLER)"

definition do_save_semantics :: "(tuning_value \<Rightarrow> string) \<Rightarrow> gateway \<Rightarrow> string \<Rightarrow> action \<Rightarrow> gateway \<times> gateway_result" where
  "do_save_semantics str g conn a =
     (let name = py_strip (text_item str a ''name'' []) in
      if \<not> truthy name then (g, refuse g conn ''save requires a map basename'')
      else case map_of a ''class_data'' of
          Some (TV_scalar (LV_str class_data)) \<Rightarrow>
            if class_data = [] then (g, refuse g conn ''save requires base64 class data'')
            else (g, accept (''SAVE SEMANTICS '' @ name @ '' requested'') [SaveSemanticsIntent name class_data] CONTROLLER)
        | _ \<Rightarrow> (g, refuse g conn ''save requires base64 class data''))"

definition pose_numbers :: "action \<Rightarrow> (pyfloat \<times> pyfloat \<times> pyfloat) result" where
  "pose_numbers a =
     bind_result (item a ''x'') (\<lambda>v. bind_result (py_float v) (\<lambda>x.
       bind_result (item a ''y'') (\<lambda>w. bind_result (py_float w) (\<lambda>y.
         bind_result (case map_of a ''yaw'' of None \<Rightarrow> Inr (Fin 0) | Some u \<Rightarrow> py_float u) (\<lambda>yaw. Inr (x, y, yaw))))))"

definition pose_frame :: "(tuning_value \<Rightarrow> string) \<Rightarrow> action \<Rightarrow> string" where
  "pose_frame str a = (let f = text_item str a ''frame'' ''map'' in if truthy f then f else ''map'')"

definition pose_text :: "pyfloat \<Rightarrow> pyfloat \<Rightarrow> pyfloat \<Rightarrow> string" where
  "pose_text x y yaw = ''('' @ format_2f x @ '', '' @ format_2f y @ '', '' @ format_2f yaw @ '')''"

definition do_select_goal :: "(tuning_value \<Rightarrow> string) \<Rightarrow> gateway \<Rightarrow> string \<Rightarrow> action \<Rightarrow> (gateway \<times> gateway_result) result" where
  "do_select_goal str g conn a =
     converted g conn ''goal needs finite x, y and yaw'' (pose_numbers a) (\<lambda>(x, y, yaw).
       if \<not> (isfinite x \<and> isfinite y \<and> isfinite yaw) then (g, refuse g conn ''goal needs finite x, y and yaw'')
       else if pose_frame str a \<noteq> ''map'' then (g, refuse g conn ''goal frame must be map'')
       else (g\<lparr>gw_sequence := gw_sequence g + 1\<rparr>,
             accept (''goal '' @ pose_text x y yaw @ '' selected'')
               [ControlIntent ((plain_control g CE_GOAL_SELECTED)\<lparr>ct_goal_frame := pose_frame str a, ct_goal_x := x,
                  ct_goal_y := y, ct_goal_yaw := yaw\<rparr>)] CONTROLLER))"

definition do_set_initial_pose :: "(tuning_value \<Rightarrow> string) \<Rightarrow> gateway \<Rightarrow> string \<Rightarrow> action \<Rightarrow> (gateway \<times> gateway_result) result" where
  "do_set_initial_pose str g conn a =
     converted g conn ''initial pose needs finite x, y and yaw'' (pose_numbers a) (\<lambda>(x, y, yaw).
       if \<not> (isfinite x \<and> isfinite y \<and> isfinite yaw) then (g, refuse g conn ''initial pose needs finite x, y and yaw'')
       else if pose_frame str a \<noteq> ''map'' then (g, refuse g conn ''initial pose frame must be map'')
       else (let (g', stop) = control (g\<lparr>gw_run_pressed := False, gw_manual_active := False\<rparr>) CE_STOP
             in (g', accept (''initial pose '' @ pose_text x y yaw @ '' requested'')
                       [stop, InitialPoseIntent x y yaw (pose_frame str a)] CONTROLLER)))"

section \<open>Dispatch\<close>

text \<open>The handlers behind \<open>_require_owner\<close>, by the name of the action.\<close>

definition owner_action ::
  "(tuning_value \<Rightarrow> string) \<Rightarrow> gateway \<Rightarrow> string \<Rightarrow> string \<Rightarrow> action \<Rightarrow> (gateway \<times> gateway_result) result option" where
  "owner_action str g conn name a =
     (if name = ''heartbeat'' then Some (Inr (answer_control g ''heartbeat'' CE_HEARTBEAT))
      else if name = ''run'' then Some (Inr (do_run g a))
      else if name = ''stop'' then Some (Inr (do_stop g))
      else if name = ''clear_stop'' then Some (Inr (answer_control g ''CLEAR STOP requested'' CE_CLEAR_STOP))
      else if name = ''manual'' then Some (do_manual g conn a)
      else if name = ''clear_obstacles''
      then Some (Inr (g, accept ''Nav2 costmap clear requested'' [ClearCostmapsIntent] CONTROLLER))
      else if name = ''set_obstacle_processing'' then Some (Inr (do_set_obstacle_processing str g conn a))
      else if name = ''set_autonomy_tuning'' then Some (Inr (do_autonomy_tuning False g conn a))
      else if name = ''save_autonomy_tuning'' then Some (Inr (do_autonomy_tuning True g conn a))
      else if name = ''save_speed_profile'' then Some (Inr (do_save_speed_profile str g conn a))
      else if name = ''delete_speed_profile'' then Some (Inr (do_delete_speed_profile str g conn a))
      else if name = ''set_config'' then Some (do_set_config str g conn a)
      else if name = ''start_recording'' then Some (Inr (do_start_recording str g a))
      else if name = ''stop_recording'' then Some (Inr (do_stop_recording g))
      else if name = ''delete_recording'' then Some (Inr (do_delete_recording str g conn a))
      else if name = ''select_mode'' then Some (Inr (do_select_mode str g conn a))
      else if name = ''new_map'' then Some (Inr (do_new_map g))
      else if name = ''save_map'' then Some (Inr (do_save_map str g conn a))
      else if name = ''select_map'' then Some (Inr (do_select_map str g conn a))
      else if name = ''delete_map'' then Some (Inr (do_delete_map str g conn a))
      else if name = ''save_semantics'' then Some (Inr (do_save_semantics str g conn a))
      else if name = ''select_goal'' then Some (do_select_goal str g conn a)
      else if name = ''set_initial_pose'' then Some (do_set_initial_pose str g conn a)
      else None)"

definition handle_named ::
  "(tuning_value \<Rightarrow> string) \<Rightarrow> gateway_io \<Rightarrow> gateway \<Rightarrow> string \<Rightarrow> string \<Rightarrow> action \<Rightarrow> (gateway \<times> gateway_result) result" where
  "handle_named str io g conn name a =
     (if name = ''acquire'' then Inr (do_acquire io g conn)
      else if name = ''takeover'' then Inr (do_takeover io g conn)
      else if name = ''release'' then Inr (do_release g conn)
      else case owner_action str g conn name a of
          None \<Rightarrow> Inr (g, refuse g conn ''unknown action'')
        | Some r \<Rightarrow> if gw_owner_conn g \<noteq> Some conn then Inr (g, refuse g conn ''this session does not hold the lease'') else r)"

definition handle ::
  "(tuning_value \<Rightarrow> string) \<Rightarrow> gateway_io \<Rightarrow> gateway \<Rightarrow> string \<Rightarrow> tuning_value \<Rightarrow> (gateway \<times> gateway_result) result" where
  "handle str io g conn message =
     (case message of
        TV_dict a \<Rightarrow>
          (case map_of a ''action'' of
             Some (TV_scalar (LV_str name)) \<Rightarrow> handle_named str io g conn name a
           | _ \<Rightarrow> Inr (g, refuse g conn ''unknown action''))
      | _ \<Rightarrow> Inr (g, refuse g conn ''action must be an object''))"

text \<open>A handler that raises has changed nothing.\<close>

datatype gateway_input = GI_action gateway_io string tuning_value | GI_disconnect string

fun gateway_turn :: "(tuning_value \<Rightarrow> string) \<Rightarrow> gateway \<Rightarrow> gateway_input \<Rightarrow> gateway \<times> intent list" where
  "gateway_turn str g (GI_action io conn message) =
     (case handle str io g conn message of Inl e \<Rightarrow> (g, []) | Inr (g', r) \<Rightarrow> (g', gr_intents r))"
| "gateway_turn str g (GI_disconnect conn) = (let (g', r) = on_disconnect g conn in (g', gr_intents r))"

section \<open>What the control events tell\<close>

text \<open>
  The lease and the RUN button as a reader of the control events sees them: the
  gateway's contract with the vehicle. An event is legal when it carries the
  next sequence number and the identity of the lease, and a lease is acquired
  only when none is held.
\<close>

record view =
  vw_ids :: "(string \<times> string) option"
  vw_run :: bool
  vw_sequence :: int

definition start_view :: view where
  "start_view = \<lparr> vw_ids = None, vw_run = False, vw_sequence = 0 \<rparr>"

definition view_step :: "view \<Rightarrow> control_intent \<Rightarrow> view" where
  "view_step v e =
     \<lparr> vw_ids = (if ct_event e = CE_LEASE_ACQUIRED then Some (ct_client_id e, ct_lease_id e)
                 else if ct_event e \<in> {CE_LEASE_RELEASED, CE_LEASE_LOST} then None else vw_ids v),
       vw_run = (if ct_event e = CE_RUN_PRESSED then True
                 else if ct_event e \<in> {CE_HEARTBEAT, CE_CLEAR_STOP, CE_GOAL_SELECTED, CE_MANUAL_INACTIVE} then vw_run v else False),
       vw_sequence = ct_sequence e \<rparr>"

definition legal_event :: "view \<Rightarrow> control_intent \<Rightarrow> bool" where
  "legal_event v e \<longleftrightarrow> ct_sequence e = vw_sequence v + 1
     \<and> (if ct_event e = CE_LEASE_ACQUIRED then vw_ids v = None else vw_ids v = Some (ct_client_id e, ct_lease_id e))"

fun legal_trace :: "view \<Rightarrow> control_intent list \<Rightarrow> bool" where
  "legal_trace v [] = True"
| "legal_trace v (e # es) = (legal_event v e \<and> legal_trace (view_step v e) es)"

fun control_of :: "intent \<Rightarrow> control_intent list" where
  "control_of (ControlIntent e) = [e]"
| "control_of _ = []"

definition controls :: "intent list \<Rightarrow> control_intent list" where
  "controls intents = concat (map control_of intents)"

definition view_after :: "view \<Rightarrow> control_intent list \<Rightarrow> view" where
  "view_after v es = foldl view_step v es"

lemma view_after_simps [simp]:
  "view_after v [] = v" "view_after v (e # es) = view_after (view_step v e) es"
  "view_after v (es @ fs) = view_after (view_after v es) fs"
  by (simp_all add: view_after_def)

lemma legal_append [simp]: "legal_trace v (es @ fs) \<longleftrightarrow> legal_trace v es \<and> legal_trace (view_after v es) fs"
  by (induction es arbitrary: v) simp_all

lemma controls_simps [simp]:
  "controls [] = []" "controls (i # intents) = control_of i @ controls intents"
  "controls (intents @ js) = controls intents @ controls js"
  by (simp_all add: controls_def)

text \<open>The view of the gateway itself, which its events have to convey.\<close>

definition gw_view :: "gateway \<Rightarrow> view" where
  "gw_view g = \<lparr> vw_ids = (case gw_owner_conn g of None \<Rightarrow> None | Some c \<Rightarrow> Some (gw_client_id g, gw_lease_id g)),
     vw_run = gw_run_pressed g, vw_sequence = gw_sequence g \<rparr>"

definition gw_inv :: "gateway \<Rightarrow> bool" where
  "gw_inv g \<longleftrightarrow> (gw_owner_conn g = None \<longrightarrow> \<not> gw_run_pressed g \<and> \<not> gw_manual_active g \<and> gw_client_id g = [] \<and> gw_lease_id g = [])
     \<and> 0 \<le> gw_sequence g"

definition conveys :: "gateway \<Rightarrow> gateway \<Rightarrow> intent list \<Rightarrow> bool" where
  "conveys g g' intents \<longleftrightarrow> gw_inv g' \<and> legal_trace (gw_view g) (controls intents)
     \<and> gw_view g' = view_after (gw_view g) (controls intents)"

lemmas convey_defs = conveys_def gw_inv_def gw_view_def view_step_def legal_event_def plain_control_def

lemma conveys_silent: "gw_inv g \<Longrightarrow> controls intents = [] \<Longrightarrow> conveys g g intents"
  by (simp add: conveys_def)

lemma conveys_refuse [simp]: "gr_intents (refuse g conn reason) = []" "gr_intents (accept reason intents r) = intents"
  "gr_accepted (refuse g conn reason) = False"
  by (simp_all add: refuse_def accept_def)

text \<open>An answer with one event that neither ends the lease nor contradicts the flags of the new state.\<close>

lemma conveys_control:
  assumes "gw_inv g" "gw_owner_conn g = Some conn" "e \<notin> {CE_LEASE_ACQUIRED, CE_LEASE_RELEASED, CE_LEASE_LOST}"
    and "gw_owner_conn g1 = Some conn" "gw_client_id g1 = gw_client_id g" "gw_lease_id g1 = gw_lease_id g"
      "gw_sequence g1 = gw_sequence g"
      "gw_run_pressed g1 = vw_run (view_step (gw_view g) (plain_control g e))"
  shows "conveys g (fst (answer_control g1 reason e)) (gr_intents (snd (answer_control g1 reason e)))"
  using assms by (auto simp: answer_control_def control_def convey_defs)

lemma do_run_conveys:
  assumes "gw_inv g" "gw_owner_conn g = Some conn"
  shows "conveys g (fst (do_run g a)) (gr_intents (snd (do_run g a)))"
  using assms conveys_silent [OF assms(1), of "[]"] unfolding do_run_def Let_def
  by (auto intro!: conveys_control [OF assms] simp: view_step_def gw_view_def plain_control_def)

lemma do_stop_conveys:
  assumes "gw_inv g" "gw_owner_conn g = Some conn"
  shows "conveys g (fst (do_stop g)) (gr_intents (snd (do_stop g)))"
  unfolding do_stop_def using assms
  by (intro conveys_control [OF assms]) (simp_all add: view_step_def gw_view_def plain_control_def)

lemma converted_conveys:
  assumes "gw_inv g" "converted g conn reason r k = Inr (g', res)"
    and "\<And>v. conveys g (fst (k v)) (gr_intents (snd (k v)))"
  shows "conveys g g' (gr_intents res)"
  using assms(2,3) conveys_silent [OF assms(1), of "[]"]
  by (cases r) (auto simp: converted_def split: if_splits, metis fst_conv snd_conv)

lemma do_manual_conveys:
  assumes "gw_inv g" "gw_owner_conn g = Some conn" "do_manual g conn a = Inr (g', res)"
  shows "conveys g g' (gr_intents res)"
proof (cases "case map_of a ''active'' of None \<Rightarrow> False | Some v \<Rightarrow> truth v")
  case True
  show ?thesis
    by (rule converted_conveys [OF assms(1)], use assms(3) True in \<open>simp add: do_manual_def\<close>)
      (use assms conveys_silent [OF assms(1), of "[]"] in \<open>auto simp: convey_defs split: prod.split\<close>)
next
  case False
  have "conveys g (fst (answer_control (g\<lparr>gw_manual_active := False\<rparr>) t CE_MANUAL_INACTIVE))
      (gr_intents (snd (answer_control (g\<lparr>gw_manual_active := False\<rparr>) t CE_MANUAL_INACTIVE)))" for t
    using assms(2) by (intro conveys_control [OF assms(1,2)]) (simp_all add: view_step_def gw_view_def plain_control_def)
  then show ?thesis using assms(3) False conveys_silent [OF assms(1), of "[]"]
    by (auto simp: do_manual_def split: if_splits) (metis fst_conv snd_conv)
qed

lemma do_select_goal_conveys:
  assumes "gw_inv g" "gw_owner_conn g = Some conn" "do_select_goal str g conn a = Inr (g', res)"
  shows "conveys g g' (gr_intents res)"
  by (rule converted_conveys [OF assms(1) assms(3) [unfolded do_select_goal_def]])
    (use assms conveys_silent [OF assms(1), of "[]"] in \<open>auto simp: convey_defs split: prod.split\<close>)

lemma do_set_initial_pose_conveys:
  assumes "gw_inv g" "gw_owner_conn g = Some conn" "do_set_initial_pose str g conn a = Inr (g', res)"
  shows "conveys g g' (gr_intents res)"
  by (rule converted_conveys [OF assms(1) assms(3) [unfolded do_set_initial_pose_def]])
    (use assms conveys_silent [OF assms(1), of "[]"] in \<open>auto simp: convey_defs control_def Let_def split: prod.split\<close>)

lemma do_set_config_conveys:
  assumes "gw_inv g" "do_set_config str g conn a = Inr (g', res)"
  shows "conveys g g' (gr_intents res)"
proof (cases "text_item str a ''field'' [] = ''manual_max_speed_mps''")
  case True
  have "converted g conn ''configuration value/revision invalid'' (config_numbers a) (\<lambda>(x, revision).
      if \<not> isfinite x \<or> revision < 0 then (g, refuse g conn ''configuration value/revision invalid'')
      else (g, accept (''manual_max_speed_mps'' @ '' configuration requested'')
        [ConfigRequestIntent (gw_lease_id g) revision ''manual_max_speed_mps'' x] CONTROLLER)) = Inr (g', res)"
    using assms(2) True unfolding do_set_config_def Let_def by (simp only: True simp_thms if_False)
  then show ?thesis by (rule converted_conveys [OF assms(1)]) (auto intro: conveys_silent [OF assms(1)] split: prod.split)
next
  case False
  then show ?thesis using assms(2) conveys_silent [OF assms(1), of "[]"] by (auto simp: do_set_config_def)
qed

text \<open>The remaining actions change nothing and emit no control event.\<close>

lemma silent_actions:
  "fst (do_set_obstacle_processing str g conn a) = g" "controls (gr_intents (snd (do_set_obstacle_processing str g conn a))) = []"
  "fst (do_autonomy_tuning save g conn a) = g" "controls (gr_intents (snd (do_autonomy_tuning save g conn a))) = []"
  "fst (do_save_speed_profile str g conn a) = g" "controls (gr_intents (snd (do_save_speed_profile str g conn a))) = []"
  "fst (do_start_recording str g a) = g" "controls (gr_intents (snd (do_start_recording str g a))) = []"
  "fst (do_stop_recording g) = g" "controls (gr_intents (snd (do_stop_recording g))) = []"
  "fst (do_select_mode str g conn a) = g" "controls (gr_intents (snd (do_select_mode str g conn a))) = []"
  "fst (do_new_map g) = g" "controls (gr_intents (snd (do_new_map g))) = []"
  "fst (do_save_semantics str g conn a) = g" "controls (gr_intents (snd (do_save_semantics str g conn a))) = []"
  by (auto simp: do_set_obstacle_processing_def do_autonomy_tuning_def do_save_speed_profile_def do_start_recording_def
      do_stop_recording_def do_select_mode_def do_new_map_def do_save_semantics_def Let_def
      split: option.split tuning_value.split live_value.split)

lemma silent_named:
  assumes "\<And>name. control_of (intent_of name) = []"
  shows "fst (named_action str g conn a missing verb intent_of) = g"
    "controls (gr_intents (snd (named_action str g conn a missing verb intent_of))) = []"
  using assms by (auto simp: named_action_def Let_def)

lemma conveys_pair: "conveys g (fst p) (gr_intents (snd p)) \<Longrightarrow> p = (g', res) \<Longrightarrow> conveys g g' (gr_intents res)"
  by simp

lemma silent_pair: "gw_inv g \<Longrightarrow> fst p = g \<Longrightarrow> controls (gr_intents (snd p)) = [] \<Longrightarrow> p = (g', res) \<Longrightarrow> conveys g g' (gr_intents res)"
  using conveys_silent by auto

definition conveying :: "gateway \<Rightarrow> (gateway \<times> gateway_result) result option \<Rightarrow> bool" where
  "conveying g x \<longleftrightarrow> (\<forall>g' res. x = Some (Inr (g', res)) \<longrightarrow> conveys g g' (gr_intents res))"

lemma conveying_intros:
  "conveying g x \<Longrightarrow> conveying g y \<Longrightarrow> conveying g (if c then x else y)"
  "conveying g None"
  "conveys g (fst p) (gr_intents (snd p)) \<Longrightarrow> conveying g (Some (Inr p))"
  by (auto simp: conveying_def)

lemma conveying_fallible: "(\<And>g' res. r = Inr (g', res) \<Longrightarrow> conveys g g' (gr_intents res)) \<Longrightarrow> conveying g (Some r)"
  by (auto simp: conveying_def)

lemma conveying_silent: "gw_inv g \<Longrightarrow> fst p = g \<Longrightarrow> controls (gr_intents (snd p)) = [] \<Longrightarrow> conveying g (Some (Inr p))"
  using conveys_silent [of g] conveying_intros(3) [of g p] by simp

lemma owner_action_conveying:
  assumes inv: "gw_inv g" and own: "gw_owner_conn g = Some conn"
  shows "conveying g (owner_action str g conn name a)"
proof -
  have hb: "conveying g (Some (Inr (answer_control g t e)))" if "e \<in> {CE_HEARTBEAT, CE_CLEAR_STOP}" for t e
    using that own by (intro conveying_intros conveys_control [OF inv own]) (auto simp: view_step_def gw_view_def plain_control_def)
  note control = hb [of CE_HEARTBEAT, simplified] hb [of CE_CLEAR_STOP, simplified]
    conveying_intros(3) [OF do_run_conveys [OF inv own]] conveying_intros(3) [OF do_stop_conveys [OF inv own]]
  have fallible: "conveying g (Some (do_manual g conn a))" "conveying g (Some (do_select_goal str g conn a))"
    "conveying g (Some (do_set_initial_pose str g conn a))" "conveying g (Some (do_set_config str g conn a))"
    using do_manual_conveys [OF inv own] do_select_goal_conveys [OF inv own] do_set_initial_pose_conveys [OF inv own]
      do_set_config_conveys [OF inv] by (auto simp: conveying_def)
  have named: "conveying g (Some (Inr (named_action str g conn a missing verb f)))" if "\<And>n. control_of (f n) = []" for missing verb f
    by (rule conveying_silent [OF inv]) (simp_all add: silent_named [of f, OF that])
  have clear: "conveying g (Some (Inr (g, accept t [ClearCostmapsIntent] CONTROLLER)))" for t
    by (rule conveying_silent [OF inv]) simp_all
  note silent = conveying_silent [OF inv silent_actions(1,2)] conveying_silent [OF inv silent_actions(3,4)]
    conveying_silent [OF inv silent_actions(5,6)] conveying_silent [OF inv silent_actions(7,8)]
    conveying_silent [OF inv silent_actions(9,10)] conveying_silent [OF inv silent_actions(11,12)]
    conveying_silent [OF inv silent_actions(13,14)] conveying_silent [OF inv silent_actions(15,16)]
  show ?thesis
    unfolding owner_action_def do_delete_speed_profile_def do_delete_recording_def do_save_map_def do_select_map_def do_delete_map_def
    by (intro conveying_intros(1,2) control fallible clear silent named) simp_all
qed

lemma owner_action_conveys:
  "gw_inv g \<Longrightarrow> gw_owner_conn g = Some conn \<Longrightarrow> owner_action str g conn name a = Some (Inr (g', res)) \<Longrightarrow> conveys g g' (gr_intents res)"
  using owner_action_conveying [of g conn str name a] by (simp add: conveying_def)

lemma grant_conveys:
  assumes "gw_inv g" "gw_owner_conn g = None"
  shows "conveys g (fst (answer_control (grant io g conn) t CE_LEASE_ACQUIRED)) (gr_intents (snd (answer_control (grant io g conn) t CE_LEASE_ACQUIRED)))"
  using assms by (simp add: answer_control_def control_def grant_def convey_defs)

lemma do_acquire_conveys: "gw_inv g \<Longrightarrow> conveys g (fst (do_acquire io g conn)) (gr_intents (snd (do_acquire io g conn)))"
  using grant_conveys conveys_silent [of g "[]"] by (auto simp: do_acquire_def)

lemma do_takeover_conveys: "gw_inv g \<Longrightarrow> conveys g (fst (do_takeover io g conn)) (gr_intents (snd (do_takeover io g conn)))"
  using do_acquire_conveys [of g io conn] conveys_silent [of g "[]"]
  by (auto simp: do_takeover_def control_def grant_def forget_owner_def Let_def convey_defs)

lemma on_disconnect_conveys:
  assumes "gw_inv g"
  shows "conveys g (fst (on_disconnect g conn)) (gr_intents (snd (on_disconnect g conn)))"
proof (cases "gw_owner_conn g = Some conn")
  case True
  then show ?thesis using assms by (simp add: on_disconnect_def control_def forget_owner_def Let_def convey_defs)
next
  case False
  then show ?thesis using conveys_silent [OF assms, of "[]"] by (simp add: on_disconnect_def)
qed

lemma handle_named_conveys:
  assumes "gw_inv g" "handle_named str io g conn name a = Inr (g', res)"
  shows "conveys g g' (gr_intents res)"
  using assms(2) conveys_silent [OF assms(1), of "[]"] unfolding handle_named_def do_release_def
  by (auto split: if_split_asm option.split_asm intro: owner_action_conveys [OF assms(1)]
      conveys_pair [OF do_acquire_conveys [OF assms(1)]] conveys_pair [OF do_takeover_conveys [OF assms(1)]]
      conveys_pair [OF on_disconnect_conveys [OF assms(1)]])

lemma gateway_turn_conveys:
  assumes "gw_inv g"
  shows "conveys g (fst (gateway_turn str g i)) (snd (gateway_turn str g i))"
proof (cases i)
  case (GI_action io conn message)
  have "conveys g g' (gr_intents r)" if "handle str io g conn message = Inr (g', r)" for g' r
    using that handle_named_conveys [OF assms] conveys_silent [OF assms, of "[]"]
    by (auto simp: handle_def split: tuning_value.split_asm option.split_asm live_value.split_asm)
  then show ?thesis using conveys_silent [OF assms, of "[]"] GI_action by (auto split: sum.split prod.split)
next
  case (GI_disconnect conn)
  then show ?thesis using on_disconnect_conveys [OF assms, of conn] by (simp add: Let_def case_prod_unfold)
qed

fun gateway_run :: "(tuning_value \<Rightarrow> string) \<Rightarrow> gateway \<Rightarrow> gateway_input list \<Rightarrow> gateway \<times> intent list" where
  "gateway_run str g [] = (g, [])"
| "gateway_run str g (i # inputs) =
     (let (g1, now) = gateway_turn str g i; (g2, later) = gateway_run str g1 inputs in (g2, now @ later))"

definition gw_initial :: "gateway \<Rightarrow> bool" where
  "gw_initial g \<longleftrightarrow> g = new_gateway"

interpretation gateway_exec: counting_machine gw_initial "\<lambda>g i. fst (gateway_turn str g i)" gw_inv gw_sequence for str
proof unfold_locales
  show "gw_initial g \<Longrightarrow> gw_inv g" for g by (simp add: gw_initial_def new_gateway_def gw_inv_def)
  show "gw_inv g \<Longrightarrow> gw_inv (fst (gateway_turn str g i))" for g i using gateway_turn_conveys by (simp add: conveys_def)
  show "gw_inv g \<Longrightarrow> gw_sequence g \<le> gw_sequence (fst (gateway_turn str g i))" for g i
  proof -
    assume "gw_inv g"
    then have c: "conveys g (fst (gateway_turn str g i)) (snd (gateway_turn str g i))" by (rule gateway_turn_conveys)
    have "vw_sequence v \<le> vw_sequence (view_after v es)" if "legal_trace v es" for v es
      using that by (induction es arbitrary: v) (fastforce simp: legal_event_def view_step_def)+
    then show ?thesis using c by (metis conveys_def gw_view_def view.select_convs(3))
  qed
qed

lemma gateway_run_conveys: "gw_inv g \<Longrightarrow> conveys g (fst (gateway_run str g inputs)) (snd (gateway_run str g inputs))"
proof (induction inputs arbitrary: g)
  case Nil
  then show ?case by (simp add: conveys_def)
next
  case (Cons i inputs)
  have "conveys g (fst (gateway_turn str g i)) (snd (gateway_turn str g i))" by (rule gateway_turn_conveys [OF Cons.prems])
  then show ?case using Cons.IH [of "fst (gateway_turn str g i)"]
    by (auto simp: conveys_def Let_def case_prod_unfold)
qed

text \<open>
  C15. The control events are a faithful account of the gateway, whatever the
  browsers send and whenever they disconnect: they are numbered without gaps,
  every one carries the identity of the lease it belongs to, a lease is
  acquired only after the one before it was released or lost, and the lease,
  the RUN button and the counter that a reader reconstructs from them are those
  of the gateway.
\<close>

theorem events_convey_gateway:
  "legal_trace start_view (controls (snd (gateway_run str new_gateway inputs)))
   \<and> gw_view (fst (gateway_run str new_gateway inputs)) = view_after start_view (controls (snd (gateway_run str new_gateway inputs)))"
proof -
  have "gw_inv new_gateway" "gw_view new_gateway = start_view"
    by (simp_all add: new_gateway_def gw_inv_def gw_view_def start_view_def)
  then show ?thesis using gateway_run_conveys [of new_gateway str inputs] by (simp add: conveys_def)
qed

text \<open>An observer can acquire or take over the lease; everything else it sends changes nothing and is refused.\<close>

lemma observer_is_refused:
  assumes "gw_owner_conn g \<noteq> Some conn"
    and "\<And>a. message = TV_dict a \<Longrightarrow> map_of a ''action'' \<notin> {Some (TV_scalar (LV_str ''acquire'')), Some (TV_scalar (LV_str ''takeover''))}"
  shows "\<exists>r. handle str io g conn message = Inr (g, r) \<and> gr_intents r = [] \<and> \<not> gr_accepted r"
proof -
  have "\<exists>r. handle_named str io g conn name a = Inr (g, r) \<and> gr_intents r = [] \<and> \<not> gr_accepted r"
    if "name \<noteq> ''acquire''" "name \<noteq> ''takeover''" for name a
    using that assms(1) by (simp add: handle_named_def do_release_def split: option.split)
  then show ?thesis using assms(2)
    by (auto simp: handle_def split: tuning_value.split option.split live_value.split)
qed

end
