(* ===== verification/BrowserRun.thy ===== *)
theory BrowserRun
  imports Gateway
begin

text \<open>
  The gateway and the command supervisor together. The gateway's control events
  reach the supervisor in order, over a reliable topic, but any amount later;
  a CLEAR STOP event may be withheld, which \<open>submit\<close> does while an initial
  pose is being applied. In between the supervisor sees the clock, mode changes,
  the gamepad and raw commands. The question is whether the vehicle may act on a RUN button that
  nobody holds.
\<close>

section \<open>The channel\<close>

text \<open>The \<open>PaddockControlEvent\<close> message of an intent, with the clock reading of its receipt.\<close>

definition control_message :: "control_intent \<Rightarrow> pyfloat \<Rightarrow> control_input" where
  "control_message e now =
     \<lparr> ci_event = ct_event e, ci_client_id = ct_client_id e, ci_lease_id = ct_lease_id e, ci_sequence = ct_sequence e,
       ci_now = now, ci_goal_x = ct_goal_x e, ci_goal_y = ct_goal_y e, ci_goal_yaw = ct_goal_yaw e,
       ci_manual_speed_mps = ct_manual_speed_mps e, ci_manual_steering = ct_manual_steering e \<rparr>"

datatype link_input = LK_deliver pyfloat | LK_withhold | LK_other sup_input

fun not_control :: "link_input \<Rightarrow> bool" where
  "not_control (LK_other (InControl i)) = False"
| "not_control _ = True"

fun link_run :: "control_intent list \<Rightarrow> supervisor \<Rightarrow> link_input list \<Rightarrow> control_intent list \<times> supervisor" where
  "link_run es c [] = (es, c)"
| "link_run [] c (LK_deliver now # xs) = link_run [] c xs"
| "link_run (e # es) c (LK_deliver now # xs) = link_run es (sup_step c (InControl (control_message e now))) xs"
| "link_run [] c (LK_withhold # xs) = link_run [] c xs"
| "link_run (e # es) c (LK_withhold # xs) = link_run (if ct_event e = CE_CLEAR_STOP then es else e # es) c xs"
| "link_run es c (LK_other i # xs) = link_run es (sup_step c i) xs"

section \<open>What the supervisor may believe\<close>

definition driving :: "paddock_state \<Rightarrow> bool" where
  "driving s \<longleftrightarrow> ps_run_held s \<and> ps_mode s \<noteq> MODE_IDLE \<and> \<not> ps_run_blocked_until_release s"

text \<open>The supervisor believes no more than the events it has received say.\<close>

definition believes :: "view \<Rightarrow> supervisor \<Rightarrow> bool" where
  "believes v c \<longleftrightarrow>
     (lease_active (cs_state c) \<longrightarrow>
        vw_ids v = Some (ps_lease_client_id (cs_state c), ps_lease_id (cs_state c))
        \<and> (\<exists>p. cs_last_control_sequence c = Some p \<and> 0 \<le> p \<and> p \<le> vw_sequence v))
     \<and> (driving (cs_state c) \<longrightarrow> vw_run v)"

text \<open>A step that gives the supervisor no new belief.\<close>

definition learns_nothing :: "supervisor \<Rightarrow> supervisor \<Rightarrow> bool" where
  "learns_nothing c c' \<longleftrightarrow>
     (lease_active (cs_state c') \<longrightarrow> lease_active (cs_state c)
        \<and> ps_lease_client_id (cs_state c') = ps_lease_client_id (cs_state c)
        \<and> ps_lease_id (cs_state c') = ps_lease_id (cs_state c)
        \<and> cs_last_control_sequence c' = cs_last_control_sequence c)
     \<and> (driving (cs_state c') \<longrightarrow> driving (cs_state c))"

lemma learns_refl [simp]: "learns_nothing c c"
  by (simp add: learns_nothing_def)

lemma learns_trans: "learns_nothing a b \<Longrightarrow> learns_nothing b c \<Longrightarrow> learns_nothing a c"
  unfolding learns_nothing_def by metis

lemma learns_believes: "learns_nothing c c' \<Longrightarrow> believes v c \<Longrightarrow> believes v c'"
  unfolding learns_nothing_def believes_def by metis

lemma learns_same: "cs_state c' = cs_state c \<Longrightarrow> cs_last_control_sequence c' = cs_last_control_sequence c \<Longrightarrow> learns_nothing c c'"
  by (simp add: learns_nothing_def)

lemma clear_manual_same [simp]:
  "cs_state (clear_manual_if_inactive c) = cs_state c"
  "cs_last_control_sequence (clear_manual_if_inactive c) = cs_last_control_sequence c"
  by (simp_all add: clear_manual_if_inactive_def)

lemma expire_learns: "learns_nothing c (fst (expire_lease c now))"
  by (auto simp: learns_nothing_def expire_lease_def driving_def transition_simps on_lease_end_def sm_defs lease_args_def no_args_def)

lemma unheld_learns:
  "\<not> lease_active (cs_state c') \<Longrightarrow> \<not> ps_run_held (cs_state c') \<Longrightarrow> learns_nothing c c'"
  by (simp add: learns_nothing_def driving_def)


lemma ps_inv_unheld: "ps_inv s \<Longrightarrow> \<not> lease_active s \<Longrightarrow> \<not> ps_run_held s"
  by (simp add: ps_inv_def)

lemma expire_manual_learns: "learns_nothing c (fst (expire_manual c now))"
  by (auto simp: learns_nothing_def expire_manual_def driving_def transition_simps on_manual_inactive_def sm_defs)

lemma tick_learns: "learns_nothing c (fst (tick c now))"
  using learns_trans [OF expire_learns expire_manual_learns] by (simp add: tick_def case_prod_unfold Let_def)

lemma reduced_learns:
  "e \<in> {EV_REQUEST_MODE, EV_DUALSENSE_ACTIVE, EV_DUALSENSE_INACTIVE} \<Longrightarrow>
   learns_nothing c (c\<lparr>cs_state := fst (transition (cs_state c) e a)\<rparr>)"
  by (auto simp: learns_nothing_def driving_def transition_simps branch_defs lease_active_def
      split: option.split_asm if_split_asm)

lemma follow_learns: "learns_nothing c (c\<lparr>cs_state := follow_runtime (cs_state c) m map_name ok\<rparr>)"
  by (auto simp: learns_nothing_def driving_def follow_runtime_def lease_active_def Let_def)

lemma clear_learns: "learns_nothing c (clear_manual_if_inactive c)"
  by (rule learns_same) simp_all

text \<open>Nothing but a control event tells the supervisor that RUN is held or who holds the lease.\<close>

lemma other_step_learns:
  assumes "not_control (LK_other i)"
  shows "learns_nothing c (sup_step c i)"
proof (cases i)
  case (InTick now)
  then show ?thesis by (simp add: tick_learns)
next
  case (InRuntimeMode m map_name now ok)
  have "learns_nothing c (clear_manual_if_inactive (c1\<lparr>cs_state := follow_runtime (cs_state c1) m map_name ok\<rparr>))"
    if "c1 = fst (expire_lease c now)" for c1
    using that learns_trans [OF expire_learns learns_trans [OF follow_learns clear_learns]] by simp
  then show ?thesis using InRuntimeMode by (simp add: set_runtime_mode_def Let_def)
next
  case (InControl k)
  then show ?thesis using assms by simp
next
  case (InRequestMode m r l now)
  then show ?thesis
    using learns_trans [OF expire_learns reduced_learns [of EV_REQUEST_MODE]] by (simp add: request_mode_def Let_def)
next
  case (InDualsense b now)
  then show ?thesis
    using learns_trans [OF expire_learns learns_trans [OF reduced_learns clear_learns]]
    by (simp add: set_dualsense_active_def Let_def)
next
  case (InRawAutonomy v now)
  have "learns_nothing c (c1\<lparr>cs_last_raw_autonomy_at := t\<rparr>)" if "c1 = fst (expire_lease c now)" for c1 t
    using that learns_trans [OF expire_learns learns_same] by simp
  then show ?thesis using InRawAutonomy by (simp add: receive_raw_autonomy_def Let_def)
next
  case (InRawManual v q now)
  have "learns_nothing c (c1\<lparr>cs_last_raw_manual_at := t\<rparr>)" "learns_nothing c c1"
    if "c1 = fst (expire_manual (fst (expire_lease c now)) now)" for c1 t
    using that learns_trans [OF learns_trans [OF expire_learns expire_manual_learns] learns_same]
      learns_trans [OF expire_learns expire_manual_learns] by simp_all
  then show ?thesis using InRawManual by (simp add: receive_raw_manual_def Let_def)
next
  case (InRestart now)
  then show ?thesis
    by (simp add: restart_def transition_simps on_restart_def initial_state_def learns_nothing_def driving_def lease_active_def)
next
  case (InSetMaxSpeed v)
  then show ?thesis by (auto simp: set_manual_max_speed_mps_def intro: learns_same)
qed

section \<open>Events keep the belief true\<close>

lemma later_is_newer: "0 \<le> p \<Longrightarrow> p < q \<Longrightarrow> q < 2 ^ 63 \<Longrightarrow> is_newer_sequence q p"
  by (simp add: is_newer_sequence_def UINT64_MODULUS_def UINT64_HALF_RANGE_def mod_pos_pos_trivial)

lemma taken_believes:
  assumes "ps_inv (cs_state c)" "\<not> lease_active (cs_state c)"
    and "ct_event e \<in> {CE_LEASE_ACQUIRED, CE_HEARTBEAT}" "legal_event v e" "0 \<le> vw_sequence v"
  shows "believes (view_step v e) (lease_taken c (control_message e now))"
  using assms ps_inv_unheld [OF assms(1,2)]
  by (auto simp: believes_def lease_taken_def transition_simps on_acquire_lease_def acquire_args_def no_args_def
      control_message_def view_step_def legal_event_def driving_def lease_active_def)

lemma inactive_believes: "ps_inv (cs_state c) \<Longrightarrow> \<not> lease_active (cs_state c) \<Longrightarrow> believes v c"
  by (simp add: believes_def driving_def ps_inv_unheld)

lemma finish_same [simp]:
  "cs_state (fst (finish_event c i)) = cs_state c"
  "ci_event i \<noteq> CE_LEASE_RELEASED \<Longrightarrow> cs_last_control_sequence (fst (finish_event c i)) = cs_last_control_sequence c"
  by (simp_all add: finish_event_def Let_def)

lemma manual_active_same:
  "cs_last_control_sequence (fst (manual_active_event c i)) = cs_last_control_sequence c"
  "cs_state (fst (manual_active_event c i)) \<in> {cs_state c, fst (transition (cs_state c) EV_MANUAL_INACTIVE (lease_args (ci_lease_id i)))}"
  by (simp_all add: manual_active_event_def Let_def)


text \<open>The reduced state and the sequence after an event of the owner.\<close>

definition owner_reduced :: "paddock_state \<Rightarrow> control_input \<Rightarrow> paddock_state set" where
  "owner_reduced s i =
     (let a = lease_args (ci_lease_id i) in
      case ci_event i of
        CE_HEARTBEAT \<Rightarrow> {s}
      | CE_CLEAR_STOP \<Rightarrow> {fst (transition s EV_STOP a)}
      | CE_GOAL_SELECTED \<Rightarrow> insert s {fst (transition s EV_SELECT_GOAL (a\<lparr>ea_goal := Some g\<rparr>)) | g. True}
      | CE_MANUAL_ACTIVE \<Rightarrow> (let m = fst (transition s EV_MANUAL_ACTIVE a) in {m, fst (transition m EV_MANUAL_INACTIVE a)})
      | e \<Rightarrow> {case event_map e of None \<Rightarrow> s | Some ev \<Rightarrow> fst (transition s ev a)})"

lemma mapped_event_state:
  "cs_state (fst (mapped_event c i ev)) \<in>
     (let m = fst (transition (cs_state c) ev (lease_args (ci_lease_id i)))
      in if ci_event i = CE_MANUAL_ACTIVE then {m, fst (transition m EV_MANUAL_INACTIVE (lease_args (ci_lease_id i)))} else {m})"
  "ci_event i \<noteq> CE_LEASE_RELEASED \<Longrightarrow> cs_last_control_sequence (fst (mapped_event c i ev)) = cs_last_control_sequence c"
  using manual_active_same [of "c\<lparr>cs_state := fst (transition (cs_state c) ev (lease_args (ci_lease_id i)))\<rparr>" i]
  by (simp_all add: mapped_event_def Let_def)

lemma goal_event_state:
  "cs_state (fst (goal_selected_event c i)) \<in>
     insert (cs_state c) {fst (transition (cs_state c) EV_SELECT_GOAL ((lease_args (ci_lease_id i))\<lparr>ea_goal := Some g\<rparr>)) | g. True}"
  "ci_event i \<noteq> CE_LEASE_RELEASED \<Longrightarrow> cs_last_control_sequence (fst (goal_selected_event c i)) = cs_last_control_sequence c"
  by (auto simp: goal_selected_event_def Let_def)

lemma owner_event_state:
  assumes "ci_event i \<noteq> CE_LEASE_ACQUIRED"
  shows "cs_state (fst (owner_event c i)) \<in> owner_reduced (cs_state c) i"
    and "ci_event i \<noteq> CE_LEASE_RELEASED \<Longrightarrow> cs_last_control_sequence (fst (owner_event c i)) = Some (ci_sequence i)"
proof -
  let ?c = "c\<lparr>cs_last_lease_receive_at := Some (ci_now i), cs_last_control_sequence := Some (ci_sequence i)\<rparr>"
  note m = mapped_event_state(1) [of ?c i] and g = goal_event_state(1) [of ?c i]
  show "cs_state (fst (owner_event c i)) \<in> owner_reduced (cs_state c) i"
    using assms m g by (cases "ci_event i") (simp_all add: owner_event_def owner_reduced_def Let_def)
  show "cs_last_control_sequence (fst (owner_event c i)) = Some (ci_sequence i)" if "ci_event i \<noteq> CE_LEASE_RELEASED"
    using assms that mapped_event_state(2) [of i ?c] goal_event_state(2) [of i ?c]
    by (cases "ci_event i") (simp_all add: owner_event_def Let_def)
qed

text \<open>What the owner's event does to the lease and the RUN button of the reducer.\<close>

definition reduced_view :: "paddock_state \<Rightarrow> control_event \<Rightarrow> paddock_state \<Rightarrow> bool" where
  "reduced_view s e s' \<longleftrightarrow>
     (if e \<in> {CE_LEASE_RELEASED, CE_LEASE_LOST} then \<not> lease_active s'
      else ps_lease_id s' = ps_lease_id s \<and> ps_lease_client_id s' = ps_lease_client_id s)
     \<and> (driving s' \<longrightarrow> e = CE_RUN_PRESSED \<or> (e \<in> {CE_HEARTBEAT, CE_GOAL_SELECTED, CE_MANUAL_INACTIVE} \<and> driving s))"

lemma owner_reduced_view:
  assumes "ps_inv s" "lease_active s" "ci_lease_id i = ps_lease_id s" "ci_event i \<noteq> CE_LEASE_ACQUIRED"
    and "s' \<in> owner_reduced s i"
  shows "reduced_view s (ci_event i) s'"
proof (cases "ci_event i = CE_MANUAL_ACTIVE")
  case True
  have "\<not> driving (fst (on_manual_active s))" using assms(1)
    by (auto simp: on_manual_active_def driving_def ps_inv_def) (cases "ps_mode s"; simp)+
  moreover have "driving (fst (on_manual_inactive t)) = driving t" "ps_lease_id (fst (on_manual_inactive t)) = ps_lease_id t"
    "ps_lease_client_id (fst (on_manual_inactive t)) = ps_lease_client_id t" for t
    by (simp_all add: on_manual_inactive_def driving_def)
  moreover have "ps_lease_id (fst (on_manual_active s)) = ps_lease_id s" "ps_lease_client_id (fst (on_manual_active s)) = ps_lease_client_id s"
    by (simp_all add: on_manual_active_def)
  ultimately show ?thesis using assms True
    by (auto simp: owner_reduced_def reduced_view_def transition_simps lease_args_def no_args_def owns_lease_def lease_active_def Let_def)
next
  case False
  have goal: "driving (fst (on_select_goal s a)) = driving s" "ps_lease_id (fst (on_select_goal s a)) = ps_lease_id s"
    "ps_lease_client_id (fst (on_select_goal s a)) = ps_lease_client_id s" for a
    by (auto simp: on_select_goal_def driving_def Let_def split: option.split)
  show ?thesis using assms False goal
    by (cases "ci_event i") (auto simp: owner_reduced_def reduced_view_def transition_simps lease_args_def no_args_def owns_lease_def
      lease_active_def on_lease_end_def on_run_press_def on_run_release_def on_stop_def on_manual_inactive_def driving_def Let_def)
qed

lemma event_believes:
  assumes inv: "cs_inv c" and bel: "believes v c" and legal: "legal_event v e"
    and seq: "0 \<le> vw_sequence v" "vw_sequence v + 1 < 2 ^ 63"
  shows "believes (view_step v e) (sup_step c (InControl (control_message e now)))"
proof -
  let ?i = "control_message e now" and ?c = "fst (expire_lease c now)"
  have inv1: "ps_inv (cs_state ?c)" using expire_lease_inv [OF inv] by (simp add: cs_inv_def)
  have bel1: "believes v ?c" by (rule learns_believes [OF expire_learns bel])
  have ev [simp]: "ci_event ?i = ct_event e" "ci_now ?i = now" "ci_lease_id ?i = ct_lease_id e" "ci_client_id ?i = ct_client_id e"
    "ci_sequence ?i = ct_sequence e" by (simp_all add: control_message_def)
  show ?thesis
  proof (cases "lease_active (cs_state ?c)")
    case False
    have taken: "believes (view_step v e) (lease_taken ?c ?i)" if "ct_event e \<in> {CE_LEASE_ACQUIRED, CE_HEARTBEAT}"
      by (rule taken_believes [OF inv1 False that legal seq(1)])
    then show ?thesis using False inactive_believes [OF inv1 False]
      by (auto simp: handle_control_event_def reinstates_def acquire_lease_event_def Let_def)
  next
    case True
    then obtain p where ids: "vw_ids v = Some (ps_lease_client_id (cs_state ?c), ps_lease_id (cs_state ?c))"
        "cs_last_control_sequence ?c = Some p" "0 \<le> p" "p \<le> vw_sequence v" using bel1 by (auto simp: believes_def)
    then have own: "ct_event e \<noteq> CE_LEASE_ACQUIRED" "ct_lease_id e = ps_lease_id (cs_state ?c)"
        "ct_client_id e = ps_lease_client_id (cs_state ?c)" "ct_sequence e = vw_sequence v + 1"
      using legal by (auto simp: legal_event_def split: if_splits)
    then have step: "sup_step c (InControl ?i) = fst (owner_event ?c ?i)"
      using True ids later_is_newer [of p "ct_sequence e"] seq by (simp add: handle_control_event_def reinstates_def Let_def)
    have "reduced_view (cs_state ?c) (ct_event e) (cs_state (fst (owner_event ?c ?i)))"
      using owner_reduced_view [OF inv1 True, of ?i] own owner_event_state(1) [of ?i ?c] by simp
    moreover have "ct_event e \<noteq> CE_LEASE_RELEASED \<Longrightarrow> cs_last_control_sequence (fst (owner_event ?c ?i)) = Some (ct_sequence e)"
      using owner_event_state(2) [of ?i ?c] own by simp
    ultimately show ?thesis using bel1 ids own seq(1) unfolding step
      by (auto simp: reduced_view_def believes_def view_step_def lease_active_def split: if_splits)
  qed
qed


section \<open>The whole channel\<close>

text \<open>Withholding a CLEAR STOP costs a sequence number and nothing else.\<close>

lemma withheld_believes:
  "believes v c \<Longrightarrow> legal_event v e \<Longrightarrow> ct_event e = CE_CLEAR_STOP \<Longrightarrow> believes (view_step v e) c"
  by (auto simp: believes_def view_step_def legal_event_def)

lemma link_run_believes:
  assumes "cs_inv c" "believes v c" "legal_trace v es" "list_all not_control xs" "link_run es c xs = (rest, c')"
    and "0 \<le> vw_sequence v" "vw_sequence v + int (length es) < 2 ^ 63"
  shows "\<exists>pre. es = pre @ rest \<and> cs_inv c' \<and> believes (view_after v pre) c'"
  using assms
proof (induction es c xs arbitrary: v rest c' rule: link_run.induct)
  case (1 es c)
  then show ?case by (intro exI [of _ "[]"]) simp
next
  case (2 c now xs)
  then show ?case by simp
next
  case (3 e es c now xs)
  have v: "vw_sequence (view_step v e) = vw_sequence v + 1" using 3(4) by (simp add: view_step_def legal_event_def)
  have "believes (view_step v e) (sup_step c (InControl (control_message e now)))"
    using 3(2-4,7,8) by (intro event_believes) simp_all
  then obtain pre where "es = pre @ rest \<and> cs_inv c' \<and> believes (view_after (view_step v e) pre) c'"
    using 3(1) [of "view_step v e" rest c'] 3(2-8) v sup_step_inv [of c "InControl (control_message e now)"] by auto
  then show ?case by (intro exI [of _ "e # pre"]) simp
next
  case (4 c xs)
  then show ?case by simp
next
  case (5 e es c xs)
  show ?case
  proof (cases "ct_event e = CE_CLEAR_STOP")
    case True
    have v: "vw_sequence (view_step v e) = vw_sequence v + 1" using 5(4) by (simp add: view_step_def legal_event_def)
    obtain pre where "es = pre @ rest \<and> cs_inv c' \<and> believes (view_after (view_step v e) pre) c'"
      using 5(1) [of "view_step v e" rest c'] 5(2-8) v True withheld_believes [OF 5(3), of e] by auto
    then show ?thesis by (intro exI [of _ "e # pre"]) simp
  next
    case False
    then show ?thesis using 5 by simp
  qed
next
  case (6 es c i xs)
  then show ?case using other_step_learns [of i c] learns_believes sup_step_inv by auto
qed

lemma initial_believes: "sup_initial c \<Longrightarrow> believes start_view c"
proof -
  assume i: "sup_initial c"
  then have "\<not> lease_active (cs_state c)"
    by (auto simp: sup_initial_def new_supervisor_def initial_state_def lease_active_def Let_def split: if_splits)
  moreover have "ps_inv (cs_state c)" using sup.invar_reachable [OF i, of "[]"] by (simp add: cs_inv_def)
  ultimately show ?thesis by (rule inactive_believes [rotated])
qed

text \<open>A forwarded autonomy command rests on a belief in the lease and in the RUN button.\<close>

lemma forwarded_believed:
  assumes "believes v c" "sr_autonomy_command (snd (receive_raw_autonomy c command now)) \<noteq> None"
  shows "vw_run v \<and> vw_ids v = Some (ps_lease_client_id (cs_state c), ps_lease_id (cs_state c))"
proof -
  let ?c = "fst (expire_lease c now)"
  have "authority_of (cs_state ?c) = AUTH_PADDOCK_AUTONOMY" using assms(2)
    by (auto simp: receive_raw_autonomy_def reject_def Let_def split: if_splits)
  then have p: "driving (cs_state ?c)" "lease_active (cs_state ?c)"
    using authority_autonomyD by (force simp: driving_def autonomy_permitted_def)+
  then show ?thesis using expire_learns [of c now] assms(1) unfolding believes_def learns_nothing_def by metis
qed

section \<open>A concrete run\<close>

definition demo_message :: "string \<Rightarrow> (string \<times> tuning_value) list \<Rightarrow> gateway_input" where
  "demo_message name fs =
     GI_action \<lparr>gi_client_uuid = ''c'', gi_lease_uuid = ''l''\<rparr> ''tab'' (TV_dict ((''action'', TV_scalar (LV_str name)) # fs))"

definition demo_browser :: "gateway_input list" where
  "demo_browser =
     [demo_message ''acquire'' [],
      demo_message ''select_goal'' [(''x'', TV_scalar (LV_float (Fin 1))), (''y'', TV_scalar (LV_float (Fin 2))), (''yaw'', TV_scalar (LV_float (Fin 0)))],
      demo_message ''run'' [(''held'', TV_scalar (LV_bool True))]]"

definition demo_link :: "link_input list" where
  "demo_link =
     [LK_deliver (Fin 1), LK_other (InRuntimeMode MODE_AUTONOMY ''studio'' (Fin 1) True), LK_deliver (Fin 1), LK_deliver (Fin 1)]"

definition demo_controls :: "control_intent list" where
  "demo_controls = controls (snd (gateway_run (\<lambda>_. []) new_gateway demo_browser))"

lemmas gateway_eval = gateway_turn.simps handle_def handle_named_def owner_action_def do_acquire_def do_run_def do_select_goal_def
  converted_def answer_control_def control_def grant_def plain_control_def accept_def new_gateway_def pose_numbers_def pose_frame_def
  item_def text_item_def Let_def

lemma demo_controls_value:
  "demo_controls =
     [(plain_control (new_gateway\<lparr>gw_client_id := ''c'', gw_lease_id := ''l''\<rparr>) CE_LEASE_ACQUIRED),
      (plain_control (new_gateway\<lparr>gw_client_id := ''c'', gw_lease_id := ''l''\<rparr>) CE_GOAL_SELECTED)
        \<lparr>ct_sequence := 2, ct_goal_x := Fin 1, ct_goal_y := Fin 2\<rparr>,
      (plain_control (new_gateway\<lparr>gw_client_id := ''c'', gw_lease_id := ''l''\<rparr>) CE_RUN_PRESSED)\<lparr>ct_sequence := 3\<rparr>]"
  by (simp add: demo_controls_def demo_browser_def demo_message_def gateway_eval)

definition demo_vehicle :: supervisor where
  "demo_vehicle = snd (link_run demo_controls demo_supervisor demo_link)"

lemma demo_link_value:
  "link_run demo_controls demo_supervisor demo_link = ([], demo_vehicle)"
  "sr_autonomy_command (snd (receive_raw_autonomy demo_vehicle demo_velocity (Fin 2))) = Some demo_velocity"
  "list_all not_control demo_link"
  by (simp_all add: demo_vehicle_def demo_link_def demo_controls_value control_message_def plain_control_def new_gateway_def sup_eval
      receive_raw_autonomy_def take_snapshot_def plain_result_def raw_is_fresh_def raw_age_def autonomy_open_def)

section \<open>Properties\<close>

text \<open>
  C16. Nobody drives on a RUN button that nobody holds. Whatever the browsers
  send to the gateway, however late its events reach the supervisor and
  whatever the clock, the gamepad and the mode do in between: when the
  supervisor forwards an autonomy command, the events it has received so far
  say that RUN is held under the very lease it obeys; and when it has received
  all of them, the gateway itself has RUN pressed by the owner of that lease.
  The bound keeps the 64-bit sequence numbers of one session in order.
\<close>

theorem forwarding_needs_held_button:
  fixes str inputs
  defines "g \<equiv> fst (gateway_run str new_gateway inputs)" and "es \<equiv> controls (snd (gateway_run str new_gateway inputs))"
  assumes "sup_initial c0" and "list_all not_control xs" and "link_run es c0 xs = (rest, c)"
    and "int (length es) < 2 ^ 63 - 1"
    and "sr_autonomy_command (snd (receive_raw_autonomy c command now)) \<noteq> None"
  shows "(let v = view_after start_view (take (length es - length rest) es) in
            vw_run v \<and> vw_ids v = Some (ps_lease_client_id (cs_state c), ps_lease_id (cs_state c)))
    \<and> (rest = [] \<longrightarrow> gw_run_pressed g \<and> lease_held g \<and> gw_lease_id g = ps_lease_id (cs_state c))"
proof -
  have inv: "gw_inv new_gateway" "gw_view new_gateway = start_view"
    by (simp_all add: new_gateway_def gw_inv_def gw_view_def start_view_def)
  have conv: "legal_trace start_view es" "gw_view g = view_after start_view es"
    using gateway_run_conveys [OF inv(1), of str inputs] inv(2) by (simp_all add: conveys_def g_def es_def)
  have c0: "cs_inv c0" using sup.invar_reachable [OF assms(3), of "[]"] by simp
  obtain pre where pre: "es = pre @ rest" "believes (view_after start_view pre) c"
    using link_run_believes [OF c0 initial_believes [OF assms(3)] conv(1) assms(4,5)] assms(6) by (auto simp: start_view_def)
  have v: "vw_run (view_after start_view pre)"
      "vw_ids (view_after start_view pre) = Some (ps_lease_client_id (cs_state c), ps_lease_id (cs_state c))"
    using forwarded_believed [OF pre(2) assms(7)] by simp_all
  have "gw_run_pressed g \<and> lease_held g \<and> gw_lease_id g = ps_lease_id (cs_state c)" if "rest = []"
  proof -
    have "gw_view g = view_after start_view pre" using conv(2) pre(1) that by simp
    then have "vw_run (gw_view g)" "vw_ids (gw_view g) = Some (ps_lease_client_id (cs_state c), ps_lease_id (cs_state c))"
      using v by simp_all
    then show ?thesis by (auto simp: gw_view_def lease_held_def split: option.splits)
  qed
  then show ?thesis using v pre(1) by (simp add: Let_def)
qed

theorem forwarding_needs_held_button_witness:
  "gw_run_pressed (fst (gateway_run (\<lambda>_. []) new_gateway demo_browser))
   \<and> gw_lease_id (fst (gateway_run (\<lambda>_. []) new_gateway demo_browser)) = ps_lease_id (cs_state demo_vehicle)"
  using forwarding_needs_held_button [OF demo_initial demo_link_value(3), of "\<lambda>_. []" demo_browser, folded demo_controls_def,
      OF demo_link_value(1), of demo_velocity "Fin 2"] demo_link_value(2)
  by (simp add: demo_controls_value)

end
