(* ===== verification/GridGeometry.thy ===== *)
theory GridGeometry
  imports PyFloat
begin

text \<open>
  \<open>runner_paddock/grid_geometry.py\<close>: poses in the plane, as the state node uses
  them to place a rolling grid in the map frame and to compare the robot's pose
  with a requested one. \<open>math.sin\<close> and \<open>math.cos\<close> are parameters.
\<close>

section \<open>Float remainder\<close>

text \<open>
  \<open>x % y\<close> of two floats: \<open>fmod\<close> is exact, then a remainder of the other sign is
  moved by \<open>y\<close>, which rounds.
\<close>

definition PI :: pyfloat where "PI = Fin (884279719003555 / 281474976710656)"

definition TWO_PI :: pyfloat where "TWO_PI = fmul (Fin 2) PI"

definition exact_rem :: "rat \<Rightarrow> rat \<Rightarrow> rat" where
  "exact_rem x y = x - y * of_int (trunc_rat (x / y))"

fun fmod :: "pyfloat \<Rightarrow> pyfloat \<Rightarrow> pyfloat result" where
  "fmod NaN y = (if y = Fin 0 then Inl ZeroDivisionError else Inr NaN)"
| "fmod x NaN = Inr NaN"
| "fmod PInf y = (if y = Fin 0 then Inl ZeroDivisionError else Inr NaN)"
| "fmod NInf y = (if y = Fin 0 then Inl ZeroDivisionError else Inr NaN)"
| "fmod (Fin x) PInf = Inr (if x < 0 then PInf else Fin x)"
| "fmod (Fin x) NInf = Inr (if 0 < x then NInf else Fin x)"
| "fmod (Fin x) (Fin y) =
     (if y = 0 then Inl ZeroDivisionError
      else (let r = exact_rem x y in Inr (if r \<noteq> 0 \<and> (y < 0) \<noteq> (r < 0) then dbl (r + y) else Fin r)))"

section \<open>Poses\<close>

record planar_pose =
  pl_x :: pyfloat
  pl_y :: pyfloat
  pl_yaw :: pyfloat

definition normalized_yaw :: "pyfloat \<Rightarrow> pyfloat result" where
  "normalized_yaw yaw = bind_result (fmod (fadd yaw PI) TWO_PI) (\<lambda>r. Inr (fsub r PI))"

definition compose ::
  "(pyfloat \<Rightarrow> pyfloat) \<Rightarrow> (pyfloat \<Rightarrow> pyfloat) \<Rightarrow> planar_pose \<Rightarrow> planar_pose \<Rightarrow> planar_pose result" where
  "compose sine_of cosine_of parent child =
     (if \<not> list_all isfinite [pl_x parent, pl_y parent, pl_yaw parent, pl_x child, pl_y child, pl_yaw child]
      then Inl (ValueError ''planar pose contains a non-finite value'')
      else (let cosine = cosine_of (pl_yaw parent); sine = sine_of (pl_yaw parent)
            in bind_result (normalized_yaw (fadd (pl_yaw parent) (pl_yaw child))) (\<lambda>yaw. Inr
                 \<lparr> pl_x = fsub (fadd (pl_x parent) (fmul cosine (pl_x child))) (fmul sine (pl_y child)),
                   pl_y = fadd (fadd (pl_y parent) (fmul sine (pl_x child))) (fmul cosine (pl_y child)),
                   pl_yaw = yaw \<rparr>)))"

section \<open>Laws\<close>

lemma pi_doubles: "is_double (884279719003555 / 281474976710656)" "is_double (884279719003555 / 140737488355328)"
proof -
  have h: "(884279719003555 / 281474976710656 :: rat) = of_int 884279719003555 * 2 powi (- 48)"
    "(884279719003555 / 140737488355328 :: rat) = of_int 884279719003555 * 2 powi (- 47)"
    by (simp_all add: power_int_minus field_simps)
  show "is_double (884279719003555 / 281474976710656)" "is_double (884279719003555 / 140737488355328)"
    unfolding h by (rule is_double_dyadic; simp)+
qed

lemma two_pi [simp]: "TWO_PI = Fin (884279719003555 / 140737488355328)"
  using pi_doubles(2) by (simp add: TWO_PI_def PI_def dbl_is_double)

text \<open>The remainder by a positive number has the sign of the dividend and is smaller.\<close>

lemma exact_rem_bounds:
  assumes "0 < y"
  shows "\<bar>exact_rem x y\<bar> < y" and "0 \<le> x \<Longrightarrow> 0 \<le> exact_rem x y" and "x \<le> 0 \<Longrightarrow> exact_rem x y \<le> 0"
proof -
  have f: "exact_rem x y = y * (x / y - of_int (trunc_rat (x / y)))" using assms by (simp add: exact_rem_def algebra_simps)
  have t: "0 \<le> q \<Longrightarrow> 0 \<le> q - of_int (trunc_rat q) \<and> q - of_int (trunc_rat q) < 1" for q :: rat
    by (simp add: trunc_rat_def) linarith
  have s: "q \<le> 0 \<Longrightarrow> q - of_int (trunc_rat q) \<le> 0 \<and> - 1 < q - of_int (trunc_rat q)" for q :: rat
    by (simp add: trunc_rat_def) linarith
  have "\<bar>x / y - of_int (trunc_rat (x / y))\<bar> < 1" using t [of "x / y"] s [of "x / y"] by (cases "0 \<le> x / y") auto
  then have "y * \<bar>x / y - of_int (trunc_rat (x / y))\<bar> < y * 1" using assms by (intro mult_strict_left_mono) auto
  then show "\<bar>exact_rem x y\<bar> < y" using assms by (simp add: f abs_mult)
  show "0 \<le> x \<Longrightarrow> 0 \<le> exact_rem x y" using t [of "x / y"] assms by (simp add: f)
  show "x \<le> 0 \<Longrightarrow> exact_rem x y \<le> 0" using s [of "x / y"] assms by (simp add: f divide_nonpos_pos mult_nonneg_nonpos)
qed

text \<open>
  A finite angle is normalised into \<open>[-pi, pi]\<close>. The upper end is reached, by the
  first double below \<open>-pi\<close>, although the docstring excludes it.
\<close>

lemma dbl_in_double: "lo \<le> q \<Longrightarrow> q \<le> hi \<Longrightarrow> is_double lo \<Longrightarrow> is_double hi \<Longrightarrow> \<exists>r. dbl q = Fin r \<and> lo \<le> r \<and> r \<le> hi"
  using dbl_ge_double [of lo q] dbl_le_double [of q hi] by (cases "dbl q") auto

lemma remainder_two_pi: "\<exists>r. fmod (Fin q) TWO_PI = Inr (Fin r) \<and> 0 \<le> r \<and> r \<le> 884279719003555 / 140737488355328"
proof -
  let ?y = "884279719003555 / 140737488355328 :: rat" and ?r = "exact_rem q (884279719003555 / 140737488355328)"
  have b: "\<bar>?r\<bar> < ?y" by (rule exact_rem_bounds) simp
  then have "\<exists>r. dbl (?r + ?y) = Fin r \<and> 0 \<le> r \<and> r \<le> ?y" if "?r < 0"
    using that pi_doubles(2) by (intro dbl_in_double) auto
  then show ?thesis using b by (auto simp: Let_def)
qed

lemma normalized_yaw_range:
  assumes "isfinite yaw" "isfinite (fadd yaw PI)"
  shows "\<exists>r. normalized_yaw yaw = Inr (Fin r) \<and> fle (fneg PI) (Fin r) \<and> fle (Fin r) PI"
proof -
  obtain q where "fadd yaw PI = Fin q" using assms(2) by (auto simp: isfinite_iff)
  moreover obtain r where r: "fmod (Fin q) TWO_PI = Inr (Fin r)" "0 \<le> r" "r \<le> 884279719003555 / 140737488355328"
    using remainder_two_pi by blast
  moreover have "\<exists>s. dbl (r - 884279719003555 / 281474976710656) = Fin s
      \<and> - (884279719003555 / 281474976710656) \<le> s \<and> s \<le> 884279719003555 / 281474976710656"
    using r(2,3) pi_doubles(1) by (intro dbl_in_double) auto
  ultimately show ?thesis by (auto simp: normalized_yaw_def PI_def)
qed

text \<open>The first double below \<open>-pi\<close> is normalised to \<open>pi\<close> itself.\<close>

lemma rounds_to_two_pi: "dbl (14148475504056879 / 2251799813685248) = TWO_PI"
proof -
  let ?q = "14148475504056879 / 2251799813685248 :: rat"
  have "rat_log2 ?q = 2" by (rule rat_log2_unique) simp_all
  then have u: "ulp_exp ?q = - 50" by (simp add: ulp_exp_def)
  have d: "?q / 2 powi (- 50) = 7074237752028439 + 1 / 2" by (simp add: power_int_minus)
  have "\<lfloor>7074237752028439 + 1 / 2 :: rat\<rfloor> = 7074237752028439" by (simp add: floor_eq_iff)
  then have "round_half_even (?q / 2 powi (- 50)) = 7074237752028440"
    unfolding d round_half_even_def Let_def by simp
  then have "rnd ?q = 7074237752028440 * 2 powi (- 50)" using u by (simp add: rnd_def rnd_pos_def ulp_def)
  then have "rnd ?q = 884279719003555 / 140737488355328" by (simp add: power_int_minus)
  then show ?thesis by (simp add: dbl_def f64_limit_def)
qed

lemma normalized_yaw_reaches_pi: "normalized_yaw (Fin (- (7074237752028441 / 2251799813685248))) = Inr PI"
proof -
  have "is_double (of_int (- 1) * 2 powi (- 51))" by (rule is_double_dyadic) simp_all
  then have sum: "fadd (Fin (- (7074237752028441 / 2251799813685248))) PI = Fin (- 1 / 2251799813685248)"
    by (simp add: PI_def dbl_is_double power_int_minus)
  have rem: "exact_rem (- 1 / 2251799813685248) (884279719003555 / 140737488355328) = - 1 / 2251799813685248"
    by (simp add: exact_rem_def trunc_rat_def floor_eq_iff)
  then show ?thesis using sum rounds_to_two_pi pi_doubles(1)
    by (simp add: normalized_yaw_def Let_def) (simp add: PI_def dbl_is_double)
qed

end
