(* ===== verification/InitialPose.thy ===== *)
theory InitialPose
  imports Gateway StateCache GridGeometry
begin

text \<open>
  The initial-pose transaction of \<open>runner_paddock/ros_state_node.py\<close>: the operator
  seeds the localisation, and the node first waits for an applied STOP and a
  standing robot, then publishes the seed, waits until the robot's pose in the
  map frame agrees with it, clears both costmaps and reports the result. All
  callbacks but \<open>submit\<close> run on one executor thread, so each is one step here;
  the tests of \<open>is pending\<close> that guard against \<open>submit\<close> compare request ids. The
  clock, the graph, the outcome of the calls and \<open>math\<close>'s functions are readings.
\<close>

section \<open>Reading the cached state\<close>

definition INITIAL_POSE_CONFIRM_TIMEOUT_SEC :: pyfloat where "INITIAL_POSE_CONFIRM_TIMEOUT_SEC = Fin 5"
definition INITIAL_POSE_STOP_TIMEOUT_SEC :: pyfloat where "INITIAL_POSE_STOP_TIMEOUT_SEC = Fin 5"
definition INITIAL_POSE_CLEAR_TIMEOUT_SEC :: pyfloat where "INITIAL_POSE_CLEAR_TIMEOUT_SEC = Fin 2"
definition INITIAL_POSE_POSITION_TOLERANCE_M :: pyfloat where "INITIAL_POSE_POSITION_TOLERANCE_M = Fin (1 / 4)"

text \<open>\<open>math.radians(15.0)\<close>.\<close>

definition INITIAL_POSE_YAW_TOLERANCE_RAD :: pyfloat where
  "INITIAL_POSE_YAW_TOLERANCE_RAD = (case fdiv PI (Fin 180) of Inl e \<Rightarrow> NaN | Inr r \<Rightarrow> fmul (Fin 15) r)"

definition INITIAL_POSE_X_VARIANCE :: pyfloat where "INITIAL_POSE_X_VARIANCE = Fin (1 / 4)"
definition INITIAL_POSE_Y_VARIANCE :: pyfloat where "INITIAL_POSE_Y_VARIANCE = Fin (1 / 4)"
definition INITIAL_POSE_YAW_VARIANCE :: pyfloat where "INITIAL_POSE_YAW_VARIANCE = dbl (6853891909122467 / 10 ^ 17)"

definition MODE_STATE_AUTONOMY :: int where "MODE_STATE_AUTONOMY = 2"
definition MODE_STATE_STABLE :: int where "MODE_STATE_STABLE = 0"
definition MAP_FRAME :: string where "MAP_FRAME = ''map''"

text \<open>
  The values are those the handlers of the node wrote. \<open>or_empty\<close> is
  \<open>d.get(k) or {}\<close>, \<open>text_at\<close> is \<open>d.get(k) or ''\<close>, \<open>int_at\<close> is \<open>int(d.get(k) or 0)\<close>
  and \<open>truth_at\<close> is the truth of \<open>d.get(k)\<close>.
\<close>

definition jget :: "jdict \<Rightarrow> string \<Rightarrow> json option" where
  "jget d k = dict_get d (Some k)"

fun json_truth :: "json \<Rightarrow> bool" where
  "json_truth JNull = False"
| "json_truth (JBool b) = b"
| "json_truth (JInt n) = (n \<noteq> 0)"
| "json_truth (JFloat x) = (x \<noteq> Fin 0)"
| "json_truth (JStr t) = truthy t"
| "json_truth (JGrid ns) = (ns \<noteq> [])"
| "json_truth (JList vs) = (vs \<noteq> [])"
| "json_truth (JDict d) = (d \<noteq> [])"
| "json_truth (JOther t) = True"

definition truth_at :: "jdict \<Rightarrow> string \<Rightarrow> bool" where
  "truth_at d k = (case jget d k of None \<Rightarrow> False | Some v \<Rightarrow> json_truth v)"

definition or_empty :: "jdict \<Rightarrow> string \<Rightarrow> jdict" where
  "or_empty d k = (case jget d k of Some (JDict e) \<Rightarrow> e | _ \<Rightarrow> [])"

definition text_at :: "jdict \<Rightarrow> string \<Rightarrow> string" where
  "text_at d k = (case jget d k of Some (JStr t) \<Rightarrow> t | _ \<Rightarrow> [])"

definition int_at :: "jdict \<Rightarrow> string \<Rightarrow> int" where
  "int_at d k = (case jget d k of Some (JInt n) \<Rightarrow> n | _ \<Rightarrow> 0)"

definition items_at :: "jdict \<Rightarrow> string \<Rightarrow> json list" where
  "items_at d k = (case jget d k of Some (JList vs) \<Rightarrow> vs | _ \<Rightarrow> [])"

definition source_fresh :: "jdict \<Rightarrow> string \<Rightarrow> bool" where
  "source_fresh snapshot source = truth_at (or_empty (or_empty (or_empty snapshot ''health'') ''sources'') source) ''fresh''"

text \<open>\<open>any(entry.get('name') == selected and entry.get('complete') ...)\<close> over the catalogue.\<close>

definition completes :: "string \<Rightarrow> json \<Rightarrow> bool" where
  "completes selected entry = (case entry of JDict e \<Rightarrow> jget e ''name'' = Some (JStr selected) \<and> truth_at e ''complete'' | _ \<Rightarrow> False)"

definition selected_map_of :: "jdict \<Rightarrow> string" where
  "selected_map_of snapshot = text_at (or_empty snapshot ''map_state'') ''selected_map_applied''"

definition initial_pose_rejection :: "jdict \<Rightarrow> string" where
  "initial_pose_rejection snapshot =
     (let mode = or_empty snapshot ''mode''; map_state = or_empty snapshot ''map_state'';
          selected = selected_map_of snapshot; active = text_at mode ''active_autonomy_map'';
          complete = list_ex (completes selected) (items_at map_state ''catalog'') in
      if \<not> source_fresh snapshot ''mode'' then ''runtime state unavailable or stale''
      else if jget mode ''mode'' \<noteq> Some (JInt MODE_STATE_AUTONOMY) \<or> jget mode ''status'' \<noteq> Some (JInt MODE_STATE_STABLE)
      then ''initial pose requires stable AUTONOMY localization''
      else if \<not> truth_at mode ''ready'' then ''localization is not ready''
      else if \<not> source_fresh snapshot ''map_state'' \<or> \<not> truthy selected \<or> \<not> complete then ''a valid selected map is required''
      else if active \<noteq> selected then ''selected map is not the active localization map''
      else [])"

definition initial_pose_safety_rejection :: "jdict \<Rightarrow> string" where
  "initial_pose_safety_rejection snapshot =
     (let stop = or_empty snapshot ''stop_state''; encoder = or_empty snapshot ''encoder_state'' in
      if \<not> source_fresh snapshot ''stop_state'' then ''STOP state unavailable or stale''
      else if \<not> (truth_at stop ''stopped'' \<and> truth_at stop ''locked'' \<and> truth_at stop ''healthy'' \<and> truth_at stop ''applied'')
      then ''awaiting healthy applied STOP''
      else if \<not> source_fresh snapshot ''encoder_state'' then ''encoder stationary state unavailable or stale''
      else if \<not> truth_at encoder ''stationary'' then ''robot is not stationary''
      else [])"

section \<open>State\<close>

record pose_intent =
  pi_x :: pyfloat
  pi_y :: pyfloat
  pi_yaw :: pyfloat
  pi_frame :: string

record pose_status =
  st_map :: string
  st_epoch :: int
  st_intent :: pose_intent

datatype pose_phase = WAITING_STOP | AWAITING_POSE | CLEARING

record pose_pending =
  pp_request_id :: int
  pp_phase :: pose_phase
  pp_deadline :: pyfloat
  pp_status :: pose_status
  pp_intent :: pose_intent
  pp_clear_pending :: "string list"
  pp_clear_errors :: "string list"
  pp_observed :: json

record pose_node =
  pn_cache :: cache
  pn_pending :: "pose_pending option"
  pn_request_id :: int

definition new_pose_node :: pose_node where
  "new_pose_node = \<lparr> pn_cache = new_cache, pn_pending = None, pn_request_id = 0 \<rparr>"

record pose_io =
  io_now :: pyfloat
  io_stamp :: json
  io_subscribers :: int
  io_clear_ready :: "string \<Rightarrow> bool"
  io_clear_start_error :: "string \<Rightarrow> string option"
  io_sin :: "pyfloat \<Rightarrow> pyfloat"
  io_cos :: "pyfloat \<Rightarrow> pyfloat"
  io_hypot :: "pyfloat \<Rightarrow> pyfloat \<Rightarrow> pyfloat"
  io_atan2 :: "pyfloat \<Rightarrow> pyfloat \<Rightarrow> pyfloat"

text \<open>The published seed; the covariance has the three given entries and zeros.\<close>

record pose_message =
  pm_stamp :: json
  pm_frame :: string
  pm_x :: pyfloat
  pm_y :: pyfloat
  pm_qz :: pyfloat
  pm_qw :: pyfloat
  pm_covariance :: "(nat \<times> pyfloat) list"

text \<open>What a step does besides changing the node, with the request it does it for.\<close>

datatype pose_effect = PX_publish int pose_message | PX_clear int string

definition status_json :: "pose_status \<Rightarrow> jdict" where
  "status_json st =
     [(Some ''map'', JStr (st_map st)), (Some ''runtime_epoch'', JInt (st_epoch st)),
      (Some ''requested'', JDict
         [(Some ''frame_id'', JStr (pi_frame (st_intent st))), (Some ''x'', JFloat (pi_x (st_intent st))),
          (Some ''y'', JFloat (pi_y (st_intent st))), (Some ''yaw'', JFloat (pi_yaw (st_intent st))),
          (Some ''covariance'', JDict [(Some ''x'', JFloat INITIAL_POSE_X_VARIANCE), (Some ''y'', JFloat INITIAL_POSE_Y_VARIANCE),
             (Some ''yaw'', JFloat INITIAL_POSE_YAW_VARIANCE)])])]"

definition initial_pose_status :: "pose_intent \<Rightarrow> jdict \<Rightarrow> pose_status" where
  "initial_pose_status intent snapshot =
     \<lparr> st_map = selected_map_of snapshot, st_epoch = int_at (or_empty snapshot ''mode'') ''runtime_epoch'', st_intent = intent \<rparr>"

definition initial_pose_context_changed :: "pose_pending \<Rightarrow> jdict \<Rightarrow> string" where
  "initial_pose_context_changed p snapshot =
     (let reason = initial_pose_rejection snapshot; mode = or_empty snapshot ''mode'' in
      if truthy reason then ''initial pose context lost: '' @ reason
      else if int_at mode ''runtime_epoch'' \<noteq> st_epoch (pp_status p)
              \<or> selected_map_of snapshot \<noteq> st_map (pp_status p)
              \<or> text_at mode ''active_autonomy_map'' \<noteq> st_map (pp_status p)
      then ''runtime or active map changed during initial pose''
      else [])"

section \<open>Operations\<close>

definition post :: "pose_io \<Rightarrow> pose_node \<Rightarrow> pose_status \<Rightarrow> string \<Rightarrow> string \<Rightarrow> json \<Rightarrow> pose_node" where
  "post io n st state detail observed =
     n\<lparr>pn_cache := cache_step (pn_cache n) (CO_update ''initial_pose''
         (status_json st @ [(Some ''state'', JStr state), (Some ''detail'', JStr detail), (Some ''observed'', observed)]) (io_now io))\<rparr>"

definition snapshot_of :: "pose_io \<Rightarrow> pose_node \<Rightarrow> jdict" where
  "snapshot_of io n = state_snapshot (pn_cache n) (io_now io)"

text \<open>\<open>self._pending_initial_pose is pending\<close>.\<close>

definition is_current :: "pose_node \<Rightarrow> pose_pending \<Rightarrow> bool" where
  "is_current n p \<longleftrightarrow> map_option pp_request_id (pn_pending n) = Some (pp_request_id p)"

definition fail_initial_pose :: "pose_io \<Rightarrow> pose_node \<Rightarrow> pose_pending \<Rightarrow> string \<Rightarrow> json \<Rightarrow> pose_node" where
  "fail_initial_pose io n p detail observed =
     (if \<not> is_current n p then n else post io (n\<lparr>pn_pending := None\<rparr>) (pp_status p) ''rejected'' detail observed)"

definition no_subscriber :: string where
  "no_subscriber = ''slam_toolbox /initialpose subscriber unavailable''"

definition set_initial_pose :: "pose_io \<Rightarrow> pose_node \<Rightarrow> pose_intent \<Rightarrow> pose_node \<times> bool \<times> string" where
  "set_initial_pose io n intent =
     (let snapshot = snapshot_of io n;
          reason0 = initial_pose_rejection snapshot;
          reason = (if \<not> truthy reason0 \<and> io_subscribers io < 1 then no_subscriber else reason0);
          status = initial_pose_status intent snapshot in
      if truthy reason
      then (post io (n\<lparr>pn_pending := None\<rparr>) status ''rejected'' reason JNull, False, reason)
      else if pn_pending n \<noteq> None then (n, False, ''initial pose transaction already in progress'')
      else (let rid = pn_request_id n + 1;
                p = \<lparr> pp_request_id = rid, pp_phase = WAITING_STOP,
                      pp_deadline = fadd (io_now io) INITIAL_POSE_STOP_TIMEOUT_SEC, pp_status = status, pp_intent = intent,
                      pp_clear_pending = [], pp_clear_errors = [], pp_observed = JNull \<rparr>
            in (post io (n\<lparr>pn_request_id := rid, pn_pending := Some p\<rparr>) status ''stopping''
                  ''STOP requested; awaiting applied STOP and stationary'' JNull,
                True, ''initial pose accepted; awaiting safe stopped state'')))"

definition half_of :: "pyfloat \<Rightarrow> pyfloat" where
  "half_of x = (case fdiv x (Fin 2) of Inl e \<Rightarrow> NaN | Inr y \<Rightarrow> y)"

definition seed_message :: "pose_io \<Rightarrow> pose_intent \<Rightarrow> pose_message" where
  "seed_message io intent =
     \<lparr> pm_stamp = io_stamp io, pm_frame = MAP_FRAME, pm_x = pi_x intent, pm_y = pi_y intent,
       pm_qz = io_sin io (half_of (pi_yaw intent)), pm_qw = io_cos io (half_of (pi_yaw intent)),
       pm_covariance = [(0, INITIAL_POSE_X_VARIANCE), (7, INITIAL_POSE_Y_VARIANCE), (35, INITIAL_POSE_YAW_VARIANCE)] \<rparr>"

definition publish_initial_pose :: "pose_io \<Rightarrow> pose_node \<Rightarrow> pose_pending \<Rightarrow> pose_node \<times> pose_effect list" where
  "publish_initial_pose io n p =
     (if \<not> is_current n p \<or> map_option pp_phase (pn_pending n) \<noteq> Some WAITING_STOP then (n, [])
      else (post io (n\<lparr>pn_pending := Some (p\<lparr>pp_phase := AWAITING_POSE,
                 pp_deadline := fadd (io_now io) INITIAL_POSE_CONFIRM_TIMEOUT_SEC\<rparr>)\<rparr>)
              (pp_status p) ''localizing'' ''pose published; awaiting slam_toolbox confirmation'' JNull,
            [PX_publish (pp_request_id p) (seed_message io (pp_intent p))]))"

definition advance_initial_pose :: "pose_io \<Rightarrow> pose_node \<Rightarrow> pose_node \<times> pose_effect list" where
  "advance_initial_pose io n =
     (case pn_pending n of
        None \<Rightarrow> (n, [])
      | Some p \<Rightarrow>
          if pp_phase p \<noteq> WAITING_STOP then (n, [])
          else (let snapshot = snapshot_of io n; reason = initial_pose_context_changed p snapshot;
                    safety = initial_pose_safety_rejection snapshot in
                if truthy reason then (fail_initial_pose io n p reason JNull, [])
                else if truthy safety then (post io n (pp_status p) ''stopping'' safety JNull, [])
                else if io_subscribers io < 1 then (fail_initial_pose io n p no_subscriber JNull, [])
                else publish_initial_pose io n p))"

text \<open>One reply, or one call that could not be started; the empty error is success.\<close>

definition finish_clear :: "pose_io \<Rightarrow> pose_node \<Rightarrow> int \<Rightarrow> string \<Rightarrow> string \<Rightarrow> pose_node" where
  "finish_clear io n rid costmap error =
     (case pn_pending n of
        None \<Rightarrow> n
      | Some p0 \<Rightarrow>
          if pp_request_id p0 \<noteq> rid \<or> pp_phase p0 \<noteq> CLEARING \<or> costmap \<notin> set (pp_clear_pending p0) then n
          else (let p = p0\<lparr>pp_clear_pending := removeAll costmap (pp_clear_pending p0),
                           pp_clear_errors := pp_clear_errors p0 @ (if truthy error then [error] else [])\<rparr>;
                    n1 = n\<lparr>pn_pending := Some p\<rparr> in
                if pp_clear_pending p \<noteq> [] then n1
                else if pp_clear_errors p \<noteq> []
                then fail_initial_pose io n1 p (''costmap clear failed: '' @ join ''; '' (pp_clear_errors p)) (pp_observed p)
                else (let snapshot = snapshot_of io n1; changed = initial_pose_context_changed p snapshot;
                          safety = (if \<not> truthy changed then initial_pose_safety_rejection snapshot else changed) in
                      if truthy safety
                      then fail_initial_pose io n1 p (''safety invariant lost before completion: '' @ safety) (pp_observed p)
                      else if \<not> is_current n1 p then n1
                      else post io (n1\<lparr>pn_pending := None\<rparr>) (pp_status p) ''applied''
                             ''pose confirmed; global and local costmaps cleared; STOP remains asserted'' (pp_observed p))))"

definition COSTMAPS :: "string list" where "COSTMAPS = [''global'', ''local'']"

text \<open>The two calls in turn; one that fails to start is finished at once.\<close>

fun start_calls :: "pose_io \<Rightarrow> pose_node \<Rightarrow> int \<Rightarrow> string list \<Rightarrow> pose_node \<times> pose_effect list" where
  "start_calls io n rid [] = (n, [])"
| "start_calls io n rid (name # names) =
     (case io_clear_start_error io name of
        Some error \<Rightarrow> start_calls io (finish_clear io n rid name (name @ '' clear failed to start: '' @ error)) rid names
      | None \<Rightarrow> (let (n', effects) = start_calls io n rid names in (n', PX_clear rid name # effects)))"

definition start_initial_pose_clear :: "pose_io \<Rightarrow> pose_node \<Rightarrow> pose_pending \<Rightarrow> json \<Rightarrow> pose_node \<times> pose_effect list" where
  "start_initial_pose_clear io n p observed =
     (let unavailable = filter (\<lambda>name. \<not> io_clear_ready io name) COSTMAPS in
      if unavailable \<noteq> []
      then (fail_initial_pose io n p (''Nav2 '' @ join '' and '' unavailable
              @ '' costmap clear service unavailable after localization confirmation'') observed, [])
      else if \<not> is_current n p \<or> map_option pp_phase (pn_pending n) \<noteq> Some AWAITING_POSE then (n, [])
      else start_calls io
             (post io (n\<lparr>pn_pending := Some (p\<lparr>pp_phase := CLEARING, pp_deadline := fadd (io_now io) INITIAL_POSE_CLEAR_TIMEOUT_SEC,
                  pp_clear_pending := COSTMAPS, pp_clear_errors := [], pp_observed := observed\<rparr>)\<rparr>)
                (pp_status p) ''clearing'' ''pose confirmed; clearing global and local costmaps'' observed)
             (pp_request_id p) COSTMAPS)"

text \<open>Whether the robot stands where the seed asked it to be, in the map frame.\<close>

definition pose_agrees :: "pose_io \<Rightarrow> planar_pose \<Rightarrow> pose_intent \<Rightarrow> bool result" where
  "pose_agrees io robot intent =
     bind_result (normalized_yaw (fsub (pl_yaw robot) (pi_yaw intent))) (\<lambda>yaw. Inr
       (\<not> (flt INITIAL_POSE_POSITION_TOLERANCE_M (io_hypot io (fsub (pl_x robot) (pi_x intent)) (fsub (pl_y robot) (pi_y intent)))
           \<or> flt INITIAL_POSE_YAW_TOLERANCE_RAD (fabs yaw))))"

definition confirm_initial_pose :: "pose_io \<Rightarrow> pose_node \<Rightarrow> json \<Rightarrow> planar_pose \<Rightarrow> pose_node \<times> pose_effect list" where
  "confirm_initial_pose io n observed robot =
     (case pn_pending n of
        None \<Rightarrow> (n, [])
      | Some p \<Rightarrow>
          if pp_phase p \<noteq> AWAITING_POSE then (n, [])
          else if pose_agrees io robot (pp_intent p) \<noteq> Inr True then (n, [])
          else (let snapshot = snapshot_of io n; changed = initial_pose_context_changed p snapshot;
                    reason = (if \<not> truthy changed then initial_pose_safety_rejection snapshot else changed) in
                if truthy reason then (fail_initial_pose io n p reason JNull, [])
                else start_initial_pose_clear io n p observed))"

definition expire_initial_pose :: "pose_io \<Rightarrow> pose_node \<Rightarrow> pose_node" where
  "expire_initial_pose io n =
     (case pn_pending n of
        None \<Rightarrow> n
      | Some p \<Rightarrow>
          if flt (io_now io) (pp_deadline p) then n
          else fail_initial_pose io n p
                 (case pp_phase p of
                    WAITING_STOP \<Rightarrow> ''timed out waiting for applied STOP and stationary''
                  | AWAITING_POSE \<Rightarrow> ''application unconfirmed: map-frame robot pose did not match the requested initial pose''
                  | CLEARING \<Rightarrow> ''timed out clearing dynamic costmaps'') (pp_observed p))"

section \<open>The timer of the node\<close>

record transform =
  tf_sec :: int
  tf_nanosec :: int
  tf_frame :: string
  tf_child :: string
  tf_x :: pyfloat
  tf_y :: pyfloat
  tf_z :: pyfloat
  tf_qx :: pyfloat
  tf_qy :: pyfloat
  tf_qz :: pyfloat
  tf_qw :: pyfloat

definition stamp_json :: "int \<Rightarrow> int \<Rightarrow> json result" where
  "stamp_json sec nanosec =
     (if nanosec < 0 \<or> 1000000000 \<le> nanosec then Inl (ValueError ''ROS timestamp nanosec is outside [0, 1e9)'')
      else Inr (JDict [(Some ''sec'', JInt sec), (Some ''nanosec'', JInt nanosec)]))"

definition all_finite :: "pyfloat list \<Rightarrow> unit result" where
  "all_finite xs = (if \<not> list_all isfinite xs then Inl (ValueError ''ROS message contains a non-finite number'') else Inr ())"

definition yaw_of :: "(pyfloat \<Rightarrow> pyfloat \<Rightarrow> pyfloat) \<Rightarrow> pyfloat \<Rightarrow> pyfloat \<Rightarrow> pyfloat \<Rightarrow> pyfloat \<Rightarrow> pyfloat result" where
  "yaw_of atan2 x y z w =
     bind_result (all_finite [x, y, z, w]) (\<lambda>_. Inr
       (atan2 (fmul (Fin 2) (fadd (fmul w z) (fmul x y)))
              (fsub (Fin 1) (fmul (Fin 2) (fadd (fmul y y) (fmul z z))))))"

definition xyz_json :: "pyfloat \<Rightarrow> pyfloat \<Rightarrow> pyfloat \<Rightarrow> json" where
  "xyz_json x y z = JDict [(Some ''x'', JFloat x), (Some ''y'', JFloat y), (Some ''z'', JFloat z)]"

definition xyzw_json :: "pyfloat \<Rightarrow> pyfloat \<Rightarrow> pyfloat \<Rightarrow> pyfloat \<Rightarrow> json" where
  "xyzw_json x y z w = JDict [(Some ''x'', JFloat x), (Some ''y'', JFloat y), (Some ''z'', JFloat z), (Some ''w'', JFloat w)]"

text \<open>The pose section, what a confirmation observes, and the planar pose of one transform.\<close>

definition read_transform :: "pose_io \<Rightarrow> transform \<Rightarrow> (jdict \<times> json \<times> planar_pose) result" where
  "read_transform io t =
     bind_result (all_finite [tf_x t, tf_y t, tf_z t, tf_qx t, tf_qy t, tf_qz t, tf_qw t]) (\<lambda>_.
     bind_result (yaw_of (io_atan2 io) (tf_qx t) (tf_qy t) (tf_qz t) (tf_qw t)) (\<lambda>yaw.
     bind_result (stamp_json (tf_sec t) (tf_nanosec t)) (\<lambda>stamp.
       (let position = xyz_json (tf_x t) (tf_y t) (tf_z t); orientation = xyzw_json (tf_qx t) (tf_qy t) (tf_qz t) (tf_qw t) in
        Inr ([(Some ''stamp'', stamp), (Some ''frame_id'', JStr (tf_frame t)), (Some ''child_frame_id'', JStr (tf_child t)),
              (Some ''position'', position), (Some ''orientation'', orientation)],
             JDict [(Some ''stamp'', stamp), (Some ''frame_id'', JStr (tf_frame t)),
                    (Some ''pose'', JDict [(Some ''position'', position), (Some ''orientation'', orientation)]),
                    (Some ''source'', JStr ''map_to_base_link_tf'')],
             \<lparr> pl_x = tf_x t, pl_y = tf_y t, pl_yaw = yaw \<rparr>)))))"

text \<open>\<open>_update_pose\<close>; no transform is a \<open>TransformException\<close>.\<close>

definition update_pose :: "pose_io \<Rightarrow> pose_node \<Rightarrow> transform option \<Rightarrow> pose_node \<times> pose_effect list" where
  "update_pose io n tf =
     (let (n1, published) = advance_initial_pose io (expire_initial_pose io n) in
      case map_option (read_transform io) tf of
        Some (Inr (pose, observed, robot)) \<Rightarrow>
          (let (n2, cleared) = confirm_initial_pose io (n1\<lparr>pn_cache := cache_step (pn_cache n1) (CO_update ''pose'' pose (io_now io))\<rparr>) observed robot
           in (n2, published @ cleared))
      | _ \<Rightarrow> (n1, published))"

section \<open>The front of submit\<close>

text \<open>
  After the gateway has handled the action, two accepted actions are refused with
  nothing published: CLEAR STOP while a transaction is pending, and AUTONOMY
  without a selected map.
\<close>

definition autonomy_without_map :: "(tuning_value \<Rightarrow> string) \<Rightarrow> pose_io \<Rightarrow> pose_node \<Rightarrow> tuning_value \<Rightarrow> bool" where
  "autonomy_without_map str io n message =
     (case message of
        TV_dict a \<Rightarrow> map_of a ''action'' = Some (TV_scalar (LV_str ''select_mode''))
          \<and> py_lower (py_strip (text_item str a ''mode'' [])) = ''autonomy'' \<and> \<not> truthy (selected_map_of (snapshot_of io n))
      | _ \<Rightarrow> False)"

definition action_is :: "tuning_value \<Rightarrow> string \<Rightarrow> bool" where
  "action_is message name = (case message of TV_dict a \<Rightarrow> map_of a ''action'' = Some (TV_scalar (LV_str name)) | _ \<Rightarrow> False)"

definition refused :: "gateway_result \<Rightarrow> string \<Rightarrow> gateway_result" where
  "refused r reason = \<lparr> gr_accepted = False, gr_reason = reason, gr_intents = [], gr_role = gr_role r \<rparr>"

definition admit :: "(tuning_value \<Rightarrow> string) \<Rightarrow> pose_io \<Rightarrow> pose_node \<Rightarrow> tuning_value \<Rightarrow> gateway_result \<Rightarrow> gateway_result" where
  "admit str io n message r =
     (let r1 = (if gr_accepted r \<and> action_is message ''clear_stop'' \<and> pn_pending n \<noteq> None
                then refused r ''CLEAR STOP blocked during initial pose transaction'' else r)
      in if gr_accepted r1 \<and> autonomy_without_map str io n message then refused r1 ''select a completed map before AUTONOMY'' else r1)"

section \<open>Steps\<close>

text \<open>The other handlers write every section but this transaction's.\<close>

datatype pose_input =
    PI_cache cache_op
  | PI_request pose_io pose_intent
  | PI_timer pose_io "transform option"
  | PI_cleared pose_io int string "string option"

definition clear_reply :: "string \<Rightarrow> string option \<Rightarrow> string" where
  "clear_reply costmap failure = (case failure of None \<Rightarrow> [] | Some e \<Rightarrow> costmap @ '' clear failed: '' @ e)"

fun pose_turn :: "pose_node \<Rightarrow> pose_input \<Rightarrow> pose_node \<times> pose_effect list" where
  "pose_turn n (PI_cache op) = (n\<lparr>pn_cache := cache_step (pn_cache n) op\<rparr>, [])"
| "pose_turn n (PI_request io intent) = (fst (set_initial_pose io n intent), [])"
| "pose_turn n (PI_timer io tf) = update_pose io n tf"
| "pose_turn n (PI_cleared io rid costmap failure) = (finish_clear io n rid costmap (clear_reply costmap failure), [])"

section \<open>What the checks mean\<close>

definition stopped_and_still :: "jdict \<Rightarrow> bool" where
  "stopped_and_still s \<longleftrightarrow>
     source_fresh s ''stop_state'' \<and> (\<forall>k \<in> {''stopped'', ''locked'', ''healthy'', ''applied''}. truth_at (or_empty s ''stop_state'') k)
     \<and> source_fresh s ''encoder_state'' \<and> truth_at (or_empty s ''encoder_state'') ''stationary''"

definition localizing_on :: "jdict \<Rightarrow> string \<Rightarrow> int \<Rightarrow> bool" where
  "localizing_on s map_name epoch \<longleftrightarrow>
     source_fresh s ''mode'' \<and> jget (or_empty s ''mode'') ''mode'' = Some (JInt MODE_STATE_AUTONOMY)
     \<and> jget (or_empty s ''mode'') ''status'' = Some (JInt MODE_STATE_STABLE) \<and> truth_at (or_empty s ''mode'') ''ready''
     \<and> int_at (or_empty s ''mode'') ''runtime_epoch'' = epoch \<and> truthy map_name
     \<and> source_fresh s ''map_state'' \<and> list_ex (completes map_name) (items_at (or_empty s ''map_state'') ''catalog'')
     \<and> selected_map_of s = map_name \<and> text_at (or_empty s ''mode'') ''active_autonomy_map'' = map_name"

lemma safety_rejection_iff: "initial_pose_safety_rejection s = [] \<longleftrightarrow> stopped_and_still s"
  by (auto simp: initial_pose_safety_rejection_def stopped_and_still_def Let_def)

lemma rejection_iff: "initial_pose_rejection s = [] \<longleftrightarrow> localizing_on s (selected_map_of s) (int_at (or_empty s ''mode'') ''runtime_epoch'')"
  by (auto simp: initial_pose_rejection_def localizing_on_def Let_def)

lemma context_iff:
  "initial_pose_context_changed p s = [] \<longleftrightarrow> localizing_on s (st_map (pp_status p)) (st_epoch (pp_status p))"
proof -
  have "initial_pose_context_changed p s = [] \<longleftrightarrow>
      initial_pose_rejection s = [] \<and> int_at (or_empty s ''mode'') ''runtime_epoch'' = st_epoch (pp_status p)
      \<and> selected_map_of s = st_map (pp_status p) \<and> text_at (or_empty s ''mode'') ''active_autonomy_map'' = st_map (pp_status p)"
    by (auto simp: initial_pose_context_changed_def Let_def truthy_iff)
  then show ?thesis by (auto simp: rejection_iff localizing_on_def)
qed

definition evidence :: "pose_io \<Rightarrow> pose_node \<Rightarrow> pose_pending \<Rightarrow> bool" where
  "evidence io n p \<longleftrightarrow> stopped_and_still (snapshot_of io n) \<and> localizing_on (snapshot_of io n) (st_map (pp_status p)) (st_epoch (pp_status p))"

section \<open>Histories\<close>

text \<open>What happened so far: the effects of the steps, and the replies of the clear services.\<close>

datatype pose_log = L_effect pose_effect | L_reply int string bool

fun log_of :: "pose_input \<Rightarrow> pose_effect list \<Rightarrow> pose_log list" where
  "log_of (PI_cleared io rid costmap failure) es = L_reply rid costmap (failure = None) # map L_effect es"
| "log_of i es = map L_effect es"

definition logged_step :: "pose_node \<times> pose_log list \<Rightarrow> pose_input \<Rightarrow> pose_node \<times> pose_log list" where
  "logged_step s i = (let (n', es) = pose_turn (fst s) i in (n', snd s @ log_of i es))"

definition logged_initial :: "pose_node \<times> pose_log list \<Rightarrow> bool" where
  "logged_initial s \<longleftrightarrow> s = (new_pose_node, [])"

fun seeds_of :: "pose_log list \<Rightarrow> int list" where
  "seeds_of [] = []"
| "seeds_of (L_effect (PX_publish rid m) # h) = rid # seeds_of h"
| "seeds_of (_ # h) = seeds_of h"

lemma seeds_append [simp]: "seeds_of (a @ b) = seeds_of a @ seeds_of b"
  by (induction a rule: seeds_of.induct) simp_all

definition seeded :: "pose_log list \<Rightarrow> pose_pending \<Rightarrow> bool" where
  "seeded h p \<longleftrightarrow> (\<exists>io. L_effect (PX_publish (pp_request_id p) (seed_message io (pp_intent p))) \<in> set h)"

definition asked :: "pose_log list \<Rightarrow> int \<Rightarrow> string \<Rightarrow> bool" where
  "asked h rid costmap \<longleftrightarrow> L_effect (PX_clear rid costmap) \<in> set h"

definition answered :: "pose_log list \<Rightarrow> int \<Rightarrow> string \<Rightarrow> bool" where
  "answered h rid costmap \<longleftrightarrow> L_reply rid costmap True \<in> set h"

text \<open>
  A pending transaction has done what its phase says; the list of costmaps it
  still waits for is never empty, and without an error every other costmap has
  answered.
\<close>

definition pending_ok :: "pose_log list \<Rightarrow> pose_pending \<Rightarrow> bool" where
  "pending_ok h p \<longleftrightarrow>
     (case pp_phase p of
        WAITING_STOP \<Rightarrow> pp_request_id p \<notin> set (seeds_of h)
      | AWAITING_POSE \<Rightarrow> seeded h p
      | CLEARING \<Rightarrow> seeded h p \<and> pp_clear_pending p \<noteq> []
          \<and> (pp_clear_errors p = [] \<longrightarrow> (\<forall>name \<in> set COSTMAPS. asked h (pp_request_id p) name
                \<and> (name \<in> set (pp_clear_pending p) \<or> answered h (pp_request_id p) name))))"

definition tx_inv :: "pose_node \<times> pose_log list \<Rightarrow> bool" where
  "tx_inv s \<longleftrightarrow> distinct (seeds_of (snd s)) \<and> (\<forall>rid \<in> set (seeds_of (snd s)). rid \<le> pn_request_id (fst s))
     \<and> (\<forall>p. pn_pending (fst s) = Some p \<longrightarrow> pp_request_id p \<le> pn_request_id (fst s) \<and> pending_ok (snd s) p)"

lemma pending_ok_mono:
  assumes "pending_ok h p" "pp_request_id p \<notin> set (seeds_of k)"
  shows "pending_ok (h @ k) p"
  using assms by (cases "pp_phase p") (auto simp: pending_ok_def seeded_def asked_def answered_def)

lemma post_fields [simp]:
  "pn_pending (post io n st state detail observed) = pn_pending n"
  "pn_request_id (post io n st state detail observed) = pn_request_id n"
  by (simp_all add: post_def)

lemma fail_fields [simp]:
  "pn_request_id (fail_initial_pose io n p detail observed) = pn_request_id n"
  "pn_pending (fail_initial_pose io n p detail observed) = (if is_current n p then None else pn_pending n)"
  by (simp_all add: fail_initial_pose_def)

text \<open>Steps that drop or keep the pending transaction and publish nothing.\<close>

definition only_drops :: "pose_node \<Rightarrow> pose_node \<Rightarrow> bool" where
  "only_drops n n' \<longleftrightarrow> pn_request_id n' = pn_request_id n \<and> (pn_pending n' = None \<or> pn_pending n' = pn_pending n)"

lemma only_drops_inv: "only_drops n n' \<Longrightarrow> tx_inv (n, h) \<Longrightarrow> tx_inv (n', h)"
  unfolding only_drops_def tx_inv_def by auto

lemma expire_drops: "only_drops n (expire_initial_pose io n)"
  by (simp add: only_drops_def expire_initial_pose_def split: option.split)

lemma snapshot_pending [simp]:
  "snapshot_of io (n\<lparr>pn_pending := q\<rparr>) = snapshot_of io n" "snapshot_of io (n\<lparr>pn_request_id := r\<rparr>) = snapshot_of io n"
  by (simp_all add: snapshot_of_def)

lemma is_current_same [simp]: "is_current (n\<lparr>pn_pending := Some p\<rparr>) q \<longleftrightarrow> pp_request_id p = pp_request_id q"
  by (simp add: is_current_def)

lemma advance_cases:
  assumes "advance_initial_pose io n = (n', es)"
  obtains "only_drops n n'" "es = []"
  | p where "pn_pending n = Some p" "pp_phase p = WAITING_STOP" "evidence io n p" "1 \<le> io_subscribers io"
      "es = [PX_publish (pp_request_id p) (seed_message io (pp_intent p))]" "pn_request_id n' = pn_request_id n"
      "pn_pending n' = Some (p\<lparr>pp_phase := AWAITING_POSE, pp_deadline := fadd (io_now io) INITIAL_POSE_CONFIRM_TIMEOUT_SEC\<rparr>)"
  using assms
  by (auto simp: advance_initial_pose_def publish_initial_pose_def only_drops_def is_current_def evidence_def Let_def
      truthy_iff context_iff safety_rejection_iff split: option.split_asm if_split_asm)

lemma advance_inv:
  assumes "tx_inv (n, h)" "advance_initial_pose io n = (n', es)"
  shows "tx_inv (n', h @ map L_effect es)"
proof (rule advance_cases [OF assms(2)])
  assume "only_drops n n'" "es = []"
  then show ?thesis using only_drops_inv assms(1) by simp
next
  fix p
  assume a: "pn_pending n = Some p" "pp_phase p = WAITING_STOP"
    "es = [PX_publish (pp_request_id p) (seed_message io (pp_intent p))]" "pn_request_id n' = pn_request_id n"
    "pn_pending n' = Some (p\<lparr>pp_phase := AWAITING_POSE, pp_deadline := fadd (io_now io) INITIAL_POSE_CONFIRM_TIMEOUT_SEC\<rparr>)"
  then show ?thesis using assms(1) by (auto simp: tx_inv_def pending_ok_def seeded_def)
qed

lemma set_pose_inv:
  assumes "tx_inv (n, h)"
  shows "tx_inv (fst (set_initial_pose io n intent), h)"
proof -
  have "pending_ok h p" if "pp_phase p = WAITING_STOP" "pp_request_id p = pn_request_id n + 1" for p
    using that assms by (auto simp: pending_ok_def tx_inv_def)
  then show ?thesis using assms by (auto simp: set_initial_pose_def tx_inv_def Let_def)
qed

lemma finish_inv:
  assumes inv: "tx_inv (n, h)" and ok: "error = [] \<Longrightarrow> answered h rid costmap"
  shows "tx_inv (finish_clear io n rid costmap error, h)"
proof (cases "pn_pending n")
  case (Some p)
  let ?p = "p\<lparr>pp_clear_pending := removeAll costmap (pp_clear_pending p),
              pp_clear_errors := pp_clear_errors p @ (if truthy error then [error] else [])\<rparr>"
  have keep: "pending_ok h p" "pp_request_id p \<le> pn_request_id n" using inv Some by (auto simp: tx_inv_def)
  have "pending_ok h ?p" if "pp_phase p = CLEARING" "pp_clear_pending ?p \<noteq> []" "pp_request_id p = rid"
    using keep(1) that ok by (auto simp: pending_ok_def seeded_def truthy_iff split: if_split_asm)
  then show ?thesis using inv Some keep by (auto simp: finish_clear_def tx_inv_def Let_def)
qed (use inv in \<open>simp add: finish_clear_def\<close>)

lemma reply_inv: "tx_inv (n, h) \<Longrightarrow> tx_inv (n, h @ [L_reply rid costmap b])"
  using pending_ok_mono [of h _ "[L_reply rid costmap b]"] by (auto simp: tx_inv_def)

text \<open>The calls that start are logged; without an error both are.\<close>

lemma start_calls_result:
  assumes "pn_pending n = Some p" "pp_phase p = CLEARING" "pp_clear_pending p = COSTMAPS" "pp_clear_errors p = []"
    and "start_calls io n (pp_request_id p) COSTMAPS = (n', es)"
  shows "seeds_of (map L_effect es) = []" and "pn_request_id n' = pn_request_id n"
    and "pn_pending n' = None \<or> (\<exists>q. pn_pending n' = Some q \<and> pp_request_id q = pp_request_id p \<and> pp_intent q = pp_intent p
           \<and> pp_phase q = CLEARING \<and> pp_clear_pending q \<noteq> []
           \<and> (pp_clear_errors q = [] \<longrightarrow> pp_clear_pending q = COSTMAPS \<and> es = map (PX_clear (pp_request_id p)) COSTMAPS))"
  using assms
  by (auto simp: COSTMAPS_def finish_clear_def Let_def is_current_def split: option.split_asm)

lemma start_clear_inv:
  assumes "tx_inv (n, h)" "pn_pending n = Some p" "pp_phase p = AWAITING_POSE" "start_initial_pose_clear io n p observed = (n', es)"
  shows "tx_inv (n', h @ map L_effect es)"
proof (cases "\<exists>name \<in> set COSTMAPS. \<not> io_clear_ready io name")
  case True
  then have "filter (\<lambda>name. \<not> io_clear_ready io name) COSTMAPS \<noteq> []" by (auto simp: filter_empty_conv)
  then have "only_drops n n'" "es = []" using assms(4) by (auto simp: start_initial_pose_clear_def only_drops_def)
  then show ?thesis using only_drops_inv assms(1) by simp
next
  case False
  let ?p = "p\<lparr>pp_phase := CLEARING, pp_deadline := fadd (io_now io) INITIAL_POSE_CLEAR_TIMEOUT_SEC,
              pp_clear_pending := COSTMAPS, pp_clear_errors := [], pp_observed := observed\<rparr>"
  let ?n = "post io (n\<lparr>pn_pending := Some ?p\<rparr>) (pp_status p) ''clearing'' ''pose confirmed; clearing global and local costmaps'' observed"
  have "filter (\<lambda>name. \<not> io_clear_ready io name) COSTMAPS = []" using False by (auto simp: filter_empty_conv)
  then have run: "start_calls io ?n (pp_request_id ?p) COSTMAPS = (n', es)"
    using assms(2-4) by (simp add: start_initial_pose_clear_def is_current_def)
  note r = start_calls_result [OF _ _ _ _ run, of, simplified]
  have seed: "seeded h p" using assms(1-3) by (auto simp: tx_inv_def pending_ok_def)
  show ?thesis using assms(1,2) r seed
    by (auto simp: tx_inv_def pending_ok_def seeded_def asked_def COSTMAPS_def)
qed

lemma confirm_inv:
  assumes "tx_inv (n, h)" "confirm_initial_pose io n observed robot = (n', es)"
  shows "tx_inv (n', h @ map L_effect es)"
proof -
  have drop: "tx_inv (m, h)" if "only_drops n m" for m using only_drops_inv [OF that assms(1)] .
  show ?thesis using assms start_clear_inv [OF assms(1)]
    by (auto simp: confirm_initial_pose_def Let_def only_drops_def intro!: drop split: option.split_asm if_split_asm)
qed

lemma update_pose_inv:
  assumes "tx_inv (n, h)" "update_pose io n tf = (n', es)"
  shows "tx_inv (n', h @ map L_effect es)"
proof -
  obtain n1 es1 where a: "advance_initial_pose io (expire_initial_pose io n) = (n1, es1)" by fastforce
  have i1: "tx_inv (n1, h @ map L_effect es1)"
    by (rule advance_inv [OF only_drops_inv [OF expire_drops assms(1)] a])
  have c: "tx_inv (n1\<lparr>pn_cache := c\<rparr>, h @ map L_effect es1)" for c using i1 by (simp add: tx_inv_def)
  show ?thesis using assms(2) a i1 confirm_inv [OF c]
    by (auto simp: update_pose_def simp del: cache_step.simps split: option.split_asm sum.split_asm prod.split_asm)
qed

lemma pose_turn_inv: "tx_inv s \<Longrightarrow> tx_inv (logged_step s i)"
proof -
  assume inv: "tx_inv s"
  obtain n h where s: "s = (n, h)" by fastforce
  have reply: "tx_inv (finish_clear io n rid costmap (clear_reply costmap failure), h @ [L_reply rid costmap (failure = None)])"
    for io rid costmap failure
    using inv by (intro finish_inv reply_inv) (auto simp: s answered_def clear_reply_def split: option.split_asm)
  show ?thesis
  proof (cases i)
    case (PI_cache op)
    then show ?thesis using inv by (simp add: s logged_step_def tx_inv_def)
  next
    case (PI_timer io tf)
    then show ?thesis using inv update_pose_inv [of n h io tf] by (simp add: s logged_step_def split: prod.split)
  next
    case (PI_cleared io rid costmap failure)
    then show ?thesis using reply by (simp add: s logged_step_def)
  qed (use inv set_pose_inv in \<open>simp add: s logged_step_def\<close>)
qed

interpretation pose_tx: machine logged_initial logged_step tx_inv
proof unfold_locales
  show "logged_initial s \<Longrightarrow> tx_inv s" for s by (simp add: logged_initial_def new_pose_node_def tx_inv_def)
qed (rule pose_turn_inv)

section \<open>The reported state\<close>

definition reported :: "pose_node \<Rightarrow> string" where
  "reported n = (case en_value (entry_of (pn_cache n) ''initial_pose'') of None \<Rightarrow> [] | Some d \<Rightarrow> text_at d ''state'')"

text \<open>The other handlers write other sections.\<close>

fun foreign :: "pose_input \<Rightarrow> bool" where
  "foreign (PI_cache (CO_update source v now)) = (source \<noteq> ''initial_pose'')"
| "foreign (PI_cache (CO_invalidate source)) = (source \<noteq> ''initial_pose'')"
| "foreign _ = True"

lemma entry_of_update: "entry_of (cache_step c (CO_update source v now)) name =
   (if name = source \<and> dict_get c source \<noteq> None then \<lparr> en_value = Some v, en_received_at = Some now,
      en_revision = en_revision (entry_of c source) + (if value_eq (en_value (entry_of c source)) (Some v) then 0 else 1) \<rparr>
    else entry_of c name)"
  by (auto simp: entry_of_def update_def dict_get_set Let_def split: option.split)

lemma reported_post: "reported (post io n st state detail observed) \<in> {reported n, state}"
  by (auto simp: reported_def post_def entry_of_update status_json_def text_at_def jget_def dict_get_def simp del: cache_step.simps)

lemma reported_pending [simp]:
  "reported (n\<lparr>pn_pending := q\<rparr>) = reported n" "reported (n\<lparr>pn_request_id := r\<rparr>) = reported n"
  by (simp_all add: reported_def)

lemma reported_foreign:
  "source \<noteq> ''initial_pose'' \<Longrightarrow> reported (n\<lparr>pn_cache := cache_step (pn_cache n) (CO_update source v now)\<rparr>) = reported n"
  "source \<noteq> ''initial_pose'' \<Longrightarrow> reported (n\<lparr>pn_cache := cache_step (pn_cache n) (CO_invalidate source)\<rparr>) = reported n"
  by (auto simp: reported_def entry_of_update simp del: cache_step.simps)
    (auto simp: entry_of_def invalidate_def dict_get_set split: option.split)

text \<open>A step that does not report success.\<close>

definition no_success :: "pose_node \<Rightarrow> pose_node \<Rightarrow> bool" where
  "no_success n n' \<longleftrightarrow> (reported n' = ''applied'' \<longrightarrow> reported n = ''applied'')"

lemma no_success_refl [simp]: "no_success n n"
  by (simp add: no_success_def)

lemma no_success_trans: "no_success a b \<Longrightarrow> no_success b c \<Longrightarrow> no_success a c"
  by (simp add: no_success_def)

lemma no_success_post: "state \<noteq> ''applied'' \<Longrightarrow> no_success n m \<Longrightarrow> no_success n (post io m st state detail observed)"
  using reported_post [of io m st state detail observed] by (auto simp: no_success_def)

lemma no_success_frame [simp]:
  "no_success n (m\<lparr>pn_pending := q\<rparr>) = no_success n m" "no_success n (m\<lparr>pn_request_id := r\<rparr>) = no_success n m"
  by (simp_all add: no_success_def)

lemma no_success_fail: "no_success n m \<Longrightarrow> no_success n (fail_initial_pose io m p detail observed)"
  by (simp add: fail_initial_pose_def no_success_post)

lemmas no_success_intros = no_success_fail no_success_post

lemma request_no_success: "no_success n (fst (set_initial_pose io n intent))"
  by (simp add: set_initial_pose_def Let_def no_success_intros)

lemma expire_no_success: "no_success n (expire_initial_pose io n)"
  by (simp add: expire_initial_pose_def no_success_intros split: option.split)

lemma advance_no_success: "no_success n (fst (advance_initial_pose io n))"
  by (simp add: advance_initial_pose_def publish_initial_pose_def Let_def no_success_intros split: option.split)

text \<open>Success is reported by the last reply alone, with the evidence still there.\<close>

lemma finish_pose_success:
  assumes "\<not> no_success n (finish_clear io n rid costmap error)"
  obtains p where "pn_pending n = Some p" "pp_request_id p = rid" "pp_phase p = CLEARING" "costmap \<in> set (pp_clear_pending p)"
    "removeAll costmap (pp_clear_pending p) = []" "pp_clear_errors p = []" "error = []" "evidence io n p"
    "pn_pending (finish_clear io n rid costmap error) = None"
proof (cases "pn_pending n")
  case None
  then show ?thesis using assms by (simp add: finish_clear_def)
next
  case (Some p)
  have *: "pp_request_id p = rid \<and> pp_phase p = CLEARING \<and> costmap \<in> set (pp_clear_pending p) \<and> removeAll costmap (pp_clear_pending p) = []
      \<and> pp_clear_errors p @ (if truthy error then [error] else []) = [] \<and> evidence io n p"
    using assms Some
    by (auto simp: finish_clear_def Let_def evidence_def truthy_iff context_iff safety_rejection_iff no_success_intros
        split: if_split_asm)
  then have "error = []" "pp_clear_errors p = []" by (auto simp: truthy_iff split: if_split_asm)
  with * Some show ?thesis using that
    by (auto simp: finish_clear_def Let_def evidence_def truthy_iff context_iff safety_rejection_iff)
qed

lemma start_calls_no_success: "no_success n (fst (start_calls io n rid names))"
proof (induction names arbitrary: n)
  case (Cons name names)
  have "no_success n (finish_clear io n rid name (name @ '' clear failed to start: '' @ e))" for e
  proof (rule ccontr)
    assume "\<not> ?thesis"
    then show False by (rule finish_pose_success) simp
  qed
  then have "no_success n (fst (start_calls io (finish_clear io n rid name (name @ '' clear failed to start: '' @ e)) rid names))" for e
    by (rule no_success_trans [OF _ Cons])
  then show ?case using Cons [of n] by (simp add: Let_def case_prod_unfold split: option.split)
qed simp

lemma confirm_no_success: "no_success n (fst (confirm_initial_pose io n observed robot))"
proof -
  have "no_success n (fst (start_calls io (post io (n\<lparr>pn_pending := q\<rparr>) st ''clearing'' detail observed') rid names))"
    for q st detail observed' rid names
    by (rule no_success_trans [OF _ start_calls_no_success]) (simp add: no_success_intros)
  then show ?thesis
    by (simp add: confirm_initial_pose_def start_initial_pose_clear_def Let_def no_success_intros split: option.split)
qed

lemma update_no_success: "no_success n (fst (update_pose io n tf))"
proof -
  obtain n1 es where a: "advance_initial_pose io (expire_initial_pose io n) = (n1, es)" by fastforce
  have n1: "no_success n n1"
    using no_success_trans [OF expire_no_success advance_no_success, of n io io] a by simp
  have "no_success n (fst (confirm_initial_pose io (n1\<lparr>pn_cache := cache_step (pn_cache n1) (CO_update ''pose'' v t)\<rparr>) observed robot))"
    for v t observed robot
  proof (rule no_success_trans [OF _ confirm_no_success])
    show "no_success n (n1\<lparr>pn_cache := cache_step (pn_cache n1) (CO_update ''pose'' v t)\<rparr>)"
      using n1 reported_foreign(1) [of "''pose''" n1 v t] by (simp add: no_success_def del: cache_step.simps)
  qed
  then show ?thesis using a n1
    by (simp add: update_pose_def case_prod_unfold Let_def o_def del: cache_step.simps split: option.split sum.split)
qed

section \<open>Deadlines\<close>

text \<open>A timer tick at or after the deadline ends the transaction.\<close>

lemma tick_after_deadline:
  assumes "pn_pending n = Some p" "\<not> flt (io_now io) (pp_deadline p)"
  shows "pn_pending (fst (update_pose io n tf)) = None \<and> snd (update_pose io n tf) = []"
proof -
  have e: "pn_pending (expire_initial_pose io n) = None" using assms by (simp add: expire_initial_pose_def is_current_def)
  have "advance_initial_pose io (expire_initial_pose io n) = (expire_initial_pose io n, [])" using e by (simp add: advance_initial_pose_def)
  moreover have "confirm_initial_pose io ((expire_initial_pose io n)\<lparr>pn_cache := c\<rparr>) observed robot
      = ((expire_initial_pose io n)\<lparr>pn_cache := c\<rparr>, [])" for c observed robot
    using e by (simp add: confirm_initial_pose_def)
  ultimately show ?thesis using e
    by (auto simp: update_pose_def simp del: cache_step.simps split: option.split sum.split)
qed

section \<open>A transaction that goes through\<close>

definition SECTIONS :: "string list" where
  "SECTIONS = [''mode'', ''map_state'', ''stop_state'', ''encoder_state'']"

definition same_sections :: "pose_node \<Rightarrow> pose_node \<Rightarrow> bool" where
  "same_sections n m \<longleftrightarrow> (\<forall>k \<in> set SECTIONS. dict_get (pn_cache m) k = dict_get (pn_cache n) k)"

lemma dict_get_sources:
  "dict_get (map (\<lambda>(name, e). (Some name, f name e)) c) (Some k) = map_option (f k) (dict_get c k)"
  by (induction c) (auto simp: dict_get_def)

lemma source_fresh_cache:
  "source_fresh (state_snapshot c now) k = (case dict_get c k of None \<Rightarrow> False | Some e \<Rightarrow> source_is_fresh k e now)"
proof -
  have h: "or_empty (or_empty (state_snapshot c now) ''health'') ''sources''
      = map (\<lambda>(name, e). (Some name, health_json (health_of name e now))) c"
    by (simp add: or_empty_def jget_def dict_get_def state_snapshot_def state_snapshot_with_keys_def snapshot_health_def SMALL_SOURCES_def Let_def)
  show ?thesis
    unfolding source_fresh_def h
    by (simp add: truth_at_def or_empty_def jget_def dict_get_sources split: option.split)
      (simp add: health_json_def health_of_def dict_get_def)
qed

lemma dict_get_names: "k \<in> set names \<Longrightarrow> dict_get (map (\<lambda>name. (Some name, f name)) names @ d) (Some k) = Some (f k)"
  by (induction names) (auto simp: dict_get_def)

lemma section_cache:
  assumes "k \<in> set SECTIONS"
  shows "or_empty (state_snapshot c now) k = (case en_value (entry_of c k) of None \<Rightarrow> [] | Some d \<Rightarrow> d)"
proof -
  have "k \<in> set SMALL_SOURCES" using assms by (auto simp: SECTIONS_def SMALL_SOURCES_def)
  then have "jget (state_snapshot c now) k = Some (json_of_value (en_value (entry_of c k)))"
    by (simp only: jget_def state_snapshot_def state_snapshot_with_keys_def fst_conv dict_get_names)
  then show ?thesis by (simp add: or_empty_def json_of_value_def split: option.split)
qed

lemma evidence_frame: "same_sections n m \<Longrightarrow> evidence io m p = evidence io n p"
  by (simp add: same_sections_def evidence_def stopped_and_still_def localizing_on_def snapshot_of_def source_fresh_cache
      section_cache selected_map_of_def SECTIONS_def entry_of_def)

lemma same_sections_refl [simp]: "same_sections n n"
  by (simp add: same_sections_def)

lemma same_sections_frame [simp]:
  "same_sections n (post io m st state detail observed) = same_sections n m"
  "same_sections n (m\<lparr>pn_pending := q\<rparr>) = same_sections n m"
  by (auto simp: same_sections_def post_def SECTIONS_def update_def dict_get_set Let_def split: option.split)

lemma same_sections_pose: "same_sections n m \<Longrightarrow> same_sections n (m\<lparr>pn_cache := cache_step (pn_cache m) (CO_update ''pose'' v t)\<rparr>)"
  by (auto simp: same_sections_def SECTIONS_def update_def dict_get_set Let_def split: option.split)

lemma evidence_checks:
  assumes "evidence io n p" "same_sections n m" "pp_status q = pp_status p"
  shows "initial_pose_context_changed q (snapshot_of io m) = []" "initial_pose_safety_rejection (snapshot_of io m) = []"
  using assms(1) assms(3) unfolding evidence_frame [OF assms(2), of io p, symmetric]
  by (simp_all add: context_iff safety_rejection_iff evidence_def)

text \<open>The cache has the section of this transaction, as its constructor made it.\<close>

definition listed :: "pose_node \<Rightarrow> bool" where
  "listed n \<longleftrightarrow> dict_get (pn_cache n) ''initial_pose'' \<noteq> None"

lemma listed_frame [simp]: "listed (post io n st state detail observed) = listed n" "listed (n\<lparr>pn_pending := q\<rparr>) = listed n"
  by (auto simp: listed_def post_def update_def dict_get_set Let_def split: option.split)

lemma listed_pose: "listed (n\<lparr>pn_cache := cache_step (pn_cache n) (CO_update ''pose'' v t)\<rparr>) = listed n"
  by (auto simp: listed_def update_def dict_get_set Let_def split: option.split)

lemma reported_listed [simp]: "listed n \<Longrightarrow> reported (post io n st state detail observed) = state"
  by (auto simp: reported_def post_def entry_of_update listed_def status_json_def text_at_def jget_def dict_get_def simp del: cache_step.simps)

text \<open>One tick with the evidence there and a robot that stands at the seed: publish and ask both costmaps.\<close>

lemma tick_goes_through:
  assumes "pn_pending n = Some p" "pp_phase p = WAITING_STOP" "flt (io_now io) (pp_deadline p)" "evidence io n p"
    and "1 \<le> io_subscribers io" "read_transform io tf = Inr (pose, observed, robot)" "pose_agrees io robot (pp_intent p) = Inr True"
    and "\<And>name. io_clear_ready io name" "\<And>name. io_clear_start_error io name = None"
  shows "\<exists>n'. update_pose io n (Some tf) = (n', PX_publish (pp_request_id p) (seed_message io (pp_intent p)) # map (PX_clear (pp_request_id p)) COSTMAPS)
    \<and> pn_pending n' = Some (p\<lparr>pp_phase := CLEARING, pp_deadline := fadd (io_now io) INITIAL_POSE_CLEAR_TIMEOUT_SEC,
         pp_clear_pending := COSTMAPS, pp_clear_errors := [], pp_observed := observed\<rparr>) \<and> same_sections n n'
    \<and> (listed n \<longrightarrow> listed n' \<and> reported n' = ''clearing'')"
proof -
  have adv: "advance_initial_pose io (expire_initial_pose io n) = publish_initial_pose io n p"
    using assms(1-5) evidence_checks [OF assms(4), of n p] by (simp add: expire_initial_pose_def advance_initial_pose_def Let_def)
  obtain n1 where n1: "publish_initial_pose io n p = (n1, [PX_publish (pp_request_id p) (seed_message io (pp_intent p))])"
      "pn_pending n1 = Some (p\<lparr>pp_phase := AWAITING_POSE, pp_deadline := fadd (io_now io) INITIAL_POSE_CONFIRM_TIMEOUT_SEC\<rparr>)"
      "same_sections n n1" "listed n \<Longrightarrow> listed n1"
    using assms(1,2) by (simp add: publish_initial_pose_def is_current_def)
  have ready: "filter (\<lambda>name. \<not> io_clear_ready io name) COSTMAPS = []" using assms(8) by (simp add: filter_empty_conv)
  have calls: "start_calls io m rid COSTMAPS = (m, map (PX_clear rid) COSTMAPS)" for m rid
    using assms(9) by (simp add: COSTMAPS_def)
  show ?thesis
    using assms(6,7) n1 evidence_checks [OF assms(4) same_sections_pose [OF n1(3)]] same_sections_pose [OF n1(3)] listed_pose [of n1]
    by (simp add: update_pose_def adv confirm_initial_pose_def start_initial_pose_clear_def ready calls is_current_def Let_def
        del: cache_step.simps)
qed

text \<open>Both replies, in either order, complete it.\<close>

lemma replies_complete:
  assumes "pn_pending n = Some q" "pp_phase q = CLEARING" "pp_clear_pending q = COSTMAPS" "pp_clear_errors q = []"
    and "(a, b) \<in> {(''global'', ''local''), (''local'', ''global'')}" "evidence io2 n q" "listed n"
  shows "reported (finish_clear io1 n (pp_request_id q) a []) = reported n"
    and "reported (finish_clear io2 (finish_clear io1 n (pp_request_id q) a []) (pp_request_id q) b []) = ''applied''"
proof -
  let ?m = "n\<lparr>pn_pending := Some (q\<lparr>pp_clear_pending := [b]\<rparr>)\<rparr>"
  have m: "finish_clear io1 n (pp_request_id q) a [] = ?m"
    using assms(1-5) by (auto simp: finish_clear_def COSTMAPS_def Let_def)
  show "reported (finish_clear io1 n (pp_request_id q) a []) = reported n" by (simp add: m)
  have "initial_pose_context_changed (q\<lparr>pp_clear_pending := [], pp_clear_errors := []\<rparr>) (snapshot_of io2 n) = []" "initial_pose_safety_rejection (snapshot_of io2 n) = []"
    using evidence_checks [OF assms(6), of n "q\<lparr>pp_clear_pending := [], pp_clear_errors := []\<rparr>"] by simp_all
  then show "reported (finish_clear io2 (finish_clear io1 n (pp_request_id q) a []) (pp_request_id q) b []) = ''applied''"
    using assms(2,4,7) unfolding m by (simp add: finish_clear_def Let_def)
qed

section \<open>A concrete transaction\<close>

definition demo_io :: "rat \<Rightarrow> pose_io" where
  "demo_io t = \<lparr> io_now = Fin t, io_stamp = JInt 0, io_subscribers = 1, io_clear_ready = (\<lambda>_. True), io_clear_start_error = (\<lambda>_. None),
     io_sin = (\<lambda>x. x), io_cos = (\<lambda>x. Fin 1), io_hypot = (\<lambda>x y. fmax (fabs x) (fabs y)), io_atan2 = (\<lambda>y x. y) \<rparr>"

definition demo_intent :: pose_intent where
  "demo_intent = \<lparr> pi_x = Fin 1, pi_y = Fin 2, pi_yaw = Fin 0, pi_frame = ''map'' \<rparr>"

definition demo_transform :: transform where
  "demo_transform = \<lparr> tf_sec = 1, tf_nanosec = 0, tf_frame = ''map'', tf_child = ''base_link'', tf_x = Fin 1, tf_y = Fin 2, tf_z = Fin 0,
     tf_qx = Fin 0, tf_qy = Fin 0, tf_qz = Fin 0, tf_qw = Fin 1 \<rparr>"

definition demo_evidence :: "pose_input list" where
  "demo_evidence =
     [PI_cache (CO_update ''mode'' [(Some ''mode'', JInt 2), (Some ''status'', JInt 0), (Some ''active_autonomy_map'', JStr ''studio''),
         (Some ''runtime_epoch'', JInt 3), (Some ''ready'', JBool True)] (Fin 1)),
      PI_cache (CO_update ''map_state'' [(Some ''selected_map_applied'', JStr ''studio''),
         (Some ''catalog'', JList [JDict [(Some ''name'', JStr ''studio''), (Some ''complete'', JBool True)]])] (Fin 1)),
      PI_cache (CO_update ''stop_state'' [(Some ''stopped'', JBool True), (Some ''locked'', JBool True), (Some ''healthy'', JBool True),
         (Some ''applied'', JBool True)] (Fin 1)),
      PI_cache (CO_update ''encoder_state'' [(Some ''stationary'', JBool True)] (Fin 1))]"

definition demo_transaction :: "pose_input list" where
  "demo_transaction = demo_evidence @
     [PI_request (demo_io 1) demo_intent, PI_timer (demo_io 1) (Some demo_transform), PI_cleared (demo_io 1) 1 ''global'' None]"

definition demo_requested :: "pose_node \<times> pose_log list" where
  "demo_requested = run_steps logged_step (new_pose_node, []) (demo_evidence @ [PI_request (demo_io 1) demo_intent])"

lemmas pose_eval = logged_step_def demo_evidence_def demo_transaction_def demo_io_def demo_intent_def demo_transform_def new_pose_node_def
  new_cache_def ENTRY_NAMES_def new_entry_def update_def dict_get_def set_initial_pose_def snapshot_of_def state_snapshot_def
  state_snapshot_with_keys_def snapshot_health_def health_of_def health_json_def source_is_fresh_def EXPIRY_SEC_def entry_of_def SMALL_SOURCES_def INITIAL_POSE_STOP_TIMEOUT_SEC_def
  json_of_value_def initial_pose_rejection_def source_fresh_def truth_at_def or_empty_def text_at_def int_at_def items_at_def jget_def completes_def
  selected_map_of_def MODE_STATE_AUTONOMY_def MODE_STATE_STABLE_def initial_pose_status_def post_def status_json_def value_eq_def

lemma demo_requested_value:
  "pn_pending (fst demo_requested) = Some \<lparr> pp_request_id = 1, pp_phase = WAITING_STOP, pp_deadline = Fin 6,
      pp_status = \<lparr> st_map = ''studio'', st_epoch = 3, st_intent = demo_intent \<rparr>, pp_intent = demo_intent,
      pp_clear_pending = [], pp_clear_errors = [], pp_observed = JNull \<rparr>"
  "snd demo_requested = []"
  by (simp_all add: demo_requested_def pose_eval)


lemma floor_half: "\<lfloor>1 / 2 :: rat\<rfloor> = 0"
  by (simp add: floor_eq_iff)

lemma fresh_now: "fle (Fin 0) (dbl (1 / 5))"
  by (rule dbl_ge_double) simp_all

lemma demo_agrees: "pose_agrees (demo_io 1) \<lparr> pl_x = Fin 1, pl_y = Fin 2, pl_yaw = Fin 0 \<rparr> demo_intent = Inr True"
proof -
  have "normalized_yaw (Fin 0) = Inr (Fin 0)"
    using pi_doubles(1) floor_half by (simp add: normalized_yaw_def PI_def dbl_is_double exact_rem_def trunc_rat_def Let_def)
  moreover have "\<not> flt INITIAL_POSE_YAW_TOLERANCE_RAD (Fin 0)"
  proof -
    obtain r where r: "dbl (884279719003555 / 281474976710656 / 180) = Fin r" "0 \<le> r"
      using dbl_in_double [of 0 "884279719003555 / 281474976710656 / 180" 1] by auto
    have "fle (Fin 0) (dbl (15 * r))" using r(2) by (intro dbl_ge_double) simp_all
    then show ?thesis using r flt_not_fle by (auto simp: INITIAL_POSE_YAW_TOLERANCE_RAD_def PI_def)
  qed
  ultimately show ?thesis by (simp add: pose_agrees_def demo_io_def demo_intent_def INITIAL_POSE_POSITION_TOLERANCE_M_def)
qed

lemma demo_evidence_there:
  "evidence (demo_io 1) (fst demo_requested) p \<longleftrightarrow> st_map (pp_status p) = ''studio'' \<and> st_epoch (pp_status p) = 3"
proof -
  have "map (\<lambda>k. map_option (\<lambda>e. (en_value e, en_received_at e)) (dict_get (pn_cache (fst demo_requested)) k)) SECTIONS =
      [Some (Some [(Some ''mode'', JInt 2), (Some ''status'', JInt 0), (Some ''active_autonomy_map'', JStr ''studio''),
          (Some ''runtime_epoch'', JInt 3), (Some ''ready'', JBool True)], Some (Fin 1)),
       Some (Some [(Some ''selected_map_applied'', JStr ''studio''),
          (Some ''catalog'', JList [JDict [(Some ''name'', JStr ''studio''), (Some ''complete'', JBool True)]])], Some (Fin 1)),
       Some (Some [(Some ''stopped'', JBool True), (Some ''locked'', JBool True), (Some ''healthy'', JBool True), (Some ''applied'', JBool True)],
          Some (Fin 1)),
       Some (Some [(Some ''stationary'', JBool True)], Some (Fin 1))]"
    by (simp add: demo_requested_def SECTIONS_def pose_eval)
  then show ?thesis using fresh_now
    by (auto simp: SECTIONS_def evidence_def stopped_and_still_def localizing_on_def snapshot_of_def source_fresh_cache section_cache
        selected_map_of_def entry_of_def source_is_fresh_def EXPIRY_SEC_def truth_at_def text_at_def int_at_def items_at_def jget_def
        dict_get_def completes_def MODE_STATE_AUTONOMY_def MODE_STATE_STABLE_def demo_io_def)
qed

definition demo_pending :: pose_pending where
  "demo_pending = the (pn_pending (fst demo_requested))"

lemma demo_requested_facts:
  "pn_pending (fst demo_requested) = Some demo_pending" "pp_phase demo_pending = WAITING_STOP" "pp_request_id demo_pending = 1"
  "flt (io_now (demo_io 1)) (pp_deadline demo_pending)" "evidence (demo_io 1) (fst demo_requested) demo_pending"
  "pp_intent demo_pending = demo_intent" "snd demo_requested = []"
  using demo_requested_value demo_evidence_there by (simp_all add: demo_pending_def demo_io_def)

lemma demo_listed: "listed (fst demo_requested)"
  by (simp add: listed_def demo_requested_def pose_eval)

lemma demo_reads: "\<exists>pose observed. read_transform (demo_io 1) demo_transform = Inr (pose, observed, \<lparr> pl_x = Fin 1, pl_y = Fin 2, pl_yaw = Fin 0 \<rparr>)"
  by (simp add: read_transform_def all_finite_def yaw_of_def stamp_json_def demo_transform_def demo_io_def Let_def)

definition demo_tick :: pose_input where "demo_tick = PI_timer (demo_io 1) (Some demo_transform)"

lemma demo_tick_value:
  obtains n' observed where
    "pose_turn (fst demo_requested) demo_tick
       = (n', PX_publish 1 (seed_message (demo_io 1) demo_intent) # map (PX_clear 1) COSTMAPS)"
    "pn_pending n' = Some (demo_pending\<lparr>pp_phase := CLEARING, pp_deadline := fadd (Fin 1) INITIAL_POSE_CLEAR_TIMEOUT_SEC,
       pp_clear_pending := COSTMAPS, pp_clear_errors := [], pp_observed := observed\<rparr>)"
    "same_sections (fst demo_requested) n'" "listed n'" "reported n' = ''clearing''"
proof -
  obtain pose observed where r: "read_transform (demo_io 1) demo_transform = Inr (pose, observed, \<lparr> pl_x = Fin 1, pl_y = Fin 2, pl_yaw = Fin 0 \<rparr>)"
    using demo_reads by blast
  have io: "1 \<le> io_subscribers (demo_io 1)" "io_clear_ready (demo_io 1) name" "io_clear_start_error (demo_io 1) name = None"
      "io_now (demo_io 1) = Fin 1" for name by (simp_all add: demo_io_def)
  show ?thesis
    using tick_goes_through [OF demo_requested_facts(1,2,4,5) io(1) r _ io(2,3)] demo_agrees demo_listed that
    by (auto simp: demo_requested_facts demo_tick_def io)
qed

definition demo_replied :: "pose_node \<times> pose_log list" where
  "demo_replied = run_steps logged_step demo_requested [demo_tick, PI_cleared (demo_io 1) 1 ''global'' None]"

definition demo_last_reply :: pose_input where
  "demo_last_reply = PI_cleared (demo_io 1) 1 ''local'' None"

lemma demo_replied_run:
  "demo_replied = run_steps logged_step (new_pose_node, [])
     ((demo_evidence @ [PI_request (demo_io 1) demo_intent]) @ [demo_tick, PI_cleared (demo_io 1) 1 ''global'' None])"
  by (simp only: demo_replied_def demo_requested_def run_steps_append)

lemma demo_replied_facts:
  "reported (fst demo_replied) = ''clearing''"
  "reported (fst (pose_turn (fst demo_replied) demo_last_reply)) = ''applied''"
proof -
  obtain n1 observed where t: "pose_turn (fst demo_requested) demo_tick
        = (n1, PX_publish 1 (seed_message (demo_io 1) demo_intent) # map (PX_clear 1) COSTMAPS)"
      "pn_pending n1 = Some (demo_pending\<lparr>pp_phase := CLEARING, pp_deadline := fadd (Fin 1) INITIAL_POSE_CLEAR_TIMEOUT_SEC,
         pp_clear_pending := COSTMAPS, pp_clear_errors := [], pp_observed := observed\<rparr>)"
      "same_sections (fst demo_requested) n1" "listed n1" "reported n1 = ''clearing''"
    by (rule demo_tick_value)
  have s: "fst demo_replied = finish_clear (demo_io 1) n1 1 ''global'' []"
    using t(1) by (simp add: demo_replied_def logged_step_def clear_reply_def del: pose_turn.simps(3))
  have ev: "evidence (demo_io 1) n1 (demo_pending\<lparr>pp_phase := CLEARING, pp_deadline := fadd (Fin 1) INITIAL_POSE_CLEAR_TIMEOUT_SEC,
         pp_clear_pending := COSTMAPS, pp_clear_errors := [], pp_observed := observed\<rparr>)"
    using evidence_frame [OF t(3), of "demo_io 1"] demo_requested_facts(5) by (simp add: evidence_def)
  note r = replies_complete [OF t(2) _ _ _ _ ev t(4), of "''global''" "''local''" "demo_io 1", simplified]
  show "reported (fst demo_replied) = ''clearing''"
    "reported (fst (pose_turn (fst demo_replied) demo_last_reply)) = ''applied''"
    using r t(5) demo_requested_facts(3) unfolding s by (simp_all add: clear_reply_def demo_last_reply_def)
qed

section \<open>Properties\<close>

lemma seed_effect:
  assumes "pose_turn n i = (n', es)" "PX_publish rid m \<in> set es"
  shows "\<exists>io tf p. i = PI_timer io tf \<and> pn_pending n = Some p \<and> pp_phase p = WAITING_STOP \<and> rid = pp_request_id p
    \<and> m = seed_message io (pp_intent p) \<and> evidence io n p"
proof (cases i)
  case (PI_timer io tf)
  obtain n1 es1 where a: "advance_initial_pose io (expire_initial_pose io n) = (n1, es1)" by fastforce
  have calls: "PX_publish rid m \<notin> set (snd (start_calls io n2 r names))" for n2 r names
    by (induction names arbitrary: n2) (auto simp: Let_def case_prod_unfold split: option.split)
  have "PX_publish rid m \<notin> set (snd (confirm_initial_pose io n2 observed robot))" for n2 observed robot
    using calls by (simp add: confirm_initial_pose_def start_initial_pose_clear_def Let_def split: option.split)
  then have "PX_publish rid m \<in> set es1"
    using assms PI_timer a
    by (auto simp: update_pose_def case_prod_unfold Let_def simp del: cache_step.simps split: option.split_asm sum.split_asm)
  then obtain p where p: "pn_pending (expire_initial_pose io n) = Some p" "pp_phase p = WAITING_STOP" "rid = pp_request_id p"
      "m = seed_message io (pp_intent p)" "evidence io (expire_initial_pose io n) p"
    by (auto intro: advance_cases [OF a])
  then have "expire_initial_pose io n = n" by (auto simp: expire_initial_pose_def is_current_def split: option.split_asm if_split_asm)
  then show ?thesis using p PI_timer by auto
qed (use assms in auto)

text \<open>
  C17. A localisation seed is published only for the pending request, from the
  timer, once, and at a moment when the cached state is fresh and shows a
  healthy applied STOP, a standing robot and the same stable AUTONOMY runtime on
  the same completed map as when the request was accepted; it is the pose the
  operator asked for.
\<close>

theorem seed_needs_standstill:
  assumes "s = run_steps logged_step (new_pose_node, []) is" and "pose_turn (fst s) i = (n', es)" and "PX_publish rid m \<in> set es"
  shows "rid \<notin> set (seeds_of (snd s)) \<and> (\<exists>io tf p. i = PI_timer io tf \<and> pn_pending (fst s) = Some p \<and> rid = pp_request_id p
    \<and> m = seed_message io (pp_intent p) \<and> stopped_and_still (snapshot_of io (fst s))
    \<and> localizing_on (snapshot_of io (fst s)) (st_map (pp_status p)) (st_epoch (pp_status p)))"
proof -
  obtain io tf p where p: "i = PI_timer io tf" "pn_pending (fst s) = Some p" "pp_phase p = WAITING_STOP" "rid = pp_request_id p"
      "m = seed_message io (pp_intent p)" "evidence io (fst s) p"
    using seed_effect [OF assms(2,3)] by blast
  have "tx_inv s" using assms(1) pose_tx.invar_reachable by (simp add: logged_initial_def)
  then have "rid \<notin> set (seeds_of (snd s))" using p by (auto simp: tx_inv_def pending_ok_def)
  then show ?thesis using p unfolding evidence_def by blast
qed

theorem seed_needs_standstill_witness:
  "\<exists>io tf p. demo_tick = PI_timer io tf \<and> pn_pending (fst demo_requested) = Some p \<and> 1 = pp_request_id p
     \<and> stopped_and_still (snapshot_of io (fst demo_requested))"
proof -
  obtain n' where "pose_turn (fst demo_requested) demo_tick
      = (n', PX_publish 1 (seed_message (demo_io 1) demo_intent) # map (PX_clear 1) COSTMAPS)"
    using demo_tick_value by metis
  then show ?thesis using seed_needs_standstill [OF demo_requested_def, of demo_tick n' _ 1 "seed_message (demo_io 1) demo_intent"]
    by auto
qed

text \<open>
  C18. The report that a pose was applied is earned. Of all inputs but a write of
  that section itself, only one turns it to applied: a reply of a clear service
  to the pending request that carries no error and leaves no costmap waiting.
  By then the seed of that request was published, both costmaps were asked to
  clear, every other one had answered without an error, and the state cached at
  that reply still shows STOP, standstill, runtime and map as required.
\<close>

theorem applied_pose_is_earned:
  assumes "s = run_steps logged_step (new_pose_node, []) is" and "foreign i" and "pose_turn (fst s) i = (n', es)"
    and "reported n' = ''applied''" and "reported (fst s) \<noteq> ''applied''"
  shows "\<exists>io p costmap. i = PI_cleared io (pp_request_id p) costmap None
    \<and> pn_pending (fst s) = Some p \<and> seeded (snd s) p \<and> removeAll costmap (pp_clear_pending p) = []
    \<and> (\<forall>name \<in> set COSTMAPS. asked (snd s) (pp_request_id p) name
          \<and> (name = costmap \<or> answered (snd s) (pp_request_id p) name))
    \<and> stopped_and_still (snapshot_of io (fst s))
    \<and> localizing_on (snapshot_of io (fst s)) (st_map (pp_status p)) (st_epoch (pp_status p)) \<and> pn_pending n' = None"
proof -
  have fail: "\<not> no_success (fst s) n'" using assms(4,5) by (simp add: no_success_def)
  have inv: "tx_inv s" using assms(1) pose_tx.invar_reachable by (simp add: logged_initial_def)
  show ?thesis
  proof (cases i)
    case (PI_cache op)
    then show ?thesis using fail assms(2,3) reported_foreign by (cases op) (auto simp: no_success_def simp del: cache_step.simps)
  next
    case (PI_cleared io rid costmap failure)
    then have n': "n' = finish_clear io (fst s) rid costmap (clear_reply costmap failure)" and es: "es = []" using assms(3) by auto
    obtain p where p: "pn_pending (fst s) = Some p" "pp_request_id p = rid" "pp_phase p = CLEARING"
        "removeAll costmap (pp_clear_pending p) = []" "pp_clear_errors p = []" "clear_reply costmap failure = []" "evidence io (fst s) p"
        "pn_pending n' = None"
      using fail unfolding n' by (rule finish_pose_success)
    have ok: "pending_ok (snd s) p" using inv p(1) by (simp add: tx_inv_def)
    have none: "failure = None" using p(6) by (auto simp: clear_reply_def split: option.split_asm)
    have "answered (snd s) rid name" if "name \<in> set COSTMAPS" "name \<noteq> costmap" for name
    proof -
      have "name \<notin> set (pp_clear_pending p)" using that(2) arg_cong [OF p(4), of set] by auto
      then show ?thesis using ok p(2,3,5) that by (auto simp: pending_ok_def answered_def)
    qed
    then show ?thesis using ok p PI_cleared none unfolding evidence_def
      by (intro exI [of _ io] exI [of _ p] exI [of _ costmap]) (auto simp: pending_ok_def)
  qed (use fail assms(3) request_no_success update_no_success in \<open>auto, metis fst_conv\<close>)
qed

theorem applied_pose_is_earned_witness:
  "reported (fst (pose_turn (fst demo_replied) demo_last_reply)) = ''applied''
   \<and> pn_pending (fst (pose_turn (fst demo_replied) demo_last_reply)) = None"
  using applied_pose_is_earned [OF demo_replied_run, of demo_last_reply _ "[]"] demo_replied_facts
  by (auto simp: demo_last_reply_def)

end
