(* ===== verification/LiveParameters.thy ===== *)
theory LiveParameters
  imports SpeedProfiles
begin

text \<open>
  Live ROS parameters behind the operator's panel (\<open>runner_paddock/ros_state_node.py\<close>):
  the tuning transaction, which writes a validated snapshot to its four owners
  atomically per owner and believes nothing before a complete read-back.
  Replies of services are inputs of their own, in any order and any number;
  readiness, calls that do not start and the clock are readings of a step.
\<close>

section \<open>Tuning: state\<close>

definition TUNING_REQUEST_TIMEOUT_SEC :: pyfloat where "TUNING_REQUEST_TIMEOUT_SEC = Fin 2"

definition OWNERS :: "string list" where
  "OWNERS = [CONTROLLER_OWNER, ADAPTER_OWNER, NAVIGATOR_OWNER, PLANNER_OWNER]"

type_synonym tuning_values = "(string \<times> pyfloat) list"

record verification =
  ve_requested :: tuning_values
  ve_set_errors :: "string list"

datatype tuning_operation =
    Reading int "string list" tuning_values "string list" "verification option" pyfloat
  | Setting int "string list" tuning_values "string list" pyfloat

fun deadline_of :: "tuning_operation \<Rightarrow> pyfloat" where
  "deadline_of (Reading rid pending vs errors v deadline) = deadline"
| "deadline_of (Setting rid pending requested errors deadline) = deadline"

record tuning_state =
  ts_available :: bool
  ts_values :: tuning_values
  ts_status :: string
  ts_detail :: string
  ts_request_id :: int
  ts_unavailable_fields :: "string list option"

record tuning_node =
  lt_request_id :: int
  lt_operation :: "tuning_operation option"
  lt_state :: tuning_state

definition new_tuning :: tuning_node where
  "new_tuning = \<lparr> lt_request_id = 0, lt_operation = None,
     lt_state = \<lparr> ts_available = False, ts_values = [], ts_status = ''unavailable'',
       ts_detail = ''waiting for live ROS parameter read-back'', ts_request_id = 0, ts_unavailable_fields = None \<rparr> \<rparr>"

text \<open>What a step does besides: publish the state, or call a service of an owner for a request.\<close>

datatype tuning_effect =
    TE_publish tuning_state
  | TE_get string int "string list"
  | TE_set string int tuning_values

record tuning_io =
  ti_now :: pyfloat
  ti_get_ready :: "string \<Rightarrow> bool"
  ti_get_error :: "string \<Rightarrow> string option"
  ti_set_ready :: "string \<Rightarrow> bool"
  ti_set_error :: "string \<Rightarrow> string option"
  ti_walk :: "string list \<Rightarrow> string list"

section \<open>Tuning: reading back\<close>

datatype parameter_value = PV_double pyfloat | PV_other

definition fields_of :: "string \<Rightarrow> string list" where
  "fields_of owner = map fst (filter (\<lambda>(field, spec). tu_owner spec = owner) PARAMETERS)"

fun read_fields :: "string list \<Rightarrow> parameter_value list \<Rightarrow> tuning_values \<times> string list" where
  "read_fields [] vs = ([], [])"
| "read_fields (f # fs) [] = (let (r, errors) = read_fields fs [] in (r, (f @ '' is missing'') # errors))"
| "read_fields (f # fs) (PV_double x # vs) = (let (r, errors) = read_fields fs vs in ((f, x) # r, errors))"
| "read_fields (f # fs) (PV_other # vs) = (let (r, errors) = read_fields fs vs in (r, (f @ '' is missing or is not double'') # errors))"

definition double_parameters :: "parameter_value list \<Rightarrow> string \<Rightarrow> tuning_values \<times> string list" where
  "double_parameters vs owner =
     (let (r, errors) = read_fields (fields_of owner) vs
      in (r, errors @ (if length (fields_of owner) < length vs then [''get_parameters returned unexpected extra values''] else [])))"

text \<open>A reply is the exception of the call or the values; the result is what was observed and an error text.\<close>

definition read_reply :: "string \<Rightarrow> string + parameter_value list \<Rightarrow> tuning_values \<times> string" where
  "read_reply owner reply =
     (case reply of
        Inl e \<Rightarrow> ([], owner @ '' parameter read failed: '' @ e)
      | Inr vs \<Rightarrow>
          (let (observed, errors) = double_parameters vs owner
           in (observed, if errors \<noteq> [] then owner @ '' parameter read incomplete: '' @ join '', '' errors else [])))"

definition missing_fields :: "tuning_values \<Rightarrow> string list" where
  "missing_fields vs = sort (filter (\<lambda>f. f \<notin> set (map fst vs)) FIELDS)"

text \<open>\<open>values == verification['requested']\<close> of two dictionaries of floats.\<close>

definition same_values :: "tuning_values \<Rightarrow> tuning_values \<Rightarrow> bool" where
  "same_values a b \<longleftrightarrow> set (map fst a) = set (map fst b) \<and> list_all (\<lambda>f. feq (tval a f) (tval b f)) (map fst a)"

definition publish_tuning :: "tuning_node \<Rightarrow> tuning_effect list" where
  "publish_tuning n = [TE_publish (lt_state n)]"

text \<open>The state after the last owner has been read.\<close>

definition read_state :: "tuning_state \<Rightarrow> tuning_values \<Rightarrow> string list \<Rightarrow> verification option \<Rightarrow> tuning_state" where
  "read_state s vs errors v =
     (if errors \<noteq> []
      then s\<lparr>ts_available := False, ts_values := vs, ts_unavailable_fields := Some (missing_fields vs),
             ts_status := (if v \<noteq> None then ''failed'' else ''unavailable''),
             ts_detail := join ''; '' errors @ ''; unavailable fields: '' @ join '', '' (missing_fields vs)\<rparr>
      else (let matches = (case v of None \<Rightarrow> True | Some ve \<Rightarrow> same_values vs (ve_requested ve));
                set_errors = (case v of None \<Rightarrow> [] | Some ve \<Rightarrow> ve_set_errors ve);
                (status, detail) =
                  (if v = None
                   then (if ts_status s = ''failed'' then (''failed'', ts_detail s) else (''current'', ''live ROS parameter read-back''))
                   else if set_errors = [] \<and> matches then (''applied'', ''atomic owner writes confirmed by live read-back'')
                   else (''failed'', join ''; '' (set_errors @ (if matches then [] else [''live read-back differs from request'']))))
            in s\<lparr>ts_available := True, ts_values := vs, ts_unavailable_fields := Some [], ts_status := status, ts_detail := detail\<rparr>))"

definition finish_tuning_read :: "tuning_node \<Rightarrow> string \<Rightarrow> int \<Rightarrow> tuning_values \<Rightarrow> string \<Rightarrow> tuning_node \<times> tuning_effect list" where
  "finish_tuning_read n owner rid observed error =
     (case lt_operation n of
        Some (Reading r pending vs errors v deadline) \<Rightarrow>
          if r \<noteq> rid \<or> owner \<notin> set pending then (n, [])
          else (let pending' = removeAll owner pending; vs' = dict_merge vs observed;
                    errors' = errors @ (if truthy error then [error] else []) in
                if pending' \<noteq> [] then (n\<lparr>lt_operation := Some (Reading r pending' vs' errors' v deadline)\<rparr>, [])
                else (let n' = n\<lparr>lt_operation := None, lt_state := read_state (lt_state n) vs' errors' v\<rparr> in (n', publish_tuning n')))
      | _ \<Rightarrow> (n, []))"

fun start_reads :: "tuning_io \<Rightarrow> tuning_node \<Rightarrow> int \<Rightarrow> string list \<Rightarrow> tuning_node \<times> tuning_effect list" where
  "start_reads io n rid [] = (n, [])"
| "start_reads io n rid (owner # owners) =
     (let (n1, es1) =
            (if \<not> ti_get_ready io owner
             then finish_tuning_read n owner rid [] (owner @ '' parameter read service unavailable'')
             else (case ti_get_error io owner of
                     Some e \<Rightarrow> finish_tuning_read n owner rid [] (owner @ '' parameter read failed to start: '' @ e)
                   | None \<Rightarrow> (n, [TE_get owner rid
                       (map (\<lambda>(field, spec). tu_parameter_name spec) (filter (\<lambda>(field, spec). tu_owner spec = owner) PARAMETERS))])));
          (n2, es2) = start_reads io n1 rid owners
      in (n2, es1 @ es2))"

definition start_tuning_read :: "tuning_io \<Rightarrow> tuning_node \<Rightarrow> verification option \<Rightarrow> tuning_node \<times> tuning_effect list" where
  "start_tuning_read io n v =
     (if lt_operation n \<noteq> None then (n, [])
      else (let rid = lt_request_id n + 1
            in start_reads io (n\<lparr>lt_request_id := rid,
                 lt_operation := Some (Reading rid OWNERS [] [] v (fadd (ti_now io) TUNING_REQUEST_TIMEOUT_SEC))\<rparr>) rid OWNERS))"

text \<open>The periodic timer: an overdue operation is given up, then a read starts.\<close>

definition overdue_state :: "tuning_operation \<Rightarrow> tuning_state \<Rightarrow> tuning_state" where
  "overdue_state operation s =
     (case operation of
        Reading rid pending vs errors v deadline \<Rightarrow>
          s\<lparr>ts_status := ''failed'', ts_available := False, ts_values := vs, ts_unavailable_fields := Some (missing_fields vs),
            ts_detail := ''read timed out'' @ (if missing_fields vs \<noteq> [] then ''; unavailable fields: '' @ join '', '' (missing_fields vs) else [])\<rparr>
      | Setting rid pending requested errors deadline \<Rightarrow>
          s\<lparr>ts_status := ''failed'', ts_available := False, ts_values := [], ts_unavailable_fields := Some [],
            ts_detail := ''set timed out''\<rparr>)"

definition refresh_tuning_state :: "tuning_io \<Rightarrow> tuning_node \<Rightarrow> tuning_node \<times> tuning_effect list" where
  "refresh_tuning_state io n =
     (let n1 = (case lt_operation n of
                  None \<Rightarrow> n
                | Some operation \<Rightarrow>
                    if flt (ti_now io) (deadline_of operation) then n
                    else n\<lparr>lt_operation := None, lt_state := overdue_state operation (lt_state n)\<rparr>);
          shown = (if lt_operation n1 = None then publish_tuning n1 else []);
          (n2, es) = start_tuning_read io n1 None
      in (n2, shown @ es))"

section \<open>Tuning: writing\<close>

definition preflight_failure :: "tuning_node \<Rightarrow> string \<Rightarrow> tuning_node \<times> tuning_effect list" where
  "preflight_failure n detail =
     (if lt_operation n \<noteq> None then (n, [])
      else (let n' = n\<lparr>lt_state := (lt_state n)\<lparr>ts_status := ''failed'', ts_detail := detail\<rparr>\<rparr> in (n', publish_tuning n')))"

definition finish_tuning_set :: "tuning_io \<Rightarrow> tuning_node \<Rightarrow> string \<Rightarrow> int \<Rightarrow> string \<Rightarrow> tuning_node \<times> tuning_effect list" where
  "finish_tuning_set io n owner rid error =
     (case lt_operation n of
        Some (Setting r pending requested errors deadline) \<Rightarrow>
          if r \<noteq> rid \<or> owner \<notin> set pending then (n, [])
          else (let pending' = removeAll owner pending; errors' = errors @ (if truthy error then [error] else []) in
                if pending' \<noteq> [] then (n\<lparr>lt_operation := Some (Setting r pending' requested errors' deadline)\<rparr>, [])
                else start_tuning_read io (n\<lparr>lt_operation := None\<rparr>)
                       (Some \<lparr> ve_requested = requested, ve_set_errors = errors' \<rparr>))
      | _ \<Rightarrow> (n, []))"

text \<open>A reply of an atomic write: the exception of the call, or whether it succeeded and why not.\<close>

definition set_reply :: "string \<Rightarrow> string + bool \<times> string \<Rightarrow> string" where
  "set_reply owner reply =
     (case reply of
        Inl e \<Rightarrow> owner @ '' atomic write failed: '' @ e
      | Inr (successful, reason) \<Rightarrow>
          if successful then [] else if truthy reason then reason else owner @ '' rejected atomic write'')"

fun start_sets :: "tuning_io \<Rightarrow> tuning_node \<Rightarrow> int \<Rightarrow> tuning_values \<Rightarrow> string list \<Rightarrow> tuning_node \<times> tuning_effect list" where
  "start_sets io n rid requested [] = (n, [])"
| "start_sets io n rid requested (owner # owners) =
     (let (n1, es1) =
            (case ti_set_error io owner of
               Some e \<Rightarrow> finish_tuning_set io n owner rid (owner @ '' atomic write failed to start: '' @ e)
             | None \<Rightarrow> (n, [TE_set owner rid (values_for_owner requested owner)]));
          (n2, es2) = start_sets io n1 rid requested owners
      in (n2, es1 @ es2))"

definition error_text :: "py_error \<Rightarrow> string" where
  "error_text e = (case e of ValueError t \<Rightarrow> t | TypeError t \<Rightarrow> t | KeyError t \<Rightarrow> t | _ \<Rightarrow> [])"

text \<open>The answer is whether the request was taken and why; \<open>Inl\<close> is an exception that leaves the handler.\<close>

definition request_autonomy_tuning ::
  "tuning_io \<Rightarrow> tuning_node \<Rightarrow> (string \<times> tuning_value) list \<Rightarrow> (tuning_node \<times> tuning_effect list \<times> bool \<times> string) result" where
  "request_autonomy_tuning io n vs =
     (case validate_values (ti_walk io) vs of
        Inl e \<Rightarrow>
          (case e of OverflowError \<Rightarrow> Inl e
           | _ \<Rightarrow> (let (n', es) = preflight_failure n (''tuning rejected before RPC: '' @ error_text e) in Inr (n', es, False, error_text e)))
      | Inr requested \<Rightarrow>
          (let unavailable = filter (\<lambda>owner. \<not> ti_set_ready io owner) (ti_walk io OWNERS) in
           if unavailable \<noteq> []
           then (let detail = ''atomic parameter service unavailable: '' @ join '', '' unavailable; (n', es) = preflight_failure n detail
                 in Inr (n', es, False, detail))
           else if (case lt_operation n of Some (Setting rid pending r errors deadline) \<Rightarrow> True | _ \<Rightarrow> False)
           then Inr (n, [], False, ''autonomy tuning operation already in progress'')
           else (let rid = lt_request_id n + 1;
                     n1 = n\<lparr>lt_request_id := rid,
                            lt_operation := Some (Setting rid OWNERS requested [] (fadd (ti_now io) TUNING_REQUEST_TIMEOUT_SEC)),
                            lt_state := (lt_state n)\<lparr>ts_status := ''applying'', ts_detail := ''applying tuning atomically'', ts_request_id := rid,
                              ts_values := requested, ts_available := True, ts_unavailable_fields := Some []\<rparr>\<rparr>;
                     (n2, es) = start_sets io n1 rid requested OWNERS
                 in Inr (n2, publish_tuning n1 @ es, True, ''tuning accepted; awaiting read-back''))))"

section \<open>Tuning: steps and histories\<close>

datatype tuning_input =
    TI_timer tuning_io
  | TI_request tuning_io "(string \<times> tuning_value) list"
  | TI_read string int "string + parameter_value list"
  | TI_set tuning_io string int "string + bool \<times> string"

fun tuning_turn :: "tuning_node \<Rightarrow> tuning_input \<Rightarrow> tuning_node \<times> tuning_effect list" where
  "tuning_turn n (TI_timer io) = refresh_tuning_state io n"
| "tuning_turn n (TI_request io vs) =
     (case request_autonomy_tuning io n vs of Inl e \<Rightarrow> (n, []) | Inr (n', es, taken, reason) \<Rightarrow> (n', es))"
| "tuning_turn n (TI_read owner rid reply) = (let (observed, error) = read_reply owner reply in finish_tuning_read n owner rid observed error)"
| "tuning_turn n (TI_set io owner rid reply) = finish_tuning_set io n owner rid (set_reply owner reply)"

text \<open>The history: every effect, and every acknowledgement of a write.\<close>

datatype tuning_log = TL_effect tuning_effect | TL_acknowledged string int

fun acknowledgement :: "tuning_input \<Rightarrow> tuning_log list" where
  "acknowledgement (TI_set io owner rid (Inr (True, reason))) = [TL_acknowledged owner rid]"
| "acknowledgement _ = []"

definition tuning_step :: "tuning_node \<times> tuning_log list \<Rightarrow> tuning_input \<Rightarrow> tuning_node \<times> tuning_log list" where
  "tuning_step s i = (let (n', es) = tuning_turn (fst s) i in (n', snd s @ acknowledgement i @ map TL_effect es))"

definition tuning_initial :: "tuning_node \<times> tuning_log list \<Rightarrow> bool" where
  "tuning_initial s \<longleftrightarrow> s = (new_tuning, [])"

text \<open>All owners were sent their part of the snapshot under one request and acknowledged it.\<close>

definition sent :: "tuning_log list \<Rightarrow> int \<Rightarrow> tuning_values \<Rightarrow> string \<Rightarrow> bool" where
  "sent h rid requested owner \<longleftrightarrow> TL_effect (TE_set owner rid (values_for_owner requested owner)) \<in> set h"

definition acknowledged :: "tuning_log list \<Rightarrow> int \<Rightarrow> string \<Rightarrow> bool" where
  "acknowledged h rid owner \<longleftrightarrow> TL_acknowledged owner rid \<in> set h"

definition written :: "tuning_log list \<Rightarrow> int \<Rightarrow> tuning_values \<Rightarrow> bool" where
  "written h rid requested \<longleftrightarrow> (\<exists>walk vs. validate_values walk vs = Inr requested)
     \<and> (\<forall>owner \<in> set OWNERS. sent h rid requested owner \<and> acknowledged h rid owner)"

text \<open>What a pending operation has done.\<close>

fun operation_ok :: "tuning_log list \<Rightarrow> int \<Rightarrow> tuning_operation \<Rightarrow> bool" where
  "operation_ok h latest (Setting rid pending requested errors deadline) \<longleftrightarrow>
     rid \<le> latest \<and> pending \<noteq> [] \<and> (\<exists>walk vs. validate_values walk vs = Inr requested)
     \<and> (errors = [] \<longrightarrow> (\<forall>owner \<in> set OWNERS. sent h rid requested owner \<and> (owner \<in> set pending \<or> acknowledged h rid owner)))"
| "operation_ok h latest (Reading rid pending vs errors v deadline) \<longleftrightarrow>
     rid \<le> latest \<and> (case v of None \<Rightarrow> True | Some ve \<Rightarrow> ve_set_errors ve = [] \<longrightarrow> (\<exists>r < rid. written h r (ve_requested ve)))"

definition tune_inv :: "tuning_node \<times> tuning_log list \<Rightarrow> bool" where
  "tune_inv s \<longleftrightarrow> (\<forall>operation. lt_operation (fst s) = Some operation \<longrightarrow> operation_ok (snd s) (lt_request_id (fst s)) operation)"

lemma written_mono: "written h rid requested \<Longrightarrow> written (h @ k) rid requested"
  by (auto simp: written_def sent_def acknowledged_def)

lemma operation_ok_mono: "operation_ok h latest operation \<Longrightarrow> operation_ok (h @ k) latest operation"
  by (cases operation) (auto simp: sent_def acknowledged_def split: option.splits intro: written_mono)

lemma tune_inv_mono: "tune_inv (n, h) \<Longrightarrow> tune_inv (n, h @ k)"
  by (simp add: tune_inv_def operation_ok_mono)

lemma tune_inv_state [simp]: "tune_inv (n\<lparr>lt_state := st\<rparr>, h) = tune_inv (n, h)"
  by (simp add: tune_inv_def)

text \<open>Reading goes on or ends, and keeps what it verifies.\<close>

fun reading_key :: "tuning_operation option \<Rightarrow> (int \<times> verification option \<times> pyfloat) option" where
  "reading_key (Some (Reading rid pending vs errors v deadline)) = Some (rid, v, deadline)"
| "reading_key _ = None"

definition reads_on :: "tuning_node \<Rightarrow> tuning_node \<Rightarrow> bool" where
  "reads_on n n' \<longleftrightarrow> lt_request_id n' = lt_request_id n \<and>
     (lt_operation n' = lt_operation n \<or> lt_operation n' = None
      \<or> (reading_key (lt_operation n) \<noteq> None \<and> reading_key (lt_operation n') = reading_key (lt_operation n)))"

lemma reading_keyE:
  assumes "reading_key x = Some (rid, v, deadline)"
  obtains pending vs errors where "x = Some (Reading rid pending vs errors v deadline)"
  using assms by (cases x rule: reading_key.cases) auto

lemma reads_on_refl [simp]: "reads_on n n"
  by (simp add: reads_on_def)

lemma reads_on_trans: "reads_on a b \<Longrightarrow> reads_on b c \<Longrightarrow> reads_on a c"
  unfolding reads_on_def by (metis reading_key.simps(2))

lemma reads_on_inv:
  assumes on: "reads_on n n'" and inv: "tune_inv (n, h)"
  shows "tune_inv (n', h)"
proof -
  have id: "lt_request_id n' = lt_request_id n" using on by (simp add: reads_on_def)
  consider "lt_operation n' = lt_operation n" | "lt_operation n' = None"
    | rid v deadline where "reading_key (lt_operation n) = Some (rid, v, deadline)" "reading_key (lt_operation n') = Some (rid, v, deadline)"
    using on unfolding reads_on_def by (metis option.exhaust prod_cases3)
  then show ?thesis
  proof cases
    case 3
    obtain p vs e where a: "lt_operation n = Some (Reading rid p vs e v deadline)" by (rule reading_keyE [OF 3(1)])
    obtain p' vs' e' where b: "lt_operation n' = Some (Reading rid p' vs' e' v deadline)" by (rule reading_keyE [OF 3(2)])
    show ?thesis using inv by (simp add: tune_inv_def a b id)
  qed (use inv id in \<open>simp_all add: tune_inv_def\<close>)
qed

lemma finish_read_reads_on: "reads_on n (fst (finish_tuning_read n owner rid observed error))"
  by (auto simp: finish_tuning_read_def reads_on_def Let_def split: option.split tuning_operation.split)

lemma start_reads_on: "reads_on n (fst (start_reads io n rid owners))"
proof (induction owners arbitrary: n)
  case (Cons owner owners)
  have "reads_on n (fst (start_reads io (fst (finish_tuning_read n owner rid observed error)) rid owners))" for observed error
    by (rule reads_on_trans [OF finish_read_reads_on Cons])
  then show ?case using Cons [of n] by (auto simp: case_prod_unfold Let_def split: option.split)
qed simp

lemma start_tuning_read_inv:
  assumes "tune_inv (n, h)" "\<And>ve. v = Some ve \<Longrightarrow> ve_set_errors ve = [] \<Longrightarrow> \<exists>r \<le> lt_request_id n. written h r (ve_requested ve)"
  shows "tune_inv (fst (start_tuning_read io n v), h)"
proof (cases "lt_operation n")
  case None
  have "tune_inv (n\<lparr>lt_request_id := lt_request_id n + 1,
      lt_operation := Some (Reading (lt_request_id n + 1) OWNERS [] [] v (fadd (ti_now io) TUNING_REQUEST_TIMEOUT_SEC))\<rparr>, h)"
    using assms(2) by (fastforce simp: tune_inv_def split: option.split)
  then show ?thesis using None reads_on_inv [OF start_reads_on] by (simp add: start_tuning_read_def Let_def)
qed (use assms(1) in \<open>simp add: start_tuning_read_def\<close>)

lemma finish_set_inv:
  assumes inv: "tune_inv (n, h)" and ok: "error = [] \<Longrightarrow> acknowledged h rid owner"
  shows "tune_inv (fst (finish_tuning_set io n owner rid error), h)"
proof -
  have "tune_inv (fst (start_tuning_read io (n\<lparr>lt_operation := None\<rparr>) (Some \<lparr> ve_requested = requested, ve_set_errors = errors @ (if truthy error then [error] else []) \<rparr>)), h)"
    if "lt_operation n = Some (Setting rid pending requested errors deadline)" "removeAll owner pending = []" for pending requested errors deadline
  proof (rule start_tuning_read_inv)
    fix ve
    assume ve: "Some \<lparr> ve_requested = requested, ve_set_errors = errors @ (if truthy error then [error] else []) \<rparr> = Some ve" "ve_set_errors ve = []"
    have o: "operation_ok h (lt_request_id n) (Setting rid pending requested errors deadline)" using inv that(1) by (simp add: tune_inv_def)
    have e: "errors = []" "error = []" using ve by (auto simp: truthy_iff split: if_split_asm)
    have "set pending \<subseteq> {owner}" using arg_cong [OF that(2), of set] by auto
    then have "written h rid requested" using o e ok by (auto simp: written_def)
    then show "\<exists>r \<le> lt_request_id (n\<lparr>lt_operation := None\<rparr>). written h r (ve_requested ve)" using o ve(1) by auto
  qed (simp add: tune_inv_def)
  moreover have "tune_inv (n\<lparr>lt_operation := Some (Setting rid (removeAll owner pending) requested (errors @ (if truthy error then [error] else [])) deadline)\<rparr>, h)"
    if "lt_operation n = Some (Setting rid pending requested errors deadline)" "removeAll owner pending \<noteq> []" for pending requested errors deadline
  proof -
    have "operation_ok h (lt_request_id n) (Setting rid pending requested errors deadline)" using inv that(1) by (simp add: tune_inv_def)
    then show ?thesis using that(2) ok by (auto simp: tune_inv_def truthy_iff)
  qed
  ultimately show ?thesis using inv by (auto simp: finish_tuning_set_def Let_def split: option.split tuning_operation.split)
qed

lemma written_after: "tune_inv (n, h) \<Longrightarrow> lt_operation n = None \<Longrightarrow> tune_inv (fst (start_tuning_read io n None), h)"
  by (rule start_tuning_read_inv) simp_all

text \<open>Starting the writes: without an error every owner was called and all are waited for.\<close>

definition no_longer_sets :: "tuning_node \<Rightarrow> bool" where
  "no_longer_sets n \<longleftrightarrow> (case lt_operation n of
      None \<Rightarrow> True
    | Some (Reading rid pending vs errors (Some ve) deadline) \<Rightarrow> rid \<le> lt_request_id n \<and> ve_set_errors ve \<noteq> []
    | _ \<Rightarrow> False)"

lemma no_longer_sets_reads: "reads_on n n' \<Longrightarrow> no_longer_sets n \<Longrightarrow> no_longer_sets n'"
proof -
  assume a: "reads_on n n'" "no_longer_sets n"
  then have id: "lt_request_id n' = lt_request_id n" by (simp add: reads_on_def)
  consider "lt_operation n' = lt_operation n" | "lt_operation n' = None"
    | rid v deadline where "reading_key (lt_operation n) = Some (rid, v, deadline)" "reading_key (lt_operation n') = Some (rid, v, deadline)"
    using a(1) unfolding reads_on_def by (metis option.exhaust prod_cases3)
  then show ?thesis
  proof cases
    case 3
    obtain p vs e where x: "lt_operation n = Some (Reading rid p vs e v deadline)" by (rule reading_keyE [OF 3(1)])
    obtain p' vs' e' where y: "lt_operation n' = Some (Reading rid p' vs' e' v deadline)" by (rule reading_keyE [OF 3(2)])
    show ?thesis using a(2) by (simp add: no_longer_sets_def x y id split: option.splits)
  qed (use a(2) id in \<open>auto simp: no_longer_sets_def split: option.splits tuning_operation.splits\<close>)
qed

lemma no_longer_sets_inv: "no_longer_sets n \<Longrightarrow> tune_inv (n, h)"
  by (auto simp: no_longer_sets_def tune_inv_def split: option.split_asm tuning_operation.split_asm option.split)

lemma no_longer_sets_start: "no_longer_sets n \<Longrightarrow> no_longer_sets (fst (start_sets io n rid requested owners))"
proof (induction owners arbitrary: n)
  case (Cons owner owners)
  have "finish_tuning_set io n owner rid error = (n, [])" for error
    using Cons.prems by (auto simp: finish_tuning_set_def no_longer_sets_def split: option.split tuning_operation.split)
  then show ?case using Cons by (simp add: case_prod_unfold Let_def split: option.split)
qed simp

lemma last_error_reads:
  assumes "lt_operation n = Some (Setting rid pending requested errors deadline)" "owner \<in> set pending" "removeAll owner pending = []"
    and "error \<noteq> []"
  shows "no_longer_sets (fst (finish_tuning_set io n owner rid error))"
proof -
  let ?v = "Some \<lparr> ve_requested = requested, ve_set_errors = errors @ [error] \<rparr>"
  let ?m = "n\<lparr>lt_request_id := lt_request_id n + 1,
              lt_operation := Some (Reading (lt_request_id n + 1) OWNERS [] [] ?v (fadd (ti_now io) TUNING_REQUEST_TIMEOUT_SEC))\<rparr>"
  have "no_longer_sets (fst (start_reads io ?m (lt_request_id n + 1) OWNERS))"
    by (rule no_longer_sets_reads [OF start_reads_on]) (simp add: no_longer_sets_def)
  then show ?thesis using assms by (simp add: finish_tuning_set_def start_tuning_read_def truthy_iff Let_def)
qed

lemma start_sets_result:
  assumes "lt_operation n = Some (Setting rid pending requested errors deadline)" "pending \<noteq> []" "distinct owners" "set owners \<subseteq> set pending"
  shows "no_longer_sets (fst (start_sets io n rid requested owners))
    \<or> (\<exists>pending' errors'. lt_operation (fst (start_sets io n rid requested owners)) = Some (Setting rid pending' requested errors' deadline)
         \<and> lt_request_id (fst (start_sets io n rid requested owners)) = lt_request_id n \<and> pending' \<noteq> []
         \<and> (errors' = [] \<longrightarrow> pending' = pending
              \<and> snd (start_sets io n rid requested owners) = map (\<lambda>owner. TE_set owner rid (values_for_owner requested owner)) owners)
         \<and> (errors \<noteq> [] \<longrightarrow> errors' \<noteq> []))"
  using assms
proof (induction owners arbitrary: n pending errors)
  case (Cons owner owners)
  show ?case
  proof (cases "ti_set_error io owner")
    case None
    have "set owners \<subseteq> set pending" "distinct owners" using Cons.prems by simp_all
    then show ?thesis using Cons.IH [OF Cons.prems(1,2)] None by (auto simp: case_prod_unfold Let_def)
  next
    case (Some e)
    let ?error = "owner @ '' atomic write failed to start: '' @ e"
    let ?n = "fst (finish_tuning_set io n owner rid ?error)"
    have step: "fst (start_sets io n rid requested (owner # owners)) = fst (start_sets io ?n rid requested owners)"
      using Some by (simp add: case_prod_unfold Let_def)
    show ?thesis
    proof (cases "removeAll owner pending = []")
      case True
      then have "no_longer_sets ?n" using Cons.prems by (intro last_error_reads [OF Cons.prems(1)]) simp_all
      then show ?thesis unfolding step by (intro disjI1 no_longer_sets_start)
    next
      case False
      have n: "lt_operation ?n = Some (Setting rid (removeAll owner pending) requested (errors @ [?error]) deadline)"
          "lt_request_id ?n = lt_request_id n"
        using Cons.prems False by (simp_all add: finish_tuning_set_def truthy_iff Let_def)
      have "set owners \<subseteq> set (removeAll owner pending)" "distinct owners" using Cons.prems by auto
      then show ?thesis using Cons.IH [OF n(1) False] n(2) unfolding step by auto
    qed
  qed
qed simp

lemma preflight_inv: "tune_inv (n, h) \<Longrightarrow> tune_inv (fst (preflight_failure n t), h)"
  by (simp add: preflight_failure_def Let_def)

lemma tuning_request_inv:
  assumes inv: "tune_inv (n, h)" and "request_autonomy_tuning io n vs = Inr (n', es, taken, reason)"
  shows "tune_inv (n', h @ map TL_effect es)"
proof (cases "validate_values (ti_walk io) vs")
  case (Inl e)
  obtain t where "n' = fst (preflight_failure n t)"
    using assms(2) Inl by (cases e) (auto simp: request_autonomy_tuning_def Let_def case_prod_unfold)
  then show ?thesis using preflight_inv [OF inv] tune_inv_mono by simp
next
  case (Inr requested)
  let ?rid = "lt_request_id n + 1"
  show ?thesis
  proof (cases "filter (\<lambda>owner. \<not> ti_set_ready io owner) (ti_walk io OWNERS) \<noteq> []
      \<or> (case lt_operation n of Some (Setting rid pending r errors deadline) \<Rightarrow> True | _ \<Rightarrow> False)")
    case True
    then have "n' = n \<or> (\<exists>t. n' = fst (preflight_failure n t))"
      using assms(2) Inr by (auto simp: request_autonomy_tuning_def Let_def case_prod_unfold split: if_split_asm)
    then show ?thesis using inv preflight_inv [OF inv] tune_inv_mono by auto
  next
    case False
    define n1 where "n1 = n\<lparr>lt_request_id := ?rid,
        lt_operation := Some (Setting ?rid OWNERS requested [] (fadd (ti_now io) TUNING_REQUEST_TIMEOUT_SEC)),
        lt_state := (lt_state n)\<lparr>ts_status := ''applying'', ts_detail := ''applying tuning atomically'', ts_request_id := ?rid,
          ts_values := requested, ts_available := True, ts_unavailable_fields := Some []\<rparr>\<rparr>"
    define r where "r = start_sets io n1 ?rid requested OWNERS"
    have n': "n' = fst r" "es = publish_tuning n1 @ snd r"
      using assms(2) Inr False by (auto simp: request_autonomy_tuning_def Let_def n1_def r_def case_prod_unfold)
    have "distinct OWNERS" "OWNERS \<noteq> []"
      by (simp_all add: OWNERS_def CONTROLLER_OWNER_def ADAPTER_OWNER_def NAVIGATOR_OWNER_def PLANNER_OWNER_def)
    then have "no_longer_sets (fst r) \<or> (\<exists>pending' errors'. lt_operation (fst r) = Some (Setting ?rid pending' requested errors'
          (fadd (ti_now io) TUNING_REQUEST_TIMEOUT_SEC)) \<and> lt_request_id (fst r) = ?rid \<and> pending' \<noteq> []
          \<and> (errors' = [] \<longrightarrow> pending' = OWNERS \<and> snd r = map (\<lambda>owner. TE_set owner ?rid (values_for_owner requested owner)) OWNERS))"
      using start_sets_result [of n1 ?rid OWNERS requested "[]" _ OWNERS io] unfolding r_def by (auto simp: n1_def)
    then show ?thesis
    proof (elim disjE exE conjE)
      assume "no_longer_sets (fst r)"
      then show ?thesis unfolding n' by (rule no_longer_sets_inv)
    next
      fix pending' errors'
      assume a: "lt_operation (fst r) = Some (Setting ?rid pending' requested errors' (fadd (ti_now io) TUNING_REQUEST_TIMEOUT_SEC))"
        "lt_request_id (fst r) = ?rid" "pending' \<noteq> []"
        "errors' = [] \<longrightarrow> pending' = OWNERS \<and> snd r = map (\<lambda>owner. TE_set owner ?rid (values_for_owner requested owner)) OWNERS"
      have "sent (h @ map TL_effect es) ?rid requested owner" if "errors' = []" "owner \<in> set OWNERS" for owner
        using a(4) that by (auto simp: sent_def n')
      then show ?thesis using a Inr unfolding n'(1) by (auto simp: tune_inv_def)
    qed
  qed
qed

lemma tuning_turn_inv: "tune_inv s \<Longrightarrow> tune_inv (tuning_step s i)"
proof -
  assume inv: "tune_inv s"
  obtain n h where s: "s = (n, h)" by fastforce
  have eff: "tune_inv (m, h) \<Longrightarrow> tune_inv (m, h @ map TL_effect es)" for m es by (rule tune_inv_mono)
  show ?thesis
  proof (cases i)
    case (TI_timer io)
    let ?n1 = "case lt_operation n of None \<Rightarrow> n | Some operation \<Rightarrow>
        if flt (ti_now io) (deadline_of operation) then n
        else n\<lparr>lt_operation := None, lt_state := overdue_state operation (lt_state n)\<rparr>"
    have "tune_inv (?n1, h)" using inv by (auto simp: s tune_inv_def split: option.split)
    then have "tune_inv (fst (start_tuning_read io ?n1 None), h)" by (rule start_tuning_read_inv) simp
    moreover have "fst (tuning_turn n i) = fst (start_tuning_read io ?n1 None)"
      by (simp add: TI_timer refresh_tuning_state_def Let_def case_prod_unfold)
    ultimately have "tune_inv (fst (tuning_turn n i), h)" by (simp only:)
    then show ?thesis using TI_timer eff [of "fst (tuning_turn n i)" "snd (tuning_turn n i)"]
      by (simp add: s tuning_step_def case_prod_unfold Let_def del: tuning_turn.simps)
  next
    case (TI_request io vs)
    then show ?thesis using inv tuning_request_inv [of n h io vs]
      by (auto simp: s tuning_step_def split: sum.split prod.split)
  next
    case (TI_read owner rid reply)
    then show ?thesis using inv reads_on_inv [OF finish_read_reads_on] eff
      by (simp add: s tuning_step_def case_prod_unfold Let_def)
  next
    case (TI_set io owner rid reply)
    have a: "acknowledged (h @ acknowledgement i) rid owner" if "set_reply owner reply = []"
      using that TI_set by (auto simp: set_reply_def acknowledged_def truthy_iff split: sum.split_asm prod.split_asm if_split_asm)
    have "tune_inv (fst (finish_tuning_set io n owner rid (set_reply owner reply)), h @ acknowledgement i)"
      using inv a by (intro finish_set_inv tune_inv_mono) (simp_all add: s)
    then show ?thesis using TI_set tune_inv_mono [of _ "h @ acknowledgement i"] by (simp add: s tuning_step_def case_prod_unfold Let_def)
  qed
qed

interpretation tuning: machine tuning_initial tuning_step tune_inv
proof unfold_locales
  show "tuning_initial s \<Longrightarrow> tune_inv s" for s by (simp add: tuning_initial_def new_tuning_def tune_inv_def)
qed (rule tuning_turn_inv)

section \<open>Tuning: what applied means\<close>

definition quiet :: "tuning_node \<Rightarrow> tuning_node \<Rightarrow> bool" where
  "quiet n n' \<longleftrightarrow> (ts_status (lt_state n') = ''applied'' \<longrightarrow> ts_status (lt_state n) = ''applied'')"

lemma tuning_quiet_refl [simp]: "quiet n n"
  by (simp add: quiet_def)

lemma tuning_quiet_trans: "quiet a b \<Longrightarrow> quiet b c \<Longrightarrow> quiet a c"
  by (simp add: quiet_def)

lemma quiet_frame [simp]:
  "quiet (n\<lparr>lt_operation := x\<rparr>) m = quiet n m" "quiet (n\<lparr>lt_request_id := r\<rparr>) m = quiet n m"
  "quiet n (m\<lparr>lt_operation := x\<rparr>) = quiet n m" "quiet n (m\<lparr>lt_request_id := r\<rparr>) = quiet n m"
  by (simp_all add: quiet_def)

lemma read_state_applied:
  assumes "ts_status (read_state s vs errors v) = ''applied''"
  shows "errors = [] \<and> (\<exists>ve. v = Some ve \<and> ve_set_errors ve = [] \<and> same_values vs (ve_requested ve))"
  using assms by (cases v) (auto simp: read_state_def Let_def split: if_split_asm)

lemma read_confirms:
  assumes "\<not> quiet n (fst (finish_tuning_read n owner rid observed error))"
  obtains pending vs ve deadline where "lt_operation n = Some (Reading rid pending vs [] (Some ve) deadline)" "owner \<in> set pending"
    "removeAll owner pending = []" "error = []" "ve_set_errors ve = []"
    "lt_state (fst (finish_tuning_read n owner rid observed error)) = read_state (lt_state n) (dict_merge vs observed) [] (Some ve)"
    "same_values (dict_merge vs observed) (ve_requested ve)"
proof -
  obtain r pending vs errors v deadline where o: "lt_operation n = Some (Reading r pending vs errors v deadline)" "r = rid"
      "owner \<in> set pending" "removeAll owner pending = []"
      "ts_status (read_state (lt_state n) (dict_merge vs observed) (errors @ (if truthy error then [error] else [])) v) = ''applied''"
    using assms by (auto simp: finish_tuning_read_def quiet_def Let_def split: option.split_asm tuning_operation.split_asm if_split_asm)
  from read_state_applied [OF o(5)] have e: "errors = []" "error = []" by (auto simp: truthy_iff split: if_split_asm)
  from read_state_applied [OF o(5)] obtain ve where "v = Some ve" "ve_set_errors ve = []" "same_values (dict_merge vs observed) (ve_requested ve)"
    by blast
  with o e show ?thesis using that by (auto simp: finish_tuning_read_def truthy_iff Let_def)
qed

lemma failed_read_quiet: "error \<noteq> [] \<Longrightarrow> quiet n (fst (finish_tuning_read n owner rid observed error))"
  by (rule ccontr) (auto elim: read_confirms)

lemma start_reads_quiet: "quiet n (fst (start_reads io n rid owners))"
proof (induction owners arbitrary: n)
  case (Cons owner owners)
  have "quiet n (fst (start_reads io (fst (finish_tuning_read n owner rid [] error)) rid owners))" if "error \<noteq> []" for error
    by (rule tuning_quiet_trans [OF failed_read_quiet [OF that] Cons])
  then show ?case using Cons [of n] by (simp add: case_prod_unfold Let_def split: option.split)
qed simp

lemma start_tuning_read_quiet: "quiet n (fst (start_tuning_read io n v))"
  using start_reads_quiet [of "n\<lparr>lt_request_id := r, lt_operation := x\<rparr>" io rid OWNERS for r x rid]
  by (simp add: start_tuning_read_def Let_def)

lemma finish_set_quiet: "quiet n (fst (finish_tuning_set io n owner rid error))"
  using start_tuning_read_quiet [of "n\<lparr>lt_operation := None\<rparr>"]
  by (simp add: finish_tuning_set_def Let_def split: option.split tuning_operation.split)

lemma start_sets_quiet: "quiet n (fst (start_sets io n rid requested owners))"
proof (induction owners arbitrary: n)
  case (Cons owner owners)
  have "quiet n (fst (start_sets io (fst (finish_tuning_set io n owner rid error)) rid requested owners))" for error
    by (rule tuning_quiet_trans [OF finish_set_quiet Cons])
  then show ?case using Cons [of n] by (simp add: case_prod_unfold Let_def split: option.split)
qed simp

lemma refresh_quiet: "quiet n (fst (refresh_tuning_state io n))"
proof -
  let ?n1 = "case lt_operation n of None \<Rightarrow> n | Some operation \<Rightarrow>
      if flt (ti_now io) (deadline_of operation) then n
      else n\<lparr>lt_operation := None, lt_state := overdue_state operation (lt_state n)\<rparr>"
  have "quiet n ?n1" by (auto simp: quiet_def overdue_state_def split: option.split tuning_operation.split)
  then have "quiet n (fst (start_tuning_read io ?n1 None))" using tuning_quiet_trans start_tuning_read_quiet by blast
  then show ?thesis by (simp add: refresh_tuning_state_def Let_def case_prod_unfold)
qed

lemma request_quiet:
  assumes "request_autonomy_tuning io n vs = Inr (n', es, taken, reason)"
  shows "quiet n n'"
proof -
  have p: "quiet n (fst (preflight_failure n t))" for t by (simp add: preflight_failure_def quiet_def Let_def)
  have s: "quiet n (fst (start_sets io (n\<lparr>lt_request_id := r, lt_operation := x, lt_state := st\<rparr>) rid requested OWNERS))"
    if "ts_status st = ''applying''" for r x st rid requested
    by (rule tuning_quiet_trans [OF _ start_sets_quiet]) (simp add: quiet_def that)
  show ?thesis
  proof (cases "validate_values (ti_walk io) vs")
    case (Inl e)
    obtain t where "n' = fst (preflight_failure n t)"
      using assms Inl by (cases e) (auto simp: request_autonomy_tuning_def Let_def case_prod_unfold)
    then show ?thesis using p by simp
  next
    case (Inr requested)
    then show ?thesis using assms p s
      by (auto simp: request_autonomy_tuning_def Let_def case_prod_unfold split: if_split_asm)
  qed
qed

section \<open>Tuning: a concrete run\<close>

definition demo_tuning_io :: tuning_io where
  "demo_tuning_io = \<lparr> ti_now = Fin 1, ti_get_ready = (\<lambda>_. True), ti_get_error = (\<lambda>_. None), ti_set_ready = (\<lambda>_. True),
     ti_set_error = (\<lambda>_. None), ti_walk = (\<lambda>fs. fs) \<rparr>"

definition demo_reply :: "string \<Rightarrow> string + parameter_value list" where
  "demo_reply owner = Inr (map (\<lambda>f. PV_double (demo_value f)) (fields_of owner))"

definition demo_part :: "string \<Rightarrow> tuning_values" where
  "demo_part owner = map (\<lambda>f. (f, demo_value f)) (fields_of owner)"

lemma demo_reply_read: "read_reply owner (demo_reply owner) = (demo_part owner, [])"
proof -
  have "read_fields fs (map (\<lambda>f. PV_double (demo_value f)) fs) = (map (\<lambda>f. (f, demo_value f)) fs, [])" for fs
    by (induction fs) simp_all
  then show ?thesis by (simp add: read_reply_def demo_reply_def demo_part_def double_parameters_def)
qed

definition demo_tuning_inputs :: "tuning_input list" where
  "demo_tuning_inputs =
     TI_request demo_tuning_io demo_snapshot # map (\<lambda>owner. TI_set demo_tuning_io owner 1 (Inr (True, []))) OWNERS
       @ map (\<lambda>owner. TI_read owner 2 (demo_reply owner)) [CONTROLLER_OWNER, ADAPTER_OWNER, NAVIGATOR_OWNER]"

definition demo_tuning_run :: "tuning_node \<times> tuning_log list" where
  "demo_tuning_run = run_steps tuning_step (new_tuning, []) demo_tuning_inputs"

definition demo_read_back :: tuning_values where
  "demo_read_back = dict_merge (dict_merge (dict_merge (dict_merge [] (demo_part CONTROLLER_OWNER)) (demo_part ADAPTER_OWNER))
     (demo_part NAVIGATOR_OWNER)) (demo_part PLANNER_OWNER)"

lemma demo_starts [simp]:
  "fst (start_sets demo_tuning_io n rid requested owners) = n" "fst (start_reads demo_tuning_io n rid owners) = n"
  by (induction owners) (simp_all add: demo_tuning_io_def case_prod_unfold Let_def)

lemma run_turns: "fst (run_steps tuning_step s is) = run_steps (\<lambda>n i. fst (tuning_turn n i)) (fst s) is"
  by (induction "is" arbitrary: s) (simp_all add: tuning_step_def case_prod_unfold Let_def)

definition demo_tuning_at :: "int \<Rightarrow> tuning_operation option \<Rightarrow> tuning_node" where
  "demo_tuning_at r operation = \<lparr> lt_request_id = r, lt_operation = operation,
     lt_state = \<lparr> ts_available = True, ts_values = demo_normal, ts_status = ''applying'', ts_detail = ''applying tuning atomically'',
       ts_request_id = 1, ts_unavailable_fields = Some [] \<rparr> \<rparr>"

lemma demo_requests:
  "fst (tuning_turn new_tuning (TI_request demo_tuning_io demo_snapshot))
     = demo_tuning_at 1 (Some (Setting 1 OWNERS demo_normal [] (fadd (Fin 1) TUNING_REQUEST_TIMEOUT_SEC)))"
proof -
  have io: "ti_walk demo_tuning_io = (\<lambda>fs. fs)" "ti_set_ready demo_tuning_io = (\<lambda>_. True)" "ti_now demo_tuning_io = Fin 1"
    by (simp_all add: demo_tuning_io_def)
  show ?thesis by (simp add: request_autonomy_tuning_def io demo_accepted new_tuning_def demo_tuning_at_def Let_def case_prod_unfold)
qed

lemma demo_acknowledges:
  "fst (tuning_turn (demo_tuning_at 1 (Some (Setting 1 pending demo_normal [] t))) (TI_set demo_tuning_io owner 1 (Inr (True, [])))) =
     (if owner \<notin> set pending then demo_tuning_at 1 (Some (Setting 1 pending demo_normal [] t))
      else if removeAll owner pending \<noteq> [] then demo_tuning_at 1 (Some (Setting 1 (removeAll owner pending) demo_normal [] t))
      else demo_tuning_at 2 (Some (Reading 2 OWNERS [] [] (Some \<lparr> ve_requested = demo_normal, ve_set_errors = [] \<rparr>)
             (fadd (Fin 1) TUNING_REQUEST_TIMEOUT_SEC))))"
  by (simp add: finish_tuning_set_def set_reply_def start_tuning_read_def demo_tuning_at_def Let_def)
    (simp add: demo_tuning_io_def)

lemma demo_reads_back:
  "fst (tuning_turn (demo_tuning_at 2 (Some (Reading 2 pending vs [] v t))) (TI_read owner 2 (demo_reply owner))) =
     (if owner \<notin> set pending then demo_tuning_at 2 (Some (Reading 2 pending vs [] v t))
      else if removeAll owner pending \<noteq> [] then demo_tuning_at 2 (Some (Reading 2 (removeAll owner pending) (dict_merge vs (demo_part owner)) [] v t))
      else (demo_tuning_at 2 None)\<lparr>lt_state := read_state (lt_state (demo_tuning_at 2 None)) (dict_merge vs (demo_part owner)) [] v\<rparr>)"
  by (simp add: demo_reply_read finish_tuning_read_def demo_tuning_at_def Let_def)

lemma demo_tuning_node:
  "fst demo_tuning_run = demo_tuning_at 2 (Some (Reading 2 [PLANNER_OWNER] (dict_merge (dict_merge (dict_merge [] (demo_part CONTROLLER_OWNER))
       (demo_part ADAPTER_OWNER)) (demo_part NAVIGATOR_OWNER)) [] (Some \<lparr> ve_requested = demo_normal, ve_set_errors = [] \<rparr>)
       (fadd (Fin 1) TUNING_REQUEST_TIMEOUT_SEC)))"
proof -
  have d: "distinct [CONTROLLER_OWNER, ADAPTER_OWNER, NAVIGATOR_OWNER, PLANNER_OWNER]"
    by (simp add: CONTROLLER_OWNER_def ADAPTER_OWNER_def NAVIGATOR_OWNER_def PLANNER_OWNER_def)
  show ?thesis unfolding demo_tuning_run_def run_turns demo_tuning_inputs_def
    using d by (simp add: demo_requests OWNERS_def demo_acknowledges demo_reads_back del: tuning_turn.simps)
qed

lemma demo_tuning_facts:
  "ts_status (lt_state (fst demo_tuning_run)) = ''applying''"
  "lt_state (fst (tuning_turn (fst demo_tuning_run) (TI_read PLANNER_OWNER 2 (demo_reply PLANNER_OWNER))))
     = read_state (lt_state (demo_tuning_at 2 None)) demo_read_back [] (Some \<lparr> ve_requested = demo_normal, ve_set_errors = [] \<rparr>)"
  unfolding demo_tuning_node demo_reads_back by (simp_all add: demo_read_back_def demo_tuning_at_def)

lemma demo_read_back_same: "same_values demo_read_back demo_normal"
proof -
  have m: "set (dict_merge d u) \<subseteq> (\<lambda>f. (f, demo_value f)) ` UNIV" if "set d \<subseteq> (\<lambda>f. (f, demo_value f)) ` UNIV" "set u \<subseteq> (\<lambda>f. (f, demo_value f)) ` UNIV"
    for d u :: tuning_values
    using that dict_merge_items [of d u] by blast
  have p: "set (demo_part owner) \<subseteq> (\<lambda>f. (f, demo_value f)) ` UNIV" for owner by (auto simp: demo_part_def)
  have g: "set demo_read_back \<subseteq> (\<lambda>f. (f, demo_value f)) ` UNIV" unfolding demo_read_back_def by (intro m p) simp
  have "set (map fst demo_read_back) = set (fields_of CONTROLLER_OWNER) \<union> set (fields_of ADAPTER_OWNER) \<union> set (fields_of NAVIGATOR_OWNER)
      \<union> set (fields_of PLANNER_OWNER)"
    unfolding demo_read_back_def dict_merge_keys by (simp add: demo_part_def comp_def)
  also have "\<dots> = set FIELDS"
    by (auto simp: fields_of_def FIELDS_def PARAMETERS_def tuned_def CONTROLLER_OWNER_def ADAPTER_OWNER_def NAVIGATOR_OWNER_def PLANNER_OWNER_def)
  finally have k: "set (map fst demo_read_back) = set FIELDS" .
  have "tval demo_read_back f = demo_value f" if "f \<in> set FIELDS" for f
  proof -
    have "f \<in> fst ` set demo_read_back" using that k by simp
    then obtain x where "map_of demo_read_back f = Some x"
      by (cases "map_of demo_read_back f") (simp_all only: map_of_eq_None_iff not_None_eq, blast+)
    moreover have "x = demo_value f" using g map_of_SomeD [OF calculation] by auto
    ultimately show ?thesis by (simp add: tval_def)
  qed
  moreover have "demo_value f \<noteq> NaN" for f by (simp add: demo_value_def)
  ultimately show ?thesis using k demo_tval by (auto simp: same_values_def demo_normal_def list_all_iff feq_iff image_iff comp_def)
qed

section \<open>Properties\<close>

text \<open>
  C19. The panel says that a tuning was applied only when it was: in every run,
  with replies lost, doubled or late in any way, the status becomes \<open>applied\<close>
  only on the last reply of a read-back whose values equal the requested
  snapshot, which was validated, was sent to all four owners under one earlier
  request and was acknowledged by each of them.
\<close>

theorem applied_tuning_is_confirmed:
  assumes "s = run_steps tuning_step (new_tuning, []) is" and "n' = fst (tuning_turn (fst s) i)"
    and "ts_status (lt_state n') = ''applied''" and "ts_status (lt_state (fst s)) \<noteq> ''applied''"
  shows "\<exists>owner reader reply requested writer walk vs. i = TI_read owner reader reply \<and> writer < reader
    \<and> validate_values walk vs = Inr requested
    \<and> (\<forall>o' \<in> set OWNERS. TL_effect (TE_set o' writer (values_for_owner requested o')) \<in> set (snd s)
          \<and> TL_acknowledged o' writer \<in> set (snd s))
    \<and> ts_available (lt_state n') \<and> same_values (ts_values (lt_state n')) requested"
proof -
  have loud: "\<not> quiet (fst s) n'" using assms(3,4) by (simp add: quiet_def)
  have inv: "tune_inv s" using assms(1) tuning.invar_reachable by (simp add: tuning_initial_def)
  show ?thesis
  proof (cases i)
    case (TI_read owner rid reply)
    obtain observed error where r: "read_reply owner reply = (observed, error)" by fastforce
    then have n': "n' = fst (finish_tuning_read (fst s) owner rid observed error)" using assms(2) TI_read by simp
    obtain pending vs ve deadline where o: "lt_operation (fst s) = Some (Reading rid pending vs [] (Some ve) deadline)" "ve_set_errors ve = []"
        "lt_state n' = read_state (lt_state (fst s)) (dict_merge vs observed) [] (Some ve)" "same_values (dict_merge vs observed) (ve_requested ve)"
      using loud unfolding n' by (rule read_confirms)
    obtain w where w: "w < rid" "written (snd s) w (ve_requested ve)" using inv o(1,2) by (auto simp: tune_inv_def)
    have shown: "ts_available (lt_state n')" "ts_values (lt_state n') = dict_merge vs observed" using o(3) by (auto simp: read_state_def Let_def)
    obtain walk raw where "validate_values walk raw = Inr (ve_requested ve)" using w(2) by (auto simp: written_def)
    then show ?thesis using TI_read w shown o(4)
      by (intro exI [of _ owner] exI [of _ rid] exI [of _ reply] exI [of _ "ve_requested ve"] exI [of _ w] exI [of _ walk] exI [of _ raw])
        (simp add: written_def sent_def acknowledged_def)
  next
    case (TI_timer io)
    then show ?thesis using loud assms(2) refresh_quiet by simp
  next
    case (TI_request io vs)
    then show ?thesis using loud assms(2) request_quiet [of io "fst s" vs] by (auto split: sum.split_asm prod.split_asm)
  next
    case (TI_set io owner rid reply)
    then show ?thesis using loud assms(2) finish_set_quiet by simp
  qed
qed

theorem applied_tuning_is_confirmed_witness:
  "ts_status (lt_state (fst (tuning_turn (fst demo_tuning_run) (TI_read PLANNER_OWNER 2 (demo_reply PLANNER_OWNER))))) = ''applied''
   \<and> (\<exists>requested writer. writer < 2 \<and> TL_acknowledged PLANNER_OWNER writer \<in> set (snd demo_tuning_run))"
proof -
  let ?i = "TI_read PLANNER_OWNER 2 (demo_reply PLANNER_OWNER)"
  have a: "ts_status (lt_state (fst (tuning_turn (fst demo_tuning_run) ?i))) = ''applied''"
    unfolding demo_tuning_facts(2) using demo_read_back_same by (simp add: read_state_def Let_def)
  have "PLANNER_OWNER \<in> set OWNERS" by (simp add: OWNERS_def)
  then show ?thesis
    using applied_tuning_is_confirmed [OF demo_tuning_run_def refl a] demo_tuning_facts(1) a by auto
qed

end
