(* ===== verification/Spec2Isabelle.thy ===== *)
theory Spec2Isabelle
  imports CommandSupervisor StopEnforcer DriveAdapter WheelEncoder MotorDriver NavigationNode PngCodec Teleop
    MapSession Semantics ModeRuntime CommandAuthority LocalTakeover ClientStream ModeNode SpeedProfiles BrowserRun InitialPose
    LiveParameters
begin

text \<open>
  This library models the command path of the Runner vehicle and the Paddock
  ground station that drives it, as they are written in Python under \<open>src/\<close>.

  The parts and how they interact. A browser or a gamepad asks for motion. The
  browser's requests reach the command authority node, the only writer of the
  Paddock outputs: it holds the control lease, reduces every event with a pure
  state machine and lets a command through only while authority, lease, STOP
  state and freshness allow it. The gamepad drives through the teleop node,
  whose takeover epochs the authority follows. The STOP enforcer asserts a
  persistent lock that survives a restart. In autonomy the navigation runtime
  owns one mission and one Nav2 action at a time, and the drive adapter turns
  the speed it receives into a throttle with feedforward and a PI controller.
  The motor driver writes PWM and steering and reverses only when the encoder
  reports standstill. The mode runtime starts and stops the mapping and
  autonomy units; the map session keeps the map bundles on disk. The gateway's
  state cache and client streams show all of it to the browsers.

  Theories and sources (\<open>P\<close> is \<open>src/src/runner_paddock/runner_paddock\<close>):
  \<^item> \<open>Prelude\<close>: exceptions as values, Python dictionaries with insertion order,
    text of integers, runs of a step function, and the locales \<open>keyed_store\<close>,
    \<open>machine\<close> and \<open>counting_machine\<close>, which every stateful component interprets
    on its own step function.
  \<^item> \<open>PyFloat\<close>: Python's floats, see below.
  \<^item> \<open>StateMachine\<close>, \<open>CommandSupervisor\<close>, \<open>CommandAuthority\<close>: \<open>P/state_machine.py\<close>,
    \<open>P/command_supervisor.py\<close>, \<open>P/command_authority_node.py\<close>. The reducer, the
    lease and freshness gates around it, and the node with its output gates.
  \<^item> \<open>StopEnforcer\<close>: \<open>P/stop_enforcer.py\<close>.
  \<^item> \<open>Teleop\<close>, \<open>LocalTakeover\<close>: \<open>runner_teleop/teleop_node.py\<close>, and its composition
    with the command authority over a channel that loses samples.
  \<^item> \<open>NavigationRuntime\<close>, \<open>NavigationNode\<close>: \<open>runner_bringup/navigation_runtime.py\<close>,
    the mission lifecycle and the action executor with its futures.
  \<^item> \<open>ModeRuntime\<close>, \<open>ModeNode\<close>: \<open>P/mode_runtime.py\<close>, \<open>P/mode_supervisor_node.py\<close>.
  \<^item> \<open>MapStore\<close>, \<open>MapSession\<close>, \<open>Semantics\<close>, \<open>PngCodec\<close>: \<open>P/map_session.py\<close>,
    \<open>P/map_session_node.py\<close>, \<open>P/semantics.py\<close>, \<open>P/png_codec.py\<close>, over an explicit
    store of map directories.
  \<^item> \<open>DriveAdapter\<close>, \<open>WheelEncoder\<close>, \<open>MotorDriver\<close>: \<open>drive_adapter.py\<close>,
    \<open>encoder_state.py\<close> and \<open>motor_node.py\<close> of their packages.
  \<^item> \<open>Protocol\<close>, \<open>StateCache\<close>, \<open>ClientStream\<close>: \<open>P/protocol.py\<close>, \<open>P/state_cache.py\<close>,
    \<open>P/client_stream.py\<close>.
  \<^item> \<open>AutonomyTuning\<close>, \<open>SpeedProfiles\<close>: \<open>P/autonomy_tuning.py\<close>,
    \<open>P/speed_profiles.py\<close>, the tuning contract and the profile files.
  \<^item> \<open>Gateway\<close>, \<open>BrowserRun\<close>: \<open>P/gateway.py\<close>, the validation of browser actions,
    and its composition with the command supervisor over the channel of control
    events.
  \<^item> \<open>GridGeometry\<close>, \<open>InitialPose\<close>, \<open>LiveParameters\<close>: \<open>P/grid_geometry.py\<close> and, of
    \<open>P/ros_state_node.py\<close>, the initial pose transaction, the admission of autonomy
    without a map and the tuning transaction over the parameter services.

  Conventions. A class is a record whose fields carry the attribute's name after
  a prefix of the component (\<open>an_\<close> for the authority node, \<open>da_\<close> for the drive
  adapter), an operation is a function that takes the state and returns the new
  one, and what it sends or writes is appended to a list of effects. A Python
  exception is the \<open>Inl\<close> of a sum; messages are kept where the program uses them,
  and abbreviated where they only reach a log. A callback runs under its node's
  lock or in a mutually exclusive group, so it is one step (the encoder callback of
  the mode supervisor, which writes two attributes a waiting transition reads,
  is two); where the program
  releases the lock and waits (a save, a transition, a future) the model has a
  step for each side of the wait. Clock readings, UUIDs, readings of systemd, of
  the ROS graph, of devices and of files are arguments of the step that reads
  them.

  Floats. \<open>pyfloat\<close> is IEEE binary64: finite values as rationals, the infinities
  and NaN; an operation rounds the exact result half to even, and -0.0 is
  identified with 0.0. \<open>min\<close> and \<open>max\<close> compare in the order of the source, so they
  do with NaN what Python does. \<open>math.tan\<close>, \<open>atan\<close>, \<open>atan2\<close>,
  \<open>hypot\<close>, \<open>sin\<close> and \<open>cos\<close>, the power of the teleop curve, the text of a value under
  \<open>str\<close> and \<open>repr\<close>, the order in which a set is walked, zlib, YAML and SHA-256 are
  parameters, and so is JSON text, of which the documents are modelled; theorems
  that need something of them state it as a hypothesis, and the witnesses give
  a concrete function for it.

  Bounds. A waiting loop gets the list of what it observed before its deadline,
  and an exhausted list is the timeout. The PWM retry loop makes at most twenty
  attempts, which \<open>MotorDriver.retry_returns_first_success\<close> shows to be enough for
  its schedule. The encoder keeps as many edges as it is configured to,
  taken to be fewer than nine million, so that its quotient is exact enough. The shortest decimal text of a float is searched
  among at most seventeen significant digits, which suffice for binary64.

  What the lemmas show. Each theory proves an invariant of its state over all
  runs (through the interpretation of \<open>machine\<close> or \<open>counting_machine\<close>) and the
  behaviour of its operations on every branch, and ends with properties of the
  whole component: who may cause an output and under which conditions, that a
  revocation or a STOP takes effect at once and lasts, which messages received
  before explain an output (\<open>Teleop\<close>, \<open>CommandAuthority\<close> state this over the
  inputs of the run and not over the node's own flags), that nothing raises where
  the code must not raise, that encoders and decoders invert each other, that
  two components agree on their contract. A property's example follows it as a
  theorem of its own, evaluated on concrete inputs.

  Not modelled: ROS plumbing (publishers, subscriptions, quality of service,
  conversion of messages field by field), the aiohttp server and the launch
  files, which only move data between the modelled parts; logging; the D-Bus
  adapter of systemd, of which a reading or its error is an input; the vendored
  Nav2 lattice generator; the offline analysis scripts under \<open>src/tools\<close>.

  Planned next: the obstacle switch, the message handlers and the readers of the
  ROS state node, bag recording, the speed envelope observer and the scan
  filters, and compositions of STOP requests and navigation requests with the
  components that serve them.
\<close>

end
